(* ===== verification/Prelude.thy ===== *)
theory Prelude
  imports Main "HOL-Library.Sublist"
begin

text \<open>
  What every component of the development shares: Go's byte strings and the functions of the
  standard library's \<open>strings\<close>, \<open>strconv\<close> and \<open>path\<close> packages that the sources call, maps
  as partial functions, results of fallible calls as sums, and the theorem collections the
  component proofs use. A Go string is a list of bytes, so it is a HOL \<open>string\<close> here
  (\<open>length\<close> counts bytes as \<open>len\<close> does). The case mapping and the white space of
  \<open>strings.ToLower\<close> and \<open>strings.TrimSpace\<close> are those of the ASCII range; the Unicode
  part of both functions is not modelled.
\<close>

named_theorems go_str \<open>equations of the string functions\<close>
named_theorems frame \<open>what an operation leaves unchanged\<close>
named_theorems inv_intro \<open>invariants: established and preserved\<close>

section \<open>Results of fallible calls\<close>

text \<open>A Go pair \<open>(value, error)\<close> is \<open>Inr value\<close> when the error is nil, \<open>Inl error\<close> else.\<close>

type_synonym ('e, 'a) res = "'e + 'a"

fun is_ok :: "('e, 'a) res \<Rightarrow> bool" where
  "is_ok (Inl _) = False"
| "is_ok (Inr _) = True"

lemma is_ok_iff: "is_ok r \<longleftrightarrow> (\<exists>x. r = Inr x)"
  by (cases r) auto

lemma not_is_ok_iff: "\<not> is_ok r \<longleftrightarrow> (\<exists>e. r = Inl e)"
  by (cases r) auto

section \<open>Character classes\<close>

definition is_space :: "char \<Rightarrow> bool" where
  "is_space c \<longleftrightarrow> c \<in> {CHR '' '', CHR 0x09, CHR 0x0A, CHR 0x0B, CHR 0x0C, CHR 0x0D}"

definition is_upper :: "char \<Rightarrow> bool" where
  "is_upper c \<longleftrightarrow> 65 \<le> (of_char c :: nat) \<and> (of_char c :: nat) \<le> 90"

definition is_lower :: "char \<Rightarrow> bool" where
  "is_lower c \<longleftrightarrow> 97 \<le> (of_char c :: nat) \<and> (of_char c :: nat) \<le> 122"

definition is_digit :: "char \<Rightarrow> bool" where
  "is_digit c \<longleftrightarrow> 48 \<le> (of_char c :: nat) \<and> (of_char c :: nat) \<le> 57"

definition lower_char :: "char \<Rightarrow> char" where
  "lower_char c = (if is_upper c then char_of ((of_char c :: nat) + 32) else c)"

lemma of_char_lower_char:
  "(of_char (lower_char c) :: nat) = (if is_upper c then of_char c + 32 else of_char c)"
  by (auto simp: lower_char_def is_upper_def)

lemma lower_char_not_upper [simp]: "\<not> is_upper (lower_char c)"
  by (simp add: is_upper_def of_char_lower_char)

lemma lower_char_id: "\<not> is_upper c \<Longrightarrow> lower_char c = c"
  by (simp add: lower_char_def)

lemma lower_char_idem [simp]: "lower_char (lower_char c) = lower_char c"
  by (simp add: lower_char_id)

lemma of_char_eq_nat_iff: "(of_char c :: nat) = of_char d \<longleftrightarrow> c = d"
  by simp

lemma char_eq_code: "n < 256 \<Longrightarrow> (of_char c :: nat) = n \<longleftrightarrow> c = char_of n"
  by (metis char_of_char of_char_of mod_less)

lemma is_space_code:
  "is_space c \<longleftrightarrow> (of_char c :: nat) \<in> {32, 9, 10, 11, 12, 13}"
  by (simp add: is_space_def char_eq_code) (simp add: char_of_def bit_Suc bit_0)

lemma upper_not_space: "is_upper c \<Longrightarrow> \<not> is_space c"
  by (auto simp: is_space_code is_upper_def)

lemma is_space_lower_char [simp]: "is_space (lower_char c) = is_space c"
  by (cases "is_upper c") (auto simp: is_space_code of_char_lower_char is_upper_def)

section \<open>strings\<close>

text \<open>\<open>strings.ToLower\<close>\<close>

definition to_lower :: "string \<Rightarrow> string" where
  "to_lower s = map lower_char s"

text \<open>\<open>strings.TrimLeftFunc\<close>, \<open>strings.TrimRightFunc\<close> and \<open>strings.TrimFunc\<close>\<close>

definition trim_left_if :: "('a \<Rightarrow> bool) \<Rightarrow> 'a list \<Rightarrow> 'a list" where
  "trim_left_if P s = dropWhile P s"

definition trim_right_if :: "('a \<Rightarrow> bool) \<Rightarrow> 'a list \<Rightarrow> 'a list" where
  "trim_right_if P s = rev (dropWhile P (rev s))"

definition trim_if :: "('a \<Rightarrow> bool) \<Rightarrow> 'a list \<Rightarrow> 'a list" where
  "trim_if P s = trim_right_if P (trim_left_if P s)"

text \<open>
  \<open>strings.TrimSpace\<close> removes the runes of \<open>unicode.IsSpace\<close>: the six ASCII ones and the UTF-8 encodings
  of U+0085, U+00A0, U+1680, U+2000 to U+200A, U+2028, U+2029, U+202F, U+205F and U+3000. \<open>space_at\<close> is the
  number of bytes of the space a string starts with, 0 when it starts with none; the end of a string is the
  start of its reversal.
\<close>

definition wide_spaces :: "string list" where
  "wide_spaces =
     [[CHR 0xC2, CHR 0x85], [CHR 0xC2, CHR 0xA0], [CHR 0xE1, CHR 0x9A, CHR 0x80],
      [CHR 0xE2, CHR 0x80, CHR 0x80], [CHR 0xE2, CHR 0x80, CHR 0x81], [CHR 0xE2, CHR 0x80, CHR 0x82],
      [CHR 0xE2, CHR 0x80, CHR 0x83], [CHR 0xE2, CHR 0x80, CHR 0x84], [CHR 0xE2, CHR 0x80, CHR 0x85],
      [CHR 0xE2, CHR 0x80, CHR 0x86], [CHR 0xE2, CHR 0x80, CHR 0x87], [CHR 0xE2, CHR 0x80, CHR 0x88],
      [CHR 0xE2, CHR 0x80, CHR 0x89], [CHR 0xE2, CHR 0x80, CHR 0x8A], [CHR 0xE2, CHR 0x80, CHR 0xA8],
      [CHR 0xE2, CHR 0x80, CHR 0xA9], [CHR 0xE2, CHR 0x80, CHR 0xAF], [CHR 0xE2, CHR 0x81, CHR 0x9F],
      [CHR 0xE3, CHR 0x80, CHR 0x80]]"

definition space_at :: "string list \<Rightarrow> string \<Rightarrow> nat" where
  "space_at ps s =
     (case s of
        [] \<Rightarrow> 0
      | c # _ \<Rightarrow> if is_space c then 1
                else (case find (\<lambda>p. take (length p) s = p) ps of None \<Rightarrow> 0 | Some p \<Rightarrow> length p))"

function strip_space :: "string list \<Rightarrow> string \<Rightarrow> string" where
  "strip_space ps s = (if space_at ps s = 0 then s else strip_space ps (drop (space_at ps s) s))"
  by pat_completeness auto
termination
  by (relation "measure (length \<circ> snd)") (auto simp: space_at_def split: list.splits)

declare strip_space.simps [simp del]

definition trim_space :: "string \<Rightarrow> string" where
  "trim_space s = rev (strip_space (map rev wide_spaces) (rev (strip_space wide_spaces s)))"

text \<open>\<open>strings.Trim\<close> and \<open>strings.TrimRight\<close> with a cut set\<close>

definition trim_set :: "string \<Rightarrow> string \<Rightarrow> string" where
  "trim_set s cs = trim_if (\<lambda>c. c \<in> set cs) s"

definition trim_right_set :: "string \<Rightarrow> string \<Rightarrow> string" where
  "trim_right_set s cs = trim_right_if (\<lambda>c. c \<in> set cs) s"

text \<open>\<open>strings.HasPrefix\<close>, \<open>HasSuffix\<close>, \<open>TrimPrefix\<close>, \<open>TrimSuffix\<close>, \<open>CutPrefix\<close>\<close>

definition has_prefix :: "string \<Rightarrow> string \<Rightarrow> bool" where
  "has_prefix s p \<longleftrightarrow> take (length p) s = p"

definition has_suffix :: "string \<Rightarrow> string \<Rightarrow> bool" where
  "has_suffix s p \<longleftrightarrow> length p \<le> length s \<and> drop (length s - length p) s = p"

definition trim_prefix :: "string \<Rightarrow> string \<Rightarrow> string" where
  "trim_prefix s p = (if has_prefix s p then drop (length p) s else s)"

definition trim_suffix :: "string \<Rightarrow> string \<Rightarrow> string" where
  "trim_suffix s p = (if has_suffix s p then take (length s - length p) s else s)"

definition cut_prefix :: "string \<Rightarrow> string \<Rightarrow> string option" where
  "cut_prefix s p = (if has_prefix s p then Some (drop (length p) s) else None)"

text \<open>\<open>strings.Index\<close>: the least position of a substring, None for -1.\<close>

fun str_index :: "string \<Rightarrow> string \<Rightarrow> nat option" where
  "str_index s p =
     (if has_prefix s p then Some 0
      else case s of [] \<Rightarrow> None | _ # r \<Rightarrow> map_option Suc (str_index r p))"

declare str_index.simps [simp del]

definition str_contains :: "string \<Rightarrow> string \<Rightarrow> bool" where
  "str_contains s p \<longleftrightarrow> str_index s p \<noteq> None"

text \<open>\<open>strings.IndexByte\<close> and \<open>strings.LastIndex\<close> with a one-byte separator\<close>

fun index_byte :: "string \<Rightarrow> char \<Rightarrow> nat option" where
  "index_byte [] c = None"
| "index_byte (x # xs) c = (if x = c then Some 0 else map_option Suc (index_byte xs c))"

definition after_last :: "char \<Rightarrow> string \<Rightarrow> string option" where
  "after_last c s = (if c \<in> set s then Some (rev (takeWhile (\<lambda>x. x \<noteq> c) (rev s))) else None)"

text \<open>\<open>strings.Split\<close> with a separator that is not empty\<close>

function str_split :: "string \<Rightarrow> string \<Rightarrow> string list" where
  "str_split sep s =
     (case str_index s sep of
        None \<Rightarrow> [s]
      | Some i \<Rightarrow> if sep = [] then [s] else take i s # str_split sep (drop (i + length sep) s))"
  by pat_completeness auto
termination
proof (relation "measure (\<lambda>(sep, s). length s)", goal_cases)
  case 1
  then show ?case by simp
next
  case (2 sep s i)
  have "s \<noteq> []"
  proof
    assume "s = []"
    with 2 show False by (auto simp: str_index.simps has_prefix_def split: if_splits)
  qed
  with 2 show ?case by (cases sep) auto
qed

declare str_split.simps [simp del]

text \<open>\<open>strings.Join\<close>\<close>

fun str_join :: "string \<Rightarrow> string list \<Rightarrow> string" where
  "str_join sep [] = []"
| "str_join sep [x] = x"
| "str_join sep (x # y # ys) = x @ sep @ str_join sep (y # ys)"

text \<open>\<open>strings.EqualFold\<close> on ASCII\<close>

definition equal_fold :: "string \<Rightarrow> string \<Rightarrow> bool" where
  "equal_fold a b \<longleftrightarrow> to_lower a = to_lower b"

text \<open>\<open>strconv.Itoa\<close>\<close>

definition digit_char :: "nat \<Rightarrow> char" where
  "digit_char d = char_of (48 + d)"

fun nat_str :: "nat \<Rightarrow> string" where
  "nat_str n = (if n < 10 then [digit_char n] else nat_str (n div 10) @ [digit_char (n mod 10)])"

declare nat_str.simps [simp del]

definition itoa :: "int \<Rightarrow> string" where
  "itoa i = (if i < 0 then ''-'' @ nat_str (nat (- i)) else nat_str (nat i))"

text \<open>\<open>strconv.Atoi\<close>: an optional sign and digits; the range of int is checked by the callers.\<close>

fun digits_value :: "nat \<Rightarrow> string \<Rightarrow> nat option" where
  "digits_value acc [] = Some acc"
| "digits_value acc (c # cs) = (if is_digit c then digits_value (10 * acc + (of_char c - 48)) cs else None)"

definition atoi :: "string \<Rightarrow> int option" where
  "atoi s =
     (case s of
        [] \<Rightarrow> None
      | c # cs \<Rightarrow>
          if c = CHR ''-'' then (if cs = [] then None else map_option (\<lambda>n. - int n) (digits_value 0 cs))
          else if c = CHR ''+'' then (if cs = [] then None else map_option int (digits_value 0 cs))
          else map_option int (digits_value 0 s))"

text \<open>Go's \<open>int\<close> and \<open>int64\<close> have 64 bits: a result beyond them wraps around.\<close>

definition to_int64 :: "int \<Rightarrow> int" where
  "to_int64 x = (x + 2 ^ 63) mod 2 ^ 64 - 2 ^ 63"

subsection \<open>Laws\<close>

lemma to_lower_idem [simp]: "to_lower (to_lower s) = to_lower s"
  by (simp add: to_lower_def)

lemma to_lower_append: "to_lower (a @ b) = to_lower a @ to_lower b"
  by (simp add: to_lower_def)

lemma to_lower_eq_Nil [simp]: "to_lower s = [] \<longleftrightarrow> s = []"
  by (simp add: to_lower_def)

lemma length_to_lower [simp]: "length (to_lower s) = length s"
  by (simp add: to_lower_def)

lemma trim_right_if_idem: "trim_right_if P (trim_right_if P s) = trim_right_if P s"
  by (simp add: trim_right_if_def)

lemma dropWhile_hd: "dropWhile P xs \<noteq> [] \<Longrightarrow> \<not> P (hd (dropWhile P xs))"
  by (rule hd_dropWhile)

lemma trim_right_if_hd:
  assumes "xs \<noteq> []" "\<not> P (hd xs)"
  shows "trim_right_if P xs \<noteq> [] \<and> hd (trim_right_if P xs) = hd xs"
proof -
  obtain x r where xs: "xs = x # r" using assms(1) by (cases xs) auto
  have "dropWhile P (rev r @ [x]) = dropWhile P (rev r) @ [x]"
    using assms(2) xs by (cases "\<forall>y\<in>set (rev r). P y")
      (auto simp: dropWhile_append1 dropWhile_append2 dropWhile_eq_Nil_conv
         simp del: set_rev intro!: dropWhile_append3)
  then show ?thesis by (simp add: trim_right_if_def xs)
qed

lemma trim_left_if_id: "s = [] \<or> \<not> P (hd s) \<Longrightarrow> trim_left_if P s = s"
  by (cases s) (auto simp: trim_left_if_def)

lemma trim_if_hd: "trim_if P s \<noteq> [] \<Longrightarrow> \<not> P (hd (trim_if P s))"
proof -
  assume "trim_if P s \<noteq> []"
  then have "trim_left_if P s \<noteq> []"
    by (auto simp: trim_if_def trim_right_if_def)
  then show ?thesis
    using trim_right_if_hd[of "trim_left_if P s" P] dropWhile_hd[of P s]
    by (auto simp: trim_if_def trim_left_if_def)
qed

lemma trim_if_last: "trim_if P s \<noteq> [] \<Longrightarrow> \<not> P (last (trim_if P s))"
  by (auto simp: trim_if_def trim_right_if_def last_rev hd_dropWhile)

lemma trim_if_idem [simp]: "trim_if P (trim_if P s) = trim_if P s"
proof -
  have "trim_left_if P (trim_if P s) = trim_if P s"
    using trim_if_hd[of P s] by (intro trim_left_if_id) auto
  then show ?thesis
    by (simp add: trim_if_def[of P "trim_if P s"]) (simp add: trim_if_def trim_right_if_idem)
qed

lemma trim_if_id: "s = [] \<or> (\<not> P (hd s) \<and> \<not> P (last s)) \<Longrightarrow> trim_if P s = s"
  by (cases s rule: rev_cases)
    (auto simp: trim_if_def trim_left_if_id trim_right_if_def)

text \<open>\<open>unspaced\<close> strings neither start nor end with a space; \<open>plain_char\<close> is no byte of any space.\<close>

definition unspaced :: "string \<Rightarrow> bool" where
  "unspaced s \<longleftrightarrow> space_at wide_spaces s = 0 \<and> space_at (map rev wide_spaces) (rev s) = 0"

definition plain_char :: "char \<Rightarrow> bool" where
  "plain_char c \<longleftrightarrow> \<not> is_space c \<and> (of_char c :: nat) < 128"

lemma wide_bytes: "p \<in> set wide_spaces \<Longrightarrow> p \<noteq> [] \<and> list_all (\<lambda>c. \<not> plain_char c) p"
proof -
  have "list_all (\<lambda>p. p \<noteq> [] \<and> list_all (\<lambda>c. 128 \<le> (of_char c :: nat)) p) wide_spaces" by code_simp
  then show "p \<in> set wide_spaces \<Longrightarrow> p \<noteq> [] \<and> list_all (\<lambda>c. \<not> plain_char c) p"
    unfolding list_all_iff plain_char_def using leD by blast
qed

lemma wide_bytes_rev: "p \<in> set (map rev wide_spaces) \<Longrightarrow> p \<noteq> [] \<and> list_all (\<lambda>c. \<not> plain_char c) p"
  using wide_bytes by auto

lemma space_at_Nil [simp]: "space_at ps [] = 0"
  by (simp add: space_at_def)

lemma strip_space_id: "space_at ps s = 0 \<Longrightarrow> strip_space ps s = s"
  by (simp add: strip_space.simps)

lemma space_at_strip [simp]: "space_at ps (strip_space ps s) = 0"
proof (induction ps s rule: strip_space.induct)
  case (1 ps s)
  then show ?case by (cases "space_at ps s = 0") (simp_all add: strip_space.simps[of ps s])
qed

lemma strip_space_drop: "\<exists>n. strip_space ps s = drop n s"
proof (induction ps s rule: strip_space.induct)
  case (1 ps s)
  show ?case
  proof (cases "space_at ps s = 0")
    case True
    then show ?thesis by (intro exI[of _ 0]) (simp add: strip_space_id)
  next
    case False
    with 1 obtain n where "strip_space ps (drop (space_at ps s) s) = drop n (drop (space_at ps s) s)" by blast
    then show ?thesis using False by (auto simp: strip_space.simps[of ps s])
  qed
qed

lemma space_at_take: "space_at ps s = 0 \<Longrightarrow> [] \<notin> set ps \<Longrightarrow> space_at ps (take n s) = 0"
proof (rule ccontr)
  assume z: "space_at ps s = 0" and ne: "[] \<notin> set ps" and c: "space_at ps (take n s) \<noteq> 0"
  obtain a t where s: "s = a # t" using c by (cases s) auto
  obtain m where n: "n = Suc m" using c by (cases n) auto
  have a: "\<not> is_space a" using z by (auto simp: s space_at_def)
  then obtain p where "find (\<lambda>p. take (length p) (take n s) = p) ps = Some p"
    using c by (auto simp: s n space_at_def split: option.splits)
  then have p: "p \<in> set ps" "take (length p) (take n s) = p" by (auto simp: find_Some_iff)
  have "take (length p) s = p"
  proof (cases "length p \<le> n")
    case False
    then have "take n s = p" using p(2) by simp
    then have "length s < n \<longrightarrow> take (length p) s = p" "length p \<le> n" by auto
    then show ?thesis using False by blast
  qed (use p(2) in \<open>simp add: min_def\<close>)
  with p(1) have f: "find (\<lambda>p. take (length p) s = p) ps \<noteq> None" by (auto simp: find_None_iff)
  then obtain q where "find (\<lambda>p. take (length p) s = p) ps = Some q" by blast
  moreover from this have "q \<noteq> []" using ne nth_mem unfolding find_Some_iff by metis
  ultimately show False using z a by (simp add: s space_at_def)
qed

lemma strip_space_end: "\<exists>n. rev (strip_space ps (rev s)) = take n s"
  using strip_space_drop[of ps "rev s"] by (auto simp: drop_rev)

lemma unspaced_trim: "unspaced (trim_space s)"
proof -
  obtain n where "trim_space s = take n (strip_space wide_spaces s)"
    using strip_space_end[of "map rev wide_spaces" "strip_space wide_spaces s"] by (auto simp: trim_space_def)
  then have "space_at wide_spaces (trim_space s) = 0"
    using space_at_take[of wide_spaces "strip_space wide_spaces s" n] wide_bytes by auto
  then show ?thesis by (simp add: unspaced_def trim_space_def)
qed

lemma trim_space_id: "unspaced s \<Longrightarrow> trim_space s = s"
  by (simp add: unspaced_def trim_space_def strip_space_id)

lemma unspaced_iff: "unspaced s \<longleftrightarrow> trim_space s = s"
  using trim_space_id unspaced_trim by metis

lemma trim_space_idem [simp]: "trim_space (trim_space s) = trim_space s"
  by (rule trim_space_id[OF unspaced_trim])

lemma trim_space_Nil [simp]: "trim_space [] = []"
  by (rule trim_space_id) (simp add: unspaced_def)

lemma space_at_plain:
  assumes "\<And>p. p \<in> set ps \<Longrightarrow> p \<noteq> [] \<and> list_all (\<lambda>c. \<not> plain_char c) p"
  shows "list_all (\<lambda>c. \<not> plain_char c) (take (space_at ps s) s)"
  using assms
  by (fastforce simp: space_at_def find_Some_iff plain_char_def split: list.split option.split dest!: nth_mem)

lemma space_at_hd:
  assumes "\<And>p. p \<in> set ps \<Longrightarrow> p \<noteq> [] \<and> list_all (\<lambda>c. \<not> plain_char c) p" and "plain_char (hd s)" "s \<noteq> []"
  shows "space_at ps s = 0"
proof (rule ccontr)
  assume "space_at ps s \<noteq> 0"
  then have "hd s \<in> set (take (space_at ps s) s)" using assms(3) by (cases s; cases "space_at ps s") auto
  then show False using space_at_plain[where ps = ps and s = s, OF assms(1)] assms(2) by (auto simp: list_all_iff)
qed

lemma trim_space_edges:
  assumes "s \<noteq> [] \<Longrightarrow> plain_char (hd s) \<and> plain_char (last s)"
  shows "trim_space s = s"
proof (cases "s = []")
  case False
  then have "space_at wide_spaces s = 0" "space_at (map rev wide_spaces) (rev s) = 0"
    using assms space_at_hd[where ps = wide_spaces, OF wide_bytes]
      space_at_hd[where ps = "map rev wide_spaces" and s = "rev s", OF wide_bytes_rev] by (simp_all add: hd_rev)
  then show ?thesis by (intro trim_space_id) (simp add: unspaced_def)
qed simp

lemma trim_space_plain: "list_all plain_char s \<Longrightarrow> trim_space s = s"
  by (rule trim_space_edges) (auto simp: list_all_iff)

lemma strip_space_keeps:
  assumes "\<And>p. p \<in> set ps \<Longrightarrow> p \<noteq> [] \<and> list_all (\<lambda>c. \<not> plain_char c) p" "plain_char c"
  shows "c \<in> set s \<Longrightarrow> c \<in> set (strip_space ps s)"
  using assms
proof (induction ps s rule: strip_space.induct)
  case (1 ps s)
  show ?case
  proof (cases "space_at ps s = 0")
    case False
    have "c \<notin> set (take (space_at ps s) s)" using space_at_plain[where ps = ps and s = s, OF 1(3)] 1(4) by (auto simp: list_all_iff)
    then have "c \<in> set (drop (space_at ps s) s)" using 1(2) by (metis Un_iff append_take_drop_id set_append)
    then show ?thesis using 1(1)[OF False _ 1(3) 1(4)] False by (simp add: strip_space.simps[of ps s])
  qed (use 1 in \<open>simp add: strip_space_id\<close>)
qed

lemma trim_space_keeps: "c \<in> set s \<Longrightarrow> plain_char c \<Longrightarrow> c \<in> set (trim_space s)"
  unfolding trim_space_def set_rev
  by (rule strip_space_keeps[OF wide_bytes_rev], assumption+) (simp add: strip_space_keeps[OF wide_bytes])

text \<open>What follows a plain character does not make a string start with a space.\<close>

lemma space_at_join:
  assumes ps: "\<And>p. p \<in> set ps \<Longrightarrow> p \<noteq> [] \<and> list_all (\<lambda>c. \<not> plain_char c) p"
    and "s \<noteq> []" "space_at ps s = 0" "plain_char c"
  shows "space_at ps (s @ c # r) = 0"
proof (rule ccontr)
  let ?l = "s @ c # r"
  assume pos: "space_at ps ?l \<noteq> 0"
  have len: "space_at ps ?l \<le> length s"
  proof (rule ccontr)
    assume "\<not> space_at ps ?l \<le> length s"
    then obtain m where "space_at ps ?l = length s + Suc m" by (metis add_Suc_right less_imp_Suc_add not_le)
    then have "c \<in> set (take (space_at ps ?l) ?l)" by simp
    then show False
      using space_at_plain[where ps = ps and s = ?l, OF ps] assms(4) by (auto simp: list_all_iff)
  qed
  obtain a t where s: "s = a # t" using assms(2) by (cases s) auto
  have a: "\<not> is_space a" using assms(3) by (auto simp: s space_at_def)
  with pos obtain p where p: "find (\<lambda>p. take (length p) ?l = p) ps = Some p" "space_at ps ?l = length p"
    by (auto simp: s space_at_def split: option.splits)
  then have "p \<in> set ps" "take (length p) s = p" using len by (auto simp: find_Some_iff)
  then have "find (\<lambda>p. take (length p) s = p) ps \<noteq> None" by (auto simp: find_None_iff)
  then obtain q where q: "find (\<lambda>p. take (length p) s = p) ps = Some q" by blast
  then have "q \<noteq> []" using ps nth_mem unfolding find_Some_iff by metis
  then show False using assms(3) a q by (simp add: s space_at_def)
qed

lemma trim_space_join:
  assumes "a \<noteq> []" "b \<noteq> []" "trim_space a = a" "trim_space b = b" "plain_char c"
  shows "trim_space (a @ c # b) = a @ c # b"
proof (rule trim_space_id)
  have "unspaced a" "unspaced b" using assms(3,4) by (simp_all add: unspaced_iff)
  then show "unspaced (a @ c # b)"
    using assms space_at_join[where ps = wide_spaces and s = a and r = b and c = c, OF wide_bytes]
      space_at_join[where ps = "map rev wide_spaces" and s = "rev b" and r = "rev a" and c = c, OF wide_bytes_rev]
    by (simp add: unspaced_def)
qed

lemma set_trim_space: "set (trim_space s) \<subseteq> set s"
  using strip_space_drop[of wide_spaces s] strip_space_end[of "map rev wide_spaces" "strip_space wide_spaces s"]
  unfolding trim_space_def by (metis set_drop_subset set_take_subset subset_trans)

lemma set_trim_left_if: "set (trim_left_if P s) \<subseteq> set s"
  by (auto simp: trim_left_if_def dest: set_dropWhileD)

lemma set_trim_right_if: "set (trim_right_if P s) \<subseteq> set s"
  by (auto simp: trim_right_if_def dest: set_dropWhileD)

lemma set_trim_if: "set (trim_if P s) \<subseteq> set s"
  using set_trim_left_if[of P s] set_trim_right_if[of P "trim_left_if P s"]
  by (auto simp: trim_if_def)

lemma dropWhile_map_cong: "(\<And>x. P (f x) = P x) \<Longrightarrow> dropWhile P (map f xs) = map f (dropWhile P xs)"
  by (induction xs) auto

lemma space_at_lower:
  assumes "\<And>p c. p \<in> set ps \<Longrightarrow> c \<in> set p \<Longrightarrow> 128 \<le> (of_char c :: nat)"
  shows "space_at ps (map lower_char s) = space_at ps s"
proof -
  have low: "lower_char a = c \<longleftrightarrow> a = c" if "128 \<le> (of_char c :: nat)" for a c
  proof (cases "is_upper a")
    case True
    then have "(of_char a :: nat) < 128" "(of_char (lower_char a) :: nat) < 128"
      by (simp_all add: of_char_lower_char is_upper_def)
    then show ?thesis using that by auto
  qed (simp add: lower_char_id)
  have "map lower_char xs = p \<longleftrightarrow> xs = p" if "\<forall>c\<in>set p. 128 \<le> (of_char c :: nat)" for xs p
    using that
  proof (induction xs arbitrary: p)
    case (Cons x xs)
    then show ?case using low by (cases p) simp_all
  qed simp
  then have "find (\<lambda>p. take (length p) (map lower_char s) = p) ps = find (\<lambda>p. take (length p) s = p) ps"
    using assms by (intro find_cong) (auto simp: take_map)
  then show ?thesis by (cases s) (simp_all add: space_at_def)
qed

lemma strip_space_lower:
  assumes "\<And>p c. p \<in> set ps \<Longrightarrow> c \<in> set p \<Longrightarrow> 128 \<le> (of_char c :: nat)"
  shows "strip_space ps (map lower_char s) = map lower_char (strip_space ps s)"
  using assms
proof (induction ps s rule: strip_space.induct)
  case (1 ps s)
  show ?case
  proof (cases "space_at ps s = 0")
    case False
    then show ?thesis
      using 1(1)[OF False 1(2)] space_at_lower[where ps = ps and s = s, OF 1(2)]
      by (simp add: strip_space.simps[of ps s] strip_space.simps[of ps "map lower_char s"] drop_map)
  qed (use space_at_lower[where ps = ps and s = s, OF 1(2)] in \<open>simp add: strip_space_id\<close>)
qed

lemma trim_space_to_lower: "trim_space (to_lower s) = to_lower (trim_space s)"
proof -
  have "list_all (list_all (\<lambda>c. 128 \<le> (of_char c :: nat))) wide_spaces" by code_simp
  then have w: "p \<in> set wide_spaces \<Longrightarrow> c \<in> set p \<Longrightarrow> 128 \<le> (of_char c :: nat)" for p c by (auto simp: list_all_iff)
  then have "p \<in> set (map rev wide_spaces) \<Longrightarrow> c \<in> set p \<Longrightarrow> 128 \<le> (of_char c :: nat)" for p c by auto
  note r = strip_space_lower[OF this]
  show ?thesis unfolding trim_space_def to_lower_def
    by (simp only: strip_space_lower[OF w] rev_map r)
qed

lemma has_prefix_append [simp]: "has_prefix (p @ s) p"
  by (simp add: has_prefix_def)

lemma has_prefix_iff: "has_prefix s p \<longleftrightarrow> (\<exists>r. s = p @ r)"
  by (metis append_take_drop_id has_prefix_append has_prefix_def)

lemma trim_prefix_append [simp]: "trim_prefix (p @ s) p = s"
  by (simp add: trim_prefix_def)

lemma has_suffix_iff: "has_suffix s p \<longleftrightarrow> (\<exists>r. s = r @ p)"
  by (auto simp: has_suffix_def) (metis append_take_drop_id)

lemma nat_str_nonempty [simp]: "nat_str n \<noteq> []"
  by (subst nat_str.simps) simp

lemma is_digit_digit_char: "d < 10 \<Longrightarrow> is_digit (digit_char d)"
  by (simp add: is_digit_def digit_char_def)

lemma nat_str_digits: "c \<in> set (nat_str n) \<Longrightarrow> is_digit c"
proof (induction n rule: nat_str.induct)
  case (1 n)
  then show ?case
    by (cases "n < 10")
      (auto simp: nat_str.simps[of n] is_digit_digit_char split: if_splits)
qed

lemma index_byte_append: "c \<notin> set a \<Longrightarrow> index_byte (a @ c # b) c = Some (length a)"
  by (induction a) auto

lemma digits_value_append:
  "digits_value a (xs @ ys) = (case digits_value a xs of None \<Rightarrow> None | Some b \<Rightarrow> digits_value b ys)"
  by (induction a xs rule: digits_value.induct) auto

lemma digits_value_nat_str: "digits_value 0 (nat_str n) = Some n"
proof (induction n rule: nat_str.induct)
  case (1 n)
  have "digits_value a [digit_char d] = Some (10 * a + d)" if "d < 10" for a d
    using that by (simp add: is_digit_digit_char) (simp add: digit_char_def)
  then show ?case
    using 1 by (cases "n < 10") (simp_all add: nat_str.simps[of n] digits_value_append)
qed

text \<open>\<open>Atoi\<close> reads what \<open>Itoa\<close> writes.\<close>

lemma atoi_itoa: "atoi (itoa i) = Some i"
proof (cases "i < 0")
  case True
  then show ?thesis by (simp add: itoa_def atoi_def digits_value_nat_str)
next
  case False
  obtain c cs where s: "nat_str (nat i) = c # cs" by (cases "nat_str (nat i)") simp_all
  have "is_digit c" by (rule nat_str_digits[of _ "nat i"]) (simp add: s)
  then have "c \<noteq> CHR ''-''" "c \<noteq> CHR ''+''" by (auto simp: is_digit_def)
  moreover have "digits_value 0 (c # cs) = Some (nat i)" using digits_value_nat_str[of "nat i"] s by simp
  ultimately show ?thesis using False s by (simp add: itoa_def atoi_def del: digits_value.simps)
qed

lemma itoa_chars: "c \<in> set (itoa i) \<Longrightarrow> c = CHR ''-'' \<or> is_digit c"
  by (auto simp: itoa_def dest: nat_str_digits split: if_splits)

section \<open>Maps\<close>

text \<open>Keeping the entries whose key satisfies a predicate; and the merge of two Go maps, where the
  second wins.\<close>

definition map_filter_dom :: "('k \<Rightarrow> bool) \<Rightarrow> ('k \<rightharpoonup> 'v) \<Rightarrow> ('k \<rightharpoonup> 'v)" where
  "map_filter_dom P m = (\<lambda>k. if P k then m k else None)"

lemma map_filter_dom_apply: "map_filter_dom P m k = (if P k then m k else None)"
  by (simp add: map_filter_dom_def)

lemma dom_map_filter_dom: "dom (map_filter_dom P m) = {k \<in> dom m. P k}"
  by (auto simp: map_filter_dom_def dom_def)

text \<open>A Go map read \<open>m[k]\<close> gives the zero value where the key is missing.\<close>

definition get0 :: "'v \<Rightarrow> ('k \<rightharpoonup> 'v) \<Rightarrow> 'k \<Rightarrow> 'v" where
  "get0 z m k = (case m k of None \<Rightarrow> z | Some v \<Rightarrow> v)"

lemma get0_update [simp]: "get0 z (m(k \<mapsto> v)) k' = (if k' = k then v else get0 z m k')"
  by (simp add: get0_def)

lemma get0_delete [simp]: "get0 z (m(k := None)) k' = (if k' = k then z else get0 z m k')"
  by (simp add: get0_def)

lemma get0_empty [simp]: "get0 z Map.empty k = z"
  by (simp add: get0_def)

end
