(* ===== verification/Outbox.thy ===== *)
theory Outbox
  imports Prelude "HOL-Library.Word"
begin

text \<open>
  The agent's persistent queue, \<open>agent/internal/outbox/outbox.go\<close>. The bbolt database is not part
  of the repository: its bucket operations are the fields of the record \<open>bolt\<close>, an argument of
  every operation, and \<open>bolt_laws\<close> names what the code relies on (a byte-sorted map). The
  protobuf codec is the pair of arguments \<open>marshal\<close> and \<open>unmarshal\<close>. The theory proves
  that big-endian keys make the byte order of the bucket the order of enqueueing, that the queue
  is first-in first-out over restarts of the agent, and that draining returns.
\<close>

section \<open>Keys: encoding/binary's BigEndian\<close>

type_synonym bytes = "8 word list"

fun be_bytes :: "nat \<Rightarrow> nat \<Rightarrow> bytes" where
  "be_bytes 0 n = []"
| "be_bytes (Suc k) n = of_nat (n div 256 ^ k) # be_bytes k n"

fun be_val :: "bytes \<Rightarrow> nat" where
  "be_val [] = 0"
| "be_val (b # bs) = unat b * 256 ^ length bs + be_val bs"

text \<open>\<open>PutUint64\<close> into a slice of eight bytes, and \<open>Uint64\<close>, which panics on a shorter slice.\<close>

definition put_uint64 :: "64 word \<Rightarrow> bytes" where
  "put_uint64 w = be_bytes 8 (unat w)"

definition get_uint64 :: "bytes \<Rightarrow> 64 word option" where
  "get_uint64 bs = (if length bs < 8 then None else Some (of_nat (be_val (take 8 bs))))"

text \<open>\<open>bytes.Compare\<close>, the order of bbolt's keys\<close>

fun bytes_less :: "bytes \<Rightarrow> bytes \<Rightarrow> bool" where
  "bytes_less _ [] = False"
| "bytes_less [] (_ # _) = True"
| "bytes_less (x # xs) (y # ys) = (x < y \<or> (x = y \<and> bytes_less xs ys))"

lemma length_be_bytes [simp]: "length (be_bytes k n) = k"
  by (induction k) auto

lemma be_val_bound: "be_val bs < 256 ^ length bs"
proof (induction bs)
  case (Cons b bs)
  have "unat b < 2 ^ LENGTH(8)" by (rule unsigned_less)
  then have "unat b \<le> 255" by simp
  then have "unat b * 256 ^ length bs \<le> 255 * 256 ^ length bs" by (rule mult_right_mono) simp
  with Cons have "be_val (b # bs) < 255 * 256 ^ length bs + 256 ^ length bs"
    by (simp only: be_val.simps)
  then show ?case by simp
qed simp

lemma be_val_be_bytes: "be_val (be_bytes k n) = n mod 256 ^ k"
proof (induction k)
  case (Suc k)
  have "n mod 256 ^ Suc k = (n div 256 ^ k mod 256) * 256 ^ k + n mod 256 ^ k"
    using mod_mult2_eq[of n "256 ^ k" 256] by (simp add: mult.commute)
  with Suc show ?case by (simp add: unat_of_nat take_bit_eq_mod)
qed simp

lemma bytes_less_iff_val:
  "length xs = length ys \<Longrightarrow> bytes_less xs ys \<longleftrightarrow> be_val xs < be_val ys"
proof (induction xs ys rule: bytes_less.induct)
  case (3 x xs y ys)
  then have len: "length xs = length ys" by simp
  have bx: "be_val xs < 256 ^ length ys" using be_val_bound[of xs] len by simp
  have b2: "be_val ys < 256 ^ length ys" by (rule be_val_bound)
  have step: "unat a * 256 ^ length ys + be_val us < unat b * 256 ^ length ys + be_val vs"
    if "a < b" "be_val us < 256 ^ length ys" for a b :: "8 word" and us vs
  proof -
    have "unat a + 1 \<le> unat b" using that(1) by (simp add: word_less_nat_alt)
    then have "(unat a + 1) * 256 ^ length ys \<le> unat b * 256 ^ length ys" by (rule mult_right_mono) simp
    with that(2) show ?thesis by (simp add: algebra_simps)
  qed
  show ?case
  proof (cases x y rule: linorder_cases)
    case less
    with step[OF less bx, of ys] len show ?thesis by simp
  next
    case equal
    with 3 len show ?thesis by simp
  next
    case greater
    with step[OF greater b2, of xs] len show ?thesis by auto
  qed
qed auto

lemma length_put_uint64 [simp]: "length (put_uint64 w) = 8"
  by (simp add: put_uint64_def)

lemma be_val_put_uint64: "be_val (put_uint64 w) = unat w"
proof -
  have "unat w < 2 ^ LENGTH(64)" by (rule unsigned_less)
  then show ?thesis by (simp add: put_uint64_def be_val_be_bytes)
qed

lemma get_put_uint64 [simp]: "get_uint64 (put_uint64 w) = Some w"
  by (simp add: get_uint64_def be_val_put_uint64)

lemma put_uint64_inject [simp]: "put_uint64 v = put_uint64 w \<longleftrightarrow> v = w"
  by (metis get_put_uint64 option.inject)

lemma put_uint64_less: "bytes_less (put_uint64 v) (put_uint64 w) \<longleftrightarrow> v < w"
  by (simp add: bytes_less_iff_val be_val_put_uint64 word_less_nat_alt)

section \<open>The bbolt bucket\<close>

type_synonym err = string

record 'db bolt =
  b_put :: "'db \<Rightarrow> bytes \<Rightarrow> bytes \<Rightarrow> (err, 'db) res"
  b_delete :: "'db \<Rightarrow> bytes \<Rightarrow> (err, 'db) res"
  b_first :: "'db \<Rightarrow> (err, (bytes \<times> bytes) option) res"
  b_last :: "'db \<Rightarrow> (err, (bytes \<times> bytes) option) res"
  b_keyn :: "'db \<Rightarrow> nat"

text \<open>
  What bbolt documents of a bucket, read through \<open>view\<close>: a finite map, \<open>Put\<close> and \<open>Delete\<close>
  update it when their transaction commits, and a cursor's \<open>First\<close> and \<open>Last\<close> are the ends of the byte order.
\<close>

definition bolt_laws :: "'db bolt \<Rightarrow> ('db \<Rightarrow> (bytes \<rightharpoonup> bytes)) \<Rightarrow> bool" where
  "bolt_laws b view \<longleftrightarrow>
     (\<forall>db. finite (dom (view db))) \<and>
     (\<forall>db k v db'. b_put b db k v = Inr db' \<longrightarrow> view db' = (view db)(k \<mapsto> v)) \<and>
     (\<forall>db k db'. b_delete b db k = Inr db' \<longrightarrow> view db' = (view db)(k := None)) \<and>
     (\<forall>db. b_first b db = Inr None \<longrightarrow> view db = Map.empty) \<and>
     (\<forall>db k v. b_first b db = Inr (Some (k, v)) \<longrightarrow>
        view db k = Some v \<and> (\<forall>k'\<in>dom (view db). k' = k \<or> bytes_less k k')) \<and>
     (\<forall>db. b_last b db = Inr None \<longrightarrow> view db = Map.empty) \<and>
     (\<forall>db k v. b_last b db = Inr (Some (k, v)) \<longrightarrow>
        view db k = Some v \<and> (\<forall>k'\<in>dom (view db). k' = k \<or> bytes_less k' k))"

lemma bolt_putD:
  assumes "bolt_laws b view" "b_put b db k v = Inr db'"
  shows "view db' = (view db)(k \<mapsto> v)"
proof -
  have "\<forall>db k v db'. b_put b db k v = Inr db' \<longrightarrow> view db' = (view db)(k \<mapsto> v)"
    using assms(1) unfolding bolt_laws_def by (elim conjE) assumption
  from this[rule_format, OF assms(2)] show ?thesis .
qed

lemma bolt_deleteD:
  assumes "bolt_laws b view" "b_delete b db k = Inr db'"
  shows "view db' = (view db)(k := None)"
proof -
  have "\<forall>db k db'. b_delete b db k = Inr db' \<longrightarrow> view db' = (view db)(k := None)"
    using assms(1) unfolding bolt_laws_def by (elim conjE) assumption
  from this[rule_format, OF assms(2)] show ?thesis .
qed

lemma bolt_firstD:
  assumes "bolt_laws b view" "b_first b db = Inr (Some (k, v))"
  shows "view db k = Some v" and "\<forall>k'\<in>dom (view db). k' = k \<or> bytes_less k k'"
proof -
  have "\<forall>db k v. b_first b db = Inr (Some (k, v)) \<longrightarrow>
      view db k = Some v \<and> (\<forall>k'\<in>dom (view db). k' = k \<or> bytes_less k k')"
    using assms(1) unfolding bolt_laws_def by (elim conjE) assumption
  note this[rule_format, OF assms(2)]
  then show "view db k = Some v" and "\<forall>k'\<in>dom (view db). k' = k \<or> bytes_less k k'" by auto
qed

lemma bolt_lastD:
  assumes "bolt_laws b view" "b_last b db = Inr (Some (k, v))"
  shows "view db k = Some v" and "\<forall>k'\<in>dom (view db). k' = k \<or> bytes_less k' k"
proof -
  have "\<forall>db k v. b_last b db = Inr (Some (k, v)) \<longrightarrow>
      view db k = Some v \<and> (\<forall>k'\<in>dom (view db). k' = k \<or> bytes_less k' k)"
    using assms(1) unfolding bolt_laws_def by (elim conjE) assumption
  note this[rule_format, OF assms(2)]
  then show "view db k = Some v" and "\<forall>k'\<in>dom (view db). k' = k \<or> bytes_less k' k" by auto
qed

lemma bolt_emptyD:
  assumes "bolt_laws b view" "b_first b db = Inr None \<or> b_last b db = Inr None"
  shows "view db = Map.empty"
proof -
  have 1: "\<forall>db. b_first b db = Inr None \<longrightarrow> view db = Map.empty"
    using assms(1) unfolding bolt_laws_def by (elim conjE) assumption
  have 2: "\<forall>db. b_last b db = Inr None \<longrightarrow> view db = Map.empty"
    using assms(1) unfolding bolt_laws_def by (elim conjE) assumption
  from assms(2) 1[rule_format, of db] 2[rule_format, of db] show ?thesis by auto
qed

section \<open>The outbox and its operations\<close>

record 'db outbox =
  ob_db :: 'db
  ob_next :: "64 word"

text \<open>
  \<open>Open\<close>: \<open>mkdir\<close> and \<open>opened\<close> are the outcomes of creating the directory and of opening the
  database with its bucket. The counter is seeded past the highest key. \<open>Uint64\<close> on a shorter
  key would panic, which is the outcome None.
\<close>

definition outbox_open :: "'db bolt \<Rightarrow> err option \<Rightarrow> (err, 'db) res \<Rightarrow> (err, 'db outbox) res option" where
  "outbox_open b mkdir opened =
     (case mkdir of Some e \<Rightarrow> Some (Inl e) | None \<Rightarrow>
      (case opened of Inl e \<Rightarrow> Some (Inl e) | Inr db \<Rightarrow>
       (case b_last b db of
          Inl e \<Rightarrow> Some (Inl e)
        | Inr None \<Rightarrow> Some (Inr \<lparr>ob_db = db, ob_next = 0\<rparr>)
        | Inr (Some (k, _)) \<Rightarrow>
            (case get_uint64 k of
               None \<Rightarrow> None
             | Some w \<Rightarrow> Some (Inr \<lparr>ob_db = db, ob_next = w + 1\<rparr>)))))"

text \<open>\<open>Enqueue\<close>: the counter moves on even when the write then fails.\<close>

definition enqueue ::
  "'db bolt \<Rightarrow> ('m \<Rightarrow> (err, bytes) res) \<Rightarrow> 'db outbox \<Rightarrow> 'm \<Rightarrow> 'db outbox \<times> err option" where
  "enqueue b marshal ob msg =
     (case marshal msg of
        Inl e \<Rightarrow> (ob, Some e)
      | Inr data \<Rightarrow>
          let key = ob_next ob;
              ob' = ob\<lparr>ob_next := key + 1\<rparr>
          in case b_put b (ob_db ob') (put_uint64 key) data of
               Inl e \<Rightarrow> (ob', Some e)
             | Inr db' \<Rightarrow> (ob'\<lparr>ob_db := db'\<rparr>, None))"

text \<open>
  One turn of the loop of \<open>Drain\<close>: \<open>Inl\<close> is a return (nil or an error), \<open>Inr\<close> goes round
  again. \<open>send\<close> is the callback, over the state of the stream it writes to.
\<close>

definition drain_once ::
  "'db bolt \<Rightarrow> (bytes \<Rightarrow> (err, 'm) res) \<Rightarrow> ('m \<Rightarrow> 's \<Rightarrow> 's \<times> err option) \<Rightarrow>
   'db outbox \<Rightarrow> 's \<Rightarrow> ('db outbox \<times> 's) \<times> err option option" where
  "drain_once b unmarshal send ob s =
     (case b_first b (ob_db ob) of
        Inl e \<Rightarrow> ((ob, s), Some (Some e))
      | Inr None \<Rightarrow> ((ob, s), Some None)
      | Inr (Some (k, v)) \<Rightarrow>
          (case unmarshal v of
             Inl e \<Rightarrow> ((ob, s), Some (Some e))
           | Inr msg \<Rightarrow>
               (case send msg s of
                  (s', Some e) \<Rightarrow> ((ob, s'), Some (Some e))
                | (s', None) \<Rightarrow>
                    (case b_delete b (ob_db ob) k of
                       Inl e \<Rightarrow> ((ob, s'), Some (Some e))
                     | Inr db' \<Rightarrow> ((ob\<lparr>ob_db := db'\<rparr>, s'), None)))))"

partial_function (option) drain ::
  "'db bolt \<Rightarrow> (bytes \<Rightarrow> (err, 'm) res) \<Rightarrow> ('m \<Rightarrow> 's \<Rightarrow> 's \<times> err option) \<Rightarrow>
   'db outbox \<Rightarrow> 's \<Rightarrow> (('db outbox \<times> 's) \<times> err option) option" where
  "drain b unmarshal send ob s =
     (case drain_once b unmarshal send ob s of
        (st, Some r) \<Rightarrow> Some (st, r)
      | ((ob', s'), None) \<Rightarrow> drain b unmarshal send ob' s')"

definition outbox_len :: "'db bolt \<Rightarrow> 'db outbox \<Rightarrow> nat" where
  "outbox_len b ob = b_keyn b (ob_db ob)"


section \<open>The queue a bucket holds\<close>

text \<open>
  The counter bounds the keys (\<open>ob_inv\<close>); the queue is the values in the order of their keys.
\<close>

definition ob_inv :: "('db \<Rightarrow> (bytes \<rightharpoonup> bytes)) \<Rightarrow> 'db outbox \<Rightarrow> bool" where
  "ob_inv view ob \<longleftrightarrow> dom (view (ob_db ob)) \<subseteq> put_uint64 ` {w. w < ob_next ob}"

definition key_nat :: "nat \<Rightarrow> bytes" where
  "key_nat n = put_uint64 (of_nat n)"

definition items_below :: "(bytes \<rightharpoonup> bytes) \<Rightarrow> nat \<Rightarrow> bytes list" where
  "items_below m n = List.map_filter (\<lambda>i. m (key_nat i)) [0..<n]"

definition ob_items :: "('db \<Rightarrow> (bytes \<rightharpoonup> bytes)) \<Rightarrow> 'db outbox \<Rightarrow> bytes list" where
  "ob_items view ob = items_below (view (ob_db ob)) (unat (ob_next ob))"

lemma items_below_0 [simp]: "items_below m 0 = []"
  by (simp add: items_below_def map_filter_simps)

lemma map_filter_append: "List.map_filter f (xs @ ys) = List.map_filter f xs @ List.map_filter f ys"
  by (simp add: List.map_filter_def)

lemma items_below_Suc [simp]:
  "items_below m (Suc n) = items_below m n @ (case m (key_nat n) of None \<Rightarrow> [] | Some v \<Rightarrow> [v])"
  by (simp add: items_below_def map_filter_append map_filter_simps split: option.splits)

lemma items_below_cong:
  "(\<And>i. i < n \<Longrightarrow> m (key_nat i) = m' (key_nat i)) \<Longrightarrow> items_below m n = items_below m' n"
  by (induction n) (auto split: option.splits)

lemma items_below_None: "(\<And>i. i < n \<Longrightarrow> m (key_nat i) = None) \<Longrightarrow> items_below m n = []"
  by (induction n) auto

lemma items_below_extend:
  "n \<le> n' \<Longrightarrow> (\<And>i. n \<le> i \<Longrightarrow> i < n' \<Longrightarrow> m (key_nat i) = None) \<Longrightarrow> items_below m n' = items_below m n"
  by (induction n') (auto simp: le_Suc_eq)

lemma of_nat_word_inj: "i < 2 ^ 64 \<Longrightarrow> unat (of_nat i :: 64 word) = i"
  by (simp add: unat_of_nat take_bit_eq_mod)

lemma key_nat_inject: "i < 2 ^ 64 \<Longrightarrow> j < 2 ^ 64 \<Longrightarrow> key_nat i = key_nat j \<longleftrightarrow> i = j"
  by (metis key_nat_def of_nat_word_inj put_uint64_inject)

lemma key_nat_unat [simp]: "key_nat (unat w) = put_uint64 w"
  by (simp add: key_nat_def)

lemma key_nat_less: "i < 2 ^ 64 \<Longrightarrow> j < 2 ^ 64 \<Longrightarrow> bytes_less (key_nat i) (key_nat j) \<longleftrightarrow> i < j"
  by (simp add: key_nat_def put_uint64_less word_less_nat_alt of_nat_word_inj)

lemma unat_less_64: "unat (w :: 64 word) < 2 ^ 64"
  using unsigned_less[of w] by simp

lemma ob_inv_above: "ob_inv view ob \<Longrightarrow> unat (ob_next ob) \<le> i \<Longrightarrow> i < 2 ^ 64 \<Longrightarrow> view (ob_db ob) (key_nat i) = None"
proof (rule ccontr)
  assume a: "ob_inv view ob" "unat (ob_next ob) \<le> i" "i < 2 ^ 64" "view (ob_db ob) (key_nat i) \<noteq> None"
  then obtain w where "key_nat i = put_uint64 w" "w < ob_next ob"
    by (auto simp: ob_inv_def dom_def)
  then have "of_nat i < ob_next ob" by (simp add: key_nat_def)
  with a(2,3) show False by (simp add: word_less_nat_alt of_nat_word_inj)
qed

text \<open>The least key holds the head of the queue, and deleting it leaves the tail.\<close>

lemma items_below_least:
  assumes n: "n \<le> 2 ^ 64" and j: "j < n" "m (key_nat j) = Some v"
    and least: "\<And>i. i < j \<Longrightarrow> m (key_nat i) = None"
  shows "items_below m n = v # items_below (m(key_nat j := None)) n"
  using n j(1)
proof (induction n)
  case (Suc n)
  show ?case
  proof (cases "j = n")
    case True
    have "items_below m n = []" "items_below (m(key_nat j := None)) n = []"
      using least True by (auto intro!: items_below_None)
    with True j(2) show ?thesis by (simp add: fun_upd_same del: fun_upd_apply)
  next
    case False
    define m' where "m' = m(key_nat j := None)"
    have "m' (key_nat n) = m (key_nat n)"
      using False Suc.prems by (simp add: m'_def key_nat_inject)
    moreover have "items_below m n = v # items_below m' n"
      using False Suc unfolding m'_def by (simp del: fun_upd_apply)
    ultimately have "items_below m (Suc n) = v # items_below m' (Suc n)" by simp
    then show ?thesis unfolding m'_def .
  qed
qed simp

lemma ob_keyE:
  assumes "ob_inv view ob" "view (ob_db ob) k = Some v"
  obtains j where "j < unat (ob_next ob)" "k = key_nat j"
proof -
  from assms obtain w where "k = put_uint64 w" "w < ob_next ob" by (auto simp: ob_inv_def)
  then show thesis using that[of "unat w"] by (simp add: word_less_nat_alt)
qed

lemma least_key_items:
  assumes inv: "ob_inv view ob" and k: "view (ob_db ob) k = Some v"
    and least: "\<forall>k'\<in>dom (view (ob_db ob)). k' = k \<or> bytes_less k k'"
  shows "ob_items view ob = v # items_below ((view (ob_db ob))(k := None)) (unat (ob_next ob))"
proof -
  obtain j where j: "j < unat (ob_next ob)" "k = key_nat j" using ob_keyE[OF inv k] .
  have "view (ob_db ob) (key_nat i) = None" if "i < j" for i
  proof (rule ccontr)
    assume "view (ob_db ob) (key_nat i) \<noteq> None"
    with least j(2) have "key_nat i = key_nat j \<or> bytes_less (key_nat j) (key_nat i)" by auto
    with that j(1) unat_less_64[of "ob_next ob"] show False
      by (simp add: key_nat_inject key_nat_less)
  qed
  with j k show ?thesis
    using unat_less_64[of "ob_next ob"]
    by (simp add: ob_items_def del: fun_upd_apply) (rule items_below_least, auto)
qed

lemma ob_inv_delete:
  "ob_inv view ob \<Longrightarrow> view db' = (view (ob_db ob))(k := None) \<Longrightarrow> ob_inv view (ob\<lparr>ob_db := db'\<rparr>)"
  by (auto simp: ob_inv_def)

section \<open>Enqueueing\<close>

lemma word_Suc: "unat (w :: 64 word) + 1 < 2 ^ 64 \<Longrightarrow> unat (w + 1) = unat w + 1"
  by (simp add: unat_word_ariths)

lemma enqueue_state:
  assumes laws: "bolt_laws b view" and inv: "ob_inv view ob" and room: "unat (ob_next ob) + 1 < 2 ^ 64"
  shows "ob_inv view (fst (enqueue b marshal ob msg)) \<and>
    ob_items view (fst (enqueue b marshal ob msg)) = ob_items view ob @
      (case (marshal msg, snd (enqueue b marshal ob msg)) of (Inr d, None) \<Rightarrow> [d] | _ \<Rightarrow> [])"
proof (cases "marshal msg")
  case (Inl e)
  with inv show ?thesis by (simp add: enqueue_def)
next
  case (Inr d)
  have le: "w < ob_next ob \<Longrightarrow> w < ob_next ob + 1" for w
    using room by (simp add: word_less_nat_alt word_Suc)
  have self: "ob_next ob < ob_next ob + 1" using room by (simp add: word_less_nat_alt word_Suc)
  have fresh: "view (ob_db ob) (put_uint64 (ob_next ob)) = None"
    using ob_inv_above[OF inv order_refl] unat_less_64[of "ob_next ob"] by simp
  have inv1: "ob_inv view (ob\<lparr>ob_next := ob_next ob + 1\<rparr>)" using inv le by (auto simp: ob_inv_def)
  show ?thesis
  proof (cases "b_put b (ob_db ob) (put_uint64 (ob_next ob)) d")
    case (Inl e)
    then show ?thesis
      using Inr inv1 fresh room by (simp add: enqueue_def Let_def ob_items_def word_Suc)
  next
    case db: (Inr db')
    then have v: "view db' = (view (ob_db ob))(put_uint64 (ob_next ob) \<mapsto> d)"
      by (rule bolt_putD[OF laws])
    have same: "items_below (view db') (unat (ob_next ob)) = items_below (view (ob_db ob)) (unat (ob_next ob))"
      using unat_less_64[of "ob_next ob"]
      by (intro items_below_cong) (auto simp: v key_nat_inject simp flip: key_nat_unat)
    have "ob_inv view (ob\<lparr>ob_next := ob_next ob + 1, ob_db := db'\<rparr>)"
      using inv1 self by (auto simp: ob_inv_def v)
    with db Inr same show ?thesis
      using room by (simp add: enqueue_def Let_def ob_items_def word_Suc v)
  qed
qed

section \<open>Draining\<close>

text \<open>What the callback did with a list of messages: the state of the stream after all went out.\<close>

fun send_run :: "('m \<Rightarrow> 's \<Rightarrow> 's \<times> err option) \<Rightarrow> 'm list \<Rightarrow> 's \<Rightarrow> 's option" where
  "send_run send [] s = Some s"
| "send_run send (m # ms) s =
     (case send m s of (s', None) \<Rightarrow> send_run send ms s' | (_, Some _) \<Rightarrow> None)"

lemma drain_once_empty:
  "bolt_laws b view \<Longrightarrow> b_first b (ob_db ob) = Inr None \<Longrightarrow> ob_items view ob = []"
  unfolding ob_items_def by (intro items_below_None) (simp add: bolt_emptyD)

lemma drain_once_cont:
  assumes laws: "bolt_laws b view" and inv: "ob_inv view ob"
    and step: "drain_once b unm send ob s = ((ob', s'), None)"
  shows "\<exists>v m. unm v = Inr m \<and> send m s = (s', None) \<and> ob_items view ob = v # ob_items view ob' \<and>
    ob_inv view ob' \<and> ob_next ob' = ob_next ob"
proof -
  from step obtain k v m db' where kv: "b_first b (ob_db ob) = Inr (Some (k, v))"
    and m: "unm v = Inr m" "send m s = (s', None)"
    and del: "b_delete b (ob_db ob) k = Inr db'" and ob': "ob' = ob\<lparr>ob_db := db'\<rparr>"
    by (auto simp: drain_once_def split: sum.splits option.splits prod.splits)
  note k = bolt_firstD(1)[OF laws kv] and least = bolt_firstD(2)[OF laws kv]
  have v': "view db' = (view (ob_db ob))(k := None)" by (rule bolt_deleteD[OF laws del])
  have "ob_items view ob = v # ob_items view ob'"
    using least_key_items[OF inv k least] v' ob' by (simp add: ob_items_def)
  with m ob' ob_inv_delete[OF inv v'] show ?thesis by auto
qed

lemma drain_once_stop:
  assumes laws: "bolt_laws b view" and inv: "ob_inv view ob"
    and step: "drain_once b unm send ob s = ((ob', s'), Some r)"
  shows "ob' = ob \<and> (r = None \<longrightarrow> ob_items view ob = []) \<and>
    (s' = s \<or> (\<exists>v rest m. ob_items view ob = v # rest \<and> unm v = Inr m \<and> s' = fst (send m s)))"
proof (cases "b_first b (ob_db ob)")
  case (Inr kv)
  show ?thesis
  proof (cases kv)
    case None
    with Inr step drain_once_empty[OF laws, of ob] show ?thesis by (auto simp: drain_once_def)
  next
    case (Some p)
    obtain k v where p: "p = (k, v)" by (cases p)
    have fst: "b_first b (ob_db ob) = Inr (Some (k, v))" using Inr Some p by simp
    note k = bolt_firstD(1)[OF laws fst] and least = bolt_firstD(2)[OF laws fst]
    note items = least_key_items[OF inv k least]
    from step Inr Some p show ?thesis
      by (auto simp: drain_once_def items split: sum.splits option.splits prod.splits)
  qed
qed (use step in \<open>auto simp: drain_once_def\<close>)

lemma drain_fifo_aux:
  assumes "bolt_laws b view" "ob_inv view ob"
  shows "\<exists>ob' s' r n. drain b unm send ob s = Some ((ob', s'), r) \<and> ob_inv view ob' \<and>
    n \<le> length (ob_items view ob) \<and> ob_items view ob' = drop n (ob_items view ob) \<and>
    (r = None \<longrightarrow> n = length (ob_items view ob)) \<and>
    (\<exists>ms s1. map unm (take n (ob_items view ob)) = map Inr ms \<and> send_run send ms s = Some s1 \<and>
      (s' = s1 \<or> (\<exists>m. n < length (ob_items view ob) \<and> unm (ob_items view ob ! n) = Inr m \<and> s' = fst (send m s1))))"
  using assms(2)
proof (induction "ob_items view ob" arbitrary: ob s rule: length_induct)
  case (1 ob s)
  let ?P = "\<lambda>ob s ob' s' r n. drain b unm send ob s = Some ((ob', s'), r) \<and> ob_inv view ob' \<and>
    n \<le> length (ob_items view ob) \<and> ob_items view ob' = drop n (ob_items view ob) \<and>
    (r = None \<longrightarrow> n = length (ob_items view ob)) \<and>
    (\<exists>ms s1. map unm (take n (ob_items view ob)) = map Inr ms \<and> send_run send ms s = Some s1 \<and>
      (s' = s1 \<or> (\<exists>m. n < length (ob_items view ob) \<and> unm (ob_items view ob ! n) = Inr m \<and> s' = fst (send m s1))))"
  obtain ob1 s1 r1 where step: "drain_once b unm send ob s = ((ob1, s1), r1)"
    by (metis prod.collapse)
  show ?case
  proof (cases r1)
    case (Some r)
    with step have d: "drain b unm send ob s = Some ((ob1, s1), r)" by (simp add: drain.simps)
    from drain_once_stop[OF assms(1) 1(2) step[unfolded Some]] have stop:
      "ob1 = ob" "r = None \<longrightarrow> ob_items view ob = []"
      "s1 = s \<or> (\<exists>v rest m. ob_items view ob = v # rest \<and> unm v = Inr m \<and> s1 = fst (send m s))"
      by auto
    have "?P ob s ob1 s1 r 0"
      using d stop 1(2) by (auto intro!: exI[of _ "[]"] exI[of _ s])
    then show ?thesis by blast
  next
    case None
    then obtain v m where c: "unm v = Inr m" "send m s = (s1, None)"
      "ob_items view ob = v # ob_items view ob1" "ob_inv view ob1"
      using drain_once_cont[OF assms(1) 1(2), of unm send s ob1 s1] step by auto
    have "\<exists>ob' s' r n. ?P ob1 s1 ob' s' r n"
      using 1(1)[rule_format, of "ob_items view ob1" ob1 s1] c(3,4) by simp
    then obtain ob' s' r n where ih: "?P ob1 s1 ob' s' r n" by blast
    then obtain ms s2 where ms: "map unm (take n (ob_items view ob1)) = map Inr ms"
      "send_run send ms s1 = Some s2"
      "s' = s2 \<or> (\<exists>m. n < length (ob_items view ob1) \<and> unm (ob_items view ob1 ! n) = Inr m \<and> s' = fst (send m s2))"
      by auto
    have "drain b unm send ob s = Some ((ob', s'), r)"
      using step None ih by (subst drain.simps) simp
    moreover have "map unm (take (Suc n) (ob_items view ob)) = map Inr (m # ms)"
      "send_run send (m # ms) s = Some s2"
      using ms c by auto
    ultimately have "?P ob s ob' s' r (Suc n)"
      using ih ms(3) c(3) by (auto intro!: exI[of _ "m # ms"] exI[of _ s2])
    then show ?thesis by blast
  qed
qed

section \<open>Restarting\<close>

lemma reopen_items:
  assumes laws: "bolt_laws b view" and inv: "ob_inv view ob"
    and r: "outbox_open b None (Inr (ob_db ob)) = Some (Inr ob')"
  shows "ob_inv view ob' \<and> ob_items view ob' = ob_items view ob \<and> ob_next ob' \<le> ob_next ob"
proof -
  from r obtain kv where kv: "b_last b (ob_db ob) = Inr kv"
    by (auto simp: outbox_open_def split: sum.splits)
  show ?thesis
  proof (cases kv)
    case None
    with kv bolt_emptyD[OF laws, of "ob_db ob"] have e: "view (ob_db ob) = Map.empty" by simp
    have "ob' = \<lparr>ob_db = ob_db ob, ob_next = 0\<rparr>" using r kv None by (simp add: outbox_open_def)
    moreover have "ob_items view ob = []" unfolding ob_items_def by (rule items_below_None) (simp add: e)
    ultimately show ?thesis by (simp add: ob_inv_def ob_items_def e)
  next
    case (Some p)
    obtain k v where p: "p = (k, v)" by (cases p)
    have lst: "b_last b (ob_db ob) = Inr (Some (k, v))" using kv Some p by simp
    note k = bolt_lastD(1)[OF laws lst] and great = bolt_lastD(2)[OF laws lst]
    from inv k obtain w where w: "k = put_uint64 w" "w < ob_next ob" by (auto simp: ob_inv_def)
    with r kv Some p have ob': "ob' = \<lparr>ob_db = ob_db ob, ob_next = w + 1\<rparr>"
      by (simp add: outbox_open_def)
    have room: "unat w + 1 < 2 ^ 64"
      using w(2) unat_less_64[of "ob_next ob"] by (simp add: word_less_nat_alt)
    have le: "w' \<le> w" if "put_uint64 w' \<in> dom (view (ob_db ob))" for w'
    proof -
      from great[rule_format, OF that] have "w' = w \<or> w' < w" by (simp add: w(1) put_uint64_less)
      then show ?thesis by auto
    qed
    have inv': "ob_inv view ob'"
    proof -
      have "k' \<in> put_uint64 ` {x. x < w + 1}" if kd: "k' \<in> dom (view (ob_db ob))" for k'
      proof -
        from inv kd obtain w' where w': "k' = put_uint64 w'" by (auto simp: ob_inv_def)
        with le kd have "w' \<le> w" by simp
        with w' room show ?thesis by (auto simp: word_less_nat_alt word_le_nat_alt word_Suc)
      qed
      then show ?thesis by (auto simp: ob_inv_def ob')
    qed
    have nx: "unat (ob_next ob') \<le> unat (ob_next ob)"
      using room w(2) by (simp add: ob' word_Suc word_less_nat_alt)
    have "items_below (view (ob_db ob)) (unat (ob_next ob)) = items_below (view (ob_db ob)) (unat (ob_next ob'))"
    proof (rule items_below_extend[OF nx])
      fix i assume "unat (ob_next ob') \<le> i" "i < unat (ob_next ob)"
      then show "view (ob_db ob) (key_nat i) = None"
        using ob_inv_above[OF inv'] unat_less_64[of "ob_next ob"] ob' by simp
    qed
    with inv' nx show ?thesis by (simp add: ob_items_def ob' word_le_nat_alt)
  qed
qed


section \<open>Histories of an outbox\<close>

text \<open>The callback with a log of the messages that it sent without an error\<close>

definition noting :: "('m \<Rightarrow> 's \<Rightarrow> 's \<times> err option) \<Rightarrow> 'm \<Rightarrow> 's \<times> 'm list \<Rightarrow> ('s \<times> 'm list) \<times> err option" where
  "noting send m st =
     (case send m (fst st) of (s', None) \<Rightarrow> ((s', snd st @ [m]), None) | (s', Some e) \<Rightarrow> ((s', snd st), Some e))"

text \<open>
  The calls on one outbox in any order: enqueues, single turns of a drain loop, and restarts of the
  agent between any two of them, each with any outcome. A history carries the state of the stream with
  the log of what was sent, and the messages whose \<open>Enqueue\<close> returned nil.
\<close>

inductive ob_run ::
  "'db bolt \<Rightarrow> ('db \<Rightarrow> (bytes \<rightharpoonup> bytes)) \<Rightarrow> ('m \<Rightarrow> (err, bytes) res) \<Rightarrow> (bytes \<Rightarrow> (err, 'm) res) \<Rightarrow>
   ('m \<Rightarrow> 's \<Rightarrow> 's \<times> err option) \<Rightarrow> 'db outbox \<Rightarrow> 's \<times> 'm list \<Rightarrow> 'm list \<Rightarrow> bool"
  for b view marshal unm send where
  start: "view (ob_db ob) = Map.empty \<Longrightarrow> ob_run b view marshal unm send ob (s, []) []"
| enq: "ob_run b view marshal unm send ob st acc \<Longrightarrow> unat (ob_next ob) + 1 < 2 ^ 64 \<Longrightarrow>
    enqueue b marshal ob m = (ob', r) \<Longrightarrow> ob_run b view marshal unm send ob' st (if r = None then acc @ [m] else acc)"
| turn: "ob_run b view marshal unm send ob st acc \<Longrightarrow>
    drain_once b unm (noting send) ob st = ((ob', st'), r) \<Longrightarrow> ob_run b view marshal unm send ob' st' acc"
| restart: "ob_run b view marshal unm send ob st acc \<Longrightarrow>
    outbox_open b None (Inr (ob_db ob)) = Some (Inr ob') \<Longrightarrow> ob_run b view marshal unm send ob' st acc"

lemma ob_items_empty: "view (ob_db ob) = Map.empty \<Longrightarrow> ob_items view ob = []"
  unfolding ob_items_def by (rule items_below_None) simp

lemma ob_inv_empty: "view (ob_db ob) = Map.empty \<Longrightarrow> ob_inv view ob"
  by (simp add: ob_inv_def)

text \<open>A turn changes nothing, or sends the head of the queue and keeps it, because its deletion failed, or
  sends the head and deletes it.\<close>

lemma noted_turn:
  assumes laws: "bolt_laws b view" and inv: "ob_inv view ob"
    and step: "drain_once b unm (noting send) ob st = ((ob', st'), r)"
  obtains (idle) "ob' = ob" "snd st' = snd st"
  | (kept) v m rest where "ob' = ob" "ob_items view ob = v # rest" "unm v = Inr m" "snd st' = snd st @ [m]"
      "\<exists>k e. b_delete b (ob_db ob) k = Inl e"
  | (gone) v m where "ob_items view ob = v # ob_items view ob'" "unm v = Inr m" "snd st' = snd st @ [m]" "ob_inv view ob'"
proof (cases r)
  case None
  then obtain v m where "unm v = Inr m" "noting send m st = (st', None)" "ob_items view ob = v # ob_items view ob'" "ob_inv view ob'"
    using drain_once_cont[OF laws inv, of unm "noting send" st ob' st'] step by auto
  then show ?thesis by (intro gone) (auto simp: noting_def split: prod.splits option.splits)
next
  case (Some r1)
  have o: "ob' = ob" using drain_once_stop[OF laws inv step[unfolded Some]] by simp
  show ?thesis
  proof (cases "snd st' = snd st")
    case True
    with o show ?thesis by (intro idle)
  next
    case False
    with step Some obtain k v m e where f: "b_first b (ob_db ob) = Inr (Some (k, v))" "unm v = Inr m"
      "noting send m st = (st', None)" "b_delete b (ob_db ob) k = Inl e"
      by (auto simp: drain_once_def noting_def split: sum.splits option.splits prod.splits)
    note items = least_key_items[OF inv bolt_firstD[OF laws f(1)]]
    have "snd st' = snd st @ [m]" using f(3) by (auto simp: noting_def split: prod.splits option.splits)
    with o items f show ?thesis by (intro kept) auto
  qed
qed

text \<open>\<open>cs\<close> says how often each message was sent; the head of the queue may have been sent \<open>n\<close> times.\<close>

definition repeats :: "nat list \<Rightarrow> 'm list \<Rightarrow> 'm list" where
  "repeats cs ms = concat (map2 replicate cs ms)"

definition never_keeps :: "'db bolt \<Rightarrow> bool" where
  "never_keeps b \<longleftrightarrow> (\<forall>db k. \<exists>db'. b_delete b db k = Inr db')"

definition accounted :: "'db bolt \<Rightarrow> 'm list \<Rightarrow> 'm list \<Rightarrow> 'm list \<Rightarrow> bool" where
  "accounted b acc sent pend \<longleftrightarrow> (\<exists>del cs n. acc = del @ pend \<and> length cs = length del \<and> (\<forall>c\<in>set cs. 1 \<le> c) \<and>
     sent = repeats cs del @ (case pend of [] \<Rightarrow> [] | m # _ \<Rightarrow> replicate n m) \<and>
     (never_keeps b \<longrightarrow> sent = del))"

lemma repeats_snoc: "length cs = length ms \<Longrightarrow> repeats (cs @ [c]) (ms @ [m]) = repeats cs ms @ replicate c m"
  by (simp add: repeats_def)

lemma accounted_enq: "accounted b acc sent pend \<Longrightarrow> accounted b (acc @ [m]) sent (pend @ [m])"
proof -
  assume "accounted b acc sent pend"
  then obtain del cs n where h: "acc = del @ pend" "length cs = length del" "\<forall>c\<in>set cs. 1 \<le> c"
    "sent = repeats cs del @ (case pend of [] \<Rightarrow> [] | m # _ \<Rightarrow> replicate n m)" "never_keeps b \<longrightarrow> sent = del"
    unfolding accounted_def by blast
  show ?thesis
  proof (cases pend)
    case Nil
    with h show ?thesis unfolding accounted_def by (intro exI[of _ del] exI[of _ cs] exI[of _ 0]) simp
  next
    case (Cons p ps)
    with h show ?thesis unfolding accounted_def by (intro exI[of _ del] exI[of _ cs] exI[of _ n]) simp
  qed
qed

lemma accounted_kept: "accounted b acc sent (m # rest) \<Longrightarrow> b_delete b db k = Inl e \<Longrightarrow> accounted b acc (sent @ [m]) (m # rest)"
proof -
  assume "accounted b acc sent (m # rest)" and d: "b_delete b db k = Inl e"
  then obtain del cs n where h: "acc = del @ m # rest" "length cs = length del" "\<forall>c\<in>set cs. 1 \<le> c" "sent = repeats cs del @ replicate n m"
    unfolding accounted_def by auto
  have "\<not> never_keeps b" using d unfolding never_keeps_def by (metis Inl_Inr_False)
  with h show ?thesis unfolding accounted_def
    by (intro exI[of _ del] exI[of _ cs] exI[of _ "Suc n"]) (simp add: replicate_append_same)
qed

lemma accounted_gone: "accounted b acc sent (m # rest) \<Longrightarrow> accounted b acc (sent @ [m]) rest"
proof -
  assume "accounted b acc sent (m # rest)"
  then obtain del cs n where h: "acc = del @ m # rest" "length cs = length del" "\<forall>c\<in>set cs. 1 \<le> c" "sent = repeats cs del @ replicate n m"
    "never_keeps b \<longrightarrow> sent = del"
    unfolding accounted_def by auto
  then show ?thesis unfolding accounted_def
    by (intro exI[of _ "del @ [m]"] exI[of _ "cs @ [Suc n]"] exI[of _ 0])
       (auto simp: repeats_snoc replicate_append_same split: list.splits)
qed

lemma ob_run_inv:
  assumes laws: "bolt_laws b view" and codec: "\<And>m d. marshal m = Inr d \<Longrightarrow> unm d = Inr m"
  shows "ob_run b view marshal unm send ob st acc \<Longrightarrow>
    ob_inv view ob \<and> (\<exists>pend. map unm (ob_items view ob) = map Inr pend \<and> accounted b acc (snd st) pend)"
proof (induction rule: ob_run.induct)
  case (start ob s)
  then show ?case by (simp add: ob_items_empty ob_inv_empty accounted_def repeats_def)
next
  case (enq ob st acc m ob' r)
  obtain pend where p: "map unm (ob_items view ob) = map Inr pend" "accounted b acc (snd st) pend"
    using enq.IH by blast
  note es = enqueue_state[OF laws conjunct1[OF enq.IH] enq.hyps(2), of marshal m]
  show ?case
  proof (cases r)
    case None
    then obtain d where d: "marshal m = Inr d" using enq.hyps(3) by (auto simp: enqueue_def split: sum.splits)
    with es enq.hyps(3) None codec[OF d] p accounted_enq[OF p(2), of m] show ?thesis
      by (auto intro!: exI[of _ "pend @ [m]"])
  next
    case (Some e)
    with es enq.hyps(3) p show ?thesis by (auto split: sum.splits)
  qed
next
  case (turn ob st acc ob' st' r)
  have inv: "ob_inv view ob" using turn.IH ..
  obtain pend where p: "map unm (ob_items view ob) = map Inr pend" "accounted b acc (snd st) pend"
    using turn.IH by blast
  from laws inv turn.hyps(2) show ?case
  proof (cases rule: noted_turn)
    case idle
    with inv p show ?thesis by auto
  next
    case (kept v m rest)
    then obtain rest' where "pend = m # rest'" using p(1) by (cases pend) auto
    moreover obtain k e where "b_delete b (ob_db ob) k = Inl e" using kept(5) by blast
    ultimately have "accounted b acc (snd st') pend" using accounted_kept[of b acc "snd st" m rest'] p(2) kept(4) by simp
    with kept(1) p(1) inv show ?thesis by auto
  next
    case (gone v m)
    then obtain rest where "pend = m # rest" "map unm (ob_items view ob') = map Inr rest" using p(1) by (cases pend) auto
    with gone p(2) accounted_gone[of b acc "snd st" m rest] show ?thesis by auto
  qed
next
  case (restart ob st acc ob')
  with reopen_items[OF laws] show ?case by auto
qed

section \<open>A bucket to run the model on\<close>

text \<open>
  An association list that satisfies the laws of a bucket, for the witnesses: bbolt itself stays a
  parameter of every operation above.
\<close>

fun min_entry :: "(bytes \<times> bytes) list \<Rightarrow> (bytes \<times> bytes) option" where
  "min_entry [] = None"
| "min_entry (e # es) =
     (case min_entry es of None \<Rightarrow> Some e | Some m \<Rightarrow> if bytes_less (fst m) (fst e) then Some m else Some e)"

fun max_entry :: "(bytes \<times> bytes) list \<Rightarrow> (bytes \<times> bytes) option" where
  "max_entry [] = None"
| "max_entry (e # es) =
     (case max_entry es of None \<Rightarrow> Some e | Some m \<Rightarrow> if bytes_less (fst e) (fst m) then Some m else Some e)"

definition list_bolt :: "(bytes \<times> bytes) list bolt" where
  "list_bolt = \<lparr>
     b_put = (\<lambda>db k v. Inr ((k, v) # db)),
     b_delete = (\<lambda>db k. Inr (filter (\<lambda>e. fst e \<noteq> k) db)),
     b_first = (\<lambda>db. Inr (min_entry db)),
     b_last = (\<lambda>db. Inr (max_entry db)),
     b_keyn = (\<lambda>db. length (remdups (map fst db)))\<rparr>"

lemma bytes_less_total: "x = y \<or> bytes_less x y \<or> bytes_less y x"
proof (induction x y rule: bytes_less.induct)
  case (1 x)
  then show ?case by (cases x) auto
next
  case (3 x xs y ys)
  then show ?case by (cases x y rule: linorder_cases) auto
qed simp

lemma bytes_less_trans: "bytes_less x y \<Longrightarrow> bytes_less y z \<Longrightarrow> bytes_less x z"
proof (induction x y arbitrary: z rule: bytes_less.induct)
  case (3 x xs y ys)
  then show ?case by (cases z) (auto dest: less_trans)
qed (auto elim: bytes_less.elims)

lemma bytes_less_irrefl [simp]: "\<not> bytes_less x x"
  by (induction x) auto

lemma min_entry_Some:
  "min_entry es = Some (k, v) \<Longrightarrow> map_of es k = Some v \<and> (\<forall>k'\<in>dom (map_of es). k' = k \<or> bytes_less k k')"
proof (induction es arbitrary: k v)
  case (Cons e es)
  show ?case
  proof (cases "min_entry es")
    case None
    then have "es = []" by (cases es) (auto split: option.splits if_splits)
    with Cons.prems show ?thesis by (cases e) (auto split: if_splits)
  next
    case (Some m)
    obtain k1 v1 where m: "m = (k1, v1)" by (cases m)
    with Some have ih: "map_of es k1 = Some v1" "\<forall>k'\<in>dom (map_of es). k' = k1 \<or> bytes_less k1 k'"
      using Cons.IH[of k1 v1] by auto
    obtain ke ve where e: "e = (ke, ve)" by (cases e)
    show ?thesis
    proof (cases "bytes_less k1 ke")
      case True
      with Cons.prems Some m e have "k = k1" "v = v1" by auto
      with True ih e show ?thesis by (auto split: if_splits)
    next
      case False
      with Cons.prems Some m e have kv: "k = ke" "v = ve" by auto
      have "k1 = ke \<or> bytes_less ke k1" using bytes_less_total[of k1 ke] False by auto
      then have oth: "k' = ke \<or> bytes_less ke k'" if "k' \<in> dom (map_of es)" for k'
        using ih(2)[rule_format, OF that] bytes_less_trans[of ke k1 k'] by auto
      have "map_of (e # es) k = Some v" using kv e by simp
      moreover have "k' = ke \<or> k' \<in> dom (map_of es)" if "k' \<in> dom (map_of (e # es))" for k'
        using that e by (auto split: if_splits)
      ultimately show ?thesis using oth kv by blast
    qed
  qed
qed simp

lemma max_entry_Some:
  "max_entry es = Some (k, v) \<Longrightarrow> map_of es k = Some v \<and> (\<forall>k'\<in>dom (map_of es). k' = k \<or> bytes_less k' k)"
proof (induction es arbitrary: k v)
  case (Cons e es)
  show ?case
  proof (cases "max_entry es")
    case None
    then have "es = []" by (cases es) (auto split: option.splits if_splits)
    with Cons.prems show ?thesis by (cases e) (auto split: if_splits)
  next
    case (Some m)
    obtain k1 v1 where m: "m = (k1, v1)" by (cases m)
    with Some have ih: "map_of es k1 = Some v1" "\<forall>k'\<in>dom (map_of es). k' = k1 \<or> bytes_less k' k1"
      using Cons.IH[of k1 v1] by auto
    obtain ke ve where e: "e = (ke, ve)" by (cases e)
    show ?thesis
    proof (cases "bytes_less ke k1")
      case True
      with Cons.prems Some m e have "k = k1" "v = v1" by auto
      with True ih e show ?thesis by (auto split: if_splits)
    next
      case False
      with Cons.prems Some m e have kv: "k = ke" "v = ve" by auto
      have "k1 = ke \<or> bytes_less k1 ke" using bytes_less_total[of k1 ke] False by auto
      then have oth: "k' = ke \<or> bytes_less k' ke" if "k' \<in> dom (map_of es)" for k'
        using ih(2)[rule_format, OF that] bytes_less_trans[of k' k1 ke] by auto
      have "map_of (e # es) k = Some v" using kv e by simp
      moreover have "k' = ke \<or> k' \<in> dom (map_of es)" if "k' \<in> dom (map_of (e # es))" for k'
        using that e by (auto split: if_splits)
      ultimately show ?thesis using oth kv by blast
    qed
  qed
qed simp

lemma min_entry_None: "min_entry es = None \<Longrightarrow> es = []"
  by (cases es) (auto split: option.splits if_splits)

lemma max_entry_None: "max_entry es = None \<Longrightarrow> es = []"
  by (cases es) (auto split: option.splits if_splits)

lemma map_of_filter_key: "map_of (filter (\<lambda>e. fst e \<noteq> k) es) = (map_of es)(k := None)"
  by (induction es) (auto simp: fun_eq_iff)

lemma list_bolt_laws: "bolt_laws list_bolt map_of"
  unfolding bolt_laws_def
proof (intro conjI allI impI)
  fix db :: "(bytes \<times> bytes) list" and k v db'
  show "finite (dom (map_of db))" by (rule finite_dom_map_of)
  show "map_of db' = (map_of db)(k \<mapsto> v)" if "b_put list_bolt db k v = Inr db'"
    using that by (auto simp: list_bolt_def)
  show "map_of db' = (map_of db)(k := None)" if "b_delete list_bolt db k = Inr db'"
    using that by (auto simp: list_bolt_def map_of_filter_key)
  show "map_of db = Map.empty" if "b_first list_bolt db = Inr None"
    using that by (auto simp: list_bolt_def dest!: min_entry_None)
  show "map_of db = Map.empty" if "b_last list_bolt db = Inr None"
    using that by (auto simp: list_bolt_def dest!: max_entry_None)
  show "map_of db k = Some v" if "b_first list_bolt db = Inr (Some (k, v))"
    using that min_entry_Some by (auto simp: list_bolt_def)
  show "\<forall>k'\<in>dom (map_of db). k' = k \<or> bytes_less k k'" if "b_first list_bolt db = Inr (Some (k, v))"
    using that min_entry_Some by (auto simp: list_bolt_def)
  show "map_of db k = Some v" if "b_last list_bolt db = Inr (Some (k, v))"
    using that max_entry_Some by (auto simp: list_bolt_def)
  show "\<forall>k'\<in>dom (map_of db). k' = k \<or> bytes_less k' k" if "b_last list_bolt db = Inr (Some (k, v))"
    using that max_entry_Some by (auto simp: list_bolt_def)
qed


section \<open>Properties\<close>

text \<open>C1. No message is lost, reordered or invented by the queue. In every history of enqueues,
  drain turns and restarts that starts with an empty bucket, the messages accepted so far are some
  that are done, followed by those still queued. The callback has sent exactly those done, in this order,
  each at least once, and possibly the head of the queue; where no deletion fails, it has sent those done
  once each and nothing else.\<close>

theorem outbox_no_loss:
  assumes "bolt_laws b view" "\<And>m d. marshal m = Inr d \<Longrightarrow> unm d = Inr m"
    and "ob_run b view marshal unm send ob (s, sent) acc"
  shows "\<exists>del pend cs n. acc = del @ pend \<and> map unm (ob_items view ob) = map Inr pend \<and>
    length cs = length del \<and> (\<forall>c\<in>set cs. 1 \<le> c) \<and>
    sent = concat (map2 replicate cs del) @ (case pend of [] \<Rightarrow> [] | m # _ \<Rightarrow> replicate n m) \<and>
    ((\<forall>db k. \<exists>db'. b_delete b db k = Inr db') \<longrightarrow> sent = del)"
  using ob_run_inv[OF assms] unfolding accounted_def repeats_def never_keeps_def snd_conv by blast

definition demo_send :: "bytes \<Rightarrow> bytes list \<Rightarrow> bytes list \<times> err option" where
  "demo_send m s = (if length s < 1 then (s @ [m], None) else (s, Some ''stream closed''))"

definition demo_ob0 :: "(bytes \<times> bytes) list outbox" where
  "demo_ob0 = \<lparr>ob_db = [], ob_next = 0\<rparr>"

definition demo_ob :: "(bytes \<times> bytes) list outbox" where
  "demo_ob = fst (enqueue list_bolt Inr (fst (enqueue list_bolt Inr demo_ob0 [1])) [2])"

lemma demo_two: "ob_run list_bolt map_of Inr Inr demo_send demo_ob ([], []) [[1], [2]]"
  using ob_run.enq[OF ob_run.enq[OF ob_run.start[of map_of demo_ob0 list_bolt Inr Inr demo_send "[]"]],
      of "[1]" "fst (enqueue list_bolt Inr demo_ob0 [1])" None "[2]" demo_ob None]
  by (simp add: demo_ob_def demo_ob0_def enqueue_def list_bolt_def Let_def)

text \<open>After one turn the first message is sent and deleted.\<close>

definition demo_ob1 :: "(bytes \<times> bytes) list outbox" where
  "demo_ob1 = fst (fst (drain_once list_bolt Inr (noting demo_send) demo_ob ([], [])))"

lemma demo_turn: "drain_once list_bolt Inr (noting demo_send) demo_ob ([], []) = ((demo_ob1, [[1]], [[1]]), None)"
  by (simp add: demo_ob1_def demo_ob_def demo_ob0_def enqueue_def list_bolt_def Let_def drain_once_def noting_def demo_send_def
      put_uint64_less word_less_nat_alt)

lemma demo_run: "ob_run list_bolt map_of Inr Inr demo_send demo_ob1 ([[1]], [[1]]) [[1], [2]]"
  by (rule ob_run.turn[OF demo_two demo_turn])

theorem outbox_no_loss_witness:
  "\<exists>del pend cs n. [[1], [2]] = del @ pend \<and> map Inr (ob_items map_of demo_ob1) = (map Inr pend :: (err, bytes) res list) \<and>
    length cs = length del \<and> (\<forall>c\<in>set cs. 1 \<le> c) \<and>
    [[1]] = concat (map2 replicate cs del) @ (case pend of [] \<Rightarrow> [] | m # _ \<Rightarrow> replicate n m) \<and> [[1]] = del"
  using outbox_no_loss[OF list_bolt_laws _ demo_run] by (simp add: list_bolt_def)

text \<open>Draining returns, whatever the database and the stream answer: it sends the longest
  prefix of the queue that went out, in order, deletes exactly that prefix, keeps the rest in
  order, and returns nil only when the queue is empty. At most one further send took place, of the
  message at the head of what is kept.\<close>

theorem drain_returns:
  assumes "bolt_laws b view" "ob_inv view ob"
  shows "\<exists>ob' s' r n. drain b unm send ob s = Some ((ob', s'), r) \<and> ob_inv view ob' \<and>
    n \<le> length (ob_items view ob) \<and> ob_items view ob' = drop n (ob_items view ob) \<and>
    (r = None \<longrightarrow> n = length (ob_items view ob)) \<and>
    (\<exists>ms s1. map unm (take n (ob_items view ob)) = map Inr ms \<and> send_run send ms s = Some s1 \<and>
      (s' = s1 \<or> (\<exists>m. n < length (ob_items view ob) \<and> unm (ob_items view ob ! n) = Inr m \<and> s' = fst (send m s1))))"
  by (rule drain_fifo_aux[OF assms])

theorem drain_returns_witness:
  "\<exists>ob' s' r n. drain list_bolt Inr demo_send demo_ob0 [] = Some ((ob', s'), r) \<and> ob_inv map_of ob' \<and>
    n \<le> length (ob_items map_of demo_ob0) \<and> ob_items map_of ob' = drop n (ob_items map_of demo_ob0) \<and>
    (r = None \<longrightarrow> n = length (ob_items map_of demo_ob0)) \<and>
    (\<exists>ms s1. map Inr (take n (ob_items map_of demo_ob0)) = (map Inr ms :: (err, bytes) res list) \<and> send_run demo_send ms [] = Some s1 \<and>
      (s' = s1 \<or> (\<exists>m. n < length (ob_items map_of demo_ob0) \<and> Inr (ob_items map_of demo_ob0 ! n) = (Inr m :: (err, bytes) res) \<and> s' = fst (demo_send m s1))))"
  using drain_returns[OF list_bolt_laws, of demo_ob0 Inr demo_send "[]"] by (simp add: ob_inv_def demo_ob0_def)

text \<open>A restart of the agent keeps the queue: reopening the database gives back the same
  messages in the same order, and a counter above every key in use, so no later \<open>Enqueue\<close>
  overwrites a message.\<close>

theorem reopen_keeps_queue:
  assumes "bolt_laws b view" "ob_inv view ob"
    and "outbox_open b None (Inr (ob_db ob)) = Some (Inr ob')"
  shows "ob_inv view ob' \<and> ob_items view ob' = ob_items view ob \<and> ob_next ob' \<le> ob_next ob"
  by (rule reopen_items[OF assms])

theorem reopen_keeps_queue_witness:
  "ob_inv map_of \<lparr>ob_db = ob_db demo_ob, ob_next = 2\<rparr> \<and>
   ob_items map_of \<lparr>ob_db = ob_db demo_ob, ob_next = 2\<rparr> = ob_items map_of demo_ob \<and>
   ob_next \<lparr>ob_db = ob_db demo_ob, ob_next = 2\<rparr> \<le> ob_next demo_ob"
proof (rule reopen_keeps_queue[OF list_bolt_laws])
  show "ob_inv map_of demo_ob"
    using ob_run_inv[OF list_bolt_laws _ demo_two] by simp
  show "outbox_open list_bolt None (Inr (ob_db demo_ob)) = Some (Inr \<lparr>ob_db = ob_db demo_ob, ob_next = 2\<rparr>)"
    by (simp add: demo_ob_def demo_ob0_def enqueue_def list_bolt_def Let_def outbox_open_def
        put_uint64_less put_uint64_less[of _ 0] word_less_nat_alt)
qed

end
