(* ===== verification/Contracts.thy ===== *)
theory Contracts
  imports Prelude
begin

text \<open>
  The contracts several components share, as locales. \<open>safe_machine\<close> is a component whose
  operations can panic (outcome None): an invariant that every operation keeps rules the panic out
  for every sequence of calls. \<open>keyed_state\<close> is a component whose state is a table of independent
  entries: what one key shows depends on the calls for that key only. \<open>normalizer\<close> is a function
  that brings its argument into a normal form. Each component that provides a contract interprets it
  on its own definitions.
\<close>

section \<open>Sequences of operations\<close>

fun run_ops :: "('s \<Rightarrow> 'o \<Rightarrow> 's option) \<Rightarrow> 'o list \<Rightarrow> 's \<Rightarrow> 's option" where
  "run_ops step [] s = Some s"
| "run_ops step (x # xs) s = (case step s x of None \<Rightarrow> None | Some t \<Rightarrow> run_ops step xs t)"

fun run_all :: "('s \<Rightarrow> 'o \<Rightarrow> 's) \<Rightarrow> 'o list \<Rightarrow> 's \<Rightarrow> 's" where
  "run_all step [] s = s"
| "run_all step (x # xs) s = run_all step xs (step s x)"

lemma run_ops_append:
  "run_ops step (xs @ ys) s = (case run_ops step xs s of None \<Rightarrow> None | Some t \<Rightarrow> run_ops step ys t)"
  by (induction xs arbitrary: s) (auto split: option.splits)

lemma run_all_append: "run_all step (xs @ ys) s = run_all step ys (run_all step xs s)"
  by (induction xs arbitrary: s) auto

section \<open>Operations that can panic\<close>

locale safe_machine =
  fixes step :: "'s \<Rightarrow> 'o \<Rightarrow> 's option"
    and inv :: "'s \<Rightarrow> bool"
  assumes step_safe: "inv s \<Longrightarrow> \<exists>t. step s x = Some t \<and> inv t"
begin

lemma run_safe: "inv s \<Longrightarrow> \<exists>t. run_ops step xs s = Some t \<and> inv t"
proof (induction xs arbitrary: s)
  case (Cons x xs)
  obtain t where "step s x = Some t" "inv t" using step_safe[OF Cons.prems] by blast
  with Cons.IH[of t] show ?case by simp
qed simp

lemma run_not_None: "inv s \<Longrightarrow> run_ops step xs s \<noteq> None"
  using run_safe[of s xs] by auto

lemma run_inv: "inv s \<Longrightarrow> run_ops step xs s = Some t \<Longrightarrow> inv t"
  using run_safe[of s xs] by auto

end

section \<open>Tables of independent entries\<close>

locale keyed_state =
  fixes step :: "'s \<Rightarrow> 'o \<Rightarrow> 's"
    and keyof :: "'o \<Rightarrow> 'k"
    and entry :: "'s \<Rightarrow> 'k \<Rightarrow> 'v"
  assumes entry_other: "keyof x \<noteq> k \<Longrightarrow> entry (step s x) k = entry s k"
    and entry_local: "entry s (keyof x) = entry t (keyof x) \<Longrightarrow>
      entry (step s x) (keyof x) = entry (step t x) (keyof x)"
begin

lemma run_other: "(\<And>x. x \<in> set xs \<Longrightarrow> keyof x \<noteq> k) \<Longrightarrow> entry (run_all step xs s) k = entry s k"
  by (induction xs arbitrary: s) (auto simp: entry_other)

lemma run_local:
  "entry s k = entry t k \<Longrightarrow> entry (run_all step xs s) k = entry (run_all step xs t) k"
proof (induction xs arbitrary: s t)
  case (Cons x xs)
  have "entry (step s x) k = entry (step t x) k"
  proof (cases "keyof x = k")
    case True
    with Cons.prems entry_local[of s x t] show ?thesis by simp
  next
    case False
    with Cons.prems show ?thesis by (simp add: entry_other[OF False])
  qed
  from Cons.IH[OF this] show ?case by simp
qed simp

lemma run_own:
  "entry (run_all step xs s) k = entry (run_all step (filter (\<lambda>x. keyof x = k) xs) s) k"
proof (induction xs arbitrary: s)
  case (Cons x xs)
  show ?case
  proof (cases "keyof x = k")
    case True
    with Cons.IH show ?thesis by simp
  next
    case False
    then have "entry (step s x) k = entry s k" by (rule entry_other)
    from run_local[OF this] have "entry (run_all step xs (step s x)) k = entry (run_all step xs s) k" .
    with False Cons.IH show ?thesis by simp
  qed
qed simp

end

section \<open>Normal forms\<close>

locale normalizer =
  fixes norm :: "'a \<Rightarrow> 'a"
    and normal :: "'a \<Rightarrow> bool"
  assumes norm_normal: "normal (norm x)"
    and norm_id: "normal x \<Longrightarrow> norm x = x"
begin

lemma norm_idem: "norm (norm x) = norm x"
  by (rule norm_id[OF norm_normal])

lemma normal_iff: "normal x \<longleftrightarrow> norm x = x"
  using norm_normal[of x] norm_id[of x] by auto

lemma range_norm: "range norm = {x. normal x}"
  using norm_normal norm_id by (auto simp: image_iff) metis

end

interpretation lower: normalizer to_lower "\<lambda>s. \<forall>c\<in>set s. \<not> is_upper c"
proof
  show "\<forall>c\<in>set (to_lower s). \<not> is_upper c" for s by (auto simp: to_lower_def)
  show "to_lower s = s" if "\<forall>c\<in>set s. \<not> is_upper c" for s
    using that by (simp add: to_lower_def lower_char_id map_idI)
qed

interpretation trimmed: normalizer trim_space unspaced
  by unfold_locales (rule unspaced_trim, erule trim_space_id)

section \<open>A measure and what each operation adds to it\<close>

fun run_cost :: "('s \<Rightarrow> 'o \<Rightarrow> 's) \<Rightarrow> ('s \<Rightarrow> 'o \<Rightarrow> nat) \<Rightarrow> 'o list \<Rightarrow> 's \<Rightarrow> nat" where
  "run_cost step c [] s = 0"
| "run_cost step c (x # xs) s = c s x + run_cost step c xs (step s x)"

locale metered =
  fixes step :: "'s \<Rightarrow> 'o \<Rightarrow> 's"
    and measured :: "'s \<Rightarrow> nat"
    and cost :: "'s \<Rightarrow> 'o \<Rightarrow> nat"
  assumes step_cost: "measured (step s x) \<le> measured s + cost s x"
begin

lemma run_bound: "measured (run_all step xs s) \<le> measured s + run_cost step cost xs s"
proof (induction xs arbitrary: s)
  case (Cons x xs)
  show ?case using Cons.IH[of "step s x"] step_cost[of s x] by simp
qed simp

lemma run_free: "run_cost step cost xs s = 0 \<Longrightarrow> measured (run_all step xs s) \<le> measured s"
  using run_bound[of xs s] by simp

end

section \<open>Tickets\<close>

text \<open>A run of a machine that answers: each request with the state it met and its answer, and the last
  state.\<close>

fun traced :: "('o \<Rightarrow> 's \<Rightarrow> 's \<times> 'r) \<Rightarrow> 'o list \<Rightarrow> 's \<Rightarrow> ('s \<times> 'o \<times> 'r) list" where
  "traced step [] s = []"
| "traced step (x # xs) s = (s, x, snd (step x s)) # traced step xs (fst (step x s))"

fun ends_in :: "('o \<Rightarrow> 's \<Rightarrow> 's \<times> 'r) \<Rightarrow> 'o list \<Rightarrow> 's \<Rightarrow> 's" where
  "ends_in step [] s = s"
| "ends_in step (x # xs) s = ends_in step xs (fst (step x s))"

lemma traced_step: "(s', x, r) \<in> set (traced step xs s) \<Longrightarrow> r = snd (step x s')"
  by (induction xs arbitrary: s) auto

lemma ends_in_keeps:
  "P s \<Longrightarrow> list_all ok xs \<Longrightarrow> (\<And>t x. P t \<Longrightarrow> ok x \<Longrightarrow> P (fst (step x t))) \<Longrightarrow> P (ends_in step xs s)"
  by (induction xs arbitrary: s) auto

text \<open>Such a machine hands out tickets and takes them back: where no step takes one back that is not held,
  over a run no more are taken than were handed out, and held before.\<close>

locale tickets =
  fixes step :: "'o \<Rightarrow> 's \<Rightarrow> 's \<times> 'r"
    and taken :: "'s \<times> 'o \<times> 'r \<Rightarrow> bool"
    and given :: "'s \<times> 'o \<times> 'r \<Rightarrow> bool"
    and held :: "'s \<Rightarrow> nat"
  assumes step_balance: "of_bool (taken (s, x, snd (step x s))) + held (fst (step x s)) \<le> of_bool (given (s, x, snd (step x s))) + held s"
begin

lemma run_balance:
  "length (filter taken (traced step xs s)) + held (ends_in step xs s) \<le> length (filter given (traced step xs s)) + held s"
proof (induction xs arbitrary: s)
  case (Cons x xs)
  show ?case using Cons[of "fst (step x s)"] step_balance[of s x] by (simp add: of_bool_def split: if_splits)
qed simp

end

end
