(* ===== verification/Messages.thy ===== *)
theory Messages
  imports Prelude
begin

text \<open>
  The messages of the agent protocol, \<open>proto/agent.proto\<close>: one record per message the modelled
  code reads or builds, with the fields of the schema, and the two \<open>oneof\<close> bodies as datatypes.
  Fields of type \<open>bytes\<close> and \<open>string\<close> are both byte strings; timestamps are nanoseconds; an
  \<open>int32\<close> is an integer that conversions bring into the range of the type (\<open>to_int32\<close>); a
  map field is a partial function; a message field that may be nil is an option.
\<close>

section \<open>Conversion to int32\<close>

definition to_int32 :: "int \<Rightarrow> int" where
  "to_int32 x = (x + 2 ^ 31) mod 2 ^ 32 - 2 ^ 31"

lemma to_int32_range: "- (2 ^ 31) \<le> to_int32 x \<and> to_int32 x < 2 ^ 31"
  unfolding to_int32_def using pos_mod_bound[of "2 ^ 32" "x + 2 ^ 31"] pos_mod_sign[of "2 ^ 32" "x + 2 ^ 31"]
  by simp

lemma to_int32_id: "- (2 ^ 31) \<le> x \<Longrightarrow> x < 2 ^ 31 \<Longrightarrow> to_int32 x = x"
  unfolding to_int32_def by simp

definition max_int32 :: int where
  "max_int32 = 2147483647"

section \<open>Jobs and runs\<close>

record job_def =
  jd_id :: string
  jd_version_id :: string
  jd_version_number :: int
  jd_name :: string
  jd_interpreter :: string
  jd_script_body :: string
  jd_schedule_cron :: string
  jd_timezone :: string
  jd_enabled :: bool
  jd_timeout_seconds :: int
  jd_concurrency_policy :: string
  jd_catchup_policy :: string
  jd_max_retries :: int
  jd_working_dir :: string
  jd_run_as_user :: string
  jd_env :: "string \<rightharpoonup> string"
  jd_secrets :: "string \<rightharpoonup> string"
  jd_cpu_quota_percent :: int
  jd_memory_max_mb :: int
  jd_tasks_max :: int
  jd_io_weight :: int

record sync_jobs =
  sj_cursor :: string
  sj_upsert :: "job_def list"
  sj_delete :: "string list"
  sj_full_snapshot :: bool

record run_started =
  rs_run_id :: string
  rs_job_id :: string
  rs_job_version_id :: string
  rs_trigger :: string
  rs_started_at :: int

record log_chunk =
  lc_run_id :: string
  lc_stream :: string
  lc_seq :: int
  lc_data :: string

record run_finished =
  rf_run_id :: string
  rf_status :: string
  rf_exit_code :: int
  rf_finished_at :: int
  rf_duration_ms :: int
  rf_error :: string

section \<open>Agent state\<close>

record hello =
  he_agent_version :: string
  he_os :: string
  he_arch :: string
  he_euid_root :: bool
  he_service_user :: string

record update_agent =
  ua_target_version :: string
  ua_download_url :: string
  ua_sha256 :: string
  ua_restart :: bool

record update_progress =
  up_target_version :: string
  up_phase :: string
  up_detail :: string
  up_percent :: int

section \<open>Replies that answer a request\<close>

record connector_step =
  cs_name :: string
  cs_ok :: bool
  cs_output :: string
  cs_exit_code :: int

record connector_result =
  cr_request_id :: string
  cr_status :: string
  cr_message :: string
  cr_content :: string
  cr_checksum :: string
  cr_steps :: "connector_step list"
  cr_payload_json :: string

record connector_command =
  cc_request_id :: string
  cc_op :: string
  cc_connector_kind :: string
  cc_connector_id :: string
  cc_ref :: string
  cc_action :: string
  cc_content :: string
  cc_base_checksum :: string
  cc_dry_run :: bool

record system_user =
  su_username :: string
  su_uid :: nat
  su_home :: string
  su_shell :: string
  su_available :: bool

record users_result =
  ur_request_id :: string
  ur_users :: "system_user list"
  ur_error :: string

record tool_status =
  ts_name :: string
  ts_installed :: bool
  ts_version :: string
  ts_path :: string

record tools_result =
  tr_request_id :: string
  tr_tools :: "tool_status list"
  tr_log :: string
  tr_exit_code :: int
  tr_error :: string
  tr_status :: string

record tools_event =
  te_request_id :: string
  te_kind :: string
  te_data :: string
  te_percent :: int
  te_seq :: int

record network_result =
  nr_request_id :: string
  nr_status :: string
  nr_error :: string
  nr_result_json :: string

record network_event =
  ne_request_id :: string
  ne_kind :: string
  ne_data :: string
  ne_percent :: int
  ne_seq :: int
  ne_pin_device :: string
  ne_pin_method :: string
  ne_pin_prompt :: string

record terminal_output =
  to_session_id :: string
  to_kind :: string
  to_data :: string
  to_exit_code :: int
  to_message :: string

section \<open>Connectors\<close>

record connector_resource =
  co_type :: string
  co_ref :: string
  co_name :: string
  co_state :: string
  co_checksum :: string
  co_size_bytes :: int
  co_attributes :: "(string \<times> string) list"

record discovered_connector =
  di_kind :: string
  di_instance :: string
  di_version :: string
  di_status :: string
  di_manageable :: bool
  di_manages_config :: bool
  di_manages_objects :: bool
  di_can_validate :: bool
  di_can_reload :: bool
  di_can_lifecycle :: bool
  di_can_edit :: bool
  di_config_paths :: "string list"
  di_object_count :: int
  di_detail :: "(string \<times> string) list"
  di_resources :: "connector_resource list"

section \<open>Deploys\<close>

record health_check =
  hc_path :: string
  hc_port :: int
  hc_timeout_seconds :: int

record deploy_app =
  da_name :: string
  da_root_directory :: string
  da_install_script :: string
  da_language :: string
  da_port :: int
  da_process_manager :: string
  da_env :: "string \<rightharpoonup> string"
  da_health :: "health_check option"
  da_run_script :: string
  da_cleanup_script :: string
  da_pre_start_script :: string
  da_start_group :: int
  da_process_name :: string

record flow_task =
  ft_app :: string
  ft_phase :: string

record deploy_command =
  dc_run_id :: string
  dc_op :: string
  dc_clone_url :: string
  dc_clone_token :: string
  dc_dest_path :: string
  dc_branch :: string
  dc_install_script :: string
  dc_root_directory :: string
  dc_env :: "string \<rightharpoonup> string"
  dc_port :: int
  dc_process_manager :: string
  dc_apps :: "deploy_app list"
  dc_stdin :: string
  dc_rollback_sha :: string
  dc_health :: "health_check option"
  dc_timeout_seconds :: int
  dc_run_as_user :: string
  dc_project_name :: string
  dc_on_wave_failure :: string
  dc_flow :: "flow_task list list"

record deploy_metrics =
  dm_phase_ms :: "(string \<times> int) list"
  dm_release_bytes :: int
  dm_free_disk_bytes :: int

record deploy_event =
  de_run_id :: string
  de_kind :: string
  de_data :: string
  de_message :: string
  de_exit_code :: int
  de_status :: string
  de_seq :: int
  de_commit_sha :: string
  de_phase :: string
  de_metrics :: "deploy_metrics option"

section \<open>The two directions of the stream\<close>

text \<open>Bodies whose content the modelled code does not look at carry no argument.\<close>

datatype agent_message =
    AHello hello
  | AHeartbeat
  | AConfigAck string
  | ARunStarted run_started
  | ALogChunk log_chunk
  | ARunFinished run_finished
  | AConnectorEvent "discovered_connector list"
  | AConnectorResult connector_result
  | ATerminalOutput terminal_output
  | ADeployEvent deploy_event
  | AListUsersResult users_result
  | AUpdateProgress update_progress
  | AHostToolsResult tools_result
  | AHostToolsEvent tools_event
  | ANetworkResult network_result
  | ANetworkEvent network_event

datatype server_message =
    SSyncJobs sync_jobs
  | SRunNow string string string
  | SCancelRun string
  | SUpdateAgent update_agent
  | SConnectorCommand connector_command
  | STerminalInput string
  | SDeployCommand deploy_command
  | SListUsersRequest string
  | SAgentRootCommand bool
  | SHostToolsRequest string string string string
  | SNetworkRequest string string string

end
