(* ===== verification/Pending.thy ===== *)
theory Pending
  imports Contracts Messages
begin

text \<open>
  The control plane's mailboxes: \<open>pending.go\<close>, \<open>pending_users.go\<close>, \<open>pending_tools.go\<close>,
  \<open>pending_network.go\<close> and \<open>terminal.go\<close> of \<open>control-plane/internal/agentgw\<close>. Each of the five
  types is a map from request ids to subscriptions. A subscription is shared between the map and
  the waiter that opened it, so it lives in a heap of cells and the map holds addresses. A buffered
  channel is the list of the values in it; closing a closed channel panics, which is the outcome
  None. The four pending types are copies of each other in the source; here they are instances of
  one group of operations, which the theory names after the Go types below.
\<close>

section \<open>Subscriptions and the heap they live in\<close>

record ('r, 'e) sub =
  sub_id :: string
  sub_ch :: "'r list"
  sub_events :: "'e list"
  sub_done :: bool

record ('r, 'e) boxes =
  bx_subs :: "string \<rightharpoonup> nat"
  bx_heap :: "('r, 'e) sub list"

definition new_boxes :: "('r, 'e) boxes" where
  "new_boxes = \<lparr>bx_subs = Map.empty, bx_heap = []\<rparr>"

text \<open>\<open>Open\<close>: a fresh subscription replaces the map's entry; an older one keeps its cell.\<close>

definition box_open :: "('r, 'e) boxes \<Rightarrow> string \<Rightarrow> ('r, 'e) boxes \<times> nat" where
  "box_open p i =
     (p\<lparr>bx_subs := (bx_subs p)(i \<mapsto> length (bx_heap p)),
        bx_heap := bx_heap p @ [\<lparr>sub_id = i, sub_ch = [], sub_events = [], sub_done = False\<rparr>]\<rparr>,
      length (bx_heap p))"

text \<open>\<open>close(sub.done)\<close>\<close>

definition close_done :: "('r, 'e) boxes \<Rightarrow> nat \<Rightarrow> ('r, 'e) boxes option" where
  "close_done p a =
     (if sub_done (bx_heap p ! a) then None
      else Some (p\<lparr>bx_heap := (bx_heap p)[a := (bx_heap p ! a)\<lparr>sub_done := True\<rparr>]\<rparr>))"

definition box_close :: "('r, 'e) boxes \<Rightarrow> string \<Rightarrow> ('r, 'e) boxes option" where
  "box_close p i =
     (case bx_subs p i of
        None \<Rightarrow> Some p
      | Some a \<Rightarrow> close_done (p\<lparr>bx_subs := (bx_subs p)(i := None)\<rparr>) a)"

text \<open>
  The select of \<open>Resolve\<close> on one subscription: send if the channel of capacity \<open>cap\<close> has room, or
  give up if \<open>done\<close> is closed, or give up. Where both the send and \<open>done\<close> are ready the choice is
  Go's, the argument \<open>pick\<close>. It runs after the lock is released, so the subscription may have been
  closed since it was looked up.
\<close>

definition sub_resolve :: "nat \<Rightarrow> bool \<Rightarrow> 'r \<Rightarrow> ('r, 'e) sub \<Rightarrow> ('r, 'e) sub" where
  "sub_resolve cap pick r s =
     (if length (sub_ch s) < cap \<and> (sub_done s \<longrightarrow> pick) then s\<lparr>sub_ch := sub_ch s @ [r]\<rparr> else s)"

text \<open>The select of \<open>PushLog\<close> and \<open>PushEvent\<close>: a full buffer loses its oldest event.\<close>

definition sub_push :: "nat \<Rightarrow> bool \<Rightarrow> 'e \<Rightarrow> ('r, 'e) sub \<Rightarrow> ('r, 'e) sub" where
  "sub_push cap pick e s =
     (if length (sub_events s) < cap \<and> (sub_done s \<longrightarrow> pick) then s\<lparr>sub_events := sub_events s @ [e]\<rparr>
      else if sub_done s then s
      else let q = tl (sub_events s)
           in if length q < cap then s\<lparr>sub_events := q @ [e]\<rparr> else s\<lparr>sub_events := q\<rparr>)"

definition upd_cell :: "('r, 'e) boxes \<Rightarrow> nat \<Rightarrow> (('r, 'e) sub \<Rightarrow> ('r, 'e) sub) \<Rightarrow> ('r, 'e) boxes" where
  "upd_cell p a f = p\<lparr>bx_heap := (bx_heap p)[a := f (bx_heap p ! a)]\<rparr>"

definition box_resolve :: "nat \<Rightarrow> bool \<Rightarrow> ('r, 'e) boxes \<Rightarrow> string \<Rightarrow> 'r \<Rightarrow> ('r, 'e) boxes" where
  "box_resolve cap pick p i r =
     (case bx_subs p i of None \<Rightarrow> p | Some a \<Rightarrow> upd_cell p a (sub_resolve cap pick r))"

definition box_push :: "nat \<Rightarrow> bool \<Rightarrow> ('r, 'e) boxes \<Rightarrow> string \<Rightarrow> 'e \<Rightarrow> ('r, 'e) boxes" where
  "box_push cap pick p i e =
     (case bx_subs p i of None \<Rightarrow> p | Some a \<Rightarrow> upd_cell p a (sub_push cap pick e))"

section \<open>The Go types\<close>

text \<open>A nil result or event is None; a result carries the id of the request it answers.\<close>

type_synonym pending_requests = "(connector_result, unit) boxes"

definition pending_open :: "pending_requests \<Rightarrow> string \<Rightarrow> pending_requests \<times> nat" where
  "pending_open p i = box_open p i"

definition pending_close :: "pending_requests \<Rightarrow> string \<Rightarrow> pending_requests option" where
  "pending_close p i = box_close p i"

definition pending_resolve :: "bool \<Rightarrow> pending_requests \<Rightarrow> connector_result option \<Rightarrow> pending_requests" where
  "pending_resolve pick p res =
     (case res of None \<Rightarrow> p | Some r \<Rightarrow> box_resolve 1 pick p (cr_request_id r) r)"

definition pending_len :: "pending_requests \<Rightarrow> nat" where
  "pending_len p = card (dom (bx_subs p))"

type_synonym pending_users = "(users_result, unit) boxes"

definition users_open :: "pending_users \<Rightarrow> string \<Rightarrow> pending_users \<times> nat" where
  "users_open p i = box_open p i"

definition users_close :: "pending_users \<Rightarrow> string \<Rightarrow> pending_users option" where
  "users_close p i = box_close p i"

definition users_resolve :: "bool \<Rightarrow> pending_users \<Rightarrow> users_result option \<Rightarrow> pending_users" where
  "users_resolve pick p res =
     (case res of None \<Rightarrow> p | Some r \<Rightarrow> box_resolve 1 pick p (ur_request_id r) r)"

type_synonym pending_tools = "(tools_result, tools_event) boxes"

definition tools_open :: "pending_tools \<Rightarrow> string \<Rightarrow> pending_tools \<times> nat" where
  "tools_open p i = box_open p i"

definition tools_close :: "pending_tools \<Rightarrow> string \<Rightarrow> pending_tools option" where
  "tools_close p i = box_close p i"

definition tools_resolve :: "bool \<Rightarrow> pending_tools \<Rightarrow> tools_result option \<Rightarrow> pending_tools" where
  "tools_resolve pick p res =
     (case res of None \<Rightarrow> p | Some r \<Rightarrow> box_resolve 1 pick p (tr_request_id r) r)"

definition tools_push_log :: "bool \<Rightarrow> pending_tools \<Rightarrow> tools_event option \<Rightarrow> pending_tools" where
  "tools_push_log pick p ev =
     (case ev of None \<Rightarrow> p | Some e \<Rightarrow> box_push 64 pick p (te_request_id e) e)"

type_synonym pending_network = "(network_result, network_event) boxes"

definition network_open :: "pending_network \<Rightarrow> string \<Rightarrow> pending_network \<times> nat" where
  "network_open p i = box_open p i"

definition network_close :: "pending_network \<Rightarrow> string \<Rightarrow> pending_network option" where
  "network_close p i = box_close p i"

definition network_resolve :: "bool \<Rightarrow> pending_network \<Rightarrow> network_result option \<Rightarrow> pending_network" where
  "network_resolve pick p res =
     (case res of None \<Rightarrow> p | Some r \<Rightarrow> box_resolve 1 pick p (nr_request_id r) r)"

definition network_push_event :: "bool \<Rightarrow> pending_network \<Rightarrow> network_event option \<Rightarrow> pending_network" where
  "network_push_event pick p ev =
     (case ev of None \<Rightarrow> p | Some e \<Rightarrow> box_push 64 pick p (ne_request_id e) e)"

text \<open>\<open>TerminalBus\<close> has no result channel of capacity one but an output channel of 512.\<close>

type_synonym terminal_bus = "(terminal_output, unit) boxes"

definition terminal_open :: "terminal_bus \<Rightarrow> string \<Rightarrow> terminal_bus \<times> nat" where
  "terminal_open b i = box_open b i"

definition terminal_close :: "terminal_bus \<Rightarrow> string \<Rightarrow> terminal_bus option" where
  "terminal_close b i = box_close b i"

definition terminal_deliver :: "bool \<Rightarrow> terminal_bus \<Rightarrow> terminal_output \<Rightarrow> terminal_bus" where
  "terminal_deliver pick b out = box_resolve 512 pick b (to_session_id out) out"


section \<open>Calls in any order\<close>

text \<open>
  The calls on one mailbox type as operations of a machine. \<open>MLate\<close> is the second half of a
  \<open>Resolve\<close> that looked its subscription up before other calls came in between: the select runs
  on a cell that was opened for the result's request id. \<open>MRecv\<close> is the waiter taking a value.
\<close>

datatype 'r mail_op = MOpen string | MClose string | MResolve bool 'r | MLate bool nat 'r | MRecv nat

definition box_recv :: "('r, 'e) boxes \<Rightarrow> nat \<Rightarrow> ('r, 'e) boxes" where
  "box_recv p a = (if a < length (bx_heap p) then upd_cell p a (\<lambda>s. s\<lparr>sub_ch := tl (sub_ch s)\<rparr>) else p)"

fun mail_step ::
  "(('r, 'e) boxes \<Rightarrow> string \<Rightarrow> ('r, 'e) boxes \<times> nat) \<Rightarrow> (('r, 'e) boxes \<Rightarrow> string \<Rightarrow> ('r, 'e) boxes option) \<Rightarrow>
   (bool \<Rightarrow> ('r, 'e) boxes \<Rightarrow> 'r \<Rightarrow> ('r, 'e) boxes) \<Rightarrow> ('r \<Rightarrow> string) \<Rightarrow> nat \<Rightarrow>
   ('r, 'e) boxes \<Rightarrow> 'r mail_op \<Rightarrow> ('r, 'e) boxes option" where
  "mail_step opn cls res rid cap p (MOpen i) = Some (fst (opn p i))"
| "mail_step opn cls res rid cap p (MClose i) = cls p i"
| "mail_step opn cls res rid cap p (MResolve pick r) = Some (res pick p r)"
| "mail_step opn cls res rid cap p (MLate pick a r) =
     Some (if a < length (bx_heap p) \<and> sub_id (bx_heap p ! a) = rid r
           then upd_cell p a (sub_resolve cap pick r) else p)"
| "mail_step opn cls res rid cap p (MRecv a) = Some (box_recv p a)"

text \<open>
  What every call keeps: a registered subscription was opened for its id and is not done, and a
  channel holds at most \<open>cap\<close> results, all of its own request.
\<close>

definition cell_ok :: "('r \<Rightarrow> string) \<Rightarrow> nat \<Rightarrow> ('r, 'e) sub \<Rightarrow> bool" where
  "cell_ok rid cap s \<longleftrightarrow> length (sub_ch s) \<le> cap \<and> (\<forall>r\<in>set (sub_ch s). rid r = sub_id s)"

definition box_ok :: "('r \<Rightarrow> string) \<Rightarrow> nat \<Rightarrow> ('r, 'e) boxes \<Rightarrow> bool" where
  "box_ok rid cap p \<longleftrightarrow>
     (\<forall>i a. bx_subs p i = Some a \<longrightarrow>
        a < length (bx_heap p) \<and> sub_id (bx_heap p ! a) = i \<and> \<not> sub_done (bx_heap p ! a)) \<and>
     (\<forall>s\<in>set (bx_heap p). cell_ok rid cap s)"

lemma box_okD:
  assumes "box_ok rid cap p" "bx_subs p i = Some a"
  shows "a < length (bx_heap p)" "sub_id (bx_heap p ! a) = i" "\<not> sub_done (bx_heap p ! a)"
  using assms unfolding box_ok_def by blast+

lemma box_ok_new [inv_intro]: "box_ok rid cap new_boxes"
  by (simp add: box_ok_def new_boxes_def)

lemma box_ok_open [inv_intro]: "box_ok rid cap p \<Longrightarrow> box_ok rid cap (fst (box_open p i))"
  unfolding box_ok_def box_open_def by (auto simp: nth_append cell_ok_def less_Suc_eq)

lemma box_ok_upd [inv_intro]:
  assumes "box_ok rid cap p" "\<And>s. sub_id (f s) = sub_id s" "\<And>s. sub_done (f s) = sub_done s"
    "a < length (bx_heap p) \<Longrightarrow> cell_ok rid cap (f (bx_heap p ! a))"
  shows "box_ok rid cap (upd_cell p a f)"
proof (cases "a < length (bx_heap p)")
  case True
  with assms show ?thesis
    unfolding box_ok_def upd_cell_def
    by (auto simp: nth_list_update dest!: set_update_subset_insert[THEN subsetD])
next
  case False
  with assms(1) show ?thesis by (simp add: upd_cell_def list_update_beyond)
qed

lemma cell_ok_nth: "box_ok rid cap p \<Longrightarrow> a < length (bx_heap p) \<Longrightarrow> cell_ok rid cap (bx_heap p ! a)"
  by (auto simp: box_ok_def)

lemma sub_resolve_id [simp]: "sub_id (sub_resolve cap pick r s) = sub_id s"
  by (simp add: sub_resolve_def)

lemma sub_resolve_done [simp]: "sub_done (sub_resolve cap pick r s) = sub_done s"
  by (simp add: sub_resolve_def)

lemma sub_push_id [simp]: "sub_id (sub_push cap pick e s) = sub_id s"
  by (simp add: sub_push_def Let_def)

lemma sub_push_done [simp]: "sub_done (sub_push cap pick e s) = sub_done s"
  by (simp add: sub_push_def Let_def)

lemma sub_push_ch [simp]: "sub_ch (sub_push cap pick e s) = sub_ch s"
  by (simp add: sub_push_def Let_def)

lemma cell_ok_resolve: "cell_ok rid cap s \<Longrightarrow> rid r = sub_id s \<Longrightarrow> cell_ok rid cap (sub_resolve cap pick r s)"
  by (auto simp: cell_ok_def sub_resolve_def)

lemma box_ok_resolve [inv_intro]: "box_ok rid cap p \<Longrightarrow> box_ok rid cap (box_resolve cap pick p (rid r) r)"
  unfolding box_resolve_def
  by (auto split: option.splits intro!: box_ok_upd cell_ok_resolve cell_ok_nth dest: box_okD)

lemma box_ok_push [inv_intro]: "box_ok rid cap p \<Longrightarrow> box_ok rid cap (box_push ecap pick p i e)"
proof -
  assume a: "box_ok rid cap p"
  have "cell_ok rid cap (sub_push ecap pick e s)" if "cell_ok rid cap s" for s
    using that by (simp add: cell_ok_def)
  with a show ?thesis
    unfolding box_push_def by (auto split: option.splits intro!: box_ok_upd cell_ok_nth)
qed

lemma box_ok_late:
  assumes "box_ok rid cap p" "a < length (bx_heap p)" "sub_id (bx_heap p ! a) = rid r"
  shows "box_ok rid cap (upd_cell p a (sub_resolve cap pick r))"
  using assms by (intro box_ok_upd cell_ok_resolve cell_ok_nth) auto

lemma box_ok_recv [inv_intro]: "box_ok rid cap p \<Longrightarrow> box_ok rid cap (box_recv p a)"
proof -
  assume a: "box_ok rid cap p"
  have "cell_ok rid cap (s\<lparr>sub_ch := tl (sub_ch s)\<rparr>)" if "cell_ok rid cap s" for s :: "('a, 'b) sub"
    using that by (cases "sub_ch s") (auto simp: cell_ok_def)
  with a show ?thesis
    unfolding box_recv_def by (auto intro!: box_ok_upd cell_ok_nth)
qed

lemma box_close_ok:
  assumes ok: "box_ok rid cap p"
  shows "\<exists>q. box_close p i = Some q \<and> box_ok rid cap q \<and> bx_subs q = (bx_subs p)(i := None)"
proof (cases "bx_subs p i")
  case None
  with ok show ?thesis by (auto simp: box_close_def fun_upd_idem)
next
  case (Some a)
  note d = box_okD[OF ok Some]
  define q where "q = p\<lparr>bx_subs := (bx_subs p)(i := None),
    bx_heap := (bx_heap p)[a := (bx_heap p ! a)\<lparr>sub_done := True\<rparr>]\<rparr>"
  have "box_close p i = Some q"
    using Some d by (simp add: box_close_def close_done_def q_def)
  moreover have "box_ok rid cap q"
    unfolding box_ok_def
  proof (intro conjI allI impI ballI)
    fix j b assume j: "bx_subs q j = Some b"
    then have jp: "j \<noteq> i" "bx_subs p j = Some b" by (auto simp: q_def split: if_splits)
    note e = box_okD[OF ok jp(2)]
    have "b \<noteq> a" using d(2) e(2) jp(1) by auto
    with e show "b < length (bx_heap q)" "sub_id (bx_heap q ! b) = j" "\<not> sub_done (bx_heap q ! b)"
      by (auto simp: q_def)
  next
    fix s assume "s \<in> set (bx_heap q)"
    then have "s \<in> set (bx_heap p) \<or> s = (bx_heap p ! a)\<lparr>sub_done := True\<rparr>"
      by (auto simp: q_def dest!: set_update_subset_insert[THEN subsetD])
    with ok cell_ok_nth[OF ok d(1)] show "cell_ok rid cap s"
      by (auto simp: box_ok_def cell_ok_def)
  qed
  ultimately show ?thesis by (auto simp: q_def)
qed

lemma upd_cell_ids:
  "(\<And>s. sub_id (f s) = sub_id s) \<Longrightarrow> map sub_id (bx_heap (upd_cell p a f)) = map sub_id (bx_heap p)"
proof -
  assume "\<And>s. sub_id (f s) = sub_id s"
  then have "map sub_id ((bx_heap p)[a := f (bx_heap p ! a)]) = (map sub_id (bx_heap p))[a := sub_id (bx_heap p ! a)]"
    by (simp add: map_update)
  also have "\<dots> = map sub_id (bx_heap p)"
  proof (cases "a < length (bx_heap p)")
    case True
    then have "sub_id (bx_heap p ! a) = map sub_id (bx_heap p) ! a" by simp
    then show ?thesis by (simp only: list_update_id)
  qed (simp add: list_update_beyond)
  finally show ?thesis by (simp add: upd_cell_def)
qed

lemma box_close_ids: "box_close p i = Some q \<Longrightarrow> map sub_id (bx_heap q) = map sub_id (bx_heap p)"
  using upd_cell_ids[of "\<lambda>s. s\<lparr>sub_done := True\<rparr>" p]
  by (auto simp: box_close_def close_done_def upd_cell_def split: option.splits if_splits)

section \<open>The contract of a mailbox\<close>

text \<open>
  What the gateway's senders rely on. \<open>opn\<close>, \<open>cls\<close> and \<open>res\<close> are the three calls;
  \<open>rid\<close> reads a result's request id.
\<close>

locale mailbox =
  fixes opn :: "('r, 'e) boxes \<Rightarrow> string \<Rightarrow> ('r, 'e) boxes \<times> nat"
    and cls :: "('r, 'e) boxes \<Rightarrow> string \<Rightarrow> ('r, 'e) boxes option"
    and res :: "bool \<Rightarrow> ('r, 'e) boxes \<Rightarrow> 'r \<Rightarrow> ('r, 'e) boxes"
    and rid :: "'r \<Rightarrow> string"
    and cap :: nat
  assumes cap_pos: "0 < cap"
    and opn_ok: "box_ok rid cap p \<Longrightarrow> box_ok rid cap (fst (opn p i))"
    and opn_addr: "snd (opn p i) = length (bx_heap p)"
    and opn_subs: "bx_subs (fst (opn p i)) = (bx_subs p)(i \<mapsto> snd (opn p i))"
    and opn_heap: "\<exists>s. bx_heap (fst (opn p i)) = bx_heap p @ [s] \<and> sub_id s = i \<and> sub_ch s = [] \<and> \<not> sub_done s"
    and cls_ok: "box_ok rid cap p \<Longrightarrow> \<exists>q. cls p i = Some q \<and> box_ok rid cap q \<and> bx_subs q = (bx_subs p)(i := None)"
    and cls_ids: "cls p i = Some q \<Longrightarrow> map sub_id (bx_heap q) = map sub_id (bx_heap p)"
    and res_ok: "box_ok rid cap p \<Longrightarrow> box_ok rid cap (res pick p r)"
    and res_miss: "bx_subs p (rid r) = None \<Longrightarrow> res pick p r = p"
    and res_hit: "bx_subs p (rid r) = Some a \<Longrightarrow> res pick p r = upd_cell p a (sub_resolve cap pick r)"
begin

lemma step_ok: "box_ok rid cap p \<Longrightarrow> \<exists>q. mail_step opn cls res rid cap p x = Some q \<and> box_ok rid cap q"
proof (cases x)
  case (MClose i)
  assume "box_ok rid cap p"
  with cls_ok[of p i] MClose show ?thesis by auto
qed (auto simp: opn_ok res_ok box_ok_late box_ok_recv)

sublocale safe: safe_machine "mail_step opn cls res rid cap" "box_ok rid cap"
  by unfold_locales (rule step_ok)

lemma never_panics: "\<exists>q. run_ops (mail_step opn cls res rid cap) xs new_boxes = Some q \<and> box_ok rid cap q"
  by (rule safe.run_safe[OF box_ok_new])

lemma own_results:
  assumes "run_ops (mail_step opn cls res rid cap) xs new_boxes = Some q" "s \<in> set (bx_heap q)" "r \<in> set (sub_ch s)"
  shows "rid r = sub_id s"
  using never_panics[of xs] assms by (auto simp: box_ok_def cell_ok_def)

lemma answered:
  assumes "opn p i = (q, a)" "rid r = i"
  shows "sub_ch (bx_heap (res pick q r) ! a) = [r]"
proof -
  from opn_heap[of p i] obtain s where s: "bx_heap q = bx_heap p @ [s]" "sub_ch s = []" "\<not> sub_done s"
    using assms(1) by auto
  have a: "a = length (bx_heap p)" "bx_subs q i = Some a"
    using opn_addr[of p i] opn_subs[of p i] assms(1) by auto
  then have "res pick q r = upd_cell q a (sub_resolve cap pick r)"
    using res_hit[of q r a pick] assms(2) by simp
  then show ?thesis using s a cap_pos by (simp add: upd_cell_def sub_resolve_def)
qed

text \<open>A subscription keeps its address and its id.\<close>

lemma step_ids:
  assumes "mail_step opn cls res rid cap p x = Some q"
  shows "prefix (map sub_id (bx_heap p)) (map sub_id (bx_heap q))"
proof (cases x)
  case (MOpen i)
  with assms opn_heap[of p i] show ?thesis by auto
next
  case (MClose i)
  with assms cls_ids[of p i q] show ?thesis by simp
next
  case (MResolve pick r)
  with assms res_miss[of p r pick] res_hit[of p r _ pick] show ?thesis
    by (cases "bx_subs p (rid r)") (auto simp: upd_cell_ids)
qed (use assms in \<open>auto simp: upd_cell_ids box_recv_def split: if_splits\<close>)

lemma run_ids:
  "run_ops (mail_step opn cls res rid cap) xs p = Some q \<Longrightarrow> prefix (map sub_id (bx_heap p)) (map sub_id (bx_heap q))"
proof (induction xs arbitrary: p)
  case (Cons x xs)
  then obtain t where "mail_step opn cls res rid cap p x = Some t" "run_ops (mail_step opn cls res rid cap) xs t = Some q"
    by (auto split: option.splits)
  with step_ids Cons.IH show ?case by (blast intro: prefix_order.trans)
qed simp

lemma run_sub_id:
  assumes "run_ops (mail_step opn cls res rid cap) xs p = Some q" "a < length (bx_heap p)"
  shows "a < length (bx_heap q) \<and> sub_id (bx_heap q ! a) = sub_id (bx_heap p ! a)"
proof -
  obtain zs where zs: "map sub_id (bx_heap q) = map sub_id (bx_heap p) @ zs"
    using run_ids[OF assms(1)] by (auto simp: prefix_def)
  then have "length (bx_heap q) = length (bx_heap p) + length zs" by (metis length_append length_map)
  then have "a < length (bx_heap q)" using assms(2) by simp
  moreover have "map sub_id (bx_heap q) ! a = map sub_id (bx_heap p) ! a" using zs assms(2) by (simp add: nth_append)
  ultimately show ?thesis using assms(2) by simp
qed

lemma late_dropped:
  assumes "box_ok rid cap p" "cls p (rid r) = Some q"
  shows "res pick q r = q"
proof -
  have "bx_subs q (rid r) = None" using cls_ok[OF assms(1), of "rid r"] assms(2) by auto
  then show ?thesis by (rule res_miss)
qed

end

text \<open>
  The tools and network mailboxes also carry a stream of events, which keeps the newest: a push
  appends, dropping the oldest event when the buffer of \<open>ecap\<close> is full.
\<close>

fun event_step ::
  "(('r, 'e) boxes \<Rightarrow> 'r mail_op \<Rightarrow> ('r, 'e) boxes option) \<Rightarrow> (bool \<Rightarrow> ('r, 'e) boxes \<Rightarrow> 'e \<Rightarrow> ('r, 'e) boxes) \<Rightarrow>
   ('r, 'e) boxes \<Rightarrow> 'r mail_op + bool \<times> 'e \<Rightarrow> ('r, 'e) boxes option" where
  "event_step mail push p (Inl x) = mail p x"
| "event_step mail push p (Inr (pick, e)) = Some (push pick p e)"

locale event_mailbox = mailbox opn cls res rid cap
  for opn :: "('r, 'e) boxes \<Rightarrow> string \<Rightarrow> ('r, 'e) boxes \<times> nat"
    and cls :: "('r, 'e) boxes \<Rightarrow> string \<Rightarrow> ('r, 'e) boxes option"
    and res :: "bool \<Rightarrow> ('r, 'e) boxes \<Rightarrow> 'r \<Rightarrow> ('r, 'e) boxes"
    and rid :: "'r \<Rightarrow> string"
    and cap :: nat +
  fixes push :: "bool \<Rightarrow> ('r, 'e) boxes \<Rightarrow> 'e \<Rightarrow> ('r, 'e) boxes"
    and eid :: "'e \<Rightarrow> string"
    and ecap :: nat
  assumes ecap_pos: "0 < ecap"
    and push_ok: "box_ok rid cap p \<Longrightarrow> box_ok rid cap (push pick p e)"
    and push_hit: "bx_subs p (eid e) = Some a \<Longrightarrow> push pick p e = upd_cell p a (sub_push ecap pick e)"
begin

sublocale events: safe_machine "event_step (mail_step opn cls res rid cap) push" "box_ok rid cap"
proof unfold_locales
  show "\<exists>t. event_step (mail_step opn cls res rid cap) push s x = Some t \<and> box_ok rid cap t"
    if "box_ok rid cap s" for s x
    using that step_ok[OF that] push_ok[OF that] by (cases x) (auto split: prod.splits)
qed

lemma push_keeps_newest:
  assumes ok: "box_ok rid cap p" and a: "bx_subs p (eid e) = Some a"
    and full: "length (sub_events (bx_heap p ! a)) \<le> ecap"
  shows "sub_events (bx_heap (push pick p e) ! a) =
    (if length (sub_events (bx_heap p ! a)) = ecap then tl (sub_events (bx_heap p ! a)) else sub_events (bx_heap p ! a)) @ [e]"
  using box_okD[OF ok a] full ecap_pos
  by (auto simp: push_hit[OF a] upd_cell_def sub_push_def Let_def)

end

lemmas box_simps = box_open_def box_resolve_def

interpretation pending: mailbox pending_open pending_close
  "\<lambda>pick p r. pending_resolve pick p (Some r)" cr_request_id 1
proof unfold_locales
  show "\<exists>q. pending_close p i = Some q \<and> box_ok cr_request_id 1 q \<and> bx_subs q = (bx_subs p)(i := None)"
    if "box_ok cr_request_id 1 p" for p i
    using box_close_ok[OF that] by (simp add: pending_close_def)
qed (auto simp: pending_open_def pending_close_def pending_resolve_def box_ok_open box_ok_resolve box_close_ids, auto simp: box_simps)

interpretation users: mailbox users_open users_close
  "\<lambda>pick p r. users_resolve pick p (Some r)" ur_request_id 1
proof unfold_locales
  show "\<exists>q. users_close p i = Some q \<and> box_ok ur_request_id 1 q \<and> bx_subs q = (bx_subs p)(i := None)"
    if "box_ok ur_request_id 1 p" for p i
    using box_close_ok[OF that] by (simp add: users_close_def)
qed (auto simp: users_open_def users_close_def users_resolve_def box_ok_open box_ok_resolve box_close_ids, auto simp: box_simps)

interpretation tools: mailbox tools_open tools_close
  "\<lambda>pick p r. tools_resolve pick p (Some r)" tr_request_id 1
proof unfold_locales
  show "\<exists>q. tools_close p i = Some q \<and> box_ok tr_request_id 1 q \<and> bx_subs q = (bx_subs p)(i := None)"
    if "box_ok tr_request_id 1 p" for p i
    using box_close_ok[OF that] by (simp add: tools_close_def)
qed (auto simp: tools_open_def tools_close_def tools_resolve_def box_ok_open box_ok_resolve box_close_ids, auto simp: box_simps)

interpretation tools_events: event_mailbox tools_open tools_close
  "\<lambda>pick p r. tools_resolve pick p (Some r)" tr_request_id 1
  "\<lambda>pick p e. tools_push_log pick p (Some e)" te_request_id 64
  by unfold_locales (auto simp: tools_push_log_def box_ok_push, auto simp: box_push_def)

interpretation network: mailbox network_open network_close
  "\<lambda>pick p r. network_resolve pick p (Some r)" nr_request_id 1
proof unfold_locales
  show "\<exists>q. network_close p i = Some q \<and> box_ok nr_request_id 1 q \<and> bx_subs q = (bx_subs p)(i := None)"
    if "box_ok nr_request_id 1 p" for p i
    using box_close_ok[OF that] by (simp add: network_close_def)
qed (auto simp: network_open_def network_close_def network_resolve_def box_ok_open box_ok_resolve box_close_ids, auto simp: box_simps)

interpretation network_events: event_mailbox network_open network_close
  "\<lambda>pick p r. network_resolve pick p (Some r)" nr_request_id 1
  "\<lambda>pick p e. network_push_event pick p (Some e)" ne_request_id 64
  by unfold_locales (auto simp: network_push_event_def box_ok_push, auto simp: box_push_def)

interpretation terminal: mailbox terminal_open terminal_close terminal_deliver to_session_id 512
proof unfold_locales
  show "\<exists>q. terminal_close p i = Some q \<and> box_ok to_session_id 512 q \<and> bx_subs q = (bx_subs p)(i := None)"
    if "box_ok to_session_id 512 p" for p i
    using box_close_ok[OF that] by (simp add: terminal_close_def)
qed (auto simp: terminal_open_def terminal_close_def terminal_deliver_def box_ok_open box_ok_resolve box_close_ids, auto simp: box_simps)


section \<open>Properties\<close>

text \<open>C7. No interleaving of \<open>Open\<close>, \<open>Close\<close>, \<open>Resolve\<close>, half-finished deliveries and
  receives on the connector mailboxes closes a channel twice, and each mailbox holds at most one
  result, which answers the request it was opened for.\<close>

theorem pending_requests_safe:
  "\<exists>q. run_ops (mail_step pending_open pending_close (\<lambda>pick p r. pending_resolve pick p (Some r)) cr_request_id 1)
        xs new_boxes = Some q \<and>
     list_all (\<lambda>s. length (sub_ch s) \<le> 1 \<and> list_all (\<lambda>r. cr_request_id r = sub_id s) (sub_ch s)) (bx_heap q)"
  using pending.never_panics[of xs] by (auto simp: box_ok_def cell_ok_def list_all_iff)

text \<open>The same for the host-tools mailboxes with their stream of log events in between, and a
  push keeps the newest 64 events in order.\<close>

theorem tools_requests_safe:
  "\<exists>q. run_ops (event_step (mail_step tools_open tools_close (\<lambda>pick p r. tools_resolve pick p (Some r)) tr_request_id 1)
          (\<lambda>pick p e. tools_push_log pick p (Some e))) xs new_boxes = Some q \<and>
     list_all (\<lambda>s. length (sub_ch s) \<le> 1 \<and> list_all (\<lambda>r. tr_request_id r = sub_id s) (sub_ch s)) (bx_heap q) \<and>
     (bx_subs q (te_request_id e) = Some a \<longrightarrow> length (sub_events (bx_heap q ! a)) \<le> 64 \<longrightarrow>
        sub_events (bx_heap (tools_push_log pick q (Some e)) ! a) =
          (if length (sub_events (bx_heap q ! a)) = 64 then tl (sub_events (bx_heap q ! a))
           else sub_events (bx_heap q ! a)) @ [e])"
proof -
  obtain q where q: "run_ops (event_step (mail_step tools_open tools_close (\<lambda>pick p r. tools_resolve pick p (Some r)) tr_request_id 1)
      (\<lambda>pick p e. tools_push_log pick p (Some e))) xs new_boxes = Some q" "box_ok tr_request_id 1 q"
    using tools_events.events.run_safe[OF box_ok_new, of xs] by blast
  then have "list_all (\<lambda>s. length (sub_ch s) \<le> 1 \<and> list_all (\<lambda>r. tr_request_id r = sub_id s) (sub_ch s)) (bx_heap q)"
    by (auto simp: box_ok_def cell_ok_def list_all_iff)
  with q tools_events.push_keeps_newest[OF q(2), of e a pick] show ?thesis by blast
qed

definition demo_tools_event :: tools_event where
  "demo_tools_event = \<lparr>te_request_id = ''r1'', te_kind = ''log'', te_data = ''x'', te_percent = 0, te_seq = 0\<rparr>"

theorem tools_requests_safe_witness:
  "\<exists>q. run_ops (event_step (mail_step tools_open tools_close (\<lambda>pick p r. tools_resolve pick p (Some r)) tr_request_id 1)
          (\<lambda>pick p e. tools_push_log pick p (Some e))) [Inl (MOpen ''r1'')] new_boxes = Some q \<and>
     bx_subs q (te_request_id demo_tools_event) = Some 0 \<and>
     sub_events (bx_heap (tools_push_log True q (Some demo_tools_event)) ! 0) = [demo_tools_event]"
  using tools_requests_safe[of "[Inl (MOpen ''r1'')]" demo_tools_event 0 True]
  by (simp add: tools_open_def box_open_def new_boxes_def demo_tools_event_def)

text \<open>A result that arrives after its request was closed is dropped: it changes nothing, so it
  cannot resolve another request.\<close>

theorem late_result_dropped:
  assumes "run_ops (mail_step pending_open pending_close (\<lambda>pick p r. pending_resolve pick p (Some r)) cr_request_id 1)
      xs new_boxes = Some p"
    and "pending_close p (cr_request_id r) = Some q"
  shows "pending_resolve pick q (Some r) = q"
proof (rule pending.late_dropped[OF _ assms(2)])
  show "box_ok cr_request_id 1 p" using pending.safe.run_inv[OF box_ok_new assms(1)] .
qed

definition demo_connector_result :: connector_result where
  "demo_connector_result = \<lparr>cr_request_id = ''r1'', cr_status = ''succeeded'', cr_message = [], cr_content = [],
     cr_checksum = [], cr_steps = [], cr_payload_json = []\<rparr>"

definition demo_closed_box :: pending_requests where
  "demo_closed_box = \<lparr>bx_subs = Map.empty,
     bx_heap = [\<lparr>sub_id = ''r1'', sub_ch = [], sub_events = [], sub_done = True\<rparr>]\<rparr>"

theorem late_result_dropped_witness:
  "pending_resolve True demo_closed_box (Some demo_connector_result) = demo_closed_box"
  by (rule late_result_dropped[of "[MOpen ''r1'']" "fst (pending_open new_boxes ''r1'')"])
    (simp_all add: pending_open_def pending_close_def box_open_def box_close_def close_done_def new_boxes_def
      demo_connector_result_def demo_closed_box_def fun_eq_iff)

end
