(* ===== verification/Registry.thy ===== *)
theory Registry
  imports Contracts Messages
begin

text \<open>
  The connected agents, \<open>control-plane/internal/agentgw/registry.go\<close>, and the deferred offline
  mark, \<open>offline.go\<close>. A \<open>Conn\<close> is shared between the registry and the goroutines of its stream,
  so it is a cell of a heap. Its \<open>out\<close> channel holds 32 messages; closing \<open>done\<close> twice panics,
  which is the outcome None.
\<close>

section \<open>Connections\<close>

record conn =
  cn_server :: string
  cn_out :: "server_message list"
  cn_done :: bool

record registry =
  rg_conns :: "string \<rightharpoonup> nat"
  rg_heap :: "conn list"

definition new_registry :: registry where
  "new_registry = \<lparr>rg_conns = Map.empty, rg_heap = []\<rparr>"

definition out_cap :: nat where
  "out_cap = 32"

text \<open>The select of \<open>Conn.Send\<close>: where \<open>done\<close> is closed and the channel has room, Go picks. With
  neither ready the call blocks.\<close>

datatype send_outcome = Sent | AgentOffline | Blocked

definition conn_send :: "bool \<Rightarrow> conn \<Rightarrow> server_message \<Rightarrow> conn \<times> send_outcome" where
  "conn_send pick c msg =
     (let room = length (cn_out c) < out_cap
      in if cn_done c \<and> (\<not> room \<or> \<not> pick) then (c, AgentOffline)
         else if room then (c\<lparr>cn_out := cn_out c @ [msg]\<rparr>, Sent)
         else (c, Blocked))"

definition set_done :: "registry \<Rightarrow> nat \<Rightarrow> registry option" where
  "set_done r a =
     (if cn_done (rg_heap r ! a) then None
      else Some (r\<lparr>rg_heap := (rg_heap r)[a := (rg_heap r ! a)\<lparr>cn_done := True\<rparr>]\<rparr>))"

definition reg_add :: "registry \<Rightarrow> string \<Rightarrow> (registry \<times> nat) option" where
  "reg_add r i =
     (case (case rg_conns r i of None \<Rightarrow> Some r | Some prev \<Rightarrow> set_done r prev) of
        None \<Rightarrow> None
      | Some r1 \<Rightarrow>
          Some (r1\<lparr>rg_heap := rg_heap r1 @ [\<lparr>cn_server = i, cn_out = [], cn_done = False\<rparr>],
                   rg_conns := (rg_conns r1)(i \<mapsto> length (rg_heap r1))\<rparr>, length (rg_heap r1)))"

definition reg_remove :: "registry \<Rightarrow> nat \<Rightarrow> (registry \<times> bool) option" where
  "reg_remove r a =
     (let i = cn_server (rg_heap r ! a)
      in if rg_conns r i = Some a
         then (case set_done (r\<lparr>rg_conns := (rg_conns r)(i := None)\<rparr>) a of
                 None \<Rightarrow> None | Some r1 \<Rightarrow> Some (r1, True))
         else Some (r, False))"

definition reg_connected :: "registry \<Rightarrow> string \<Rightarrow> bool" where
  "reg_connected r i \<longleftrightarrow> rg_conns r i \<noteq> None"

definition reg_send :: "bool \<Rightarrow> registry \<Rightarrow> string \<Rightarrow> server_message \<Rightarrow> registry \<times> send_outcome" where
  "reg_send pick r i msg =
     (case rg_conns r i of
        None \<Rightarrow> (r, AgentOffline)
      | Some a \<Rightarrow> (case conn_send pick (rg_heap r ! a) msg of
                    (c, out) \<Rightarrow> (r\<lparr>rg_heap := (rg_heap r)[a := c]\<rparr>, out)))"

section \<open>Streams coming and going\<close>

text \<open>\<open>RPump\<close> is the outbound goroutine of a stream taking one message off its channel.\<close>

datatype reg_op = RAdd string | RRemove nat | RSend bool string server_message | RPump nat

definition reg_pump :: "registry \<Rightarrow> nat \<Rightarrow> registry" where
  "reg_pump r a = r\<lparr>rg_heap := (rg_heap r)[a := (rg_heap r ! a)\<lparr>cn_out := tl (cn_out (rg_heap r ! a))\<rparr>]\<rparr>"

fun reg_step :: "registry \<Rightarrow> reg_op \<Rightarrow> registry option" where
  "reg_step r (RAdd i) = map_option fst (reg_add r i)"
| "reg_step r (RRemove a) = (if a < length (rg_heap r) then map_option fst (reg_remove r a) else Some r)"
| "reg_step r (RSend pick i m) = Some (fst (reg_send pick r i m))"
| "reg_step r (RPump a) = Some (if a < length (rg_heap r) then reg_pump r a else r)"

text \<open>The registered connections are exactly the open ones, and no channel is over its capacity.\<close>

definition reg_ok :: "registry \<Rightarrow> bool" where
  "reg_ok r \<longleftrightarrow>
     (\<forall>a < length (rg_heap r). \<not> cn_done (rg_heap r ! a) \<longleftrightarrow> rg_conns r (cn_server (rg_heap r ! a)) = Some a) \<and>
     (\<forall>i a. rg_conns r i = Some a \<longrightarrow> a < length (rg_heap r) \<and> cn_server (rg_heap r ! a) = i) \<and>
     (\<forall>a < length (rg_heap r). length (cn_out (rg_heap r ! a)) \<le> out_cap)"

lemma reg_ok_new [inv_intro]: "reg_ok new_registry"
  by (simp add: reg_ok_def new_registry_def)

lemma reg_okD:
  assumes "reg_ok r" "rg_conns r i = Some a"
  shows "a < length (rg_heap r)" "cn_server (rg_heap r ! a) = i" "\<not> cn_done (rg_heap r ! a)"
  using assms unfolding reg_ok_def by blast+

lemma reg_okI:
  assumes "\<And>a. a < length (rg_heap r) \<Longrightarrow> \<not> cn_done (rg_heap r ! a) \<longleftrightarrow> rg_conns r (cn_server (rg_heap r ! a)) = Some a"
    and "\<And>i a. rg_conns r i = Some a \<Longrightarrow> a < length (rg_heap r) \<and> cn_server (rg_heap r ! a) = i"
    and "\<And>a. a < length (rg_heap r) \<Longrightarrow> length (cn_out (rg_heap r ! a)) \<le> out_cap"
  shows "reg_ok r"
  using assms unfolding reg_ok_def by blast

lemma reg_ok_live:
  "reg_ok r \<Longrightarrow> a < length (rg_heap r) \<Longrightarrow>
   \<not> cn_done (rg_heap r ! a) \<longleftrightarrow> rg_conns r (cn_server (rg_heap r ! a)) = Some a"
  by (simp add: reg_ok_def)

lemma reg_ok_out: "reg_ok r \<Longrightarrow> a < length (rg_heap r) \<Longrightarrow> length (cn_out (rg_heap r ! a)) \<le> out_cap"
  by (simp add: reg_ok_def)

lemma reg_ok_drop:
  assumes ok: "reg_ok r" and a: "rg_conns r i = Some a"
  shows "reg_ok (r\<lparr>rg_conns := (rg_conns r)(i := None),
    rg_heap := (rg_heap r)[a := (rg_heap r ! a)\<lparr>cn_done := True\<rparr>]\<rparr>)" (is "reg_ok ?q")
proof (rule reg_okI)
  note d = reg_okD[OF ok a]
  fix b assume "b < length (rg_heap ?q)"
  then have b: "b < length (rg_heap r)" by simp
  show "\<not> cn_done (rg_heap ?q ! b) \<longleftrightarrow> rg_conns ?q (cn_server (rg_heap ?q ! b)) = Some b"
    using reg_ok_live[OF ok b] d a b by (cases "b = a") auto
  show "length (cn_out (rg_heap ?q ! b)) \<le> out_cap"
    using reg_ok_out[OF ok b] d b by (cases "b = a") auto
next
  fix j b assume "rg_conns ?q j = Some b"
  then have j: "rg_conns r j = Some b" "j \<noteq> i" by (auto split: if_splits)
  with reg_okD[OF ok j(1)] reg_okD[OF ok a]
  show "b < length (rg_heap ?q) \<and> cn_server (rg_heap ?q ! b) = j" by (cases "b = a") auto
qed

lemma reg_ok_push:
  assumes ok: "reg_ok r" and none: "rg_conns r i = None"
  shows "reg_ok (r\<lparr>rg_heap := rg_heap r @ [\<lparr>cn_server = i, cn_out = [], cn_done = False\<rparr>],
    rg_conns := (rg_conns r)(i \<mapsto> length (rg_heap r))\<rparr>)"
  using ok none unfolding reg_ok_def
  by (auto simp: nth_append less_Suc_eq)

lemma reg_add_ok:
  assumes ok: "reg_ok r"
  shows "\<exists>q. reg_add r i = Some (q, length (rg_heap r)) \<and> reg_ok q \<and> rg_conns q i = Some (length (rg_heap r)) \<and>
    length (rg_heap q) = Suc (length (rg_heap r)) \<and> cn_server (rg_heap q ! length (rg_heap r)) = i \<and>
    (\<forall>prev. rg_conns r i = Some prev \<longrightarrow> cn_done (rg_heap q ! prev))"
proof (cases "rg_conns r i")
  case None
  with reg_ok_push[OF ok None] show ?thesis by (simp add: reg_add_def)
next
  case (Some a)
  note d = reg_okD[OF ok Some]
  define r0 where "r0 = r\<lparr>rg_conns := (rg_conns r)(i := None),
    rg_heap := (rg_heap r)[a := (rg_heap r ! a)\<lparr>cn_done := True\<rparr>]\<rparr>"
  have ok0: "reg_ok r0" unfolding r0_def by (rule reg_ok_drop[OF ok Some])
  have "rg_conns r0 i = None" by (simp add: r0_def)
  from reg_ok_push[OF ok0 this] show ?thesis
    using Some d by (simp add: reg_add_def set_done_def r0_def nth_append)
qed

lemma reg_remove_ok:
  assumes ok: "reg_ok r" and a: "a < length (rg_heap r)"
  shows "\<exists>q. reg_remove r a = Some (q, rg_conns r (cn_server (rg_heap r ! a)) = Some a) \<and> reg_ok q \<and>
    (rg_conns r (cn_server (rg_heap r ! a)) = Some a \<longrightarrow> rg_conns q (cn_server (rg_heap r ! a)) = None) \<and>
    (rg_conns r (cn_server (rg_heap r ! a)) \<noteq> Some a \<longrightarrow> q = r)"
proof (cases "rg_conns r (cn_server (rg_heap r ! a)) = Some a")
  case True
  with reg_okD[OF ok True] reg_ok_drop[OF ok True] show ?thesis
    by (simp add: reg_remove_def set_done_def Let_def)
next
  case False
  with ok show ?thesis by (simp add: reg_remove_def Let_def)
qed

lemma reg_ok_cell:
  assumes "reg_ok r" "cn_server c = cn_server (rg_heap r ! a)" "cn_done c = cn_done (rg_heap r ! a)"
    "length (cn_out c) \<le> out_cap"
  shows "reg_ok (r\<lparr>rg_heap := (rg_heap r)[a := c]\<rparr>)"
proof (cases "a < length (rg_heap r)")
  case True
  have "cn_server ((rg_heap r)[a := c] ! b) = cn_server (rg_heap r ! b) \<and>
      cn_done ((rg_heap r)[a := c] ! b) = cn_done (rg_heap r ! b)" for b
    using assms(2,3) True by (cases "b = a") auto
  moreover have "length (cn_out ((rg_heap r)[a := c] ! b)) \<le> out_cap" if "b < length (rg_heap r)" for b
    using assms(1,4) True that by (cases "b = a") (auto simp: reg_ok_def)
  ultimately show ?thesis using assms(1) unfolding reg_ok_def by simp
next
  case False
  with assms(1) show ?thesis by (simp add: list_update_beyond)
qed

lemma reg_send_ok: "reg_ok r \<Longrightarrow> reg_ok (fst (reg_send pick r i m))"
proof (cases "rg_conns r i")
  case (Some a)
  assume ok: "reg_ok r"
  have "length (cn_out (rg_heap r ! a)) \<le> out_cap" using ok reg_okD(1)[OF ok Some] by (auto simp: reg_ok_def)
  with Some show ?thesis
    using reg_ok_cell[OF ok, of "fst (conn_send pick (rg_heap r ! a) m)" a]
    by (auto simp: reg_send_def conn_send_def Let_def list_update_id ok split: if_splits)
qed (simp add: reg_send_def)

lemma reg_pump_ok: "reg_ok r \<Longrightarrow> a < length (rg_heap r) \<Longrightarrow> reg_ok (reg_pump r a)"
  unfolding reg_pump_def by (rule reg_ok_cell) (auto simp: reg_ok_def)

interpretation registry: safe_machine reg_step reg_ok
proof
  show "\<exists>t. reg_step r x = Some t \<and> reg_ok t" if ok: "reg_ok r" for r x
  proof (cases x)
    case (RAdd i)
    with reg_add_ok[OF ok, of i] show ?thesis by auto
  next
    case (RRemove a)
    show ?thesis
    proof (cases "a < length (rg_heap r)")
      case True
      with RRemove reg_remove_ok[OF ok True] show ?thesis by auto
    next
      case False
      with RRemove ok show ?thesis by simp
    qed
  qed (auto simp: reg_send_ok[OF ok] reg_pump_ok[OF ok] ok)
qed


section \<open>The deferred offline mark\<close>

text \<open>
  \<open>offline.go\<close>: a timer per server, armed when its live stream ends. Timers are cells too: an
  \<open>AfterFunc\<close> that was stopped no longer fires, and one that fires removes the map's entry for its
  server whichever timer that entry holds. \<open>status\<close> is the column of the servers table that
  \<open>markOffline\<close> updates.
\<close>

datatype timer_state = Armed | Stopped | Fired

record offline =
  of_timers :: "string \<rightharpoonup> nat"
  of_heap :: "(string \<times> timer_state) list"
  of_status :: "string \<rightharpoonup> string"

definition timer_stop :: "offline \<Rightarrow> nat \<Rightarrow> offline" where
  "timer_stop f a =
     (case of_heap f ! a of
        (i, Armed) \<Rightarrow> f\<lparr>of_heap := (of_heap f)[a := (i, Stopped)]\<rparr>
      | _ \<Rightarrow> f)"

definition schedule_offline :: "offline \<Rightarrow> string \<Rightarrow> offline" where
  "schedule_offline f i =
     (let f1 = (case of_timers f i of None \<Rightarrow> f | Some a \<Rightarrow> timer_stop f a)
      in f1\<lparr>of_timers := (of_timers f1)(i \<mapsto> length (of_heap f1)), of_heap := of_heap f1 @ [(i, Armed)]\<rparr>)"

definition cancel_pending_offline :: "offline \<Rightarrow> string \<Rightarrow> offline" where
  "cancel_pending_offline f i =
     (case of_timers f i of
        None \<Rightarrow> f
      | Some a \<Rightarrow> (timer_stop f a)\<lparr>of_timers := (of_timers f)(i := None)\<rparr>)"

text \<open>\<open>update servers set status = 'offline' where id = $1 and status = 'online'\<close>; \<open>ok\<close> says
  whether the database executes a statement.\<close>

definition mark_offline :: "bool \<Rightarrow> offline \<Rightarrow> string \<Rightarrow> offline" where
  "mark_offline ok f i =
     (if ok \<and> of_status f i = Some ''online'' then f\<lparr>of_status := (of_status f)(i \<mapsto> ''offline'')\<rparr> else f)"

definition timer_fire :: "bool \<Rightarrow> registry \<Rightarrow> offline \<Rightarrow> nat \<Rightarrow> offline" where
  "timer_fire ok r f a =
     (case of_heap f ! a of
        (i, Armed) \<Rightarrow>
          let f1 = f\<lparr>of_heap := (of_heap f)[a := (i, Fired)], of_timers := (of_timers f)(i := None)\<rparr>
          in if reg_connected r i then f1 else mark_offline ok f1 i
      | _ \<Rightarrow> f)"

text \<open>\<open>update servers set last_seen_at = now(), status = 'online' where id = $1\<close>\<close>

definition set_online :: "offline \<Rightarrow> string \<Rightarrow> offline" where
  "set_online f i = (if of_status f i = None then f else f\<lparr>of_status := (of_status f)(i \<mapsto> ''online'')\<rparr>)"

definition on_heartbeat :: "bool \<Rightarrow> offline \<Rightarrow> string \<Rightarrow> offline \<times> bool" where
  "on_heartbeat ok f i =
     (let f1 = cancel_pending_offline f i in if ok then (set_online f1 i, True) else (f1, False))"

text \<open>
  The life of streams: \<open>AgentStream\<close> registers and cancels (\<open>GConnect\<close>), and its deferred
  function removes and schedules (\<open>GDisconnect\<close>); a heartbeat cancels and sets the row online; a
  timer fires.
\<close>

datatype life_op = GConnect string | GDisconnect nat | GHeartbeat bool string | GFire bool nat

definition life_connect :: "registry \<times> offline \<Rightarrow> string \<Rightarrow> (registry \<times> offline) option" where
  "life_connect s i =
     (case reg_add (fst s) i of None \<Rightarrow> None | Some (r, _) \<Rightarrow> Some (r, cancel_pending_offline (snd s) i))"

definition life_disconnect :: "registry \<times> offline \<Rightarrow> nat \<Rightarrow> (registry \<times> offline) option" where
  "life_disconnect s a =
     (case reg_remove (fst s) a of
        None \<Rightarrow> None
      | Some (r, live) \<Rightarrow>
          Some (r, if live then schedule_offline (snd s) (cn_server (rg_heap (fst s) ! a)) else snd s))"

fun life_step :: "registry \<times> offline \<Rightarrow> life_op \<Rightarrow> (registry \<times> offline) option" where
  "life_step s (GConnect i) = life_connect s i"
| "life_step s (GDisconnect a) = (if a < length (rg_heap (fst s)) then life_disconnect s a else Some s)"
| "life_step s (GHeartbeat ok i) = Some (fst s, fst (on_heartbeat ok (snd s) i))"
| "life_step s (GFire ok a) =
     Some (fst s, if a < length (of_heap (snd s)) then timer_fire ok (fst s) (snd s) a else snd s)"

text \<open>
  The invariant behind the grace period: the map holds armed timers of its own server, and every
  armed timer is in the map, so one that was cancelled or replaced never fires.
\<close>

definition offline_ok :: "offline \<Rightarrow> bool" where
  "offline_ok f \<longleftrightarrow>
     (\<forall>i a. of_timers f i = Some a \<longleftrightarrow> a < length (of_heap f) \<and> of_heap f ! a = (i, Armed))"

definition life_ok :: "registry \<times> offline \<Rightarrow> bool" where
  "life_ok s \<longleftrightarrow> reg_ok (fst s) \<and> offline_ok (snd s)"

lemma offline_okD: "offline_ok f \<Longrightarrow> of_timers f i = Some a \<Longrightarrow> a < length (of_heap f) \<and> of_heap f ! a = (i, Armed)"
  by (simp add: offline_ok_def)

lemma timer_stop_armed:
  "of_heap f ! a = (i, Armed) \<Longrightarrow> timer_stop f a = f\<lparr>of_heap := (of_heap f)[a := (i, Stopped)]\<rparr>"
  by (simp add: timer_stop_def)

lemma offline_ok_iff:
  "offline_ok f \<Longrightarrow> of_timers f i = Some a \<longleftrightarrow> a < length (of_heap f) \<and> of_heap f ! a = (i, Armed)"
  by (simp add: offline_ok_def)

lemma offline_okI:
  assumes "\<And>i a. of_timers f i = Some a \<longleftrightarrow> a < length (of_heap f) \<and> of_heap f ! a = (i, Armed)"
  shows "offline_ok f"
  using assms by (simp add: offline_ok_def)

text \<open>Disarming the timer of a server and dropping its entry keeps the invariant.\<close>

lemma disarm_ok:
  assumes ok: "offline_ok f" and a: "of_timers f i = Some a" and t: "t \<noteq> Armed"
  shows "offline_ok (f\<lparr>of_heap := (of_heap f)[a := (i, t)], of_timers := (of_timers f)(i := None)\<rparr>)"
proof (rule offline_okI)
  fix j b
  show "of_timers (f\<lparr>of_heap := (of_heap f)[a := (i, t)], of_timers := (of_timers f)(i := None)\<rparr>) j = Some b \<longleftrightarrow>
    b < length (of_heap (f\<lparr>of_heap := (of_heap f)[a := (i, t)], of_timers := (of_timers f)(i := None)\<rparr>)) \<and>
    of_heap (f\<lparr>of_heap := (of_heap f)[a := (i, t)], of_timers := (of_timers f)(i := None)\<rparr>) ! b = (j, Armed)"
    using offline_ok_iff[OF ok, of j b] offline_ok_iff[OF ok, of i b] offline_ok_iff[OF ok, of i a] a t
    by (cases "b = a"; cases "j = i") auto
qed

lemma cancel_ok: "offline_ok f \<Longrightarrow> offline_ok (cancel_pending_offline f i)"
proof (cases "of_timers f i")
  case (Some a)
  assume ok: "offline_ok f"
  have "cancel_pending_offline f i =
      f\<lparr>of_heap := (of_heap f)[a := (i, Stopped)], of_timers := (of_timers f)(i := None)\<rparr>"
    using offline_okD[OF ok Some] Some by (simp add: cancel_pending_offline_def timer_stop_armed)
  with disarm_ok[OF ok Some, of Stopped] show ?thesis by simp
qed (simp add: cancel_pending_offline_def)

lemma schedule_eq_cancel:
  assumes ok: "offline_ok f"
  shows "schedule_offline f i =
    (let g = cancel_pending_offline f i
     in g\<lparr>of_timers := (of_timers g)(i \<mapsto> length (of_heap g)), of_heap := of_heap g @ [(i, Armed)]\<rparr>)"
proof (cases "of_timers f i")
  case None
  then show ?thesis by (simp add: schedule_offline_def cancel_pending_offline_def)
next
  case (Some a)
  with offline_okD[OF ok Some] show ?thesis
    by (simp add: schedule_offline_def cancel_pending_offline_def timer_stop_armed Let_def)
qed

lemma cancel_none: "of_timers (cancel_pending_offline f i) i = None"
  by (simp add: cancel_pending_offline_def split: option.splits)

lemma schedule_ok:
  assumes ok: "offline_ok f"
  shows "offline_ok (schedule_offline f i)"
proof -
  define g where "g = cancel_pending_offline f i"
  have g: "offline_ok g" "of_timers g i = None"
    using cancel_ok[OF ok] cancel_none by (simp_all add: g_def)
  have "offline_ok (g\<lparr>of_timers := (of_timers g)(i \<mapsto> length (of_heap g)), of_heap := of_heap g @ [(i, Armed)]\<rparr>)"
  proof (rule offline_okI)
    fix j b
    show "of_timers (g\<lparr>of_timers := (of_timers g)(i \<mapsto> length (of_heap g)), of_heap := of_heap g @ [(i, Armed)]\<rparr>) j = Some b \<longleftrightarrow>
      b < length (of_heap (g\<lparr>of_timers := (of_timers g)(i \<mapsto> length (of_heap g)), of_heap := of_heap g @ [(i, Armed)]\<rparr>)) \<and>
      of_heap (g\<lparr>of_timers := (of_timers g)(i \<mapsto> length (of_heap g)), of_heap := of_heap g @ [(i, Armed)]\<rparr>) ! b = (j, Armed)"
      using offline_ok_iff[OF g(1), of j b] g(2)
      by (cases "j = i"; cases "b < length (of_heap g)") (auto simp: nth_append less_Suc_eq)
  qed
  then show ?thesis by (simp add: schedule_eq_cancel[OF ok] g_def Let_def)
qed

lemma fire_ok:
  assumes ok: "offline_ok f" and a: "a < length (of_heap f)"
  shows "offline_ok (timer_fire db r f a)"
proof -
  obtain i t where it: "of_heap f ! a = (i, t)" by (cases "of_heap f ! a")
  show ?thesis
  proof (cases "t = Armed")
    case True
    with ok a it have m: "of_timers f i = Some a" by (simp add: offline_ok_def)
    have "offline_ok (f\<lparr>of_heap := (of_heap f)[a := (i, Fired)], of_timers := (of_timers f)(i := None)\<rparr>)"
      by (rule disarm_ok[OF ok m]) simp
    then show ?thesis
      using it True by (simp add: timer_fire_def Let_def mark_offline_def offline_ok_def)
  next
    case False
    with it ok show ?thesis by (cases t) (simp_all add: timer_fire_def)
  qed
qed

lemma offline_ok_status [simp]: "offline_ok (f\<lparr>of_status := st\<rparr>) = offline_ok f"
  by (simp add: offline_ok_def)

lemma heartbeat_ok: "offline_ok f \<Longrightarrow> offline_ok (fst (on_heartbeat db f i))"
  using cancel_ok[of f i] by (simp add: on_heartbeat_def set_online_def Let_def)

interpretation life: safe_machine life_step life_ok
proof
  show "\<exists>t. life_step s x = Some t \<and> life_ok t" if ok: "life_ok s" for s x
  proof (cases x)
    case (GConnect i)
    with ok reg_add_ok[of "fst s" i] show ?thesis
      by (auto simp: life_ok_def life_connect_def cancel_ok)
  next
    case (GDisconnect a)
    obtain r f where s: "s = (r, f)" by (cases s)
    show ?thesis
    proof (cases "a < length (rg_heap (fst s))")
      case True
      with GDisconnect ok reg_remove_ok[of r a] show ?thesis
        by (auto simp: s life_ok_def life_disconnect_def schedule_ok)
    next
      case False
      with GDisconnect ok show ?thesis by simp
    qed
  next
    case (GHeartbeat db i)
    with ok heartbeat_ok show ?thesis by (simp add: life_ok_def)
  next
    case (GFire db a)
    with ok fire_ok show ?thesis by (auto simp: life_ok_def)
  qed
qed

lemma fire_status:
  assumes "of_status (timer_fire db r f a) i \<noteq> of_status f i"
  shows "\<not> reg_connected r i \<and> of_heap f ! a = (i, Armed) \<and> of_status f i = Some ''online'' \<and>
    of_status (timer_fire db r f a) i = Some ''offline''"
  using assms by (auto simp: timer_fire_def mark_offline_def Let_def split: prod.splits timer_state.splits if_splits)

section \<open>Properties\<close>

text \<open>Whatever streams come and go, no \<open>done\<close> channel is closed twice, a server has at most
  one open connection, which is the registered one, and registering a server again closes its
  previous connection, whose later removal reports that it was not live and leaves the new one.\<close>

theorem reconnect_supersedes:
  assumes "run_ops reg_step xs new_registry = Some r" and "rg_conns r i = Some prev"
  shows "\<exists>q. reg_add r i = Some (q, length (rg_heap r)) \<and> cn_done (rg_heap q ! prev) \<and>
    rg_conns q i = Some (length (rg_heap r)) \<and> \<not> cn_done (rg_heap q ! length (rg_heap r)) \<and>
    reg_remove q prev = Some (q, False)"
proof -
  have ok: "reg_ok r" using registry.run_inv[OF reg_ok_new assms(1)] .
  obtain q where q: "reg_add r i = Some (q, length (rg_heap r))" "reg_ok q"
    "rg_conns q i = Some (length (rg_heap r))" "length (rg_heap q) = Suc (length (rg_heap r))"
    "cn_done (rg_heap q ! prev)"
    using reg_add_ok[OF ok, of i] assms(2) by auto
  have prev: "prev < length (rg_heap q)" using reg_okD(1)[OF ok assms(2)] q(4) by simp
  then have "rg_conns q (cn_server (rg_heap q ! prev)) \<noteq> Some prev"
    using q(2,5) reg_okD(3)[OF q(2)] by blast
  with reg_remove_ok[OF q(2) prev] have "reg_remove q prev = Some (q, False)" by auto
  with q reg_okD(3)[OF q(2,3)] show ?thesis by auto
qed

theorem reconnect_supersedes_witness:
  "\<exists>r q. run_ops reg_step [RAdd ''s''] new_registry = Some r \<and> reg_add r ''s'' = Some (q, 1) \<and>
     cn_done (rg_heap q ! 0) \<and> reg_remove q 0 = Some (q, False)"
proof -
  let ?r = "fst (the (reg_add new_registry ''s''))"
  have run: "run_ops reg_step [RAdd ''s''] new_registry = Some ?r"
    and "rg_conns ?r ''s'' = Some 0" "length (rg_heap ?r) = 1"
    by (simp_all add: reg_add_def new_registry_def)
  from reconnect_supersedes[OF this(1,2)] this show ?thesis by auto
qed

text \<open>Every sequence of connects, disconnects, heartbeats and timer expiries runs without a
  panic, and a timer that was cancelled or replaced never fires, so a row goes offline only when its
  armed timer expires while no stream of the server is registered.\<close>

theorem offline_only_when_gone:
  assumes "run_ops life_step xs s0 = Some (r, f)" and "life_ok s0" and "a < length (of_heap f)"
    and "of_status (timer_fire db r f a) i \<noteq> of_status f i"
  shows "rg_conns r i = None \<and> of_timers f i = Some a \<and>
    of_status f i = Some ''online'' \<and> of_status (timer_fire db r f a) i = Some ''offline''"
proof -
  have "life_ok (r, f)" using life.run_inv[OF assms(2,1)] .
  with fire_status[OF assms(4)] assms(3) show ?thesis
    by (auto simp: reg_connected_def life_ok_def offline_ok_def)
qed

definition demo_life :: "registry \<times> offline" where
  "demo_life = (new_registry, \<lparr>of_timers = Map.empty, of_heap = [], of_status = [''s'' \<mapsto> ''online'']\<rparr>)"

theorem offline_only_when_gone_witness:
  "\<exists>r f. run_ops life_step [GConnect ''s'', GDisconnect 0] demo_life = Some (r, f) \<and>
     of_timers f ''s'' = Some 0 \<and> of_status (timer_fire True r f 0) ''s'' = Some ''offline''"
proof -
  obtain r f where rf: "run_ops life_step [GConnect ''s'', GDisconnect 0] demo_life = Some (r, f)"
    "length (of_heap f) = 1" "of_status (timer_fire True r f 0) ''s'' \<noteq> of_status f ''s''"
    by (simp add: demo_life_def life_connect_def life_disconnect_def reg_add_def reg_remove_def set_done_def
        new_registry_def cancel_pending_offline_def schedule_offline_def timer_fire_def mark_offline_def
        reg_connected_def Let_def)
  have "life_ok demo_life"
    by (simp add: life_ok_def demo_life_def reg_ok_new offline_ok_def)
  from offline_only_when_gone[OF rf(1) this _ rf(3)] rf show ?thesis by auto
qed

end
