(* ===== verification/Requests.thy ===== *)
theory Requests
  imports Pending Registry
begin

text \<open>
  The request senders of the gateway, \<open>command.go\<close>, \<open>users.go\<close>, \<open>tools.go\<close> and
  \<open>network.go\<close> of \<open>control-plane/internal/agentgw\<close>. Each opens a mailbox, sends its message on
  the server's connection, waits for the first of result, timer and caller, and releases the mailbox.
  The wait is a step of its own, since other calls run in between: \<open>begin_*\<close> is the code up to the
  wait, \<open>end_*\<close> the code from the branch of the select that Go takes. A request id comes from
  \<open>ids.New\<close>, an argument.
\<close>

section \<open>Waiting\<close>

datatype req_error = EOffline | ETimeout | ECtx string | EMsg string

text \<open>The branch of the select. Receiving from an empty channel is not a ready branch: None.\<close>

datatype wake = GotResult | TimerFired | CtxDone string

definition take_result :: "('r, 'e) boxes \<Rightarrow> nat \<Rightarrow> (('r, 'e) boxes \<times> 'r) option" where
  "take_result p a =
     (case sub_ch (bx_heap p ! a) of
        [] \<Rightarrow> None
      | r # rest \<Rightarrow> Some (upd_cell p a (\<lambda>s. s\<lparr>sub_ch := rest\<rparr>), r))"

definition await :: "('r, 'e) boxes \<Rightarrow> nat \<Rightarrow> wake \<Rightarrow> (('r, 'e) boxes \<times> (req_error, 'r) res) option" where
  "await p a w =
     (case w of
        GotResult \<Rightarrow> map_option (\<lambda>(q, r). (q, Inr r)) (take_result p a)
      | TimerFired \<Rightarrow> Some (p, Inl ETimeout)
      | CtxDone e \<Rightarrow> Some (p, Inl (ECtx e)))"

section \<open>Connector commands\<close>

text \<open>\<open>SendConnectorCommand\<close>; the outcome of the begin is the address of the subscription to wait
  on, or the error, in which case the deferred \<open>Close\<close> has run. A blocked send has not returned:
  None, as for a panic.\<close>

definition begin_connector_command ::
  "bool \<Rightarrow> string \<Rightarrow> registry \<Rightarrow> pending_requests \<Rightarrow> string \<Rightarrow> connector_command \<Rightarrow>
   (registry \<times> pending_requests \<times> (req_error, string \<times> nat) res) option" where
  "begin_connector_command pick new_id g p server cmd =
     (let cmd1 = (if cc_request_id cmd = [] then cmd\<lparr>cc_request_id := new_id\<rparr> else cmd);
          i = cc_request_id cmd1
      in case pending_open p i of
           (p1, a) \<Rightarrow>
             (case reg_send pick g server (SConnectorCommand cmd1) of
                (g1, Sent) \<Rightarrow> Some (g1, p1, Inr (i, a))
              | (g1, AgentOffline) \<Rightarrow>
                  map_option (\<lambda>p2. (g1, p2, Inl EOffline)) (pending_close p1 i)
              | (g1, Blocked) \<Rightarrow> None))"

definition end_connector_command ::
  "pending_requests \<Rightarrow> string \<Rightarrow> nat \<Rightarrow> wake \<Rightarrow> (pending_requests \<times> (req_error, connector_result) res) option" where
  "end_connector_command p i a w =
     (case await p a w of
        None \<Rightarrow> None
      | Some (q, out) \<Rightarrow> map_option (\<lambda>q1. (q1, out)) (pending_close q i))"

definition send_deploy :: "bool \<Rightarrow> registry \<Rightarrow> string \<Rightarrow> deploy_command option \<Rightarrow> registry \<times> (string, send_outcome) res" where
  "send_deploy pick g server cmd =
     (case cmd of
        None \<Rightarrow> (g, Inl ''nil deploy command'')
      | Some c \<Rightarrow> (case reg_send pick g server (SDeployCommand c) of (g1, out) \<Rightarrow> (g1, Inr out)))"

section \<open>User lists\<close>

definition begin_list_users ::
  "bool \<Rightarrow> string \<Rightarrow> registry \<Rightarrow> pending_users \<Rightarrow> string \<Rightarrow>
   (registry \<times> pending_users \<times> (req_error, string \<times> nat) res) option" where
  "begin_list_users pick i g p server =
     (case users_open p i of
        (p1, a) \<Rightarrow>
          (case reg_send pick g server (SListUsersRequest i) of
             (g1, Sent) \<Rightarrow> Some (g1, p1, Inr (i, a))
           | (g1, AgentOffline) \<Rightarrow> map_option (\<lambda>p2. (g1, p2, Inl EOffline)) (users_close p1 i)
           | (g1, Blocked) \<Rightarrow> None))"

definition end_list_users ::
  "pending_users \<Rightarrow> string \<Rightarrow> nat \<Rightarrow> wake \<Rightarrow> (pending_users \<times> (req_error, users_result) res) option" where
  "end_list_users p i a w =
     (case await p a w of
        None \<Rightarrow> None
      | Some (q, out) \<Rightarrow> map_option (\<lambda>q1. (q1, out)) (users_close q i))"

section \<open>Host tools\<close>

text \<open>Durations are seconds.\<close>

definition host_tools_timeout :: "string \<Rightarrow> nat" where
  "host_tools_timeout op = (if op = ''install'' \<or> op = ''uninstall'' then 15 * 60 else 45)"

definition begin_host_tools_request ::
  "bool \<Rightarrow> string \<Rightarrow> registry \<Rightarrow> pending_tools \<Rightarrow> string \<Rightarrow> string \<Rightarrow> string \<Rightarrow> string \<Rightarrow>
   (registry \<times> pending_tools \<times> (req_error, string \<times> nat) res) option" where
  "begin_host_tools_request pick i g p server op run_as tool =
     (case tools_open p i of
        (p1, a) \<Rightarrow>
          (case reg_send pick g server (SHostToolsRequest i op run_as tool) of
             (g1, Sent) \<Rightarrow> Some (g1, p1, Inr (i, a))
           | (g1, AgentOffline) \<Rightarrow> map_option (\<lambda>p2. (g1, p2, Inl EOffline)) (tools_close p1 i)
           | (g1, Blocked) \<Rightarrow> None))"

text \<open>The loop of \<open>SendHostToolsRequest\<close> discards events until another branch is taken: \<open>drained\<close>
  many of them.\<close>

definition drop_events :: "('r, 'e) boxes \<Rightarrow> nat \<Rightarrow> nat \<Rightarrow> ('r, 'e) boxes" where
  "drop_events p a n = upd_cell p a (\<lambda>s. s\<lparr>sub_events := drop n (sub_events s)\<rparr>)"

definition end_host_tools_request ::
  "pending_tools \<Rightarrow> string \<Rightarrow> nat \<Rightarrow> nat \<Rightarrow> wake \<Rightarrow> (pending_tools \<times> (req_error, tools_result) res) option" where
  "end_host_tools_request p i a drained w =
     (case await (drop_events p a drained) a w of
        None \<Rightarrow> None
      | Some (q, out) \<Rightarrow> map_option (\<lambda>q1. (q1, out)) (tools_close q i))"

section \<open>Network\<close>

definition network_timeout :: "string \<Rightarrow> nat" where
  "network_timeout op =
     (if op = ''bt_pair'' then 3 * 60
      else if op = ''wifi_scan'' \<or> op = ''bt_scan'' then 90 else 60)"

definition begin_network_request ::
  "bool \<Rightarrow> string \<Rightarrow> registry \<Rightarrow> pending_network \<Rightarrow> string \<Rightarrow> string \<Rightarrow> string \<Rightarrow>
   (registry \<times> pending_network \<times> (req_error, string \<times> nat) res) option" where
  "begin_network_request pick i g p server op args =
     (case network_open p i of
        (p1, a) \<Rightarrow>
          (case reg_send pick g server (SNetworkRequest i op args) of
             (g1, Sent) \<Rightarrow> Some (g1, p1, Inr (i, a))
           | (g1, AgentOffline) \<Rightarrow> map_option (\<lambda>p2. (g1, p2, Inl EOffline)) (network_close p1 i)
           | (g1, Blocked) \<Rightarrow> None))"

definition end_network_request ::
  "pending_network \<Rightarrow> string \<Rightarrow> nat \<Rightarrow> nat \<Rightarrow> wake \<Rightarrow> (pending_network \<times> (req_error, network_result) res) option" where
  "end_network_request p i a drained w =
     (case await (drop_events p a drained) a w of
        None \<Rightarrow> None
      | Some (q, out) \<Rightarrow> map_option (\<lambda>q1. (q1, out)) (network_close q i))"

text \<open>A PIN reply is a request of its own, with an id of its own; \<open>marshal\<close> is the JSON of the two
  fields.\<close>

definition begin_network_pin_reply ::
  "(string \<Rightarrow> string \<Rightarrow> (string, string) res) \<Rightarrow> bool \<Rightarrow> string \<Rightarrow> registry \<Rightarrow> pending_network \<Rightarrow> string \<Rightarrow> string \<Rightarrow> string \<Rightarrow>
   (registry \<times> pending_network \<times> (req_error, string \<times> nat) res) option" where
  "begin_network_pin_reply marshal pick i g p server for_id pin =
     (case marshal pin for_id of
        Inl e \<Rightarrow> Some (g, p, Inl (EMsg e))
      | Inr b \<Rightarrow> begin_network_request pick i g p server ''bt_pin_reply'' b)"

section \<open>Releasing the mailbox\<close>

context mailbox
begin

lemma take_result_ok:
  assumes ok: "box_ok rid cap p" and t: "take_result p a = Some (q, r)" and a: "a < length (bx_heap p)"
  shows "box_ok rid cap q \<and> rid r = sub_id (bx_heap p ! a) \<and> bx_subs q = bx_subs p"
proof -
  obtain rest where c: "sub_ch (bx_heap p ! a) = r # rest" "q = upd_cell p a (\<lambda>s. s\<lparr>sub_ch := rest\<rparr>)"
    using t by (auto simp: take_result_def split: list.splits)
  have "cell_ok rid cap (bx_heap p ! a)" by (rule cell_ok_nth[OF ok a])
  then have "cell_ok rid cap ((bx_heap p ! a)\<lparr>sub_ch := rest\<rparr>)" "rid r = sub_id (bx_heap p ! a)"
    using c(1) by (auto simp: cell_ok_def)
  then show ?thesis unfolding c(2) by (intro conjI box_ok_upd[OF ok]) (simp_all add: upd_cell_def)
qed

lemma await_ok:
  assumes "box_ok rid cap p" "await p a w = Some (q, out)" "a < length (bx_heap p)"
  shows "box_ok rid cap q \<and> bx_subs q = bx_subs p \<and> pred_sum (\<lambda>_. True) (\<lambda>r. rid r = sub_id (bx_heap p ! a)) out"
  using assms take_result_ok[OF assms(1) _ assms(3)] by (auto simp: await_def split: wake.splits)

text \<open>The end of a request: the mailbox is released whatever the branch, and a result that is
  returned answers the request.\<close>

lemma finish_ok:
  assumes ok: "box_ok rid cap p" and aw: "await p a w = Some (q, out)" and a: "a < length (bx_heap p)"
  shows "\<exists>q1. map_option (\<lambda>q1. (q1, out)) (cls q i) = Some (q1, out) \<and> box_ok rid cap q1 \<and> bx_subs q1 i = None \<and>
    pred_sum (\<lambda>_. True) (\<lambda>r. rid r = sub_id (bx_heap p ! a)) out"
  using await_ok[OF assms] cls_ok[of q i] by auto

text \<open>The begin of a request that fails: the mailboxes are as if it had never been opened.\<close>

lemma begin_error_released:
  assumes "box_ok rid cap p" "opn p i = (p1, a)"
  shows "\<exists>p2. cls p1 i = Some p2 \<and> box_ok rid cap p2 \<and> bx_subs p2 = (bx_subs p)(i := None)"
proof -
  have "box_ok rid cap p1" "bx_subs p1 = (bx_subs p)(i \<mapsto> a)"
    using opn_ok[OF assms(1), of i] opn_subs[of p i] assms(2) by auto
  with cls_ok[of p1 i] show ?thesis by auto
qed

end

lemma drop_events_ok:
  "box_ok rid cap p \<Longrightarrow> box_ok rid cap (drop_events p a n)"
proof -
  assume ok: "box_ok rid cap p"
  have "cell_ok rid cap (s\<lparr>sub_events := drop n (sub_events s)\<rparr>) = cell_ok rid cap s" for s :: "('a, 'b) sub"
    by (simp add: cell_ok_def)
  with ok show ?thesis
    unfolding drop_events_def by (intro box_ok_upd) (auto simp: cell_ok_nth)
qed

lemma drop_events_sub: "sub_id (bx_heap (drop_events p a n) ! b) = sub_id (bx_heap p ! b)"
  "length (bx_heap (drop_events p a n)) = length (bx_heap p)"
  by (cases "a < length (bx_heap p)"; cases "b = a"; simp add: drop_events_def upd_cell_def list_update_beyond)+

section \<open>Properties\<close>

text \<open>Whatever other calls run on the mailboxes while a connector command waits, when its select
  takes a branch the request ends without a panic, its entry is gone from the mailboxes, and a result
  it returns carries the request's id.\<close>

theorem connector_request_released:
  assumes "run_ops (mail_step pending_open pending_close (\<lambda>pick p r. pending_resolve pick p (Some r)) cr_request_id 1)
      xs new_boxes = Some p"
    and "begin_connector_command pick new_id g p server cmd = Some (g1, p1, Inr (i, a))"
    and "run_ops (mail_step pending_open pending_close (\<lambda>pick p r. pending_resolve pick p (Some r)) cr_request_id 1)
      ys p1 = Some p2"
    and "await p2 a w = Some (q, out)"
  shows "\<exists>p3. end_connector_command p2 i a w = Some (p3, out) \<and> bx_subs p3 i = None \<and>
    pred_sum (\<lambda>_. True) (\<lambda>r. cr_request_id r = i) out"
proof -
  have ok: "box_ok cr_request_id 1 p" using pending.safe.run_inv[OF box_ok_new assms(1)] .
  have o: "pending_open p i = (p1, a)"
    using assms(2) by (auto simp: begin_connector_command_def Let_def split: prod.splits send_outcome.splits)
  have ok1: "box_ok cr_request_id 1 p1" using pending.opn_ok[OF ok, of i] o by simp
  have ok2: "box_ok cr_request_id 1 p2" by (rule pending.safe.run_inv[OF ok1 assms(3)])
  have "a < length (bx_heap p1) \<and> sub_id (bx_heap p1 ! a) = i"
    using pending.opn_heap[of p i] pending.opn_addr[of p i] o by auto
  with pending.run_sub_id[OF assms(3), of a]
  have a: "a < length (bx_heap p2)" "sub_id (bx_heap p2 ! a) = i" by auto
  from pending.finish_ok[OF ok2 assms(4) a(1), of i] assms(4) a(2) show ?thesis
    by (auto simp: end_connector_command_def)
qed

definition demo_command :: connector_command where
  "demo_command = \<lparr>cc_request_id = ''r1'', cc_op = ''read'', cc_connector_kind = [], cc_connector_id = [], cc_ref = [],
     cc_action = [], cc_content = [], cc_base_checksum = [], cc_dry_run = False\<rparr>"

definition demo_registry :: registry where
  "demo_registry = fst (the (reg_add new_registry ''s''))"

theorem connector_request_released_witness:
  "\<exists>g1 p1 p2 p3. begin_connector_command False ''n'' demo_registry new_boxes ''s'' demo_command = Some (g1, p1, Inr (''r1'', 0)) \<and>
     run_ops (mail_step pending_open pending_close (\<lambda>pick p r. pending_resolve pick p (Some r)) cr_request_id 1)
       [MResolve True demo_connector_result] p1 = Some p2 \<and>
     end_connector_command p2 ''r1'' 0 GotResult = Some (p3, Inr demo_connector_result) \<and> bx_subs p3 ''r1'' = None"
proof -
  define p1 :: pending_requests where
    "p1 = \<lparr>bx_subs = [''r1'' \<mapsto> 0], bx_heap = [\<lparr>sub_id = ''r1'', sub_ch = [], sub_events = [], sub_done = False\<rparr>]\<rparr>"
  define p2 where "p2 = p1\<lparr>bx_heap := [\<lparr>sub_id = ''r1'', sub_ch = [demo_connector_result], sub_events = [], sub_done = False\<rparr>]\<rparr>"
  obtain g1 where
    b: "begin_connector_command False ''n'' demo_registry new_boxes ''s'' demo_command = Some (g1, p1, Inr (''r1'', 0))"
    by (simp add: begin_connector_command_def demo_command_def demo_registry_def reg_add_def new_registry_def
        pending_open_def box_open_def new_boxes_def reg_send_def conn_send_def out_cap_def p1_def Let_def)
  have r: "run_ops (mail_step pending_open pending_close (\<lambda>pick p r. pending_resolve pick p (Some r)) cr_request_id 1)
      [MResolve True demo_connector_result] p1 = Some p2"
    by (simp add: p1_def p2_def pending_resolve_def box_resolve_def demo_connector_result_def sub_resolve_def upd_cell_def)
  have w: "await p2 0 GotResult = Some (p1, Inr demo_connector_result)"
    by (simp add: p1_def p2_def await_def take_result_def upd_cell_def)
  from connector_request_released[OF _ b r w, of "[]"] b r show ?thesis by auto
qed

text \<open>A network request to a server without a stream fails with the offline error and leaves the
  mailboxes as they were, so nothing is left waiting.\<close>

theorem network_offline_leaves_nothing:
  assumes "run_ops (mail_step network_open network_close (\<lambda>pick p r. network_resolve pick p (Some r)) nr_request_id 1)
      xs new_boxes = Some p"
    and "rg_conns g server = None" and "bx_subs p i = None"
  shows "\<exists>p2. begin_network_request pick i g p server op args = Some (g, p2, Inl EOffline) \<and> bx_subs p2 = bx_subs p"
proof -
  have ok: "box_ok nr_request_id 1 p" using network.safe.run_inv[OF box_ok_new assms(1)] .
  obtain p1 a where o: "network_open p i = (p1, a)" by fastforce
  from network.begin_error_released[OF ok o] o assms(2,3) show ?thesis
    by (auto simp: begin_network_request_def reg_send_def fun_upd_idem)
qed

theorem network_offline_leaves_nothing_witness:
  "\<exists>p2. begin_network_request True ''i'' new_registry new_boxes ''s'' ''wifi_scan'' [] = Some (new_registry, p2, Inl EOffline) \<and>
     bx_subs p2 = bx_subs (new_boxes :: pending_network)"
  by (rule network_offline_leaves_nothing[of "[]"]) (simp_all add: new_registry_def new_boxes_def)

end
