(* ===== verification/UpdatePolicy.thy ===== *)
theory UpdatePolicy
  imports Messages
begin

text \<open>
  The update policy of the control plane, \<open>control-plane/internal/agentgw/update.go\<close>: when an
  agent is offered a release, and the comparison of version strings. Decoding the JSON map of
  checksums is the argument \<open>json_map\<close>.
\<close>

section \<open>Version strings\<close>

definition normalize_version :: "string \<Rightarrow> string" where
  "normalize_version v = trim_prefix (trim_space v) ''v''"

definition versions_equal :: "string \<Rightarrow> string \<Rightarrow> bool" where
  "versions_equal a b \<longleftrightarrow> normalize_version a = normalize_version b"

definition digit_val :: "char \<Rightarrow> int" where
  "digit_val c = of_char c - 48"

fun part_digits :: "int \<Rightarrow> string \<Rightarrow> int" where
  "part_digits n [] = n"
| "part_digits n (c # cs) = (if is_digit c then part_digits (to_int64 (n * 10 + digit_val c)) cs else n)"

definition parse_version_parts :: "string \<Rightarrow> int list" where
  "parse_version_parts v =
     (if v = '''' then []
      else map (part_digits 0) (str_split ''.'' (takeWhile (\<lambda>c. c \<noteq> CHR ''-'' \<and> c \<noteq> CHR ''+'') v)))"

text \<open>The loop of \<open>VersionNewer\<close>; a missing part counts as 0.\<close>

fun parts_newer :: "int list \<Rightarrow> int list \<Rightarrow> bool" where
  "parts_newer [] [] = False"
| "parts_newer (c # cs) [] = (if 0 > c then True else if 0 < c then False else parts_newer cs [])"
| "parts_newer [] (l # ls) = (if l > 0 then True else if l < 0 then False else parts_newer [] ls)"
| "parts_newer (c # cs) (l # ls) = (if l > c then True else if l < c then False else parts_newer cs ls)"

definition version_newer :: "string \<Rightarrow> string \<Rightarrow> bool" where
  "version_newer current latest =
     parts_newer (parse_version_parts (normalize_version current)) (parse_version_parts (normalize_version latest))"

lemma parts_newer_irrefl: "\<not> parts_newer xs xs"
  by (induction xs) auto

lemma parts_newer_asym: "parts_newer xs ys \<Longrightarrow> \<not> parts_newer ys xs"
  by (induction xs ys rule: parts_newer.induct) (auto split: if_splits)

lemma parts_newer_trans: "parts_newer xs ys \<Longrightarrow> parts_newer ys zs \<Longrightarrow> parts_newer xs zs"
proof (induction xs ys arbitrary: zs rule: parts_newer.induct)
  case (2 c cs)
  then show ?case by (cases zs) (auto split: if_splits)
next
  case (3 l ls)
  then show ?case using parts_newer_asym[of ls "[]"] by (cases zs) (auto split: if_splits)
next
  case (4 c cs l ls)
  then show ?case by (cases zs) (auto split: if_splits)
qed simp

section \<open>The policy\<close>

record update_policy =
  pol_version :: string
  pol_url_template :: string
  pol_repo :: string
  pol_checksums :: "string \<rightharpoonup> string"
  pol_restart :: bool

definition parse_update_policy ::
  "(string \<Rightarrow> (string \<rightharpoonup> string)) \<Rightarrow> string \<Rightarrow> string \<Rightarrow> string \<Rightarrow> bool \<Rightarrow> update_policy" where
  "parse_update_policy json_map version url_template checksums_json restart =
     (let s = trim_space checksums_json
      in \<lparr>pol_version = trim_space version, pol_url_template = trim_space url_template, pol_repo = '''',
          pol_checksums = (if s = '''' then Map.empty
                           else if has_prefix s ''{'' then json_map s else [''*'' \<mapsto> s]),
          pol_restart = restart\<rparr>)"

definition policy_active :: "update_policy \<Rightarrow> bool" where
  "policy_active p \<longleftrightarrow>
     (if trim_space (pol_version p) = '''' then False
      else if trim_space (pol_repo p) \<noteq> '''' then True
      else pol_url_template p \<noteq> '''' \<and> dom (pol_checksums p) \<noteq> {})"

definition policy_source :: "update_policy \<Rightarrow> bool" where
  "policy_source p \<longleftrightarrow>
     trim_space (pol_repo p) \<noteq> '''' \<and> (pol_url_template p = '''' \<or> dom (pol_checksums p) = {})"

definition checksum_for :: "update_policy \<Rightarrow> string \<Rightarrow> string \<Rightarrow> string" where
  "checksum_for p os arch =
     (case pol_checksums p (os @ ''/'' @ arch) of
        Some s \<Rightarrow> s
      | None \<Rightarrow> get0 '''' (pol_checksums p) ''*'')"

definition platform_target :: "string \<Rightarrow> string \<Rightarrow> string" where
  "platform_target os arch =
     (if os = ''linux'' \<and> (arch = ''amd64'' \<or> arch = ''386'') then ''linux-amd64''
      else if os = ''linux'' \<and> arch = ''arm64'' then ''linux-arm64''
      else if os = ''linux'' \<and> (arch = ''arm'' \<or> arch = ''armv7'') then ''linux-armv7''
      else if os = ''darwin'' \<and> arch = ''arm64'' then ''darwin-arm64''
      else if os = ''darwin'' \<and> arch = ''amd64'' then ''darwin-amd64''
      else os @ ''-'' @ arch)"

text \<open>\<open>strings.NewReplacer(...).Replace\<close>: at each position the first pair that matches replaces,
  and the search goes on behind it. No old string of the sources is empty.\<close>

function replacer :: "(string \<times> string) list \<Rightarrow> string \<Rightarrow> string" where
  "replacer ps [] = []"
| "replacer ps (c # cs) =
     (case List.find (\<lambda>p. fst p \<noteq> [] \<and> has_prefix (c # cs) (fst p)) ps of
        None \<Rightarrow> c # replacer ps cs
      | Some (old, new) \<Rightarrow> new @ replacer ps (drop (length old - 1) cs))"
  by pat_completeness auto
termination by (relation "measure (\<lambda>(ps, s). length s)") auto

definition url_for :: "update_policy \<Rightarrow> string \<Rightarrow> string \<Rightarrow> string" where
  "url_for p os arch =
     replacer [(''{version}'', pol_version p), (''{os}'', os), (''{arch}'', arch),
               (''{target}'', platform_target os arch), (''{repo}'', pol_repo p)]
       (pol_url_template p)"

definition update_for :: "update_policy \<Rightarrow> string \<Rightarrow> string \<Rightarrow> string \<Rightarrow> update_agent option" where
  "update_for p agent_version os arch =
     (if \<not> policy_active p \<or> versions_equal agent_version (pol_version p) then None
      else if policy_source p then
        Some \<lparr>ua_target_version = pol_version p,
              ua_download_url = ''https://github.com/'' @ trim_space (pol_repo p),
              ua_sha256 = '''', ua_restart = pol_restart p\<rparr>
      else let sum = checksum_for p os arch
           in if sum = '''' then None
              else Some \<lparr>ua_target_version = pol_version p, ua_download_url = url_for p os arch,
                         ua_sha256 = sum, ua_restart = pol_restart p\<rparr>)"

lemmas update_for_simps = update_for_def policy_active_def policy_source_def Let_def

section \<open>Properties\<close>

text \<open>\<open>VersionNewer\<close> is a strict order on version strings: no version is newer than itself or
  than one equal to it up to the leading v, and the order is transitive and asymmetric.\<close>

theorem version_newer_strict_order:
  "(versions_equal a b \<longrightarrow> \<not> version_newer a b) \<and>
   (version_newer a b \<longrightarrow> \<not> version_newer b a) \<and>
   (version_newer a b \<longrightarrow> version_newer b c \<longrightarrow> version_newer a c)"
  unfolding version_newer_def versions_equal_def
  using parts_newer_irrefl parts_newer_asym parts_newer_trans by metis

theorem version_newer_strict_order_witness:
  "version_newer ''v1.9'' ''1.10.0'' \<and> version_newer ''1.10'' ''1.10.2-rc1'' \<and>
   versions_equal ''v1.9'' '' 1.9'' \<and> \<not> version_newer ''v1.9'' '' 1.9'' \<and>
   \<not> version_newer ''1.10.0'' ''v1.9'' \<and> version_newer ''v1.9'' ''1.10.2-rc1''"
proof -
  have a: "version_newer ''v1.9'' ''1.10.0''" "version_newer ''1.10.0'' ''1.10.2-rc1''"
    "version_newer ''1.10'' ''1.10.2-rc1''" "versions_equal ''v1.9'' '' 1.9''"
    by code_simp+
  with version_newer_strict_order[of "''v1.9''" "''1.10.0''" "''1.10.2-rc1''"]
    version_newer_strict_order[of "''v1.9''" "'' 1.9''" "[]"]
  show ?thesis by blast
qed

text \<open>What is offered is safe and settles: an offer without a checksum is only ever the source
  update of the configured repository, so a binary is never offered without its digest, and an agent
  that reports the offered version is not offered anything any more.\<close>

theorem update_offer_safe:
  assumes "update_for p v os arch = Some u"
  shows "(ua_sha256 u = '''' \<longrightarrow> ua_download_url u = ''https://github.com/'' @ trim_space (pol_repo p)) \<and>
    ua_target_version u = pol_version p \<and> \<not> versions_equal v (ua_target_version u) \<and>
    update_for p (ua_target_version u) os arch = None"
  using assms by (auto simp: update_for_simps versions_equal_def split: if_splits)

definition demo_policy :: update_policy where
  "demo_policy = \<lparr>pol_version = ''1.2.0'', pol_url_template = ''https://dl/{version}/{target}'', pol_repo = ''w/c'',
     pol_checksums = [''*'' \<mapsto> ''abc''], pol_restart = True\<rparr>"

theorem update_offer_safe_witness:
  "update_for demo_policy ''v1.1.0'' ''linux'' ''arm'' =
     Some \<lparr>ua_target_version = ''1.2.0'', ua_download_url = ''https://dl/1.2.0/linux-armv7'',
           ua_sha256 = ''abc'', ua_restart = True\<rparr> \<and>
   update_for demo_policy ''1.2.0'' ''linux'' ''arm'' = None"
proof -
  have "versions_equal ''v1.1.0'' ''1.2.0'' = False" by code_simp
  moreover have "trim_space ''1.2.0'' = ''1.2.0''" "trim_space ''w/c'' = ''w/c''" by code_simp+
  moreover have "replacer [(''{version}'', ''1.2.0''), (''{os}'', ''linux''), (''{arch}'', ''arm''),
      (''{target}'', platform_target ''linux'' ''arm''), (''{repo}'', ''w/c'')] ''https://dl/{version}/{target}''
      = ''https://dl/1.2.0/linux-armv7''" by code_simp
  ultimately have u: "update_for demo_policy ''v1.1.0'' ''linux'' ''arm'' =
     Some \<lparr>ua_target_version = ''1.2.0'', ua_download_url = ''https://dl/1.2.0/linux-armv7'',
           ua_sha256 = ''abc'', ua_restart = True\<rparr>"
    by (simp add: update_for_simps demo_policy_def checksum_for_def url_for_def)
  have "pol_version demo_policy = ''1.2.0''" by (simp add: demo_policy_def)
  with u update_offer_safe[OF u] show ?thesis by simp
qed

end
