(* ===== verification/Trackers.thy ===== *)
theory Trackers
  imports Registry UpdatePolicy "HOL-Library.Sublist"
begin

text \<open>
  The gateway's in-memory trackers, in \<open>control-plane/internal/agentgw\<close>: the live-log broker
  (\<open>broker.go\<close>), the cap on stored log bytes (\<open>logcap.go\<close>), the record of delivered agent-root
  commands (\<open>root_repush.go\<close>) and the self-update stages (\<open>progress.go\<close>).
\<close>

section \<open>The log broker\<close>

datatype log_event = Chunk log_chunk | Finished run_finished

text \<open>A subscriber's channel holds 64 events; sending on a closed channel or closing one twice
  panics (None). The set of channels of a run is a list without repetition: the order of a fan-out
  does not matter, since every channel receives independently.\<close>

record chan =
  ch_buf :: "log_event list"
  ch_closed :: bool

record broker =
  br_subs :: "string \<rightharpoonup> nat list"
  br_chans :: "chan list"
  br_gauge :: int

definition new_log_broker :: broker where
  "new_log_broker = \<lparr>br_subs = Map.empty, br_chans = [], br_gauge = 0\<rparr>"

definition subs_of :: "broker \<Rightarrow> string \<Rightarrow> nat list" where
  "subs_of b i = get0 [] (br_subs b) i"

definition broker_subscribe :: "broker \<Rightarrow> string \<Rightarrow> broker \<times> nat" where
  "broker_subscribe b i =
     (let a = length (br_chans b)
      in (b\<lparr>br_chans := br_chans b @ [\<lparr>ch_buf = [], ch_closed = False\<rparr>],
            br_subs := (br_subs b)(i \<mapsto> a # subs_of b i),
            br_gauge := br_gauge b + 1\<rparr>, a))"

definition close_chan :: "broker \<Rightarrow> nat \<Rightarrow> broker option" where
  "close_chan b a =
     (if ch_closed (br_chans b ! a) then None
      else Some (b\<lparr>br_chans := (br_chans b)[a := (br_chans b ! a)\<lparr>ch_closed := True\<rparr>]\<rparr>))"

definition broker_unsubscribe :: "broker \<Rightarrow> string \<Rightarrow> nat \<Rightarrow> broker option" where
  "broker_unsubscribe b i a =
     (case br_subs b i of
        None \<Rightarrow> Some b
      | Some cs \<Rightarrow>
          let cs' = removeAll a cs;
              subs' = (if cs' = [] then (br_subs b)(i := None) else (br_subs b)(i \<mapsto> cs'))
          in if a \<in> set cs
             then (case close_chan b a of
                     None \<Rightarrow> None
                   | Some b1 \<Rightarrow> Some (b1\<lparr>br_subs := subs', br_gauge := br_gauge b1 - 1\<rparr>))
             else Some (b\<lparr>br_subs := subs'\<rparr>))"

definition chan_cap :: nat where
  "chan_cap = 64"

definition try_send :: "log_event \<Rightarrow> chan \<Rightarrow> chan" where
  "try_send ev c = (if length (ch_buf c) < chan_cap then c\<lparr>ch_buf := ch_buf c @ [ev]\<rparr> else c)"

fun send_each :: "log_event \<Rightarrow> nat list \<Rightarrow> chan list \<Rightarrow> chan list option" where
  "send_each ev [] h = Some h"
| "send_each ev (a # cs) h =
     (if ch_closed (h ! a) then None else send_each ev cs (h[a := try_send ev (h ! a)]))"

definition fanout :: "broker \<Rightarrow> string \<Rightarrow> log_event \<Rightarrow> broker option" where
  "fanout b i ev =
     map_option (\<lambda>h. b\<lparr>br_chans := h\<rparr>) (send_each ev (subs_of b i) (br_chans b))"

definition publish :: "broker \<Rightarrow> string \<Rightarrow> log_chunk \<Rightarrow> broker option" where
  "publish b i c = fanout b i (Chunk c)"

definition publish_finished :: "broker \<Rightarrow> string \<Rightarrow> run_finished \<Rightarrow> broker option" where
  "publish_finished b i r = fanout b i (Finished r)"

text \<open>\<open>BTake\<close> is the SSE handler receiving one event from its channel.\<close>

datatype broker_op =
    BSubscribe string | BUnsubscribe string nat | BPublish string log_chunk
  | BFinished string run_finished | BTake nat

definition chan_take :: "broker \<Rightarrow> nat \<Rightarrow> broker" where
  "chan_take b a = b\<lparr>br_chans := (br_chans b)[a := (br_chans b ! a)\<lparr>ch_buf := tl (ch_buf (br_chans b ! a))\<rparr>]\<rparr>"

fun broker_step :: "broker \<Rightarrow> broker_op \<Rightarrow> broker option" where
  "broker_step b (BSubscribe i) = Some (fst (broker_subscribe b i))"
| "broker_step b (BUnsubscribe i a) = broker_unsubscribe b i a"
| "broker_step b (BPublish i c) = publish b i c"
| "broker_step b (BFinished i r) = publish_finished b i r"
| "broker_step b (BTake a) = Some (chan_take b a)"

text \<open>
  The invariant: the open channels are exactly the subscribed ones, each under one run and once, and
  the gauge counts them.
\<close>

definition open_chans :: "chan list \<Rightarrow> nat" where
  "open_chans h = length (filter (\<lambda>c. \<not> ch_closed c) h)"

definition broker_ok :: "broker \<Rightarrow> bool" where
  "broker_ok b \<longleftrightarrow>
     (\<forall>i. distinct (subs_of b i)) \<and>
     (\<forall>i a. a \<in> set (subs_of b i) \<longrightarrow> a < length (br_chans b) \<and> \<not> ch_closed (br_chans b ! a)) \<and>
     (\<forall>a < length (br_chans b). \<not> ch_closed (br_chans b ! a) \<longrightarrow> (\<exists>i. a \<in> set (subs_of b i))) \<and>
     (\<forall>i j a. a \<in> set (subs_of b i) \<longrightarrow> a \<in> set (subs_of b j) \<longrightarrow> i = j) \<and>
     br_gauge b = int (open_chans (br_chans b))"

lemma broker_okD:
  assumes "broker_ok b"
  shows "distinct (subs_of b i)"
    and "a \<in> set (subs_of b i) \<Longrightarrow> a < length (br_chans b)"
    and "a \<in> set (subs_of b i) \<Longrightarrow> \<not> ch_closed (br_chans b ! a)"
    and "a < length (br_chans b) \<Longrightarrow> \<not> ch_closed (br_chans b ! a) \<Longrightarrow> \<exists>i. a \<in> set (subs_of b i)"
    and "a \<in> set (subs_of b i) \<Longrightarrow> a \<in> set (subs_of b j) \<Longrightarrow> i = j"
    and "br_gauge b = int (open_chans (br_chans b))"
  using assms unfolding broker_ok_def by blast+

lemma broker_okI:
  assumes "\<And>i. distinct (subs_of b i)"
    and "\<And>i a. a \<in> set (subs_of b i) \<Longrightarrow> a < length (br_chans b) \<and> \<not> ch_closed (br_chans b ! a)"
    and "\<And>a. a < length (br_chans b) \<Longrightarrow> \<not> ch_closed (br_chans b ! a) \<Longrightarrow> \<exists>i. a \<in> set (subs_of b i)"
    and "\<And>i j a. a \<in> set (subs_of b i) \<Longrightarrow> a \<in> set (subs_of b j) \<Longrightarrow> i = j"
    and "br_gauge b = int (open_chans (br_chans b))"
  shows "broker_ok b"
  using assms unfolding broker_ok_def by blast

lemma broker_ok_new [inv_intro]: "broker_ok new_log_broker"
  by (simp add: broker_ok_def new_log_broker_def subs_of_def open_chans_def)

lemma open_chans_close:
  "a < length h \<Longrightarrow> \<not> ch_closed (h ! a) \<Longrightarrow> ch_closed c \<Longrightarrow> open_chans h = Suc (open_chans (h[a := c]))"
  unfolding open_chans_def
  by (induction h arbitrary: a) (auto split: nat.splits)

lemma open_chans_map:
  assumes "length g = length h" "\<And>a. a < length h \<Longrightarrow> ch_closed (g ! a) = ch_closed (h ! a)"
  shows "open_chans g = open_chans h"
proof -
  have "map ch_closed g = map ch_closed h"
    using assms by (intro nth_equalityI) auto
  then have "length (filter Not (map ch_closed g)) = length (filter Not (map ch_closed h))" by simp
  then show ?thesis by (simp add: open_chans_def filter_map o_def)
qed

text \<open>An operation that keeps the subscriptions and which channels are closed keeps the invariant.\<close>

lemma broker_ok_bufs:
  assumes ok: "broker_ok b" and len: "length h = length (br_chans b)"
    and cl: "\<And>a. a < length h \<Longrightarrow> ch_closed (h ! a) = ch_closed (br_chans b ! a)"
  shows "broker_ok (b\<lparr>br_chans := h\<rparr>)"
proof -
  have s: "subs_of (b\<lparr>br_chans := h\<rparr>) i = subs_of b i" for i by (simp add: subs_of_def)
  have "open_chans h = open_chans (br_chans b)" using len cl by (intro open_chans_map) auto
  with broker_okD[OF ok] show ?thesis
    by (intro broker_okI) (auto simp: s len cl)
qed

lemma try_send_closed [simp]: "ch_closed (try_send ev c) = ch_closed c"
  by (simp add: try_send_def)

lemma send_each_eq:
  assumes "distinct cs" "\<And>a. a \<in> set cs \<Longrightarrow> a < length h \<and> \<not> ch_closed (h ! a)"
  shows "\<exists>g. send_each ev cs h = Some g \<and> length g = length h \<and>
    (\<forall>a < length h. g ! a = (if a \<in> set cs then try_send ev (h ! a) else h ! a))"
  using assms
proof (induction cs arbitrary: h)
  case (Cons c cs)
  let ?h = "h[c := try_send ev (h ! c)]"
  have "\<And>a. a \<in> set cs \<Longrightarrow> a < length ?h \<and> \<not> ch_closed (?h ! a)"
    using Cons.prems by (auto simp: nth_list_update)
  from Cons.IH[OF _ this] Cons.prems(1) obtain g where g: "send_each ev cs ?h = Some g"
    "length g = length ?h" "\<forall>a < length ?h. g ! a = (if a \<in> set cs then try_send ev (?h ! a) else ?h ! a)"
    by auto
  with Cons.prems show ?case by (auto simp: nth_list_update)
qed simp

lemma fanout_eq:
  assumes "broker_ok b"
  shows "\<exists>h. fanout b i ev = Some (b\<lparr>br_chans := h\<rparr>) \<and> length h = length (br_chans b) \<and>
    (\<forall>a < length h. h ! a = (if a \<in> set (subs_of b i) then try_send ev (br_chans b ! a) else br_chans b ! a))"
  using send_each_eq[of "subs_of b i" "br_chans b" ev] broker_okD(1-3)[OF assms]
  by (auto simp: fanout_def)

lemma fanout_ok:
  assumes "broker_ok b"
  shows "\<exists>q. fanout b i ev = Some q \<and> broker_ok q"
proof -
  obtain h where h: "fanout b i ev = Some (b\<lparr>br_chans := h\<rparr>)" "length h = length (br_chans b)"
    "\<forall>a < length h. h ! a = (if a \<in> set (subs_of b i) then try_send ev (br_chans b ! a) else br_chans b ! a)"
    using fanout_eq[OF assms] by blast
  then show ?thesis using broker_ok_bufs[OF assms h(2)] by auto
qed

lemma subscribe_ok:
  assumes ok: "broker_ok b"
  shows "broker_ok (fst (broker_subscribe b i))"
proof -
  let ?b = "fst (broker_subscribe b i)" and ?a = "length (br_chans b)"
  have s: "subs_of ?b j = (if j = i then ?a # subs_of b i else subs_of b j)" for j
    by (simp add: subs_of_def broker_subscribe_def Let_def get0_def)
  have c: "br_chans ?b = br_chans b @ [\<lparr>ch_buf = [], ch_closed = False\<rparr>]" "br_gauge ?b = br_gauge b + 1"
    by (simp_all add: broker_subscribe_def Let_def)
  note d = broker_okD[OF ok]
  have fresh: "?a \<notin> set (subs_of b j)" for j using d(2)[of ?a j] by auto
  show ?thesis
  proof (rule broker_okI)
    show "distinct (subs_of ?b j)" for j using d(1) fresh by (simp add: s)
    show "a < length (br_chans ?b) \<and> \<not> ch_closed (br_chans ?b ! a)" if "a \<in> set (subs_of ?b j)" for j a
      using that d(2,3) by (auto simp: s c nth_append less_Suc_eq split: if_splits)
    show "\<exists>j. a \<in> set (subs_of ?b j)" if a: "a < length (br_chans ?b)" "\<not> ch_closed (br_chans ?b ! a)" for a
    proof (cases "a = ?a")
      case True
      then show ?thesis by (intro exI[of _ i]) (simp add: s)
    next
      case False
      with a d(4)[of a] obtain j where "a \<in> set (subs_of b j)" by (auto simp: c nth_append)
      then show ?thesis by (intro exI[of _ j]) (auto simp: s)
    qed
    show "j = k" if "a \<in> set (subs_of ?b j)" "a \<in> set (subs_of ?b k)" for j k a
      using that d(5)[of a j k] fresh by (auto simp: s split: if_splits)
    show "br_gauge ?b = int (open_chans (br_chans ?b))" using d(6) by (simp add: c open_chans_def)
  qed
qed

lemma unsubscribe_ok:
  assumes ok: "broker_ok b"
  shows "\<exists>q. broker_unsubscribe b i a = Some q \<and> broker_ok q"
proof (cases "br_subs b i")
  case None
  with ok show ?thesis by (simp add: broker_unsubscribe_def)
next
  case (Some cs)
  have cs: "subs_of b i = cs" using Some by (simp add: subs_of_def get0_def)
  define subs' where "subs' = (if removeAll a cs = [] then (br_subs b)(i := None) else (br_subs b)(i \<mapsto> removeAll a cs))"
  have s: "get0 [] subs' j = (if j = i then removeAll a cs else subs_of b j)" for j
    by (simp add: subs'_def subs_of_def get0_def)
  note d = broker_okD[OF ok]
  show ?thesis
  proof (cases "a \<in> set cs")
    case True
    then have a: "a < length (br_chans b)" "\<not> ch_closed (br_chans b ! a)" using d(2,3)[of a i] cs by auto
    define q where "q = b\<lparr>br_chans := (br_chans b)[a := (br_chans b ! a)\<lparr>ch_closed := True\<rparr>],
      br_subs := subs', br_gauge := br_gauge b - 1\<rparr>"
    have eq: "broker_unsubscribe b i a = Some q"
      using Some True a by (simp add: broker_unsubscribe_def close_chan_def q_def subs'_def)
    have sq: "subs_of q j = (if j = i then removeAll a cs else subs_of b j)" for j
      by (simp add: q_def subs_of_def[of "_\<lparr>br_gauge := _\<rparr>"] s)
    have ch: "br_chans q = (br_chans b)[a := (br_chans b ! a)\<lparr>ch_closed := True\<rparr>]"
      "br_gauge q = br_gauge b - 1" by (simp_all add: q_def)
    have only: "a \<in> set (subs_of b j) \<Longrightarrow> j = i" for j using d(5)[of a j i] True cs by simp
    have "broker_ok q"
    proof (rule broker_okI)
      show "distinct (subs_of q j)" for j using d(1)[of j] d(1)[of i] cs by (simp add: sq distinct_removeAll)
      show "c < length (br_chans q) \<and> \<not> ch_closed (br_chans q ! c)" if "c \<in> set (subs_of q j)" for j c
        using that d(2)[of c j] d(3)[of c j] only[of j] cs a by (cases "c = a") (auto simp: sq ch split: if_splits)
      show "\<exists>j. c \<in> set (subs_of q j)" if c: "c < length (br_chans q)" "\<not> ch_closed (br_chans q ! c)" for c
      proof -
        have "c \<noteq> a" using c a by (auto simp: ch)
        with c d(4)[of c] obtain j where "c \<in> set (subs_of b j)" by (auto simp: ch)
        with \<open>c \<noteq> a\<close> cs show ?thesis by (intro exI[of _ j]) (auto simp: sq)
      qed
      show "j = k" if "c \<in> set (subs_of q j)" "c \<in> set (subs_of q k)" for j k c
        using that d(5)[of c j k] cs by (auto simp: sq split: if_splits)
      show "br_gauge q = int (open_chans (br_chans q))"
        using d(6) open_chans_close[OF a, of "(br_chans b ! a)\<lparr>ch_closed := True\<rparr>"] by (simp add: ch)
    qed
    with eq show ?thesis by simp
  next
    case False
    define q where "q = b\<lparr>br_subs := subs'\<rparr>"
    have eq: "broker_unsubscribe b i a = Some q"
      using Some False by (simp add: broker_unsubscribe_def q_def subs'_def)
    have "subs_of q j = subs_of b j" for j
      using False cs s[of j] by (auto simp: q_def subs_of_def[of "_\<lparr>br_subs := _\<rparr>"])
    then have "broker_ok q = broker_ok b" by (simp add: broker_ok_def q_def)
    with eq ok show ?thesis by simp
  qed
qed

lemma take_ok: "broker_ok b \<Longrightarrow> broker_ok (chan_take b a)"
proof -
  have "ch_closed ((br_chans b)[a := (br_chans b ! a)\<lparr>ch_buf := tl (ch_buf (br_chans b ! a))\<rparr>] ! c) =
      ch_closed (br_chans b ! c)" if "c < length (br_chans b)" for c
    using that by (cases "c = a") auto
  then show "broker_ok b \<Longrightarrow> broker_ok (chan_take b a)"
    unfolding chan_take_def by (intro broker_ok_bufs) auto
qed

interpretation broker: safe_machine broker_step broker_ok
proof
  show "\<exists>t. broker_step b x = Some t \<and> broker_ok t" if ok: "broker_ok b" for b x
    using subscribe_ok[OF ok] unsubscribe_ok[OF ok] fanout_ok[OF ok] take_ok[OF ok]
    by (cases x) (auto simp: publish_def publish_finished_def)
qed


subsection \<open>What a subscriber sees\<close>

text \<open>The events a subscriber takes off its channel along a sequence of calls, and the events
  published for a run.\<close>

definition taken_by :: "broker \<Rightarrow> nat \<Rightarrow> broker_op \<Rightarrow> log_event list" where
  "taken_by b a x = (if x = BTake a then take 1 (ch_buf (br_chans b ! a)) else [])"

fun taken :: "broker \<Rightarrow> nat \<Rightarrow> broker_op list \<Rightarrow> log_event list" where
  "taken b a [] = []"
| "taken b a (x # xs) =
     taken_by b a x @ (case broker_step b x of None \<Rightarrow> [] | Some q \<Rightarrow> taken q a xs)"

fun event_for :: "string \<Rightarrow> broker_op \<Rightarrow> log_event list" where
  "event_for i (BPublish j c) = (if j = i then [Chunk c] else [])"
| "event_for i (BFinished j r) = (if j = i then [Finished r] else [])"
| "event_for i _ = []"

definition events_for :: "string \<Rightarrow> broker_op list \<Rightarrow> log_event list" where
  "events_for i xs = concat (map (event_for i) xs)"

definition buf_of :: "broker \<Rightarrow> nat \<Rightarrow> log_event list" where
  "buf_of b a = ch_buf (br_chans b ! a)"

text \<open>How each call moves one channel: what was taken and what is buffered.\<close>

lemma fanout_buf:
  assumes "broker_ok b" "fanout b i ev = Some q" "a < length (br_chans b)"
  shows "length (br_chans q) = length (br_chans b) \<and> subs_of q = subs_of b \<and>
    buf_of q a = (if a \<in> set (subs_of b i) \<and> length (buf_of b a) < chan_cap then buf_of b a @ [ev] else buf_of b a)"
proof -
  obtain h where h: "fanout b i ev = Some (b\<lparr>br_chans := h\<rparr>)" "length h = length (br_chans b)"
    "\<forall>a < length h. h ! a = (if a \<in> set (subs_of b i) then try_send ev (br_chans b ! a) else br_chans b ! a)"
    using fanout_eq[OF assms(1)] by blast
  have "h ! a = (if a \<in> set (subs_of b i) then try_send ev (br_chans b ! a) else br_chans b ! a)"
    using h(2,3) assms(3) by simp
  with h assms(2) show ?thesis
    by (auto simp: buf_of_def try_send_def subs_of_def)
qed

lemma unsubscribe_buf:
  assumes "broker_unsubscribe b i c = Some q"
  shows "length (br_chans q) = length (br_chans b) \<and> buf_of q a = buf_of b a \<and>
    subs_of q = (\<lambda>j. if j = i then removeAll c (subs_of b i) else subs_of b j)"
proof (cases "br_subs b i")
  case None
  with assms show ?thesis
    by (auto simp: broker_unsubscribe_def subs_of_def get0_def fun_eq_iff)
next
  case (Some cs)
  have "buf_of (b\<lparr>br_chans := (br_chans b)[c := (br_chans b ! c)\<lparr>ch_closed := True\<rparr>], br_subs := m, br_gauge := g\<rparr>) a
      = buf_of b a" for m g
    by (cases "c < length (br_chans b)"; cases "a = c") (auto simp: buf_of_def list_update_beyond)
  with assms Some show ?thesis
    by (auto simp: broker_unsubscribe_def close_chan_def Let_def subs_of_def get0_def fun_eq_iff buf_of_def
        split: if_splits)
qed

lemma subscribe_buf:
  "a < length (br_chans b) \<Longrightarrow> length (br_chans (fst (broker_subscribe b i))) = Suc (length (br_chans b)) \<and>
   buf_of (fst (broker_subscribe b i)) a = buf_of b a \<and>
   subs_of (fst (broker_subscribe b i)) = (\<lambda>j. if j = i then length (br_chans b) # subs_of b i else subs_of b j)"
  by (auto simp: broker_subscribe_def Let_def buf_of_def nth_append subs_of_def get0_def fun_eq_iff)

lemma take_buf:
  "length (br_chans (chan_take b c)) = length (br_chans b) \<and> subs_of (chan_take b c) = subs_of b \<and>
   (a < length (br_chans b) \<longrightarrow> buf_of (chan_take b c) a = (if c = a then tl (buf_of b a) else buf_of b a))"
  by (auto simp: chan_take_def buf_of_def subs_of_def)

text \<open>One call, seen from a channel \<open>a\<close> that belongs to run \<open>i\<close> at most.\<close>

definition chan_of :: "broker \<Rightarrow> string \<Rightarrow> nat \<Rightarrow> bool" where
  "chan_of b i a \<longleftrightarrow> a < length (br_chans b) \<and> (\<forall>j. a \<in> set (subs_of b j) \<longrightarrow> j = i)"

lemma taken_by_eq: "taken_by b a x = (if x = BTake a then take 1 (buf_of b a) else [])"
  by (simp add: taken_by_def buf_of_def)

lemma step_chan:
  assumes ok: "broker_ok b" and c: "chan_of b i a" and s: "broker_step b x = Some q"
  shows "chan_of q i a" "subseq (taken_by b a x @ buf_of q a) (buf_of b a @ event_for i x)"
    and "a \<in> set (subs_of b i) \<Longrightarrow> x \<noteq> BUnsubscribe i a \<Longrightarrow>
      length (buf_of b a) + length (event_for i x) \<le> chan_cap \<Longrightarrow>
      a \<in> set (subs_of q i) \<and> taken_by b a x @ buf_of q a = buf_of b a @ event_for i x"
proof -
  have a: "a < length (br_chans b)" using c by (simp add: chan_of_def)
  have own: "\<And>j. a \<in> set (subs_of b j) \<Longrightarrow> j = i" using c by (simp add: chan_of_def)
  let ?tgt = "chan_of q i a \<and> subseq (taken_by b a x @ buf_of q a) (buf_of b a @ event_for i x) \<and>
    (a \<in> set (subs_of b i) \<longrightarrow> x \<noteq> BUnsubscribe i a \<longrightarrow>
      length (buf_of b a) + length (event_for i x) \<le> chan_cap \<longrightarrow>
      a \<in> set (subs_of q i) \<and> taken_by b a x @ buf_of q a = buf_of b a @ event_for i x)"
  have fan: ?tgt if x: "event_for i x = (if j = i then [ev] else [])" "taken_by b a x = []" and
    f: "fanout b j ev = Some q" for j ev
  proof -
    note d = fanout_buf[OF ok f a]
    have "chan_of q i a" using c d by (simp add: chan_of_def)
    moreover have "buf_of q a = (if j = i \<and> a \<in> set (subs_of b i) \<and> length (buf_of b a) < chan_cap
        then buf_of b a @ [ev] else buf_of b a)"
      using d own[of j] by (cases "j = i") auto
    ultimately show ?tgt unfolding x using d by auto
  qed
  have ?tgt
  proof (cases x)
    case (BSubscribe j)
    then have "q = fst (broker_subscribe b j)" using s by simp
    with BSubscribe subscribe_buf[OF a, of j] a show ?thesis
      by (auto simp: chan_of_def taken_by_eq dest: own split: if_splits)
  next
    case (BUnsubscribe j d)
    with s have d: "length (br_chans q) = length (br_chans b)" "buf_of q a = buf_of b a"
      "subs_of q = (\<lambda>k. if k = j then removeAll d (subs_of b j) else subs_of b k)"
      using unsubscribe_buf[of b j d q a] by auto
    with BUnsubscribe a show ?thesis
      by (auto simp: chan_of_def taken_by_eq dest: own split: if_splits)
  next
    case (BPublish j k)
    with s show ?thesis by (intro fan[of j "Chunk k"]) (simp_all add: publish_def taken_by_eq)
  next
    case (BFinished j k)
    with s show ?thesis by (intro fan[of j "Finished k"]) (simp_all add: publish_finished_def taken_by_eq)
  next
    case (BTake d)
    then have q: "q = chan_take b d" using s by simp
    note d = take_buf[of b d a, folded q]
    have "chan_of q i a" using c d by (simp add: chan_of_def)
    with BTake a d show ?thesis
      by (cases "buf_of b a"; cases "d = a") (simp_all add: taken_by_eq)
  qed
  then show "chan_of q i a" "subseq (taken_by b a x @ buf_of q a) (buf_of b a @ event_for i x)"
    and "a \<in> set (subs_of b i) \<Longrightarrow> x \<noteq> BUnsubscribe i a \<Longrightarrow>
      length (buf_of b a) + length (event_for i x) \<le> chan_cap \<Longrightarrow>
      a \<in> set (subs_of q i) \<and> taken_by b a x @ buf_of q a = buf_of b a @ event_for i x"
    by blast+
qed

lemma run_chan:
  assumes "broker_ok b" "chan_of b i a" "run_ops broker_step xs b = Some q"
  shows "subseq (taken b a xs @ buf_of q a) (buf_of b a @ events_for i xs)"
  using assms
proof (induction xs arbitrary: b)
  case (Cons x xs)
  obtain t where t: "broker_step b x = Some t" "broker_ok t" using broker.step_safe[OF Cons.prems(1)] by blast
  have "subseq (taken t a xs @ buf_of q a) (buf_of t a @ events_for i xs)"
    using Cons.IH[OF t(2) step_chan(1)[OF Cons.prems(1,2) t(1)]] Cons.prems(3) t(1) by simp
  then have "subseq (taken_by b a x @ taken t a xs @ buf_of q a) ((taken_by b a x @ buf_of t a) @ events_for i xs)"
    unfolding append_assoc subseq_append' .
  also have "subseq \<dots> ((buf_of b a @ event_for i x) @ events_for i xs)"
    using step_chan(2)[OF Cons.prems(1,2) t(1)] by (rule list_emb_append_mono) simp
  finally show ?case using t(1) by (simp add: events_for_def)
qed (simp add: events_for_def)

lemma run_chan_full:
  assumes "broker_ok b" "chan_of b i a" "run_ops broker_step xs b = Some q" "a \<in> set (subs_of b i)"
    "BUnsubscribe i a \<notin> set xs" "length (buf_of b a) + length (events_for i xs) \<le> chan_cap"
  shows "taken b a xs @ buf_of q a = buf_of b a @ events_for i xs"
  using assms
proof (induction xs arbitrary: b)
  case (Cons x xs)
  obtain t where t: "broker_step b x = Some t" "broker_ok t" using broker.step_safe[OF Cons.prems(1)] by blast
  have st: "a \<in> set (subs_of t i) \<and> taken_by b a x @ buf_of t a = buf_of b a @ event_for i x"
    by (rule step_chan(3)[OF Cons.prems(1,2) t(1) Cons.prems(4)]) (use Cons.prems(5,6) in \<open>auto simp: events_for_def\<close>)
  have "length (taken_by b a x @ buf_of t a) = length (buf_of b a @ event_for i x)" using st by simp
  then have "length (buf_of t a) + length (events_for i xs) \<le> chan_cap"
    using Cons.prems(6) by (simp add: events_for_def)
  then have "taken t a xs @ buf_of q a = buf_of t a @ events_for i xs"
    using Cons.IH[OF t(2) step_chan(1)[OF Cons.prems(1,2) t(1)]] Cons.prems(3,5) t(1) st by simp
  with st t(1) show ?case by (simp add: events_for_def)
qed (simp add: events_for_def)

section \<open>The cap on stored log bytes\<close>

record log_cap =
  lcap_max :: int
  lcap_used :: "string \<rightharpoonup> int"
  lcap_told :: "string \<rightharpoonup> bool"

definition default_run_log_max_bytes :: int where
  "default_run_log_max_bytes = push_bit 20 5"

definition new_log_cap :: "int \<Rightarrow> log_cap" where
  "new_log_cap mx = \<lparr>lcap_max = (if mx \<le> 0 then default_run_log_max_bytes else mx),
     lcap_used = Map.empty, lcap_told = Map.empty\<rparr>"

text \<open>The result is the pair (store, notice).\<close>

definition log_cap_admit :: "log_cap \<Rightarrow> string \<Rightarrow> int \<Rightarrow> log_cap \<times> bool \<times> bool" where
  "log_cap_admit c i n =
     (if get0 0 (lcap_used c) i \<ge> lcap_max c
      then (if \<not> get0 False (lcap_told c) i
            then (c\<lparr>lcap_told := (lcap_told c)(i \<mapsto> True)\<rparr>, False, True)
            else (c, False, False))
      else (c\<lparr>lcap_used := (lcap_used c)(i \<mapsto> get0 0 (lcap_used c) i + n)\<rparr>, True, False))"

definition log_cap_done :: "log_cap \<Rightarrow> string \<Rightarrow> log_cap" where
  "log_cap_done c i = c\<lparr>lcap_used := (lcap_used c)(i := None), lcap_told := (lcap_told c)(i := None)\<rparr>"

datatype cap_op = CAdmit string int | CDone string

fun cap_key :: "cap_op \<Rightarrow> string" where
  "cap_key (CAdmit i n) = i"
| "cap_key (CDone i) = i"

fun cap_step :: "log_cap \<Rightarrow> cap_op \<Rightarrow> log_cap" where
  "cap_step c (CAdmit i n) = fst (log_cap_admit c i n)"
| "cap_step c (CDone i) = log_cap_done c i"

text \<open>What a run's decisions depend on.\<close>

definition cap_entry :: "log_cap \<Rightarrow> string \<Rightarrow> int \<times> int \<times> bool" where
  "cap_entry c i = (lcap_max c, get0 0 (lcap_used c) i, get0 False (lcap_told c) i)"

interpretation caps: keyed_state cap_step cap_key cap_entry
proof
  show "cap_entry (cap_step c x) i = cap_entry c i" if "cap_key x \<noteq> i" for c x i
    using that by (cases x) (auto simp: cap_entry_def log_cap_admit_def log_cap_done_def)
  show "cap_entry (cap_step c x) (cap_key x) = cap_entry (cap_step d x) (cap_key x)"
    if "cap_entry c (cap_key x) = cap_entry d (cap_key x)" for c d x
    using that by (cases x) (auto simp: cap_entry_def log_cap_admit_def log_cap_done_def)
qed

text \<open>The decisions for the chunks of one run, in a run of the machine with chunks of other runs in
  between, and their reference: from the bytes already stored and the flag.\<close>

fun cap_out :: "log_cap \<Rightarrow> string \<Rightarrow> cap_op list \<Rightarrow> (bool \<times> bool) list" where
  "cap_out c i [] = []"
| "cap_out c i (x # xs) =
     (case x of CAdmit j n \<Rightarrow> if j = i then [snd (log_cap_admit c j n)] else [] | CDone _ \<Rightarrow> [])
     @ cap_out (cap_step c x) i xs"

fun cap_ref :: "int \<Rightarrow> int \<Rightarrow> bool \<Rightarrow> int list \<Rightarrow> (bool \<times> bool) list" where
  "cap_ref mx used told [] = []"
| "cap_ref mx used told (n # ns) =
     (if used < mx then (True, False) # cap_ref mx (used + n) told ns
      else (False, \<not> told) # cap_ref mx used True ns)"

fun sizes_of :: "string \<Rightarrow> cap_op list \<Rightarrow> int list" where
  "sizes_of i [] = []"
| "sizes_of i (CAdmit j n # xs) = (if j = i then n # sizes_of i xs else sizes_of i xs)"
| "sizes_of i (CDone j # xs) = sizes_of i xs"

lemma cap_out_ref:
  "CDone i \<notin> set xs \<Longrightarrow> cap_entry c i = (mx, used, told) \<Longrightarrow> cap_out c i xs = cap_ref mx used told (sizes_of i xs)"
proof (induction xs arbitrary: c used told)
  case (Cons x xs)
  show ?case
  proof (cases "cap_key x = i")
    case False
    then have "cap_entry (cap_step c x) i = (mx, used, told)" using Cons.prems(2) caps.entry_other by simp
    from Cons.IH[OF _ this] Cons.prems(1) False show ?thesis by (cases x) auto
  next
    case True
    then obtain n where x: "x = CAdmit i n" using Cons.prems(1) by (cases x) auto
    define t where "t = cap_step c x"
    have "cap_entry t i = (if used < mx then (mx, used + n, told) else (mx, used, True))"
      "snd (log_cap_admit c i n) = (if used < mx then (True, False) else (False, \<not> told))"
      using Cons.prems(2) by (auto simp: x t_def cap_entry_def log_cap_admit_def)
    moreover have "cap_out c i (x # xs) = snd (log_cap_admit c i n) # cap_out t i xs" by (simp add: x t_def)
    ultimately show ?thesis using Cons.IH[of t] Cons.prems(1) by (cases "used < mx") (simp_all add: x)
  qed
qed simp

lemma cap_ref_full: "\<not> used < mx \<Longrightarrow> cap_ref mx used True ns = replicate (length ns) (False, False)"
  by (induction ns) auto

lemma cap_ref_split:
  assumes "used < mx"
  shows "\<exists>ks ds. ns = ks @ ds \<and> (ks \<noteq> [] \<longrightarrow> used + sum_list (butlast ks) < mx) \<and>
    (ds \<noteq> [] \<longrightarrow> ks \<noteq> [] \<and> mx \<le> used + sum_list ks) \<and>
    cap_ref mx used False ns = replicate (length ks) (True, False) @
      (if ds = [] then [] else (False, True) # replicate (length ds - 1) (False, False))"
  using assms
proof (induction ns arbitrary: used)
  case (Cons n ns)
  show ?case
  proof (cases "used + n < mx")
    case True
    from Cons.IH[OF True] obtain ks ds where "ns = ks @ ds"
      "ks \<noteq> [] \<longrightarrow> used + n + sum_list (butlast ks) < mx" "ds \<noteq> [] \<longrightarrow> ks \<noteq> [] \<and> mx \<le> used + n + sum_list ks"
      "cap_ref mx (used + n) False ns = replicate (length ks) (True, False) @
        (if ds = [] then [] else (False, True) # replicate (length ds - 1) (False, False))" by blast
    with Cons.prems show ?thesis by (intro exI[of _ "n # ks"] exI[of _ ds]) auto
  next
    case False
    have "cap_ref mx (used + n) False ns = (if ns = [] then [] else (False, True) # replicate (length ns - 1) (False, False))"
      using False by (cases ns) (simp_all add: cap_ref_full)
    with False Cons.prems show ?thesis by (intro exI[of _ "[n]"] exI[of _ ns]) auto
  qed
qed simp


section \<open>Self-update stages\<close>

text \<open>A nil tracker is None; \<open>now\<close> is the clock at the call. A nil \<open>rootErr\<close> map reads like an
  empty one, so the two are not told apart.\<close>

record agent_update_progress =
  pg_target :: string
  pg_phase :: string
  pg_detail :: string
  pg_percent :: int
  pg_at :: int

record tracker_maps =
  tk_by_server :: "string \<rightharpoonup> agent_update_progress"
  tk_root_err :: "string \<rightharpoonup> string"

type_synonym tracker = "tracker_maps option"

definition new_tracker :: tracker where
  "new_tracker = Some \<lparr>tk_by_server = Map.empty, tk_root_err = Map.empty\<rparr>"

definition progress_record :: "int \<Rightarrow> tracker \<Rightarrow> string \<Rightarrow> agent_update_progress \<Rightarrow> tracker" where
  "progress_record now t i p =
     (case t of
        None \<Rightarrow> None
      | Some m \<Rightarrow>
          if i = [] then t
          else if trim_space (pg_target p) = []
          then (if pg_phase p = ''failed'' \<and> trim_space (pg_detail p) \<noteq> []
                then Some (m\<lparr>tk_root_err := (tk_root_err m)(i \<mapsto> pg_detail p)\<rparr>) else t)
          else
            let pct = (if pg_percent p = 0
                       then (case tk_by_server m i of Some prev \<Rightarrow> pg_percent prev | None \<Rightarrow> pg_percent p)
                       else pg_percent p)
            in Some (m\<lparr>tk_by_server := (tk_by_server m)(i \<mapsto> p\<lparr>pg_percent := pct, pg_at := now\<rparr>)\<rparr>))"

definition progress_offer :: "int \<Rightarrow> tracker \<Rightarrow> string \<Rightarrow> string \<Rightarrow> tracker" where
  "progress_offer now t i target =
     (case t of
        None \<Rightarrow> None
      | Some m \<Rightarrow> progress_record now t i
          \<lparr>pg_target = target, pg_phase = ''offered'',
           pg_detail = ''Sending the update command to the agent'', pg_percent = 5, pg_at = 0\<rparr>)"

definition progress_snapshot :: "tracker \<Rightarrow> string \<Rightarrow> string \<Rightarrow> agent_update_progress option" where
  "progress_snapshot t i current =
     (case t of
        None \<Rightarrow> None
      | Some m \<Rightarrow>
          (case tk_by_server m i of
             None \<Rightarrow> None
           | Some p \<Rightarrow>
               Some (if pg_phase p \<noteq> ''failed'' \<and> versions_equal current (pg_target p)
                     then p\<lparr>pg_phase := ''done'', pg_detail := ''Update complete'', pg_percent := 100\<rparr>
                     else p)))"

definition agent_root_error :: "tracker \<Rightarrow> string \<Rightarrow> string" where
  "agent_root_error t i = (case t of None \<Rightarrow> [] | Some m \<Rightarrow> get0 [] (tk_root_err m) i)"

definition clear_root_error :: "tracker \<Rightarrow> string \<Rightarrow> tracker" where
  "clear_root_error t i =
     (case t of
        None \<Rightarrow> None
      | Some m \<Rightarrow> if i = [] then t else Some (m\<lparr>tk_root_err := (tk_root_err m)(i := None)\<rparr>))"

definition reconcile_root_error :: "tracker \<Rightarrow> string \<Rightarrow> bool \<Rightarrow> bool \<Rightarrow> tracker" where
  "reconcile_root_error t i enabled euid_root = (if enabled = euid_root then clear_root_error t i else t)"

definition progress_clear :: "tracker \<Rightarrow> string \<Rightarrow> tracker" where
  "progress_clear t i =
     (case t of None \<Rightarrow> None | Some m \<Rightarrow> Some (m\<lparr>tk_by_server := (tk_by_server m)(i := None)\<rparr>))"

datatype progress_op =
    PRecord int string agent_update_progress | POffer int string string
  | PClearRoot string | PReconcile string bool bool | PClear string

fun progress_key :: "progress_op \<Rightarrow> string" where
  "progress_key (PRecord now i p) = i"
| "progress_key (POffer now i v) = i"
| "progress_key (PClearRoot i) = i"
| "progress_key (PReconcile i e r) = i"
| "progress_key (PClear i) = i"

fun progress_step :: "tracker \<Rightarrow> progress_op \<Rightarrow> tracker" where
  "progress_step t (PRecord now i p) = progress_record now t i p"
| "progress_step t (POffer now i v) = progress_offer now t i v"
| "progress_step t (PClearRoot i) = clear_root_error t i"
| "progress_step t (PReconcile i e r) = reconcile_root_error t i e r"
| "progress_step t (PClear i) = progress_clear t i"

definition progress_entry :: "tracker \<Rightarrow> string \<Rightarrow> (agent_update_progress option \<times> string) option" where
  "progress_entry t i = map_option (\<lambda>m. (tk_by_server m i, get0 [] (tk_root_err m) i)) t"

lemmas progress_defs =
  progress_record_def progress_offer_def clear_root_error_def reconcile_root_error_def progress_clear_def

interpretation progress: keyed_state progress_step progress_key progress_entry
proof
  show "progress_entry (progress_step t x) i = progress_entry t i" if "progress_key x \<noteq> i" for t x i
    using that by (cases t; cases x) (auto simp: progress_entry_def progress_defs Let_def)
  show "progress_entry (progress_step s x) (progress_key x) = progress_entry (progress_step t x) (progress_key x)"
    if "progress_entry s (progress_key x) = progress_entry t (progress_key x)" for s t x
    using that by (cases s; cases t; cases x) (auto simp: progress_entry_def progress_defs Let_def)
qed

text \<open>Reports without a target version, which the privilege helper sends, and the calls on the root
  error.\<close>

fun root_only :: "progress_op \<Rightarrow> bool" where
  "root_only (PRecord now i p) \<longleftrightarrow> trim_space (pg_target p) = []"
| "root_only (POffer now i v) \<longleftrightarrow> trim_space v = []"
| "root_only (PClearRoot i) \<longleftrightarrow> True"
| "root_only (PReconcile i e r) \<longleftrightarrow> True"
| "root_only (PClear i) \<longleftrightarrow> False"

definition stage_entry :: "tracker \<Rightarrow> string \<Rightarrow> agent_update_progress option option" where
  "stage_entry t i = map_option (\<lambda>m. tk_by_server m i) t"

interpretation stages: keyed_state progress_step progress_key stage_entry
proof
  show "stage_entry (progress_step t x) i = stage_entry t i" if "progress_key x \<noteq> i" for t x i
    using that by (cases t; cases x) (auto simp: stage_entry_def progress_defs Let_def)
  show "stage_entry (progress_step s x) (progress_key x) = stage_entry (progress_step t x) (progress_key x)"
    if "stage_entry s (progress_key x) = stage_entry t (progress_key x)" for s t x
    using that by (cases s; cases t; cases x) (auto simp: stage_entry_def progress_defs Let_def)
qed

lemma root_only_stage: "root_only x \<Longrightarrow> stage_entry (progress_step t x) i = stage_entry t i"
  by (cases t; cases x) (auto simp: stage_entry_def progress_defs Let_def)

lemma stages_ignore_root:
  "stage_entry (run_all progress_step xs t) i = stage_entry (run_all progress_step (filter (\<lambda>x. \<not> root_only x) xs) t) i"
proof (induction xs arbitrary: t)
  case (Cons x xs)
  show ?case
  proof (cases "root_only x")
    case True
    from stages.run_local[OF root_only_stage[OF this]]
    have "stage_entry (run_all progress_step xs (progress_step t x)) i = stage_entry (run_all progress_step xs t) i" .
    with True Cons.IH show ?thesis by simp
  next
    case False
    with Cons.IH show ?thesis by simp
  qed
qed simp

lemma snapshot_entry: "stage_entry s i = stage_entry t i \<Longrightarrow> progress_snapshot s i v = progress_snapshot t i v"
  by (cases s; cases t) (simp_all add: stage_entry_def progress_snapshot_def)

section \<open>Delivered agent-root commands\<close>

type_synonym root_delivery = "(string \<rightharpoonup> bool) option"

definition agent_root_message :: "bool \<Rightarrow> server_message" where
  "agent_root_message enabled = SAgentRootCommand enabled"

definition mark_sent :: "root_delivery \<Rightarrow> string \<Rightarrow> bool \<Rightarrow> root_delivery" where
  "mark_sent d i enabled =
     (case d of None \<Rightarrow> None | Some m \<Rightarrow> if i = [] then d else Some (m(i \<mapsto> enabled)))"

definition resend_needed :: "root_delivery \<Rightarrow> string \<Rightarrow> bool \<Rightarrow> bool \<Rightarrow> root_delivery \<times> bool" where
  "resend_needed d i enabled euid_root =
     (case d of
        None \<Rightarrow> (d, False)
      | Some m \<Rightarrow>
          if i = [] then (d, False)
          else if enabled = euid_root then (Some (m(i := None)), False)
          else (d, m i = None \<or> m i \<noteq> Some enabled))"

record root_state =
  ro_registry :: registry
  ro_sent :: root_delivery
  ro_progress :: tracker

text \<open>The outcome is None where nothing is sent. A send that blocks has not returned: the state is
  left as it was.\<close>

definition repush_root_command ::
  "bool \<Rightarrow> root_state \<Rightarrow> string \<Rightarrow> bool \<Rightarrow> bool \<Rightarrow> bool \<Rightarrow> root_state \<times> send_outcome option" where
  "repush_root_command pick s i enabled euid_root operator_set =
     (case resend_needed (ro_sent s) i enabled euid_root of
        (d, needed) \<Rightarrow>
          let s1 = s\<lparr>ro_sent := d\<rparr>
          in if \<not> needed then (s1, None)
             else if \<not> enabled \<and> \<not> operator_set then (s1, None)
             else (case reg_send pick (ro_registry s1) i (agent_root_message enabled) of
                     (r, Sent) \<Rightarrow>
                       (s1\<lparr>ro_registry := r, ro_sent := mark_sent d i enabled,
                           ro_progress := clear_root_error (ro_progress s1) i\<rparr>, Some Sent)
                   | (r, out) \<Rightarrow> (s1, Some out)))"

text \<open>\<open>Gateway.SendAgentRootCommand\<close> and \<open>SendAgentUpdate\<close>\<close>

definition send_agent_root_command :: "bool \<Rightarrow> root_state \<Rightarrow> string \<Rightarrow> bool \<Rightarrow> root_state \<times> send_outcome" where
  "send_agent_root_command pick s i enabled =
     (case reg_send pick (ro_registry s) i (agent_root_message enabled) of
        (r, Sent) \<Rightarrow>
          (s\<lparr>ro_registry := r, ro_sent := mark_sent (ro_sent s) i enabled,
             ro_progress := clear_root_error (ro_progress s) i\<rparr>, Sent)
      | (r, out) \<Rightarrow> (s, out))"

definition send_agent_update ::
  "int \<Rightarrow> bool \<Rightarrow> root_state \<Rightarrow> string \<Rightarrow> update_agent option \<Rightarrow> root_state \<times> (string, send_outcome) res" where
  "send_agent_update now pick s i up =
     (case up of
        None \<Rightarrow> (s, Inl ''nil update'')
      | Some u \<Rightarrow>
          (case reg_send pick (ro_registry s) i (SUpdateAgent u) of
             (r, Sent) \<Rightarrow>
               (s\<lparr>ro_registry := r, ro_progress := progress_offer now (ro_progress s) i (ua_target_version u)\<rparr>, Inr Sent)
           | (r, out) \<Rightarrow> (s, Inr out)))"

text \<open>Hellos of agents and the streams they come on.\<close>

datatype root_op = RHello bool string bool bool bool | RStream reg_op

fun root_outs :: "root_state \<Rightarrow> string \<Rightarrow> root_op list \<Rightarrow> send_outcome option list" where
  "root_outs s i [] = []"
| "root_outs s i (RHello pick j e r ops # xs) =
     (case repush_root_command pick s j e r ops of
        (t, out) \<Rightarrow> (if j = i then [out] else []) @ root_outs t i xs)"
| "root_outs s i (RStream x # xs) =
     (case reg_step (ro_registry s) x of None \<Rightarrow> [] | Some r \<Rightarrow> root_outs (s\<lparr>ro_registry := r\<rparr>) i xs)"

text \<open>Hellos of server \<open>i\<close> that all disagree with the flag \<open>e\<close>.\<close>

fun disagrees :: "string \<Rightarrow> bool \<Rightarrow> root_op \<Rightarrow> bool" where
  "disagrees i e (RHello pick j e' r ops) \<longleftrightarrow> j = i \<longrightarrow> e' = e \<and> r \<noteq> e"
| "disagrees i e (RStream x) \<longleftrightarrow> True"

definition sent_flag :: "root_state \<Rightarrow> string \<Rightarrow> bool option" where
  "sent_flag s i = (case ro_sent s of None \<Rightarrow> None | Some m \<Rightarrow> m i)"

lemma repush_other:
  "j \<noteq> i \<Longrightarrow> sent_flag (fst (repush_root_command pick s j e r ops)) i = sent_flag s i"
  by (auto simp: repush_root_command_def resend_needed_def mark_sent_def sent_flag_def Let_def
      split: option.splits prod.splits send_outcome.splits)

lemma repush_own:
  assumes "r \<noteq> e"
  shows "sent_flag s i = Some e \<Longrightarrow> repush_root_command pick s i e r ops = (s, None)"
    and "snd (repush_root_command pick s i e r ops) = Some Sent \<Longrightarrow>
      sent_flag (fst (repush_root_command pick s i e r ops)) i = Some e \<and> (e \<or> ops)"
  using assms
  by (auto simp: repush_root_command_def resend_needed_def mark_sent_def sent_flag_def Let_def
      split: option.splits prod.splits send_outcome.splits if_splits)

lemma root_outs_quiet:
  "sent_flag s i = Some e \<Longrightarrow> list_all (disagrees i e) xs \<Longrightarrow> set (root_outs s i xs) \<subseteq> {None}"
proof (induction s i xs rule: root_outs.induct)
  case (2 s i pick j e' r ops xs)
  obtain t out where t: "repush_root_command pick s j e' r ops = (t, out)" by fastforce
  show ?case
  proof (cases "j = i")
    case True
    with 2(3) have d: "e' = e" "r \<noteq> e" by auto
    with repush_own(1)[OF d(2) 2(2), of pick ops] t True have "t = s" "out = None" by auto
    with "2.IH"[OF t[symmetric]] 2(2,3) t True show ?thesis by simp
  next
    case False
    with repush_other[OF this, of pick s e' r ops] t 2(2) have "sent_flag t i = Some e" by simp
    with "2.IH"[OF t[symmetric]] 2(3) t False show ?thesis by simp
  qed
next
  case (3 s i x xs)
  then show ?case by (cases "reg_step (ro_registry s) x") (simp_all add: sent_flag_def)
qed simp

lemma root_outs_once:
  "list_all (disagrees i e) xs \<Longrightarrow> count_list (root_outs s i xs) (Some Sent) \<le> 1"
proof (induction s i xs rule: root_outs.induct)
  case (2 s i pick j e' r ops xs)
  obtain t out where t: "repush_root_command pick s j e' r ops = (t, out)" by fastforce
  have IH: "count_list (root_outs t i xs) (Some Sent) \<le> 1" using "2.IH"[OF t[symmetric]] 2(2) by simp
  show ?case
  proof (cases "j = i \<and> out = Some Sent")
    case True
    with 2(2) have "e' = e" "r \<noteq> e" by auto
    with repush_own(2)[of r e pick s i ops] t True have "sent_flag t i = Some e" by simp
    with root_outs_quiet 2(2) have "set (root_outs t i xs) \<subseteq> {None}" by simp
    then have "count_list (root_outs t i xs) (Some Sent) = 0" by (intro count_notin) auto
    with t True show ?thesis by simp
  next
    case False
    with t IH show ?thesis by auto
  qed
next
  case (3 s i x xs)
  then show ?case by (auto split: option.splits)
qed simp


section \<open>Properties\<close>

text \<open>From the empty broker, any calls run without sending on a closed channel or closing one
  twice, and the gauge of subscribers is the number of open channels. What a subscriber received and
  has buffered is an ordered part of what was published for its run since it subscribed, and all of
  it when it stayed subscribed and at most 64 events were published.\<close>

theorem broker_delivery:
  assumes "run_ops broker_step ys new_log_broker = Some b" and "broker_subscribe b i = (b0, a)"
  shows "\<exists>q. run_ops broker_step xs b0 = Some q \<and> br_gauge q = int (open_chans (br_chans q)) \<and>
    subseq (taken b0 a xs @ buf_of q a) (events_for i xs) \<and>
    (BUnsubscribe i a \<notin> set xs \<and> length (events_for i xs) \<le> 64 \<longrightarrow>
       taken b0 a xs @ buf_of q a = events_for i xs)"
proof -
  have ok: "broker_ok b" by (rule broker.run_inv[OF broker_ok_new assms(1)])
  have b0: "b0 = fst (broker_subscribe b i)" and a: "a = length (br_chans b)"
    using assms(2) by (auto simp: broker_subscribe_def Let_def)
  have ok0: "broker_ok b0" using subscribe_ok[OF ok] by (simp add: b0)
  have mem: "a \<in> set (subs_of b0 i)" "buf_of b0 a = []" "a < length (br_chans b0)"
    by (simp_all add: b0 a broker_subscribe_def Let_def subs_of_def get0_def buf_of_def)
  have c: "chan_of b0 i a" using broker_okD(5)[OF ok0 mem(1)] mem(3) by (auto simp: chan_of_def)
  obtain q where q: "run_ops broker_step xs b0 = Some q" "broker_ok q" using broker.run_safe[OF ok0] by blast
  show ?thesis
    using q broker_okD(6)[OF q(2)] run_chan[OF ok0 c q(1)] run_chan_full[OF ok0 c q(1) mem(1)] mem(2)
    by (auto simp: chan_cap_def)
qed

theorem broker_delivery_witness:
  "\<exists>b a q. broker_subscribe new_log_broker ''r'' = (b, a) \<and>
     run_ops broker_step [BPublish ''r'' \<lparr>lc_run_id = ''r'', lc_stream = ''stdout'', lc_seq = 0, lc_data = ''x''\<rparr>, BTake a] b = Some q \<and>
     br_gauge q = 1"
proof -
  obtain b a where ba: "broker_subscribe new_log_broker ''r'' = (b, a)" by fastforce
  have "run_ops broker_step [] new_log_broker = Some new_log_broker" by simp
  from broker_delivery[OF this ba, of "[BPublish ''r'' \<lparr>lc_run_id = ''r'', lc_stream = ''stdout'', lc_seq = 0, lc_data = ''x''\<rparr>, BTake a]"]
  obtain q where q: "run_ops broker_step [BPublish ''r'' \<lparr>lc_run_id = ''r'', lc_stream = ''stdout'', lc_seq = 0, lc_data = ''x''\<rparr>, BTake a] b = Some q" by blast
  then have "br_gauge q = 1"
    using ba by (auto simp: new_log_broker_def broker_subscribe_def publish_def fanout_def subs_of_def Let_def
        chan_take_def split: if_splits)
  with ba q show ?thesis by blast
qed

text \<open>C13. Whatever chunks of other runs come in between, the chunks of one run that are stored are the first
  ones: all of them but the last fit below the limit, so what is stored exceeds it by less than the chunk
  stored last, and a chunk is dropped only once the limit is reached. The notice is written exactly once, in
  place of the first chunk that is dropped, and no chunk is stored after that.\<close>

theorem log_cap_budget:
  assumes "CDone i \<notin> set xs"
  shows "\<exists>ks ds. sizes_of i xs = ks @ ds \<and>
    (ks \<noteq> [] \<longrightarrow> sum_list (butlast ks) < lcap_max (new_log_cap mx)) \<and>
    (ds \<noteq> [] \<longrightarrow> lcap_max (new_log_cap mx) \<le> sum_list ks) \<and>
    cap_out (run_all cap_step (ys @ [CDone i]) (new_log_cap mx)) i xs =
      replicate (length ks) (True, False) @
      (if ds = [] then [] else (False, True) # replicate (length ds - 1) (False, False))"
proof -
  let ?m = "lcap_max (new_log_cap mx)"
  have keep: "lcap_max (run_all cap_step zs c) = lcap_max c" for zs c
  proof (induction zs arbitrary: c)
    case (Cons z zs)
    have "lcap_max (cap_step c z) = lcap_max c" by (cases z) (auto simp: log_cap_admit_def log_cap_done_def)
    with Cons show ?case by simp
  qed simp
  have pos: "0 < ?m" by (simp add: new_log_cap_def default_run_log_max_bytes_def push_bit_eq_mult)
  have "lcap_max (run_all cap_step ys (new_log_cap mx)) = ?m" by (rule keep)
  then have e: "cap_entry (run_all cap_step (ys @ [CDone i]) (new_log_cap mx)) i = (?m, 0, False)"
    by (simp add: run_all_append cap_entry_def log_cap_done_def)
  from cap_ref_split[OF pos, of "sizes_of i xs"] show ?thesis
    unfolding cap_out_ref[OF assms e] add_0 by blast
qed

theorem log_cap_budget_witness:
  "\<exists>ks ds. [3::int, 3, 3] = ks @ ds \<and> (ks \<noteq> [] \<longrightarrow> sum_list (butlast ks) < 4) \<and> (ds \<noteq> [] \<longrightarrow> 4 \<le> sum_list ks) \<and>
     cap_out (run_all cap_step ([CAdmit ''r'' 7] @ [CDone ''r'']) (new_log_cap 4)) ''r''
       [CAdmit ''r'' 3, CAdmit ''q'' 9, CAdmit ''r'' 3, CAdmit ''r'' 3] =
     replicate (length ks) (True, False) @
      (if ds = [] then [] else (False, True) # replicate (length ds - 1) (False, False))"
  using log_cap_budget[of "''r''" "[CAdmit ''r'' 3, CAdmit ''q'' 9, CAdmit ''r'' 3, CAdmit ''r'' 3]" 4 "[CAdmit ''r'' 7]"]
  by (simp add: new_log_cap_def)

text \<open>While every Hello of a server disagrees with one desired flag, whatever streams connect and
  drop and whatever other servers say, the command is sent to it at most once.\<close>

theorem root_command_once:
  assumes "list_all (disagrees i e) xs"
  shows "count_list (root_outs s i xs) (Some Sent) \<le> 1"
  using assms by (rule root_outs_once)

definition demo_root :: root_state where
  "demo_root = \<lparr>ro_registry = new_registry, ro_sent = Some Map.empty, ro_progress = new_tracker\<rparr>"

theorem root_command_once_witness:
  "root_outs demo_root ''s'' [RStream (RAdd ''s''), RHello False ''s'' True False True, RHello False ''s'' True False True]
     = [Some Sent, None] \<and>
   count_list (root_outs demo_root ''s''
     [RStream (RAdd ''s''), RHello False ''s'' True False True, RHello False ''s'' True False True]) (Some Sent) \<le> 1"
proof
  show "root_outs demo_root ''s'' [RStream (RAdd ''s''), RHello False ''s'' True False True, RHello False ''s'' True False True]
     = [Some Sent, None]"
    by (simp add: demo_root_def new_registry_def reg_add_def repush_root_command_def resend_needed_def
        reg_send_def conn_send_def out_cap_def mark_sent_def)
  show "count_list (root_outs demo_root ''s''
     [RStream (RAdd ''s''), RHello False ''s'' True False True, RHello False ''s'' True False True]) (Some Sent) \<le> 1"
    by (rule root_command_once) simp
qed

text \<open>The stage of a server's self-update depends on the calls for that server only, and among
  them reports without a target version, which carry agent-root failures, and the calls on the root
  error change nothing: a privilege failure never shows as an update.\<close>

theorem root_failures_not_updates:
  "progress_snapshot (run_all progress_step xs t) i v =
   progress_snapshot (run_all progress_step (filter (\<lambda>x. progress_key x = i \<and> \<not> root_only x) xs) t) i v"
proof (rule snapshot_entry)
  have "stage_entry (run_all progress_step xs t) i =
      stage_entry (run_all progress_step (filter (\<lambda>x. progress_key x = i) (filter (\<lambda>x. \<not> root_only x) xs)) t) i"
    using stages_ignore_root[of xs t i] stages.run_own[of "filter (\<lambda>x. \<not> root_only x) xs" t i] by simp
  then show "stage_entry (run_all progress_step xs t) i =
      stage_entry (run_all progress_step (filter (\<lambda>x. progress_key x = i \<and> \<not> root_only x) xs) t) i"
    by (simp add: conj_commute)
qed

end
