(* ===== verification/Scheduler.thy ===== *)
theory Scheduler
  imports Prelude
begin

text \<open>
  The agent's scheduler, \<open>agent/internal/scheduler/scheduler.go\<close>: one cron instance per time zone,
  and the entry of each job in one of them. The cron library (\<open>robfig/cron\<close>) is not part of the
  repository: its operations are the record \<open>cron_ops\<close>, an argument, and what the code relies on is
  \<open>cron_laws\<close>, its documented behaviour.
\<close>

section \<open>The cron library\<close>

text \<open>\<open>co_jobs\<close> lists the entries of an instance, as (entry id, spec, job), and \<open>co_running\<close> says
  whether its loop has been started.\<close>

record 'c cron_ops =
  co_new :: "string \<Rightarrow> 'c"
  co_add :: "'c \<Rightarrow> string \<Rightarrow> string \<Rightarrow> (string, 'c \<times> nat) res"
  co_remove :: "'c \<Rightarrow> nat \<Rightarrow> 'c"
  co_start :: "'c \<Rightarrow> 'c"
  co_stop :: "'c \<Rightarrow> 'c"
  co_jobs :: "'c \<Rightarrow> (nat \<times> string \<times> string) list"
  co_running :: "'c \<Rightarrow> bool"

definition cron_laws :: "'c cron_ops \<Rightarrow> bool" where
  "cron_laws ops \<longleftrightarrow>
     (\<forall>tz. co_jobs ops (co_new ops tz) = [] \<and> \<not> co_running ops (co_new ops tz)) \<and>
     (\<forall>c sp j c' e. co_add ops c sp j = Inr (c', e) \<longrightarrow>
        set (co_jobs ops c') = insert (e, sp, j) (set (co_jobs ops c)) \<and>
        e \<notin> fst ` set (co_jobs ops c) \<and> co_running ops c' = co_running ops c) \<and>
     (\<forall>c e. set (co_jobs ops (co_remove ops c e)) = {x \<in> set (co_jobs ops c). fst x \<noteq> e} \<and>
        co_running ops (co_remove ops c e) = co_running ops c) \<and>
     (\<forall>c. co_jobs ops (co_start ops c) = co_jobs ops c \<and> co_running ops (co_start ops c)) \<and>
     (\<forall>c. co_jobs ops (co_stop ops c) = co_jobs ops c \<and> \<not> co_running ops (co_stop ops c))"

section \<open>The scheduler\<close>

record sched_job =
  sd_id :: string
  sd_schedule_cron :: string
  sd_timezone :: string
  sd_enabled :: bool

record 'c scheduler =
  sc_crons :: "string \<rightharpoonup> 'c"
  sc_entries :: "string \<rightharpoonup> string \<times> nat"

definition new_scheduler :: "'c scheduler" where
  "new_scheduler = \<lparr>sc_crons = Map.empty, sc_entries = Map.empty\<rparr>"

text \<open>\<open>s.crons[e.tz].Remove(e.id)\<close> and the delete; None is the nil dereference where the zone has no
  instance.\<close>

definition drop_entry :: "'c cron_ops \<Rightarrow> 'c scheduler \<Rightarrow> string \<Rightarrow> 'c scheduler option" where
  "drop_entry ops s i =
     (case sc_entries s i of
        None \<Rightarrow> Some s
      | Some (tz, e) \<Rightarrow>
          (case sc_crons s tz of
             None \<Rightarrow> None
           | Some c \<Rightarrow> Some (s\<lparr>sc_crons := (sc_crons s)(tz \<mapsto> co_remove ops c e),
                                sc_entries := (sc_entries s)(i := None)\<rparr>)))"

definition cron_for :: "'c cron_ops \<Rightarrow> 'c scheduler \<Rightarrow> string \<Rightarrow> 'c scheduler \<times> 'c" where
  "cron_for ops s tz =
     (case sc_crons s tz of
        Some c \<Rightarrow> (s, c)
      | None \<Rightarrow> let c = co_new ops tz in (s\<lparr>sc_crons := (sc_crons s)(tz \<mapsto> c)\<rparr>, c))"

text \<open>The map \<open>want\<close>: the last definition of an id wins.\<close>

definition want_of :: "sched_job list \<Rightarrow> string \<rightharpoonup> sched_job" where
  "want_of jobs = map_of (rev (map (\<lambda>j. (sd_id j, j)) jobs))"

text \<open>The two loops of \<open>Apply\<close>. Go iterates over a map in any order: the orders are arguments.\<close>

fun drop_stale :: "'c cron_ops \<Rightarrow> (string \<rightharpoonup> sched_job) \<Rightarrow> string list \<Rightarrow> 'c scheduler \<Rightarrow> 'c scheduler option" where
  "drop_stale ops want [] s = Some s"
| "drop_stale ops want (i # ids) s =
     (if want i = None
      then (case drop_entry ops s i of None \<Rightarrow> None | Some t \<Rightarrow> drop_stale ops want ids t)
      else drop_stale ops want ids s)"

fun add_or_replace ::
  "'c cron_ops \<Rightarrow> (string \<rightharpoonup> sched_job) \<Rightarrow> string list \<Rightarrow> 'c scheduler \<Rightarrow> ('c scheduler \<times> string option) option" where
  "add_or_replace ops want [] s = Some (s, None)"
| "add_or_replace ops want (i # ids) s =
     (case want i of
        None \<Rightarrow> add_or_replace ops want ids s
      | Some j \<Rightarrow>
          (case drop_entry ops s i of
             None \<Rightarrow> None
           | Some s1 \<Rightarrow>
               if \<not> sd_enabled j then add_or_replace ops want ids s1
               else (case cron_for ops s1 (sd_timezone j) of
                   (s2, c) \<Rightarrow>
                     (case co_add ops c (sd_schedule_cron j) i of
                        Inl err \<Rightarrow> Some (s2, Some err)
                      | Inr (c', e) \<Rightarrow>
                          add_or_replace ops want ids
                            (s2\<lparr>sc_crons := (sc_crons s2)(sd_timezone j \<mapsto> c'),
                                sc_entries := (sc_entries s2)(i \<mapsto> (sd_timezone j, e))\<rparr>)))))"

definition sched_apply ::
  "'c cron_ops \<Rightarrow> string list \<Rightarrow> string list \<Rightarrow> sched_job list \<Rightarrow> 'c scheduler \<Rightarrow> ('c scheduler \<times> string option) option" where
  "sched_apply ops stale order jobs s =
     (case drop_stale ops (want_of jobs) stale s of
        None \<Rightarrow> None
      | Some t \<Rightarrow> add_or_replace ops (want_of jobs) order t)"

definition sched_start :: "'c cron_ops \<Rightarrow> 'c scheduler \<Rightarrow> 'c scheduler" where
  "sched_start ops s = s\<lparr>sc_crons := map_option (co_start ops) \<circ> sc_crons s\<rparr>"

definition sched_stop :: "'c cron_ops \<Rightarrow> 'c scheduler \<Rightarrow> 'c scheduler" where
  "sched_stop ops s = s\<lparr>sc_crons := map_option (co_stop ops) \<circ> sc_crons s\<rparr>"

section \<open>What is scheduled\<close>

text \<open>\<open>registered\<close>: the instance of a zone holds the entry. A job's slots are the pairs (zone,
  spec) under which it is registered; a loop that was not started fires nothing.\<close>

definition registered :: "'c cron_ops \<Rightarrow> 'c scheduler \<Rightarrow> string \<Rightarrow> nat \<Rightarrow> string \<Rightarrow> string \<Rightarrow> bool" where
  "registered ops s tz e sp j \<longleftrightarrow>
     (case sc_crons s tz of None \<Rightarrow> False | Some c \<Rightarrow> (e, sp, j) \<in> set (co_jobs ops c))"

definition slots :: "'c cron_ops \<Rightarrow> 'c scheduler \<Rightarrow> string \<Rightarrow> (string \<times> string) set" where
  "slots ops s j = {(tz, sp). \<exists>e. registered ops s tz e sp j}"

definition zone_running :: "'c cron_ops \<Rightarrow> 'c scheduler \<Rightarrow> string \<Rightarrow> bool" where
  "zone_running ops s tz = (case sc_crons s tz of None \<Rightarrow> False | Some c \<Rightarrow> co_running ops c)"

definition live_slots :: "'c cron_ops \<Rightarrow> 'c scheduler \<Rightarrow> string \<Rightarrow> (string \<times> string) set" where
  "live_slots ops s j = {x \<in> slots ops s j. zone_running ops s (fst x)}"

text \<open>What the job set asks for.\<close>

definition wanted_slots :: "(string \<rightharpoonup> sched_job) \<Rightarrow> string \<Rightarrow> (string \<times> string) set" where
  "wanted_slots want j =
     (case want j of
        None \<Rightarrow> {}
      | Some d \<Rightarrow> if sd_enabled d then {(sd_timezone d, sd_schedule_cron d)} else {})"

text \<open>The invariant: entries and registrations agree, and an entry id of an instance is one job's.\<close>

definition sched_ok :: "'c cron_ops \<Rightarrow> 'c scheduler \<Rightarrow> bool" where
  "sched_ok ops s \<longleftrightarrow>
     (\<forall>i tz e. sc_entries s i = Some (tz, e) \<longrightarrow> (\<exists>sp. registered ops s tz e sp i)) \<and>
     (\<forall>tz e sp j. registered ops s tz e sp j \<longrightarrow> sc_entries s j = Some (tz, e)) \<and>
     (\<forall>tz e sp sp' j j'. registered ops s tz e sp j \<longrightarrow> registered ops s tz e sp' j' \<longrightarrow> sp = sp' \<and> j = j')"

lemma sched_ok_new [inv_intro]: "sched_ok ops new_scheduler"
  by (simp add: sched_ok_def new_scheduler_def registered_def)

lemma sched_okD:
  assumes "sched_ok ops s"
  shows "sc_entries s i = Some (tz, e) \<Longrightarrow> \<exists>sp. registered ops s tz e sp i"
    and "registered ops s tz e sp j \<Longrightarrow> sc_entries s j = Some (tz, e)"
    and "registered ops s tz e sp j \<Longrightarrow> registered ops s tz e sp' j' \<Longrightarrow> sp = sp' \<and> j = j'"
  using assms unfolding sched_ok_def by blast+

lemma sched_okI:
  assumes "\<And>i tz e. sc_entries s i = Some (tz, e) \<Longrightarrow> \<exists>sp. registered ops s tz e sp i"
    and "\<And>tz e sp j. registered ops s tz e sp j \<Longrightarrow> sc_entries s j = Some (tz, e)"
    and "\<And>tz e sp sp' j j'. registered ops s tz e sp j \<Longrightarrow> registered ops s tz e sp' j' \<Longrightarrow> sp = sp' \<and> j = j'"
  shows "sched_ok ops s"
  using assms unfolding sched_ok_def by blast

lemma cron_lawsD:
  assumes "cron_laws ops"
  shows "co_jobs ops (co_new ops tz) = []" "\<not> co_running ops (co_new ops tz)"
    and "co_add ops c sp j = Inr (c', e) \<Longrightarrow> set (co_jobs ops c') = insert (e, sp, j) (set (co_jobs ops c))"
    and "co_add ops c sp j = Inr (c', e) \<Longrightarrow> e \<notin> fst ` set (co_jobs ops c)"
    and "co_add ops c sp j = Inr (c', e) \<Longrightarrow> co_running ops c' = co_running ops c"
    and "set (co_jobs ops (co_remove ops c e)) = {x \<in> set (co_jobs ops c). fst x \<noteq> e}"
    and "co_running ops (co_remove ops c e) = co_running ops c"
    and "co_jobs ops (co_start ops c) = co_jobs ops c" "co_running ops (co_start ops c)"
    and "co_jobs ops (co_stop ops c) = co_jobs ops c" "\<not> co_running ops (co_stop ops c)"
  using assms unfolding cron_laws_def by blast+

text \<open>Dropping a job's entry.\<close>

lemma drop_entry_ok:
  assumes laws: "cron_laws ops" and ok: "sched_ok ops s"
  shows "\<exists>t. drop_entry ops s i = Some t \<and> sched_ok ops t \<and> sc_entries t i = None \<and>
    (\<forall>tz e sp j. registered ops t tz e sp j \<longleftrightarrow> registered ops s tz e sp j \<and> j \<noteq> i) \<and>
    zone_running ops t = zone_running ops s"
proof (cases "sc_entries s i")
  case None
  have "registered ops s tz e sp j \<Longrightarrow> j \<noteq> i" for tz e sp j
    using sched_okD(2)[OF ok, of tz e sp j] None by auto
  with None ok show ?thesis by (auto simp: drop_entry_def)
next
  case (Some te)
  obtain tz e where te: "te = (tz, e)" by (cases te)
  obtain sp0 where r0: "registered ops s tz e sp0 i" using sched_okD(1)[OF ok] Some te by blast
  then obtain c where c: "sc_crons s tz = Some c" by (auto simp: registered_def split: option.splits)
  define t where "t = s\<lparr>sc_crons := (sc_crons s)(tz \<mapsto> co_remove ops c e), sc_entries := (sc_entries s)(i := None)\<rparr>"
  have "registered ops t z n sp j \<longleftrightarrow> registered ops s z n sp j \<and> \<not> (z = tz \<and> n = e)" for z n sp j
    using c by (cases "z = tz") (auto simp: t_def registered_def cron_lawsD(6)[OF laws])
  moreover have "(z = tz \<and> n = e) = (j = i)" if r: "registered ops s z n sp j" for z n sp j
  proof
    assume "z = tz \<and> n = e"
    with r sched_okD(3)[OF ok r0, of sp j] show "j = i" by simp
  next
    assume "j = i"
    with sched_okD(2)[OF ok r] Some te show "z = tz \<and> n = e" by simp
  qed
  ultimately have reg: "registered ops t z n sp j \<longleftrightarrow> registered ops s z n sp j \<and> j \<noteq> i" for z n sp j
    by blast
  have "sched_ok ops t"
  proof (rule sched_okI)
    show "\<exists>sp. registered ops t z n sp k" if "sc_entries t k = Some (z, n)" for k z n
      using that sched_okD(1)[OF ok, of k z n] reg by (auto simp: t_def split: if_splits)
    show "sc_entries t j = Some (z, n)" if "registered ops t z n sp j" for z n sp j
      using that sched_okD(2)[OF ok, of z n sp j] reg by (simp add: t_def)
    show "sp = sp' \<and> j = j'" if "registered ops t z n sp j" "registered ops t z n sp' j'" for z n sp sp' j j'
      using that sched_okD(3)[OF ok, of z n sp j sp' j'] reg by simp
  qed
  moreover have "drop_entry ops s i = Some t" using Some te c by (simp add: drop_entry_def t_def)
  moreover have "zone_running ops t = zone_running ops s"
    using c by (auto simp: zone_running_def t_def fun_eq_iff cron_lawsD(7)[OF laws])
  ultimately show ?thesis using reg by (simp add: t_def)
qed

text \<open>Adding an entry for a job that has none.\<close>

lemma add_entry_ok:
  assumes laws: "cron_laws ops" and ok: "sched_ok ops s" and none: "sc_entries s i = None"
    and c: "cron_for ops s tz = (s2, c)" and add: "co_add ops c spec i = Inr (c', e)"
  defines "t \<equiv> s2\<lparr>sc_crons := (sc_crons s2)(tz \<mapsto> c'), sc_entries := (sc_entries s2)(i \<mapsto> (tz, e))\<rparr>"
  shows "sched_ok ops t"
    and "registered ops t z n sp j \<longleftrightarrow> registered ops s z n sp j \<or> (z = tz \<and> n = e \<and> sp = spec \<and> j = i)"
    and "zone_running ops t = zone_running ops s"
proof -
  have s2: "sc_entries s2 = sc_entries s" "sc_crons s2 tz = Some c"
    "\<And>z. z \<noteq> tz \<Longrightarrow> sc_crons s2 z = sc_crons s z"
    "sc_crons s tz = None \<longrightarrow> co_jobs ops c = [] \<and> \<not> co_running ops c" "sc_crons s tz \<noteq> None \<longrightarrow> sc_crons s tz = Some c"
    using c cron_lawsD(1,2)[OF laws, of tz] by (auto simp: cron_for_def Let_def split: option.splits)
  have same: "registered ops s tz n sp j \<longleftrightarrow> (n, sp, j) \<in> set (co_jobs ops c)" for n sp j
    using s2(4,5) by (cases "sc_crons s tz") (auto simp: registered_def)
  show reg: "registered ops t z n sp j \<longleftrightarrow> registered ops s z n sp j \<or> (z = tz \<and> n = e \<and> sp = spec \<and> j = i)"
    for z n sp j
    using s2(3)[of z] same cron_lawsD(3)[OF laws add] by (cases "z = tz") (auto simp: t_def registered_def)
  have fresh: "\<not> registered ops s tz e sp j" for sp j
    using cron_lawsD(4)[OF laws add] same by (force simp: image_iff)
  have ent: "sc_entries t = (sc_entries s)(i \<mapsto> (tz, e))" by (simp add: t_def s2(1))
  show "sched_ok ops t"
  proof (rule sched_okI)
    show "\<exists>sp. registered ops t z n sp k" if "sc_entries t k = Some (z, n)" for k z n
      using that sched_okD(1)[OF ok, of k z n] reg by (auto simp: ent split: if_splits)
    show "sc_entries t j = Some (z, n)" if "registered ops t z n sp j" for z n sp j
      using that sched_okD(2)[OF ok, of z n sp j] reg none by (auto simp: ent)
    show "sp = sp' \<and> j = j'" if "registered ops t z n sp j" "registered ops t z n sp' j'" for z n sp sp' j j'
      using that sched_okD(3)[OF ok, of z n sp j sp' j'] fresh unfolding reg by blast
  qed
  show "zone_running ops t = zone_running ops s"
  proof
    fix z
    show "zone_running ops t z = zone_running ops s z"
      using s2 cron_lawsD(5)[OF laws add]
      by (cases "z = tz"; cases "sc_crons s tz") (auto simp: zone_running_def t_def)
  qed
qed

lemma drop_stale_ok:
  assumes laws: "cron_laws ops"
  shows "sched_ok ops s \<Longrightarrow> \<exists>t. drop_stale ops want ids s = Some t \<and> sched_ok ops t \<and>
    (\<forall>tz e sp j. registered ops t tz e sp j \<longleftrightarrow> registered ops s tz e sp j \<and> \<not> (j \<in> set ids \<and> want j = None)) \<and>
    zone_running ops t = zone_running ops s"
proof (induction ids arbitrary: s)
  case (Cons i ids)
  show ?case
  proof (cases "want i")
    case None
    obtain u where u: "drop_entry ops s i = Some u" "sched_ok ops u"
      "\<And>tz e sp j. registered ops u tz e sp j \<longleftrightarrow> registered ops s tz e sp j \<and> j \<noteq> i"
      "zone_running ops u = zone_running ops s"
      using drop_entry_ok[OF laws Cons.prems, of i] by auto
    from Cons.IH[OF u(2)] u None show ?thesis by auto
  next
    case (Some d)
    with Cons.IH[OF Cons.prems] show ?thesis by auto
  qed
qed simp

lemma add_or_replace_ok:
  assumes laws: "cron_laws ops"
  shows "sched_ok ops s \<Longrightarrow> distinct ids \<Longrightarrow> \<exists>t err. add_or_replace ops want ids s = Some (t, err) \<and> sched_ok ops t \<and>
    (\<forall>j. j \<notin> set ids \<or> want j = None \<longrightarrow> slots ops t j = slots ops s j) \<and>
    (err = None \<longrightarrow> (\<forall>j\<in>set ids. want j \<noteq> None \<longrightarrow> slots ops t j = wanted_slots want j)) \<and>
    (\<forall>j. zone_running ops t j = zone_running ops s j)"
proof (induction ids arbitrary: s)
  case (Cons i ids)
  have d: "distinct ids" "i \<notin> set ids" using Cons.prems(2) by auto
  show ?case
  proof (cases "want i")
    case None
    with Cons.IH[OF Cons.prems(1) d(1)] show ?thesis by auto
  next
    case (Some w)
    obtain u where u: "drop_entry ops s i = Some u" "sched_ok ops u" "sc_entries u i = None"
      "\<And>tz e sp j. registered ops u tz e sp j \<longleftrightarrow> registered ops s tz e sp j \<and> j \<noteq> i"
      "zone_running ops u = zone_running ops s"
      using drop_entry_ok[OF laws Cons.prems(1), of i] by auto
    have su: "slots ops u j = (if j = i then {} else slots ops s j)" for j
      using u(4) by (auto simp: slots_def)
    show ?thesis
    proof (cases "sd_enabled w")
      case False
      obtain t err where t: "add_or_replace ops want ids u = Some (t, err)" "sched_ok ops t"
        "\<And>j. j \<notin> set ids \<or> want j = None \<Longrightarrow> slots ops t j = slots ops u j"
        "err = None \<Longrightarrow> \<forall>j\<in>set ids. want j \<noteq> None \<longrightarrow> slots ops t j = wanted_slots want j"
        "\<And>j. zone_running ops t j = zone_running ops u j"
        using Cons.IH[OF u(2) d(1)] by blast
      have "slots ops t i = wanted_slots want i" using t(3)[of i] d(2) su Some False by (simp add: wanted_slots_def)
      with t su u Some False show ?thesis by (intro exI[of _ t] exI[of _ err]) auto
    next
      case True
      obtain s2 c where c: "cron_for ops u (sd_timezone w) = (s2, c)" by fastforce
      show ?thesis
      proof (cases "co_add ops c (sd_schedule_cron w) i")
        case (Inl err)
        have r: "registered ops s2 = registered ops u" "sc_entries s2 = sc_entries u" "zone_running ops s2 = zone_running ops u"
          using c cron_lawsD(1,2)[OF laws, of "sd_timezone w"]
          by (auto simp: cron_for_def Let_def registered_def zone_running_def fun_eq_iff split: option.splits if_splits)
        then have "sched_ok ops s2" "slots ops s2 = slots ops u"
          using u(2) by (auto simp: sched_ok_def slots_def fun_eq_iff)
        with Some True u su c Inl r show ?thesis by (intro exI[of _ s2] exI[of _ "Some err"]) auto
      next
        case (Inr ce)
        obtain c' e where ce: "ce = (c', e)" by (cases ce)
        define v where "v = s2\<lparr>sc_crons := (sc_crons s2)(sd_timezone w \<mapsto> c'), sc_entries := (sc_entries s2)(i \<mapsto> (sd_timezone w, e))\<rparr>"
        note add = add_entry_ok[OF laws u(2,3) c Inr[unfolded ce], folded v_def]
        have sv: "slots ops v j = (if j = i then {(sd_timezone w, sd_schedule_cron w)} else slots ops s j)" for j
          using su[of j] by (auto simp: slots_def add(2))
        obtain t err where t: "add_or_replace ops want ids v = Some (t, err)" "sched_ok ops t"
          "\<And>j. j \<notin> set ids \<or> want j = None \<Longrightarrow> slots ops t j = slots ops v j"
          "err = None \<Longrightarrow> \<forall>j\<in>set ids. want j \<noteq> None \<longrightarrow> slots ops t j = wanted_slots want j"
          "\<And>j. zone_running ops t j = zone_running ops v j"
          using Cons.IH[OF add(1) d(1)] by blast
        have "slots ops t i = wanted_slots want i" using t(3)[of i] d(2) sv Some True by (simp add: wanted_slots_def)
        moreover have "add_or_replace ops want (i # ids) s = Some (t, err)"
          using Some True u(1) c Inr ce t(1) by (simp add: v_def)
        ultimately show ?thesis using t sv add(3) u(5) Some by (intro exI[of _ t] exI[of _ err]) auto
      qed
    qed
  qed
qed simp


lemma sched_apply_ok:
  assumes laws: "cron_laws ops" and ok: "sched_ok ops s"
    and stale: "set stale = dom (sc_entries s)" and order: "distinct order" "set order = sd_id ` set jobs"
  shows "\<exists>t err. sched_apply ops stale order jobs s = Some (t, err) \<and> sched_ok ops t \<and>
    zone_running ops t = zone_running ops s \<and>
    (err = None \<longrightarrow> (\<forall>j. slots ops t j = wanted_slots (want_of jobs) j))"
proof -
  let ?w = "want_of jobs"
  have dom: "?w j \<noteq> None \<longleftrightarrow> j \<in> set order" for j
  proof -
    have "dom ?w = sd_id ` set jobs" by (simp add: want_of_def dom_map_of_conv_image_fst image_image)
    then show ?thesis by (auto simp: order(2) dom_def)
  qed
  obtain u where u: "drop_stale ops ?w stale s = Some u" "sched_ok ops u"
    "\<And>tz e sp j. registered ops u tz e sp j \<longleftrightarrow> registered ops s tz e sp j \<and> \<not> (j \<in> set stale \<and> ?w j = None)"
    "zone_running ops u = zone_running ops s"
    using drop_stale_ok[OF laws ok, of ?w stale] by auto
  obtain t err where t: "add_or_replace ops ?w order u = Some (t, err)" "sched_ok ops t"
    "\<And>j. j \<notin> set order \<or> ?w j = None \<Longrightarrow> slots ops t j = slots ops u j"
    "err = None \<Longrightarrow> \<forall>j\<in>set order. ?w j \<noteq> None \<longrightarrow> slots ops t j = wanted_slots ?w j"
    "\<And>j. zone_running ops t j = zone_running ops u j"
    using add_or_replace_ok[OF laws u(2) order(1)] by blast
  have "slots ops u j = {}" if "?w j = None" for j
  proof -
    have "\<not> registered ops u tz e sp j" for tz e sp
      using u(3)[of tz e sp j] that sched_okD(2)[OF ok, of tz e sp j] stale by auto
    then show ?thesis by (simp add: slots_def)
  qed
  then have "slots ops t j = wanted_slots ?w j" if "err = None" for j
    using t(3)[of j] t(4)[OF that] dom[of j] by (cases "?w j") (auto simp: wanted_slots_def)
  moreover have "zone_running ops t = zone_running ops s" using t(5) u(4) by auto
  ultimately show ?thesis using t(1,2) u(1) by (auto simp: sched_apply_def)
qed

lemma start_stop_ok:
  assumes "cron_laws ops"
  shows "registered ops (sched_start ops s) = registered ops s" "registered ops (sched_stop ops s) = registered ops s"
    and "sched_ok ops (sched_start ops s) = sched_ok ops s" "sched_ok ops (sched_stop ops s) = sched_ok ops s"
    and "zone_running ops (sched_start ops s) tz \<longleftrightarrow> sc_crons s tz \<noteq> None"
    and "\<not> zone_running ops (sched_stop ops s) tz"
  using cron_lawsD(8-11)[OF assms]
  by (auto simp: registered_def sched_start_def sched_stop_def sched_ok_def zone_running_def fun_eq_iff
      split: option.splits)

section \<open>A cron library\<close>

text \<open>An instance of the parameter: entries in a list, numbered in order; the spec \<open>bad\<close> is refused.\<close>

record list_cron =
  lc_next :: nat
  lc_entries :: "(nat \<times> string \<times> string) list"
  lc_running :: bool

definition list_cron_ops :: "list_cron cron_ops" where
  "list_cron_ops =
     \<lparr>co_new = (\<lambda>_. \<lparr>lc_next = 0, lc_entries = [], lc_running = False\<rparr>),
      co_add = (\<lambda>c sp j. if sp = ''bad'' then Inl ''bad spec''
                 else let n = Suc (foldr max (map fst (lc_entries c)) (lc_next c))
                      in Inr (c\<lparr>lc_next := n, lc_entries := (n, sp, j) # lc_entries c\<rparr>, n)),
      co_remove = (\<lambda>c e. c\<lparr>lc_entries := filter (\<lambda>x. fst x \<noteq> e) (lc_entries c)\<rparr>),
      co_start = (\<lambda>c. c\<lparr>lc_running := True\<rparr>),
      co_stop = (\<lambda>c. c\<lparr>lc_running := False\<rparr>),
      co_jobs = lc_entries,
      co_running = lc_running\<rparr>"

lemma foldr_max_le: "x \<in> set xs \<Longrightarrow> x \<le> foldr max xs (n :: nat)"
  by (induction xs) auto

lemma list_cron_laws: "cron_laws list_cron_ops"
proof -
  have "Suc (foldr max (map fst (lc_entries c)) (lc_next c)) \<notin> fst ` set (lc_entries c)" for c
  proof
    assume "Suc (foldr max (map fst (lc_entries c)) (lc_next c)) \<in> fst ` set (lc_entries c)"
    then have "Suc (foldr max (map fst (lc_entries c)) (lc_next c)) \<in> set (map fst (lc_entries c))" by simp
    from foldr_max_le[OF this, of "lc_next c"] show False by simp
  qed
  then show ?thesis by (auto simp: cron_laws_def list_cron_ops_def Let_def split: if_splits)
qed

section \<open>Properties\<close>

text \<open>C4. An \<open>Apply\<close> that reports no error leaves exactly the enabled jobs of the given set
  scheduled, each once, in its own zone and with its own spec, whatever was scheduled before and in
  whatever order Go walks its maps; and no call panics.\<close>

theorem apply_schedules_exactly:
  assumes "cron_laws ops" and "sched_ok ops s" and "set stale = dom (sc_entries s)"
    and "distinct order" and "set order = sd_id ` set jobs"
  shows "\<exists>t err. sched_apply ops stale order jobs s = Some (t, err) \<and> sched_ok ops t \<and>
    (err = None \<longrightarrow> (\<forall>j. slots ops t j = wanted_slots (want_of jobs) j))"
  using sched_apply_ok[OF assms] by blast

definition demo_sched_job :: "string \<Rightarrow> sched_job" where
  "demo_sched_job tz = \<lparr>sd_id = ''j'', sd_schedule_cron = ''* * * * *'', sd_timezone = tz, sd_enabled = True\<rparr>"

theorem apply_schedules_exactly_witness:
  "\<exists>t. sched_apply list_cron_ops [] [''j''] [demo_sched_job ''UTC''] new_scheduler = Some (t, None) \<and>
     slots list_cron_ops t ''j'' = {(''UTC'', ''* * * * *'')}"
proof -
  obtain t where t: "sched_apply list_cron_ops [] [''j''] [demo_sched_job ''UTC''] new_scheduler = Some (t, None)"
    by (simp add: sched_apply_def want_of_def demo_sched_job_def drop_entry_def new_scheduler_def cron_for_def
        list_cron_ops_def Let_def)
  from apply_schedules_exactly[OF list_cron_laws sched_ok_new, of "[]" "[''j'']" "[demo_sched_job ''UTC'']"] t
  have "slots list_cron_ops t ''j'' = wanted_slots (want_of [demo_sched_job ''UTC'']) ''j''"
    by (simp add: new_scheduler_def demo_sched_job_def)
  with t show ?thesis by (simp add: wanted_slots_def want_of_def demo_sched_job_def)
qed

text \<open>A job can fire only if its zone's loop runs, and \<open>Apply\<close> starts no loop: after a
  \<open>Start\<close>, any job applied in a zone that had no instance at that moment never fires, until the next
  \<open>Start\<close>.\<close>

theorem late_zone_never_fires:
  assumes "cron_laws ops" and "sched_ok ops s" and "sc_crons s tz = None"
    and "set stale = dom (sc_entries s)" and "distinct order" and "set order = sd_id ` set jobs"
    and "sched_apply ops stale order jobs (sched_start ops s) = Some (t, err)"
  shows "(tz, sp) \<notin> live_slots ops t j"
proof -
  note ss = start_stop_ok[OF assms(1), of s]
  have ok: "sched_ok ops (sched_start ops s)" using ss(3) assms(2) by simp
  have st: "set stale = dom (sc_entries (sched_start ops s))" using assms(4) by (simp add: sched_start_def)
  from sched_apply_ok[OF assms(1) ok st assms(5,6)] assms(7)
  have "zone_running ops t = zone_running ops (sched_start ops s)" by auto
  with ss(5)[of tz] assms(3) show ?thesis by (simp add: live_slots_def)
qed

theorem late_zone_never_fires_witness:
  "\<exists>t. sched_apply list_cron_ops [] [''j''] [demo_sched_job ''UTC''] (sched_start list_cron_ops new_scheduler) = Some (t, None) \<and>
     (''UTC'', ''* * * * *'') \<notin> live_slots list_cron_ops t ''j''"
proof -
  obtain t where t: "sched_apply list_cron_ops [] [''j''] [demo_sched_job ''UTC''] (sched_start list_cron_ops new_scheduler) = Some (t, None)"
    by (simp add: sched_apply_def want_of_def demo_sched_job_def drop_entry_def new_scheduler_def cron_for_def
        list_cron_ops_def sched_start_def Let_def)
  from late_zone_never_fires[OF list_cron_laws sched_ok_new _ _ _ _ t, of "''UTC''" "''* * * * *''" "''j''"] t
  show ?thesis by (simp add: new_scheduler_def demo_sched_job_def)
qed

end
