(* ===== verification/Paths.thy ===== *)
theory Paths
  imports Contracts
begin

text \<open>
  Slash-separated paths as Go's \<open>path\<close> and (on Unix) \<open>path/filepath\<close> packages treat them:
  splitting, \<open>Clean\<close>, \<open>Join\<close>, \<open>IsAbs\<close>, \<open>Base\<close>. A path is clean when its elements are not
  empty, not a dot, and a double dot occurs only at the front of a relative path.
\<close>

section \<open>Splitting at a byte\<close>

fun split_char :: "char \<Rightarrow> string \<Rightarrow> string list" where
  "split_char c [] = [[]]"
| "split_char c (x # xs) =
     (if x = c then [] # split_char c xs
      else (case split_char c xs of [] \<Rightarrow> [[x]] | y # ys \<Rightarrow> (x # y) # ys))"

lemma split_char_nonempty [simp]: "split_char c s \<noteq> []"
  by (induction s) (auto split: list.splits)

lemma split_char_no_sep: "p \<in> set (split_char c s) \<Longrightarrow> c \<notin> set p"
  by (induction s arbitrary: p) (auto split: list.splits if_splits)

lemma split_char_id: "c \<notin> set s \<Longrightarrow> split_char c s = [s]"
  by (induction s) auto

lemma split_char_append: "c \<notin> set a \<Longrightarrow> split_char c (a @ c # b) = a # split_char c b"
  by (induction a) auto

lemma str_join_Cons: "xs \<noteq> [] \<Longrightarrow> str_join sep (x # xs) = x @ sep @ str_join sep xs"
  by (cases xs) auto

lemma split_join: "ps \<noteq> [] \<Longrightarrow> (\<And>p. p \<in> set ps \<Longrightarrow> c \<notin> set p) \<Longrightarrow> split_char c (str_join [c] ps) = ps"
proof (induction ps)
  case (Cons p ps)
  then show ?case
    by (cases "ps = []") (auto simp: split_char_id str_join_Cons split_char_append)
qed simp

lemma join_split: "str_join [c] (split_char c s) = s"
proof (induction s)
  case (Cons x xs)
  obtain y ys where y: "split_char c xs = y # ys" by (cases "split_char c xs") auto
  with Cons show ?case by (cases ys) auto
qed simp

section \<open>Clean\<close>

definition dot :: string where "dot = ''.''"
definition dotdot :: string where "dotdot = ''..''"
abbreviation slash :: char where "slash \<equiv> CHR ''/''"

definition rooted :: "string \<Rightarrow> bool" where
  "rooted s \<longleftrightarrow> (case s of [] \<Rightarrow> False | c # _ \<Rightarrow> c = slash)"

definition clean_step :: "bool \<Rightarrow> string list \<Rightarrow> string \<Rightarrow> string list" where
  "clean_step root st c =
     (if c = [] \<or> c = dot then st
      else if c = dotdot
      then (if st \<noteq> [] \<and> last st \<noteq> dotdot then butlast st else if root then st else st @ [dotdot])
      else st @ [c])"

definition clean_elems :: "bool \<Rightarrow> string list \<Rightarrow> string list" where
  "clean_elems root cs = foldl (clean_step root) [] cs"

definition path_clean :: "string \<Rightarrow> string" where
  "path_clean s =
     (let st = clean_elems (rooted s) (split_char slash s)
      in if rooted s then slash # str_join [slash] st
         else if st = [] then dot else str_join [slash] st)"

definition path_join :: "string list \<Rightarrow> string" where
  "path_join ps =
     (let qs = filter (\<lambda>p. p \<noteq> []) ps
      in if qs = [] then [] else path_clean (str_join [slash] qs))"

text \<open>\<open>path.Dir\<close> and \<open>filepath.Dir\<close>\<close>

definition path_dir :: "string \<Rightarrow> string" where
  "path_dir s = path_clean (rev (dropWhile (\<lambda>c. c \<noteq> slash) (rev s)))"

definition path_base :: "string \<Rightarrow> string" where
  "path_base s =
     (if s = [] then dot
      else let t = trim_right_set s [slash]
           in if t = [] then [slash]
              else (case after_last slash t of None \<Rightarrow> t | Some b \<Rightarrow> b))"

section \<open>Clean paths\<close>

definition plain_elem :: "string \<Rightarrow> bool" where
  "plain_elem c \<longleftrightarrow> c \<noteq> [] \<and> c \<noteq> dot \<and> c \<noteq> dotdot \<and> slash \<notin> set c"

definition clean_list :: "bool \<Rightarrow> string list \<Rightarrow> bool" where
  "clean_list root st \<longleftrightarrow>
     (\<exists>n ps. st = replicate n dotdot @ ps \<and> (root \<longrightarrow> n = 0) \<and> list_all plain_elem ps)"

lemma clean_list_Nil [simp]: "clean_list root []"
  unfolding clean_list_def by (rule exI[of _ 0], rule exI[of _ "[]"]) simp

lemma clean_step_list:
  assumes c: "clean_list root st" and e: "slash \<notin> set e"
  shows "clean_list root (clean_step root st e)"
proof -
  obtain n ps where st: "st = replicate n dotdot @ ps" "root \<longrightarrow> n = 0" "list_all plain_elem ps"
    using c by (auto simp: clean_list_def)
  consider "e = [] \<or> e = dot" | "e = dotdot" | "plain_elem e" using e by (auto simp: plain_elem_def)
  then show ?thesis
  proof cases
    case 1
    with c show ?thesis by (simp add: clean_step_def)
  next
    case 2
    have ne: "dotdot \<noteq> []" "dotdot \<noteq> dot" by (simp_all add: dotdot_def dot_def)
    show ?thesis
    proof (cases "ps = []")
      case True
      then have l: "st \<noteq> [] \<Longrightarrow> last st = dotdot" using st(1) by (cases n) auto
      have "clean_step root st e = (if root then st else replicate (Suc n) dotdot)"
        using 2 ne l st(1) True by (auto simp: clean_step_def replicate_append_same)
      moreover have "clean_list False (replicate (Suc n) dotdot)"
        unfolding clean_list_def by (rule exI[of _ "Suc n"], rule exI[of _ "[]"]) simp
      ultimately show ?thesis using c by (cases root) auto
    next
      case False
      then have "plain_elem (last ps)" using st(3) by (simp add: list_all_iff)
      then have "clean_step root st e = replicate n dotdot @ butlast ps"
        using 2 ne False st(1) by (auto simp: clean_step_def plain_elem_def butlast_append)
      moreover have "list_all plain_elem (butlast ps)"
        using st(3) by (auto simp: list_all_iff dest: in_set_butlastD)
      ultimately show ?thesis using st(2) by (auto simp: clean_list_def)
    qed
  next
    case 3
    then have "clean_step root st e = replicate n dotdot @ (ps @ [e])"
      using st(1) by (auto simp: clean_step_def plain_elem_def)
    moreover have "list_all plain_elem (ps @ [e])" using 3 st(3) by simp
    ultimately show ?thesis using st(2) unfolding clean_list_def by blast
  qed
qed

lemma clean_elems_list:
  assumes "\<And>e. e \<in> set cs \<Longrightarrow> slash \<notin> set e"
  shows "clean_list root (clean_elems root cs)"
proof -
  have "clean_list root (foldl (clean_step root) st cs)" if "clean_list root st" for st
    using assms that by (induction cs arbitrary: st) (auto simp: clean_step_list)
  then show ?thesis by (simp add: clean_elems_def)
qed

lemma foldl_plain: "list_all plain_elem ps \<Longrightarrow> foldl (clean_step root) st ps = st @ ps"
  by (induction ps arbitrary: st) (auto simp: clean_step_def plain_elem_def)

lemma foldl_dotdots: "foldl (clean_step False) (replicate m dotdot) (replicate n dotdot) = replicate (m + n) dotdot"
proof (induction n arbitrary: m)
  case (Suc n)
  have "clean_step False (replicate m dotdot) dotdot = replicate (Suc m) dotdot"
    by (cases m) (auto simp: clean_step_def dotdot_def dot_def replicate_append_same)
  with Suc[of "Suc m"] show ?case by simp
qed simp

text \<open>Cleaning what is clean changes nothing.\<close>

lemma clean_elems_id: "clean_list root st \<Longrightarrow> clean_elems root st = st"
proof -
  assume "clean_list root st"
  then obtain n ps where st: "st = replicate n dotdot @ ps" "root \<longrightarrow> n = 0" "list_all plain_elem ps"
    by (auto simp: clean_list_def)
  have "foldl (clean_step root) [] (replicate n dotdot) = replicate n dotdot"
    using st(2) foldl_dotdots[of 0 n] by (cases root) auto
  with foldl_plain[OF st(3)] st(1) show ?thesis by (simp add: clean_elems_def)
qed

lemma clean_list_no_slash:
  assumes "clean_list root st" "e \<in> set st"
  shows "slash \<notin> set e \<and> e \<noteq> []"
proof -
  obtain n ps where "st = replicate n dotdot @ ps" "list_all plain_elem ps"
    using assms(1) by (auto simp: clean_list_def)
  with assms(2) have "e = dotdot \<or> plain_elem e" by (auto simp: list_all_iff)
  then show ?thesis by (auto simp: plain_elem_def dotdot_def)
qed

lemma path_clean_split:
  "clean_list (rooted s) (clean_elems (rooted s) (split_char slash s))"
  by (rule clean_elems_list) (erule split_char_no_sep)

lemma clean_elems_skip: "clean_elems root ([] # cs) = clean_elems root cs" "clean_elems root (dot # cs) = clean_elems root cs"
  by (simp_all add: clean_elems_def clean_step_def)

lemma path_clean_idem [simp]: "path_clean (path_clean s) = path_clean s"
proof -
  define st where "st = clean_elems (rooted s) (split_char slash s)"
  have c: "clean_list (rooted s) st" unfolding st_def by (rule path_clean_split)
  have sj: "st \<noteq> [] \<Longrightarrow> split_char slash (str_join [slash] st) = st"
    using clean_list_no_slash[OF c] by (intro split_join) auto
  show ?thesis
  proof (cases "rooted s")
    case True
    then have e: "path_clean s = slash # str_join [slash] st" by (simp add: path_clean_def st_def Let_def)
    have "clean_elems True (split_char slash (slash # str_join [slash] st)) = clean_elems True (split_char slash (str_join [slash] st))"
      by (simp add: clean_elems_skip)
    also have "\<dots> = st"
    proof (cases "st = []")
      case True
      then show ?thesis by (simp add: clean_elems_def clean_step_def)
    next
      case False
      with sj clean_elems_id[of True st] c \<open>rooted s\<close> show ?thesis by simp
    qed
    finally have "clean_elems True (split_char slash (slash # str_join [slash] st)) = st" .
    then show ?thesis unfolding e by (simp add: path_clean_def rooted_def)
  next
    case False
    show ?thesis
    proof (cases "st = []")
      case True
      with False have "path_clean s = dot" by (simp add: path_clean_def st_def Let_def)
      then show ?thesis
        by (simp add: path_clean_def rooted_def dot_def clean_elems_def clean_step_def)
    next
      case ne: False
      with False have e: "path_clean s = str_join [slash] st" by (simp add: path_clean_def st_def Let_def)
      have "\<not> rooted (str_join [slash] st)"
      proof -
        obtain x xs where x: "st = x # xs" using ne by (cases st) auto
        then have "x \<noteq> []" "slash \<notin> set x" using clean_list_no_slash[OF c, of x] by auto
        then show ?thesis using x by (cases x; cases xs) (auto simp: rooted_def)
      qed
      then show ?thesis using sj[OF ne] ne c False clean_elems_id[of False st]
        unfolding e by (simp add: path_clean_def)
    qed
  qed
qed

interpretation clean_paths: normalizer path_clean "\<lambda>s. path_clean s = s"
  by unfold_locales simp_all

end
