(* ===== verification/Executor.thy ===== *)
theory Executor
  imports Paths "HOL-Library.Word"
begin

text \<open>
  Running one job on the agent's machine: \<open>agent/internal/osuser/osuser.go\<close> resolves the user,
  \<open>agent/internal/executor/command.go\<close> builds the command line and the environment, and
  \<open>executor.go\<close> runs it, numbers its output lines and classifies how it ended. What the operating
  system answers (the user database, the process, its output) is an argument.
\<close>

section \<open>Users\<close>

record os_user =
  ou_username :: string
  ou_uid :: string
  ou_gid :: string
  ou_home :: string
  ou_groups :: "string list option"

datatype lookup_error = UnknownUser | LookupFailed string

record credential =
  cd_username :: string
  cd_uid :: "32 word"
  cd_gid :: "32 word"
  cd_groups :: "32 word list"
  cd_home :: string
  cd_shell :: string

text \<open>\<open>strconv.ParseUint(s, 10, 32)\<close>; the errors are the two of the package.\<close>

definition digit_nat :: "char \<Rightarrow> nat" where
  "digit_nat c = of_char c - 48"

definition digits_nat :: "string \<Rightarrow> nat" where
  "digits_nat s = foldl (\<lambda>n c. n * 10 + digit_nat c) 0 s"

definition parse_uint32 :: "string \<Rightarrow> (string, 32 word) res" where
  "parse_uint32 s =
     (if s = [] \<or> \<not> list_all is_digit s then Inl ''invalid syntax''
      else if digits_nat s \<ge> 2 ^ 32 then Inl ''value out of range''
      else Inr (of_nat (digits_nat s)))"

record os_env =
  oe_lookup :: "string \<Rightarrow> lookup_error + os_user"
  oe_uid :: "32 word"
  oe_euid :: "32 word"
  oe_shell :: "string \<Rightarrow> string"

definition can_switch_to :: "os_env \<Rightarrow> 32 word \<Rightarrow> bool" where
  "can_switch_to os uid = (oe_euid os = 0)"

definition supplementary_groups :: "os_user \<Rightarrow> 32 word list" where
  "supplementary_groups u =
     (case ou_groups u of
        None \<Rightarrow> []
      | Some ids \<Rightarrow> List.map_filter (\<lambda>g. case parse_uint32 g of Inl e \<Rightarrow> None | Inr n \<Rightarrow> Some n) ids)"

text \<open>\<open>Resolve\<close>: None is the nil credential, "stay as the agent user".\<close>

definition resolve_user :: "os_env \<Rightarrow> string \<Rightarrow> (string, credential option) res" where
  "resolve_user os name =
     (if name = [] then Inr None
      else (case oe_lookup os name of
          Inl UnknownUser \<Rightarrow> Inl (''no such user on this server: '' @ name)
        | Inl (LookupFailed e) \<Rightarrow> Inl e
        | Inr u \<Rightarrow>
            (case parse_uint32 (ou_uid u) of
               Inl e \<Rightarrow> Inl (''unusable uid for '' @ name @ '': '' @ e)
             | Inr uid \<Rightarrow>
                 (case parse_uint32 (ou_gid u) of
                    Inl e \<Rightarrow> Inl (''unusable gid for '' @ name @ '': '' @ e)
                  | Inr gid \<Rightarrow>
                      if uid = oe_uid os then Inr None
                      else if \<not> can_switch_to os uid
                      then Inl (''agent is not running as root, so it cannot switch users (wanted '' @ name @ '')'')
                      else Inr (Some \<lparr>cd_username = ou_username u, cd_uid = uid, cd_gid = gid,
                             cd_groups = supplementary_groups u, cd_home = ou_home u,
                             cd_shell = oe_shell os (ou_username u)\<rparr>)))))"

text \<open>\<open>Credential.Env\<close> as pairs; every entry of the source has an equals sign.\<close>

definition cred_env :: "credential option \<Rightarrow> (string \<times> string) list" where
  "cred_env c =
     (case c of
        None \<Rightarrow> []
      | Some cr \<Rightarrow>
          let home = (if cd_home cr = [] then ''/tmp'' else cd_home cr);
              gopath = path_join [home, ''go'']
          in [(''USER'', cd_username cr), (''LOGNAME'', cd_username cr), (''HOME'', home), (''SHELL'', cd_shell cr),
              (''GOPATH'', gopath), (''GOMODCACHE'', path_join [gopath, ''pkg'', ''mod'']),
              (''GOCACHE'', path_join [home, ''.cache'', ''go-build''])])"

section \<open>The command\<close>

record exec_job =
  ej_interpreter :: string
  ej_script_body :: string
  ej_env :: "(string \<times> string) list"
  ej_working_dir :: string
  ej_run_as_user :: string
  ej_timeout_seconds :: int
  ej_cpu_quota_percent :: int
  ej_memory_max_mb :: int
  ej_tasks_max :: int
  ej_io_weight :: int

definition job_limited :: "exec_job \<Rightarrow> bool" where
  "job_limited j \<longleftrightarrow> ej_cpu_quota_percent j > 0 \<or> ej_memory_max_mb j > 0 \<or> ej_tasks_max j > 0 \<or> ej_io_weight j > 0"

definition limit_args :: "exec_job \<Rightarrow> string list" where
  "limit_args j =
     (if ej_cpu_quota_percent j > 0 then [''-p'', ''CPUQuota='' @ itoa (ej_cpu_quota_percent j) @ ''%''] else []) @
     (if ej_memory_max_mb j > 0 then [''-p'', ''MemoryMax='' @ itoa (ej_memory_max_mb j) @ ''M''] else []) @
     (if ej_tasks_max j > 0 then [''-p'', ''TasksMax='' @ itoa (ej_tasks_max j)] else []) @
     (if ej_io_weight j > 0 then [''-p'', ''IOWeight='' @ itoa (ej_io_weight j)] else [])"

text \<open>\<open>systemd\<close> is the answer of \<open>systemdUsable\<close>, which asks the PATH and the file system.\<close>

definition build_command :: "bool \<Rightarrow> string \<Rightarrow> exec_job \<Rightarrow> string \<times> string list" where
  "build_command systemd interp j =
     (if \<not> job_limited j then (interp, [''-c'', ej_script_body j])
      else if \<not> systemd then (interp, [''-c'', ej_script_body j])
      else (''systemd-run'', [''--quiet'', ''--scope'', ''--collect''] @ limit_args j @
             [''--'', interp, ''-c'', ej_script_body j]))"

fun index_of :: "'a \<Rightarrow> 'a list \<Rightarrow> nat option" where
  "index_of x [] = None"
| "index_of x (y # ys) = (if y = x then Some 0 else map_option Suc (index_of x ys))"

definition user_args :: "credential \<Rightarrow> string list" where
  "user_args c = [''--uid='' @ cd_username c, ''--gid='' @ nat_str (unat (cd_gid c)),
                  ''-p'', ''WorkingDirectory='' @ cd_home c]"

definition with_user :: "string \<Rightarrow> string list \<Rightarrow> credential option \<Rightarrow> string list" where
  "with_user prog args c =
     (case c of
        None \<Rightarrow> args
      | Some cr \<Rightarrow>
          if prog \<noteq> ''systemd-run'' then args
          else let sep = (case index_of ''--'' args of None \<Rightarrow> length args | Some i \<Rightarrow> i)
               in take sep args @ user_args cr @ drop sep args)"

section \<open>The environment\<close>

definition default_path :: string where
  "default_path = ''/usr/local/sbin:/usr/local/bin:/usr/sbin:/usr/bin:/sbin:/bin''"

text \<open>\<open>getenv\<close> is the agent's own environment; an unset variable reads as the empty string.\<close>

definition path_or_default :: "(string \<Rightarrow> string) \<Rightarrow> string" where
  "path_or_default getenv = (if getenv ''PATH'' \<noteq> [] then getenv ''PATH'' else default_path)"

definition env_map :: "(string \<Rightarrow> string) \<Rightarrow> (string \<times> string) list \<Rightarrow> credential option \<Rightarrow> string \<rightharpoonup> string" where
  "env_map getenv job_env c =
     map_of [(''PATH'', path_or_default getenv), (''HOME'', getenv ''HOME''),
             (''LANG'', getenv ''LANG''), (''TZ'', getenv ''TZ'')]
     ++ map_of (cred_env c) ++ map_of job_env"

text \<open>\<open>buildEnv\<close>: the variables, without those that are empty. Go emits them in any order, so the
  result is the map itself.\<close>

definition build_env :: "(string \<Rightarrow> string) \<Rightarrow> (string \<times> string) list \<Rightarrow> credential option \<Rightarrow> string \<rightharpoonup> string" where
  "build_env getenv job_env c =
     (\<lambda>k. case env_map getenv job_env c k of
            None \<Rightarrow> None | Some v \<Rightarrow> if v = [] then None else Some v)"

section \<open>Running\<close>

type_synonym chunk = "string \<times> int \<times> string"

record exec_result =
  er_status :: string
  er_exit_code :: int
  er_duration_ms :: int
  er_err :: string
  er_notes :: "string list"

datatype wait_status = ExitedOk | Signaled int string | Exited int string | WaitFailed string

text \<open>The \<open>exec.Cmd\<close> that is started: program, arguments, directory, environment, and the ids that
  \<open>SysProcAttr\<close> puts the child under (None: those of the agent), with the deadline in seconds.\<close>

record command =
  cm_prog :: string
  cm_args :: "string list"
  cm_dir :: string
  cm_env :: "string \<rightharpoonup> string"
  cm_attr :: "(32 word \<times> 32 word \<times> 32 word list) option"
  cm_timeout :: int

text \<open>What starting a command meets: whether \<open>Start\<close> fails (and with \<open>EPERM\<close>), the lines as the two
  pumps read them, in the order their calls of the sink interleave, and how the process ends.\<close>

record process =
  pr_start_error :: "(bool \<times> string) option"
  pr_lines :: "(bool \<times> string) list"
  pr_deadline :: bool
  pr_canceled :: bool
  pr_wait :: wait_status
  pr_duration_ms :: int

record run_env =
  re_os :: os_env
  re_systemd :: bool
  re_getenv :: "string \<Rightarrow> string"
  re_process :: "command \<Rightarrow> process"
  re_duration_ms :: int

text \<open>\<open>pumpLines\<close> of both pipes: a line of standard output carries the flag False.\<close>

fun pump_lines :: "int \<Rightarrow> int \<Rightarrow> (bool \<times> string) list \<Rightarrow> chunk list" where
  "pump_lines so se [] = []"
| "pump_lines so se ((err, l) # ls) =
     (if err then (''stderr'', se, l) # pump_lines so (se + 1) ls
      else (''stdout'', so, l) # pump_lines (so + 1) se ls)"

fun note_chunks :: "int \<Rightarrow> string list \<Rightarrow> chunk list" where
  "note_chunks i [] = []"
| "note_chunks i (n # ns) = (''stderr'', i, ''croncompose: '' @ n) # note_chunks (i + 1) ns"

definition start_error :: "bool \<times> string \<Rightarrow> credential option \<Rightarrow> string" where
  "start_error e c =
     (case c of
        Some cr \<Rightarrow> if fst e
          then ''could not switch to user '' @ cd_username cr @ '': '' @ snd e
               @ '' (the agent must run as root to change users)''
          else snd e
      | None \<Rightarrow> snd e)"

definition run_notes :: "bool \<Rightarrow> exec_job \<Rightarrow> string list" where
  "run_notes systemd j =
     (if job_limited j \<and> fst (build_command systemd (if ej_interpreter j = [] then ''bash'' else ej_interpreter j) j) \<noteq> ''systemd-run''
      then [''resource limits requested but systemd-run is not available; running unlimited''] else [])"

definition end_result :: "process \<Rightarrow> string list \<Rightarrow> exec_result" where
  "end_result x notes =
     (if pr_deadline x
      then \<lparr>er_status = ''timed_out'', er_exit_code = 0, er_duration_ms = pr_duration_ms x,
            er_err = ''timeout exceeded'', er_notes = notes\<rparr>
      else if pr_canceled x
      then \<lparr>er_status = ''canceled'', er_exit_code = 0, er_duration_ms = pr_duration_ms x,
            er_err = ''canceled'', er_notes = notes\<rparr>
      else (case pr_wait x of
          ExitedOk \<Rightarrow> \<lparr>er_status = ''succeeded'', er_exit_code = 0, er_duration_ms = pr_duration_ms x,
                       er_err = [], er_notes = notes\<rparr>
        | Signaled sig name \<Rightarrow> \<lparr>er_status = ''failed'', er_exit_code = - sig, er_duration_ms = pr_duration_ms x,
                       er_err = name, er_notes = notes\<rparr>
        | Exited code msg \<Rightarrow> \<lparr>er_status = ''failed'', er_exit_code = code, er_duration_ms = pr_duration_ms x,
                       er_err = msg, er_notes = notes\<rparr>
        | WaitFailed msg \<Rightarrow> \<lparr>er_status = ''failed'', er_exit_code = 0, er_duration_ms = pr_duration_ms x,
                       er_err = msg, er_notes = notes\<rparr>))"

text \<open>The deadline the run is given, in seconds: an hour where the job names none.\<close>

definition run_timeout :: "exec_job \<Rightarrow> int" where
  "run_timeout j = (if ej_timeout_seconds j \<le> 0 then 60 * 60 else ej_timeout_seconds j)"

definition sys_proc_attr :: "credential option \<Rightarrow> (32 word \<times> 32 word \<times> 32 word list) option" where
  "sys_proc_attr c = (case c of None \<Rightarrow> None | Some cr \<Rightarrow> Some (cd_uid cr, cd_gid cr, cd_groups cr))"

definition job_command :: "run_env \<Rightarrow> exec_job \<Rightarrow> credential option \<Rightarrow> command" where
  "job_command x j c =
     (let interp = (if ej_interpreter j = [] then ''bash'' else ej_interpreter j);
          (prog, args) = build_command (re_systemd x) interp j
      in \<lparr>cm_prog = prog, cm_args = with_user prog args c,
          cm_dir = (if ej_working_dir j = [] then (case c of None \<Rightarrow> [] | Some cr \<Rightarrow> cd_home cr) else ej_working_dir j),
          cm_env = build_env (re_getenv x) (ej_env j) c,
          cm_attr = (if prog \<noteq> ''systemd-run'' then sys_proc_attr c else None),
          cm_timeout = run_timeout j\<rparr>)"

text \<open>\<open>Run\<close>: the command it started, if it got that far, its lines and its result\<close>

definition executor_start :: "run_env \<Rightarrow> exec_job \<Rightarrow> command option \<times> chunk list \<times> exec_result" where
  "executor_start x j =
     (case resolve_user (re_os x) (ej_run_as_user j) of
        Inl e \<Rightarrow> (None, [], \<lparr>er_status = ''failed'', er_exit_code = 0, er_duration_ms = re_duration_ms x,
                     er_err = ''run_as_user: '' @ e, er_notes = []\<rparr>)
      | Inr c \<Rightarrow>
          let notes = run_notes (re_systemd x) j;
              cmd = job_command x j c;
              pr = re_process x cmd
          in (Some cmd,
              case pr_start_error pr of
                Some e \<Rightarrow> (note_chunks 0 notes,
                           \<lparr>er_status = ''failed'', er_exit_code = 0, er_duration_ms = pr_duration_ms pr,
                            er_err = start_error e c, er_notes = notes\<rparr>)
              | None \<Rightarrow> (note_chunks 0 notes @ pump_lines 0 (int (length notes)) (pr_lines pr), end_result pr notes)))"

definition executor_run :: "run_env \<Rightarrow> exec_job \<Rightarrow> chunk list \<times> exec_result" where
  "executor_run x j = snd (executor_start x j)"

section \<open>Lemmas\<close>

definition chunk_key :: "chunk \<Rightarrow> string \<times> int" where
  "chunk_key c = (fst c, fst (snd c))"

definition keys :: "chunk list \<Rightarrow> (string \<times> int) list" where
  "keys cs = map chunk_key cs"

lemma keys_simps [simp]:
  "keys [] = []" "keys ((st, n, d) # cs) = (st, n) # keys cs" "keys (cs @ ds) = keys cs @ keys ds"
  by (simp_all add: keys_def chunk_key_def)

lemma note_keys_in: "(st, n) \<in> set (keys (note_chunks i ns)) \<Longrightarrow> st = ''stderr'' \<and> i \<le> n \<and> n < i + int (length ns)"
proof (induction ns arbitrary: i)
  case (Cons x ns)
  then have "(st, n) = (''stderr'', i) \<or> (st, n) \<in> set (keys (note_chunks (i + 1) ns))" by simp
  with Cons.IH[of "i + 1"] show ?case by auto
qed simp

lemma note_keys_distinct: "distinct (keys (note_chunks i ns))"
proof (induction ns arbitrary: i)
  case (Cons x ns)
  have "(''stderr'', i) \<notin> set (keys (note_chunks (i + 1) ns))" using note_keys_in[of "''stderr''" i "i + 1" ns] by auto
  with Cons show ?case by simp
qed simp

lemma pump_keys_in:
  "(st, n) \<in> set (keys (pump_lines so se ls)) \<Longrightarrow>
   (st = ''stdout'' \<and> so \<le> n \<and> n < so + int (length ls)) \<or> (st = ''stderr'' \<and> se \<le> n \<and> n < se + int (length ls))"
proof (induction ls arbitrary: so se)
  case (Cons x ls)
  obtain err l where x: "x = (err, l)" by (cases x)
  show ?case
  proof (cases err)
    case True
    with Cons.prems have "(st, n) = (''stderr'', se) \<or> (st, n) \<in> set (keys (pump_lines so (se + 1) ls))" by (simp add: x)
    with Cons.IH[of so "se + 1"] show ?thesis by auto
  next
    case False
    with Cons.prems have "(st, n) = (''stdout'', so) \<or> (st, n) \<in> set (keys (pump_lines (so + 1) se ls))" by (simp add: x)
    with Cons.IH[of "so + 1" se] show ?thesis by auto
  qed
qed simp

lemma pump_keys_distinct: "distinct (keys (pump_lines so se ls))"
proof (induction ls arbitrary: so se)
  case (Cons x ls)
  obtain err l where x: "x = (err, l)" by (cases x)
  have "(''stdout'', so) \<notin> set (keys (pump_lines (so + 1) se ls))"
    using pump_keys_in[of "''stdout''" so "so + 1" se ls] by auto
  moreover have "(''stderr'', se) \<notin> set (keys (pump_lines so (se + 1) ls))"
    using pump_keys_in[of "''stderr''" se so "se + 1" ls] by auto
  ultimately show ?case using Cons.IH by (cases err) (simp_all add: x)
qed simp

lemma run_notes_length: "length (run_notes systemd j) \<le> 1"
  by (simp add: run_notes_def)

definition started_lines :: "run_env \<Rightarrow> exec_job \<Rightarrow> (bool \<times> string) list" where
  "started_lines x j = (case fst (executor_start x j) of None \<Rightarrow> [] | Some cmd \<Rightarrow> pr_lines (re_process x cmd))"

lemma executor_chunks:
  "\<exists>ns ls. length ns \<le> 1 \<and> (ls = [] \<or> ls = started_lines x j) \<and>
     fst (executor_run x j) = note_chunks 0 ns @ pump_lines 0 (int (length ns)) ls"
proof (cases "resolve_user (re_os x) (ej_run_as_user j)")
  case (Inl e)
  then show ?thesis by (intro exI[of _ "[]"] exI[of _ "[]"]) (simp add: executor_run_def executor_start_def)
next
  case (Inr c)
  let ?ns = "run_notes (re_systemd x) j"
  show ?thesis
  proof (cases "pr_start_error (re_process x (job_command x j c))")
    case None
    with Inr run_notes_length[of "re_systemd x" j] show ?thesis
      by (intro exI[of _ ?ns] exI[of _ "started_lines x j"]) (simp add: executor_run_def executor_start_def started_lines_def Let_def)
  next
    case (Some e)
    with Inr run_notes_length[of "re_systemd x" j] show ?thesis
      by (intro exI[of _ ?ns] exI[of _ "[]"]) (simp add: executor_run_def executor_start_def Let_def)
  qed
qed

lemma executor_keys_in:
  "(st, n) \<in> set (keys (fst (executor_run x j))) \<Longrightarrow> 0 \<le> n \<and> n < 1 + int (length (started_lines x j))"
proof -
  assume k: "(st, n) \<in> set (keys (fst (executor_run x j)))"
  obtain ns ls where c: "length ns \<le> 1" "ls = [] \<or> ls = started_lines x j"
    "fst (executor_run x j) = note_chunks 0 ns @ pump_lines 0 (int (length ns)) ls"
    using executor_chunks by blast
  from k c(3) have "(st, n) \<in> set (keys (note_chunks 0 ns)) \<or> (st, n) \<in> set (keys (pump_lines 0 (int (length ns)) ls))"
    by simp
  then show ?thesis
    using note_keys_in[of st n 0 ns] pump_keys_in[of st n 0 "int (length ns)" ls] c(1,2) by auto
qed

lemma executor_keys_distinct: "distinct (keys (fst (executor_run x j)))"
proof -
  obtain ns ls where c: "fst (executor_run x j) = note_chunks 0 ns @ pump_lines 0 (int (length ns)) ls"
    using executor_chunks by blast
  have "set (keys (note_chunks 0 ns)) \<inter> set (keys (pump_lines 0 (int (length ns)) ls)) = {}"
  proof -
    have "False" if "(st, n) \<in> set (keys (note_chunks 0 ns))" "(st, n) \<in> set (keys (pump_lines 0 (int (length ns)) ls))" for st n
      using note_keys_in[OF that(1)] pump_keys_in[OF that(2)] by auto
    then show ?thesis by auto
  qed
  then show ?thesis unfolding c by (simp add: note_keys_distinct pump_keys_distinct)
qed

section \<open>Properties\<close>

text \<open>The lines of one execution have distinct pairs of stream and sequence number, the notes of
  the executor included, and the numbers of each stream start at zero and stay below the number of
  lines and notes.\<close>

theorem executor_lines_unique:
  "distinct (keys (fst (executor_run x j))) \<and>
   list_all (\<lambda>(st, n). 0 \<le> n \<and> n < 1 + int (length (started_lines x j))) (keys (fst (executor_run x j)))"
  using executor_keys_distinct executor_keys_in[of _ _ x j] by (auto simp: list_all_iff)

lemma index_of_append: "x \<notin> set a \<Longrightarrow> index_of x (a @ x # b) = Some (length a)"
  by (induction a) auto

lemma limit_args_no_sep: "''--'' \<notin> set (limit_args j)"
  by (auto simp: limit_args_def)

text \<open>C8. A job that names a user runs as that user or not at all. Either no command is started and the run
  failed with the reason; or the user is the agent's own, and the command is started without a switch; or the
  agent is root and the one command that is started switches: a plain command by the credential that carries
  the user's numeric ids and groups, a command with limits by the flags that stand before the separator, so
  that they are systemd-run's and not the script's.\<close>

theorem never_the_wrong_user:
  assumes "ej_run_as_user j \<noteq> []" and "ej_interpreter j \<noteq> ''systemd-run''"
  shows "case fst (executor_start x j) of
      None \<Rightarrow> fst (executor_run x j) = [] \<and> er_status (snd (executor_run x j)) = ''failed'' \<and>
        (\<exists>e. er_err (snd (executor_run x j)) = ''run_as_user: '' @ e)
    | Some cmd \<Rightarrow> \<exists>u uid gid. oe_lookup (re_os x) (ej_run_as_user j) = Inr u \<and>
        parse_uint32 (ou_uid u) = Inr uid \<and> parse_uint32 (ou_gid u) = Inr gid \<and>
        (let interp = (if ej_interpreter j = [] then ''bash'' else ej_interpreter j);
             switch = [''--uid='' @ ou_username u, ''--gid='' @ nat_str (unat gid), ''-p'', ''WorkingDirectory='' @ ou_home u];
             script = [''-c'', ej_script_body j];
             limits = [''--quiet'', ''--scope'', ''--collect''] @ limit_args j
         in (uid = oe_uid (re_os x) \<and> cm_attr cmd = None \<and>
               ((cm_prog cmd, cm_args cmd) = (interp, script) \<or>
                (cm_prog cmd, cm_args cmd) = (''systemd-run'', limits @ [''--'', interp] @ script))) \<or>
            (uid \<noteq> oe_uid (re_os x) \<and> oe_euid (re_os x) = 0 \<and>
               ((cm_prog cmd, cm_args cmd) = (interp, script) \<and> cm_attr cmd = Some (uid, gid, supplementary_groups u) \<or>
                (cm_prog cmd, cm_args cmd) = (''systemd-run'', limits @ switch @ [''--'', interp] @ script) \<and> cm_attr cmd = None)))"
proof (cases "resolve_user (re_os x) (ej_run_as_user j)")
  case (Inl e)
  then show ?thesis by (simp add: executor_run_def executor_start_def)
next
  case (Inr co)
  define interp where "interp = (if ej_interpreter j = [] then ''bash'' else ej_interpreter j)"
  have ni: "interp \<noteq> ''systemd-run''" using assms(2) by (simp add: interp_def)
  have cmd: "fst (executor_start x j) = Some (job_command x j co)"
    using Inr by (simp add: executor_start_def Let_def)
  obtain u uid gid where u: "oe_lookup (re_os x) (ej_run_as_user j) = Inr u" "parse_uint32 (ou_uid u) = Inr uid"
      "parse_uint32 (ou_gid u) = Inr gid"
    and co: "co = (if uid = oe_uid (re_os x) then None else Some \<lparr>cd_username = ou_username u, cd_uid = uid, cd_gid = gid,
         cd_groups = supplementary_groups u, cd_home = ou_home u, cd_shell = oe_shell (re_os x) (ou_username u)\<rparr>)"
    and root: "uid \<noteq> oe_uid (re_os x) \<Longrightarrow> oe_euid (re_os x) = 0"
    using Inr assms(1)
    by (fastforce simp: resolve_user_def can_switch_to_def split: sum.splits lookup_error.splits if_splits)
  let ?pre = "[''--quiet'', ''--scope'', ''--collect''] @ limit_args j"
  have ix: "index_of ''--'' (?pre @ ''--'' # [interp, ''-c'', ej_script_body j]) = Some (length ?pre)"
    by (rule index_of_append) (simp add: limit_args_no_sep)
  then have w: "with_user ''systemd-run'' (?pre @ [''--'', interp, ''-c'', ej_script_body j]) (Some c) =
      ?pre @ user_args c @ [''--'', interp, ''-c'', ej_script_body j]" for c
    by (simp add: with_user_def)
  show ?thesis
    using u root ni w[of "the co"]
    unfolding cmd co
    by (intro exI[of _ u] exI[of _ uid] exI[of _ gid] option.case(2)[THEN iffD2])
       (auto simp: job_command_def Let_def interp_def[symmetric] build_command_def sys_proc_attr_def user_args_def
         with_user_def[of interp] with_user_def[of _ _ None] co)
qed

definition demo_exec_job :: exec_job where
  "demo_exec_job = \<lparr>ej_interpreter = [], ej_script_body = ''id'', ej_env = [], ej_working_dir = [],
     ej_run_as_user = ''deploy'', ej_timeout_seconds = 0, ej_cpu_quota_percent = 50, ej_memory_max_mb = 0,
     ej_tasks_max = 0, ej_io_weight = 0\<rparr>"

definition demo_os :: os_env where
  "demo_os = \<lparr>oe_lookup = (\<lambda>n. if n = ''deploy'' then Inr \<lparr>ou_username = ''deploy'', ou_uid = ''1000'', ou_gid = ''1000'',
      ou_home = ''/home/deploy'', ou_groups = None\<rparr> else Inl UnknownUser),
     oe_uid = 0, oe_euid = 0, oe_shell = (\<lambda>_. ''/bin/sh'')\<rparr>"

definition demo_process :: process where
  "demo_process = \<lparr>pr_start_error = None, pr_lines = [(True, ''oops'')], pr_deadline = False, pr_canceled = False,
     pr_wait = Exited 1 ''exit status 1'', pr_duration_ms = 3\<rparr>"

definition demo_env :: "bool \<Rightarrow> run_env" where
  "demo_env systemd = \<lparr>re_os = demo_os, re_systemd = systemd, re_getenv = (\<lambda>_. []), re_process = (\<lambda>_. demo_process), re_duration_ms = 3\<rparr>"

theorem never_the_wrong_user_witness:
  "\<exists>c. fst (executor_start (demo_env False) demo_exec_job) = Some c \<and> cm_attr c = Some (1000, 1000, []) \<and> cm_args c = [''-c'', ''id'']"
proof -
  have p: "parse_uint32 ''1000'' = Inr 1000"
    by (simp add: parse_uint32_def digits_nat_def digit_nat_def is_digit_def)
  have j: "ej_run_as_user demo_exec_job \<noteq> []" "ej_interpreter demo_exec_job \<noteq> ''systemd-run''" by (simp_all add: demo_exec_job_def)
  obtain c where c: "fst (executor_start (demo_env False) demo_exec_job) = Some c" "cm_prog c = ''bash''"
    by (simp add: executor_start_def demo_env_def demo_exec_job_def resolve_user_def demo_os_def p can_switch_to_def job_command_def
        build_command_def job_limited_def Let_def)
  from never_the_wrong_user[OF j, of "demo_env False"] c
  show ?thesis by (auto simp: demo_env_def demo_os_def p demo_exec_job_def Let_def supplementary_groups_def)
qed

text \<open>The environment of a job has no empty variable, the job's own variables win over everything,
  and unless the job sets it the PATH is there.\<close>

theorem environment_of_a_job:
  "build_env getenv env c k \<noteq> Some [] \<and>
   (case map_of env k of
      Some v \<Rightarrow> build_env getenv env c k = (if v = [] then None else Some v)
    | None \<Rightarrow> k = ''PATH'' \<longrightarrow> build_env getenv env c k = Some (path_or_default getenv))"
proof -
  have "path_or_default getenv \<noteq> []" by (simp add: path_or_default_def default_path_def)
  moreover have "map_of (cred_env c) ''PATH'' = None" by (simp add: cred_env_def Let_def split: option.splits)
  ultimately show ?thesis
    by (auto simp: build_env_def env_map_def map_add_def split: option.splits if_splits)
qed

theorem environment_of_a_job_witness:
  "build_env (\<lambda>_. []) [(''TZ'', [])] None ''TZ'' = None \<and> build_env (\<lambda>_. []) [] None ''PATH'' = Some default_path"
  using environment_of_a_job[of "\<lambda>_. []" "[(''TZ'', [])]" None "''TZ''"] environment_of_a_job[of "\<lambda>_. []" "[]" None "''PATH''"]
  by (simp add: path_or_default_def)

end
