(* ===== verification/Runs.thy ===== *)
theory Runs
  imports Executor Scheduler Messages "HOL-Library.Sublist"
begin

text \<open>
  The agent's runtime, \<open>agent/internal/runtime\<close>: the job set and its synchronisation (\<open>sync.go\<close>),
  the execution of runs with their concurrency policies and retries (\<open>runs.go\<close>), the catch-up of
  missed windows (\<open>catchup.go\<close>), the address and backoff of the connection and the clamp of update
  reports (\<open>runtime.go\<close>, \<open>update.go\<close>). Runs execute on goroutines of their own, so their steps
  are a step relation over the state they share. What is queued goes to the outbox.
\<close>

section \<open>The job set\<close>

record store_job =
  sb_id :: string
  sb_version_id :: string
  sb_name :: string
  sb_interpreter :: string
  sb_script_body :: string
  sb_schedule_cron :: string
  sb_timezone :: string
  sb_enabled :: bool
  sb_timeout_seconds :: int
  sb_concurrency_policy :: string
  sb_catchup_policy :: string
  sb_max_retries :: int
  sb_working_dir :: string
  sb_run_as_user :: string
  sb_env :: "string \<rightharpoonup> string"
  sb_secrets :: "string \<rightharpoonup> string"
  sb_cpu_quota_percent :: int
  sb_memory_max_mb :: int
  sb_tasks_max :: int
  sb_io_weight :: int

definition proto_to_store :: "job_def \<Rightarrow> store_job" where
  "proto_to_store d =
     \<lparr>sb_id = jd_id d, sb_version_id = jd_version_id d, sb_name = jd_name d, sb_interpreter = jd_interpreter d,
      sb_script_body = jd_script_body d, sb_schedule_cron = jd_schedule_cron d, sb_timezone = jd_timezone d,
      sb_enabled = jd_enabled d, sb_timeout_seconds = jd_timeout_seconds d,
      sb_concurrency_policy = jd_concurrency_policy d, sb_catchup_policy = jd_catchup_policy d,
      sb_max_retries = jd_max_retries d, sb_working_dir = jd_working_dir d, sb_run_as_user = jd_run_as_user d,
      sb_env = jd_env d, sb_secrets = jd_secrets d, sb_cpu_quota_percent = jd_cpu_quota_percent d,
      sb_memory_max_mb = jd_memory_max_mb d, sb_tasks_max = jd_tasks_max d, sb_io_weight = jd_io_weight d\<rparr>"

definition to_scheduler_jobs :: "store_job list \<Rightarrow> sched_job list" where
  "to_scheduler_jobs js =
     map (\<lambda>j. \<lparr>sd_id = sb_id j, sd_schedule_cron = sb_schedule_cron j, sd_timezone = sb_timezone j,
               sd_enabled = sb_enabled j\<rparr>) js"

record 'c agent =
  ag_jobs :: "string \<rightharpoonup> store_job"
  ag_disk :: "store_job list option"
  ag_sched :: "'c scheduler"
  ag_queue :: "agent_message list"

text \<open>The orders Go's maps are walked in: \<open>enum\<close> lists the jobs, the other two are those of
  \<open>Apply\<close>.\<close>

record orders =
  or_enum :: "store_job list"
  or_stale :: "string list"
  or_want :: "string list"

definition sync_jobs_map :: "sync_jobs \<Rightarrow> (string \<rightharpoonup> store_job) \<Rightarrow> (string \<rightharpoonup> store_job)" where
  "sync_jobs_map m jobs =
     (let base = (if sj_full_snapshot m then Map.empty else jobs);
          ups = foldl (\<lambda>js d. js(jd_id d \<mapsto> proto_to_store d)) base (sj_upsert m)
      in foldl (\<lambda>js i. js(i := None)) ups (sj_delete m))"

text \<open>\<open>applySync\<close>: \<open>saved\<close> says whether the cache could be written. A failed save or apply is
  logged and the acknowledgement goes out all the same; None is a panic of the scheduler.\<close>

definition apply_sync :: "'c cron_ops \<Rightarrow> orders \<Rightarrow> bool \<Rightarrow> sync_jobs \<Rightarrow> 'c agent \<Rightarrow> 'c agent option" where
  "apply_sync ops ord saved m a =
     (let jobs = sync_jobs_map m (ag_jobs a); all = or_enum ord
      in case sched_apply ops (or_stale ord) (or_want ord) (to_scheduler_jobs all) (ag_sched a) of
           None \<Rightarrow> None
         | Some (sc, err) \<Rightarrow>
             Some (a\<lparr>ag_jobs := jobs, ag_disk := (if saved then Some all else ag_disk a), ag_sched := sc,
                     ag_queue := ag_queue a @ [AConfigAck (sj_cursor m)]\<rparr>))"

definition apply_cached_jobs :: "'c cron_ops \<Rightarrow> orders \<Rightarrow> store_job list \<Rightarrow> 'c agent \<Rightarrow> 'c agent option" where
  "apply_cached_jobs ops ord cached a =
     (case sched_apply ops (or_stale ord) (or_want ord) (to_scheduler_jobs cached) (ag_sched a) of
        None \<Rightarrow> None
      | Some (sc, err) \<Rightarrow>
          Some (a\<lparr>ag_jobs := foldl (\<lambda>js j. js(sb_id j \<mapsto> j)) (ag_jobs a) cached, ag_sched := sc\<rparr>))"

text \<open>The orders are walks of the maps they belong to.\<close>

definition orders_ok :: "orders \<Rightarrow> (string \<rightharpoonup> store_job) \<Rightarrow> 'c scheduler \<Rightarrow> bool" where
  "orders_ok ord jobs sc \<longleftrightarrow>
     set (or_enum ord) = ran jobs \<and> set (or_stale ord) = dom (sc_entries sc) \<and>
     distinct (or_want ord) \<and> set (or_want ord) = sb_id ` set (or_enum ord)"

lemma foldl_upsert:
  "foldl (\<lambda>js d. js(jd_id d \<mapsto> proto_to_store d)) m ds = m ++ map_of (rev (map (\<lambda>d. (jd_id d, proto_to_store d)) ds))"
  by (induction ds arbitrary: m) auto

lemma foldl_delete: "foldl (\<lambda>js i. js(i := None)) m xs k = (if k \<in> set xs then None else m k)"
  by (induction xs arbitrary: m) auto

lemma sync_jobs_map_apply:
  "sync_jobs_map m jobs k =
     (if k \<in> set (sj_delete m) then None
      else case map_of (rev (map (\<lambda>d. (jd_id d, proto_to_store d)) (sj_upsert m))) k of
             Some j \<Rightarrow> Some j
           | None \<Rightarrow> if sj_full_snapshot m then None else jobs k)"
  by (simp add: sync_jobs_map_def Let_def foldl_delete foldl_upsert map_add_def split: option.splits)

text \<open>Every job of the map is stored under its own id.\<close>

definition own_ids :: "(string \<rightharpoonup> store_job) \<Rightarrow> bool" where
  "own_ids m \<longleftrightarrow> (\<forall>k j. m k = Some j \<longrightarrow> sb_id j = k)"

lemma proto_to_store_id [simp]: "sb_id (proto_to_store d) = jd_id d"
  by (simp add: proto_to_store_def)

lemma sync_own_ids: "own_ids jobs \<Longrightarrow> own_ids (sync_jobs_map m jobs)"
  unfolding own_ids_def sync_jobs_map_apply
  by (auto split: option.splits if_splits dest!: map_of_SomeD)

text \<open>What the scheduler is asked for is what the job map says.\<close>

lemma want_of_walk:
  assumes own: "own_ids jobs" and walk: "set js = ran jobs"
  shows "want_of (to_scheduler_jobs js) k =
    map_option (\<lambda>j. \<lparr>sd_id = sb_id j, sd_schedule_cron = sb_schedule_cron j, sd_timezone = sb_timezone j,
                     sd_enabled = sb_enabled j\<rparr>) (jobs k)"
proof -
  define f where "f = (\<lambda>j :: store_job. \<lparr>sd_id = sb_id j, sd_schedule_cron = sb_schedule_cron j,
    sd_timezone = sb_timezone j, sd_enabled = sb_enabled j\<rparr>)"
  have idf: "sd_id (f j) = sb_id j" for j by (simp add: f_def)
  have w: "want_of (to_scheduler_jobs js) = map_of (rev (map (\<lambda>j. (sb_id j, f j)) js))"
    by (simp add: want_of_def to_scheduler_jobs_def o_def f_def)
  show ?thesis
  proof (cases "jobs k")
    case None
    have "k \<notin> sb_id ` set js"
    proof
      assume "k \<in> sb_id ` set js"
      then obtain j where "j \<in> ran jobs" "sb_id j = k" using walk by auto
      with own None show False by (auto simp: ran_def own_ids_def)
    qed
    then have "map_of (rev (map (\<lambda>j. (sb_id j, f j)) js)) k = None"
      by (auto simp: map_of_eq_None_iff image_image)
    with None w show ?thesis by simp
  next
    case (Some j)
    then have j: "j \<in> set js" "sb_id j = k" using walk own by (auto simp: ran_def own_ids_def)
    then have "k \<in> fst ` set (rev (map (\<lambda>j. (sb_id j, f j)) js))" by force
    then obtain d where d: "map_of (rev (map (\<lambda>j. (sb_id j, f j)) js)) k = Some d"
      by (metis map_of_eq_None_iff not_Some_eq)
    then have "(k, d) \<in> set (rev (map (\<lambda>j. (sb_id j, f j)) js))" by (rule map_of_SomeD)
    then obtain j' where j': "j' \<in> set js" "sb_id j' = k" "d = f j'" by auto
    then have "jobs k = Some j'" using walk own by (auto simp: ran_def own_ids_def)
    with Some d j'(3) w show ?thesis by (simp add: f_def)
  qed
qed

definition job_slots :: "store_job option \<Rightarrow> (string \<times> string) set" where
  "job_slots j = (case j of None \<Rightarrow> {} | Some d \<Rightarrow> if sb_enabled d then {(sb_timezone d, sb_schedule_cron d)} else {})"

lemma apply_sync_ok:
  assumes laws: "cron_laws ops" and ok: "sched_ok ops (ag_sched a)" and own: "own_ids (ag_jobs a)"
    and ord: "orders_ok ord (sync_jobs_map m (ag_jobs a)) (ag_sched a)"
  shows "\<exists>b err. apply_sync ops ord saved m a = Some b \<and> sched_ok ops (ag_sched b) \<and> own_ids (ag_jobs b) \<and>
    ag_jobs b = sync_jobs_map m (ag_jobs a) \<and> ag_queue b = ag_queue a @ [AConfigAck (sj_cursor m)] \<and>
    (\<exists>t. sched_apply ops (or_stale ord) (or_want ord) (to_scheduler_jobs (or_enum ord)) (ag_sched a) = Some (t, err)) \<and>
    (err = None \<longrightarrow> (\<forall>k. slots ops (ag_sched b) k = job_slots (ag_jobs b k)))"
proof -
  let ?jobs = "sync_jobs_map m (ag_jobs a)"
  have own': "own_ids ?jobs" by (rule sync_own_ids[OF own])
  have o: "set (or_enum ord) = ran ?jobs" "set (or_stale ord) = dom (sc_entries (ag_sched a))" "distinct (or_want ord)"
    "set (or_want ord) = sd_id ` set (to_scheduler_jobs (or_enum ord))"
    using ord by (auto simp: orders_ok_def to_scheduler_jobs_def image_image)
  obtain t err where t: "sched_apply ops (or_stale ord) (or_want ord) (to_scheduler_jobs (or_enum ord)) (ag_sched a) = Some (t, err)"
    "sched_ok ops t" "err = None \<Longrightarrow> \<forall>j. slots ops t j = wanted_slots (want_of (to_scheduler_jobs (or_enum ord))) j"
    using sched_apply_ok[OF laws ok o(2-4)] by blast
  have "wanted_slots (want_of (to_scheduler_jobs (or_enum ord))) k = job_slots (?jobs k)" for k
    by (simp add: wanted_slots_def want_of_walk[OF own' o(1)] job_slots_def split: option.splits)
  with t own' show ?thesis by (auto simp: apply_sync_def Let_def)
qed


section \<open>Retries\<close>

definition seq_block :: int where
  "seq_block = 1000000"

definition retry_backoff_seconds :: nat where
  "retry_backoff_seconds = 15"

text \<open>A plain failure is the only outcome that is tried again.\<close>

definition final_status :: "string \<Rightarrow> bool" where
  "final_status st \<longleftrightarrow> st = ''succeeded'' \<or> st = ''timed_out'' \<or> st = ''canceled''"

definition retry_banner :: "int \<Rightarrow> nat \<Rightarrow> chunk list" where
  "retry_banner max_retries n =
     (if n > 0 then [(''stderr'', 0, ''croncompose: retry '' @ itoa (int n) @ '' of '' @ itoa max_retries)] else [])"

text \<open>The sink of attempt \<open>n\<close>, whose offset is \<open>n\<close> blocks: the sequence number becomes an
  int32.\<close>

definition attempt_sink :: "nat \<Rightarrow> chunk list \<Rightarrow> chunk list" where
  "attempt_sink n cs = map (\<lambda>(st, q, d). (st, to_int32 (int n * seq_block + q), d)) cs"

text \<open>\<open>run n\<close> is what \<open>executor.Run\<close> does on attempt \<open>n\<close>; \<open>gone n\<close> says that the context is
  done before the backoff after it ends.\<close>

function run_with_retries ::
  "(nat \<Rightarrow> chunk list \<times> exec_result) \<Rightarrow> (nat \<Rightarrow> bool) \<Rightarrow> int \<Rightarrow> nat \<Rightarrow> chunk list \<times> exec_result" where
  "run_with_retries run gone max_retries n =
     (let out = attempt_sink n (retry_banner max_retries n @ fst (run n)); r = snd (run n)
      in if final_status (er_status r) \<or> int n \<ge> max_retries then (out, r)
         else if gone n then (out, r)
         else (case run_with_retries run gone max_retries (Suc n) of (cs, res) \<Rightarrow> (out @ cs, res)))"
  by pat_completeness auto
termination
  by (relation "measure (\<lambda>(run, gone, mx, n). nat (mx - int n))") auto

declare run_with_retries.simps [simp del]

definition stops :: "(nat \<Rightarrow> chunk list \<times> exec_result) \<Rightarrow> (nat \<Rightarrow> bool) \<Rightarrow> int \<Rightarrow> nat \<Rightarrow> bool" where
  "stops run gone mx n \<longleftrightarrow> final_status (er_status (snd (run n))) \<or> int n \<ge> mx \<or> gone n"

definition attempt_out :: "(nat \<Rightarrow> chunk list \<times> exec_result) \<Rightarrow> int \<Rightarrow> nat \<Rightarrow> chunk list" where
  "attempt_out run mx n = attempt_sink n (retry_banner mx n @ fst (run n))"

lemma run_with_retries_eq:
  "run_with_retries run gone mx n =
     (if stops run gone mx n then (attempt_out run mx n, snd (run n))
      else (attempt_out run mx n @ fst (run_with_retries run gone mx (Suc n)), snd (run_with_retries run gone mx (Suc n))))"
  by (subst run_with_retries.simps) (auto simp: Let_def stops_def attempt_out_def split: prod.splits)

lemma run_with_retries_spec:
  "\<exists>k \<ge> n. stops run gone mx k \<and> list_all (\<lambda>i. \<not> stops run gone mx i) [n ..< k] \<and>
     (int k \<le> max mx (int n)) \<and>
     run_with_retries run gone mx n = (concat (map (attempt_out run mx) [n ..< Suc k]), snd (run k))"
proof (induction "nat (mx - int n)" arbitrary: n rule: less_induct)
  case less
  show ?case
  proof (cases "stops run gone mx n")
    case True
    then show ?thesis by (intro exI[of _ n]) (simp add: run_with_retries_eq[of run gone mx n])
  next
    case False
    then have "int n < mx" by (simp add: stops_def)
    then have "nat (mx - int (Suc n)) < nat (mx - int n)" by simp
    from less[OF this] obtain k where k: "Suc n \<le> k" "stops run gone mx k"
      "list_all (\<lambda>i. \<not> stops run gone mx i) [Suc n ..< k]" "int k \<le> max mx (int (Suc n))"
      "run_with_retries run gone mx (Suc n) = (concat (map (attempt_out run mx) [Suc n ..< Suc k]), snd (run k))"
      by blast
    have "[n ..< k] = n # [Suc n ..< k]" "[n ..< Suc k] = n # [Suc n ..< Suc k]"
      using k(1) by (simp_all add: upt_conv_Cons del: upt_Suc)
    with k False \<open>int n < mx\<close> show ?thesis
      by (intro exI[of _ k]) (simp add: run_with_retries_eq[of run gone mx n] del: upt_Suc)
  qed
qed

text \<open>The keys of different attempts are apart while a block is not exceeded and nothing wraps.\<close>

definition seqs_in_block :: "chunk list \<Rightarrow> bool" where
  "seqs_in_block cs \<longleftrightarrow> list_all (\<lambda>(st, q). 0 \<le> q \<and> q < seq_block) (keys cs)"

lemma keys_sink: "keys (attempt_sink n cs) = map (\<lambda>(st, q). (st, to_int32 (int n * seq_block + q))) (keys cs)"
  by (induction cs) (auto simp: attempt_sink_def)

lemma sink_key:
  assumes "seqs_in_block cs" "int n < 2147" "(st, q) \<in> set (keys cs)"
  shows "to_int32 (int n * seq_block + q) = int n * seq_block + q" "0 \<le> q" "q < seq_block"
proof -
  show q: "0 \<le> q" "q < seq_block" using assms(1,3) by (auto simp: seqs_in_block_def list_all_iff)
  have "int n * seq_block \<le> 2146 * seq_block" using assms(2) by (intro mult_right_mono) (auto simp: seq_block_def)
  with q show "to_int32 (int n * seq_block + q) = int n * seq_block + q"
    by (intro to_int32_id) (auto simp: seq_block_def)
qed

lemma keys_sink_block:
  assumes "seqs_in_block cs" "int n < 2147"
  shows "keys (attempt_sink n cs) = map (\<lambda>(st, q). (st, int n * seq_block + q)) (keys cs)"
  unfolding keys_sink using sink_key[OF assms] by (intro map_cong refl) auto

lemma concat_blocks_distinct:
  assumes "\<And>n. n < m \<Longrightarrow> distinct (keys (f n)) \<and> seqs_in_block (f n)" "int m \<le> 2147"
  shows "distinct (keys (concat (map (\<lambda>n. attempt_sink n (f n)) [0 ..< m]))) \<and>
    (\<forall>(st, q) \<in> set (keys (concat (map (\<lambda>n. attempt_sink n (f n)) [0 ..< m]))). 0 \<le> q \<and> q < int m * seq_block)"
  using assms
proof (induction m)
  case (Suc m)
  have IH: "distinct (keys (concat (map (\<lambda>n. attempt_sink n (f n)) [0 ..< m])))"
    "\<And>st q. (st, q) \<in> set (keys (concat (map (\<lambda>n. attempt_sink n (f n)) [0 ..< m]))) \<Longrightarrow> 0 \<le> q \<and> q < int m * seq_block"
    using Suc by auto
  have m: "distinct (keys (f m))" "seqs_in_block (f m)" "int m < 2147" using Suc.prems by auto
  note km = keys_sink_block[OF m(2,3)]
  have dm: "distinct (keys (attempt_sink m (f m)))"
    unfolding km using m(1) by (auto simp: distinct_map inj_on_def)
  have bm: "int m * seq_block \<le> q \<and> q < int (Suc m) * seq_block" if "(st, q) \<in> set (keys (attempt_sink m (f m)))" for st q
    using that sink_key(2,3)[OF m(2,3)] unfolding km by (fastforce simp: algebra_simps)
  have "set (keys (concat (map (\<lambda>n. attempt_sink n (f n)) [0 ..< m]))) \<inter> set (keys (attempt_sink m (f m))) = {}"
    using IH(2) bm by fastforce
  moreover have "0 \<le> int m * seq_block" "int m * seq_block \<le> int (Suc m) * seq_block" by (simp_all add: seq_block_def)
  ultimately show ?case using IH bm dm by fastforce
qed simp

section \<open>Catch-up\<close>

definition max_catchup_runs :: nat where
  "max_catchup_runs = 20"

text \<open>The loop of \<open>missedWindows\<close>, with \<open>room\<close> windows to go. Times are instants on one time line;
  \<open>next\<close> is the \<open>Next\<close> of the parsed schedule in the job's zone.\<close>

fun missed_loop :: "(int \<Rightarrow> int) \<Rightarrow> int \<Rightarrow> nat \<Rightarrow> int \<Rightarrow> int list" where
  "missed_loop nxt now 0 cursor = []"
| "missed_loop nxt now (Suc room) cursor =
     (if \<not> nxt cursor < now then [] else nxt cursor # missed_loop nxt now room (nxt cursor))"

text \<open>\<open>parse\<close> is \<open>cron.ParseStandard\<close>.\<close>

definition missed_windows :: "(string \<Rightarrow> string \<Rightarrow> (int \<Rightarrow> int) option) \<Rightarrow> store_job \<Rightarrow> int \<Rightarrow> int \<Rightarrow> int list" where
  "missed_windows parse def since now =
     (case parse (sb_schedule_cron def) (sb_timezone def) of
        None \<Rightarrow> []
      | Some nxt \<Rightarrow> missed_loop nxt now max_catchup_runs since)"

datatype catchup = CatchSkip | CatchBaseline | CatchRuns nat

text \<open>What \<open>runCatchup\<close> does for one job, from the state loaded at the start.\<close>

definition catchup_of ::
  "(string \<Rightarrow> string \<Rightarrow> (int \<Rightarrow> int) option) \<Rightarrow> (string \<rightharpoonup> int) \<Rightarrow> int \<Rightarrow> store_job \<Rightarrow> catchup" where
  "catchup_of parse state now def =
     (if \<not> sb_enabled def \<or> sb_catchup_policy def = ''skip'' \<or> sb_catchup_policy def = [] then CatchSkip
      else (case state (sb_id def) of
          None \<Rightarrow> CatchBaseline
        | Some since \<Rightarrow>
            let missed = missed_windows parse def since now
            in if missed = [] then CatchSkip
               else if sb_catchup_policy def = ''once'' then CatchRuns 1
               else if sb_catchup_policy def = ''all'' then CatchRuns (length missed)
               else CatchSkip))"

definition run_catchup ::
  "(string \<Rightarrow> string \<Rightarrow> (int \<Rightarrow> int) option) \<Rightarrow> (string \<rightharpoonup> int) \<Rightarrow> int \<Rightarrow> store_job list \<Rightarrow> (string \<times> catchup) list" where
  "run_catchup parse state now jobs = map (\<lambda>d. (sb_id d, catchup_of parse state now d)) jobs"

lemma missed_loop_bounds:
  "length (missed_loop nxt now room cursor) \<le> room \<and> list_all (\<lambda>t. t < now) (missed_loop nxt now room cursor)"
  by (induction room arbitrary: cursor) auto

lemma missed_loop_sorted:
  assumes "\<And>t. t < nxt t"
  shows "sorted_wrt (<) (cursor # missed_loop nxt now room cursor)"
proof (induction room arbitrary: cursor)
  case (Suc room)
  have "sorted_wrt (<) (nxt cursor # missed_loop nxt now room (nxt cursor))" by (rule Suc.IH)
  then show ?case using assms[of cursor] by (auto dest: order.strict_trans[OF assms[of cursor]])
qed simp

text \<open>With enough room every window up to \<open>now\<close> is listed.\<close>

lemma missed_loop_complete:
  assumes "length (missed_loop nxt now room cursor) < room"
  shows "\<not> nxt (last (cursor # missed_loop nxt now room cursor)) < now"
  using assms
proof (induction room arbitrary: cursor)
  case (Suc room)
  show ?case
  proof (cases "nxt cursor < now")
    case True
    with Suc.prems Suc.IH[of "nxt cursor"] show ?thesis by simp
  next
    case False
    then show ?thesis by simp
  qed
qed simp

text \<open>A schedule without a next time: \<open>Next\<close> then gives the zero time, which lies before now.\<close>

lemma missed_loop_const: "z < now \<Longrightarrow> missed_loop (\<lambda>_. z) now room cursor = replicate room z"
  by (induction room arbitrary: cursor) auto

section \<open>Addresses, backoff, progress\<close>

text \<open>\<open>has_host\<close> is \<open>transport.HasHost\<close> of the address saved at enrollment.\<close>

definition dial_addr :: "(string \<Rightarrow> bool) \<Rightarrow> string \<Rightarrow> bool \<Rightarrow> string \<Rightarrow> string" where
  "dial_addr has_host configured explicit enrolled =
     (if explicit \<or> \<not> has_host enrolled then configured else enrolled)"

text \<open>The backoff, in seconds: the value returned and the next state.\<close>

definition new_backoff :: nat where "new_backoff = 1"

definition backoff_next :: "nat \<Rightarrow> nat \<times> nat" where
  "backoff_next cur = (cur, if cur * 2 > 30 then 30 else cur * 2)"

fun backoff_delays :: "nat \<Rightarrow> nat \<Rightarrow> nat list" where
  "backoff_delays 0 cur = []"
| "backoff_delays (Suc n) cur = (case backoff_next cur of (d, c) \<Rightarrow> d # backoff_delays n c)"

definition report_update :: "string \<Rightarrow> string \<Rightarrow> string \<Rightarrow> int \<Rightarrow> agent_message" where
  "report_update target phase detail percent =
     (let p = (if percent < 0 then 0 else percent);
          q = (if p > 100 then 100 else p)
      in AUpdateProgress \<lparr>up_target_version = target, up_phase = phase, up_detail = detail, up_percent = to_int32 q\<rparr>)"

definition mutating_op :: "string \<Rightarrow> bool" where
  "mutating_op op \<longleftrightarrow> op = ''lifecycle'' \<or> op = ''apply'' \<or> op = ''rollback''"

lemma backoff_bounds: "1 \<le> cur \<Longrightarrow> cur \<le> 30 \<Longrightarrow> list_all (\<lambda>d. 1 \<le> d \<and> d \<le> 30) (backoff_delays n cur)"
  by (induction n arbitrary: cur) (auto simp: backoff_next_def)


section \<open>Runs in progress\<close>

text \<open>A goroutine of \<open>executeRun\<close>: waiting for the gate of its job, or past it; the flag says
  that it holds the gate.\<close>

datatype run_thread = WaitsGate string store_job string | RunsJob string bool

text \<open>A gate is a channel of capacity one: the number of tokens in it. Three fields are the history of the
  model, not state of the code: \<open>rt_seen\<close> are the run ids used so far, \<open>rt_policy\<close> is the policy of the
  job's definition when the run was fired, \<open>rt_offered\<close> are the messages handed to \<open>queue\<close>, stored or not.\<close>

record rt =
  rt_jobs :: "string \<rightharpoonup> store_job"
  rt_gates :: "string \<rightharpoonup> nat"
  rt_index :: "string \<rightharpoonup> string"
  rt_busy :: "string \<rightharpoonup> int"
  rt_fired :: "string \<rightharpoonup> int"
  rt_threads :: "string \<rightharpoonup> run_thread"
  rt_canceled :: "string list"
  rt_seen :: "string list"
  rt_queue :: "agent_message list"
  rt_policy :: "string \<rightharpoonup> string"
  rt_offered :: "agent_message list"

datatype admission = Admitted bool | Refused | MustWait

definition admit :: "string \<Rightarrow> nat \<Rightarrow> admission" where
  "admit policy tokens =
     (if policy = ''allow'' then Admitted False
      else if policy = ''queue'' then (if tokens < 1 then Admitted True else MustWait)
      else (if tokens < 1 then Admitted True else Refused))"

definition track_run :: "rt \<Rightarrow> string \<Rightarrow> string \<Rightarrow> rt" where
  "track_run s i j = s\<lparr>rt_index := (rt_index s)(i \<mapsto> j), rt_busy := (rt_busy s)(j \<mapsto> get0 0 (rt_busy s) j + 1)\<rparr>"

definition release_run :: "rt \<Rightarrow> string \<Rightarrow> string \<Rightarrow> rt" where
  "release_run s i j =
     s\<lparr>rt_index := (rt_index s)(i := None),
       rt_busy := (if get0 0 (rt_busy s) j > 0 then (rt_busy s)(j \<mapsto> get0 0 (rt_busy s) j - 1) else rt_busy s)\<rparr>"

definition record_fire :: "rt \<Rightarrow> string \<Rightarrow> int \<Rightarrow> rt" where
  "record_fire s j now = s\<lparr>rt_fired := (rt_fired s)(j \<mapsto> now)\<rparr>"

definition cancel_run :: "rt \<Rightarrow> string \<Rightarrow> rt" where
  "cancel_run s i = (case rt_index s i of None \<Rightarrow> s | Some j \<Rightarrow> s\<lparr>rt_canceled := i # rt_canceled s\<rparr>)"

definition merge_env :: "(string \<rightharpoonup> string) \<Rightarrow> (string \<rightharpoonup> string) \<Rightarrow> (string \<rightharpoonup> string)" where
  "merge_env base secrets = base ++ secrets"

text \<open>\<open>queue\<close>: a message that \<open>Enqueue\<close> does not store is logged and dropped.\<close>

definition queue_message :: "bool \<Rightarrow> agent_message \<Rightarrow> rt \<Rightarrow> rt" where
  "queue_message stored m s =
     s\<lparr>rt_queue := (if stored then rt_queue s @ [m] else rt_queue s), rt_offered := rt_offered s @ [m]\<rparr>"

text \<open>\<open>executeRun\<close> from the admission to the queued \<open>RunStarted\<close>.\<close>

definition start_run :: "bool \<Rightarrow> rt \<Rightarrow> string \<Rightarrow> string \<Rightarrow> store_job \<Rightarrow> string \<Rightarrow> bool \<Rightarrow> int \<Rightarrow> rt" where
  "start_run stored s i j def trigger gated now =
     (let s1 = (if gated then s\<lparr>rt_gates := (rt_gates s)(j \<mapsto> get0 0 (rt_gates s) j + 1)\<rparr> else s);
          s2 = record_fire (track_run s1 i j) j now
      in queue_message stored (ARunStarted \<lparr>rs_run_id = i, rs_job_id = j, rs_job_version_id = sb_version_id def,
            rs_trigger = trigger, rs_started_at = now\<rparr>) (s2\<lparr>rt_threads := (rt_threads s2)(i \<mapsto> RunsJob j gated)\<rparr>))"

definition execute_run :: "bool \<Rightarrow> rt \<Rightarrow> string \<Rightarrow> string \<Rightarrow> string \<Rightarrow> int \<Rightarrow> rt" where
  "execute_run stored s j i trigger now =
     (case rt_jobs s j of
        None \<Rightarrow> s
      | Some def \<Rightarrow>
          (case admit (sb_concurrency_policy def) (get0 0 (rt_gates s) j) of
             Refused \<Rightarrow> s
           | MustWait \<Rightarrow> s\<lparr>rt_threads := (rt_threads s)(i \<mapsto> WaitsGate j def trigger)\<rparr>
           | Admitted gated \<Rightarrow> start_run stored s i j def trigger gated now))"

text \<open>Its end: the queued \<open>RunFinished\<close>, then the deferred calls, last deferred first.\<close>

definition finish_run :: "bool \<Rightarrow> rt \<Rightarrow> string \<Rightarrow> string \<Rightarrow> bool \<Rightarrow> exec_result \<Rightarrow> int \<Rightarrow> rt" where
  "finish_run stored s i j gated r now =
     (let s1 = queue_message stored (ARunFinished \<lparr>rf_run_id = i, rf_status = er_status r,
                 rf_exit_code = to_int32 (er_exit_code r), rf_finished_at = now,
                 rf_duration_ms = to_int32 (er_duration_ms r), rf_error = er_err r\<rparr>) s;
          s2 = release_run s1 i j
      in s2\<lparr>rt_gates := (if gated then (rt_gates s2)(j \<mapsto> get0 0 (rt_gates s2) j - 1) else rt_gates s2),
            rt_threads := (rt_threads s2)(i := None)\<rparr>)"

definition emit_line :: "bool \<Rightarrow> rt \<Rightarrow> string \<Rightarrow> chunk \<Rightarrow> rt" where
  "emit_line stored s i c =
     (case c of (st, q, d) \<Rightarrow>
        queue_message stored (ALogChunk \<lparr>lc_run_id = i, lc_stream = st, lc_seq = q, lc_data = d\<rparr>) s)"

inductive rt_step :: "rt \<Rightarrow> rt \<Rightarrow> bool" where
  fire: "i \<notin> set (rt_seen s) \<Longrightarrow> rt_step s ((execute_run stored s j i trigger now)\<lparr>rt_seen := i # rt_seen s,
      rt_policy := (rt_policy s)(i := map_option sb_concurrency_policy (rt_jobs s j))\<rparr>)"
| grant: "rt_threads s i = Some (WaitsGate j def trigger) \<Longrightarrow> get0 0 (rt_gates s) j < 1 \<Longrightarrow>
    rt_step s (start_run stored s i j def trigger True now)"
| give_up: "rt_threads s i = Some (WaitsGate j def trigger) \<Longrightarrow>
    rt_step s (s\<lparr>rt_threads := (rt_threads s)(i := None)\<rparr>)"
| emit: "rt_threads s i = Some (RunsJob j gated) \<Longrightarrow> rt_step s (emit_line stored s i c)"
| finish: "rt_threads s i = Some (RunsJob j gated) \<Longrightarrow> rt_step s (finish_run stored s i j gated r now)"
| cancel: "rt_step s (cancel_run s i)"
| sync: "rt_step s (s\<lparr>rt_jobs := m\<rparr>)"

inductive rt_reach :: "rt \<Rightarrow> rt \<Rightarrow> bool" for s0 where
  start: "rt_reach s0 s0"
| step: "rt_reach s0 s \<Longrightarrow> rt_step s t \<Longrightarrow> rt_reach s0 t"

inductive_cases rt_stepE: "rt_step s t"

definition new_rt :: rt where
  "new_rt = \<lparr>rt_jobs = Map.empty, rt_gates = Map.empty, rt_index = Map.empty, rt_busy = Map.empty,
     rt_fired = Map.empty, rt_threads = Map.empty, rt_canceled = [], rt_seen = [], rt_queue = [], rt_policy = Map.empty, rt_offered = []\<rparr>"

text \<open>What the control plane sees of one run, in the order of the queue.\<close>

datatype run_event = TStart | TLine | TEnd

fun run_event_of :: "string \<Rightarrow> agent_message \<Rightarrow> run_event list" where
  "run_event_of i (ARunStarted r) = (if rs_run_id r = i then [TStart] else [])"
| "run_event_of i (ALogChunk c) = (if lc_run_id c = i then [TLine] else [])"
| "run_event_of i (ARunFinished r) = (if rf_run_id r = i then [TEnd] else [])"
| "run_event_of i _ = []"

definition run_trace :: "string \<Rightarrow> agent_message list \<Rightarrow> run_event list" where
  "run_trace i q = concat (map (run_event_of i) q)"

lemma run_trace_snoc: "run_trace i (q @ [m]) = run_trace i q @ run_event_of i m"
  by (simp add: run_trace_def)

definition running :: "rt \<Rightarrow> string \<Rightarrow> string set" where
  "running s j = {i. \<exists>g. rt_threads s i = Some (RunsJob j g)}"

definition holding :: "rt \<Rightarrow> string \<Rightarrow> string set" where
  "holding s j = {i. rt_threads s i = Some (RunsJob j True)}"

definition trace_ok :: "rt \<Rightarrow> string \<Rightarrow> bool" where
  "trace_ok s i \<longleftrightarrow>
     (case rt_threads s i of
        Some (RunsJob j g) \<Rightarrow> \<exists>n. run_trace i (rt_offered s) = TStart # replicate n TLine
      | Some (WaitsGate j d t) \<Rightarrow> run_trace i (rt_offered s) = []
      | None \<Rightarrow> (run_trace i (rt_offered s) = [] \<or>
          (i \<in> set (rt_seen s) \<and> (\<exists>n. run_trace i (rt_offered s) = TStart # replicate n TLine @ [TEnd]))))"

lemma trace_ok_cong:
  assumes "trace_ok s i" "rt_threads t i = rt_threads s i" "run_trace i (rt_offered t) = run_trace i (rt_offered s)"
    "set (rt_seen s) \<subseteq> set (rt_seen t)"
  shows "trace_ok t i"
  using assms(1,4) unfolding trace_ok_def assms(2,3) by (auto split: option.splits run_thread.splits)

definition rt_ok :: "rt \<Rightarrow> bool" where
  "rt_ok s \<longleftrightarrow>
     (\<forall>i. rt_threads s i \<noteq> None \<longrightarrow> i \<in> set (rt_seen s)) \<and>
     (\<forall>j. get0 0 (rt_gates s) j = card (holding s j) \<and> get0 0 (rt_gates s) j \<le> 1) \<and>
     (\<forall>j. get0 0 (rt_busy s) j = int (card (running s j))) \<and>
     (\<forall>i j. rt_index s i = Some j \<longleftrightarrow> i \<in> running s j) \<and>
     (\<forall>i. trace_ok s i) \<and>
     (\<forall>i j. rt_threads s i = Some (RunsJob j False) \<longrightarrow> rt_policy s i = Some ''allow'')"

lemma rt_ok_new [inv_intro]: "rt_ok new_rt"
  by (simp add: rt_ok_def new_rt_def holding_def running_def trace_ok_def run_trace_def)

lemma rt_okD:
  assumes "rt_ok s"
  shows "rt_threads s i \<noteq> None \<Longrightarrow> i \<in> set (rt_seen s)"
    and "get0 0 (rt_gates s) j = card (holding s j)" "get0 0 (rt_gates s) j \<le> 1"
    and "get0 0 (rt_busy s) j = int (card (running s j))"
    and "rt_index s i = Some j \<longleftrightarrow> i \<in> running s j"
    and "trace_ok s i"
    and "rt_threads s i = Some (RunsJob j False) \<Longrightarrow> rt_policy s i = Some ''allow''"
  using assms unfolding rt_ok_def by blast+

lemma rt_okI:
  assumes "\<And>i. rt_threads s i \<noteq> None \<Longrightarrow> i \<in> set (rt_seen s)"
    and "\<And>j. get0 0 (rt_gates s) j = card (holding s j) \<and> get0 0 (rt_gates s) j \<le> 1"
    and "\<And>j. get0 0 (rt_busy s) j = int (card (running s j))"
    and "\<And>i j. rt_index s i = Some j \<longleftrightarrow> i \<in> running s j"
    and "\<And>i. trace_ok s i"
    and "\<And>i j. rt_threads s i = Some (RunsJob j False) \<Longrightarrow> rt_policy s i = Some ''allow''"
  shows "rt_ok s"
  using assms unfolding rt_ok_def by blast

lemma finite_running: "rt_ok s \<Longrightarrow> finite (running s j)" "rt_ok s \<Longrightarrow> finite (holding s j)"
proof -
  assume ok: "rt_ok s"
  have "running s j \<subseteq> set (rt_seen s)" "holding s j \<subseteq> set (rt_seen s)"
    using rt_okD(1)[OF ok] by (auto simp: running_def holding_def)
  then show "finite (running s j)" "finite (holding s j)" by (auto intro: finite_subset)
qed

lemma queue_message_sel [simp]:
  "rt_threads (queue_message b m s) = rt_threads s" "rt_seen (queue_message b m s) = rt_seen s"
  "rt_gates (queue_message b m s) = rt_gates s" "rt_busy (queue_message b m s) = rt_busy s"
  "rt_index (queue_message b m s) = rt_index s" "rt_policy (queue_message b m s) = rt_policy s"
  "rt_offered (queue_message b m s) = rt_offered s @ [m]"
  "rt_queue (queue_message b m s) = (if b then rt_queue s @ [m] else rt_queue s)"
  by (simp_all add: queue_message_def)

lemma start_run_sel:
  "rt_policy (start_run stored s i j d tr g now) = rt_policy s"
  "rt_threads (start_run stored s i j d tr g now) = (rt_threads s)(i \<mapsto> RunsJob j g)"
  "rt_seen (start_run stored s i j d tr g now) = rt_seen s"
  "rt_gates (start_run stored s i j d tr g now) = (if g then (rt_gates s)(j \<mapsto> get0 0 (rt_gates s) j + 1) else rt_gates s)"
  "rt_busy (start_run stored s i j d tr g now) = (rt_busy s)(j \<mapsto> get0 0 (rt_busy s) j + 1)"
  "rt_index (start_run stored s i j d tr g now) = (rt_index s)(i \<mapsto> j)"
  "rt_offered (start_run stored s i j d tr g now) = rt_offered s @ [ARunStarted \<lparr>rs_run_id = i, rs_job_id = j,
     rs_job_version_id = sb_version_id d, rs_trigger = tr, rs_started_at = now\<rparr>]"
  by (simp_all add: start_run_def Let_def record_fire_def track_run_def)

lemma finish_run_sel:
  "rt_policy (finish_run stored s i j g r now) = rt_policy s"
  "rt_threads (finish_run stored s i j g r now) = (rt_threads s)(i := None)"
  "rt_seen (finish_run stored s i j g r now) = rt_seen s"
  "rt_gates (finish_run stored s i j g r now) = (if g then (rt_gates s)(j \<mapsto> get0 0 (rt_gates s) j - 1) else rt_gates s)"
  "rt_busy (finish_run stored s i j g r now) =
     (if get0 0 (rt_busy s) j > 0 then (rt_busy s)(j \<mapsto> get0 0 (rt_busy s) j - 1) else rt_busy s)"
  "rt_index (finish_run stored s i j g r now) = (rt_index s)(i := None)"
  "rt_offered (finish_run stored s i j g r now) = rt_offered s @ [ARunFinished \<lparr>rf_run_id = i, rf_status = er_status r,
     rf_exit_code = to_int32 (er_exit_code r), rf_finished_at = now, rf_duration_ms = to_int32 (er_duration_ms r),
     rf_error = er_err r\<rparr>]"
  by (simp_all add: finish_run_def Let_def release_run_def)

text \<open>A run that has not started, waiting or fresh, starts.\<close>

lemma start_run_ok:
  assumes ok: "rt_ok s" and i: "i \<in> set (rt_seen s)"
    and nr: "\<And>j' g'. rt_threads s i \<noteq> Some (RunsJob j' g')" and tr: "run_trace i (rt_offered s) = []"
    and free: "g \<longrightarrow> get0 0 (rt_gates s) j = 0" and pol: "\<not> g \<longrightarrow> rt_policy s i = Some ''allow''"
  shows "rt_ok (start_run stored s i j d t g now)" (is "rt_ok ?s")
proof (rule rt_okI)
  have R: "running ?s k = (if k = j then insert i (running s j) else running s k)" for k
    using nr by (auto simp: running_def start_run_sel)
  have H: "holding ?s k = (if k = j \<and> g then insert i (holding s j) else holding s k)" for k
    using nr by (auto simp: holding_def start_run_sel)
  have ni: "i \<notin> running s k" "i \<notin> holding s k" for k using nr by (auto simp: running_def holding_def)
  show "k \<in> set (rt_seen ?s)" if "rt_threads ?s k \<noteq> None" for k
    using that rt_okD(1)[OF ok, of k] i by (auto simp: start_run_sel split: if_splits)
  show "get0 0 (rt_gates ?s) k = card (holding ?s k) \<and> get0 0 (rt_gates ?s) k \<le> 1" for k
    using rt_okD(2,3)[OF ok, of k] free ni(2)[of j] finite_running(2)[OF ok, of j] by (auto simp: H start_run_sel)
  show "get0 0 (rt_busy ?s) k = int (card (running ?s k))" for k
    using rt_okD(4)[OF ok, of k] ni(1)[of j] finite_running(1)[OF ok, of j] by (auto simp: R start_run_sel)
  show "rt_index ?s k = Some l \<longleftrightarrow> k \<in> running ?s l" for k l
    using rt_okD(5)[OF ok, of k l] ni(1)[of l] by (auto simp: R start_run_sel)
  show "trace_ok ?s k" for k
  proof (cases "k = i")
    case True
    with tr show ?thesis by (simp add: trace_ok_def start_run_sel run_trace_snoc)
  next
    case False
    with rt_okD(6)[OF ok, of k] show ?thesis by (elim trace_ok_cong) (simp_all add: start_run_sel run_trace_snoc)
  qed
  show "rt_policy ?s k = Some ''allow''" if "rt_threads ?s k = Some (RunsJob l False)" for k l
    using that pol rt_okD(7)[OF ok, of k l] by (auto simp: start_run_sel split: if_splits)
qed

lemma finish_run_ok:
  assumes ok: "rt_ok s" and i: "rt_threads s i = Some (RunsJob j g)"
  shows "rt_ok (finish_run stored s i j g r now)" (is "rt_ok ?s")
proof (rule rt_okI)
  have R: "running ?s k = running s k - {i}" for k by (auto simp: running_def finish_run_sel)
  have H: "holding ?s k = holding s k - {i}" for k by (auto simp: holding_def finish_run_sel)
  have mem: "i \<in> running s k \<longleftrightarrow> k = j" "i \<in> holding s k \<longleftrightarrow> k = j \<and> g" for k
    using i by (auto simp: running_def holding_def)
  show "k \<in> set (rt_seen ?s)" if "rt_threads ?s k \<noteq> None" for k
    using that rt_okD(1)[OF ok, of k] by (auto simp: finish_run_sel split: if_splits)
  show "get0 0 (rt_gates ?s) k = card (holding ?s k) \<and> get0 0 (rt_gates ?s) k \<le> 1" for k
    using rt_okD(2,3)[OF ok, of k] mem(2)[of k] finite_running(2)[OF ok, of k] by (auto simp: H finish_run_sel)
  show "get0 0 (rt_busy ?s) k = int (card (running ?s k))" for k
  proof (cases "k = j")
    case True
    have "0 < card (running s j)" using mem(1)[of j] finite_running(1)[OF ok, of j] by (auto simp: card_gt_0_iff)
    with True rt_okD(4)[OF ok, of j] mem(1)[of j] show ?thesis by (simp add: R finish_run_sel)
  next
    case False
    with rt_okD(4)[OF ok, of k] mem(1)[of k] show ?thesis by (simp add: R finish_run_sel)
  qed
  show "rt_index ?s k = Some l \<longleftrightarrow> k \<in> running ?s l" for k l
    using rt_okD(5)[OF ok, of k l] by (auto simp: R finish_run_sel)
  show "trace_ok ?s k" for k
  proof (cases "k = i")
    case True
    have "i \<in> set (rt_seen s)" using rt_okD(1)[OF ok, of i] i by simp
    with True rt_okD(6)[OF ok, of i] i show ?thesis
      by (auto simp: trace_ok_def finish_run_sel run_trace_snoc)
  next
    case False
    with rt_okD(6)[OF ok, of k] show ?thesis by (elim trace_ok_cong) (simp_all add: finish_run_sel run_trace_snoc)
  qed
  show "rt_policy ?s k = Some ''allow''" if "rt_threads ?s k = Some (RunsJob l False)" for k l
    using that rt_okD(7)[OF ok, of k l] by (auto simp: finish_run_sel split: if_splits)
qed

text \<open>A step that changes neither runs nor gates.\<close>

lemma rt_ok_frame:
  assumes ok: "rt_ok s" and rh: "running t = running s" "holding t = holding s"
    and f: "rt_gates t = rt_gates s" "rt_busy t = rt_busy s" "rt_index t = rt_index s"
    and seen: "\<And>k. rt_threads t k \<noteq> None \<Longrightarrow> k \<in> set (rt_seen t)" and tr: "\<And>k. trace_ok t k"
    and pol: "\<And>k l. rt_threads t k = Some (RunsJob l False) \<Longrightarrow> rt_policy t k = Some ''allow''"
  shows "rt_ok t"
proof (rule rt_okI)
  show "get0 0 (rt_gates t) j = card (holding t j) \<and> get0 0 (rt_gates t) j \<le> 1" for j
    unfolding rh f using rt_okD(2,3)[OF ok, of j] by blast
  show "get0 0 (rt_busy t) j = int (card (running t j))" for j
    unfolding rh f by (rule rt_okD(4)[OF ok])
  show "rt_index t i = Some j \<longleftrightarrow> i \<in> running t j" for i j
    unfolding rh f by (rule rt_okD(5)[OF ok])
qed (use seen tr pol in auto)

lemma rt_ok_same:
  assumes ok: "rt_ok s" and f: "rt_threads t = rt_threads s" "rt_gates t = rt_gates s" "rt_busy t = rt_busy s"
    "rt_index t = rt_index s" "set (rt_seen s) \<subseteq> set (rt_seen t)" "rt_offered t = rt_offered s"
    and pol: "\<And>k. rt_threads s k \<noteq> None \<Longrightarrow> rt_policy t k = rt_policy s k"
  shows "rt_ok t"
proof (rule rt_ok_frame[OF ok])
  show "running t = running s" "holding t = holding s" by (simp_all add: running_def holding_def f(1) fun_eq_iff)
  show "k \<in> set (rt_seen t)" if "rt_threads t k \<noteq> None" for k
    using that rt_okD(1)[OF ok, of k] f(1,5) by auto
  show "trace_ok t k" for k using rt_okD(6)[OF ok, of k] by (rule trace_ok_cong) (simp_all add: f)
  show "rt_policy t k = Some ''allow''" if "rt_threads t k = Some (RunsJob l False)" for k l
    using that rt_okD(7)[OF ok, of k l] pol[of k] f(1) by simp
qed (simp_all add: f)

lemma emit_ok:
  assumes ok: "rt_ok s" and i: "rt_threads s i = Some (RunsJob j g)"
  shows "rt_ok (emit_line stored s i c)" (is "rt_ok ?s")
proof -
  obtain st q d where c: "c = (st, q, d)" by (cases c)
  have "trace_ok ?s k" for k
  proof (cases "k = i")
    case True
    from rt_okD(6)[OF ok, of i] i obtain n where "run_trace i (rt_offered s) = TStart # replicate n TLine"
      by (auto simp: trace_ok_def)
    with True i show ?thesis
      by (simp add: trace_ok_def emit_line_def c run_trace_snoc) (rule exI[of _ "Suc n"], simp add: replicate_append_same)
  next
    case False
    then have "run_trace k (rt_offered ?s) = run_trace k (rt_offered s)" "rt_threads ?s = rt_threads s" "rt_seen ?s = rt_seen s"
      by (simp_all add: emit_line_def c run_trace_snoc)
    with rt_okD(6)[OF ok, of k] show ?thesis by (elim trace_ok_cong) simp_all
  qed
  moreover have th: "rt_threads ?s = rt_threads s" "rt_seen ?s = rt_seen s" by (simp_all add: emit_line_def c)
  ultimately show ?thesis
    using rt_okD(1,7)[OF ok]
    by (intro rt_ok_frame[OF ok]) (simp_all add: running_def holding_def th fun_eq_iff, simp_all add: emit_line_def c)
qed

text \<open>A waiting run appears or disappears.\<close>

lemma wait_ok:
  assumes ok: "rt_ok s" and i: "i \<in> set (rt_seen s)" and tr: "run_trace i (rt_offered s) = []"
    and nr: "\<And>j' g'. rt_threads s i \<noteq> Some (RunsJob j' g')" and th: "\<And>j' g'. th \<noteq> Some (RunsJob j' g')"
  shows "rt_ok (s\<lparr>rt_threads := (rt_threads s)(i := th)\<rparr>)" (is "rt_ok ?s")
proof -
  have "running ?s = running s" "holding ?s = holding s"
    using nr th by (auto simp: running_def holding_def fun_eq_iff split: if_splits)
  moreover have "trace_ok ?s k" for k
  proof (cases "k = i")
    case True
    with tr th show ?thesis by (auto simp: trace_ok_def split: option.splits run_thread.splits)
  next
    case False
    with rt_okD(6)[OF ok, of k] show ?thesis by (elim trace_ok_cong) simp_all
  qed
  moreover have "k \<in> set (rt_seen ?s)" if "rt_threads ?s k \<noteq> None" for k
    using that i rt_okD(1)[OF ok, of k] by (cases "k = i") auto
  moreover have "rt_policy ?s k = Some ''allow''" if "rt_threads ?s k = Some (RunsJob l False)" for k l
    using that th rt_okD(7)[OF ok, of k l] by (cases "k = i") auto
  ultimately show ?thesis by (intro rt_ok_frame[OF ok]) simp_all
qed

lemma rt_step_ok: "rt_step s t \<Longrightarrow> rt_ok s \<Longrightarrow> rt_ok t"
proof (induction rule: rt_step.induct)
  case (fire i s j stored trigger now)
  let ?s = "s\<lparr>rt_seen := i # rt_seen s, rt_policy := (rt_policy s)(i := map_option sb_concurrency_policy (rt_jobs s j))\<rparr>"
  have th: "rt_threads s i = None" using rt_okD(1)[OF fire(2), of i] fire(1) by (cases "rt_threads s i") auto
  have ok: "rt_ok ?s" by (rule rt_ok_same[OF fire(2)]) (use th in auto)
  have tr: "run_trace i (rt_offered s) = []" using rt_okD(6)[OF fire(2), of i] th fire(1) by (simp add: trace_ok_def)
  have comm: "(execute_run stored s j i trigger now)\<lparr>rt_seen := i # rt_seen s,
      rt_policy := (rt_policy s)(i := map_option sb_concurrency_policy (rt_jobs s j))\<rparr> = execute_run stored ?s j i trigger now"
    by (simp add: execute_run_def start_run_def Let_def record_fire_def track_run_def queue_message_def
        split: option.splits admission.splits)
  have "rt_ok (execute_run stored ?s j i trigger now)"
  proof (cases "rt_jobs s j")
    case None
    with ok show ?thesis by (simp add: execute_run_def)
  next
    case (Some d)
    show ?thesis
    proof (cases "admit (sb_concurrency_policy d) (get0 0 (rt_gates s) j)")
      case (Admitted g)
      then have "g \<longrightarrow> get0 0 (rt_gates ?s) j = 0" "\<not> g \<longrightarrow> rt_policy ?s i = Some ''allow''"
        using Some by (auto simp: admit_def split: if_splits)
      from start_run_ok[OF ok _ _ _ this] th tr Some Admitted show ?thesis by (simp add: execute_run_def)
    next
      case Refused
      with ok Some show ?thesis by (simp add: execute_run_def)
    next
      case MustWait
      from wait_ok[OF ok, of i "Some (WaitsGate j d trigger)"] th tr Some MustWait show ?thesis
        by (simp add: execute_run_def)
    qed
  qed
  with comm show ?case by simp
next
  case (grant s i j d trigger stored now)
  have "run_trace i (rt_offered s) = []" using rt_okD(6)[OF grant(3), of i] grant(1) by (simp add: trace_ok_def)
  moreover have "i \<in> set (rt_seen s)" using rt_okD(1)[OF grant(3), of i] grant(1) by simp
  ultimately show ?case using grant by (intro start_run_ok) auto
next
  case (give_up s i j d trigger)
  have "run_trace i (rt_offered s) = []" using rt_okD(6)[OF give_up(2), of i] give_up(1) by (simp add: trace_ok_def)
  moreover have "i \<in> set (rt_seen s)" using rt_okD(1)[OF give_up(2), of i] give_up(1) by simp
  ultimately show ?case using give_up by (intro wait_ok) auto
next
  case (emit s i j gated stored c)
  then show ?case using emit_ok by blast
next
  case (finish s i j gated stored r now)
  then show ?case using finish_run_ok by blast
next
  case (cancel s i)
  then show ?case by (rule rt_ok_same) (auto simp: cancel_run_def split: option.splits)
next
  case (sync s m)
  then show ?case by (rule rt_ok_same) auto
qed

lemma rt_reach_ok: "rt_reach new_rt s \<Longrightarrow> rt_ok s"
  by (induction rule: rt_reach.induct) (auto intro: rt_ok_new rt_step_ok)


section \<open>Properties\<close>

text \<open>C5. However runs of a job are fired, wait, finish, are canceled, and however its definition
  changes meanwhile, two runs fired under definitions whose policy is not \<open>allow\<close> are never in progress at
  once; the index names exactly the runs in progress, and the busy counter counts them.\<close>

theorem gated_runs_never_overlap:
  assumes "rt_reach new_rt s"
    and "rt_threads s a = Some (RunsJob j g)" and "rt_threads s b = Some (RunsJob j h)"
    and "rt_policy s a \<noteq> Some ''allow''" and "rt_policy s b \<noteq> Some ''allow''"
  shows "a = b \<and> rt_index s a = Some j \<and> 0 < get0 0 (rt_busy s) j"
proof -
  have ok: "rt_ok s" by (rule rt_reach_ok[OF assms(1)])
  have g: "g" using rt_okD(7)[OF ok, of a j] assms(2,4) by (cases g) auto
  have h: "h" using rt_okD(7)[OF ok, of b j] assms(3,5) by (cases h) auto
  have "card (holding s j) \<le> 1" using rt_okD(2,3)[OF ok, of j] by simp
  moreover have "a \<in> holding s j" "b \<in> holding s j" using assms(2,3) g h by (simp_all add: holding_def)
  ultimately have "a = b" using finite_running(2)[OF ok, of j] by (auto simp: card_le_Suc0_iff_eq)
  moreover have r: "a \<in> running s j" using assms(2) by (auto simp: running_def)
  moreover have "0 < card (running s j)" using r finite_running(1)[OF ok, of j] by (auto simp: card_gt_0_iff)
  ultimately show ?thesis using rt_okD(4,5)[OF ok] by auto
qed

definition demo_store_job :: "string \<Rightarrow> store_job" where
  "demo_store_job policy = proto_to_store \<lparr>jd_id = ''j'', jd_version_id = ''v'', jd_version_number = 1, jd_name = ''n'',
     jd_interpreter = [], jd_script_body = ''true'', jd_schedule_cron = ''* * * * *'', jd_timezone = ''UTC'',
     jd_enabled = True, jd_timeout_seconds = 0, jd_concurrency_policy = policy, jd_catchup_policy = ''once'',
     jd_max_retries = 2, jd_working_dir = [], jd_run_as_user = [], jd_env = Map.empty, jd_secrets = Map.empty,
     jd_cpu_quota_percent = 0, jd_memory_max_mb = 0, jd_tasks_max = 0, jd_io_weight = 0\<rparr>"

definition demo_fired :: rt where
  "demo_fired = (execute_run True (new_rt\<lparr>rt_jobs := [''j'' \<mapsto> demo_store_job ''skip'']\<rparr>) ''j'' ''r1'' ''schedule'' 5)
     \<lparr>rt_seen := [''r1''], rt_policy := [''r1'' \<mapsto> ''skip'']\<rparr>"

lemma demo_fired_reach: "rt_reach new_rt demo_fired"
proof -
  let ?s = "new_rt\<lparr>rt_jobs := [''j'' \<mapsto> demo_store_job ''skip'']\<rparr>"
  have "rt_step ?s ((execute_run True ?s ''j'' ''r1'' ''schedule'' 5)\<lparr>rt_seen := ''r1'' # rt_seen ?s,
      rt_policy := (rt_policy ?s)(''r1'' := map_option sb_concurrency_policy (rt_jobs ?s ''j''))\<rparr>)"
    by (rule rt_step.fire) (simp add: new_rt_def)
  then have "rt_step ?s demo_fired" by (simp add: demo_fired_def new_rt_def demo_store_job_def proto_to_store_def)
  moreover have "rt_reach new_rt ?s" by (rule rt_reach.step[OF rt_reach.start rt_step.sync])
  ultimately show ?thesis by (rule rt_reach.step[rotated])
qed

lemma demo_fired_thread: "rt_threads demo_fired ''r1'' = Some (RunsJob ''j'' True)" "rt_policy demo_fired ''r1'' = Some ''skip''"
  by (simp_all add: demo_fired_def execute_run_def demo_store_job_def proto_to_store_def admit_def new_rt_def start_run_sel)

theorem gated_runs_never_overlap_witness:
  "rt_threads demo_fired ''r1'' = Some (RunsJob ''j'' True) \<and> rt_index demo_fired ''r1'' = Some ''j'' \<and>
   0 < get0 0 (rt_busy demo_fired) ''j''"
  using gated_runs_never_overlap[OF demo_fired_reach demo_fired_thread(1) demo_fired_thread(1)] demo_fired_thread by simp

lemma subseq_concat_map: "subseq xs ys \<Longrightarrow> subseq (concat (map f xs)) (concat (map f ys))"
  by (induction rule: list_emb.induct) (auto intro: list_emb_append2 list_emb_append_mono)

lemma rt_reach_stored: "rt_reach new_rt s \<Longrightarrow> subseq (rt_queue s) (rt_offered s)"
proof (induction rule: rt_reach.induct)
  case (step s t)
  have q: "subseq (rt_queue (queue_message b m u)) (rt_offered (queue_message b m u))"
    if "subseq (rt_queue u) (rt_offered u)" for b m u
    using that list_emb_append_mono[OF that, of "[m]" "[m]"] list_emb_append2[OF that, of "[]"]
    by (cases b) (auto intro: subseq_order.trans)
  from step.hyps(2) step.IH show ?case
    by (cases rule: rt_step.cases)
       (auto simp: execute_run_def start_run_def finish_run_def emit_line_def record_fire_def track_run_def release_run_def Let_def
         cancel_run_def split: option.splits admission.splits prod.splits intro!: list_emb_append_mono)
qed (simp add: new_rt_def)

text \<open>C6. Whatever interleaves, the events of one run are handed to the queue as \<open>RunStarted\<close>, then its log
  lines, then \<open>RunFinished\<close>, each of the two at most once, and a run that is over has the full sequence. A
  message that the outbox does not store is dropped: what the queue got is a part of it in the same order,
  and all of it where every message was stored.\<close>

theorem run_events_in_order:
  assumes "rt_reach new_rt s"
  shows "(run_trace i (rt_offered s) = [] \<or>
      (\<exists>n. run_trace i (rt_offered s) = TStart # replicate n TLine @ (if rt_threads s i = None then [TEnd] else []))) \<and>
    subseq (run_trace i (rt_queue s)) (run_trace i (rt_offered s)) \<and>
    (length (rt_queue s) = length (rt_offered s) \<longrightarrow> rt_queue s = rt_offered s)"
proof -
  have "trace_ok s i" using rt_okD(6)[OF rt_reach_ok[OF assms]] .
  moreover have sub: "subseq (rt_queue s) (rt_offered s)" by (rule rt_reach_stored[OF assms])
  then have "subseq (run_trace i (rt_queue s)) (run_trace i (rt_offered s))" unfolding run_trace_def by (rule subseq_concat_map)
  moreover have "length (rt_queue s) = length (rt_offered s) \<longrightarrow> rt_queue s = rt_offered s" using sub subseq_same_length by blast
  ultimately show ?thesis by (cases "rt_threads s i") (auto simp: trace_ok_def split: run_thread.splits)
qed

theorem run_events_in_order_witness:
  "run_trace ''r1'' (rt_queue demo_fired) = [TStart] \<and> (\<exists>n. run_trace ''r1'' (rt_offered demo_fired) = TStart # replicate n TLine)"
proof -
  have t: "run_trace ''r1'' (rt_queue demo_fired) = [TStart]" "run_trace ''r1'' (rt_offered demo_fired) = [TStart]"
    by (simp_all add: demo_fired_def execute_run_def demo_store_job_def proto_to_store_def admit_def new_rt_def start_run_sel
        run_trace_def start_run_def Let_def record_fire_def track_run_def)
  with run_events_in_order[OF demo_fired_reach, of "''r1''"] demo_fired_thread(1) show ?thesis by auto
qed

text \<open>C12. A run makes at most one attempt more than its retries allow: the attempts go on exactly
  while the last one plainly failed, retries are left and the context lives, the result is that of the
  last attempt, and what is logged is the attempts in order.\<close>

theorem retries_stop:
  "\<exists>k. int k \<le> max mx 0 \<and> stops run gone mx k \<and> list_all (\<lambda>i. \<not> stops run gone mx i) [0 ..< k] \<and>
     run_with_retries run gone mx 0 = (concat (map (attempt_out run mx) [0 ..< Suc k]), snd (run k))"
  using run_with_retries_spec[where n = 0 and run = run and gone = gone and mx = mx] by auto

text \<open>The lines of different attempts of a run get different keys, as long as an attempt writes
  fewer lines than a block and there are fewer attempts than the int32 has room for.\<close>

theorem attempt_lines_apart:
  assumes "int m \<le> 2147" and "list_all (\<lambda>n. int (length (started_lines (env n) j)) < seq_block) [0 ..< m]"
  shows "distinct (keys (concat (map (\<lambda>n. attempt_sink n (fst (executor_run (env n) j))) [0 ..< m])))"
proof -
  have "distinct (keys (fst (executor_run (env n) j))) \<and> seqs_in_block (fst (executor_run (env n) j))" if "n < m" for n
  proof -
    have "int (length (started_lines (env n) j)) < seq_block" using assms(2) that by (simp add: list_all_iff)
    with executor_keys_in[of _ _ "env n" j] executor_keys_distinct[of "env n" j] show ?thesis
      by (fastforce simp: seqs_in_block_def list_all_iff)
  qed
  with concat_blocks_distinct[of m "\<lambda>n. fst (executor_run (env n) j)"] assms(1) show ?thesis by blast
qed

definition plain_job :: exec_job where
  "plain_job = demo_exec_job\<lparr>ej_run_as_user := [], ej_cpu_quota_percent := 0\<rparr>"

theorem attempt_lines_apart_witness:
  "distinct (keys (concat (map (\<lambda>n. attempt_sink n (fst (executor_run (demo_env False) plain_job))) [0 ..< 2])))"
  by (rule attempt_lines_apart) (simp_all add: started_lines_def demo_env_def demo_process_def seq_block_def upt_rec split: option.splits)

text \<open>The line that announces a retry is numbered like the first line of its attempt: when the
  attempt writes to standard error, the two have the same key.\<close>

theorem retry_banner_collides:
  assumes "0 < n" and "(''stderr'', 0) \<in> set (keys (fst (run n)))"
  shows "\<not> distinct (keys (attempt_out run mx n))"
proof -
  have "keys (attempt_out run mx n) = (''stderr'', to_int32 (int n * seq_block + 0)) # keys (attempt_sink n (fst (run n)))"
    using assms(1) by (simp add: attempt_out_def attempt_sink_def retry_banner_def)
  moreover have "(''stderr'', to_int32 (int n * seq_block + 0)) \<in> set (keys (attempt_sink n (fst (run n))))"
    unfolding keys_sink using assms(2) by force
  ultimately show ?thesis by simp
qed

lemma plain_run: "fst (executor_run (demo_env False) plain_job) = [(''stderr'', 0, ''oops'')]"
  by (simp add: executor_run_def executor_start_def Let_def plain_job_def demo_exec_job_def demo_env_def demo_process_def resolve_user_def run_notes_def job_limited_def)

theorem retry_banner_collides_witness:
  "\<not> distinct (keys (attempt_out (\<lambda>n. executor_run (demo_env False) plain_job) 2 1))"
  by (rule retry_banner_collides) (simp_all add: plain_run)

text \<open>Catch-up lists at most twenty windows, each after the last run and before now, in order, and
  all of them when there are fewer than twenty; provided the schedule has a next time after any
  instant.\<close>

theorem missed_windows_exact:
  assumes "parse (sb_schedule_cron def) (sb_timezone def) = Some nxt" and "\<And>t. t < nxt t"
  shows "length (missed_windows parse def since now) \<le> 20 \<and>
    list_all (\<lambda>t. since < t \<and> t < now) (missed_windows parse def since now) \<and>
    sorted_wrt (<) (missed_windows parse def since now) \<and>
    (length (missed_windows parse def since now) < 20 \<longrightarrow>
       now \<le> nxt (last (since # missed_windows parse def since now)))"
proof -
  let ?m = "missed_loop nxt now max_catchup_runs since"
  have m: "missed_windows parse def since now = ?m" using assms(1) by (simp add: missed_windows_def)
  from missed_loop_bounds[of nxt now max_catchup_runs since]
  have "length ?m \<le> 20" "list_all (\<lambda>t. t < now) ?m" by (simp_all add: max_catchup_runs_def)
  moreover have "sorted_wrt (<) (since # ?m)" using assms(2) by (rule missed_loop_sorted)
  ultimately show ?thesis
    unfolding m using missed_loop_complete[of nxt now max_catchup_runs since]
    by (auto simp: list_all_iff max_catchup_runs_def not_less)
qed

theorem missed_windows_exact_witness:
  "missed_windows (\<lambda>_ _. Some (\<lambda>t. t + 60)) (demo_store_job ''skip'') 0 150 = [60, 120] \<and>
   sorted_wrt (<) (missed_windows (\<lambda>_ _. Some (\<lambda>t. t + 60)) (demo_store_job ''skip'') 0 150)"
proof -
  have "missed_windows (\<lambda>_ _. Some (\<lambda>t. t + 60)) (demo_store_job ''skip'') 0 150 = [60, 120]"
    by (simp add: missed_windows_def max_catchup_runs_def eval_nat_numeral)
  with missed_windows_exact[of "\<lambda>_ _. Some (\<lambda>t. t + 60)" "demo_store_job ''skip''" "\<lambda>t. t + 60" 0 150]
  show ?thesis by auto
qed

text \<open>A schedule that never comes, for which the cron library's \<open>Next\<close> is the zero time, counts
  as twenty missed windows on every start after the first.\<close>

theorem impossible_schedule_catches_up:
  assumes "parse (sb_schedule_cron def) (sb_timezone def) = Some (\<lambda>_. zero)" and "zero < now"
    and "sb_enabled def" and "sb_catchup_policy def = ''all''" and "state (sb_id def) = Some since"
  shows "catchup_of parse state now def = CatchRuns 20"
proof -
  have "missed_windows parse def since now = replicate max_catchup_runs zero"
    using assms(1,2) by (simp add: missed_windows_def missed_loop_const)
  with assms(3-5) show ?thesis by (simp add: catchup_of_def max_catchup_runs_def)
qed

theorem impossible_schedule_catches_up_witness:
  "catchup_of (\<lambda>_ _. Some (\<lambda>_. 0)) [''j'' \<mapsto> 100] 200 ((demo_store_job ''skip'')\<lparr>sb_catchup_policy := ''all''\<rparr>) = CatchRuns 20"
  by (rule impossible_schedule_catches_up[where zero = 0 and since = 100])
    (simp_all add: demo_store_job_def proto_to_store_def)

end
