(* ===== verification/DeployTypes.thy ===== *)
theory DeployTypes
  imports Messages
begin

text \<open>
  The data of \<open>control-plane/internal/deploys\<close>: projects and runs (\<open>model.go\<close>), apps and the
  croncompose.yml document (\<open>spec.go\<close>), environment variables (\<open>env.go\<close>), the body of a PATCH
  (\<open>update.go\<close>) and of an import (\<open>import_process.go\<close>). A nil slice or map and an empty one are
  the same here: the code distinguishes them only when it writes JSON. Times are nanoseconds. A
  pointer field of an input that may be absent is an option.
\<close>

record env_var =
  ev_key :: string
  ev_value :: string
  ev_value_enc :: string
  ev_sensitive :: bool
  ev_has_value :: bool

record spec_health =
  sh_path :: string
  sh_port :: int
  sh_timeout :: int

record spec_app =
  sa_name :: string
  sa_root :: string
  sa_language :: string
  sa_install :: string
  sa_run :: string
  sa_cleanup :: string
  sa_pre_start :: string
  sa_port :: int
  sa_process_manager :: string
  sa_env :: "env_var list"
  sa_health :: "spec_health option"
  sa_process_name :: string
  sa_start_group :: int

record project =
  pj_id :: string
  pj_name :: string
  pj_provider :: string
  pj_repo_full_name :: string
  pj_repo_id :: string
  pj_clone_url :: string
  pj_default_branch :: string
  pj_server_id :: string
  pj_language :: string
  pj_install_script :: string
  pj_root_directory :: string
  pj_clone_path :: string
  pj_port :: int
  pj_process_manager :: string
  pj_run_as_user :: string
  pj_env :: "string \<rightharpoonup> string"
  pj_apps :: "spec_app list"
  pj_redeploy_on :: "string list"
  pj_write_spec :: bool
  pj_auto_rollback :: bool
  pj_on_wave_failure :: string
  pj_flow :: "flow_task list list"
  pj_health_path :: string
  pj_health_port :: int
  pj_health_timeout_seconds :: int
  pj_deploy_timeout_seconds :: int
  pj_health_state :: string
  pj_created_by :: "string option"
  pj_created_at :: int
  pj_updated_at :: int

record deploy_run =
  dr_id :: string
  dr_project_id :: string
  dr_server_id :: string
  dr_trigger :: string
  dr_status :: string
  dr_branch :: string
  dr_commit_sha :: string
  dr_exit_code :: "int option"
  dr_error :: string
  dr_started_at :: "int option"
  dr_finished_at :: "int option"
  dr_created_at :: int

record create_input =
  ci_name :: string
  ci_provider :: string
  ci_repo_full_name :: string
  ci_repo_id :: string
  ci_clone_url :: string
  ci_default_branch :: string
  ci_server_id :: string
  ci_language :: string
  ci_install_script :: string
  ci_root_directory :: string
  ci_clone_path :: string
  ci_port :: int
  ci_process_manager :: string
  ci_run_as_user :: string
  ci_env :: "string \<rightharpoonup> string"
  ci_apps :: "spec_app list"
  ci_write_spec :: "bool option"
  ci_spec_from_repo :: bool
  ci_auto_rollback :: bool
  ci_on_wave_failure :: string
  ci_health_path :: string
  ci_health_port :: int
  ci_health_timeout_seconds :: int
  ci_deploy_timeout_seconds :: int
  ci_redeploy_on :: "string list"
  ci_flow :: "flow_task list list"

record update_input =
  ui_name :: "string option"
  ui_default_branch :: "string option"
  ui_server_id :: "string option"
  ui_language :: "string option"
  ui_install_script :: "string option"
  ui_root_directory :: "string option"
  ui_clone_path :: "string option"
  ui_port :: "int option"
  ui_process_manager :: "string option"
  ui_run_as_user :: "string option"
  ui_env :: "(string \<rightharpoonup> string) option"
  ui_apps :: "spec_app list option"
  ui_write_spec :: "bool option"
  ui_auto_rollback :: "bool option"
  ui_on_wave_failure :: "string option"
  ui_health_path :: "string option"
  ui_health_port :: "int option"
  ui_health_timeout_seconds :: "int option"
  ui_deploy_timeout_seconds :: "int option"
  ui_redeploy_on :: "string list option"
  ui_flow :: "flow_task list list option"

record deploy_spec =
  sp_version :: int
  sp_name :: string
  sp_provider :: string
  sp_repo :: string
  sp_branch :: string
  sp_server :: string
  sp_language :: string
  sp_install :: string
  sp_run :: string
  sp_cleanup :: string
  sp_pre_start :: string
  sp_root :: string
  sp_port :: int
  sp_process_manager :: string
  sp_clone_path :: string
  sp_apps :: "spec_app list"
  sp_env :: "string \<rightharpoonup> string"
  sp_health :: "spec_health option"
  sp_deploy_timeout :: int
  sp_auto_rollback :: bool
  sp_on_wave_failure :: string
  sp_redeploy_on :: "string list"
  sp_flow :: "flow_task list list"

record import_input =
  ip_kind :: string
  ip_ref :: string
  ip_name :: string
  ip_command :: string
  ip_cwd :: string
  ip_provider :: string
  ip_repo_full_name :: string
  ip_clone_url :: string
  ip_default_branch :: string
  ip_language :: string
  ip_env :: "string \<rightharpoonup> string"
  ip_process_manager :: string

end
