(* ===== verification/Naming.thy ===== *)
theory Naming
  imports DeployTypes Paths
begin

text \<open>
  Names, references and directories of a deploy: the process names of
  \<open>control-plane/internal/deploys/procname.go\<close> and the agent's own copy of it
  (\<open>agent/internal/deploy/procname.go\<close>), the redeploy modes, wave policies and git references
  (\<open>redeploy.go\<close>, \<open>wave_failure.go\<close>, \<open>webhook.go\<close>), the clone path of an account
  (\<open>userpath.go\<close>) and clone addresses (\<open>giturl.go\<close>). A regular expression that replaces every
  run of other characters is \<open>replace_runs\<close>; on UTF-8 text it acts on bytes as the original acts on
  code points, since every byte of a code point above ASCII is outside the classes used.
\<close>

section \<open>Replacing\<close>

text \<open>\<open>strings.ReplaceAll\<close> with a first argument that is not empty\<close>

function replace_all :: "string \<Rightarrow> string \<Rightarrow> string \<Rightarrow> string" where
  "replace_all old new s =
     (case s of
        [] \<Rightarrow> []
      | c # cs \<Rightarrow>
          if old \<noteq> [] \<and> has_prefix s old then new @ replace_all old new (drop (length old) s)
          else c # replace_all old new cs)"
  by pat_completeness auto
termination by (relation "measure (\<lambda>(old, new, s). length s)") auto

declare replace_all.simps [simp del]

text \<open>\<open>regexp.MustCompile("[^...]+").ReplaceAllString\<close>\<close>

function replace_runs :: "(char \<Rightarrow> bool) \<Rightarrow> string \<Rightarrow> string \<Rightarrow> string" where
  "replace_runs ok rep [] = []"
| "replace_runs ok rep (c # cs) =
     (if ok c then c # replace_runs ok rep cs
      else rep @ replace_runs ok rep (dropWhile (\<lambda>x. \<not> ok x) cs))"
  by pat_completeness auto
termination
  by (relation "measure (\<lambda>(ok, rep, s). length s)") (auto simp: less_Suc_eq_le length_dropWhile_le)

lemma replace_runs_set:
  "c \<in> set (replace_runs ok rep s) \<Longrightarrow> (c \<in> set s \<and> ok c) \<or> c \<in> set rep"
proof (induction ok rep s rule: replace_runs.induct)
  case (2 ok rep d cs)
  then show ?case by (auto split: if_splits dest: set_dropWhileD)
qed simp

lemma replace_runs_id: "list_all ok s \<Longrightarrow> replace_runs ok rep s = s"
  by (induction ok rep s rule: replace_runs.induct) auto

lemma str_contains_Nil: "str_contains [] p \<longleftrightarrow> p = []"
  by (auto simp: str_contains_def str_index.simps[of "[]"] has_prefix_def)

lemma str_contains_Cons: "str_contains (c # s) p \<longleftrightarrow> has_prefix (c # s) p \<or> str_contains s p"
  by (auto simp: str_contains_def str_index.simps[of "c # s"])

lemma replace_all_length_le: "length new \<le> length old \<Longrightarrow> length (replace_all old new s) \<le> length s"
proof (induction old new s rule: replace_all.induct)
  case (1 old new s)
  show ?case
  proof (cases s)
    case (Cons c cs)
    have l: "has_prefix s old \<Longrightarrow> length old \<le> length s"
      by (metis has_prefix_def length_take min.cobounded1)
    show ?thesis
      using 1(1)[OF Cons] 1(2)[OF Cons] 1(3) l Cons
      by (auto simp: replace_all.simps[of old new "c # cs"])
  qed (simp add: replace_all.simps)
qed

lemma replace_all_length:
  "length new < length old \<Longrightarrow> str_contains s old \<Longrightarrow> length (replace_all old new s) < length s"
proof (induction old new s rule: replace_all.induct)
  case (1 old new s)
  show ?case
  proof (cases s)
    case Nil
    with 1 show ?thesis by (auto simp: str_contains_Nil)
  next
    case (Cons c cs)
    have ne: "old \<noteq> []" using 1(3) by auto
    show ?thesis
    proof (cases "has_prefix s old")
      case True
      then have "length old \<le> length s" by (metis has_prefix_def length_take min.cobounded1)
      moreover have "length (replace_all old new (drop (length old) s)) \<le> length (drop (length old) s)"
        using 1(3) by (intro replace_all_length_le) simp
      ultimately show ?thesis using True ne 1(3) Cons by (simp add: replace_all.simps[of old new "c # cs"])
    next
      case False
      then have "str_contains cs old" using 1(4) Cons by (simp add: str_contains_Cons)
      then show ?thesis using 1(2)[OF Cons] 1(3) False Cons by (simp add: replace_all.simps[of old new "c # cs"])
    qed
  qed
qed

section \<open>Process names\<close>

abbreviation dash :: char where "dash \<equiv> CHR ''-''"

definition name_char :: "char \<Rightarrow> bool" where
  "name_char c \<longleftrightarrow> is_lower c \<or> is_upper c \<or> is_digit c \<or> c \<in> {CHR ''.'', CHR ''_'', dash}"

text \<open>\<open>for strings.Contains(n, "--") { n = strings.ReplaceAll(n, "--", "-") }\<close>\<close>

function dedash :: "string \<Rightarrow> string" where
  "dedash n = (if str_contains n ''--'' then dedash (replace_all ''--'' ''-'' n) else n)"
  by pat_completeness auto
termination by (relation "measure length") (auto intro: replace_all_length)

declare dedash.simps [simp del]

definition slug_process_name :: "string \<Rightarrow> string" where
  "slug_process_name s =
     (let n = replace_runs name_char ''-'' (trim_space s); n1 = trim_set n ''-''
      in to_lower (dedash n1))"

definition qualify_process_name :: "string \<Rightarrow> string \<Rightarrow> string" where
  "qualify_process_name project app =
     (let p = slug_process_name project; a = slug_process_name app
      in if p = [] then (if a = [] then ''app'' else a)
         else if a = [] \<or> a = p then p
         else if has_prefix a (p @ ''-'') then a
         else p @ ''-'' @ a)"

definition enrich_process_names :: "string \<Rightarrow> spec_app list \<Rightarrow> spec_app list" where
  "enrich_process_names project apps =
     map (\<lambda>a. if trim_space (sa_process_name a) \<noteq> [] then a
              else let name = (if sa_name a = [] then sa_root a else sa_name a)
                   in a\<lparr>sa_process_name := qualify_process_name project name\<rparr>) apps"

definition process_name_for_deploy :: "string \<Rightarrow> spec_app \<Rightarrow> string \<Rightarrow> string" where
  "process_name_for_deploy project a pm =
     (let n = trim_space (sa_process_name a)
      in if n = [] then []
         else if \<not> equal_fold (trim_space pm) ''pm2'' then n
         else let label = (if sa_name a = [] then sa_root a else sa_name a)
              in if n = qualify_process_name project label then [] else n)"

text \<open>The agent's copy\<close>

definition agent_slug_process_name :: "string \<Rightarrow> string" where
  "agent_slug_process_name s =
     (let n = replace_runs name_char ''-'' (trim_space s); n1 = trim_set n ''-''
      in to_lower (dedash n1))"

definition agent_qualify_process_name :: "string \<Rightarrow> string \<Rightarrow> string" where
  "agent_qualify_process_name project app =
     (let p = agent_slug_process_name project; a = agent_slug_process_name app
      in if p = [] then (if a = [] then ''app'' else a)
         else if a = [] \<or> a = p then p
         else if has_prefix a (p @ ''-'') then a
         else p @ ''-'' @ a)"

definition process_name_for :: "string \<Rightarrow> deploy_app option \<Rightarrow> string" where
  "process_name_for project app =
     (case app of
        Some a \<Rightarrow>
          (let n = trim_space (da_process_name a)
           in if n \<noteq> [] then n
              else let name = (if da_name a = [] then ''app'' else da_name a)
                   in agent_qualify_process_name project name)
      | None \<Rightarrow> agent_qualify_process_name project ''app'')"

section \<open>Redeploy modes, wave policy, git references\<close>

definition normalize_on_wave_failure :: "string \<Rightarrow> string" where
  "normalize_on_wave_failure s = (if to_lower (trim_space s) = ''continue'' then ''continue'' else ''stop'')"

definition redeploy_modes :: "string list" where
  "redeploy_modes = [''branch'', ''tag'', ''release'']"

fun keep_modes :: "string set \<Rightarrow> string list \<Rightarrow> string list" where
  "keep_modes seen [] = []"
| "keep_modes seen (m # ms) =
     (if m \<notin> set redeploy_modes \<or> m \<in> seen then keep_modes seen ms
      else m # keep_modes (insert m seen) ms)"

definition normalize_redeploy_on :: "string list \<Rightarrow> string list" where
  "normalize_redeploy_on modes =
     (let out = keep_modes {} modes in if out = [] then [''branch''] else out)"

definition wants_redeploy :: "project \<Rightarrow> string \<Rightarrow> bool" where
  "wants_redeploy p mode =
     (let modes = (if pj_redeploy_on p = [] then [''branch''] else pj_redeploy_on p)
      in list_ex (\<lambda>m. m = mode) modes)"

definition tag_from_ref :: "string \<Rightarrow> string" where
  "tag_from_ref ref = (if has_prefix ref ''refs/tags/'' then trim_prefix ref ''refs/tags/'' else [])"

definition branch_from_ref :: "string \<Rightarrow> string" where
  "branch_from_ref ref = (if has_prefix ref ''refs/heads/'' then trim_prefix ref ''refs/heads/'' else [])"

definition valid_gitlab_token :: "string \<Rightarrow> string \<Rightarrow> bool" where
  "valid_gitlab_token secret header = (if secret = [] \<or> header = [] then False else secret = header)"

text \<open>The HMAC is a parameter: its hexadecimal digest of a body under a secret.\<close>

definition github_signature :: "(string \<Rightarrow> string \<Rightarrow> string) \<Rightarrow> string \<Rightarrow> string \<Rightarrow> string" where
  "github_signature hmac_hex secret body = ''sha256='' @ hmac_hex secret body"

definition valid_github_signature ::
  "(string \<Rightarrow> string \<Rightarrow> string) \<Rightarrow> string \<Rightarrow> string \<Rightarrow> string \<Rightarrow> bool" where
  "valid_github_signature hmac_hex secret header body \<longleftrightarrow>
     trim_space header = github_signature hmac_hex secret body"

definition same_commit :: "string \<Rightarrow> string \<Rightarrow> bool" where
  "same_commit a0 b0 =
     (let a = trim_space (to_lower a0); b = trim_space (to_lower b0)
      in if a = [] \<or> b = [] then False
         else if a = b then True
         else 7 \<le> length a \<and> 7 \<le> length b \<and> (has_prefix a b \<or> has_prefix b a))"

definition short_sha :: "string \<Rightarrow> string" where
  "short_sha sha = (if 7 < length sha then take 7 sha else sha)"

section \<open>Directories and addresses\<close>

definition clone_path_for_user :: "string \<Rightarrow> string \<Rightarrow> string \<Rightarrow> string" where
  "clone_path_for_user clone_path run_as0 home0 =
     (let run_as = trim_space run_as0; home = trim_right_set (trim_space home0) ''/''
      in if run_as = [] \<or> run_as = ''root'' \<or> home = [] \<or> home = ''/'' then clone_path
         else let cp = path_clean clone_path
              in if cp = ''.'' \<or> cp = ''/'' then path_join [home, ''opt'', ''apps'']
                 else if cp = home \<or> has_prefix cp (home @ ''/'') then cp
                 else if has_prefix cp ''/opt/'' then path_join [home, trim_prefix cp ''/'']
                 else path_join [home, ''opt'', ''apps'', path_base cp])"

definition user_tmp_dir :: "string \<Rightarrow> string \<Rightarrow> string" where
  "user_tmp_dir run_as0 home0 =
     (let run_as = trim_space run_as0; home = trim_right_set (trim_space home0) ''/''
      in if run_as = [] \<or> run_as = ''root'' \<or> home = [] then ''/tmp''
         else path_join [home, ''tmp''])"

definition https_clone_url :: "string \<Rightarrow> string \<Rightarrow> string" where
  "https_clone_url provider full_name0 =
     (let full_name = trim_set full_name0 ''/''
      in if provider = ''gitlab'' then ''https://gitlab.com/'' @ full_name @ ''.git''
         else ''https://github.com/'' @ full_name @ ''.git'')"

section \<open>Slugs are in normal form\<close>

definition slug_char :: "char \<Rightarrow> bool" where
  "slug_char c \<longleftrightarrow> is_lower c \<or> is_digit c \<or> c \<in> {CHR ''.'', CHR ''_'', dash}"

definition no_double_dash :: "string \<Rightarrow> bool" where
  "no_double_dash s \<longleftrightarrow> successively (\<lambda>x y. \<not> (x = dash \<and> y = dash)) s"

definition dash_free_ends :: "string \<Rightarrow> bool" where
  "dash_free_ends s \<longleftrightarrow> s = [] \<or> (hd s \<noteq> dash \<and> last s \<noteq> dash)"

definition is_slug :: "string \<Rightarrow> bool" where
  "is_slug s \<longleftrightarrow> list_all slug_char s \<and> dash_free_ends s \<and> no_double_dash s"

lemma has_prefix_dd: "has_prefix (c # s) ''--'' \<longleftrightarrow> c = dash \<and> s \<noteq> [] \<and> hd s = dash"
  by (cases s) (auto simp: has_prefix_def)

lemma no_double_dash_iff: "no_double_dash s \<longleftrightarrow> \<not> str_contains s ''--''"
  by (induction s)
    (auto simp: no_double_dash_def str_contains_Nil str_contains_Cons has_prefix_dd successively_Cons)

lemma squeeze_shape:
  "s \<noteq> [] \<Longrightarrow> replace_all ''--'' ''-'' s \<noteq> [] \<and> hd (replace_all ''--'' ''-'' s) = hd s \<and>
     last (replace_all ''--'' ''-'' s) = last s \<and> set (replace_all ''--'' ''-'' s) \<subseteq> set s"
proof (induction "''--''" "''-''" s rule: replace_all.induct)
  case (1 s)
  from 1(3) obtain c cs where s: "s = c # cs" by (cases s) auto
  show ?case
  proof (cases "has_prefix s ''--''")
    case True
    then obtain r where r: "s = dash # dash # r" by (auto simp: has_prefix_iff)
    have e: "replace_all ''--'' ''-'' s = dash # replace_all ''--'' ''-'' r"
      using True by (simp add: r replace_all.simps[of _ _ "dash # dash # r"])
    show ?thesis
    proof (cases "r = []")
      case True
      then show ?thesis unfolding e by (simp add: r replace_all.simps[of _ _ "[]"])
    next
      case False
      with 1(1)[OF s] True r
      have "replace_all ''--'' ''-'' r \<noteq> [] \<and> hd (replace_all ''--'' ''-'' r) = hd r \<and>
        last (replace_all ''--'' ''-'' r) = last r \<and> set (replace_all ''--'' ''-'' r) \<subseteq> set r" by simp
      then show ?thesis using False unfolding e by (auto simp: r)
    qed
  next
    case False
    then have e: "replace_all ''--'' ''-'' s = c # replace_all ''--'' ''-'' cs"
      by (simp add: s replace_all.simps[of _ _ "c # cs"])
    show ?thesis
    proof (cases "cs = []")
      case True
      then show ?thesis unfolding e by (simp add: s replace_all.simps[of _ _ "[]"])
    next
      case ne: False
      with 1(2)[OF s] False
      have "replace_all ''--'' ''-'' cs \<noteq> [] \<and> hd (replace_all ''--'' ''-'' cs) = hd cs \<and>
        last (replace_all ''--'' ''-'' cs) = last cs \<and> set (replace_all ''--'' ''-'' cs) \<subseteq> set cs" by simp
      then show ?thesis using ne unfolding e by (auto simp: s)
    qed
  qed
qed

lemma dedash_shape:
  "(dedash s = [] \<longleftrightarrow> s = []) \<and> (s \<noteq> [] \<longrightarrow> hd (dedash s) = hd s \<and> last (dedash s) = last s) \<and>
     set (dedash s) \<subseteq> set s \<and> no_double_dash (dedash s)"
proof (induction s rule: dedash.induct)
  case (1 n)
  show ?case
  proof (cases "str_contains n ''--''")
    case True
    then have ne: "n \<noteq> []" by (auto simp: str_contains_Nil)
    have d: "dedash n = dedash (replace_all ''--'' ''-'' n)" using True by (subst dedash.simps) simp
    from 1[OF True] squeeze_shape[OF ne] show ?thesis unfolding d by auto
  next
    case False
    then show ?thesis by (subst dedash.simps, simp add: no_double_dash_iff)+
  qed
qed

lemma dedash_id: "no_double_dash s \<Longrightarrow> dedash s = s"
  by (subst dedash.simps) (simp add: no_double_dash_iff)

lemma trim_dash_ends: "dash_free_ends (trim_set s ''-'')"
  using trim_if_hd[of "\<lambda>c. c \<in> set ''-''" s] trim_if_last[of "\<lambda>c. c \<in> set ''-''" s]
  by (auto simp: trim_set_def dash_free_ends_def)

lemma lower_char_dash [simp]: "lower_char c = dash \<longleftrightarrow> c = dash"
proof -
  have "\<not> is_upper c \<Longrightarrow> ?thesis" by (simp add: lower_char_id)
  moreover have "is_upper c \<Longrightarrow> ?thesis"
    using of_char_lower_char[of c] by (auto simp: is_upper_def)
  ultimately show ?thesis by blast
qed

lemma slug_char_lower: "name_char c \<Longrightarrow> slug_char (lower_char c)"
proof (cases "is_upper c")
  case True
  then have "is_lower (lower_char c)"
    unfolding is_lower_def of_char_lower_char by (simp add: is_upper_def)
  then show ?thesis by (simp add: slug_char_def)
next
  case False
  then show "name_char c \<Longrightarrow> ?thesis" by (auto simp: lower_char_id slug_char_def name_char_def)
qed

lemma slug_char_facts: "slug_char c \<Longrightarrow> name_char c \<and> \<not> is_upper c \<and> plain_char c"
  by (auto simp: slug_char_def name_char_def is_lower_def is_upper_def is_digit_def is_space_def plain_char_def)

lemma slug_is_slug: "is_slug (slug_process_name s)"
proof -
  define n where "n = trim_set (replace_runs name_char ''-'' (trim_space s)) ''-''"
  have nc: "name_char c" if "c \<in> set n" for c
  proof -
    have "c \<in> set (replace_runs name_char ''-'' (trim_space s))"
      using that set_trim_if[of "\<lambda>c. c \<in> set ''-''" "replace_runs name_char ''-'' (trim_space s)"]
      unfolding n_def trim_set_def by auto
    from replace_runs_set[OF this] show ?thesis by (auto simp: name_char_def)
  qed
  have e: "slug_process_name s = to_lower (dedash n)" by (simp add: slug_process_name_def n_def Let_def)
  note d = dedash_shape[of n]
  have "list_all slug_char (to_lower (dedash n))"
    using d nc slug_char_lower by (auto simp: to_lower_def list_all_iff)
  moreover have "dash_free_ends (to_lower (dedash n))"
    using d trim_dash_ends[of "replace_runs name_char ''-'' (trim_space s)", folded n_def]
    by (auto simp: dash_free_ends_def to_lower_def hd_map last_map)
  moreover have "no_double_dash (to_lower (dedash n))"
    using d by (simp add: no_double_dash_def to_lower_def successively_map)
  ultimately show ?thesis by (simp add: e is_slug_def)
qed

lemma slug_id: "is_slug s \<Longrightarrow> slug_process_name s = s"
proof -
  assume s: "is_slug s"
  then have c: "\<And>c. c \<in> set s \<Longrightarrow> slug_char c" by (simp add: is_slug_def list_all_iff)
  have "trim_space s = s"
    using c slug_char_facts by (intro trim_space_plain) (auto simp: list_all_iff)
  moreover have "replace_runs name_char ''-'' s = s"
    using c slug_char_facts by (intro replace_runs_id) (auto simp: list_all_iff)
  moreover have "trim_set s ''-'' = s"
    unfolding trim_set_def using s by (intro trim_if_id) (auto simp: is_slug_def dash_free_ends_def)
  moreover have "to_lower s = s"
    using c slug_char_facts by (auto simp: to_lower_def lower_char_id intro!: map_idI)
  ultimately show ?thesis using s by (simp add: slug_process_name_def dedash_id is_slug_def Let_def)
qed

interpretation slugs: normalizer slug_process_name is_slug
  by unfold_locales (rule slug_is_slug, rule slug_id)

lemma no_double_dash_append:
  "no_double_dash p \<Longrightarrow> no_double_dash a \<Longrightarrow> dash_free_ends p \<Longrightarrow> dash_free_ends a \<Longrightarrow> a \<noteq> [] \<Longrightarrow> p \<noteq> [] \<Longrightarrow>
   no_double_dash (p @ ''-'' @ a)"
  by (auto simp: no_double_dash_def dash_free_ends_def successively_append_iff successively_Cons)

lemma is_slug_join: "is_slug p \<Longrightarrow> is_slug a \<Longrightarrow> p \<noteq> [] \<Longrightarrow> a \<noteq> [] \<Longrightarrow> is_slug (p @ ''-'' @ a)"
  using no_double_dash_append[of p a]
  by (auto simp: is_slug_def dash_free_ends_def slug_char_def)

lemma is_slug_app: "is_slug ''app''"
  by code_simp

lemma qualify_is_slug: "is_slug (qualify_process_name x a) \<and> qualify_process_name x a \<noteq> []"
  using slug_is_slug[of x] slug_is_slug[of a] is_slug_app
    is_slug_join[of "slug_process_name x" "slug_process_name a"]
  by (simp add: qualify_process_name_def Let_def)

lemma qualify_idem: "qualify_process_name x (qualify_process_name x a) = qualify_process_name x a"
proof -
  let ?p = "slug_process_name x" and ?r = "qualify_process_name x a"
  have r: "slug_process_name ?r = ?r" "?r \<noteq> []" using qualify_is_slug[of x a] slug_id by auto
  have "?p = [] \<or> ?r = ?p \<or> has_prefix ?r (?p @ ''-'')"
    by (auto simp: qualify_process_name_def Let_def has_prefix_iff)
  with r show ?thesis
    by (subst qualify_process_name_def) (auto simp: Let_def)
qed

lemma agent_qualify_eq: "agent_qualify_process_name = qualify_process_name"
  by (intro ext)
    (simp add: agent_qualify_process_name_def qualify_process_name_def agent_slug_process_name_def
      slug_process_name_def)

lemma slug_trim: "is_slug s \<Longrightarrow> trim_space s = s"
  using slug_char_facts by (intro trim_space_plain) (auto simp: is_slug_def list_all_iff)

section \<open>Modes and policies are in normal form\<close>

definition modes_normal :: "string list \<Rightarrow> bool" where
  "modes_normal ms \<longleftrightarrow> ms \<noteq> [] \<and> distinct ms \<and> set ms \<subseteq> set redeploy_modes"

lemma keep_modes_set: "set (keep_modes seen ms) = set ms \<inter> set redeploy_modes - seen"
  by (induction seen ms rule: keep_modes.induct) auto

lemma keep_modes_distinct: "distinct (keep_modes seen ms)"
  by (induction seen ms rule: keep_modes.induct) (auto simp: keep_modes_set)

lemma keep_modes_id:
  "distinct ms \<Longrightarrow> set ms \<subseteq> set redeploy_modes \<Longrightarrow> set ms \<inter> seen = {} \<Longrightarrow> keep_modes seen ms = ms"
  by (induction seen ms rule: keep_modes.induct) auto

interpretation modes: normalizer normalize_redeploy_on modes_normal
proof
  show "modes_normal (normalize_redeploy_on ms)" for ms
    using keep_modes_set[of "{}" ms] keep_modes_distinct[of "{}" ms]
    by (auto simp: normalize_redeploy_on_def modes_normal_def redeploy_modes_def Let_def)
  show "normalize_redeploy_on ms = ms" if "modes_normal ms" for ms
    using that keep_modes_id[of ms "{}"] by (simp add: normalize_redeploy_on_def modes_normal_def Let_def)
qed

lemma trim_space_words [simp]: "trim_space ''stop'' = ''stop''" "trim_space ''continue'' = ''continue''"
  by code_simp+

lemma to_lower_words [simp]: "to_lower ''stop'' = ''stop''" "to_lower ''continue'' = ''continue''"
  by code_simp+

interpretation policy: normalizer normalize_on_wave_failure "\<lambda>s. s = ''stop'' \<or> s = ''continue''"
  by unfold_locales (auto simp: normalize_on_wave_failure_def)

section \<open>Directories stay under the account's home\<close>

definition under_dir :: "string \<Rightarrow> string \<Rightarrow> bool" where
  "under_dir home p \<longleftrightarrow> p = home \<or> has_prefix p (home @ ''/'')"

text \<open>A home as the account database has it: absolute, clean, not the root directory.\<close>

definition good_home :: "string \<Rightarrow> bool" where
  "good_home h \<longleftrightarrow> rooted h \<and> path_clean h = h \<and> h \<noteq> ''/'' \<and> trim_space h = h"

lemma split_char_single: "(\<exists>p. split_char c s = [p]) \<longleftrightarrow> c \<notin> set s"
  by (induction s) (auto split: list.splits)

lemma last_split: "last (split_char c s) = rev (takeWhile (\<lambda>x. x \<noteq> c) (rev s))"
proof (induction s)
  case (Cons x xs)
  obtain y ys where y: "split_char c xs = y # ys" by (cases "split_char c xs") auto
  have ys: "ys = [] \<longleftrightarrow> c \<notin> set xs" using split_char_single[of c xs] y by auto
  show ?case
  proof (cases "x = c")
    case True
    with Cons show ?thesis by (cases "c \<in> set xs") (auto simp: takeWhile_append1 takeWhile_append2 takeWhile_tail)
  next
    case False
    show ?thesis
    proof (cases "c \<in> set xs")
      case True
      with False Cons y ys show ?thesis by (auto simp: takeWhile_append1)
    next
      case nc: False
      then have tw: "takeWhile (\<lambda>x. x \<noteq> c) (rev xs @ [x]) = rev xs @ [x]"
        using False by (intro takeWhile_eq_all_conv[THEN iffD2]) auto
      have "split_char c (x # xs) = [x # xs]" using False split_char_id[OF nc] by simp
      then show ?thesis by (simp only: last.simps rev.simps tw) simp
    qed
  qed
qed simp

lemma base_of_last: "(case after_last c t of None \<Rightarrow> t | Some b \<Rightarrow> b) = last (split_char c t)"
  by (cases "c \<in> set t") (simp_all add: after_last_def last_split split_char_id)

lemma clean_rooted_shape:
  assumes "rooted s"
  shows "\<exists>st. path_clean s = slash # str_join [slash] st \<and> list_all plain_elem st"
proof -
  have "clean_list True (clean_elems True (split_char slash s))" using path_clean_split[of s] assms by simp
  then have "list_all plain_elem (clean_elems True (split_char slash s))" by (auto simp: clean_list_def)
  then show ?thesis using assms by (auto simp: path_clean_def Let_def)
qed

lemma str_join_append: "xs \<noteq> [] \<Longrightarrow> ys \<noteq> [] \<Longrightarrow> str_join sep (xs @ ys) = str_join sep xs @ sep @ str_join sep ys"
proof (induction xs)
  case (Cons x xs)
  then show ?case by (cases "xs = []") (simp_all add: str_join_Cons)
qed simp

lemma home_elems:
  assumes "good_home h"
  shows "\<exists>ps. h = slash # str_join [slash] ps \<and> ps \<noteq> [] \<and> list_all plain_elem ps"
proof -
  obtain ps where ps: "path_clean h = slash # str_join [slash] ps" "list_all plain_elem ps"
    using clean_rooted_shape[of h] assms by (auto simp: good_home_def)
  then have "ps \<noteq> []" using assms by (auto simp: good_home_def)
  with ps assms show ?thesis by (auto simp: good_home_def)
qed

text \<open>Joining elements to a home, none of them a double dash except perhaps the last, stays below it.\<close>

lemma join_below:
  assumes h: "good_home h" and es: "list_all plain_elem es" "es \<noteq> []"
  shows "path_clean (h @ [slash] @ str_join [slash] es) = h @ [slash] @ str_join [slash] es"
proof -
  obtain ps where ps: "h = slash # str_join [slash] ps" "ps \<noteq> []" "list_all plain_elem ps"
    using home_elems[OF h] by blast
  have j: "h @ [slash] @ str_join [slash] es = slash # str_join [slash] (ps @ es)"
    using str_join_append[OF ps(2) es(2), of "[slash]"] ps(1) by simp
  have pl: "list_all plain_elem (ps @ es)" using ps(3) es(1) by simp
  then have sp: "split_char slash (str_join [slash] (ps @ es)) = ps @ es"
    using ps(2) by (intro split_join) (auto simp: list_all_iff plain_elem_def)
  have cl: "clean_list True (ps @ es)"
    unfolding clean_list_def using pl by (intro exI[of _ 0] exI[of _ "ps @ es"]) simp
  have "clean_elems True (split_char slash (slash # str_join [slash] (ps @ es))) = ps @ es"
    using clean_elems_id[OF cl] by (simp add: sp clean_elems_skip)
  then show ?thesis unfolding j by (simp add: path_clean_def rooted_def)
qed

lemma below_under: "under_dir h (h @ [slash] @ r)"
  by (simp add: under_dir_def has_prefix_iff)

lemma plain_words: "plain_elem ''opt''" "plain_elem ''apps''" "plain_elem ''tmp''"
  by code_simp+

lemma path_join_two: "a \<noteq> [] \<Longrightarrow> b \<noteq> [] \<Longrightarrow> path_join [a, b] = path_clean (a @ [slash] @ b)"
  by (simp add: path_join_def)

lemma path_join_opt_apps:
  assumes "good_home h"
  shows "path_join [h, ''opt'', ''apps''] = h @ ''/opt/apps''"
proof -
  have "h \<noteq> []" using assms by (auto simp: good_home_def rooted_def)
  then show ?thesis using join_below[OF assms, of "[''opt'', ''apps'']"] plain_words by (simp add: path_join_def)
qed

lemma path_join_base:
  assumes h: "good_home h" and b: "plain_elem b \<or> b = dotdot"
  shows "under_dir h (path_join [h, ''opt'', ''apps'', b])"
proof -
  have ne: "h \<noteq> []" "b \<noteq> []" using h b by (auto simp: good_home_def rooted_def plain_elem_def dotdot_def)
  show ?thesis
  proof (cases "plain_elem b")
    case True
    then show ?thesis
      using join_below[OF h, of "[''opt'', ''apps'', b]"] plain_words ne below_under[of h "''opt/apps/'' @ b"]
      by (simp add: path_join_def)
  next
    case False
    with b have bd: "b = dotdot" by blast
    obtain ps where ps: "h = slash # str_join [slash] ps" "ps \<noteq> []" "list_all plain_elem ps"
      using home_elems[OF h] by blast
    let ?es = "ps @ [''opt'', ''apps'']"
    have j: "h @ ''/opt/apps/..'' = slash # str_join [slash] (?es @ [dotdot])"
      using str_join_append[OF ps(2), of "[''opt'', ''apps'', dotdot]" "[slash]"] ps(1) by (simp add: dotdot_def)
    have pl: "list_all plain_elem ?es" using ps(3) plain_words by simp
    have sp: "split_char slash (str_join [slash] (?es @ [dotdot])) = ?es @ [dotdot]"
    proof (rule split_join)
      fix p assume "p \<in> set (?es @ [dotdot])"
      then have "plain_elem p \<or> p = dotdot" using pl by (auto simp: list_all_iff)
      then show "slash \<notin> set p" by (auto simp: plain_elem_def dotdot_def)
    qed simp
    have dd: "dotdot \<noteq> []" "dotdot \<noteq> dot" "''apps'' \<noteq> dotdot" by (simp_all add: dotdot_def dot_def)
    have "clean_elems True (split_char slash (slash # str_join [slash] (?es @ [dotdot]))) =
      clean_elems True (?es @ [dotdot])"
      unfolding split_char.simps(2) by (simp only: if_True refl simp_thms sp clean_elems_skip)
    also have "\<dots> = clean_step True ?es dotdot"
      using foldl_plain[OF pl, of True "[]"] by (simp only: clean_elems_def foldl_append foldl.simps append_Nil)
    also have "\<dots> = ps @ [''opt'']" using dd by (simp add: clean_step_def butlast_append)
    finally have "clean_elems True (split_char slash (slash # str_join [slash] (?es @ [dotdot]))) = ps @ [''opt'']" .
    then have "path_clean (h @ ''/opt/apps/..'') = h @ [slash] @ ''opt''"
      unfolding j using str_join_append[OF ps(2), of "[''opt'']" "[slash]"] ps(1)
      by (simp add: path_clean_def rooted_def)
    then show ?thesis using ne bd below_under[of h "''opt''"] by (simp add: path_join_def dotdot_def)
  qed
qed

lemma path_base_clean:
  assumes "path_clean s \<noteq> ''/''" "path_clean s \<noteq> dot"
  shows "plain_elem (path_base (path_clean s)) \<or> path_base (path_clean s) = dotdot"
proof -
  let ?st = "clean_elems (rooted s) (split_char slash s)"
  have c: "clean_list (rooted s) ?st" by (rule path_clean_split)
  have ne: "?st \<noteq> []" using assms by (auto simp: path_clean_def Let_def split: if_splits)
  have e: "path_clean s = (if rooted s then [slash] else []) @ str_join [slash] ?st"
    using ne by (cases "rooted s") (simp_all add: path_clean_def Let_def)
  have sp: "split_char slash (str_join [slash] ?st) = ?st"
    using ne clean_list_no_slash[OF c] by (intro split_join) auto
  have l: "last (split_char slash (path_clean s)) = last ?st" unfolding e using sp ne by (cases "rooted s") simp_all
  have in_st: "last ?st \<in> set ?st" using ne by simp
  have nsl: "last ?st \<noteq> [] \<and> slash \<notin> set (last ?st)" using clean_list_no_slash[OF c in_st] by simp
  then have tw: "path_clean s \<noteq> [] \<and> last (path_clean s) \<noteq> slash"
    using l[unfolded last_split] by (cases "path_clean s" rule: rev_cases) auto
  then have "trim_right_set (path_clean s) [slash] = path_clean s"
    by (cases "path_clean s" rule: rev_cases) (auto simp: trim_right_set_def trim_right_if_def)
  then have "path_base (path_clean s) = last ?st"
    using tw l base_of_last[where c = slash and t = "path_clean s"] by (simp add: path_base_def)
  moreover obtain n ps where "?st = replicate n dotdot @ ps" "list_all plain_elem ps"
    using c by (auto simp: clean_list_def)
  then have "plain_elem (last ?st) \<or> last ?st = dotdot" using in_st by (auto simp: list_all_iff)
  ultimately show ?thesis by simp
qed

lemma clean_rooted_not: "\<not> rooted s \<Longrightarrow> \<not> rooted (path_clean s)"
proof -
  assume n: "\<not> rooted s"
  let ?st = "clean_elems (rooted s) (split_char slash s)"
  have c: "clean_list (rooted s) ?st" by (rule path_clean_split)
  show ?thesis
  proof (cases "?st = []")
    case True
    with n show ?thesis by (simp add: path_clean_def rooted_def dot_def)
  next
    case False
    then obtain x xs where x: "?st = x # xs" by (cases ?st) auto
    then have "x \<noteq> []" "slash \<notin> set x" using clean_list_no_slash[OF c, of x] by auto
    then show ?thesis using n x by (cases x; cases xs) (auto simp: path_clean_def rooted_def)
  qed
qed

section \<open>Properties\<close>

text \<open>Two projects do not share a process name: where an app of the same name is not already
  named after either project, the qualified names of the two differ; a qualified name is a token of
  lower-case letters, digits, dots, underscores and single inner dashes, is never empty, and
  qualifying it again changes nothing; and the agent computes the same name as the control plane.\<close>

theorem process_names_apart:
  assumes "slug_process_name x \<noteq> slug_process_name y" "slug_process_name x \<noteq> []" "slug_process_name y \<noteq> []"
    and "slug_process_name a \<notin> {[], slug_process_name x, slug_process_name y}"
    and "\<not> has_prefix (slug_process_name a) (slug_process_name x @ ''-'')"
    and "\<not> has_prefix (slug_process_name a) (slug_process_name y @ ''-'')"
  shows "qualify_process_name x a \<noteq> qualify_process_name y a \<and>
    is_slug (qualify_process_name x a) \<and> qualify_process_name x a \<noteq> [] \<and>
    qualify_process_name x (qualify_process_name x a) = qualify_process_name x a \<and>
    agent_qualify_process_name x a = qualify_process_name x a"
  using assms qualify_is_slug[of x a] qualify_idem[of x a] agent_qualify_eq
  by (auto simp: qualify_process_name_def[of x a] qualify_process_name_def[of y a] Let_def)

theorem process_names_apart_witness:
  "qualify_process_name ''Shop'' ''web'' \<noteq> qualify_process_name ''blog'' ''web'' \<and>
   qualify_process_name ''Shop'' ''web'' = ''shop-web''"
proof -
  have e: "slug_process_name ''Shop'' = ''shop''" "slug_process_name ''blog'' = ''blog''"
    "slug_process_name ''web'' = ''web''" by code_simp+
  have n: "\<not> has_prefix ''web'' ''shop-''" "\<not> has_prefix ''web'' ''blog-''" by (simp_all add: has_prefix_def)
  show ?thesis using process_names_apart[of "''Shop''" "''blog''" "''web''"] e n
    by (simp add: qualify_process_name_def[of "''Shop''"] Let_def)
qed

text \<open>The name of an app that is already qualified is taken as it is, and a project whose only app is
  named after it keeps its own name, so a project and a longer-named one can meet.\<close>

lemma qualify_meets:
  "qualify_process_name ''shop'' ''web'' = ''shop-web'' \<and> qualify_process_name ''shop-web'' ''shop-web'' = ''shop-web''"
  by code_simp

lemma good_home_trim:
  assumes h: "good_home home"
  shows "trim_right_set (trim_space home) ''/'' = home" "home \<noteq> []"
proof -
  obtain ps where ps: "home = slash # str_join [slash] ps" "ps \<noteq> []" "list_all plain_elem ps"
    using home_elems[OF h] by blast
  have "last (split_char slash home) = last ps"
    using split_join[of ps slash] ps by (auto simp: list_all_iff plain_elem_def)
  moreover have "plain_elem (last ps)" using ps by (simp add: list_all_iff)
  ultimately have "last home \<noteq> slash" unfolding last_split
    by (cases home rule: rev_cases) (auto simp: plain_elem_def)
  then show "trim_right_set (trim_space home) ''/'' = home" "home \<noteq> []"
    using h by (cases home rule: rev_cases; auto simp: good_home_def trim_right_set_def trim_right_if_def rooted_def)+
qed

text \<open>A path below \<open>/opt\<close> moves under the home.\<close>

lemma opt_below:
  assumes h: "good_home home" and o: "has_prefix (path_clean cp) ''/opt/''" and n: "path_clean cp \<noteq> ''/''"
  shows "under_dir home (path_join [home, trim_prefix (path_clean cp) ''/''])"
proof -
  let ?c = "path_clean cp"
  have "rooted ?c" using o by (auto simp: has_prefix_iff rooted_def)
  then have r: "rooted cp" using clean_rooted_not[of cp] by blast
  obtain st where st: "?c = slash # str_join [slash] st" "list_all plain_elem st" using clean_rooted_shape[OF r] by blast
  have "st \<noteq> []" using n st(1) by auto
  moreover have "trim_prefix ?c ''/'' = str_join [slash] st" by (simp add: st(1) trim_prefix_def has_prefix_def)
  moreover have "str_join [slash] st \<noteq> []" using o st(1) by (auto simp: has_prefix_iff)
  ultimately show ?thesis
    using join_below[OF h st(2)] good_home_trim(2)[OF h] below_under[of home "str_join [slash] st"]
    by (simp add: path_join_two)
qed

text \<open>The clone path of an account other than root lies under that account's home, whatever path
  the project asks for: no sequence of double dots leads out of it.\<close>

theorem clone_path_under_home:
  assumes h: "good_home home" and u: "trim_space run_as \<noteq> []" "trim_space run_as \<noteq> ''root''"
  shows "under_dir home (clone_path_for_user cp run_as home)"
proof -
  note he = good_home_trim[OF h]
  have ne: "home \<noteq> ''/''" using h by (simp add: good_home_def)
  let ?c = "path_clean cp"
  have e: "clone_path_for_user cp run_as home =
     (if ?c = ''.'' \<or> ?c = ''/'' then path_join [home, ''opt'', ''apps'']
      else if ?c = home \<or> has_prefix ?c (home @ ''/'') then ?c
      else if has_prefix ?c ''/opt/'' then path_join [home, trim_prefix ?c ''/'']
      else path_join [home, ''opt'', ''apps'', path_base ?c])"
    using he ne u by (simp add: clone_path_for_user_def Let_def)
  consider "?c = ''.'' \<or> ?c = ''/''" | "?c = home \<or> has_prefix ?c (home @ ''/'')"
    | "has_prefix ?c ''/opt/''" "\<not> (?c = home \<or> has_prefix ?c (home @ ''/''))" "?c \<noteq> ''.''" "?c \<noteq> ''/''"
    | "?c \<noteq> ''.''" "?c \<noteq> ''/''" "\<not> (?c = home \<or> has_prefix ?c (home @ ''/''))" "\<not> has_prefix ?c ''/opt/''"
    by blast
  then show ?thesis
  proof cases
    case 1
    then show ?thesis unfolding e using path_join_opt_apps[OF h] below_under[of home "''opt/apps''"] by simp
  next
    case 2
    show ?thesis
    proof (cases "?c = ''.'' \<or> ?c = ''/''")
      case True
      then show ?thesis unfolding e using path_join_opt_apps[OF h] below_under[of home "''opt/apps''"] by simp
    next
      case False
      with 2 show ?thesis unfolding e by (simp add: under_dir_def)
    qed
  next
    case 3
    then show ?thesis unfolding e using opt_below[OF h 3(1) 3(4)] by simp
  next
    case 4
    then show ?thesis
      unfolding e using path_join_base[OF h path_base_clean[of cp]] by (simp add: dot_def)
  qed
qed

theorem clone_path_under_home_witness:
  "under_dir ''/home/pi'' (clone_path_for_user ''/opt/../../etc/shadow'' ''pi'' ''/home/pi'') \<and>
   clone_path_for_user ''/opt/../../etc/shadow'' ''pi'' ''/home/pi'' = ''/home/pi/opt/apps/shadow''"
proof -
  have h: "good_home ''/home/pi''" by code_simp
  have u: "trim_space ''pi'' \<noteq> []" "trim_space ''pi'' \<noteq> ''root''" by code_simp+
  have "clone_path_for_user ''/opt/../../etc/shadow'' ''pi'' ''/home/pi'' = ''/home/pi/opt/apps/shadow''" by code_simp
  with clone_path_under_home[OF h u] show ?thesis by blast
qed

end
