(* ===== verification/DeployEnv.thy ===== *)
theory DeployEnv
  imports Naming
begin

text \<open>
  Environment variables of deploy apps, \<open>control-plane/internal/deploys/env.go\<close>: the paste of a
  .env file, sealing, redaction, merging an edit, and resolving for the agent; the encrypted box
  behind them (\<open>control-plane/internal/cryptobox\<close>); the reveal after a passkey step-up
  (\<open>env_reveal.go\<close>); and the apps of a new project (\<open>create_apps.go\<close>). AES-GCM and the random
  source are parameters: \<open>aead_laws\<close> is what Go documents of \<open>cipher.AEAD\<close>, that \<open>Open\<close> undoes
  \<open>Seal\<close> under the same nonce. The nonce of each call is an argument, one per variable. Ranging
  over a Go map is a list of its entries, in any order.
\<close>

section \<open>Hexadecimal\<close>

definition hex_digit :: "nat \<Rightarrow> char" where
  "hex_digit n = (if n < 10 then char_of (48 + n) else char_of (87 + n))"

definition hex_val :: "char \<Rightarrow> nat option" where
  "hex_val c =
     (let n = (of_char c :: nat)
      in if 48 \<le> n \<and> n \<le> 57 then Some (n - 48)
         else if 97 \<le> n \<and> n \<le> 102 then Some (n - 87)
         else if 65 \<le> n \<and> n \<le> 70 then Some (n - 55)
         else None)"

fun hex_encode :: "string \<Rightarrow> string" where
  "hex_encode [] = []"
| "hex_encode (c # cs) = hex_digit (of_char c div 16) # hex_digit (of_char c mod 16) # hex_encode cs"

text \<open>An odd length or a character that is no digit is an error: None.\<close>

fun hex_decode :: "string \<Rightarrow> string option" where
  "hex_decode [] = Some []"
| "hex_decode [c] = None"
| "hex_decode (a # b # cs) =
     (case (hex_val a, hex_val b, hex_decode cs) of
        (Some x, Some y, Some r) \<Rightarrow> Some (char_of (16 * x + y) # r)
      | _ \<Rightarrow> None)"

lemma hex_val_digit: "n < 16 \<Longrightarrow> hex_val (hex_digit n) = Some n"
  by (simp add: hex_val_def hex_digit_def Let_def)

lemma of_char_less: "(of_char c :: nat) < 256"
  by (metis of_char_of char_of_char mod_less_divisor zero_less_numeral)

lemma hex_round_trip [simp]: "hex_decode (hex_encode s) = Some s"
proof (induction s)
  case (Cons c cs)
  have l: "of_char c div 16 < (16 :: nat)" "of_char c mod 16 < (16 :: nat)"
    using of_char_less[of c] by (simp_all add: less_mult_imp_div_less)
  have "16 * (of_char c div 16) + of_char c mod 16 = (of_char c :: nat)" by simp
  with l Cons show ?case by (simp add: hex_val_digit)
qed simp

lemma hex_encode_Nil [simp]: "hex_encode s = [] \<longleftrightarrow> s = []"
  by (cases s) auto

section \<open>The box\<close>

record aead =
  ae_nonce_size :: nat
  ae_seal :: "string \<Rightarrow> string \<Rightarrow> string"
  ae_open :: "string \<Rightarrow> string \<Rightarrow> (string, string) res"

definition aead_laws :: "aead \<Rightarrow> bool" where
  "aead_laws b \<longleftrightarrow> 0 < ae_nonce_size b \<and>
     (\<forall>n p. length n = ae_nonce_size b \<longrightarrow> ae_open b n (ae_seal b n p) = Inr p)"

text \<open>\<open>cryptobox.New\<close>; \<open>gcm\<close> makes the AEAD of a 32-byte key.\<close>

definition new_box :: "(string \<Rightarrow> (string, aead) res) \<Rightarrow> string \<Rightarrow> (string, aead) res" where
  "new_box gcm key_hex =
     (if key_hex = [] then Inl ''SECRETS_MASTER_KEY is required''
      else case hex_decode key_hex of
             None \<Rightarrow> Inl ''master key not hex''
           | Some raw \<Rightarrow> if length raw \<noteq> 32 then Inl ''master key must be 32 bytes'' else gcm raw)"

text \<open>\<open>Seal\<close> with the outcome of reading the nonce, and \<open>Open\<close>\<close>

definition seal_blob :: "aead \<Rightarrow> (string, string) res \<Rightarrow> string \<Rightarrow> (string, string) res" where
  "seal_blob b nonce plain = (case nonce of Inl e \<Rightarrow> Inl e | Inr n \<Rightarrow> Inr (n @ ae_seal b n plain))"

definition open_blob :: "aead \<Rightarrow> string \<Rightarrow> (string, string) res" where
  "open_blob b blob =
     (if length blob < ae_nonce_size b then Inl ''blob too short''
      else ae_open b (take (ae_nonce_size b) blob) (drop (ae_nonce_size b) blob))"

lemma open_seal:
  "aead_laws b \<Longrightarrow> length n = ae_nonce_size b \<Longrightarrow> seal_blob b (Inr n) p = Inr blob \<Longrightarrow> open_blob b blob = Inr p"
  by (auto simp: seal_blob_def open_blob_def aead_laws_def)

section \<open>Pasting a .env file\<close>

definition unquote_env :: "string \<Rightarrow> string" where
  "unquote_env v =
     (if 2 \<le> length v \<and> ((hd v = CHR 0x22 \<and> last v = CHR 0x22) \<or> (hd v = CHR 0x27 \<and> last v = CHR 0x27))
      then butlast (tl v) else v)"

definition plain_var :: "string \<Rightarrow> string \<Rightarrow> env_var" where
  "plain_var k v = \<lparr>ev_key = k, ev_value = v, ev_value_enc = [], ev_sensitive = False, ev_has_value = False\<rparr>"

text \<open>One line: the key and value it sets, if any.\<close>

definition dotenv_line :: "string \<Rightarrow> (string \<times> string) option" where
  "dotenv_line raw =
     (let l0 = trim_space raw
      in if l0 = [] \<or> has_prefix l0 ''#'' then None
         else let l = (if has_prefix l0 ''export '' then trim_space (trim_prefix l0 ''export '') else l0)
              in (case index_byte l CHR ''='' of
                    None \<Rightarrow> None
                  | Some i \<Rightarrow>
                      if i = 0 then None
                      else let key = trim_set (trim_space (take i l)) [CHR 0x22, CHR 0x27]
                           in if key = [] \<or> list_ex (\<lambda>c. c = CHR '' '' \<or> c = CHR 0x09) key then None
                              else Some (key, unquote_env (trim_space (drop (Suc i) l)))))"

definition set_var :: "env_var list \<Rightarrow> string \<times> string \<Rightarrow> env_var list" where
  "set_var out kv =
     (if list_ex (\<lambda>v. ev_key v = fst kv) out
      then map (\<lambda>v. if ev_key v = fst kv then v\<lparr>ev_value := snd kv\<rparr> else v) out
      else out @ [plain_var (fst kv) (snd kv)])"

definition parse_dotenv_ordered :: "string \<Rightarrow> env_var list" where
  "parse_dotenv_ordered raw = foldl set_var [] (List.map_filter dotenv_line (str_split [CHR 0x0A] raw))"

definition parse_dotenv :: "string \<Rightarrow> (string \<rightharpoonup> string)" where
  "parse_dotenv raw = foldl (\<lambda>m v. m(ev_key v \<mapsto> ev_value v)) Map.empty (parse_dotenv_ordered raw)"

section \<open>Sealing\<close>

datatype env_error = NoEncryptionKey string | SealFailed string | BadCiphertext string | OpenFailed string string

definition seal_var :: "aead option \<Rightarrow> (string, string) res \<Rightarrow> env_var \<Rightarrow> (env_error, env_var) res" where
  "seal_var box nonce v0 =
     (let v = v0\<lparr>ev_key := trim_space (ev_key v0)\<rparr>;
          base = \<lparr>ev_key = ev_key v, ev_value = [], ev_value_enc = [], ev_sensitive = ev_sensitive v, ev_has_value = False\<rparr>
      in if ev_key v = [] then Inr base
         else if ev_sensitive v
         then (if ev_value v = [] \<and> ev_value_enc v \<noteq> []
               then Inr (base\<lparr>ev_value_enc := ev_value_enc v, ev_has_value := True\<rparr>)
               else if ev_value v = [] then Inr base
               else case box of
                      None \<Rightarrow> Inl (NoEncryptionKey (ev_key v))
                    | Some b \<Rightarrow> (case seal_blob b nonce (ev_value v) of
                                  Inl e \<Rightarrow> Inl (SealFailed e)
                                | Inr blob \<Rightarrow> Inr (base\<lparr>ev_value_enc := hex_encode blob, ev_has_value := True\<rparr>)))
         else Inr (base\<lparr>ev_value := ev_value v, ev_has_value := (ev_value v \<noteq> [])\<rparr>))"

text \<open>The nonce of the i-th variable is \<open>r i\<close>.\<close>

fun seal_from :: "nat \<Rightarrow> aead option \<Rightarrow> (nat \<Rightarrow> (string, string) res) \<Rightarrow> env_var list \<Rightarrow> (env_error, env_var list) res" where
  "seal_from i box r [] = Inr []"
| "seal_from i box r (v # vs) =
     (case seal_var box (r i) v of
        Inl e \<Rightarrow> Inl e
      | Inr w \<Rightarrow> (case seal_from (Suc i) box r vs of Inl e \<Rightarrow> Inl e | Inr ws \<Rightarrow> Inr (w # ws)))"

definition seal_env :: "aead option \<Rightarrow> (nat \<Rightarrow> (string, string) res) \<Rightarrow> env_var list \<Rightarrow> (env_error, env_var list) res" where
  "seal_env box r vars = seal_from 0 box r vars"

fun seal_apps_from ::
  "nat \<Rightarrow> aead option \<Rightarrow> (nat \<Rightarrow> nat \<Rightarrow> (string, string) res) \<Rightarrow> spec_app list \<Rightarrow> (env_error, spec_app list) res" where
  "seal_apps_from i box r [] = Inr []"
| "seal_apps_from i box r (a # as) =
     (case seal_env box (r i) (sa_env a) of
        Inl e \<Rightarrow> Inl e
      | Inr env \<Rightarrow> (case seal_apps_from (Suc i) box r as of
                    Inl e \<Rightarrow> Inl e | Inr bs \<Rightarrow> Inr (a\<lparr>sa_env := env\<rparr> # bs)))"

definition seal_apps_env ::
  "aead option \<Rightarrow> (nat \<Rightarrow> nat \<Rightarrow> (string, string) res) \<Rightarrow> spec_app list \<Rightarrow> (env_error, spec_app list) res" where
  "seal_apps_env box r apps = seal_apps_from 0 box r apps"

section \<open>Redaction\<close>

definition redact_var :: "env_var \<Rightarrow> env_var" where
  "redact_var v =
     \<lparr>ev_key = ev_key v, ev_value = (if ev_sensitive v then [] else ev_value v), ev_value_enc = [],
      ev_sensitive = ev_sensitive v, ev_has_value = (ev_value v \<noteq> [] \<or> ev_value_enc v \<noteq> [] \<or> ev_has_value v)\<rparr>"

definition redact_env :: "env_var list \<Rightarrow> env_var list" where
  "redact_env vars = map redact_var vars"

definition redact_apps :: "spec_app list \<Rightarrow> spec_app list" where
  "redact_apps apps = map (\<lambda>a. a\<lparr>sa_env := redact_env (sa_env a)\<rparr>) apps"

definition redact_project :: "project \<Rightarrow> project" where
  "redact_project p = p\<lparr>pj_apps := enrich_process_names (pj_name p) (redact_apps (pj_apps p))\<rparr>"

section \<open>Merging an edit\<close>

definition by_key :: "env_var list \<Rightarrow> (string \<rightharpoonup> env_var)" where
  "by_key vs = foldl (\<lambda>m v. m(ev_key v \<mapsto> v)) Map.empty vs"

definition prepare_var :: "(string \<rightharpoonup> env_var) \<Rightarrow> env_var \<Rightarrow> env_var option" where
  "prepare_var old v0 =
     (let v = v0\<lparr>ev_key := trim_space (ev_key v0)\<rparr>
      in if ev_key v = [] then None
         else if ev_sensitive v \<and> ev_value v = []
         then (case old (ev_key v) of
                 Some prev \<Rightarrow> if ev_sensitive prev \<and> ev_value_enc prev \<noteq> []
                              then Some (v\<lparr>ev_value_enc := ev_value_enc prev\<rparr>) else Some v
               | None \<Rightarrow> Some v)
         else Some v)"

definition merge_env_list ::
  "aead option \<Rightarrow> (nat \<Rightarrow> (string, string) res) \<Rightarrow> env_var list \<Rightarrow> env_var list \<Rightarrow> (env_error, env_var list) res" where
  "merge_env_list box r old incoming = seal_env box r (List.map_filter (prepare_var (by_key old)) incoming)"

definition app_env_of :: "spec_app list \<Rightarrow> string \<Rightarrow> env_var list" where
  "app_env_of apps n = (case foldl (\<lambda>m a. m(sa_name a \<mapsto> a)) Map.empty apps n of None \<Rightarrow> [] | Some a \<Rightarrow> sa_env a)"

fun merge_apps_from ::
  "nat \<Rightarrow> aead option \<Rightarrow> (nat \<Rightarrow> nat \<Rightarrow> (string, string) res) \<Rightarrow> spec_app list \<Rightarrow> spec_app list \<Rightarrow>
   (env_error, spec_app list) res" where
  "merge_apps_from i box r old [] = Inr []"
| "merge_apps_from i box r old (a # as) =
     (case merge_env_list box (r i) (app_env_of old (sa_name a)) (sa_env a) of
        Inl e \<Rightarrow> Inl e
      | Inr env \<Rightarrow> (case merge_apps_from (Suc i) box r old as of
                    Inl e \<Rightarrow> Inl e | Inr bs \<Rightarrow> Inr (a\<lparr>sa_env := env\<rparr> # bs)))"

definition merge_apps_env ::
  "aead option \<Rightarrow> (nat \<Rightarrow> nat \<Rightarrow> (string, string) res) \<Rightarrow> spec_app list \<Rightarrow> spec_app list \<Rightarrow> (env_error, spec_app list) res" where
  "merge_apps_env box r old incoming = merge_apps_from 0 box r old incoming"

section \<open>Resolving\<close>

fun resolve_vars :: "aead option \<Rightarrow> (string \<rightharpoonup> string) \<Rightarrow> env_var list \<Rightarrow> (env_error, string \<rightharpoonup> string) res" where
  "resolve_vars box out [] = Inr out"
| "resolve_vars box out (v # vs) =
     (if ev_key v = [] then resolve_vars box out vs
      else if ev_sensitive v
      then (if ev_value_enc v = [] then resolve_vars box out vs
            else case box of
                   None \<Rightarrow> Inl (NoEncryptionKey (ev_key v))
                 | Some b \<Rightarrow>
                     (case hex_decode (ev_value_enc v) of
                        None \<Rightarrow> Inl (BadCiphertext (ev_key v))
                      | Some raw \<Rightarrow>
                          (case open_blob b raw of
                             Inl e \<Rightarrow> Inl (OpenFailed (ev_key v) e)
                           | Inr plain \<Rightarrow> resolve_vars box (out(ev_key v \<mapsto> plain)) vs)))
      else resolve_vars box (out(ev_key v \<mapsto> ev_value v)) vs)"

definition resolve_app_env :: "aead option \<Rightarrow> spec_app \<Rightarrow> (env_error, string \<rightharpoonup> string) res" where
  "resolve_app_env box app = resolve_vars box Map.empty (sa_env app)"

definition env_map_from_vars :: "env_var list \<Rightarrow> (string \<rightharpoonup> string)" where
  "env_map_from_vars vars =
     foldl (\<lambda>m v. if ev_key v = [] \<or> ev_sensitive v then m else m(ev_key v \<mapsto> ev_value v)) Map.empty vars"

section \<open>The apps of a new project\<close>

text \<open>\<open>walk\<close> is the order the loop goes through the input's map of variables.\<close>

definition normalize_create_apps ::
  "aead option \<Rightarrow> (nat \<Rightarrow> nat \<Rightarrow> (string, string) res) \<Rightarrow> (string \<times> string) list \<Rightarrow> create_input \<Rightarrow>
   (env_error, spec_app list) res" where
  "normalize_create_apps box r walk inp =
     (let apps =
        (if ci_apps inp = []
         then let root = (if ci_root_directory inp = [] then ''.'' else ci_root_directory inp);
                  name0 = (if ci_name inp = [] then ci_repo_full_name inp else ci_name inp);
                  name = (case after_last slash name0 of None \<Rightarrow> name0 | Some b \<Rightarrow> b)
              in [\<lparr>sa_name = name, sa_root = root, sa_language = ci_language inp, sa_install = ci_install_script inp,
                   sa_run = [], sa_cleanup = [], sa_pre_start = [], sa_port = ci_port inp,
                   sa_process_manager = ci_process_manager inp, sa_env = map (\<lambda>(k, v). plain_var k v) walk,
                   sa_health = None, sa_process_name = [], sa_start_group = 0\<rparr>]
         else ci_apps inp)
      in seal_apps_env box r apps)"

definition env_map_to_vars :: "(string \<times> string) list \<Rightarrow> env_var list" where
  "env_map_to_vars walk =
     List.map_filter (\<lambda>(k0, v). let k = trim_space k0
                           in if k = [] then None
                              else Some \<lparr>ev_key = k, ev_value = v, ev_value_enc = [], ev_sensitive = True,
                                         ev_has_value = False\<rparr>) walk"

section \<open>Revealing\<close>

datatype reveal_error =
    PasskeyUnavailable | LookupFailed | PasskeyRequired | BadBody | InvalidAssertion | ProjectNotFound | GetFailed
  | DecryptFailed env_error

text \<open>\<open>revealEnv\<close>: whether a step-up is configured, what \<open>HasPasskey\<close>, the body, \<open>VerifyStepUp\<close> and
  the store answer, and the app asked for.\<close>

fun reveal_apps ::
  "aead option \<Rightarrow> (string \<rightharpoonup> string) \<Rightarrow> string \<Rightarrow> spec_app list \<Rightarrow> (reveal_error, (string \<times> (string \<rightharpoonup> string)) list) res" where
  "reveal_apps box shared want [] = Inr []"
| "reveal_apps box shared want (a # as) =
     (if want \<noteq> [] \<and> sa_name a \<noteq> want then reveal_apps box shared want as
      else case resolve_app_env box a of
             Inl e \<Rightarrow> Inl (DecryptFailed e)
           | Inr m \<Rightarrow> (case reveal_apps box shared want as of
                        Inl e \<Rightarrow> Inl e
                      | Inr rest \<Rightarrow> Inr ((sa_name a, shared ++ m) # rest)))"

definition reveal_env ::
  "aead option \<Rightarrow> bool \<Rightarrow> (string, bool) res \<Rightarrow> (string, string) res \<Rightarrow> (string, unit) res \<Rightarrow>
   (string, project option) res \<Rightarrow> (reveal_error, (string \<times> (string \<rightharpoonup> string)) list) res" where
  "reveal_env box step_up has_passkey body verified proj =
     (if \<not> step_up then Inl PasskeyUnavailable
      else case has_passkey of
        Inl e \<Rightarrow> Inl LookupFailed
      | Inr False \<Rightarrow> Inl PasskeyRequired
      | Inr True \<Rightarrow>
          (case body of
             Inl e \<Rightarrow> Inl BadBody
           | Inr app \<Rightarrow>
               (case verified of
                  Inl e \<Rightarrow> Inl InvalidAssertion
                | Inr u \<Rightarrow>
                    (case proj of
                       Inl e \<Rightarrow> Inl GetFailed
                     | Inr None \<Rightarrow> Inl ProjectNotFound
                     | Inr (Some p) \<Rightarrow> reveal_apps box (pj_env p) (trim_space app) (pj_apps p)))))"

section \<open>Values for the examples\<close>

definition sample_app :: "string \<Rightarrow> env_var list \<Rightarrow> spec_app" where
  "sample_app n env =
     \<lparr>sa_name = n, sa_root = ''.'', sa_language = ''node'', sa_install = [], sa_run = [], sa_cleanup = [],
      sa_pre_start = [], sa_port = 0, sa_process_manager = ''pm2'', sa_env = env, sa_health = None,
      sa_process_name = [], sa_start_group = 0\<rparr>"

definition sample_project :: "spec_app list \<Rightarrow> project" where
  "sample_project apps =
     \<lparr>pj_id = ''p1'', pj_name = ''shop'', pj_provider = ''github'', pj_repo_full_name = ''acme/shop'',
      pj_repo_id = ''7'', pj_clone_url = ''https://github.com/acme/shop.git'', pj_default_branch = ''main'',
      pj_server_id = ''s1'', pj_language = ''node'', pj_install_script = [], pj_root_directory = ''.'',
      pj_clone_path = ''/srv/shop'', pj_port = 0, pj_process_manager = ''pm2'', pj_run_as_user = [],
      pj_env = Map.empty, pj_apps = apps, pj_redeploy_on = [''commit''], pj_write_spec = False,
      pj_auto_rollback = True, pj_on_wave_failure = ''stop'', pj_flow = [], pj_health_path = [],
      pj_health_port = 0, pj_health_timeout_seconds = 0, pj_deploy_timeout_seconds = 0, pj_health_state = [],
      pj_created_by = None, pj_created_at = 0, pj_updated_at = 0\<rparr>"

lemma sample_fields [simp]:
  "pj_apps (sample_project apps) = apps" "pj_name (sample_project apps) = ''shop''" "pj_id (sample_project apps) = ''p1''"
  "sa_name (sample_app n env) = n" "sa_env (sample_app n env) = env"
  by (simp_all add: sample_project_def sample_app_def)

definition secret_var :: "string \<Rightarrow> string \<Rightarrow> env_var" where
  "secret_var k enc =
     \<lparr>ev_key = k, ev_value = [], ev_value_enc = enc, ev_sensitive = True, ev_has_value = (enc \<noteq> [])\<rparr>"

text \<open>An AEAD that only authenticates: the ciphertext repeats the nonce.\<close>

definition sample_aead :: aead where
  "sample_aead =
     \<lparr>ae_nonce_size = 2, ae_seal = (\<lambda>n p. n @ p),
      ae_open = (\<lambda>n c. if take 2 c = n then Inr (drop 2 c) else Inl ''message authentication failed'')\<rparr>"

lemma sample_aead_laws: "aead_laws sample_aead"
  by (auto simp: aead_laws_def sample_aead_def)

section \<open>What a response shows\<close>

text \<open>Two variables that a browser cannot tell apart: the same key and kind, the same plain value,
  and, where sensitive, only whether a value is set.\<close>

definition has_any :: "env_var \<Rightarrow> bool" where
  "has_any v \<longleftrightarrow> ev_value v \<noteq> [] \<or> ev_value_enc v \<noteq> [] \<or> ev_has_value v"

definition same_public :: "env_var \<Rightarrow> env_var \<Rightarrow> bool" where
  "same_public v w \<longleftrightarrow> ev_key v = ev_key w \<and> ev_sensitive v = ev_sensitive w \<and> has_any v = has_any w \<and>
     (\<not> ev_sensitive v \<longrightarrow> ev_value v = ev_value w)"

definition same_app :: "spec_app \<Rightarrow> spec_app \<Rightarrow> bool" where
  "same_app a b \<longleftrightarrow> list_all2 same_public (sa_env a) (sa_env b) \<and> a\<lparr>sa_env := []\<rparr> = b\<lparr>sa_env := []\<rparr>"

definition same_project :: "project \<Rightarrow> project \<Rightarrow> bool" where
  "same_project p q \<longleftrightarrow> list_all2 same_app (pj_apps p) (pj_apps q) \<and> p\<lparr>pj_apps := []\<rparr> = q\<lparr>pj_apps := []\<rparr>"

lemma redact_var_eq: "redact_var v = redact_var w \<longleftrightarrow> same_public v w"
  by (auto simp: redact_var_def same_public_def has_any_def)

lemma map_eq_all2: "map f xs = map f ys \<longleftrightarrow> list_all2 (\<lambda>x y. f x = f y) xs ys"
  by (simp add: list.rel_eq[symmetric] list.rel_map)

lemma redact_env_eq: "redact_env vs = redact_env ws \<longleftrightarrow> list_all2 same_public vs ws"
  by (simp add: redact_env_def map_eq_all2 redact_var_eq)

lemma redact_app_eq:
  "a\<lparr>sa_env := redact_env (sa_env a)\<rparr> = b\<lparr>sa_env := redact_env (sa_env b)\<rparr> \<longleftrightarrow> same_app a b"
  unfolding same_app_def redact_env_eq[symmetric] by (cases a; cases b) auto

lemma redact_apps_eq: "redact_apps as = redact_apps bs \<longleftrightarrow> list_all2 same_app as bs"
  by (simp add: redact_apps_def map_eq_all2 redact_app_eq)

lemma project_apps_split:
  "p\<lparr>pj_apps := x\<rparr> = q\<lparr>pj_apps := y\<rparr> \<longleftrightarrow> x = y \<and> p\<lparr>pj_apps := []\<rparr> = q\<lparr>pj_apps := []\<rparr>"
  by (cases p; cases q) auto

lemma redact_var_clean:
  "ev_value_enc (redact_var v) = []" "ev_sensitive (redact_var v) \<Longrightarrow> ev_value (redact_var v) = []"
  by (simp_all add: redact_var_def)

lemma enrich_env: "map sa_env (enrich_process_names n as) = map sa_env as"
  by (simp add: enrich_process_names_def comp_def)

lemma redact_project_envs: "map sa_env (pj_apps (redact_project p)) = map (redact_env \<circ> sa_env) (pj_apps p)"
  by (simp add: redact_project_def enrich_env redact_apps_def)

text \<open>C20. No response carries a secret: two projects that differ only in the values of their sensitive
  variables are shown alike, so nothing about a secret but whether it is set can be read from
  \<open>RedactProject\<close>; and every variable shown has no ciphertext and, where sensitive, no value.\<close>

theorem redaction_hides_secrets:
  assumes "same_project p q"
  shows "redact_project p = redact_project q \<and>
    (\<forall>env \<in> set (map sa_env (pj_apps (redact_project p))). \<forall>v \<in> set env.
       ev_value_enc v = [] \<and> (ev_sensitive v \<longrightarrow> ev_value v = []))"
proof
  from assms have "redact_apps (pj_apps p) = redact_apps (pj_apps q)" "pj_name p = pj_name q"
    unfolding same_project_def redact_apps_eq by (auto dest: arg_cong[where f = pj_name])
  then show "redact_project p = redact_project q"
    using assms unfolding same_project_def redact_project_def by (metis project_apps_split)
  show "\<forall>env \<in> set (map sa_env (pj_apps (redact_project p))). \<forall>v \<in> set env.
          ev_value_enc v = [] \<and> (ev_sensitive v \<longrightarrow> ev_value v = [])"
    unfolding redact_project_envs by (auto simp: redact_env_def redact_var_clean)
qed

theorem redaction_hides_secrets_witness:
  "redact_project (sample_project [sample_app ''web'' [secret_var ''TOKEN'' ''00'']]) =
   redact_project (sample_project [sample_app ''web'' [secret_var ''TOKEN'' ''ff'']])"
proof -
  have "same_project (sample_project [sample_app ''web'' [secret_var ''TOKEN'' ''00'']])
          (sample_project [sample_app ''web'' [secret_var ''TOKEN'' ''ff'']])"
    by (simp add: same_project_def sample_project_def same_app_def sample_app_def same_public_def
          has_any_def secret_var_def)
  from redaction_hides_secrets[OF this] show ?thesis by blast
qed

section \<open>Sealing and resolving\<close>

definition good_nonces :: "aead \<Rightarrow> (nat \<Rightarrow> (string, string) res) \<Rightarrow> bool" where
  "good_nonces b r \<longleftrightarrow> (\<forall>i. \<exists>n. r i = Inr n \<and> length n = ae_nonce_size b)"

text \<open>What the operator typed, as the agent should see it.\<close>

definition typed_step :: "(string \<rightharpoonup> string) \<Rightarrow> env_var \<Rightarrow> (string \<rightharpoonup> string)" where
  "typed_step m v =
     (let k = trim_space (ev_key v)
      in if k = [] \<or> (ev_sensitive v \<and> ev_value v = []) then m else m(k \<mapsto> ev_value v))"

definition typed_env :: "env_var list \<Rightarrow> (string \<rightharpoonup> string)" where
  "typed_env vs = foldl typed_step Map.empty vs"

lemma seal_blob_nonempty: "aead_laws b \<Longrightarrow> length n = ae_nonce_size b \<Longrightarrow> n @ x \<noteq> []"
  by (auto simp: aead_laws_def)

lemma seal_var_resolves:
  assumes b: "aead_laws b" and n: "length n = ae_nonce_size b" and v: "ev_value_enc v = []"
  shows "\<exists>w. seal_var (Some b) (Inr n) v = Inr w \<and> (ev_sensitive w \<longrightarrow> ev_value w = []) \<and>
           (\<forall>m vs. resolve_vars (Some b) m (w # vs) = resolve_vars (Some b) (typed_step m v) vs)"
proof (cases "trim_space (ev_key v) = [] \<or> (ev_sensitive v \<and> ev_value v = []) \<or> \<not> ev_sensitive v")
  case True
  then show ?thesis using v by (auto simp: seal_var_def typed_step_def Let_def)
next
  case False
  have o: "open_blob b (n @ ae_seal b n (ev_value v)) = Inr (ev_value v)"
    by (rule open_seal[OF b n]) (simp add: seal_blob_def)
  show ?thesis
    using False v o seal_blob_nonempty[OF b n, of "ae_seal b n (ev_value v)"]
    by (auto simp: seal_var_def typed_step_def seal_blob_def Let_def)
qed

lemma seal_from_resolves:
  assumes "aead_laws b" "good_nonces b r" "\<forall>v \<in> set vs. ev_value_enc v = []"
  shows "\<exists>ws. seal_from i (Some b) r vs = Inr ws \<and> (\<forall>w \<in> set ws. ev_sensitive w \<longrightarrow> ev_value w = []) \<and>
           (\<forall>m. resolve_vars (Some b) m ws = Inr (foldl typed_step m vs))"
  using assms(3)
proof (induction vs arbitrary: i)
  case (Cons v vs)
  obtain n where n: "r i = Inr n" "length n = ae_nonce_size b"
    using assms(2) by (auto simp: good_nonces_def)
  obtain w where w: "seal_var (Some b) (Inr n) v = Inr w" "ev_sensitive w \<longrightarrow> ev_value w = []"
      "\<And>m vs. resolve_vars (Some b) m (w # vs) = resolve_vars (Some b) (typed_step m v) vs"
    using seal_var_resolves[OF assms(1) n(2), of v] Cons.prems by (auto simp del: resolve_vars.simps)
  have "\<forall>v \<in> set vs. ev_value_enc v = []" using Cons.prems by simp
  from Cons.IH[OF this, of "Suc i"]
  obtain ws where ws: "seal_from (Suc i) (Some b) r vs = Inr ws" "\<forall>w \<in> set ws. ev_sensitive w \<longrightarrow> ev_value w = []"
      "\<forall>m. resolve_vars (Some b) m ws = Inr (foldl typed_step m vs)"
    by blast
  show ?case using n w ws by (auto simp del: resolve_vars.simps(2))
qed simp

text \<open>With a key and nonces of the right length, sealing an app's variables never fails, leaves no
  plaintext in a sensitive one, and resolving the sealed list for the agent gives exactly the map that
  was typed: keys trimmed, blank keys and blank secrets left out, the last of two equal keys kept.\<close>

theorem seal_resolve_roundtrip:
  assumes "aead_laws b" "good_nonces b r" "\<forall>v \<in> set vs. ev_value_enc v = []"
  shows "\<exists>env. seal_env (Some b) r vs = Inr env \<and> (\<forall>w \<in> set env. ev_sensitive w \<longrightarrow> ev_value w = []) \<and>
           resolve_app_env (Some b) (app\<lparr>sa_env := env\<rparr>) = Inr (typed_env vs)"
  using seal_from_resolves[OF assms, of 0] by (auto simp: seal_env_def resolve_app_env_def typed_env_def)

theorem seal_resolve_roundtrip_witness:
  "\<exists>env. seal_env (Some sample_aead) (\<lambda>i. Inr ''ab'') [\<lparr>ev_key = ''TOKEN '', ev_value = ''x'', ev_value_enc = [],
       ev_sensitive = True, ev_has_value = False\<rparr>] = Inr env \<and>
     resolve_app_env (Some sample_aead) (sample_app ''web'' [] \<lparr>sa_env := env\<rparr>) = Inr [''TOKEN'' \<mapsto> ''x'']"
proof -
  have n: "good_nonces sample_aead (\<lambda>i. Inr ''ab'')" by (simp add: good_nonces_def sample_aead_def)
  have t: "typed_env [\<lparr>ev_key = ''TOKEN '', ev_value = ''x'', ev_value_enc = [], ev_sensitive = True,
             ev_has_value = False\<rparr>] = [''TOKEN'' \<mapsto> ''x'']"
  proof -
    have "trim_space ''TOKEN '' = ''TOKEN''" by code_simp
    then show ?thesis by (simp add: typed_env_def typed_step_def)
  qed
  show ?thesis
    using seal_resolve_roundtrip[OF sample_aead_laws n, of "[\<lparr>ev_key = ''TOKEN '', ev_value = ''x'',
        ev_value_enc = [], ev_sensitive = True, ev_has_value = False\<rparr>]" "sample_app ''web'' []"] t
    by auto
qed

section \<open>Editing\<close>

text \<open>What the store holds: every variable came out of \<open>sealEnv\<close>.\<close>

definition stored_var :: "env_var \<Rightarrow> bool" where
  "stored_var v \<longleftrightarrow> trim_space (ev_key v) = ev_key v \<and>
     (ev_key v = [] \<longrightarrow> ev_value v = [] \<and> ev_value_enc v = [] \<and> \<not> ev_has_value v) \<and>
     (ev_sensitive v \<longrightarrow> ev_value v = []) \<and> (\<not> ev_sensitive v \<longrightarrow> ev_value_enc v = []) \<and>
     ev_has_value v = (ev_value v \<noteq> [] \<or> ev_value_enc v \<noteq> [])"

definition stored_env :: "env_var list \<Rightarrow> bool" where
  "stored_env vs \<longleftrightarrow> list_all stored_var vs \<and> distinct (filter (\<lambda>k. k \<noteq> []) (map ev_key vs))"

lemma seal_var_stored: "(\<And>n. nonce = Inr n \<Longrightarrow> n \<noteq> []) \<Longrightarrow> seal_var box nonce v = Inr w \<Longrightarrow> stored_var w"
  by (auto simp: seal_var_def stored_var_def seal_blob_def Let_def split: if_splits option.splits sum.splits)

lemma seal_from_stored:
  "aead_laws b \<Longrightarrow> good_nonces b r \<Longrightarrow> seal_from i (Some b) r vs = Inr ws \<Longrightarrow> list_all stored_var ws"
proof (induction vs arbitrary: i ws)
  case (Cons v vs)
  obtain n where n: "r i = Inr n" "length n = ae_nonce_size b" using Cons.prems(2) by (auto simp: good_nonces_def)
  then have "n \<noteq> []" using Cons.prems(1) by (auto simp: aead_laws_def)
  then show ?case
    using Cons n by (auto split: sum.splits intro: seal_var_stored[of "Inr n" "Some b" v])
qed auto

lemma by_key_snoc: "by_key (vs @ [v]) = (by_key vs)(ev_key v \<mapsto> v)"
  by (simp add: by_key_def)

lemma by_key_lookup:
  "distinct (filter (\<lambda>k. k \<noteq> []) (map ev_key vs)) \<Longrightarrow> v \<in> set vs \<Longrightarrow> ev_key v \<noteq> [] \<Longrightarrow> by_key vs (ev_key v) = Some v"
proof (induction vs rule: rev_induct)
  case (snoc w vs)
  show ?case
  proof (cases "ev_key w = ev_key v")
    case True
    have "v \<notin> set vs"
    proof
      assume "v \<in> set vs"
      then have "ev_key w \<in> set (filter (\<lambda>k. k \<noteq> []) (map ev_key vs))" using snoc.prems(3) True by simp
      then show False using snoc.prems(1,3) True by simp
    qed
    then show ?thesis using snoc.prems(2) True by (simp add: by_key_snoc)
  next
    case False
    then have "v \<in> set vs" using snoc.prems(2) by auto
    moreover have "distinct (filter (\<lambda>k. k \<noteq> []) (map ev_key vs))" using snoc.prems(1) by simp
    ultimately show ?thesis using snoc.IH snoc.prems(3) False by (simp add: by_key_snoc)
  qed
qed simp

lemma edit_of_redacted:
  assumes "stored_env vs" "v \<in> set vs" "ev_key v \<noteq> []"
  shows "\<exists>w. prepare_var (by_key vs) (redact_var v) = Some w \<and> (\<forall>nonce. seal_var box nonce w = Inr v)"
proof -
  have k: "by_key vs (ev_key v) = Some v" using assms by (auto simp: stored_env_def intro: by_key_lookup)
  have "stored_var v" using assms(1,2) by (auto simp: stored_env_def list_all_iff)
  then show ?thesis
    using k assms(3)
    by (cases v) (auto simp: stored_var_def prepare_var_def redact_var_def seal_var_def Let_def)
qed

lemma edit_of_redacted_list:
  assumes "stored_env old" "set vs \<subseteq> set old"
  shows "seal_from i box r (List.map_filter (prepare_var (by_key old)) (redact_env vs)) =
           Inr (filter (\<lambda>v. ev_key v \<noteq> []) vs)"
  using assms(2)
proof (induction vs arbitrary: i)
  case (Cons v vs)
  show ?case
  proof (cases "ev_key v = []")
    case True
    then have "prepare_var (by_key old) (redact_var v) = None" by (simp add: prepare_var_def redact_var_def)
    then show ?thesis using Cons True by (simp add: redact_env_def)
  next
    case False
    then obtain w where "prepare_var (by_key old) (redact_var v) = Some w" "\<forall>nonce. seal_var box nonce w = Inr v"
      using edit_of_redacted[OF assms(1)] Cons.prems by fastforce
    then show ?thesis using Cons False by (simp add: redact_env_def)
  qed
qed (simp add: redact_env_def)

text \<open>An edit form saved unchanged keeps every secret: merging what the browser was shown into what
  is stored gives the stored variables back, ciphertext and all (less those with a blank key), with or
  without an encryption key and without drawing a nonce.\<close>

theorem edit_keeps_secrets:
  assumes "stored_env old"
  shows "merge_env_list box r old (redact_env old) = Inr (filter (\<lambda>v. ev_key v \<noteq> []) old)"
  using edit_of_redacted_list[OF assms, of old 0] by (simp add: merge_env_list_def seal_env_def)

theorem edit_keeps_secrets_witness:
  "merge_env_list None (\<lambda>i. Inl ''no entropy'') [secret_var ''TOKEN'' ''abcd''] (redact_env [secret_var ''TOKEN'' ''abcd'']) =
   Inr [secret_var ''TOKEN'' ''abcd'']"
proof -
  have "stored_env [secret_var ''TOKEN'' ''abcd'']"
    by (simp add: stored_env_def stored_var_def secret_var_def) code_simp
  from edit_keeps_secrets[OF this, of None "\<lambda>i. Inl ''no entropy''"] show ?thesis by (simp add: secret_var_def)
qed

text \<open>Apps are matched by name only: an app renamed by an edit loses its stored secrets.\<close>

lemma renamed_app_loses_secrets:
  "merge_apps_env box r [sample_app ''web'' [secret_var ''TOKEN'' ''abcd'']]
       [sample_app ''site'' (redact_env [secret_var ''TOKEN'' ''abcd''])] =
   Inr [sample_app ''site'' [secret_var ''TOKEN'' []]]"
  by code_simp

section \<open>The pasted file\<close>

definition overwrite :: "string \<times> string \<Rightarrow> env_var list \<Rightarrow> env_var list" where
  "overwrite kv out = map (\<lambda>v. if ev_key v = fst kv then v\<lparr>ev_value := snd kv\<rparr> else v) out"

lemma overwrite_keys: "map ev_key (overwrite kv out) = map ev_key out"
  by (induction out) (simp_all add: overwrite_def)

lemma overwrite_absent: "fst kv \<notin> ev_key ` set out \<Longrightarrow> overwrite kv out = out"
  by (induction out) (auto simp: overwrite_def)

lemma overwrite_map:
  "distinct (map ev_key out) \<Longrightarrow> fst kv \<in> ev_key ` set out \<Longrightarrow>
   map_of (map (\<lambda>v. (ev_key v, ev_value v)) (overwrite kv out)) =
   (map_of (map (\<lambda>v. (ev_key v, ev_value v)) out))(fst kv \<mapsto> snd kv)"
proof (induction out)
  case (Cons v out)
  show ?case
  proof (cases "ev_key v = fst kv")
    case True
    with Cons.prems have "overwrite kv (v # out) = v\<lparr>ev_value := snd kv\<rparr> # out"
      using overwrite_absent[of kv out] by (auto simp: overwrite_def)
    then show ?thesis using True by (auto simp: fun_eq_iff)
  next
    case False
    with Cons.prems have "overwrite kv (v # out) = v # overwrite kv out" "fst kv \<in> ev_key ` set out"
      by (auto simp: overwrite_def)
    then show ?thesis using Cons False by (auto simp: fun_eq_iff)
  qed
qed simp

lemma set_var_eq: "set_var out kv = (if fst kv \<in> ev_key ` set out then overwrite kv out else out @ [plain_var (fst kv) (snd kv)])"
  by (auto simp: set_var_def overwrite_def list_ex_iff intro: rev_image_eqI[OF _ sym])

lemma set_var_keys: "distinct (map ev_key out) \<Longrightarrow> distinct (map ev_key (set_var out kv))"
  by (auto simp: set_var_eq overwrite_keys plain_var_def)

lemma map_of_snoc_absent: "k \<notin> fst ` set xs \<Longrightarrow> map_of (xs @ [(k, v)]) = (map_of xs)(k \<mapsto> v)"
  by (induction xs) (auto simp: fun_eq_iff)

lemma set_var_map:
  "distinct (map ev_key out) \<Longrightarrow>
   map_of (map (\<lambda>v. (ev_key v, ev_value v)) (set_var out kv)) =
   (map_of (map (\<lambda>v. (ev_key v, ev_value v)) out))(fst kv \<mapsto> snd kv)"
  by (cases kv) (auto simp: set_var_eq overwrite_map plain_var_def image_image map_of_snoc_absent simp del: map_of_append)

lemma set_vars:
  "distinct (map ev_key out) \<Longrightarrow>
   distinct (map ev_key (foldl set_var out kvs)) \<and>
   map_of (map (\<lambda>v. (ev_key v, ev_value v)) (foldl set_var out kvs)) =
   foldl (\<lambda>m kv. m(fst kv \<mapsto> snd kv)) (map_of (map (\<lambda>v. (ev_key v, ev_value v)) out)) kvs"
proof (induction kvs arbitrary: out)
  case (Cons kv kvs)
  then show ?case using set_var_keys[OF Cons.prems] by (simp add: set_var_map)
qed simp

lemma foldl_upd_map_of:
  "distinct (map f vs) \<Longrightarrow> foldl (\<lambda>m v. m(f v \<mapsto> g v)) m0 vs = m0 ++ map_of (map (\<lambda>v. (f v, g v)) vs)"
proof (induction vs arbitrary: m0)
  case (Cons v vs)
  then have "map_of (map (\<lambda>v. (f v, g v)) vs) (f v) = None" by (simp add: map_of_eq_None_iff image_image)
  then show ?case using Cons by (auto simp: fun_eq_iff map_add_def split: option.splits)
qed simp

lemma parsed_in_order: "foldl (\<lambda>m kv. m(fst kv \<mapsto> snd kv)) Map.empty kvs = map_of (rev kvs)"
  by (induction kvs rule: rev_induct) auto

lemma dotenv_line_key: "dotenv_line l = Some (k, v) \<Longrightarrow> k \<noteq> []"
  by (auto simp: dotenv_line_def Let_def split: if_splits option.splits)

text \<open>A pasted .env file is read line by line: the map holds, for each key, the value of its last
  assignment, and the list shown in the form has each key once, never blank, at its first position.\<close>

theorem dotenv_last_wins:
  "parse_dotenv raw = map_of (rev (List.map_filter dotenv_line (str_split [CHR 0x0A] raw))) \<and>
   distinct (map ev_key (parse_dotenv_ordered raw)) \<and>
   set (map ev_key (parse_dotenv_ordered raw)) = dom (parse_dotenv raw) \<and> parse_dotenv raw [] = None"
proof -
  define kvs where "kvs = List.map_filter dotenv_line (str_split [CHR 0x0A] raw)"
  let ?out = "foldl set_var [] kvs"
  have s: "distinct (map ev_key ?out)"
    "map_of (map (\<lambda>v. (ev_key v, ev_value v)) ?out) = map_of (rev kvs)"
    using set_vars[of "[]" kvs] by (simp_all add: parsed_in_order)
  have p: "parse_dotenv raw = map_of (map (\<lambda>v. (ev_key v, ev_value v)) ?out)"
    unfolding parse_dotenv_def parse_dotenv_ordered_def kvs_def[symmetric] foldl_upd_map_of[OF s(1)] by simp
  have "[] \<notin> fst ` set kvs"
    using dotenv_line_key by (force simp: kvs_def List.map_filter_def)
  then have "map_of (rev kvs) [] = None" by (simp add: map_of_eq_None_iff)
  moreover have "dom (parse_dotenv raw) = set (map ev_key ?out)"
    unfolding p by (simp add: dom_map_of_conv_image_fst image_image)
  ultimately show ?thesis
    using s p unfolding parse_dotenv_ordered_def kvs_def[symmetric] by simp
qed

end
