(* ===== verification/Presets.thy ===== *)
theory Presets
  imports Naming "HOL-Library.List_Lexorder" "HOL-Library.Char_ord"
begin

text \<open>
  What the importer guesses from a repository's files, \<open>control-plane/internal/deploys/preset.go\<close>:
  the framework, the install script, the clone path, and the clean-up script, which the agent has its
  own copy of (\<open>agent/internal/deploy/cleanup.go\<close>). A Go map of files is the list of its entries,
  keys distinct, in any order. The build script that \<open>encoding/json\<close> finds in a package.json and the
  pm2 apps of \<open>ecosystem.go\<close> (read with regular expressions) are parameters.
\<close>

type_synonym files = "(string \<times> string) list"

definition file_body :: "files \<Rightarrow> string \<Rightarrow> string" where
  "file_body fs n = get0 [] (map_of fs) n"

definition has_file1 :: "files \<Rightarrow> string \<Rightarrow> bool" where
  "has_file1 fs n \<longleftrightarrow> map_of fs n \<noteq> None"

definition has_file :: "files \<Rightarrow> string list \<Rightarrow> bool" where
  "has_file fs ns = list_ex (has_file1 fs) ns"

definition has_extension :: "string list \<Rightarrow> string list \<Rightarrow> bool" where
  "has_extension paths exts = list_ex (\<lambda>p. list_ex (has_suffix (to_lower p)) exts) paths"

definition any_has :: "files \<Rightarrow> string list \<Rightarrow> bool" where
  "any_has fs ns = list_ex (\<lambda>p. list_ex (\<lambda>s. path_base (fst p) = s) ns) fs"

section \<open>Frameworks\<close>

text \<open>A name between double quotes, as it is searched for in a package.json\<close>

definition quoted :: "string \<Rightarrow> string" where
  "quoted s = CHR 0x22 # s @ [CHR 0x22]"

definition vite_configs :: "string list" where
  "vite_configs = [''vite.config.ts'', ''vite.config.js'', ''vite.config.mjs'']"

definition detect_js_framework :: "string \<Rightarrow> files \<Rightarrow> string" where
  "detect_js_framework pkg fs =
     (let has = (\<lambda>n. str_contains pkg (quoted n))
      in if has ''next'' then ''nextjs''
         else if has ''@nestjs/core'' then ''nestjs''
         else if has ''nuxt'' then ''nuxt''
         else if str_contains pkg (CHR 0x22 # ''@remix-run/'' @ [CHR 0x22]) \<or> has ''remix'' then ''remix''
         else if has ''@sveltejs/kit'' then ''sveltekit''
         else if has ''astro'' then ''astro''
         else if has ''vue'' \<and> (has ''vite'' \<or> has_file fs vite_configs) then ''vue''
         else if has ''react'' \<and> \<not> has ''next'' \<and> (has ''vite'' \<or> has_file fs vite_configs) then ''react''
         else if has ''express'' then ''express''
         else if has_file fs [''bun.lockb'', ''bun.lock''] then ''bun''
         else ''node'')"

definition detect_python_framework :: "files \<Rightarrow> string" where
  "detect_python_framework fs =
     (let blob = to_lower (file_body fs ''requirements.txt'' @ [CHR 0x0A] @ file_body fs ''pyproject.toml'' @
                   [CHR 0x0A] @ file_body fs ''Pipfile'')
      in if str_contains blob ''fastapi'' \<or> str_contains blob ''uvicorn'' then ''fastapi''
         else if str_contains blob ''django'' then ''django''
         else if str_contains blob ''flask'' then ''flask''
         else ''python'')"

definition detect_ruby_framework :: "files \<Rightarrow> string" where
  "detect_ruby_framework fs =
     (if str_contains (file_body fs ''Gemfile'') ''rails'' \<or> has_file fs [''config/application.rb'', ''bin/rails'']
      then ''rails'' else ''ruby'')"

definition detect_php_framework :: "files \<Rightarrow> string" where
  "detect_php_framework fs =
     (if has_file fs [''artisan''] \<or> str_contains (file_body fs ''composer.json'') (quoted ''laravel/framework'')
      then ''laravel'' else ''php'')"

definition detect_java_framework :: "files \<Rightarrow> string" where
  "detect_java_framework fs =
     (let blob = file_body fs ''pom.xml'' @ file_body fs ''build.gradle'' @ file_body fs ''build.gradle.kts''
      in if str_contains blob ''spring-boot'' \<or> str_contains blob ''org.springframework.boot'' then ''spring''
         else ''java'')"

definition looks_like_buildable_js :: "(string \<Rightarrow> string) \<Rightarrow> string \<Rightarrow> files \<Rightarrow> bool" where
  "looks_like_buildable_js json_build pkg fs =
     (if list_ex (\<lambda>n. str_contains pkg (quoted n))
           [''next'', ''vite'', ''nuxt'', ''remix'', ''@nestjs/core'', ''astro'', ''@sveltejs/kit''] then True
      else if json_build pkg \<noteq> [] then True
      else has_file1 fs ''tsconfig.json'')"

definition js_build_command :: "bool \<Rightarrow> bool \<Rightarrow> bool \<Rightarrow> string" where
  "js_build_command pnpm yarn bun =
     (if pnpm then ''pnpm run build'' else if yarn then ''yarn build'' else if bun then ''bun run build''
      else ''npm run build'')"

definition detect_workspaces :: "files \<Rightarrow> string list" where
  "detect_workspaces fs =
     sort (remdups (filter (\<lambda>d. d \<noteq> ''.'' \<and> d \<noteq> [])
       (map (\<lambda>p. path_dir (fst p))
         (filter (\<lambda>p. path_base (fst p) = ''package.json'' \<and> fst p \<noteq> ''package.json'') fs))))"

section \<open>Detection\<close>

record pm2_hint =
  pm_name :: string
  pm_port :: int

record detection =
  dt_language :: string
  dt_install_script :: string
  dt_has_pm2 :: bool
  dt_supports_port :: bool
  dt_workspaces :: "string list"
  dt_suggested_root :: string
  dt_pm2_apps :: "pm2_hint list"

definition empty_detection :: detection where
  "empty_detection = \<lparr>dt_language = ''unknown'', dt_install_script = [], dt_has_pm2 = False,
     dt_supports_port = False, dt_workspaces = [], dt_suggested_root = ''.'', dt_pm2_apps = []\<rparr>"

definition detect_js :: "(string \<Rightarrow> string) \<Rightarrow> files \<Rightarrow> detection \<Rightarrow> detection" where
  "detect_js json_build fs d =
     (let pkg = file_body fs ''package.json'';
          pnpm = (has_file1 fs ''pnpm-lock.yaml'' \<or> has_file1 fs ''pnpm-workspace.yaml'');
          yarn = has_file1 fs ''yarn.lock'';
          bun = (has_file1 fs ''bun.lockb'' \<or> has_file1 fs ''bun.lock'');
          install = (if pnpm then ''pnpm install'' else if yarn then ''yarn install''
                     else if bun then ''bun install'' else ''npm install'');
          ws = detect_workspaces fs;
          script = (if looks_like_buildable_js json_build pkg fs \<or> ws \<noteq> []
                    then install @ '' && '' @ js_build_command pnpm yarn bun else install)
      in d\<lparr>dt_language := detect_js_framework pkg fs, dt_supports_port := True, dt_workspaces := ws,
           dt_install_script := script\<rparr>)"

text \<open>The switch of \<open>Detect\<close> on the kinds of project\<close>

definition detect_kind :: "(string \<Rightarrow> string) \<Rightarrow> files \<Rightarrow> detection \<Rightarrow> detection" where
  "detect_kind json_build fs d =
     (let has = has_file1 fs; venv = ''python3 -m venv .venv && . .venv/bin/activate && pip install ''
      in if file_body fs ''package.json'' \<noteq> [] \<or> any_has fs [''package.json''] then detect_js json_build fs d
         else if has ''requirements.txt'' \<or> has ''pyproject.toml'' \<or> has ''Pipfile''
         then d\<lparr>dt_language := detect_python_framework fs, dt_supports_port := True,
                dt_install_script := (if has ''requirements.txt'' then venv @ ''-r requirements.txt'' else venv @ ''-e .'')\<rparr>
         else if has ''go.mod''
         then d\<lparr>dt_language := ''go'', dt_install_script := ''go build -o app .''\<rparr>
         else if has ''global.json'' \<or> has_extension (map fst fs) [''.csproj'', ''.fsproj'', ''.vbproj'', ''.sln'']
         then d\<lparr>dt_language := ''dotnet'', dt_supports_port := True,
                dt_install_script := ''dotnet restore && dotnet publish -c Release -o out''\<rparr>
         else if has ''Cargo.toml''
         then d\<lparr>dt_language := ''rust'', dt_install_script := ''cargo build --release''\<rparr>
         else if has ''Gemfile''
         then (if detect_ruby_framework fs = ''rails''
               then d\<lparr>dt_language := detect_ruby_framework fs, dt_supports_port := True,
                      dt_install_script := ''bundle install && bundle exec rake assets:precompile''\<rparr>
               else d\<lparr>dt_language := detect_ruby_framework fs, dt_install_script := ''bundle install''\<rparr>)
         else if has ''composer.json''
         then (if detect_php_framework fs = ''laravel''
               then d\<lparr>dt_language := detect_php_framework fs, dt_supports_port := True,
                      dt_install_script := ''composer install --no-dev --optimize-autoloader''\<rparr>
               else d\<lparr>dt_language := detect_php_framework fs, dt_install_script := ''composer install''\<rparr>)
         else if has ''mix.exs''
         then d\<lparr>dt_language := ''elixir'', dt_install_script := ''mix deps.get && mix compile''\<rparr>
         else if has ''pom.xml'' \<or> has ''build.gradle'' \<or> has ''build.gradle.kts''
         then d\<lparr>dt_language := detect_java_framework fs, dt_supports_port := True,
                dt_install_script := (if has ''pom.xml'' then ''mvn -q -DskipTests package'' else ''./gradlew build'')\<rparr>
         else if has ''docker-compose.yml'' \<or> has ''docker-compose.yaml'' \<or> has ''compose.yml'' \<or> has ''compose.yaml''
         then d\<lparr>dt_language := ''docker'', dt_install_script := ''docker compose up -d''\<rparr>
         else d)"

definition ecosystem_names :: "string list" where
  "ecosystem_names = [''ecosystem.config.js'', ''ecosystem.config.cjs'', ''ecosystem.config.mjs'',
     ''ecosystem.config.ts'', ''pm2.json'']"

definition detect :: "(string \<Rightarrow> string) \<Rightarrow> (files \<Rightarrow> string \<Rightarrow> pm2_hint list) \<Rightarrow> files \<Rightarrow> detection" where
  "detect json_build pm2_apps fs =
     (let d = detect_kind json_build fs empty_detection;
          apps = pm2_apps fs ''.'';
          pm2 = (apps \<noteq> [] \<or> any_has fs ecosystem_names);
          lang = (if pm2 \<and> dt_language d = ''unknown'' then ''node'' else dt_language d);
          port = (dt_supports_port d \<or> lang = ''node'' \<or> list_ex (\<lambda>a. 0 < pm_port a) apps \<or>
                  list_ex (\<lambda>f. str_contains (snd f) ''process.env.PORT'' \<or> str_contains (snd f) ''PORT='') fs)
      in d\<lparr>dt_pm2_apps := apps, dt_has_pm2 := pm2, dt_language := lang, dt_supports_port := port\<rparr>)"

definition scope_files :: "string \<Rightarrow> files \<Rightarrow> files" where
  "scope_files pre fs =
     concat (map (\<lambda>(p, body). case cut_prefix p pre of
                    None \<Rightarrow> [] | Some rel \<Rightarrow> if rel = [] then [] else [(rel, body)]) fs)"

definition detect_at ::
  "(string \<Rightarrow> string) \<Rightarrow> (files \<Rightarrow> string \<Rightarrow> pm2_hint list) \<Rightarrow> files \<Rightarrow> string \<Rightarrow> detection" where
  "detect_at json_build pm2_apps fs root0 =
     (let root = trim_set (trim_space root0) ''/''
      in if root = [] \<or> root = ''.'' then detect json_build pm2_apps fs
         else let d = detect json_build pm2_apps (scope_files (root @ ''/'') fs);
                  apps = pm2_apps fs root
              in if apps = [] then d
                 else let d1 = d\<lparr>dt_has_pm2 := True, dt_pm2_apps := apps\<rparr>
                      in if dt_language d1 = ''unknown''
                         then d1\<lparr>dt_language := ''node'', dt_supports_port := True\<rparr> else d1)"

section \<open>Clone paths\<close>

definition default_language_paths :: "(string \<times> string) list" where
  "default_language_paths =
     [(''node'', ''/opt/apps/node''), (''python'', ''/opt/apps/python''), (''go'', ''/opt/apps/go''),
      (''rust'', ''/opt/apps/rust''), (''dotnet'', ''/opt/apps/dotnet''), (''ruby'', ''/opt/apps/ruby''),
      (''php'', ''/opt/apps/php''), (''elixir'', ''/opt/apps/elixir''), (''java'', ''/opt/apps/java''),
      (''docker'', ''/opt/apps/docker''), (''deno'', ''/opt/apps/deno''), (''bun'', ''/opt/apps/bun''),
      (''unknown'', ''/opt/apps'')]"

definition runtime_language :: "string \<Rightarrow> string" where
  "runtime_language language =
     (let lang = to_lower (trim_space language)
      in if lang \<in> {''nextjs'', ''nestjs'', ''react'', ''vue'', ''nuxt'', ''remix'', ''sveltekit'', ''astro'',
                    ''express'', ''typescript'', ''javascript'', ''nodejs''} then ''node''
         else if lang \<in> {''fastapi'', ''django'', ''flask''} then ''python''
         else if lang \<in> {''csharp'', ''aspnet'', ''aspnetcore''} then ''dotnet''
         else if lang = ''rails'' then ''ruby''
         else if lang = ''laravel'' then ''php''
         else if lang \<in> {''spring'', ''kotlin''} then ''java''
         else if lang = ''golang'' then ''go''
         else if lang = [] then ''unknown''
         else lang)"

definition dir_char :: "char \<Rightarrow> bool" where
  "dir_char c \<longleftrightarrow> is_lower c \<or> is_digit c"

definition repo_dir_name :: "string \<Rightarrow> string" where
  "repo_dir_name full =
     (let name0 = (case after_last slash full of None \<Rightarrow> full | Some b \<Rightarrow> b);
          name1 = to_lower (trim_space name0);
          name2 = replace_runs dir_char ''-'' name1;
          name3 = trim_set name2 ''-''
      in if name3 = [] then ''app'' else name3)"

definition clone_path :: "(string \<rightharpoonup> string) option \<Rightarrow> string \<Rightarrow> string \<Rightarrow> string" where
  "clone_path paths language repo =
     (let runtime = runtime_language language;
          base0 = (case paths of
                     None \<Rightarrow> []
                   | Some m \<Rightarrow> (if get0 [] m runtime = [] then get0 [] m language else get0 [] m runtime));
          base1 = (if base0 = [] then get0 [] (map_of default_language_paths) runtime else base0);
          base = (if base1 = [] then ''/opt/apps'' else base1)
      in trim_right_set base ''/'' @ ''/'' @ repo_dir_name repo)"

section \<open>Clean-up scripts\<close>

definition default_cleanup :: "string \<Rightarrow> string" where
  "default_cleanup language =
     (let lang = to_lower (trim_space language)
      in if lang = ''nextjs'' then ''rm -rf .git .github node_modules/.cache .next/cache .turbo''
         else if lang = ''nestjs'' then ''rm -rf .git .github src test node_modules/.cache .turbo *.md''
         else if lang \<in> {''react'', ''vue'', ''nuxt'', ''astro'', ''sveltekit'', ''remix''}
         then ''rm -rf .git .github src node_modules/.cache .turbo *.md''
         else if lang \<in> {''express'', ''node'', ''typescript'', ''javascript'', ''bun''}
         then ''rm -rf .git .github node_modules/.cache *.md''
         else if lang \<in> {''go'', ''golang''} then ''rm -rf .git .github *.md''
         else if lang = ''rust'' then ''rm -rf .git .github src target/debug *.md''
         else if lang \<in> {''dotnet'', ''csharp'', ''aspnet'', ''aspnetcore''} then ''rm -rf .git .github *.md''
         else if lang \<in> {''fastapi'', ''django'', ''flask'', ''python''}
         then ''rm -rf .git .github __pycache__ .pytest_cache *.md''
         else if lang \<in> {''rails'', ''ruby''} then ''rm -rf .git .github tmp/cache log/*.log *.md''
         else if lang \<in> {''laravel'', ''php''} then ''rm -rf .git .github tests *.md''
         else if lang \<in> {''spring'', ''java'', ''kotlin''} then ''rm -rf .git .github src *.md''
         else if lang = ''elixir'' then ''rm -rf .git .github *_test.exs *.md''
         else if lang = ''deno'' then ''rm -rf .git .github *.md''
         else if lang = ''docker'' then []
         else if language = [] \<or> language = ''unknown'' then ''rm -rf .git .github''
         else ''rm -rf .git .github'')"

definition agent_default_cleanup :: "string \<Rightarrow> string" where
  "agent_default_cleanup language =
     (let lang = to_lower (trim_space language)
      in if lang = ''nextjs'' then ''rm -rf .git .github node_modules/.cache .next/cache .turbo''
         else if lang = ''nestjs'' then ''rm -rf .git .github src test node_modules/.cache .turbo *.md''
         else if lang \<in> {''react'', ''vue'', ''nuxt'', ''astro'', ''sveltekit'', ''remix''}
         then ''rm -rf .git .github src node_modules/.cache .turbo *.md''
         else if lang \<in> {''express'', ''node'', ''typescript'', ''javascript'', ''bun''}
         then ''rm -rf .git .github node_modules/.cache *.md''
         else if lang \<in> {''go'', ''golang''} then ''rm -rf .git .github *.md''
         else if lang = ''rust'' then ''rm -rf .git .github src target/debug *.md''
         else if lang \<in> {''dotnet'', ''csharp'', ''aspnet'', ''aspnetcore''} then ''rm -rf .git .github *.md''
         else if lang \<in> {''fastapi'', ''django'', ''flask'', ''python''}
         then ''rm -rf .git .github __pycache__ .pytest_cache *.md''
         else if lang \<in> {''rails'', ''ruby''} then ''rm -rf .git .github tmp/cache log/*.log *.md''
         else if lang \<in> {''laravel'', ''php''} then ''rm -rf .git .github tests *.md''
         else if lang \<in> {''spring'', ''java'', ''kotlin''} then ''rm -rf .git .github src *.md''
         else if lang = ''elixir'' then ''rm -rf .git .github *_test.exs *.md''
         else if lang = ''deno'' then ''rm -rf .git .github *.md''
         else if lang = ''docker'' then []
         else ''rm -rf .git .github'')"

definition cleanup_script_for :: "string \<Rightarrow> string \<Rightarrow> string" where
  "cleanup_script_for app_cleanup language =
     (let s = trim_space app_cleanup in if s \<noteq> [] then s else agent_default_cleanup language)"

section \<open>Properties\<close>

lemma cleanup_in_sync: "agent_default_cleanup language = default_cleanup language"
  by (simp add: agent_default_cleanup_def default_cleanup_def)

lemma repo_dir_chars:
  "repo_dir_name full \<noteq> [] \<and> list_all (\<lambda>c. is_lower c \<or> is_digit c \<or> c = dash) (repo_dir_name full)"
proof -
  define n where "n = to_lower (trim_space (case after_last slash full of None \<Rightarrow> full | Some b \<Rightarrow> b))"
  let ?t = "trim_set (replace_runs dir_char ''-'' n) ''-''"
  have "list_all (\<lambda>c. is_lower c \<or> is_digit c \<or> c = dash) ?t"
    unfolding list_all_iff
  proof
    fix c assume "c \<in> set ?t"
    then have "c \<in> set (replace_runs dir_char ''-'' n)"
      using set_trim_if[of "\<lambda>c. c \<in> set ''-''" "replace_runs dir_char ''-'' n"] by (auto simp: trim_set_def)
    from replace_runs_set[OF this] show "is_lower c \<or> is_digit c \<or> c = dash" by (auto simp: dir_char_def)
  qed
  moreover have "list_all (\<lambda>c. is_lower c \<or> is_digit c \<or> c = dash) ''app''" by code_simp
  ultimately show ?thesis by (simp add: repo_dir_name_def n_def[symmetric] Let_def)
qed

lemma repo_dir_plain: "plain_elem (repo_dir_name full)"
proof -
  have "\<not> (is_lower CHR ''.'' \<or> is_digit CHR ''.'')" "\<not> (is_lower slash \<or> is_digit slash)" by code_simp+
  then show ?thesis
    using repo_dir_chars[of full] by (auto simp: plain_elem_def dot_def dotdot_def list_all_iff)
qed

text \<open>A repository is cloned into exactly one directory below the root of its language, whatever the
  repository is called: the last element of the path is not empty, not a dot or a double dot, and holds
  no slash.\<close>

theorem clone_path_one_below:
  "\<exists>base d. clone_path paths language repo = base @ ''/'' @ d \<and> plain_elem d \<and>
     list_all (\<lambda>c. is_lower c \<or> is_digit c \<or> c = dash) d \<and>
     trim_right_set base ''/'' = base"
proof -
  have "\<exists>b. clone_path paths language repo = trim_right_set b ''/'' @ ''/'' @ repo_dir_name repo"
    unfolding clone_path_def Let_def by (rule exI, rule refl)
  then obtain b where "clone_path paths language repo = trim_right_set b ''/'' @ ''/'' @ repo_dir_name repo"
    by blast
  moreover have "trim_right_set (trim_right_set b ''/'') ''/'' = trim_right_set b ''/''"
    by (simp add: trim_right_set_def trim_right_if_idem)
  ultimately have "clone_path paths language repo = trim_right_set b ''/'' @ ''/'' @ repo_dir_name repo \<and>
    plain_elem (repo_dir_name repo) \<and> list_all (\<lambda>c. is_lower c \<or> is_digit c \<or> c = dash) (repo_dir_name repo) \<and>
    trim_right_set (trim_right_set b ''/'') ''/'' = trim_right_set b ''/''"
    using repo_dir_plain[of repo] repo_dir_chars[of repo] by blast
  then show ?thesis by (intro exI[of _ "trim_right_set b ''/''"] exI[of _ "repo_dir_name repo"])
qed

lemma scope_files_filter:
  "scope_files pre fs = scope_files pre (filter (\<lambda>f. has_prefix (fst f) pre) fs)"
  by (induction fs) (auto simp: scope_files_def cut_prefix_def)

text \<open>Detection scoped to a folder looks at that folder only: two repositories with the same files
  below it, and the same pm2 apps for it, are detected alike, so a package.json elsewhere in a
  monorepo does not turn a Go service into a Node app.\<close>

theorem detection_is_scoped:
  assumes "trim_set (trim_space root) ''/'' \<notin> {[], ''.''}"
    and "filter (\<lambda>f. has_prefix (fst f) (trim_set (trim_space root) ''/'' @ ''/'')) fs =
         filter (\<lambda>f. has_prefix (fst f) (trim_set (trim_space root) ''/'' @ ''/'')) gs"
    and "pm2 fs (trim_set (trim_space root) ''/'') = pm2 gs (trim_set (trim_space root) ''/'')"
  shows "detect_at js pm2 fs root = detect_at js pm2 gs root"
proof -
  let ?r = "trim_set (trim_space root) ''/''"
  have "scope_files (?r @ ''/'') fs = scope_files (?r @ ''/'') gs"
    using scope_files_filter[of "?r @ ''/''" fs] scope_files_filter[of "?r @ ''/''" gs] assms(2) by simp
  with assms(1,3) show ?thesis by (simp add: detect_at_def Let_def)
qed

theorem detection_is_scoped_witness:
  "detect_at (\<lambda>_. []) (\<lambda>_ _. []) [(''backend/go.mod'', ''module x''), (''frontend/package.json'', ''{}'')] ''/backend/'' =
     detect_at (\<lambda>_. []) (\<lambda>_ _. []) [(''backend/go.mod'', ''module x'')] ''/backend/'' \<and>
   dt_language (detect_at (\<lambda>_. []) (\<lambda>_ _. []) [(''backend/go.mod'', ''module x'')] ''/backend/'') = ''go''"
proof -
  have r: "trim_set (trim_space ''/backend/'') ''/'' = ''backend''" by code_simp
  have e: "dt_language (detect_at (\<lambda>_. []) (\<lambda>_ _. []) [(''backend/go.mod'', ''module x'')] ''/backend/'') = ''go''"
    by code_simp
  show ?thesis
    using detection_is_scoped[of "''/backend/''" "[(''backend/go.mod'', ''module x''), (''frontend/package.json'', ''{}'')]"
        "[(''backend/go.mod'', ''module x'')]" "\<lambda>_ _. []" "\<lambda>_. []"] e
    by (simp add: r has_prefix_def)
qed

end
