(* ===== verification/DeployStore.thy ===== *)
theory DeployStore
  imports DeployEnv Presets "HOL-Library.Word"
begin

text \<open>
  The tables of deploys, \<open>control-plane/internal/deploys/store.go\<close> and \<open>store_health.go\<close>, and the
  two ways a project is written, \<open>update.go\<close> and \<open>CreateInput.extras\<close> of \<open>model.go\<close>. A table is the
  list of its rows in the order they were inserted; \<open>order by created_at desc limit 1\<close> is the last
  row among those with the latest time. A column kept as JSON is kept as the value it encodes. Each
  statement that can fail has its outcome as an argument: False stands for a lost connection and for
  a broken foreign key alike, and nothing is written then. A run's metrics, its log lines and the
  audit log are not part of the state here.
\<close>

record project_row =
  pr_project :: project
  pr_webhook_secret :: string
  pr_token_hash :: string

record repo_file =
  rf_path :: string
  rf_content :: string

record status_post =
  po_provider :: string
  po_token :: string
  po_repo :: string
  po_sha :: string
  po_state :: string
  po_description :: string
  po_target :: string

text \<open>The last three fields record what left the control plane: the deploy commands that the gateway
  took for an agent, the commit statuses posted, and the files written to repositories.\<close>

record deploys =
  ds_projects :: "project_row list"
  ds_runs :: "deploy_run list"
  ds_deliveries :: "(string \<times> string) list"
  ds_paths :: "(string \<rightharpoonup> string) option"
  ds_sent :: "(string \<times> deploy_command) list"
  ds_posts :: "status_post list"
  ds_repo_writes :: "(string \<times> string \<times> string \<times> repo_file list) list"

datatype store_error = NotFound | DbError

section \<open>Projects\<close>

text \<open>\<open>scanProject\<close>: the two columns that are normalised when they are read\<close>

definition scan_project :: "project \<Rightarrow> project" where
  "scan_project p =
     p\<lparr>pj_redeploy_on := normalize_redeploy_on (pj_redeploy_on p),
       pj_on_wave_failure := normalize_on_wave_failure (pj_on_wave_failure p)\<rparr>"

definition find_project :: "deploys \<Rightarrow> string \<Rightarrow> project_row option" where
  "find_project s i = List.find (\<lambda>r. pj_id (pr_project r) = i) (ds_projects s)"

definition get_project :: "bool \<Rightarrow> deploys \<Rightarrow> string \<Rightarrow> (store_error, project) res" where
  "get_project ok s i =
     (if \<not> ok then Inl DbError
      else case find_project s i of None \<Rightarrow> Inl NotFound | Some r \<Rightarrow> Inr (scan_project (pr_project r)))"

definition newest_by :: "('a \<Rightarrow> int) \<Rightarrow> 'a list \<Rightarrow> 'a option" where
  "newest_by f xs =
     foldl (\<lambda>best x. case best of None \<Rightarrow> Some x | Some b \<Rightarrow> if f b \<le> f x then Some x else Some b) None xs"

definition lookup_repo :: "bool \<Rightarrow> deploys \<Rightarrow> string \<Rightarrow> string \<Rightarrow> (store_error, project_row) res" where
  "lookup_repo ok s provider full_name =
     (if \<not> ok then Inl DbError
      else case newest_by (\<lambda>r. pj_created_at (pr_project r))
                  (filter (\<lambda>r. pj_provider (pr_project r) = provider \<and> pj_repo_full_name (pr_project r) = full_name)
                     (ds_projects s)) of
             None \<Rightarrow> Inl NotFound
           | Some r \<Rightarrow> Inr r)"

text \<open>\<open>GetByRepo\<close>: the project and, by a second statement, its webhook secret\<close>

definition get_by_repo :: "bool \<Rightarrow> bool \<Rightarrow> deploys \<Rightarrow> string \<Rightarrow> string \<Rightarrow> (store_error, project \<times> string) res" where
  "get_by_repo ok1 ok2 s provider full_name =
     (case lookup_repo ok1 s provider full_name of
        Inl e \<Rightarrow> Inl e
      | Inr r \<Rightarrow> if ok2 then Inr (scan_project (pr_project r), pr_webhook_secret r) else Inl DbError)"

definition webhook_secret :: "bool \<Rightarrow> deploys \<Rightarrow> string \<Rightarrow> (store_error, string) res" where
  "webhook_secret ok s i =
     (if \<not> ok then Inl DbError
      else case find_project s i of None \<Rightarrow> Inl NotFound | Some r \<Rightarrow> Inr (pr_webhook_secret r))"

definition token_hash :: "bool \<Rightarrow> deploys \<Rightarrow> string \<Rightarrow> (store_error, string) res" where
  "token_hash ok s i =
     (if \<not> ok then Inl DbError
      else case find_project s i of None \<Rightarrow> Inl NotFound | Some r \<Rightarrow> Inr (pr_token_hash r))"

text \<open>SHA-256 in hexadecimal is the parameter \<open>hash\<close>.\<close>

definition token_ok :: "(string \<Rightarrow> string) \<Rightarrow> string \<Rightarrow> string \<Rightarrow> bool" where
  "token_ok hash h plain = (if h = [] \<or> plain = [] then False else h = hash plain)"

definition match_token :: "(string \<Rightarrow> string) \<Rightarrow> string \<Rightarrow> string \<Rightarrow> bool" where
  "match_token hash h plain = token_ok hash h plain"

definition set_project :: "deploys \<Rightarrow> string \<Rightarrow> (project \<Rightarrow> project) \<Rightarrow> deploys" where
  "set_project s i f =
     s\<lparr>ds_projects := map (\<lambda>r. if pj_id (pr_project r) = i then r\<lparr>pr_project := f (pr_project r)\<rparr> else r)
                        (ds_projects s)\<rparr>"

text \<open>\<open>applyUpdate\<close>\<close>

definition upd :: "'a option \<Rightarrow> ('a \<Rightarrow> project \<Rightarrow> project) \<Rightarrow> project \<Rightarrow> project" where
  "upd v f p = (case v of None \<Rightarrow> p | Some x \<Rightarrow> f x p)"

definition apply_update :: "project \<Rightarrow> update_input \<Rightarrow> project" where
  "apply_update p0 inp =
     (let p1 = upd (ui_name inp) (\<lambda>x p. p\<lparr>pj_name := x\<rparr>) p0;
          p2 = upd (ui_default_branch inp) (\<lambda>x p. p\<lparr>pj_default_branch := x\<rparr>) p1;
          p3 = upd (ui_server_id inp) (\<lambda>x p. p\<lparr>pj_server_id := x\<rparr>) p2;
          p4 = upd (ui_language inp) (\<lambda>x p. p\<lparr>pj_language := x\<rparr>) p3;
          p5 = upd (ui_install_script inp) (\<lambda>x p. p\<lparr>pj_install_script := x\<rparr>) p4;
          p6 = upd (ui_root_directory inp) (\<lambda>x p. p\<lparr>pj_root_directory := x\<rparr>) p5;
          p7 = upd (ui_clone_path inp) (\<lambda>x p. p\<lparr>pj_clone_path := x\<rparr>) p6;
          p8 = upd (ui_port inp) (\<lambda>x p. p\<lparr>pj_port := x\<rparr>) p7;
          p9 = upd (ui_process_manager inp) (\<lambda>x p. p\<lparr>pj_process_manager := x\<rparr>) p8;
          p10 = upd (ui_run_as_user inp) (\<lambda>x p. p\<lparr>pj_run_as_user := x\<rparr>) p9;
          p11 = upd (ui_env inp) (\<lambda>x p. p\<lparr>pj_env := x\<rparr>) p10;
          p12 = upd (ui_apps inp) (\<lambda>x p. p\<lparr>pj_apps := x\<rparr>) p11;
          p13 = upd (ui_write_spec inp) (\<lambda>x p. p\<lparr>pj_write_spec := x\<rparr>) p12;
          p14 = upd (ui_auto_rollback inp) (\<lambda>x p. p\<lparr>pj_auto_rollback := x\<rparr>) p13;
          p15 = upd (ui_on_wave_failure inp) (\<lambda>x p. p\<lparr>pj_on_wave_failure := normalize_on_wave_failure x\<rparr>) p14;
          p16 = upd (ui_health_path inp) (\<lambda>x p. p\<lparr>pj_health_path := x\<rparr>) p15;
          p17 = upd (ui_health_port inp) (\<lambda>x p. p\<lparr>pj_health_port := x\<rparr>) p16;
          p18 = upd (ui_health_timeout_seconds inp) (\<lambda>x p. p\<lparr>pj_health_timeout_seconds := x\<rparr>) p17;
          p19 = upd (ui_deploy_timeout_seconds inp) (\<lambda>x p. p\<lparr>pj_deploy_timeout_seconds := x\<rparr>) p18;
          p20 = upd (ui_redeploy_on inp) (\<lambda>x p. p\<lparr>pj_redeploy_on := normalize_redeploy_on x\<rparr>) p19
      in upd (ui_flow inp) (\<lambda>x p. p\<lparr>pj_flow := x\<rparr>) p20)"

text \<open>\<open>Update\<close>: read, apply, write the columns it names over the row, read it back\<close>

definition written_over :: "int \<Rightarrow> project \<Rightarrow> project \<Rightarrow> project" where
  "written_over now p old =
     p\<lparr>pj_redeploy_on := normalize_redeploy_on (pj_redeploy_on p),
       pj_on_wave_failure := normalize_on_wave_failure (pj_on_wave_failure p), pj_updated_at := now,
       pj_id := pj_id old, pj_provider := pj_provider old, pj_repo_full_name := pj_repo_full_name old,
       pj_repo_id := pj_repo_id old, pj_clone_url := pj_clone_url old, pj_health_state := pj_health_state old,
       pj_created_by := pj_created_by old, pj_created_at := pj_created_at old\<rparr>"

definition update_project ::
  "(nat \<Rightarrow> bool) \<Rightarrow> int \<Rightarrow> deploys \<Rightarrow> string \<Rightarrow> update_input \<Rightarrow> deploys \<times> (store_error, project) res" where
  "update_project db now s i inp =
     (case get_project (db 0) s i of
        Inl e \<Rightarrow> (s, Inl e)
      | Inr p \<Rightarrow>
          if \<not> db 1 then (s, Inl DbError)
          else let s1 = set_project s i (written_over now (apply_update p inp)) in (s1, get_project (db 2) s1 i))"

text \<open>\<open>CreateInput.extras\<close>\<close>

definition no_update :: update_input where
  "no_update =
     \<lparr>ui_name = None, ui_default_branch = None, ui_server_id = None, ui_language = None, ui_install_script = None,
      ui_root_directory = None, ui_clone_path = None, ui_port = None, ui_process_manager = None,
      ui_run_as_user = None, ui_env = None, ui_apps = None, ui_write_spec = None, ui_auto_rollback = None,
      ui_on_wave_failure = None, ui_health_path = None, ui_health_port = None, ui_health_timeout_seconds = None,
      ui_deploy_timeout_seconds = None, ui_redeploy_on = None, ui_flow = None\<rparr>"

definition extras :: "create_input \<Rightarrow> update_input \<times> bool" where
  "extras inp =
     (let wave = ci_on_wave_failure inp \<noteq> []; health = ci_health_path inp \<noteq> []; budget = 0 < ci_deploy_timeout_seconds inp;
          modes = ci_redeploy_on inp \<noteq> []; flow = ci_flow inp \<noteq> []
      in (no_update
            \<lparr>ui_auto_rollback := (if ci_auto_rollback inp then Some True else None),
             ui_on_wave_failure := (if wave then Some (normalize_on_wave_failure (ci_on_wave_failure inp)) else None),
             ui_health_path := (if health then Some (ci_health_path inp) else None),
             ui_health_port := (if health then Some (ci_health_port inp) else None),
             ui_health_timeout_seconds := (if health then Some (ci_health_timeout_seconds inp) else None),
             ui_deploy_timeout_seconds := (if budget then Some (ci_deploy_timeout_seconds inp) else None),
             ui_redeploy_on := (if modes then Some (normalize_redeploy_on (ci_redeploy_on inp)) else None),
             ui_flow := (if flow then Some (ci_flow inp) else None)\<rparr>,
          ci_auto_rollback inp \<or> wave \<or> health \<or> budget \<or> modes \<or> flow))"

text \<open>\<open>Insert\<close> fills in the defaults; the row has the table's defaults in the columns that \<open>insertRow\<close>
  does not name. The new identifiers (token, webhook secret, id) are arguments.\<close>

definition inserted_row :: "int \<Rightarrow> (string \<Rightarrow> string) \<Rightarrow> string \<times> string \<times> string \<Rightarrow> create_input \<Rightarrow> string \<Rightarrow> project_row" where
  "inserted_row now hash new inp actor =
     \<lparr>pr_project =
        \<lparr>pj_id = snd (snd new), pj_name = (if ci_name inp = [] then ci_repo_full_name inp else ci_name inp),
         pj_provider = ci_provider inp, pj_repo_full_name = ci_repo_full_name inp, pj_repo_id = ci_repo_id inp,
         pj_clone_url = (if ci_clone_url inp = [] then https_clone_url (ci_provider inp) (ci_repo_full_name inp)
                         else ci_clone_url inp),
         pj_default_branch = (if ci_default_branch inp = [] then ''main'' else ci_default_branch inp),
         pj_server_id = ci_server_id inp, pj_language = ci_language inp, pj_install_script = ci_install_script inp,
         pj_root_directory = (if ci_root_directory inp = [] then ''.'' else ci_root_directory inp),
         pj_clone_path = ci_clone_path inp, pj_port = ci_port inp,
         pj_process_manager = (if ci_process_manager inp = [] then ''none'' else ci_process_manager inp),
         pj_run_as_user = ci_run_as_user inp, pj_env = ci_env inp, pj_apps = ci_apps inp,
         pj_redeploy_on = normalize_redeploy_on (ci_redeploy_on inp),
         pj_write_spec = (case ci_write_spec inp of None \<Rightarrow> True | Some b \<Rightarrow> b),
         pj_auto_rollback = False, pj_on_wave_failure = ''stop'', pj_flow = [], pj_health_path = [],
         pj_health_port = 0, pj_health_timeout_seconds = 60, pj_deploy_timeout_seconds = 0,
         pj_health_state = ''unknown'', pj_created_by = (if actor = [] then None else Some actor),
         pj_created_at = now, pj_updated_at = now\<rparr>,
      pr_webhook_secret = fst (snd new), pr_token_hash = hash (''ccdep_'' @ fst new)\<rparr>"

definition insert_project ::
  "(nat \<Rightarrow> bool) \<Rightarrow> int \<Rightarrow> (string \<Rightarrow> string) \<Rightarrow> string \<times> string \<times> string \<Rightarrow> deploys \<Rightarrow> create_input \<Rightarrow> string \<Rightarrow>
   deploys \<times> (store_error, project) res" where
  "insert_project db now hash new s inp actor =
     (let row = inserted_row now hash new inp actor; i = pj_id (pr_project row)
      in if \<not> db 0 \<or> find_project s i \<noteq> None then (s, Inl DbError)
         else let s1 = s\<lparr>ds_projects := ds_projects s @ [row]\<rparr> in (s1, get_project (db 1) s1 i))"

text \<open>\<open>Delete\<close>; runs go with their project (\<open>on delete cascade\<close>)\<close>

definition delete_project :: "bool \<Rightarrow> deploys \<Rightarrow> string \<Rightarrow> deploys \<times> (store_error, unit) res" where
  "delete_project ok s i =
     (if \<not> ok then (s, Inl DbError)
      else if find_project s i = None then (s, Inl NotFound)
      else (s\<lparr>ds_projects := filter (\<lambda>r. pj_id (pr_project r) \<noteq> i) (ds_projects s),
              ds_runs := filter (\<lambda>r. dr_project_id r \<noteq> i) (ds_runs s)\<rparr>, Inr ()))"

definition set_health_state :: "bool \<Rightarrow> deploys \<Rightarrow> string \<Rightarrow> string \<Rightarrow> deploys" where
  "set_health_state ok s i st = (if ok then set_project s i (\<lambda>p. p\<lparr>pj_health_state := st\<rparr>) else s)"

section \<open>Runs\<close>

definition get_run :: "bool \<Rightarrow> deploys \<Rightarrow> string \<Rightarrow> (store_error, deploy_run) res" where
  "get_run ok s i =
     (if \<not> ok then Inl DbError
      else case List.find (\<lambda>r. dr_id r = i) (ds_runs s) of None \<Rightarrow> Inl NotFound | Some r \<Rightarrow> Inr r)"

definition new_run :: "string \<Rightarrow> int \<Rightarrow> string \<Rightarrow> string \<Rightarrow> string \<Rightarrow> string \<Rightarrow> string \<Rightarrow> deploy_run" where
  "new_run i now project server trigger branch sha =
     \<lparr>dr_id = i, dr_project_id = project, dr_server_id = server, dr_trigger = trigger, dr_status = ''pending'',
      dr_branch = branch, dr_commit_sha = sha, dr_exit_code = None, dr_error = [], dr_started_at = None,
      dr_finished_at = None, dr_created_at = now\<rparr>"

definition insert_run ::
  "(nat \<Rightarrow> bool) \<Rightarrow> int \<Rightarrow> string \<Rightarrow> deploys \<Rightarrow> string \<Rightarrow> string \<Rightarrow> string \<Rightarrow> string \<Rightarrow> string \<Rightarrow>
   deploys \<times> (store_error, deploy_run) res" where
  "insert_run db now i s project server trigger branch sha =
     (if \<not> db 0 \<or> i \<in> set (map dr_id (ds_runs s)) then (s, Inl DbError)
      else let s1 = s\<lparr>ds_runs := ds_runs s @ [new_run i now project server trigger branch sha]\<rparr>
           in (s1, get_run (db 1) s1 i))"

definition mark_row :: "int \<Rightarrow> string \<Rightarrow> int \<Rightarrow> string \<Rightarrow> deploy_run \<Rightarrow> deploy_run" where
  "mark_row now status exit_code err r =
     r\<lparr>dr_status := status,
       dr_exit_code := (if status \<in> {''succeeded'', ''failed'', ''canceled'', ''agent_offline''} then Some exit_code
                        else if status \<in> {''pending'', ''running''} then None else dr_exit_code r),
       dr_error := err,
       dr_started_at := (case dr_started_at r of None \<Rightarrow> Some now | Some t \<Rightarrow> Some t),
       dr_finished_at := (if status \<in> {''succeeded'', ''failed'', ''canceled''} then Some now else dr_finished_at r)\<rparr>"

definition map_run :: "deploys \<Rightarrow> string \<Rightarrow> (deploy_run \<Rightarrow> deploy_run) \<Rightarrow> deploys" where
  "map_run s i f = s\<lparr>ds_runs := map (\<lambda>r. if dr_id r = i then f r else r) (ds_runs s)\<rparr>"

definition mark_run :: "bool \<Rightarrow> int \<Rightarrow> deploys \<Rightarrow> string \<Rightarrow> string \<Rightarrow> int \<Rightarrow> string \<Rightarrow> deploys" where
  "mark_run ok now s i status exit_code err = (if ok then map_run s i (mark_row now status exit_code err) else s)"

definition in_flight :: "deploy_run \<Rightarrow> bool" where
  "in_flight r \<longleftrightarrow> dr_status r \<in> {''pending'', ''running''}"

definition last_succeeded_run :: "bool \<Rightarrow> deploys \<Rightarrow> string \<Rightarrow> (store_error, deploy_run) res" where
  "last_succeeded_run ok s project =
     (if \<not> ok then Inl DbError
      else case newest_by dr_created_at
                  (filter (\<lambda>r. dr_project_id r = project \<and> dr_status r = ''succeeded'' \<and> dr_commit_sha r \<noteq> []) (ds_runs s)) of
             None \<Rightarrow> Inl NotFound
           | Some r \<Rightarrow> Inr r)"

definition last_succeeded_run_on_branch :: "bool \<Rightarrow> deploys \<Rightarrow> string \<Rightarrow> string \<Rightarrow> (store_error, deploy_run) res" where
  "last_succeeded_run_on_branch ok s project branch =
     (if \<not> ok then Inl DbError
      else case newest_by dr_created_at
                  (filter (\<lambda>r. dr_project_id r = project \<and> dr_status r = ''succeeded'' \<and> dr_commit_sha r \<noteq> [] \<and>
                     dr_branch r = branch) (ds_runs s)) of
             None \<Rightarrow> Inl NotFound
           | Some r \<Rightarrow> Inr r)"

text \<open>\<open>ClaimWebhookDelivery\<close>: whether this caller is the first\<close>

definition claim_webhook_delivery :: "bool \<Rightarrow> deploys \<Rightarrow> string \<Rightarrow> string \<Rightarrow> deploys \<times> (store_error, bool) res" where
  "claim_webhook_delivery ok s project delivery =
     (if \<not> ok then (s, Inl DbError)
      else if (project, delivery) \<in> set (ds_deliveries s) then (s, Inr False)
      else (s\<lparr>ds_deliveries := ds_deliveries s @ [(project, delivery)]\<rparr>, Inr True))"

definition recent_run_for_commit :: "bool \<Rightarrow> int \<Rightarrow> deploys \<Rightarrow> string \<Rightarrow> string \<Rightarrow> int \<Rightarrow> (store_error, bool) res" where
  "recent_run_for_commit ok now s project sha window =
     (if sha = [] then Inr False
      else if \<not> ok then Inl DbError
      else Inr (list_ex (\<lambda>r. dr_project_id r = project \<and> dr_commit_sha r = sha \<and>
                   (in_flight r \<or> now - window < dr_created_at r)) (ds_runs s)))"

definition active_run :: "bool \<Rightarrow> deploys \<Rightarrow> string \<Rightarrow> (store_error, bool) res" where
  "active_run ok s project =
     (if \<not> ok then Inl DbError else Inr (list_ex (\<lambda>r. dr_project_id r = project \<and> in_flight r) (ds_runs s)))"

definition second :: int where
  "second = 1000000000"

definition run_budget :: "deploys \<Rightarrow> deploy_run \<Rightarrow> int" where
  "run_budget s r =
     (case find_project s (dr_project_id r) of
        None \<Rightarrow> 3600
      | Some p \<Rightarrow> if pj_deploy_timeout_seconds (pr_project p) = 0 then 3600 else pj_deploy_timeout_seconds (pr_project p))"

definition stuck_runs :: "bool \<Rightarrow> int \<Rightarrow> deploys \<Rightarrow> int \<Rightarrow> (store_error, deploy_run list) res" where
  "stuck_runs ok now s grace =
     (if \<not> ok then Inl DbError
      else Inr (take 50 (sort_key dr_created_at
             (filter (\<lambda>r. in_flight r \<and> dr_created_at r < now - (run_budget s r + grace) * second) (ds_runs s)))))"

definition list_runs :: "bool \<Rightarrow> deploys \<Rightarrow> string \<Rightarrow> int \<Rightarrow> (store_error, deploy_run list) res" where
  "list_runs ok s project limit =
     (if \<not> ok then Inl DbError
      else Inr (take (nat (if limit \<le> 0 then 50 else limit))
             (sort_key (\<lambda>r. - dr_created_at r) (filter (\<lambda>r. dr_project_id r = project) (ds_runs s)))))"

section \<open>Settings\<close>

text \<open>\<open>GetSettings\<close>: the defaults, overridden by the stored paths that are not empty\<close>

definition override_paths :: "(string \<rightharpoonup> string) \<Rightarrow> (string \<rightharpoonup> string)" where
  "override_paths custom =
     (\<lambda>k. case custom k of Some v \<Rightarrow> if v = [] then map_of default_language_paths k else Some v
        | None \<Rightarrow> map_of default_language_paths k)"

definition get_settings :: "bool \<Rightarrow> deploys \<Rightarrow> (store_error, string \<rightharpoonup> string) res" where
  "get_settings ok s =
     (if \<not> ok then Inl DbError
      else Inr (case ds_paths s of None \<Rightarrow> map_of default_language_paths | Some m \<Rightarrow> override_paths m))"

definition put_settings :: "bool \<Rightarrow> bool \<Rightarrow> deploys \<Rightarrow> (string \<rightharpoonup> string) \<Rightarrow> deploys \<times> (store_error, string \<rightharpoonup> string) res" where
  "put_settings ok1 ok2 s m =
     (if \<not> ok1 then (s, Inl DbError) else let s1 = s\<lparr>ds_paths := Some m\<rparr> in (s1, get_settings ok2 s1))"

end
