(* ===== verification/DeployRuns.thy ===== *)
theory DeployRuns
  imports DeployStore Contracts
begin

text \<open>
  Starting and finishing deploy runs on the control plane: \<open>startRun\<close> of \<open>handler.go\<close>, the rollback
  hook of \<open>rollback.go\<close>, the de-duplication of \<open>trigger.go\<close>, the commit statuses of \<open>status.go\<close> and the
  sweep of \<open>sweeper.go\<close>. What the code calls outside the repository or in another component comes
  in a \<open>denv\<close>, one per call of an operation: the gateway's answer to \<open>SendDeploy\<close>, the tokens, the
  clock, the new run's identifier, the outcome of each statement in the order the code runs them. The
  audit log and the program's own log are not modelled.
\<close>

datatype app_token = AppToken string | AppNotInstalled | AppFailed string

record denv =
  dn_box :: "aead option"
  dn_now :: int
  dn_run_id :: string
  dn_db :: "nat \<Rightarrow> bool"
  dn_send :: "string \<Rightarrow> deploy_command \<Rightarrow> string option"
  dn_token :: "string \<Rightarrow> string \<Rightarrow> (string, string) res"
  dn_app_configured :: bool
  dn_app_token :: "string \<Rightarrow> app_token"
  dn_public :: string

definition later_db :: "nat \<Rightarrow> denv \<Rightarrow> denv" where
  "later_db k e = e\<lparr>dn_db := (\<lambda>n. dn_db e (n + k))\<rparr>"

section \<open>Commit statuses\<close>

definition server_label :: "project \<Rightarrow> string" where
  "server_label p = (if 8 < length (pj_server_id p) then ''server '' @ take 8 (pj_server_id p) else ''the server'')"

definition first_line :: "string \<Rightarrow> string" where
  "first_line s0 =
     (let s1 = (case index_byte s0 CHR 0x0A of None \<Rightarrow> s0 | Some i \<Rightarrow> take i s0); s = trim_space s1
      in if s = [] then ''no detail reported'' else s)"

definition ellipsis :: string where
  "ellipsis = [CHR 0xE2, CHR 0x80, CHR 0xA6]"

definition truncate_status :: "string \<Rightarrow> nat \<Rightarrow> string" where
  "truncate_status s n = (if length s \<le> n then s else take (n - 1) s @ ellipsis)"

definition status_for :: "project \<Rightarrow> deploy_run \<Rightarrow> string \<Rightarrow> string \<Rightarrow> string \<times> string" where
  "status_for p run status phase =
     (if status = ''succeeded''
      then (if dr_trigger run = ''rollback''
            then (''success'', ''Rolled back: '' @ server_label p @ '' is serving the last good commit'')
            else if pj_health_path p \<noteq> []
            then (''success'', ''Deployed to '' @ server_label p @ '' and passed its health check'')
            else (''success'', ''Deployed to '' @ server_label p @ '' (no health check configured)''))
      else if phase = ''health'' then (''failure'', ''Built and installed, but the app did not pass its health check'')
      else if phase = ''preflight'' then (''error'', ''Server was not ready to deploy: '' @ first_line (dr_error run))
      else if phase = ''clone'' then (''error'', ''Could not check out this commit on '' @ server_label p)
      else if phase = ''install'' then (''failure'', ''Install or build failed on '' @ server_label p)
      else if phase = ''pre_start'' then (''failure'', ''Built fine, but the pre-start script failed on '' @ server_label p)
      else if phase = ''run'' then (''failure'', ''Built fine, but the app did not stay up on '' @ server_label p)
      else if phase = ''release'' \<or> phase = ''start'' then (''failure'', ''Built fine, but the app could not be started'')
      else (''failure'', ''Deploy failed: '' @ first_line (dr_error run)))"

definition user_token :: "denv \<Rightarrow> project \<Rightarrow> (string, string) res" where
  "user_token e p =
     (case pj_created_by p of
        None \<Rightarrow> Inl ''project has no owner to borrow a git token from''
      | Some u \<Rightarrow> (case dn_token e u (pj_provider p) of
                   Inl err \<Rightarrow> Inl err
                 | Inr t \<Rightarrow> if t = [] then Inl ''git grant missing'' else Inr t))"

definition status_token :: "denv \<Rightarrow> project \<Rightarrow> (string, string) res" where
  "status_token e p =
     (if pj_provider p = ''github'' \<and> dn_app_configured e
      then case dn_app_token e (pj_repo_full_name p) of
             AppToken t \<Rightarrow> Inr t
           | AppFailed err \<Rightarrow> Inl err
           | AppNotInstalled \<Rightarrow> user_token e p
      else user_token e p)"

definition post_status :: "denv \<Rightarrow> deploys \<Rightarrow> project \<Rightarrow> deploy_run \<Rightarrow> string \<Rightarrow> string \<Rightarrow> deploys" where
  "post_status e s p run st description =
     (case status_token e p of
        Inl err \<Rightarrow> s
      | Inr t \<Rightarrow> s\<lparr>ds_posts := ds_posts s @ [\<lparr>po_provider = pj_provider p, po_token = t, po_repo = pj_repo_full_name p,
          po_sha = dr_commit_sha run, po_state = st, po_description = truncate_status description 140,
          po_target = trim_right_set (dn_public e) ''/'' @ ''/app/deploys/runs/'' @ dr_id run\<rparr>]\<rparr>)"

definition report_status_start :: "denv \<Rightarrow> deploys \<Rightarrow> project \<Rightarrow> deploy_run \<Rightarrow> deploys" where
  "report_status_start e s p run =
     (if dr_commit_sha run = [] then s else post_status e s p run ''pending'' (''Deploying to '' @ server_label p))"

definition report_status_finish :: "denv \<Rightarrow> deploys \<Rightarrow> project \<Rightarrow> deploy_run \<Rightarrow> string \<Rightarrow> string \<Rightarrow> deploys" where
  "report_status_finish e s p run status phase =
     (if dr_commit_sha run = [] then s
      else case status_for p run status phase of (st, description) \<Rightarrow> post_status e s p run st description)"

section \<open>The deploy command\<close>

definition health_check_for :: "project \<Rightarrow> health_check option" where
  "health_check_for p =
     (if pj_health_path p = [] then None
      else Some \<lparr>hc_path = pj_health_path p, hc_port = to_int32 (pj_health_port p),
                 hc_timeout_seconds = to_int32 (pj_health_timeout_seconds p)\<rparr>)"

definition health_check_for_app :: "spec_app \<Rightarrow> health_check option" where
  "health_check_for_app a =
     (case sa_health a of
        None \<Rightarrow> None
      | Some h \<Rightarrow> if sh_path h = [] then None
                  else Some \<lparr>hc_path = sh_path h, hc_port = to_int32 (sh_port h), hc_timeout_seconds = to_int32 (sh_timeout h)\<rparr>)"

datatype run_error = StoreFailed store_error | EnvFailed env_error | NoMatchingApps

definition allowed :: "string list \<Rightarrow> string list" where
  "allowed only_apps = filter (\<lambda>n. n \<noteq> []) (map trim_space only_apps)"

definition passes :: "string list \<Rightarrow> string \<Rightarrow> bool" where
  "passes allow n \<longleftrightarrow> allow = [] \<or> n \<in> set allow"

definition app_command :: "project \<Rightarrow> spec_app \<Rightarrow> (string \<rightharpoonup> string) \<Rightarrow> deploy_app" where
  "app_command p a app_env =
     (let lang = (if sa_language a = [] then pj_language p else sa_language a);
          pm = (if sa_process_manager a = [] then pj_process_manager p else sa_process_manager a)
      in \<lparr>da_name = sa_name a, da_root_directory = sa_root a, da_install_script = sa_install a, da_language = lang,
          da_port = to_int32 (sa_port a), da_process_manager = pm, da_env = pj_env p ++ app_env,
          da_health = health_check_for_app a, da_run_script = sa_run a,
          da_cleanup_script = (if sa_cleanup a = [] then default_cleanup lang else sa_cleanup a),
          da_pre_start_script = sa_pre_start a, da_start_group = to_int32 (sa_start_group a),
          da_process_name = process_name_for_deploy (pj_name p) a pm\<rparr>)"

fun app_commands :: "aead option \<Rightarrow> project \<Rightarrow> string list \<Rightarrow> spec_app list \<Rightarrow> (run_error, deploy_app list) res" where
  "app_commands box p allow [] = Inr []"
| "app_commands box p allow (a # as) =
     (if \<not> passes allow (sa_name a) then app_commands box p allow as
      else case resolve_app_env box a of
             Inl err \<Rightarrow> Inl (EnvFailed err)
           | Inr m \<Rightarrow> (case app_commands box p allow as of
                        Inl err \<Rightarrow> Inl err
                      | Inr rest \<Rightarrow> Inr (app_command p a m # rest)))"

definition single_app :: "project \<Rightarrow> deploy_app" where
  "single_app p =
     \<lparr>da_name = pj_name p, da_root_directory = pj_root_directory p, da_install_script = pj_install_script p,
      da_language = pj_language p, da_port = to_int32 (pj_port p), da_process_manager = pj_process_manager p,
      da_env = pj_env p, da_health = None, da_run_script = [], da_cleanup_script = default_cleanup (pj_language p),
      da_pre_start_script = [], da_start_group = 0, da_process_name = []\<rparr>"

definition flow_waves :: "string list \<Rightarrow> flow_task list list \<Rightarrow> flow_task list list" where
  "flow_waves allow flow = filter (\<lambda>w. w \<noteq> []) (map (filter (\<lambda>t. passes allow (ft_app t))) flow)"

definition deploy_command_for ::
  "aead option \<Rightarrow> project \<Rightarrow> string \<Rightarrow> string \<Rightarrow> string \<Rightarrow> string \<Rightarrow> string list \<Rightarrow> (run_error, deploy_command) res" where
  "deploy_command_for box p run_id token branch pin only_apps =
     (let allow = allowed only_apps
      in case app_commands box p allow (pj_apps p) of
           Inl err \<Rightarrow> Inl err
         | Inr apps \<Rightarrow>
             if apps = [] \<and> allow \<noteq> [] then Inl NoMatchingApps
             else Inr
               \<lparr>dc_run_id = run_id, dc_op = ''start'', dc_clone_url = pj_clone_url p, dc_clone_token = token,
                dc_dest_path = pj_clone_path p, dc_branch = branch, dc_install_script = pj_install_script p,
                dc_root_directory = pj_root_directory p, dc_env = pj_env p, dc_port = to_int32 (pj_port p),
                dc_process_manager = pj_process_manager p,
                dc_apps = (if apps = [] then [single_app p] else apps), dc_stdin = [], dc_rollback_sha = pin,
                dc_health = health_check_for p, dc_timeout_seconds = to_int32 (pj_deploy_timeout_seconds p),
                dc_run_as_user = pj_run_as_user p, dc_project_name = pj_name p,
                dc_on_wave_failure = normalize_on_wave_failure (pj_on_wave_failure p),
                dc_flow = flow_waves allow (pj_flow p)\<rparr>)"

section \<open>Starting a run\<close>

definition clone_token :: "denv \<Rightarrow> project \<Rightarrow> string" where
  "clone_token e p =
     (case pj_created_by p of
        None \<Rightarrow> []
      | Some u \<Rightarrow> (case dn_token e u (pj_provider p) of Inl err \<Rightarrow> [] | Inr t \<Rightarrow> t))"

text \<open>\<open>startRun\<close>: statements 0 and 1 insert the run, 2 marks it. The run row is inserted before the
  command is built.\<close>

definition start_run_db ::
  "denv \<Rightarrow> deploys \<Rightarrow> project \<Rightarrow> string \<Rightarrow> string \<Rightarrow> string \<Rightarrow> string list \<Rightarrow> deploys \<times> (run_error, deploy_run) res" where
  "start_run_db e s p trigger branch pin only_apps =
     (case insert_run (dn_db e) (dn_now e) (dn_run_id e) s (pj_id p) (pj_server_id p) trigger branch pin of
        (s1, Inl err) \<Rightarrow> (s1, Inl (StoreFailed err))
      | (s1, Inr run) \<Rightarrow>
          let s2 = report_status_start e s1 p run
          in (case deploy_command_for (dn_box e) p (dr_id run) (clone_token e p) branch pin only_apps of
                Inl err \<Rightarrow> (s2, Inl err)
              | Inr cmd \<Rightarrow>
                  (case dn_send e (pj_server_id p) cmd of
                     Some err \<Rightarrow> (mark_run (dn_db e 2) (dn_now e) s2 (dr_id run) ''agent_offline'' 0 err,
                                  Inr (run\<lparr>dr_status := ''agent_offline'', dr_error := err\<rparr>))
                   | None \<Rightarrow> (mark_run (dn_db e 2) (dn_now e) (s2\<lparr>ds_sent := ds_sent s2 @ [(pj_server_id p, cmd)]\<rparr>)
                                (dr_id run) ''running'' 0 [],
                              Inr (run\<lparr>dr_status := ''running''\<rparr>)))))"

section \<open>A finished run\<close>

definition health_state_of :: "deploy_run \<Rightarrow> string \<Rightarrow> string" where
  "health_state_of run status =
     (if status = ''succeeded'' \<and> dr_trigger run = ''rollback'' then ''rolled_back''
      else if status = ''succeeded'' then ''healthy'' else ''degraded'')"

definition record_health_state :: "bool \<Rightarrow> deploys \<Rightarrow> deploy_run \<Rightarrow> string \<Rightarrow> deploys" where
  "record_health_state ok s run status = set_health_state ok s (dr_project_id run) (health_state_of run status)"

text \<open>\<open>DeployRunFinished\<close>: statement 0 loads the run, 1 writes the health state, 2 loads the project,
  3 finds the run to go back to, those from 4 on start the rollback.\<close>

definition deploy_run_finished :: "denv \<Rightarrow> deploys \<Rightarrow> string \<Rightarrow> string \<Rightarrow> string \<Rightarrow> deploys" where
  "deploy_run_finished e s run_id status phase =
     (case get_run (dn_db e 0) s run_id of
        Inl err \<Rightarrow> s
      | Inr run \<Rightarrow>
          let s1 = record_health_state (dn_db e 1) s run status
          in (case get_project (dn_db e 2) s1 (dr_project_id run) of
                Inl err \<Rightarrow> s1
              | Inr p \<Rightarrow>
                  let s2 = report_status_finish e s1 p run status phase
                  in if status = ''succeeded'' \<or> dr_trigger run = ''rollback'' \<or> \<not> pj_auto_rollback p then s2
                     else (case last_succeeded_run (dn_db e 3) s2 (pj_id p) of
                             Inl err \<Rightarrow> s2
                           | Inr good \<Rightarrow>
                               if dr_commit_sha good = [] \<or> dr_commit_sha good = dr_commit_sha run then s2
                               else fst (start_run_db (later_db 4 e) s2 p ''rollback'' (dr_branch good)
                                           (dr_commit_sha good) []))))"

section \<open>The sweep\<close>

definition sweep_grace :: int where
  "sweep_grace = 120"

definition budget_message :: string where
  "budget_message = ''no result from the agent before the deploy budget expired''"

text \<open>\<open>es i\<close> is the environment of the i-th stuck run; its statement 0 marks the run.\<close>

fun sweep_from :: "(nat \<Rightarrow> denv) \<Rightarrow> nat \<Rightarrow> deploy_run list \<Rightarrow> deploys \<Rightarrow> deploys" where
  "sweep_from es i [] s = s"
| "sweep_from es i (r # rs) s =
     (let e = es i
      in sweep_from es (Suc i) rs
           (if dn_db e 0
            then deploy_run_finished (later_db 1 e) (mark_run True (dn_now e) s (dr_id r) ''failed'' 1 budget_message)
                   (dr_id r) ''failed'' []
            else s))"

definition sweep_stuck_runs :: "bool \<Rightarrow> int \<Rightarrow> (nat \<Rightarrow> denv) \<Rightarrow> deploys \<Rightarrow> deploys" where
  "sweep_stuck_runs ok now es s =
     (case stuck_runs ok now s sweep_grace of Inl err \<Rightarrow> s | Inr rs \<Rightarrow> sweep_from es 0 rs s)"

section \<open>Triggers\<close>

definition duplicate_window :: int where
  "duplicate_window = 90 * second"

text \<open>\<open>duplicateTrigger\<close>: the reason to skip, if any; statements 0 and 1\<close>

definition duplicate_trigger :: "(nat \<Rightarrow> bool) \<Rightarrow> int \<Rightarrow> deploys \<Rightarrow> string \<Rightarrow> string \<Rightarrow> string" where
  "duplicate_trigger db now s project sha =
     (if sha \<noteq> [] \<and> recent_run_for_commit (db 0) now s project sha duplicate_window = Inr True
      then ''commit '' @ short_sha sha @ '' is already deploying or just deployed''
      else case active_run (db 1) s project of
             Inl err \<Rightarrow> []
           | Inr active \<Rightarrow> if active then ''a deploy is already running for this project'' else [])"

datatype response = Resp nat string | Skipped string | Started deploy_run

text \<open>\<open>triggerFromWebhook\<close> is three steps on the database, with no lock and no unique index between them, so
  other handlers may run in between: statement 0 claims the delivery, 1 and 2 look for a duplicate, those from
  3 on start the run, the insert of its row first. A claim that fails is logged and counts as a first one.\<close>

definition webhook_claim :: "denv \<Rightarrow> deploys \<Rightarrow> project \<Rightarrow> string \<Rightarrow> deploys \<times> bool" where
  "webhook_claim e s p delivery =
     (if delivery = [] then (s, True)
      else case claim_webhook_delivery (dn_db e 0) s (pj_id p) delivery of
             (s1, Inr first) \<Rightarrow> (s1, first)
           | (s1, Inl err) \<Rightarrow> (s1, True))"

definition webhook_check :: "denv \<Rightarrow> deploys \<Rightarrow> project \<Rightarrow> string \<Rightarrow> bool" where
  "webhook_check e s p sha \<longleftrightarrow> duplicate_trigger (\<lambda>n. dn_db e (n + 1)) (dn_now e) s (pj_id p) sha = []"

definition webhook_start :: "denv \<Rightarrow> deploys \<Rightarrow> project \<Rightarrow> string \<Rightarrow> deploys \<times> response" where
  "webhook_start e s p branch =
     (case start_run_db (later_db 3 e) s p ''webhook'' branch [] [] of
        (s2, Inl err) \<Rightarrow> (s2, Resp 500 ''run_failed'')
      | (s2, Inr run) \<Rightarrow> (s2, Resp 202 []))"

text \<open>One handler alone, with nothing in between.\<close>

definition trigger_from_webhook ::
  "denv \<Rightarrow> deploys \<Rightarrow> project \<Rightarrow> string \<Rightarrow> string \<Rightarrow> string \<Rightarrow> deploys \<times> response" where
  "trigger_from_webhook e s p branch delivery sha =
     (case webhook_claim e s p delivery of
        (s1, go) \<Rightarrow>
          if \<not> go \<or> \<not> webhook_check e s1 p sha then (s1, Resp 200 [])
          else webhook_start e s1 p branch)"

end
