(* ===== verification/DeployApi.thy ===== *)
theory DeployApi
  imports DeployRuns
begin

text \<open>
  The handlers of the deploys API, \<open>control-plane/internal/deploys/handler.go\<close> and
  \<open>import_process.go\<close>, and the document they commit to a repository (\<open>spec.go\<close>). A request body
  comes parsed: None where parsing fails. The environment of a handler is a \<open>denv\<close>; its statements
  are numbered in the order the handler runs them. The response is the status code with the error code,
  a skipped trigger, or the run started. The YAML and the text of the trigger files
  (\<open>GitHubActionsWorkflow\<close>, \<open>GitLabCI\<close>) are parameters.
\<close>

section \<open>croncompose.yml\<close>

definition apps_for_spec :: "spec_app list \<Rightarrow> spec_app list" where
  "apps_for_spec apps =
     map (\<lambda>a. a\<lparr>sa_env := map (\<lambda>v. plain_var (ev_key v) (ev_value v))
                           (filter (\<lambda>v. \<not> (ev_sensitive v \<or> ev_key v = [])) (sa_env a))\<rparr>) apps"

definition spec_for_project :: "project \<Rightarrow> deploy_spec" where
  "spec_for_project p =
     (let wave = normalize_on_wave_failure (pj_on_wave_failure p);
          single = (case pj_apps p of [a] \<Rightarrow> Some a | _ \<Rightarrow> None)
      in \<lparr>sp_version = 1, sp_name = pj_name p, sp_provider = pj_provider p, sp_repo = pj_repo_full_name p,
          sp_branch = pj_default_branch p, sp_server = [], sp_language = pj_language p, sp_install = pj_install_script p,
          sp_run = (case single of None \<Rightarrow> [] | Some a \<Rightarrow> sa_run a),
          sp_cleanup = (case single of None \<Rightarrow> [] | Some a \<Rightarrow> sa_cleanup a),
          sp_pre_start = (case single of None \<Rightarrow> [] | Some a \<Rightarrow> sa_pre_start a),
          sp_root = pj_root_directory p, sp_port = pj_port p, sp_process_manager = pj_process_manager p,
          sp_clone_path = pj_clone_path p, sp_apps = apps_for_spec (pj_apps p), sp_env = pj_env p,
          sp_health = (if pj_health_path p = [] then None
                       else Some \<lparr>sh_path = pj_health_path p, sh_port = pj_health_port p,
                                  sh_timeout = pj_health_timeout_seconds p\<rparr>),
          sp_deploy_timeout = pj_deploy_timeout_seconds p, sp_auto_rollback = pj_auto_rollback p,
          sp_on_wave_failure = (if wave = ''stop'' then [] else wave),
          sp_redeploy_on = normalize_redeploy_on (pj_redeploy_on p), sp_flow = []\<rparr>)"

text \<open>\<open>ci provider url\<close> is the text of the trigger file.\<close>

definition spec_files ::
  "(deploy_spec \<Rightarrow> string) \<Rightarrow> (string \<Rightarrow> string \<Rightarrow> string) \<Rightarrow> project \<Rightarrow> string \<Rightarrow> bool \<Rightarrow> repo_file list" where
  "spec_files yaml ci p public keep =
     (let url = trim_right_set public ''/'' @ ''/api/deploys/'' @ pj_id p @ ''/runs''
      in (if keep then [] else [\<lparr>rf_path = ''croncompose.yml'', rf_content = yaml (spec_for_project p)\<rparr>]) @
         (if pj_provider p = ''gitlab''
          then [\<lparr>rf_path = ''.gitlab-ci.yml'', rf_content = ci ''gitlab'' url\<rparr>]
          else [\<lparr>rf_path = ''.github/workflows/croncompose.yml'', rf_content = ci ''github'' url\<rparr>]))"

section \<open>Reading\<close>

record api =
  ap_user :: string
  ap_operator :: bool
  ap_hash :: "string \<Rightarrow> string"
  ap_yaml :: "deploy_spec \<Rightarrow> string"
  ap_ci :: "string \<Rightarrow> string \<Rightarrow> string"
  ap_new_ids :: "string \<times> string \<times> string"
  ap_walk :: "(string \<times> string) list"

definition store_status :: "store_error \<Rightarrow> response" where
  "store_status err = (case err of NotFound \<Rightarrow> Resp 404 ''not_found'' | DbError \<Rightarrow> Resp 500 ''get_failed'')"

definition get_handler :: "denv \<Rightarrow> deploys \<Rightarrow> string \<Rightarrow> (response, project \<times> string \<times> string) res" where
  "get_handler e s i =
     (case get_project (dn_db e 0) s i of
        Inl err \<Rightarrow> Inl (store_status err)
      | Inr p \<Rightarrow>
          Inr (redact_project p, (case webhook_secret (dn_db e 1) s (pj_id p) of Inl err \<Rightarrow> [] | Inr w \<Rightarrow> w),
               trim_right_set (dn_public e) ''/'' @ ''/api/deploys/webhooks/'' @ pj_provider p))"

definition workflow_handler :: "api \<Rightarrow> denv \<Rightarrow> deploys \<Rightarrow> string \<Rightarrow> (response, string \<times> string) res" where
  "workflow_handler api e s i =
     (case get_project (dn_db e 0) s i of
        Inl err \<Rightarrow> Inl (store_status err)
      | Inr p \<Rightarrow>
          let url = trim_right_set (dn_public e) ''/'' @ ''/api/deploys/'' @ pj_id p @ ''/runs''
          in Inr (ap_yaml api (spec_for_project p),
                  (if pj_provider p = ''gitlab'' then ap_ci api ''gitlab'' url else ap_ci api ''github'' url)))"

section \<open>Creating\<close>

text \<open>\<open>provisionRemote\<close>: \<open>files\<close> says whether the git API is given the repository files; the warnings
  it answers are not modelled. Statement 0 reads the webhook secret.\<close>

definition provision_remote :: "api \<Rightarrow> denv \<Rightarrow> deploys \<Rightarrow> project \<Rightarrow> bool \<Rightarrow> deploys" where
  "provision_remote api e s p keep =
     (if clone_token e p = [] then s
      else if pj_write_spec p
      then s\<lparr>ds_repo_writes := ds_repo_writes s @ [(pj_provider p, pj_repo_full_name p, pj_default_branch p,
               spec_files (ap_yaml api) (ap_ci api) p (dn_public e) keep)]\<rparr>
      else s)"

definition with_paths :: "bool \<Rightarrow> deploys \<Rightarrow> create_input \<Rightarrow> create_input" where
  "with_paths ok s inp =
     (let paths = (case get_settings ok s of Inl err \<Rightarrow> None | Inr m \<Rightarrow> Some m);
          inp1 = (if ci_clone_path inp = []
                  then inp\<lparr>ci_clone_path := clone_path paths (ci_language inp) (ci_repo_full_name inp)\<rparr> else inp)
      in if ci_clone_url inp1 = []
         then inp1\<lparr>ci_clone_url := https_clone_url (ci_provider inp1) (ci_repo_full_name inp1)\<rparr> else inp1)"

text \<open>\<open>create\<close>: statement 0 reads the settings, 1 and 2 insert, 3 to 5 apply the extras, 6 is
  provisioning's, 7 on start the first run. \<open>nonces\<close> are those of the sealed variables.\<close>

definition create_project ::
  "api \<Rightarrow> denv \<Rightarrow> (nat \<Rightarrow> nat \<Rightarrow> (string, string) res) \<Rightarrow> deploys \<Rightarrow> create_input \<Rightarrow> deploys \<times> (response, project) res" where
  "create_project api e nonces s inp0 =
     (if ci_provider inp0 = [] \<or> ci_repo_full_name inp0 = [] \<or> ci_server_id inp0 = []
      then (s, Inl (Resp 400 ''missing_fields''))
      else let inp1 = with_paths (dn_db e 0) s inp0
           in case normalize_create_apps (dn_box e) nonces (ap_walk api) inp1 of
                Inl err \<Rightarrow> (s, Inl (Resp 400 ''env_invalid''))
              | Inr apps \<Rightarrow>
                  let inp = inp1\<lparr>ci_apps := apps\<rparr>
                  in (case insert_project (\<lambda>n. dn_db e (n + 1)) (dn_now e) (ap_hash api) (ap_new_ids api) s inp (ap_user api) of
                        (s1, Inl err) \<Rightarrow> (s1, Inl (Resp 500 ''insert_failed''))
                      | (s1, Inr p) \<Rightarrow>
                          (case extras inp of
                             (up, False) \<Rightarrow> (s1, Inr p)
                           | (up, True) \<Rightarrow>
                               (case update_project (\<lambda>n. dn_db e (n + 3)) (dn_now e) s1 (pj_id p) up of
                                  (s2, Inl err) \<Rightarrow> (s2, Inl (Resp 500 ''update_failed''))
                                | (s2, Inr q) \<Rightarrow> (s2, Inr q)))))"

definition respond_run :: "deploys \<times> (run_error, deploy_run) res \<Rightarrow> deploys \<times> response" where
  "respond_run r =
     (case r of (s, Inl err) \<Rightarrow> (s, Resp 500 ''run_failed'') | (s, Inr run) \<Rightarrow> (s, Started run))"

definition create_handler ::
  "api \<Rightarrow> denv \<Rightarrow> (nat \<Rightarrow> nat \<Rightarrow> (string, string) res) \<Rightarrow> deploys \<Rightarrow> create_input option \<Rightarrow> deploys \<times> response" where
  "create_handler api e nonces s body =
     (case body of
        None \<Rightarrow> (s, Resp 400 ''bad_request'')
      | Some inp \<Rightarrow>
          (case create_project api e nonces s inp of
             (s1, Inl r) \<Rightarrow> (s1, r)
           | (s1, Inr p) \<Rightarrow>
               respond_run (start_run_db (later_db 7 e) (provision_remote api e s1 p (ci_spec_from_repo inp)) p ''manual''
                              (pj_default_branch p) [] [])))"

text \<open>\<open>patch\<close>: statement 0 reads the project, 1 to 3 update it, 4 on start a run.\<close>

definition patch_handler ::
  "denv \<Rightarrow> (nat \<Rightarrow> nat \<Rightarrow> (string, string) res) \<Rightarrow> deploys \<Rightarrow> string \<Rightarrow> update_input option \<Rightarrow> deploys \<times> response" where
  "patch_handler e nonces s i body =
     (case body of
        None \<Rightarrow> (s, Resp 400 ''bad_request'')
      | Some inp0 \<Rightarrow>
          (case get_project (dn_db e 0) s i of
             Inl err \<Rightarrow> (s, store_status err)
           | Inr before \<Rightarrow>
               (case (case ui_apps inp0 of
                        None \<Rightarrow> Inr inp0
                      | Some apps \<Rightarrow> (case merge_apps_env (dn_box e) nonces (pj_apps before) apps of
                                       Inl err \<Rightarrow> Inl err | Inr m \<Rightarrow> Inr (inp0\<lparr>ui_apps := Some m\<rparr>))) of
                  Inl err \<Rightarrow> (s, Resp 400 ''env_invalid'')
                | Inr inp \<Rightarrow>
                    (case update_project (\<lambda>n. dn_db e (n + 1)) (dn_now e) s i inp of
                       (s1, Inl err) \<Rightarrow> (s1, Resp 500 ''update_failed'')
                     | (s1, Inr p) \<Rightarrow>
                         if ui_process_manager inp \<noteq> None \<and> pj_process_manager p \<noteq> pj_process_manager before \<and>
                            pj_process_manager p \<noteq> [] \<and> pj_process_manager p \<noteq> ''none''
                         then respond_run (start_run_db (later_db 4 e) s1 p ''manual'' (pj_default_branch p) [] [])
                         else (s1, Resp 200 [])))))"

definition remove_handler :: "denv \<Rightarrow> deploys \<Rightarrow> string \<Rightarrow> deploys \<times> response" where
  "remove_handler e s i =
     (case delete_project (dn_db e 0) s i of
        (s1, Inl NotFound) \<Rightarrow> (s1, Resp 404 ''not_found'')
      | (s1, Inl DbError) \<Rightarrow> (s1, Resp 500 ''delete_failed'')
      | (s1, Inr u) \<Rightarrow> (s1, Resp 204 []))"

text \<open>\<open>importProcess\<close>: statement 0 reads the settings, 1 and 2 insert.\<close>

definition import_create :: "string \<Rightarrow> import_input \<Rightarrow> (string \<times> string) list \<Rightarrow> create_input" where
  "import_create server inp walk =
     (let pm = (if ip_process_manager inp = [] then ip_kind inp else ip_process_manager inp)
      in \<lparr>ci_name = ip_name inp, ci_provider = ip_provider inp, ci_repo_full_name = ip_repo_full_name inp, ci_repo_id = [],
          ci_clone_url = ip_clone_url inp, ci_default_branch = ip_default_branch inp, ci_server_id = server,
          ci_language = ip_language inp, ci_install_script = ip_command inp, ci_root_directory = ''.'',
          ci_clone_path = ip_cwd inp, ci_port = 0, ci_process_manager = pm, ci_run_as_user = [], ci_env = ip_env inp,
          ci_apps = [\<lparr>sa_name = ip_name inp, sa_root = ''.'', sa_language = ip_language inp, sa_install = ip_command inp,
                      sa_run = [], sa_cleanup = [], sa_pre_start = [], sa_port = 0, sa_process_manager = pm,
                      sa_env = env_map_to_vars walk, sa_health = None, sa_process_name = [], sa_start_group = 0\<rparr>],
          ci_write_spec = Some False, ci_spec_from_repo = False, ci_auto_rollback = False, ci_on_wave_failure = [],
          ci_health_path = [], ci_health_port = 0, ci_health_timeout_seconds = 0, ci_deploy_timeout_seconds = 0,
          ci_redeploy_on = [], ci_flow = []\<rparr>)"

definition import_process ::
  "api \<Rightarrow> denv \<Rightarrow> (nat \<Rightarrow> nat \<Rightarrow> (string, string) res) \<Rightarrow> deploys \<Rightarrow> string \<Rightarrow> import_input option \<Rightarrow>
   deploys \<times> (response, project) res" where
  "import_process api e nonces s server body =
     (case body of
        None \<Rightarrow> (s, Inl (Resp 400 ''bad_request''))
      | Some inp0 \<Rightarrow>
          let inp = inp0\<lparr>ip_kind := trim_space (to_lower (ip_kind inp0)), ip_name := trim_space (ip_name inp0),
                         ip_provider := trim_space (to_lower (ip_provider inp0)),
                         ip_repo_full_name := trim_space (ip_repo_full_name inp0)\<rparr>
          in if ip_kind inp = [] \<or> ip_ref inp = [] \<or> ip_name inp = [] then (s, Inl (Resp 400 ''missing_fields''))
             else if ip_kind inp \<notin> {''pm2'', ''systemd'', ''docker''} then (s, Inl (Resp 400 ''bad_kind''))
             else if ip_provider inp = [] \<or> ip_repo_full_name inp = [] then (s, Inl (Resp 400 ''missing_fields''))
             else let create = with_paths (dn_db e 0) s (import_create server inp (ap_walk api))
                  in (case normalize_create_apps (dn_box e) nonces (ap_walk api) create of
                        Inl err \<Rightarrow> (s, Inl (Resp 400 ''env_invalid''))
                      | Inr apps \<Rightarrow>
                          (case insert_project (\<lambda>n. dn_db e (n + 1)) (dn_now e) (ap_hash api) (ap_new_ids api) s
                                  (create\<lparr>ci_apps := apps\<rparr>) (ap_user api) of
                             (s1, Inl err) \<Rightarrow> (s1, Inl (Resp 500 ''insert_failed''))
                           | (s1, Inr p) \<Rightarrow> (s1, Inr (redact_project p)))))"

section \<open>Runs\<close>

record run_body =
  rb_trigger :: string
  rb_branch :: string
  rb_commit :: string
  rb_apps :: "string list"

definition bearer_token :: "string \<Rightarrow> string" where
  "bearer_token h = (if has_prefix (to_lower h) ''bearer '' then trim_space (drop 7 h) else [])"

text \<open>Who may start a run, and the trigger it starts with: statement 0\<close>

definition run_trigger :: "api \<Rightarrow> bool \<Rightarrow> deploys \<Rightarrow> project \<Rightarrow> string \<Rightarrow> (response, string) res" where
  "run_trigger api ok s p authorization =
     (if ap_operator api then Inr ''manual''
      else case token_hash ok s (pj_id p) of
             Inl err \<Rightarrow> Inl (Resp 500 ''get_failed'')
           | Inr h \<Rightarrow>
               if \<not> match_token (ap_hash api) h (bearer_token authorization)
               then Inl (if ap_user api \<noteq> [] then Resp 403 ''forbidden'' else Resp 401 ''unauthenticated'')
               else Inr ''api'')"

definition chosen_trigger :: "string \<Rightarrow> run_body \<Rightarrow> string" where
  "chosen_trigger base body =
     (if rb_trigger body \<noteq> [] \<and> rb_trigger body \<noteq> ''rollback'' then rb_trigger body else base)"

text \<open>\<open>createRun\<close>: statement 0 reads the project, 1 the token, 2 and 3 look for a duplicate, 4 on start
  the run. A body that does not parse counts as empty.\<close>

definition create_run :: "api \<Rightarrow> denv \<Rightarrow> deploys \<Rightarrow> string \<Rightarrow> string \<Rightarrow> run_body \<Rightarrow> deploys \<times> response" where
  "create_run api e s i authorization body =
     (case get_project (dn_db e 0) s i of
        Inl err \<Rightarrow> (s, store_status err)
      | Inr p \<Rightarrow>
          (case run_trigger api (dn_db e 1) s p authorization of
             Inl r \<Rightarrow> (s, r)
           | Inr base \<Rightarrow>
               let trigger = chosen_trigger base body;
                   branch = (if rb_branch body = [] then pj_default_branch p else rb_branch body);
                   reason = (if trigger = ''manual'' then []
                             else duplicate_trigger (\<lambda>n. dn_db e (n + 2)) (dn_now e) s (pj_id p) (rb_commit body))
               in if reason \<noteq> [] then (s, Skipped reason)
                  else (case start_run_db (later_db 4 e) s p trigger branch [] (rb_apps body) of
                          (s1, Inl NoMatchingApps) \<Rightarrow> (s1, Resp 400 ''bad_request'')
                        | (s1, Inl err) \<Rightarrow> (s1, Resp 500 ''run_failed'')
                        | (s1, Inr run) \<Rightarrow> (s1, Started run))))"

definition simple_command :: "string \<Rightarrow> string \<Rightarrow> string \<Rightarrow> deploy_command" where
  "simple_command run op inp =
     \<lparr>dc_run_id = run, dc_op = op, dc_clone_url = [], dc_clone_token = [], dc_dest_path = [], dc_branch = [],
      dc_install_script = [], dc_root_directory = [], dc_env = Map.empty, dc_port = 0, dc_process_manager = [],
      dc_apps = [], dc_stdin = inp, dc_rollback_sha = [], dc_health = None, dc_timeout_seconds = 0,
      dc_run_as_user = [], dc_project_name = [], dc_on_wave_failure = [], dc_flow = []\<rparr>"

definition send_simple :: "denv \<Rightarrow> deploys \<Rightarrow> string \<Rightarrow> deploy_command \<Rightarrow> deploys \<times> response" where
  "send_simple e s server cmd =
     (case dn_send e server cmd of
        Some err \<Rightarrow> (s, Resp 503 ''agent_offline'')
      | None \<Rightarrow> (s\<lparr>ds_sent := ds_sent s @ [(server, cmd)]\<rparr>, Resp 204 []))"

definition stdin_handler :: "denv \<Rightarrow> deploys \<Rightarrow> string \<Rightarrow> string option \<Rightarrow> deploys \<times> response" where
  "stdin_handler e s run_id body =
     (case get_run (dn_db e 0) s run_id of
        Inl err \<Rightarrow> (s, store_status err)
      | Inr run \<Rightarrow> (case body of
                      None \<Rightarrow> (s, Resp 400 ''bad_request'')
                    | Some d \<Rightarrow> send_simple e s (dr_server_id run) (simple_command (dr_id run) ''stdin'' d)))"

definition cancel_handler :: "denv \<Rightarrow> deploys \<Rightarrow> string \<Rightarrow> deploys \<times> response" where
  "cancel_handler e s run_id =
     (case get_run (dn_db e 0) s run_id of
        Inl err \<Rightarrow> (s, store_status err)
      | Inr run \<Rightarrow>
          if dr_status run \<noteq> ''pending'' \<and> dr_status run \<noteq> ''running'' then (s, Resp 409 ''not_running'')
          else send_simple e s (dr_server_id run) (simple_command (dr_id run) ''cancel'' []))"

section \<open>Webhooks\<close>

record hook_payload =
  hp_ref :: string
  hp_sha :: string
  hp_action :: string
  hp_repo :: string
  hp_tag :: string
  hp_kind :: string

text \<open>The reference a delivery asks to deploy, None where the project does not want it or it is no event
  of interest.\<close>

definition push_ref :: "project \<Rightarrow> string \<Rightarrow> string option" where
  "push_ref p ref =
     (let branch = branch_from_ref ref; tag = tag_from_ref ref
      in if branch \<noteq> [] then (if \<not> wants_redeploy p ''branch'' \<or> branch \<noteq> pj_default_branch p then None else Some branch)
         else if tag \<noteq> [] then (if \<not> wants_redeploy p ''tag'' then None else Some tag)
         else None)"

definition github_ref :: "project \<Rightarrow> string \<Rightarrow> hook_payload \<Rightarrow> string option" where
  "github_ref p event pl =
     (if event = ''release'' \<and> (hp_action pl = ''published'' \<or> hp_action pl = ''released'')
      then (if \<not> wants_redeploy p ''release'' \<or> hp_tag pl = [] then None else Some (hp_tag pl))
      else if event = ''push'' \<or> event = [] then push_ref p (hp_ref pl)
      else None)"

definition gitlab_ref :: "project \<Rightarrow> string \<Rightarrow> hook_payload \<Rightarrow> string option" where
  "gitlab_ref p event pl =
     (let kind = (if hp_kind pl = [] then to_lower event else hp_kind pl)
      in if kind = ''release'' \<or> str_contains (to_lower event) ''release''
         then (let ref = (if hp_tag pl = [] then tag_from_ref (hp_ref pl) else hp_tag pl)
               in if \<not> wants_redeploy p ''release'' \<or> ref = [] then None else Some ref)
         else push_ref p (hp_ref pl))"

text \<open>Both webhook handlers: statements 0 and 1 find the project, 2 on are \<open>triggerFromWebhook\<close>'s.\<close>

definition webhook_handler ::
  "string \<Rightarrow> (string \<Rightarrow> bool) \<Rightarrow> (project \<Rightarrow> hook_payload \<Rightarrow> string option) \<Rightarrow> string \<Rightarrow> denv \<Rightarrow> deploys \<Rightarrow>
   hook_payload option \<Rightarrow> string \<Rightarrow> deploys \<times> response" where
  "webhook_handler provider valid ref_of bad e s payload delivery =
     (case payload of
        None \<Rightarrow> (s, Resp 400 ''bad_json'')
      | Some pl \<Rightarrow>
          (case get_by_repo (dn_db e 0) (dn_db e 1) s provider (hp_repo pl) of
             Inl NotFound \<Rightarrow> (s, Resp 204 [])
           | Inl DbError \<Rightarrow> (s, Resp 500 ''lookup_failed'')
           | Inr (p, secret) \<Rightarrow>
               if \<not> valid secret then (s, Resp 401 bad)
               else (case ref_of p pl of
                       None \<Rightarrow> (s, Resp 204 [])
                     | Some ref \<Rightarrow> trigger_from_webhook (later_db 2 e) s p ref delivery (hp_sha pl))))"

definition github_webhook ::
  "(string \<Rightarrow> string \<Rightarrow> string) \<Rightarrow> denv \<Rightarrow> deploys \<Rightarrow> string \<Rightarrow> string \<Rightarrow> string \<Rightarrow> string \<Rightarrow> hook_payload option \<Rightarrow>
   deploys \<times> response" where
  "github_webhook hmac_hex e s raw event signature delivery payload =
     webhook_handler ''github'' (\<lambda>secret. valid_github_signature hmac_hex secret signature raw)
       (\<lambda>p. github_ref p event) ''bad_signature'' e s payload delivery"

definition gitlab_webhook ::
  "denv \<Rightarrow> deploys \<Rightarrow> string \<Rightarrow> string \<Rightarrow> string \<Rightarrow> hook_payload option \<Rightarrow> deploys \<times> response" where
  "gitlab_webhook e s event token delivery payload =
     webhook_handler ''gitlab'' (\<lambda>secret. valid_gitlab_token secret token)
       (\<lambda>p. gitlab_ref p event) ''bad_token'' e s payload delivery"

end
