(* ===== verification/DeployHistory.thy ===== *)
theory DeployHistory
  imports DeployApi
begin

text \<open>
  What every history of requests, finished runs, sweeps and agent reports keeps of the deploys tables:
  which operation may add a run and with which trigger, that a rollback never causes another one, when
  exactly a rollback is started, and how many runs webhook deliveries can have in flight.
\<close>

section \<open>What each operation adds\<close>

definition triggers :: "deploys \<Rightarrow> (string \<times> string) list" where
  "triggers s = map (\<lambda>r. (dr_id r, dr_trigger r)) (ds_runs s)"

definition adds :: "string \<Rightarrow> deploys \<Rightarrow> deploys \<Rightarrow> bool" where
  "adds trigger s t \<longleftrightarrow> triggers t = triggers s \<or> (\<exists>i. triggers t = triggers s @ [(i, trigger)])"

lemma adds_refl [simp]: "adds trigger s s"
  by (simp add: adds_def)

lemma runs_kept: "ds_runs t = ds_runs s \<Longrightarrow> adds trigger s t"
  by (simp add: adds_def triggers_def)

lemma map_run_triggers [simp]:
  "(\<And>r. dr_id (f r) = dr_id r \<and> dr_trigger (f r) = dr_trigger r) \<Longrightarrow> triggers (map_run s i f) = triggers s"
  by (simp add: triggers_def map_run_def)

lemma mark_row_keeps [simp]:
  "dr_id (mark_row now st c err r) = dr_id r" "dr_trigger (mark_row now st c err r) = dr_trigger r"
  "dr_project_id (mark_row now st c err r) = dr_project_id r" "dr_branch (mark_row now st c err r) = dr_branch r"
  "dr_commit_sha (mark_row now st c err r) = dr_commit_sha r" "dr_status (mark_row now st c err r) = st"
  "dr_created_at (mark_row now st c err r) = dr_created_at r"
  by (simp_all add: mark_row_def)

lemma mark_run_triggers [simp]: "triggers (mark_run ok now s i st c err) = triggers s"
  by (simp add: mark_run_def)

lemma set_project_runs [simp]: "ds_runs (set_project s i f) = ds_runs s"
  by (simp add: set_project_def)

lemma status_runs [simp]:
  "ds_runs (post_status e s p run st d) = ds_runs s" "ds_projects (post_status e s p run st d) = ds_projects s"
  "ds_runs (report_status_start e s p run) = ds_runs s" "ds_projects (report_status_start e s p run) = ds_projects s"
  "ds_runs (report_status_finish e s p run st ph) = ds_runs s"
  "ds_projects (report_status_finish e s p run st ph) = ds_projects s"
  by (auto simp: post_status_def report_status_start_def report_status_finish_def split: sum.splits prod.splits)

lemma health_state_runs [simp]: "ds_runs (record_health_state ok s run st) = ds_runs s"
  by (simp add: record_health_state_def set_health_state_def)

lemma find_new_run:
  "i \<notin> set (map dr_id rs) \<Longrightarrow> List.find (\<lambda>r. dr_id r = i) (rs @ [new_run i now pj sv tr br sha]) = Some (new_run i now pj sv tr br sha)"
  by (induction rs) (auto simp: new_run_def)

lemma insert_run_cases:
  assumes "insert_run db now i s project server trigger branch sha = (t, r)"
  shows "t = s \<and> r = Inl DbError \<or>
    i \<notin> set (map dr_id (ds_runs s)) \<and> db 0 \<and>
    t = s\<lparr>ds_runs := ds_runs s @ [new_run i now project server trigger branch sha]\<rparr> \<and>
    r = (if db 1 then Inr (new_run i now project server trigger branch sha) else Inl DbError)"
  using assms find_new_run[of i "ds_runs s"]
  by (auto simp: insert_run_def get_run_def Let_def split: if_splits)

lemma start_run_adds: "adds trigger s (fst (start_run_db e s p trigger branch pin only))"
proof -
  obtain t r where i: "insert_run (dn_db e) (dn_now e) (dn_run_id e) s (pj_id p) (pj_server_id p) trigger branch pin = (t, r)"
    by fastforce
  have "adds trigger s t"
    using insert_run_cases[OF i] by (auto simp: adds_def triggers_def new_run_def)
  moreover have "triggers (fst (start_run_db e s p trigger branch pin only)) = triggers t"
    using i by (auto simp: start_run_db_def Let_def triggers_def[of t] split: sum.splits option.splits)
      (simp_all add: triggers_def)
  ultimately show ?thesis by (simp add: adds_def)
qed

lemma adds_same: "ds_runs u = ds_runs s \<Longrightarrow> adds trigger u t \<Longrightarrow> adds trigger s t"
  by (simp add: adds_def triggers_def)

lemma finished_cases:
  "ds_runs (deploy_run_finished e s i st ph) = ds_runs s \<or>
   (\<exists>run p (good :: deploy_run) u. get_run (dn_db e 0) s i = Inr run \<and> st \<noteq> ''succeeded'' \<and> dr_trigger run \<noteq> ''rollback'' \<and>
      ds_runs u = ds_runs s \<and>
      deploy_run_finished e s i st ph =
        fst (start_run_db (later_db 4 e) u p ''rollback'' (dr_branch good) (dr_commit_sha good) []))"
proof (cases "get_run (dn_db e 0) s i")
  case run: (Inr run)
  define s1 where "s1 = record_health_state (dn_db e 1) s run st"
  show ?thesis
  proof (cases "get_project (dn_db e 2) s1 (dr_project_id run)")
    case p: (Inr p)
    define u where "u = report_status_finish e s1 p run st ph"
    have u: "ds_runs u = ds_runs s" by (simp add: u_def s1_def)
    show ?thesis
    proof (cases "st = ''succeeded'' \<or> dr_trigger run = ''rollback'' \<or> \<not> pj_auto_rollback p")
      case no: False
      show ?thesis
      proof (cases "last_succeeded_run (dn_db e 3) u (pj_id p)")
        case (Inl err)
        then show ?thesis using run p no u by (simp add: deploy_run_finished_def Let_def s1_def u_def)
      next
        case good: (Inr good)
        show ?thesis
        proof (cases "dr_commit_sha good = [] \<or> dr_commit_sha good = dr_commit_sha run")
          case True
          then show ?thesis using run p no good u by (simp add: deploy_run_finished_def Let_def s1_def u_def)
        next
          case False
          then have "deploy_run_finished e s i st ph =
              fst (start_run_db (later_db 4 e) u p ''rollback'' (dr_branch good) (dr_commit_sha good) [])"
            using run p no good by (simp add: deploy_run_finished_def Let_def s1_def u_def)
          then show ?thesis using run no u by blast
        qed
      qed
    qed (use run p u in \<open>simp add: deploy_run_finished_def Let_def s1_def u_def\<close>)
  qed (use run in \<open>simp add: deploy_run_finished_def Let_def s1_def\<close>)
qed (simp add: deploy_run_finished_def)

lemma finished_adds: "adds ''rollback'' s (deploy_run_finished e s i st ph)"
  using finished_cases[of e s i st ph]
proof (elim disjE exE conjE)
  fix run p u and good :: deploy_run
  assume u: "ds_runs u = ds_runs s"
    "deploy_run_finished e s i st ph = fst (start_run_db (later_db 4 e) u p ''rollback'' (dr_branch good) (dr_commit_sha good) [])"
  show ?thesis unfolding u(2) by (rule adds_same[OF u(1) start_run_adds])
qed (rule runs_kept)

lemma finished_of_rollback:
  assumes "get_run True s i = Inr run" "dr_trigger run = ''rollback''"
  shows "ds_runs (deploy_run_finished e s i st ph) = ds_runs s"
proof -
  have "get_run ok s i = Inr r \<Longrightarrow> r = run" for ok r
    using assms(1) by (cases ok) (simp_all add: get_run_def)
  then show ?thesis using finished_cases[of e s i st ph] assms(2) by blast
qed

lemma claim_runs [simp]: "ds_runs (fst (claim_webhook_delivery ok s p d)) = ds_runs s"
  by (simp add: claim_webhook_delivery_def)

lemma webhook_claim_runs [simp]: "ds_runs (fst (webhook_claim e s p delivery)) = ds_runs s"
  using claim_runs[of "dn_db e 0" s "pj_id p" delivery]
  by (auto simp: webhook_claim_def simp del: claim_runs split: prod.splits sum.splits)

lemma webhook_start_fst: "fst (webhook_start e s p branch) = fst (start_run_db (later_db 3 e) s p ''webhook'' branch [] [])"
  by (simp add: webhook_start_def split: prod.split sum.split)

lemma webhook_adds: "adds ''webhook'' s (fst (trigger_from_webhook e s p branch delivery sha))"
proof -
  obtain s1 go where c: "webhook_claim e s p delivery = (s1, go)" by fastforce
  have r: "ds_runs s1 = ds_runs s" using webhook_claim_runs[of e s p delivery] c by simp
  then have "triggers s1 = triggers s" by (simp add: triggers_def)
  then have "adds ''webhook'' s (fst (start_run_db (later_db 3 e) s1 p ''webhook'' branch [] []))"
    using start_run_adds[of "''webhook''" s1 "later_db 3 e" p branch "[]" "[]"] by (simp add: adds_def)
  then show ?thesis using runs_kept[OF r] by (simp add: trigger_from_webhook_def c webhook_start_fst)
qed

lemma update_project_runs [simp]: "ds_runs (fst (update_project db now s i inp)) = ds_runs s"
  by (auto simp: update_project_def Let_def split: sum.splits)

lemma insert_project_runs [simp]: "ds_runs (fst (insert_project db now hash new s inp actor)) = ds_runs s"
  by (auto simp: insert_project_def Let_def split: prod.splits)

lemma project_runs_dest:
  "update_project db now s i inp = (t, r) \<Longrightarrow> ds_runs t = ds_runs s"
  "insert_project db now hash new s cinp actor = (t, r) \<Longrightarrow> ds_runs t = ds_runs s"
  using update_project_runs[of db now s i inp] insert_project_runs[of db now hash new s cinp actor] by simp_all

lemma create_project_runs: "ds_runs (fst (create_project api e nonces s inp)) = ds_runs s"
  by (auto simp: create_project_def Let_def dest!: project_runs_dest split: sum.split prod.split bool.split)

lemma provision_runs [simp]: "ds_runs (provision_remote api e s p keep) = ds_runs s"
  by (simp add: provision_remote_def)

lemma respond_run_fst [simp]: "fst (respond_run r) = fst r"
  by (simp add: respond_run_def split: prod.split sum.split)

lemma create_adds: "adds ''manual'' s (fst (create_handler api e nonces s body))"
proof (cases body)
  case (Some inp)
  obtain s1 r where c: "create_project api e nonces s inp = (s1, r)" by fastforce
  then have "ds_runs s1 = ds_runs s" using create_project_runs[of api e nonces s inp] by simp
  moreover from this have "adds ''manual'' s (fst (start_run_db e' (provision_remote api e s1 p keep) p ''manual'' b [] []))"
    for e' p keep b by (intro adds_same[OF _ start_run_adds]) simp
  ultimately show ?thesis
    using Some c by (cases r) (auto simp: create_handler_def runs_kept)
qed (simp add: create_handler_def)

lemma start_after_same: "ds_runs u = ds_runs s \<Longrightarrow> adds tr s (fst (start_run_db e u p tr b c only))"
  by (intro adds_same[OF _ start_run_adds])

lemma patch_adds: "adds ''manual'' s (fst (patch_handler e nonces s i body))"
  by (auto simp: patch_handler_def start_after_same runs_kept dest!: project_runs_dest
        split: option.split sum.split prod.split)

lemma create_run_started:
  assumes "get_project (dn_db e 0) s i = Inr p" "run_trigger api (dn_db e 1) s p auth = Inr base"
  shows "adds (chosen_trigger base body) s (fst (create_run api e s i auth body))"
proof -
  define branch where "branch = (if rb_branch body = [] then pj_default_branch p else rb_branch body)"
  define tr where "tr = chosen_trigger base body"
  define reason where "reason = (if tr = ''manual'' then []
    else duplicate_trigger (\<lambda>n. dn_db e (n + 2)) (dn_now e) s (pj_id p) (rb_commit body))"
  obtain s1 r where st: "start_run_db (later_db 4 e) s p tr branch [] (rb_apps body) = (s1, r)" by fastforce
  have a: "adds tr s s1" using start_run_adds[of tr s "later_db 4 e" p branch "[]" "rb_apps body"] st by simp
  have eq: "create_run api e s i auth body =
      (if reason \<noteq> [] then (s, Skipped reason)
       else case r of Inl err \<Rightarrow> (case err of NoMatchingApps \<Rightarrow> (s1, Resp 400 ''bad_request'') | _ \<Rightarrow> (s1, Resp 500 ''run_failed''))
            | Inr run \<Rightarrow> (s1, Started run))"
    unfolding create_run_def assms sum.case Let_def branch_def[symmetric] tr_def[symmetric] reason_def[symmetric] st prod.case
    by (auto split: sum.split run_error.split)
  show ?thesis
    unfolding eq tr_def[symmetric] using a by (auto split: sum.split run_error.split)
qed

lemma create_run_adds: "\<exists>trigger. trigger \<noteq> ''rollback'' \<and> adds trigger s (fst (create_run api e s i auth body))"
proof (cases "\<exists>p base. get_project (dn_db e 0) s i = Inr p \<and> run_trigger api (dn_db e 1) s p auth = Inr base")
  case True
  then obtain p base where p: "get_project (dn_db e 0) s i = Inr p" "run_trigger api (dn_db e 1) s p auth = Inr base"
    by blast
  have "base \<noteq> ''rollback''" using p(2) by (auto simp: run_trigger_def split: if_splits sum.splits)
  then have "chosen_trigger base body \<noteq> ''rollback''" by (simp add: chosen_trigger_def)
  then show ?thesis using create_run_started[OF p] by blast
next
  case False
  then have "fst (create_run api e s i auth body) = s"
    by (auto simp: create_run_def split: sum.split)
  then show ?thesis by (intro exI[of _ "''api''"]) simp
qed

lemma hook_adds: "adds ''webhook'' s (fst (webhook_handler provider valid ref_of bad e s payload delivery))"
  using webhook_adds
  by (auto simp: webhook_handler_def split: option.split sum.split store_error.split)

lemma send_simple_runs [simp]: "ds_runs (fst (send_simple e s server cmd)) = ds_runs s"
  by (simp add: send_simple_def split: option.split)

lemma simple_runs:
  "ds_runs (fst (stdin_handler e s i d)) = ds_runs s" "ds_runs (fst (cancel_handler e s i)) = ds_runs s"
  by (auto simp: stdin_handler_def cancel_handler_def split: sum.split option.split)

lemma import_runs: "ds_runs (fst (import_process api e nonces s server body)) = ds_runs s"
proof (cases body)
  case (Some inp)
  show ?thesis
    unfolding import_process_def Some option.case Let_def
    by (auto dest!: project_runs_dest split: sum.split prod.split)
qed (simp add: import_process_def)

section \<open>Values for the examples\<close>

definition sample_run :: "string \<Rightarrow> string \<Rightarrow> string \<Rightarrow> int \<Rightarrow> deploy_run" where
  "sample_run i st sha created =
     \<lparr>dr_id = i, dr_project_id = ''p1'', dr_server_id = ''s1'', dr_trigger = ''manual'', dr_status = st,
      dr_branch = ''main'', dr_commit_sha = sha, dr_exit_code = None, dr_error = [], dr_started_at = None,
      dr_finished_at = None, dr_created_at = created\<rparr>"

definition sample_deploys :: "spec_app list \<Rightarrow> deploy_run list \<Rightarrow> deploys" where
  "sample_deploys apps rs =
     \<lparr>ds_projects = [\<lparr>pr_project = sample_project apps, pr_webhook_secret = ''hook'', pr_token_hash = ''h''\<rparr>],
      ds_runs = rs, ds_deliveries = [(''p1'', ''d1'')], ds_paths = None, ds_sent = [], ds_posts = [],
      ds_repo_writes = []\<rparr>"

definition sample_denv :: "string \<Rightarrow> denv" where
  "sample_denv i =
     \<lparr>dn_box = None, dn_now = 100, dn_run_id = i, dn_db = (\<lambda>n. True), dn_send = (\<lambda>server cmd. None),
      dn_token = (\<lambda>u provider. Inr []), dn_app_configured = False, dn_app_token = (\<lambda>repo. AppNotInstalled),
      dn_public = ''https://cc.example''\<rparr>"

section \<open>Histories\<close>

text \<open>\<open>OAgent\<close> is what the stream service writes for a run: its status, its error, its exit code, and its
  commit when none is recorded.\<close>

datatype deploy_op =
    OCreate api denv "nat \<Rightarrow> nat \<Rightarrow> (string, string) res" "create_input option"
  | OPatch denv "nat \<Rightarrow> nat \<Rightarrow> (string, string) res" string "update_input option"
  | ORemove denv string
  | OImport api denv "nat \<Rightarrow> nat \<Rightarrow> (string, string) res" string "import_input option"
  | OCreateRun api denv string string run_body
  | OGithub "string \<Rightarrow> string \<Rightarrow> string" denv string string string string "hook_payload option"
  | OGitlab denv string string string "hook_payload option"
  | OStdin denv string "string option"
  | OCancel denv string
  | OAgent string string string string "int option"
  | OFinished denv string string string
  | OSweep bool int "nat \<Rightarrow> denv"

definition agent_write :: "deploys \<Rightarrow> string \<Rightarrow> string \<Rightarrow> string \<Rightarrow> string \<Rightarrow> int option \<Rightarrow> deploys" where
  "agent_write s i st commit err code =
     map_run s i (\<lambda>r. r\<lparr>dr_status := st, dr_error := err, dr_exit_code := code,
       dr_commit_sha := (if dr_commit_sha r = [] then commit else dr_commit_sha r)\<rparr>)"

fun deploy_step :: "deploys \<Rightarrow> deploy_op \<Rightarrow> deploys" where
  "deploy_step s (OCreate api e nonces body) = fst (create_handler api e nonces s body)"
| "deploy_step s (OPatch e nonces i body) = fst (patch_handler e nonces s i body)"
| "deploy_step s (ORemove e i) = fst (remove_handler e s i)"
| "deploy_step s (OImport api e nonces server body) = fst (import_process api e nonces s server body)"
| "deploy_step s (OCreateRun api e i auth body) = fst (create_run api e s i auth body)"
| "deploy_step s (OGithub hmac e raw event sig delivery pl) = fst (github_webhook hmac e s raw event sig delivery pl)"
| "deploy_step s (OGitlab e event tok delivery pl) = fst (gitlab_webhook e s event tok delivery pl)"
| "deploy_step s (OStdin e i d) = fst (stdin_handler e s i d)"
| "deploy_step s (OCancel e i) = fst (cancel_handler e s i)"
| "deploy_step s (OAgent i st commit err code) = agent_write s i st commit err code"
| "deploy_step s (OFinished e i st ph) = deploy_run_finished e s i st ph"
| "deploy_step s (OSweep ok now es) = sweep_stuck_runs ok now es s"

definition rollback_count :: "deploys \<Rightarrow> nat" where
  "rollback_count s = length (filter (\<lambda>x. snd x = ''rollback'') (triggers s))"

text \<open>The runs an operation reports as finished, and how many of them are no rollbacks.\<close>

fun reported :: "deploys \<Rightarrow> deploy_op \<Rightarrow> string list" where
  "reported s (OFinished e i st ph) = [i]"
| "reported s (OSweep ok now es) =
     (case stuck_runs ok now s sweep_grace of Inl err \<Rightarrow> [] | Inr rs \<Rightarrow> map dr_id rs)"
| "reported s _ = []"

definition forward_run :: "deploys \<Rightarrow> string \<Rightarrow> bool" where
  "forward_run s i \<longleftrightarrow> list_ex (\<lambda>x. fst x = i \<and> snd x \<noteq> ''rollback'') (triggers s)"

definition forward_reports :: "deploys \<Rightarrow> deploy_op \<Rightarrow> nat" where
  "forward_reports s x = length (filter (forward_run s) (reported s x))"

lemma count_of_triggers: "triggers t = triggers s \<Longrightarrow> rollback_count t = rollback_count s \<and> forward_run t = forward_run s"
  by (auto simp: rollback_count_def forward_run_def)

lemma count_adds: "adds trigger s t \<Longrightarrow> trigger \<noteq> ''rollback'' \<Longrightarrow> rollback_count t = rollback_count s"
  by (auto simp: adds_def rollback_count_def)

lemma forward_adds: "adds ''rollback'' s t \<Longrightarrow> forward_run t = forward_run s"
  by (auto simp: adds_def forward_run_def fun_eq_iff)

lemma count_finished:
  "rollback_count (deploy_run_finished e s i st ph) \<le> rollback_count s + (if forward_run s i then 1 else 0)"
  using finished_cases[of e s i st ph]
proof (elim disjE exE conjE)
  assume "ds_runs (deploy_run_finished e s i st ph) = ds_runs s"
  then show ?thesis by (simp add: rollback_count_def triggers_def)
next
  fix run :: deploy_run
  assume "get_run (dn_db e 0) s i = Inr run" "dr_trigger run \<noteq> ''rollback''"
  then have "forward_run s i"
    by (auto simp: get_run_def forward_run_def triggers_def list_ex_iff find_Some_iff split: if_splits option.splits)
  moreover have "rollback_count (deploy_run_finished e s i st ph) \<le> rollback_count s + 1"
    using finished_adds[of s e i st ph] by (auto simp: adds_def rollback_count_def)
  ultimately show ?thesis by simp
qed

lemma count_sweep:
  "rollback_count (sweep_from es k rs s) \<le> rollback_count s + length (filter (forward_run s) (map dr_id rs))"
proof (induction rs arbitrary: k s)
  case (Cons r rs)
  define u where "u = mark_run True (dn_now (es k)) s (dr_id r) ''failed'' 1 budget_message"
  define t where "t = (if dn_db (es k) 0 then deploy_run_finished (later_db 1 (es k)) u (dr_id r) ''failed'' [] else s)"
  have u: "rollback_count u = rollback_count s" "forward_run u = forward_run s"
    using count_of_triggers[of u s] by (simp_all add: u_def)
  have "rollback_count t \<le> rollback_count s + (if forward_run s (dr_id r) then 1 else 0)"
    using count_finished[of "later_db 1 (es k)" u "dr_id r" "''failed''" "[]"] u by (auto simp: t_def split: if_splits)
  moreover have "forward_run t = forward_run s"
    using forward_adds[OF finished_adds, of "later_db 1 (es k)" u "dr_id r" "''failed''" "[]"] u by (simp add: t_def)
  moreover have "sweep_from es k (r # rs) s = sweep_from es (Suc k) rs t" by (simp add: t_def u_def Let_def)
  ultimately show ?case using Cons.IH[of "Suc k" t] by (auto split: if_splits)
qed simp

lemma rollback_count_runs: "rollback_count s = length (filter (\<lambda>r. dr_trigger r = ''rollback'') (ds_runs s))"
  by (simp add: rollback_count_def triggers_def filter_map comp_def)

lemma filter_filter_le: "length (filter P (filter Q xs)) \<le> length (filter P xs)"
  by (induction xs) auto

lemma removed_count: "rollback_count (fst (remove_handler e s i)) \<le> rollback_count s"
proof -
  have "fst (remove_handler e s i) = fst (delete_project (dn_db e 0) s i)"
    by (simp add: remove_handler_def split: prod.split sum.split store_error.split)
  then show ?thesis
    using filter_filter_le[of "\<lambda>r. dr_trigger r = ''rollback''" "\<lambda>r. dr_project_id r \<noteq> i" "ds_runs s"]
    by (simp add: rollback_count_runs delete_project_def del: filter_filter)
qed

lemma rollback_step: "rollback_count (deploy_step s x) \<le> rollback_count s + forward_reports s x"
proof (cases x)
  case (OCreateRun api e i auth body)
  obtain tr where tr: "adds tr s (fst (create_run api e s i auth body))" "tr \<noteq> ''rollback''"
    using create_run_adds by blast
  show ?thesis using count_adds[OF tr] OCreateRun by simp
next
  case (OSweep ok now es)
  then show ?thesis
    using count_sweep[of es 0 _ s] by (auto simp: sweep_stuck_runs_def forward_reports_def split: sum.split)
next
  case (OFinished e i st ph)
  then show ?thesis using count_finished[of e s i st ph] by (auto simp: forward_reports_def split: if_splits)
next
  case (OAgent i st commit err code)
  then have "triggers (deploy_step s x) = triggers s" by (simp add: agent_write_def)
  then show ?thesis using count_of_triggers[of "deploy_step s x" s] by simp
next
  case (ORemove e i)
  then show ?thesis using removed_count[of e s i] by simp
qed (use count_adds[OF create_adds] count_adds[OF patch_adds] count_adds[OF hook_adds]
       import_runs simple_runs
     in \<open>simp_all add: github_webhook_def gitlab_webhook_def rollback_count_def triggers_def\<close>)

interpretation rollbacks: metered deploy_step rollback_count forward_reports
  by unfold_locales (rule rollback_step)

text \<open>C14. Rollbacks do not cascade: whatever requests, deliveries, edits, agent reports, finished runs and
  sweeps arrive, and however the database and the agents fail, the rollback runs started are at most as
  many as the reports that a run which is no rollback finished. No caller can start a run marked
  rollback, and a failed rollback starts nothing.\<close>

theorem rollback_no_loop:
  "rollback_count (run_all deploy_step xs s) \<le> rollback_count s + run_cost deploy_step forward_reports xs s"
  by (rule rollbacks.run_bound)

section \<open>A run that starts\<close>

definition db_works :: "denv \<Rightarrow> bool" where
  "db_works e \<longleftrightarrow> (\<forall>n. dn_db e n)"

lemma later_db_simps [simp]:
  "db_works e \<Longrightarrow> db_works (later_db k e)" "dn_run_id (later_db k e) = dn_run_id e" "dn_now (later_db k e) = dn_now e"
  "dn_box (later_db k e) = dn_box e" "dn_send (later_db k e) = dn_send e" "db_works e \<Longrightarrow> dn_db e n"
  by (simp_all add: db_works_def later_db_def)

definition run_ids :: "deploys \<Rightarrow> string set" where
  "run_ids s = dr_id ` set (ds_runs s)"

definition started_row :: "denv \<Rightarrow> project \<Rightarrow> string \<Rightarrow> string \<Rightarrow> string \<Rightarrow> deploy_run \<Rightarrow> bool" where
  "started_row e p trigger branch pin r \<longleftrightarrow>
     dr_id r = dn_run_id e \<and> dr_project_id r = pj_id p \<and> dr_server_id r = pj_server_id p \<and> dr_trigger r = trigger \<and>
     dr_branch r = branch \<and> dr_commit_sha r = pin \<and> dr_created_at r = dn_now e \<and>
     dr_status r \<in> {''pending'', ''running'', ''agent_offline''}"

lemma mark_fresh:
  "i \<notin> dr_id ` set rs \<Longrightarrow> map (\<lambda>r. if dr_id r = i then f r else r) rs = rs"
  by (induction rs) auto

lemma insert_run_ok:
  assumes "db_works e" "dn_run_id e \<notin> run_ids s"
  shows "insert_run (dn_db e) (dn_now e) (dn_run_id e) s pj sv tr br sha =
    (s\<lparr>ds_runs := ds_runs s @ [new_run (dn_run_id e) (dn_now e) pj sv tr br sha]\<rparr>,
     Inr (new_run (dn_run_id e) (dn_now e) pj sv tr br sha))"
  using assms find_new_run[of "dn_run_id e" "ds_runs s"]
  by (simp add: insert_run_def get_run_def run_ids_def Let_def)

lemma start_run_row:
  assumes "db_works e" "dn_run_id e \<notin> run_ids s"
  shows "\<exists>r. ds_runs (fst (start_run_db e s p trigger branch pin only)) = ds_runs s @ [r] \<and>
    started_row e p trigger branch pin r"
proof -
  define n where "n = new_run (dn_run_id e) (dn_now e) (pj_id p) (pj_server_id p) trigger branch pin"
  have ins: "insert_run (dn_db e) (dn_now e) (dn_run_id e) s (pj_id p) (pj_server_id p) trigger branch pin =
      (s\<lparr>ds_runs := ds_runs s @ [n]\<rparr>, Inr n)"
    unfolding n_def by (rule insert_run_ok[OF assms])
  define s2 where "s2 = report_status_start e (s\<lparr>ds_runs := ds_runs s @ [n]\<rparr>) p n"
  have n: "dr_id n = dn_run_id e" "started_row e p trigger branch pin n"
    by (simp_all add: n_def new_run_def started_row_def)
  have m: "started_row e p trigger branch pin (mark_row now st c err n)" if "st \<in> {''running'', ''agent_offline''}" for now st c err
    using that by (auto simp: n_def new_run_def started_row_def mark_row_def)
  have d: "db_works e" by fact
  have runs: "ds_runs (mark_run (dn_db e 2) now u (dr_id n) st c err) = ds_runs s @ [mark_row now st c err n]"
    if "ds_runs u = ds_runs s @ [n]" for now u st c err
    using that assms mark_fresh[of "dn_run_id e" "ds_runs s"] by (simp add: mark_run_def map_run_def n run_ids_def)
  show ?thesis
  proof (cases "deploy_command_for (dn_box e) p (dr_id n) (clone_token e p) branch pin only")
    case (Inl err)
    then show ?thesis using ins n by (simp add: start_run_db_def Let_def)
  next
    case cmd: (Inr cmd)
    show ?thesis
    proof (cases "dn_send e (pj_server_id p) cmd")
      case None
      then show ?thesis
        using ins cmd runs m by (simp add: start_run_db_def Let_def)
    next
      case (Some err)
      then show ?thesis
        using ins cmd runs m by (simp add: start_run_db_def Let_def)
    qed
  qed
qed

section \<open>When a rollback is started\<close>

text \<open>The run to go back to, as the hook's documentation has it.\<close>

definition rollback_target :: "deploys \<Rightarrow> deploy_run \<Rightarrow> project \<Rightarrow> string \<Rightarrow> deploy_run option" where
  "rollback_target s run p status =
     (if status \<noteq> ''succeeded'' \<and> dr_trigger run \<noteq> ''rollback'' \<and> pj_auto_rollback p
      then (case last_succeeded_run True s (pj_id p) of
              Inl err \<Rightarrow> None
            | Inr good \<Rightarrow> if dr_commit_sha good \<noteq> dr_commit_sha run then Some good else None)
      else None)"

definition newer :: "('a \<Rightarrow> int) \<Rightarrow> 'a option \<Rightarrow> 'a \<Rightarrow> 'a option" where
  "newer f best x = (case best of None \<Rightarrow> Some x | Some b \<Rightarrow> if f b \<le> f x then Some x else Some b)"

lemma newest_by_newer: "newest_by f xs = foldl (newer f) None xs"
  by (simp add: newest_by_def newer_def[abs_def])

lemma foldl_newer_in: "foldl (newer f) best xs = Some x \<Longrightarrow> best = Some x \<or> x \<in> set xs"
proof (induction xs arbitrary: best)
  case (Cons y ys)
  have "newer f best y = Some x \<or> x \<in> set ys" using Cons.IH[of "newer f best y"] Cons.prems by simp
  moreover have "newer f best y = Some x \<Longrightarrow> best = Some x \<or> x = y"
    by (cases best) (simp_all add: newer_def split: if_splits)
  ultimately show ?case by auto
qed simp

lemma newest_by_in: "newest_by f xs = Some x \<Longrightarrow> x \<in> set xs"
  unfolding newest_by_newer by (drule foldl_newer_in) simp

lemma last_succeeded_has_commit: "last_succeeded_run ok s i = Inr r \<Longrightarrow> dr_commit_sha r \<noteq> []"
  by (auto simp: last_succeeded_run_def split: if_splits option.splits dest!: newest_by_in)

lemma last_succeeded_runs: "ds_runs t = ds_runs s \<Longrightarrow> last_succeeded_run ok t i = last_succeeded_run ok s i"
  by (simp add: last_succeeded_run_def)

lemma find_map_same:
  "(\<And>x. P (f x) = P x) \<Longrightarrow> List.find P (map f xs) = map_option f (List.find P xs)"
  by (induction xs) auto

lemma find_project_set:
  "(\<And>p. pj_id (f p) = pj_id p) \<Longrightarrow>
   find_project (set_project s j f) i =
   map_option (\<lambda>r. if pj_id (pr_project r) = j then r\<lparr>pr_project := f (pr_project r)\<rparr> else r) (find_project s i)"
  unfolding find_project_def set_project_def by (simp add: find_map_same)

lemma find_project_id: "find_project s i = Some row \<Longrightarrow> pj_id (pr_project row) = i"
  by (auto simp: find_project_def find_Some_iff)

lemma finished_by_target:
  assumes ok: "db_works e" "dn_run_id e \<notin> run_ids s"
    and run: "get_run True s i = Inr run" and row: "find_project s (dr_project_id run) = Some row"
  shows "case rollback_target s run (pr_project row) st of
      None \<Rightarrow> ds_runs (deploy_run_finished e s i st ph) = ds_runs s
    | Some good \<Rightarrow> \<exists>r. ds_runs (deploy_run_finished e s i st ph) = ds_runs s @ [r] \<and>
        started_row e (pr_project row) ''rollback'' (dr_branch good) (dr_commit_sha good) r"
proof -
  define s1 where "s1 = record_health_state True s run st"
  define p where "p = scan_project ((pr_project row)\<lparr>pj_health_state := health_state_of run st\<rparr>)"
  define u where "u = report_status_finish e s1 p run st ph"
  have d: "dn_db e n" for n using ok by simp
  have p: "get_project True s1 (dr_project_id run) = Inr p"
    using row find_project_id[OF row]
    by (simp add: get_project_def s1_def record_health_state_def set_health_state_def find_project_set p_def)
  have u: "ds_runs u = ds_runs s" by (simp add: u_def s1_def)
  have pid: "pj_id p = pj_id (pr_project row)" "pj_auto_rollback p = pj_auto_rollback (pr_project row)"
    "pj_server_id p = pj_server_id (pr_project row)"
    by (simp_all add: p_def scan_project_def)
  have t: "deploy_run_finished e s i st ph =
     (if st = ''succeeded'' \<or> dr_trigger run = ''rollback'' \<or> \<not> pj_auto_rollback p then u
      else case last_succeeded_run True s (pj_id p) of
             Inl err \<Rightarrow> u
           | Inr good \<Rightarrow> if dr_commit_sha good = [] \<or> dr_commit_sha good = dr_commit_sha run then u
               else fst (start_run_db (later_db 4 e) u p ''rollback'' (dr_branch good) (dr_commit_sha good) []))"
    using run p d by (simp add: deploy_run_finished_def Let_def s1_def[symmetric] u_def[symmetric] last_succeeded_runs[OF u])
  have st_row: "\<exists>r. ds_runs (fst (start_run_db (later_db 4 e) u p ''rollback'' b c [])) = ds_runs s @ [r] \<and>
      started_row e (pr_project row) ''rollback'' b c r" for b c
    using start_run_row[of "later_db 4 e" u p "''rollback''" b c "[]"] ok u
    by (auto simp: run_ids_def started_row_def pid)
  show ?thesis
    using st_row u
    by (auto simp: t rollback_target_def pid dest: last_succeeded_has_commit split: sum.split)
qed

text \<open>C15. A finished run starts a rollback exactly when it failed, was no rollback itself, its project
  asked for rollbacks, and the last successful run with a known commit is on another commit; the new run
  is one, with trigger rollback and that run's branch and commit. Otherwise no run is added.\<close>

theorem rollback_exactly_when:
  assumes "db_works e" "dn_run_id e \<notin> run_ids s" "get_run True s i = Inr run"
    "find_project s (dr_project_id run) = Some row"
  shows "(ds_runs (deploy_run_finished e s i st ph) = ds_runs s \<and> rollback_target s run (pr_project row) st = None) \<or>
    (\<exists>r good. rollback_target s run (pr_project row) st = Some good \<and>
       ds_runs (deploy_run_finished e s i st ph) = ds_runs s @ [r] \<and>
       started_row e (pr_project row) ''rollback'' (dr_branch good) (dr_commit_sha good) r)"
  using finished_by_target[OF assms, of st ph] by (auto split: option.splits)

lemma sample_denv_works [simp]: "db_works (sample_denv i)"
  by (simp add: db_works_def sample_denv_def)

lemma sample_denv_id [simp]: "dn_run_id (sample_denv i) = i"
  by (simp add: sample_denv_def)

lemma sample_run_sha [simp]: "dr_commit_sha (sample_run i st sha c) = sha"
  by (simp add: sample_run_def)

definition failing_pair :: deploys where
  "failing_pair = sample_deploys [] [sample_run ''r0'' ''succeeded'' ''aaa'' 1, sample_run ''r1'' ''failed'' ''bbb'' 2]"

lemma failing_pair_facts:
  "get_run True failing_pair ''r1'' = Inr (sample_run ''r1'' ''failed'' ''bbb'' 2)"
  "find_project failing_pair (dr_project_id (sample_run ''r1'' ''failed'' ''bbb'' 2)) =
     Some \<lparr>pr_project = sample_project [], pr_webhook_secret = ''hook'', pr_token_hash = ''h''\<rparr>"
  "rollback_target failing_pair (sample_run ''r1'' ''failed'' ''bbb'' 2) (sample_project []) ''failed'' =
     Some (sample_run ''r0'' ''succeeded'' ''aaa'' 1)"
  "run_ids failing_pair = {''r0'', ''r1''}"
  by (simp_all add: failing_pair_def sample_deploys_def sample_run_def sample_project_def get_run_def
        find_project_def rollback_target_def last_succeeded_run_def newest_by_def run_ids_def)

theorem rollback_exactly_when_witness:
  "\<exists>r. ds_runs (deploy_run_finished (sample_denv ''r2'') failing_pair ''r1'' ''failed'' ''health'') =
      ds_runs failing_pair @ [r] \<and> dr_trigger r = ''rollback'' \<and> dr_commit_sha r = ''aaa''"
  using rollback_exactly_when[of "sample_denv ''r2''" failing_pair "''r1''", OF _ _ failing_pair_facts(1,2), of "''failed''" "''health''"]
  by (auto simp: failing_pair_facts started_row_def)

lemma start_run_projects [simp]: "ds_projects (fst (start_run_db e s p tr b c only)) = ds_projects s"
proof -
  have "ds_projects t = ds_projects s" if "insert_run db now i s pj sv tr br sha = (t, r)" for db now i pj sv tr br sha t r
    using insert_run_cases[OF that] by auto
  then show ?thesis
    by (auto simp: start_run_db_def mark_run_def map_run_def Let_def split: prod.split sum.split option.split)
qed

lemma finished_projects:
  assumes "db_works e" "get_run True s i = Inr run"
  shows "ds_projects (deploy_run_finished e s i st ph) =
    ds_projects (set_project s (dr_project_id run) (\<lambda>p. p\<lparr>pj_health_state := health_state_of run st\<rparr>))"
  using assms
  by (auto simp: deploy_run_finished_def record_health_state_def set_health_state_def Let_def split: sum.split)

lemma newest_by_snoc_other: "\<not> P r \<Longrightarrow> newest_by f (filter P (rs @ [r])) = newest_by f (filter P rs)"
  by simp

text \<open>Nothing ties a rollback to the report that asked for it: when a failed run is reported twice, by
  an agent that sends its report again or by two sweeps that both find it stuck, two rollbacks are
  started, both for the same commit.\<close>

theorem double_report_rolls_back_twice:
  assumes e1: "db_works e1" "dn_run_id e1 \<notin> run_ids s"
    and e2: "db_works e2" "dn_run_id e2 \<notin> insert (dn_run_id e1) (run_ids s)"
    and run: "get_run True s i = Inr run" and row: "find_project s (dr_project_id run) = Some row"
    and good: "rollback_target s run (pr_project row) ''failed'' = Some good"
  shows "\<exists>r1 r2. ds_runs (deploy_run_finished e2 (deploy_run_finished e1 s i ''failed'' ph1) i ''failed'' ph2) =
      ds_runs s @ [r1, r2] \<and>
    started_row e1 (pr_project row) ''rollback'' (dr_branch good) (dr_commit_sha good) r1 \<and>
    started_row e2 (pr_project row) ''rollback'' (dr_branch good) (dr_commit_sha good) r2"
proof -
  define t where "t = deploy_run_finished e1 s i ''failed'' ph1"
  obtain r1 where r1: "ds_runs t = ds_runs s @ [r1]"
      "started_row e1 (pr_project row) ''rollback'' (dr_branch good) (dr_commit_sha good) r1"
    using finished_by_target[OF e1 run row, of "''failed''" ph1] good by (auto simp: t_def)
  have fresh: "dn_run_id e2 \<notin> run_ids t"
    using e2 r1 by (auto simp: run_ids_def started_row_def)
  have "List.find (\<lambda>r. dr_id r = i) (rs @ [r1]) = Some run" if "List.find (\<lambda>r. dr_id r = i) rs = Some run" for rs
    using that by (induction rs) auto
  then have run2: "get_run True t i = Inr run"
    using run r1(1) by (auto simp: get_run_def split: option.splits)
  define row2 where "row2 = row\<lparr>pr_project := (pr_project row)\<lparr>pj_health_state := health_state_of run ''failed''\<rparr>\<rparr>"
  have row2: "find_project t (dr_project_id run) = Some row2"
  proof -
    have "find_project t (dr_project_id run) = find_project (set_project s (dr_project_id run)
        (\<lambda>p. p\<lparr>pj_health_state := health_state_of run ''failed''\<rparr>)) (dr_project_id run)"
      using finished_projects[OF e1(1) run] by (simp add: find_project_def t_def)
    then show ?thesis using row find_project_id[OF row] by (simp add: find_project_set row2_def)
  qed
  have "dr_status r1 \<noteq> ''succeeded''" using r1(2) by (auto simp: started_row_def)
  then have "rollback_target t run (pr_project row2) ''failed'' = Some good"
    using good r1(1) by (simp add: rollback_target_def last_succeeded_run_def row2_def split: if_splits)
  then obtain r2 where "ds_runs (deploy_run_finished e2 t i ''failed'' ph2) = ds_runs t @ [r2]"
      "started_row e2 (pr_project row2) ''rollback'' (dr_branch good) (dr_commit_sha good) r2"
    using finished_by_target[OF e2(1) fresh run2 row2, of "''failed''" ph2] by auto
  then show ?thesis using r1 by (auto simp: t_def started_row_def row2_def)
qed

theorem double_report_rolls_back_twice_witness:
  "length (ds_runs (deploy_run_finished (sample_denv ''r3'')
     (deploy_run_finished (sample_denv ''r2'') failing_pair ''r1'' ''failed'' ''health'') ''r1'' ''failed'' ''health'')) = 4"
  using double_report_rolls_back_twice[of "sample_denv ''r2''" failing_pair "sample_denv ''r3''" "''r1''",
      OF _ _ _ _ failing_pair_facts(1,2), of "sample_run ''r0'' ''succeeded'' ''aaa'' 1" "''health''" "''health''"]
  by (auto simp: failing_pair_facts) (simp add: failing_pair_def sample_deploys_def)

section \<open>One deploy at a time\<close>

definition flights :: "deploys \<Rightarrow> string \<Rightarrow> nat" where
  "flights s i = length (filter (\<lambda>r. dr_project_id r = i \<and> in_flight r) (ds_runs s))"

lemma start_run_cases:
  assumes "db_works e"
  shows "start_run_db e s p tr b c only = (s, Inl (StoreFailed DbError)) \<or>
    (\<exists>r. ds_runs (fst (start_run_db e s p tr b c only)) = ds_runs s @ [r] \<and> started_row e p tr b c r)"
proof (cases "dn_run_id e \<in> run_ids s")
  case True
  then have "insert_run (dn_db e) (dn_now e) (dn_run_id e) s pj sv tr b c = (s, Inl DbError)" for pj sv
    by (auto simp: insert_run_def run_ids_def)
  then show ?thesis by (simp add: start_run_db_def)
qed (use start_run_row[OF assms] in blast)

lemma flights_none: "\<not> list_ex (\<lambda>r. dr_project_id r = i \<and> in_flight r) (ds_runs s) \<longleftrightarrow> flights s i = 0"
  by (auto simp: flights_def list_ex_iff filter_empty_conv)

lemma duplicate_trigger_none:
  "db_works e \<Longrightarrow> duplicate_trigger (\<lambda>n. dn_db e (n + k)) now s i sha = [] \<Longrightarrow> flights s i = 0"
  by (auto simp: duplicate_trigger_def active_run_def flights_none[symmetric] split: if_splits)

lemma trigger_eq:
  assumes "db_works e"
  shows "trigger_from_webhook e s p branch delivery sha =
    (if delivery \<noteq> [] \<and> (pj_id p, delivery) \<in> set (ds_deliveries s) then (s, Resp 200 [])
     else let s1 = (if delivery = [] then s else s\<lparr>ds_deliveries := ds_deliveries s @ [(pj_id p, delivery)]\<rparr>)
          in if duplicate_trigger (\<lambda>n. dn_db e (n + 1)) (dn_now e) s1 (pj_id p) sha \<noteq> [] then (s1, Resp 200 [])
             else (case start_run_db (later_db 3 e) s1 p ''webhook'' branch [] [] of
                     (s2, Inl err) \<Rightarrow> (s2, Resp 500 ''run_failed'') | (s2, Inr run) \<Rightarrow> (s2, Resp 202 [])))"
  using assms
  by (simp add: trigger_from_webhook_def webhook_claim_def webhook_check_def webhook_start_def claim_webhook_delivery_def Let_def)

lemma trigger_flights:
  assumes "db_works e"
  shows "flights (fst (trigger_from_webhook e s p branch delivery sha)) i \<le> max 1 (flights s i)"
proof -
  define s1 where "s1 = (if delivery = [] then s else s\<lparr>ds_deliveries := ds_deliveries s @ [(pj_id p, delivery)]\<rparr>)"
  have r: "flights s1 j = flights s j" for j by (simp add: s1_def flights_def)
  show ?thesis
  proof (cases "(delivery \<noteq> [] \<and> (pj_id p, delivery) \<in> set (ds_deliveries s)) \<or>
      duplicate_trigger (\<lambda>n. dn_db e (n + 1)) (dn_now e) s1 (pj_id p) sha \<noteq> []")
    case True
    then have "fst (trigger_from_webhook e s p branch delivery sha) \<in> {s, s1}"
      unfolding trigger_eq[OF assms] s1_def[symmetric] Let_def by auto
    then show ?thesis using r by auto
  next
    case False
    then have z: "flights s1 (pj_id p) = 0" using duplicate_trigger_none[OF assms, of 1 "dn_now e" s1 "pj_id p" sha] by blast
    have w: "db_works (later_db 3 e)" using assms by simp
    have "fst (trigger_from_webhook e s p branch delivery sha) = fst (start_run_db (later_db 3 e) s1 p ''webhook'' branch [] [])"
      using False unfolding trigger_eq[OF assms] s1_def[symmetric] Let_def by (auto split: prod.split sum.split)
    then show ?thesis
      using start_run_cases[OF w, of s1 p "''webhook''" branch "[]" "[]"] z r[of i]
      by (cases "i = pj_id p") (auto simp: flights_def started_row_def)
  qed
qed

text \<open>
  Deliveries are answered by handlers that run at the same time. A handler is its arguments and the step of
  \<open>triggerFromWebhook\<close> it does next; \<open>HTurn k\<close> is the next step of the k-th handler, and \<open>HReport\<close> an
  agent's report that a run is over.
\<close>

datatype hook_pc = AtClaim | AtCheck | AtStart | Answered response

record hook =
  hk_env :: denv
  hk_project :: project
  hk_branch :: string
  hk_delivery :: string
  hk_sha :: string
  hk_pc :: hook_pc

definition new_hook :: "denv \<Rightarrow> project \<Rightarrow> string \<Rightarrow> string \<Rightarrow> string \<Rightarrow> hook" where
  "new_hook e p branch delivery sha =
     \<lparr>hk_env = e, hk_project = p, hk_branch = branch, hk_delivery = delivery, hk_sha = sha, hk_pc = AtClaim\<rparr>"

definition hook_turn :: "deploys \<Rightarrow> hook \<Rightarrow> deploys \<times> hook" where
  "hook_turn s h =
     (case hk_pc h of
        AtClaim \<Rightarrow>
          (case webhook_claim (hk_env h) s (hk_project h) (hk_delivery h) of
             (s1, go) \<Rightarrow> (s1, h\<lparr>hk_pc := (if go then AtCheck else Answered (Resp 200 []))\<rparr>))
      | AtCheck \<Rightarrow>
          (s, h\<lparr>hk_pc := (if webhook_check (hk_env h) s (hk_project h) (hk_sha h) then AtStart else Answered (Resp 200 []))\<rparr>)
      | AtStart \<Rightarrow>
          (case webhook_start (hk_env h) s (hk_project h) (hk_branch h) of (s1, a) \<Rightarrow> (s1, h\<lparr>hk_pc := Answered a\<rparr>))
      | Answered a \<Rightarrow> (s, h))"

datatype hook_op =
    HDeliver denv project string string string | HTurn nat | HReport string string string string "int option"

fun hook_step :: "deploys \<times> hook list \<Rightarrow> hook_op \<Rightarrow> deploys \<times> hook list" where
  "hook_step (s, hs) (HDeliver e p branch delivery sha) = (s, hs @ [new_hook e p branch delivery sha])"
| "hook_step (s, hs) (HTurn k) =
     (if k < length hs then (case hook_turn s (hs ! k) of (s1, h) \<Rightarrow> (s1, hs[k := h])) else (s, hs))"
| "hook_step (s, hs) (HReport i st commit err code) = (agent_write s i st commit err code, hs)"

text \<open>The handlers of a project that have looked and not yet inserted their run.\<close>

definition about_to_start :: "string \<Rightarrow> hook list \<Rightarrow> nat" where
  "about_to_start i hs = length (filter (\<lambda>h. pj_id (hk_project h) = i \<and> hk_pc h = AtStart) hs)"

fun hook_op_ok :: "hook_op \<Rightarrow> bool" where
  "hook_op_ok (HDeliver e p branch delivery sha) = db_works e"
| "hook_op_ok (HTurn k) = True"
| "hook_op_ok (HReport i st commit err code) = (st \<notin> {''pending'', ''running''})"

lemma hook_alone:
  "run_all hook_step [HDeliver e p branch delivery sha, HTurn 0, HTurn 0, HTurn 0] (s, []) =
     (case trigger_from_webhook e s p branch delivery sha of
        (t, a) \<Rightarrow> (t, [(new_hook e p branch delivery sha)\<lparr>hk_pc := Answered a\<rparr>]))"
  by (simp add: trigger_from_webhook_def hook_turn_def new_hook_def split: prod.split)

lemma filter_update_length:
  "k < length xs \<Longrightarrow>
     length (filter P (xs[k := x])) + (if P (xs ! k) then 1 else 0) = length (filter P xs) + (if P x then 1 else 0)"
proof (induction xs arbitrary: k)
  case (Cons y ys)
  show ?case
  proof (cases k)
    case (Suc m)
    with Cons show ?thesis by (cases "P y") auto
  qed simp
qed simp

definition start_weight :: "string \<Rightarrow> hook \<Rightarrow> nat" where
  "start_weight i h = (if pj_id (hk_project h) = i \<and> hk_pc h = AtStart then 1 else 0)"

lemma about_to_start_update:
  "k < length hs \<Longrightarrow>
     about_to_start i (hs[k := h]) + start_weight i (hs ! k) = about_to_start i hs + start_weight i h"
  unfolding about_to_start_def start_weight_def by (rule filter_update_length)

lemma hook_turn_frame: "hk_project (snd (hook_turn s h)) = hk_project h" "hk_env (snd (hook_turn s h)) = hk_env h"
  by (auto simp: hook_turn_def split: hook_pc.split prod.split)

text \<open>One turn: the run it inserts is one the handler was counted for, and it is counted only when no run of its
  project was in flight.\<close>

lemma hook_turn_flights:
  assumes "db_works (hk_env h)" "hook_turn s h = (t, g)"
  shows "flights t i + start_weight i g \<le> flights s i + start_weight i h \<or> (flights t i = 0 \<and> start_weight i g = 1)"
proof (cases "hk_pc h")
  case AtClaim
  then have "hk_pc g \<noteq> AtStart" "t = fst (webhook_claim (hk_env h) s (hk_project h) (hk_delivery h))"
    using assms(2) by (auto simp: hook_turn_def split: prod.splits if_splits)
  then show ?thesis by (simp add: start_weight_def flights_def)
next
  case AtCheck
  then have tg: "t = s" "g = h\<lparr>hk_pc := (if webhook_check (hk_env h) s (hk_project h) (hk_sha h) then AtStart else Answered (Resp 200 []))\<rparr>"
    using assms(2) by (auto simp: hook_turn_def)
  show ?thesis
  proof (cases "webhook_check (hk_env h) s (hk_project h) (hk_sha h)")
    case True
    then have "flights s (pj_id (hk_project h)) = 0"
      using duplicate_trigger_none[OF assms(1), of 1] by (simp add: webhook_check_def)
    then show ?thesis using tg True by (auto simp: start_weight_def)
  qed (use tg in \<open>simp add: start_weight_def\<close>)
next
  case AtStart
  then have t: "t = fst (start_run_db (later_db 3 (hk_env h)) s (hk_project h) ''webhook'' (hk_branch h) [] [])"
    and g: "hk_pc g \<noteq> AtStart"
    using assms(2) webhook_start_fst[of "hk_env h" s "hk_project h" "hk_branch h"] by (auto simp: hook_turn_def split: prod.splits)
  have w: "db_works (later_db 3 (hk_env h))" using assms(1) by simp
  show ?thesis
    using start_run_cases[OF w, of s "hk_project h" "''webhook''" "hk_branch h" "[]" "[]"] t g AtStart
    by (auto simp: start_weight_def flights_def started_row_def)
next
  case (Answered a)
  then show ?thesis using assms(2) by (simp add: hook_turn_def)
qed

lemma agent_write_flights: "st \<notin> {''pending'', ''running''} \<Longrightarrow> flights (agent_write s j st commit err code) i \<le> flights s i"
proof -
  assume st: "st \<notin> {''pending'', ''running''}"
  have "length (filter (\<lambda>r. dr_project_id r = i \<and> in_flight r) (map (\<lambda>r. if dr_id r = j then f r else r) rs))
      \<le> length (filter (\<lambda>r. dr_project_id r = i \<and> in_flight r) rs)"
    if "\<And>r. \<not> in_flight (f r)" for f rs
    using that by (induction rs) auto
  then show ?thesis using st by (simp add: agent_write_def map_run_def flights_def in_flight_def)
qed

definition hooks_bounded :: "nat \<Rightarrow> string \<Rightarrow> deploys \<times> hook list \<Rightarrow> bool" where
  "hooks_bounded k i x \<longleftrightarrow> flights (fst x) i + about_to_start i (snd x) \<le> k \<and> list_all (\<lambda>h. db_works (hk_env h)) (snd x)"

lemma hook_step_bounded:
  assumes "hooks_bounded k i x" "hook_op_ok op" "about_to_start i (snd (hook_step x op)) \<le> k"
  shows "hooks_bounded k i (hook_step x op)"
proof (cases op)
  case (HTurn m)
  obtain s hs where x: "x = (s, hs)" by fastforce
  show ?thesis
  proof (cases "m < length hs")
    case True
    obtain t g where tg: "hook_turn s (hs ! m) = (t, g)" by fastforce
    have w: "db_works (hk_env (hs ! m))" using assms(1) True by (simp add: hooks_bounded_def x list_all_length)
    have fr: "hk_env g = hk_env (hs ! m)" using hook_turn_frame(2)[of s "hs ! m"] tg by simp
    have "list_all (\<lambda>h. db_works (hk_env h)) (hs[m := g])"
      using assms(1) True w fr by (simp add: hooks_bounded_def x list_all_length nth_list_update)
    moreover have "flights t i + about_to_start i (hs[m := g]) \<le> k"
      using hook_turn_flights[OF w tg, of i] about_to_start_update[OF True, of i g] assms(1,3) True
      by (auto simp: hooks_bounded_def x HTurn tg split: if_splits)
    ultimately show ?thesis using True by (simp add: hooks_bounded_def x HTurn tg)
  qed (use assms x HTurn in simp)
next
  case (HDeliver e p branch delivery sha)
  then show ?thesis using assms by (cases x) (simp add: hooks_bounded_def new_hook_def about_to_start_def)
next
  case (HReport j st commit err code)
  then show ?thesis
    using assms agent_write_flights[of st "fst x" j commit err code i] by (cases x) (auto simp: hooks_bounded_def)
qed


definition push_payload :: hook_payload where
  "push_payload = \<lparr>hp_ref = ''refs/heads/main'', hp_sha = ''ccc'', hp_action = [], hp_repo = ''acme/shop'', hp_tag = [], hp_kind = []\<rparr>"

lemma about_to_start_le: "about_to_start i hs \<le> length hs"
  by (simp add: about_to_start_def)

lemma hooks_length:
  "length (snd (run_all hook_step xs x)) \<le> length (snd x) + length (filter (\<lambda>y. case y of HDeliver _ _ _ _ _ \<Rightarrow> True | _ \<Rightarrow> False) xs)"
proof (induction xs arbitrary: x)
  case (Cons y ys)
  have "length (snd (hook_step x y)) \<le> length (snd x) + (case y of HDeliver _ _ _ _ _ \<Rightarrow> 1 | _ \<Rightarrow> 0)"
    by (cases x; cases y) (auto split: prod.split)
  then show ?case using Cons.IH[of "hook_step x y"] by (cases y) auto
qed simp

text \<open>Two deliveries handled at the same time.\<close>

definition racing_hooks :: "hook_op list" where
  "racing_hooks =
     [HDeliver (sample_denv ''r2'') (sample_project []) ''main'' ''d2'' [],
      HDeliver (sample_denv ''r3'') (sample_project []) ''main'' ''d3'' [],
      HTurn 0, HTurn 1, HTurn 0, HTurn 1, HTurn 0, HTurn 1]"


text \<open>The bound is reached: two deliveries of a project that both look before either inserts each insert a run.\<close>

lemma webhooks_race:
  assumes "db_works e" "db_works f" "pj_id q = pj_id p" "flights s (pj_id p) = 0"
    and "dn_run_id e \<notin> run_ids s" "dn_run_id f \<notin> run_ids s" "dn_run_id e \<noteq> dn_run_id f"
  shows "\<exists>r1 r2. ds_runs (fst (run_all hook_step
      [HDeliver e p b [] [], HDeliver f q c [] [], HTurn 0, HTurn 1, HTurn 0, HTurn 1, HTurn 0, HTurn 1] (s, [])))
      = ds_runs s @ [r1, r2] \<and> dr_project_id r1 = pj_id p \<and> dr_project_id r2 = pj_id p \<and>
    dr_trigger r1 = ''webhook'' \<and> dr_trigger r2 = ''webhook''"
proof -
  have nochk: "webhook_check e s p []" "webhook_check f s q []"
    using assms(1-4) by (simp_all add: webhook_check_def duplicate_trigger_def active_run_def flights_none)
  have w: "db_works (later_db 3 e)" "db_works (later_db 3 f)" using assms by simp_all
  define t where "t = fst (start_run_db (later_db 3 e) s p ''webhook'' b [] [])"
  obtain r1 where r1: "ds_runs t = ds_runs s @ [r1]" "started_row (later_db 3 e) p ''webhook'' b [] r1"
    using start_run_row[OF w(1), of s p "''webhook''" b "[]" "[]"] assms(5) unfolding t_def by auto
  have "dn_run_id f \<notin> run_ids t" using r1 assms(6,7) by (auto simp: run_ids_def started_row_def)
  then obtain r2 where r2: "ds_runs (fst (start_run_db (later_db 3 f) t q ''webhook'' c [] [])) = ds_runs t @ [r2]"
      "started_row (later_db 3 f) q ''webhook'' c [] r2"
    using start_run_row[OF w(2), of t q "''webhook''" c "[]" "[]"] by auto
  have "fst (run_all hook_step
      [HDeliver e p b [] [], HDeliver f q c [] [], HTurn 0, HTurn 1, HTurn 0, HTurn 1, HTurn 0, HTurn 1] (s, []))
    = fst (start_run_db (later_db 3 f) t q ''webhook'' c [] [])"
    using nochk webhook_start_fst[of e s p b] webhook_start_fst[of f t q c]
    by (auto simp: hook_turn_def new_hook_def webhook_claim_def t_def split: prod.split)
  then show ?thesis using r1 r2 assms(3) by (auto simp: started_row_def simp del: run_all.simps)
qed

text \<open>A delivery that was already claimed, by the provider's retry, changes nothing at all.\<close>

theorem repeat_delivery_ignored:
  assumes "db_works e" "delivery \<noteq> []" "(pj_id p, delivery) \<in> set (ds_deliveries s)"
  shows "trigger_from_webhook e s p branch delivery sha = (s, Resp 200 [])"
  using assms by (simp add: trigger_eq)

theorem repeat_delivery_ignored_witness:
  "trigger_from_webhook (sample_denv ''r2'') failing_pair (sample_project []) ''main'' ''d1'' [] = (failing_pair, Resp 200 [])"
  by (rule repeat_delivery_ignored) (simp_all add: failing_pair_def sample_deploys_def sample_project_def)

section \<open>A start that fails\<close>

lemma start_run_fails:
  assumes "db_works e" "dn_run_id e \<notin> run_ids s"
    "deploy_command_for (dn_box e) p (dn_run_id e) (clone_token e p) branch pin only = Inl err"
  shows "snd (start_run_db e s p trigger branch pin only) = Inl err \<and>
    ds_runs (fst (start_run_db e s p trigger branch pin only)) =
      ds_runs s @ [new_run (dn_run_id e) (dn_now e) (pj_id p) (pj_server_id p) trigger branch pin] \<and>
    ds_sent (fst (start_run_db e s p trigger branch pin only)) = ds_sent s"
proof -
  have "ds_sent (report_status_start e u q r) = ds_sent u" for u q r
    by (simp add: report_status_start_def post_status_def split: sum.split)
  moreover have "dr_id (new_run i n pj sv tr b c) = i" for i n pj sv tr b c by (simp add: new_run_def)
  ultimately show ?thesis
    using assms by (simp add: start_run_db_def insert_run_ok Let_def)
qed

text \<open>A start that fails blocks the project: when the command cannot be built, because a secret cannot
  be decrypted or no app matches, the caller gets an error and nothing is sent, but the run stays
  pending, and every webhook delivery for the project is skipped from then on while it does.\<close>

theorem failed_start_blocks_project:
  assumes e: "db_works e" "dn_run_id e \<notin> run_ids s"
    and err: "deploy_command_for (dn_box e) p (dn_run_id e) (clone_token e p) branch pin only = Inl err"
    and t: "t = fst (start_run_db e s p trigger branch pin only)"
    and w: "db_works w" and q: "pj_id q = pj_id p"
  shows "snd (start_run_db e s p trigger branch pin only) = Inl err \<and> ds_sent t = ds_sent s \<and> flights t (pj_id p) > 0 \<and>
    ds_runs (fst (trigger_from_webhook w t q b delivery sha)) = ds_runs t \<and>
    ds_sent (fst (trigger_from_webhook w t q b delivery sha)) = ds_sent t"
proof -
  note f = start_run_fails[OF e err, of trigger, folded t]
  have fl: "flights t (pj_id p) > 0" using f by (simp add: flights_def new_run_def in_flight_def)
  define t1 where "t1 = (if delivery = [] then t else t\<lparr>ds_deliveries := ds_deliveries t @ [(pj_id q, delivery)]\<rparr>)"
  have "flights t1 (pj_id q) > 0" using fl q by (simp add: t1_def flights_def)
  then have "duplicate_trigger (\<lambda>n. dn_db w (n + 1)) (dn_now w) t1 (pj_id q) sha \<noteq> []"
    using duplicate_trigger_none[OF w, of 1 "dn_now w" t1 "pj_id q" sha] by auto
  then have "fst (trigger_from_webhook w t q b delivery sha) \<in> {t, t1}"
    unfolding trigger_eq[OF w] t1_def[symmetric] Let_def by auto
  then show ?thesis using f fl by (auto simp: t1_def)
qed

text \<open>The app's secret cannot be read without an encryption key.\<close>

theorem failed_start_blocks_project_witness:
  "ds_sent (fst (trigger_from_webhook (sample_denv ''r3'')
      (fst (start_run_db (sample_denv ''r2'') failing_pair (sample_project [sample_app ''web'' [secret_var ''K'' ''ab'']])
         ''manual'' ''main'' [] []))
      (sample_project []) ''main'' ''d2'' [])) = []"
proof -
  let ?p = "sample_project [sample_app ''web'' [secret_var ''K'' ''ab'']]"
  have err: "deploy_command_for (dn_box (sample_denv ''r2'')) ?p (dn_run_id (sample_denv ''r2''))
      (clone_token (sample_denv ''r2'') ?p) ''main'' [] [] = Inl (EnvFailed (NoEncryptionKey ''K''))"
    by (simp add: deploy_command_for_def allowed_def passes_def sample_project_def sample_app_def secret_var_def
          resolve_app_env_def sample_denv_def)
  have "ds_sent failing_pair = []" by (simp add: failing_pair_def sample_deploys_def)
  then show ?thesis
    using failed_start_blocks_project[OF _ _ err refl, of failing_pair "sample_denv ''r3''" "sample_project []"]
    by (simp add: failing_pair_facts)
qed

end
