(* ===== verification/DeployFacts.thy ===== *)
theory DeployFacts
  imports DeployHistory
begin

text \<open>
  What the deploys handlers promise of one request: the command sent to the agent against what the
  operator is shown, a created project against the request that made it, what is committed to the
  repository, and what a caller without the right credentials can do.
\<close>

section \<open>The command and the screen\<close>

lemma app_commands_reveal:
  "reveal_apps box (pj_env p) [] as =
     (case app_commands box p [] as of
        Inl (EnvFailed err) \<Rightarrow> Inl (DecryptFailed err)
      | Inl err \<Rightarrow> Inl GetFailed
      | Inr cs \<Rightarrow> Inr (map (\<lambda>c. (da_name c, da_env c)) cs)) \<and>
   app_commands box p [] as \<noteq> Inl NoMatchingApps \<and> (\<forall>err. app_commands box p [] as \<noteq> Inl (StoreFailed err))"
  by (induction as) (auto simp: passes_def app_command_def Let_def split: sum.splits run_error.splits)

lemma app_commands_length: "app_commands box p [] as = Inr cs \<Longrightarrow> length cs = length as"
  by (induction as arbitrary: cs) (auto simp: passes_def split: sum.splits)

text \<open>C18. What an admin is shown after a passkey step-up is what the agent gets: for a project with apps,
  the reveal lists the same apps with the same variables, shared ones overridden by the app's, as the
  command of a full deploy, and where one cannot be decrypted, neither can the other.\<close>

theorem reveal_matches_deploy:
  assumes "pj_apps p \<noteq> []"
  shows "reveal_env box True (Inr True) (Inr []) (Inr ()) (Inr (Some p)) =
    (case deploy_command_for box p run tok branch pin [] of
       Inl (EnvFailed err) \<Rightarrow> Inl (DecryptFailed err)
     | Inl err \<Rightarrow> Inl GetFailed
     | Inr cmd \<Rightarrow> Inr (map (\<lambda>c. (da_name c, da_env c)) (dc_apps cmd)))"
proof (cases "app_commands box p [] (pj_apps p)")
  case (Inl err)
  then show ?thesis
    using app_commands_reveal[of box p "pj_apps p"]
    by (auto simp: reveal_env_def deploy_command_for_def allowed_def)
next
  case (Inr cs)
  then have "cs \<noteq> []" using app_commands_length[OF Inr] assms by auto
  then show ?thesis
    using Inr app_commands_reveal[of box p "pj_apps p"]
    by (auto simp: reveal_env_def deploy_command_for_def allowed_def)
qed

theorem reveal_matches_deploy_witness:
  "reveal_env None True (Inr True) (Inr []) (Inr ()) (Inr (Some (sample_project [sample_app ''web'' [plain_var ''PORT'' ''80'']]))) =
   Inr [(''web'', [''PORT'' \<mapsto> ''80''])]"
proof -
  let ?p = "sample_project [sample_app ''web'' [plain_var ''PORT'' ''80'']]"
  have "pj_apps ?p \<noteq> []" by (simp add: sample_project_def)
  from reveal_matches_deploy[OF this, of None "''r''" "[]" "''main''" "[]"] show ?thesis
    by (simp add: deploy_command_for_def allowed_def passes_def sample_project_def sample_app_def plain_var_def
          resolve_app_env_def app_command_def Let_def)
qed

text \<open>The name on the screen is the name on the host: for every app with a name, the process name that
  the API shows for it, spaces trimmed, is the one the agent gives the process that startRun's command
  describes, whatever the process manager and however the stored name came about.\<close>

theorem shown_name_is_host_name:
  assumes "a \<in> set (pj_apps p)" "sa_name a \<noteq> []"
  shows "\<exists>b \<in> set (pj_apps (redact_project p)). sa_name b = sa_name a \<and> sa_root b = sa_root a \<and>
    trim_space (sa_process_name b) = process_name_for (pj_name p) (Some (app_command p a env))"
proof -
  define r where "r = a\<lparr>sa_env := redact_env (sa_env a)\<rparr>"
  define b where "b = (if trim_space (sa_process_name r) \<noteq> [] then r
    else r\<lparr>sa_process_name := qualify_process_name (pj_name p) (sa_name a)\<rparr>)"
  have "r \<in> set (redact_apps (pj_apps p))" using assms(1) by (auto simp: redact_apps_def r_def)
  then have b: "b \<in> set (pj_apps (redact_project p))"
    using assms(2) by (auto simp: redact_project_def enrich_process_names_def b_def r_def Let_def
        intro: image_eqI[where x = r])
  have "sa_name b = sa_name a" "sa_root b = sa_root a" by (simp_all add: b_def r_def)
  moreover have "trim_space (sa_process_name b) = process_name_for (pj_name p) (Some (app_command p a env))"
    using assms(2) slug_trim[OF conjunct1[OF qualify_is_slug]]
    by (auto simp: b_def r_def process_name_for_def app_command_def process_name_for_deploy_def agent_qualify_eq Let_def)
  ultimately show ?thesis using b by blast
qed

theorem shown_name_is_host_name_witness:
  "\<exists>b \<in> set (pj_apps (redact_project (sample_project [sample_app ''web'' []]))). sa_name b = ''web'' \<and>
    trim_space (sa_process_name b) =
      process_name_for ''shop'' (Some (app_command (sample_project [sample_app ''web'' []]) (sample_app ''web'' []) Map.empty))"
  using shown_name_is_host_name[of "sample_app ''web'' []" "sample_project [sample_app ''web'' []]" Map.empty]
  by auto

section \<open>What is committed\<close>

lemma public_vars_for_spec:
  "list_all2 same_public vs ws \<Longrightarrow>
   map (\<lambda>v. plain_var (ev_key v) (ev_value v)) (filter (\<lambda>v. \<not> (ev_sensitive v \<or> ev_key v = [])) vs) =
   map (\<lambda>v. plain_var (ev_key v) (ev_value v)) (filter (\<lambda>v. \<not> (ev_sensitive v \<or> ev_key v = [])) ws)"
  by (induction rule: list_all2_induct) (auto simp: same_public_def)

lemma same_app_env: "same_app a b \<Longrightarrow> a\<lparr>sa_env := z\<rparr> = b\<lparr>sa_env := z\<rparr>"
  unfolding same_app_def by (auto dest: arg_cong[where f = "\<lambda>x. x\<lparr>sa_env := z\<rparr>"])

lemma apps_for_spec_public: "list_all2 same_app as bs \<Longrightarrow> apps_for_spec as = apps_for_spec bs"
proof (induction rule: list_all2_induct)
  case (Cons a as b bs)
  have e: "map (\<lambda>v. plain_var (ev_key v) (ev_value v)) (filter (\<lambda>v. \<not> (ev_sensitive v \<or> ev_key v = [])) (sa_env a)) =
      map (\<lambda>v. plain_var (ev_key v) (ev_value v)) (filter (\<lambda>v. \<not> (ev_sensitive v \<or> ev_key v = [])) (sa_env b))"
    using Cons(1) by (intro public_vars_for_spec) (simp add: same_app_def)
  show ?case
    using Cons(3) unfolding apps_for_spec_def list.map e by (simp add: same_app_env[OF Cons(1)])
qed (simp add: apps_for_spec_def)

lemma apps_for_spec_idem: "apps_for_spec (apps_for_spec as) = apps_for_spec as"
  by (induction as) (simp_all add: apps_for_spec_def plain_var_def filter_map comp_def)

text \<open>The document reads the apps only through what it keeps of them.\<close>

lemma spec_reads_public: "spec_for_project p = spec_for_project (p\<lparr>pj_apps := apps_for_spec (pj_apps p)\<rparr>)"
proof -
  have "(case map g as of [a] \<Rightarrow> Some a | _ \<Rightarrow> None) = map_option g (case as of [a] \<Rightarrow> Some a | _ \<Rightarrow> None)"
    for g and as :: "spec_app list" by (auto split: list.splits)
  then have "(case apps_for_spec as of [a] \<Rightarrow> Some a | _ \<Rightarrow> None) =
      map_option (\<lambda>a. a\<lparr>sa_env := map (\<lambda>v. plain_var (ev_key v) (ev_value v))
        (filter (\<lambda>v. \<not> (ev_sensitive v \<or> ev_key v = [])) (sa_env a))\<rparr>) (case as of [a] \<Rightarrow> Some a | _ \<Rightarrow> None)" for as
    by (simp add: apps_for_spec_def)
  then show ?thesis
    by (simp add: spec_for_project_def apps_for_spec_idem Let_def split: option.split)
qed

lemma same_project_apps: "same_project p q \<Longrightarrow> p\<lparr>pj_apps := z\<rparr> = q\<lparr>pj_apps := z\<rparr>"
  unfolding same_project_def by (auto dest: arg_cong[where f = "\<lambda>x. x\<lparr>pj_apps := z\<rparr>"])

lemma spec_for_project_public:
  assumes "same_project p q"
  shows "spec_for_project p = spec_for_project q"
proof -
  have "apps_for_spec (pj_apps p) = apps_for_spec (pj_apps q)"
    using assms by (intro apps_for_spec_public) (simp add: same_project_def)
  then have "p\<lparr>pj_apps := apps_for_spec (pj_apps p)\<rparr> = q\<lparr>pj_apps := apps_for_spec (pj_apps q)\<rparr>"
    using same_project_apps[OF assms, of "apps_for_spec (pj_apps q)"] by simp
  then show ?thesis by (subst (1 2) spec_reads_public) simp
qed

text \<open>C19. No secret is committed: the files written to the repository, croncompose.yml with them, are the
  same for two projects that differ only in the values of their sensitive variables.\<close>

theorem committed_files_hide_secrets:
  assumes "same_project p q"
  shows "spec_files yaml ci p public keep = spec_files yaml ci q public keep"
proof -
  have "pj_id p = pj_id q" "pj_provider p = pj_provider q"
    using same_project_apps[OF assms, of "[]"] by (auto dest: arg_cong[where f = pj_id] arg_cong[where f = pj_provider])
  then show ?thesis using spec_for_project_public[OF assms] by (simp add: spec_files_def)
qed

theorem committed_files_hide_secrets_witness:
  "spec_files (\<lambda>d. concat (map sa_name (sp_apps d))) (\<lambda>g u. u) (sample_project [sample_app ''web'' [secret_var ''K'' ''00'']]) ''https://cc'' False =
   spec_files (\<lambda>d. concat (map sa_name (sp_apps d))) (\<lambda>g u. u) (sample_project [sample_app ''web'' [secret_var ''K'' ''ff'']]) ''https://cc'' False"
  by (rule committed_files_hide_secrets)
    (simp add: same_project_def sample_project_def same_app_def sample_app_def same_public_def has_any_def secret_var_def)

section \<open>A created project\<close>

lemma find_project_append:
  "find_project s i = None \<Longrightarrow>
   find_project (s\<lparr>ds_projects := ds_projects s @ [row]\<rparr>) i = (if pj_id (pr_project row) = i then Some row else None)"
proof -
  have "List.find P xs = None \<Longrightarrow> List.find P (xs @ [row]) = (if P row then Some row else None)" for P xs
    by (induction xs) auto
  then show "find_project s i = None \<Longrightarrow> ?thesis" by (simp add: find_project_def)
qed

text \<open>What the request asked for, defaults filled in.\<close>

definition as_asked :: "create_input \<Rightarrow> project \<Rightarrow> bool" where
  "as_asked inp p \<longleftrightarrow>
     pj_name p = (if ci_name inp = [] then ci_repo_full_name inp else ci_name inp) \<and>
     pj_provider p = ci_provider inp \<and> pj_repo_full_name p = ci_repo_full_name inp \<and> pj_server_id p = ci_server_id inp \<and>
     pj_run_as_user p = ci_run_as_user inp \<and> pj_env p = ci_env inp \<and> pj_install_script p = ci_install_script inp \<and>
     pj_write_spec p = (ci_write_spec inp \<noteq> Some False) \<and>
     pj_auto_rollback p = ci_auto_rollback inp \<and>
     pj_on_wave_failure p = normalize_on_wave_failure (ci_on_wave_failure inp) \<and>
     pj_redeploy_on p = normalize_redeploy_on (ci_redeploy_on inp) \<and> pj_flow p = ci_flow inp \<and>
     pj_health_path p = ci_health_path inp \<and>
     (if ci_health_path inp = [] then pj_health_port p = 0 \<and> pj_health_timeout_seconds p = 60
      else pj_health_port p = ci_health_port inp \<and> pj_health_timeout_seconds p = ci_health_timeout_seconds inp) \<and>
     pj_deploy_timeout_seconds p = max 0 (ci_deploy_timeout_seconds inp) \<and>
     pj_health_state p = ''unknown''"

lemma normalize_idem [simp]:
  "normalize_on_wave_failure (normalize_on_wave_failure x) = normalize_on_wave_failure x"
  "normalize_redeploy_on (normalize_redeploy_on ms) = normalize_redeploy_on ms"
  by (rule policy.norm_idem modes.norm_idem)+

text \<open>The row that \<open>Insert\<close> writes, and what an update makes of a row.\<close>

definition plain_row :: "create_input \<Rightarrow> project \<Rightarrow> bool" where
  "plain_row inp p \<longleftrightarrow>
     as_asked (inp\<lparr>ci_auto_rollback := False, ci_on_wave_failure := [], ci_flow := [], ci_health_path := [],
       ci_deploy_timeout_seconds := 0\<rparr>) p \<and> pj_apps p = ci_apps inp"

lemma normalize_Nil [simp]: "normalize_on_wave_failure [] = ''stop''"
  by (simp add: normalize_on_wave_failure_def to_lower_def)

lemma normalize_stop [simp]: "normalize_on_wave_failure ''stop'' = ''stop''"
  by (rule policy.norm_id) simp

lemma inserted_row_plain: "plain_row inp (scan_project (pr_project (inserted_row now hash new inp actor)))"
proof -
  have "(case ci_write_spec inp of None \<Rightarrow> True | Some b \<Rightarrow> b) = (ci_write_spec inp \<noteq> Some False)"
    by (auto split: option.split)
  then show ?thesis
    by (simp add: plain_row_def as_asked_def inserted_row_def scan_project_def normalize_on_wave_failure_def to_lower_def)
qed

lemma insert_project_ok:
  assumes "insert_project db now hash new s inp actor = (t, Inr p)"
  shows "\<exists>row. t = s\<lparr>ds_projects := ds_projects s @ [row]\<rparr> \<and> find_project s (pj_id p) = None \<and>
    find_project t (pj_id p) = Some row \<and> p = scan_project (pr_project row) \<and> plain_row inp p"
proof -
  define row where "row = inserted_row now hash new inp actor"
  define i where "i = pj_id (pr_project row)"
  have g: "find_project s i = None" "t = s\<lparr>ds_projects := ds_projects s @ [row]\<rparr>" "get_project (db 1) t i = Inr p"
    using assms unfolding insert_project_def row_def[symmetric] i_def[symmetric] Let_def by (auto split: if_splits)
  have f: "find_project t i = Some row" using find_project_append[OF g(1), of row] g(2) by (simp add: i_def)
  then have p: "p = scan_project (pr_project row)" using g(3) by (simp add: get_project_def split: if_splits)
  have "pj_id p = i" by (simp add: p scan_project_def i_def)
  then show ?thesis using g f p inserted_row_plain[of inp now hash new actor, folded row_def] by auto
qed

lemma update_project_ok:
  assumes "db_works e" "update_project (\<lambda>n. dn_db e (n + k)) now s i inp = (t, Inr q)" "find_project s i = Some row"
  defines "p \<equiv> written_over now (apply_update (scan_project (pr_project row)) inp) (pr_project row)"
  shows "t = set_project s i (written_over now (apply_update (scan_project (pr_project row)) inp)) \<and>
    find_project t i = Some (row\<lparr>pr_project := p\<rparr>) \<and> q = scan_project p"
proof -
  define f where "f = written_over now (apply_update (scan_project (pr_project row)) inp)"
  have i: "pj_id (pr_project row) = i" by (rule find_project_id[OF assms(3)])
  have t: "t = set_project s i f" "get_project True (set_project s i f) i = Inr q"
    using assms(1-3) by (auto simp: update_project_def get_project_def f_def Let_def)
  have "pj_id (f x) = pj_id x" for x by (simp add: f_def written_over_def)
  then have "find_project (set_project s i f) i = Some (row\<lparr>pr_project := p\<rparr>)"
    using find_project_set[of f s i i] assms(3) i by (simp add: p_def f_def)
  then show ?thesis using t by (simp add: get_project_def f_def)
qed

lemma upd_sel: "(\<And>x p. g (f x p) = g p) \<Longrightarrow> g (upd v f p) = g p"
  by (cases v) (simp_all add: upd_def)

lemma upd_set: "(\<And>x p. g (f x p) = h x) \<Longrightarrow> g (upd v f p) = (case v of None \<Rightarrow> g p | Some x \<Rightarrow> h x)"
  by (cases v) (simp_all add: upd_def)

text \<open>What the extras of a request change, field by field.\<close>

lemma upd_None [simp]: "upd None f p = p"
  by (simp add: upd_def)

lemma extras_fields:
  fixes inp p defines "q \<equiv> apply_update p (fst (extras inp))"
  shows "pj_auto_rollback q = (ci_auto_rollback inp \<or> pj_auto_rollback p)"
    and "pj_on_wave_failure q =
      (if ci_on_wave_failure inp = [] then pj_on_wave_failure p else normalize_on_wave_failure (ci_on_wave_failure inp))"
    and "pj_health_path q = (if ci_health_path inp = [] then pj_health_path p else ci_health_path inp)"
    and "pj_health_port q = (if ci_health_path inp = [] then pj_health_port p else ci_health_port inp)"
    and "pj_health_timeout_seconds q =
      (if ci_health_path inp = [] then pj_health_timeout_seconds p else ci_health_timeout_seconds inp)"
    and "pj_deploy_timeout_seconds q =
      (if 0 < ci_deploy_timeout_seconds inp then ci_deploy_timeout_seconds inp else pj_deploy_timeout_seconds p)"
    and "pj_redeploy_on q =
      (if ci_redeploy_on inp = [] then pj_redeploy_on p else normalize_redeploy_on (ci_redeploy_on inp))"
    and "pj_flow q = (if ci_flow inp = [] then pj_flow p else ci_flow inp)"
  unfolding q_def apply_update_def extras_def no_update_def Let_def
  by (simp_all add: upd_sel[of pj_auto_rollback] upd_set[of pj_auto_rollback _ "\<lambda>x. x"]
        upd_sel[of pj_on_wave_failure] upd_set[of pj_on_wave_failure _ normalize_on_wave_failure]
        upd_sel[of pj_health_path] upd_set[of pj_health_path _ "\<lambda>x. x"]
        upd_sel[of pj_health_port] upd_set[of pj_health_port _ "\<lambda>x. x"]
        upd_sel[of pj_health_timeout_seconds] upd_set[of pj_health_timeout_seconds _ "\<lambda>x. x"]
        upd_sel[of pj_deploy_timeout_seconds] upd_set[of pj_deploy_timeout_seconds _ "\<lambda>x. x"]
        upd_sel[of pj_redeploy_on] upd_set[of pj_redeploy_on _ normalize_redeploy_on]
        upd_sel[of pj_flow] upd_set[of pj_flow _ "\<lambda>x. x"])

lemma extras_other_fields:
  fixes inp p defines "q \<equiv> apply_update p (fst (extras inp))"
  shows "pj_name q = pj_name p \<and> pj_server_id q = pj_server_id p \<and> pj_run_as_user q = pj_run_as_user p \<and>
    pj_env q = pj_env p \<and> pj_install_script q = pj_install_script p \<and> pj_write_spec q = pj_write_spec p \<and>
    pj_apps q = pj_apps p"
  unfolding q_def apply_update_def extras_def no_update_def Let_def
  by (simp add: upd_sel[of pj_name] upd_sel[of pj_server_id] upd_sel[of pj_run_as_user] upd_sel[of pj_env]
        upd_sel[of pj_install_script] upd_sel[of pj_write_spec] upd_sel[of pj_apps])

lemma extras_none: "\<not> snd (extras inp) \<Longrightarrow>
    inp\<lparr>ci_auto_rollback := False, ci_on_wave_failure := [], ci_flow := [], ci_health_path := [],
        ci_deploy_timeout_seconds := min 0 (ci_deploy_timeout_seconds inp)\<rparr> = inp"
  by (cases inp) (auto simp: extras_def Let_def)

lemma plain_row_asked:
  assumes "plain_row inp p" "\<not> snd (extras inp)"
  shows "as_asked inp p"
  using assms by (auto simp: plain_row_def as_asked_def extras_def Let_def)

lemma plain_row_updated:
  assumes "plain_row inp (scan_project old)"
  shows "as_asked inp (scan_project (written_over now (apply_update (scan_project old) (fst (extras inp))) old)) \<and>
    pj_apps (scan_project (written_over now (apply_update (scan_project old) (fst (extras inp))) old)) = ci_apps inp"
proof -
  define q where "q = apply_update (scan_project old) (fst (extras inp))"
  have old: "pj_provider (scan_project old) = pj_provider old" "pj_repo_full_name (scan_project old) = pj_repo_full_name old"
    "pj_health_state (scan_project old) = pj_health_state old"
    by (simp_all add: scan_project_def)
  note f = extras_fields[of "scan_project old" inp, folded q_def]
    and g = extras_other_fields[of "scan_project old" inp, folded q_def]
  have w: "scan_project (written_over now q old) = (scan_project q)\<lparr>pj_updated_at := now, pj_id := pj_id old,
      pj_provider := pj_provider old, pj_repo_full_name := pj_repo_full_name old, pj_repo_id := pj_repo_id old,
      pj_clone_url := pj_clone_url old, pj_health_state := pj_health_state old, pj_created_by := pj_created_by old,
      pj_created_at := pj_created_at old\<rparr>"
    by (simp add: scan_project_def written_over_def)
  have "pj_redeploy_on (scan_project q) = normalize_redeploy_on (ci_redeploy_on inp)"
    "pj_on_wave_failure (scan_project q) = normalize_on_wave_failure (ci_on_wave_failure inp)"
    using assms by (auto simp: scan_project_def f plain_row_def as_asked_def)
  moreover have "pj_name (scan_project q) = pj_name q" "pj_server_id (scan_project q) = pj_server_id q"
    "pj_run_as_user (scan_project q) = pj_run_as_user q" "pj_env (scan_project q) = pj_env q"
    "pj_install_script (scan_project q) = pj_install_script q" "pj_write_spec (scan_project q) = pj_write_spec q"
    "pj_auto_rollback (scan_project q) = pj_auto_rollback q" "pj_flow (scan_project q) = pj_flow q"
    "pj_health_path (scan_project q) = pj_health_path q" "pj_health_port (scan_project q) = pj_health_port q"
    "pj_health_timeout_seconds (scan_project q) = pj_health_timeout_seconds q"
    "pj_deploy_timeout_seconds (scan_project q) = pj_deploy_timeout_seconds q" "pj_apps (scan_project q) = pj_apps q"
    by (simp_all add: scan_project_def)
  ultimately show ?thesis
    using assms f g old unfolding q_def[symmetric] w plain_row_def as_asked_def by auto
qed

lemma as_asked_filled: "as_asked ((with_paths ok s inp)\<lparr>ci_apps := apps\<rparr>) p = as_asked inp p"
  by (simp add: as_asked_def with_paths_def Let_def)

lemma find_project_append_other:
  "pj_id (pr_project row) \<noteq> j \<Longrightarrow> find_project (s\<lparr>ds_projects := ds_projects s @ [row]\<rparr>) j = find_project s j"
proof -
  have "\<not> P row \<Longrightarrow> List.find P (xs @ [row]) = List.find P xs" for P xs by (induction xs) auto
  then show "pj_id (pr_project row) \<noteq> j \<Longrightarrow> ?thesis" by (simp add: find_project_def)
qed

lemma find_project_set_other:
  "(\<And>p. pj_id (f p) = pj_id p) \<Longrightarrow> i \<noteq> j \<Longrightarrow> find_project (set_project s i f) j = find_project s j"
  using find_project_set[of f s i j] find_project_id[of s j]
  by (cases "find_project s j") auto

text \<open>A project is created as it was asked for: every setting of the request that the first insert does
  not write, rollback, wave policy, health check, budget, redeploy modes and flow, is there as well when
  the request succeeds, defaults filled in; the apps are the sealed ones; the row can be read back; and no
  other project is touched.\<close>

theorem created_as_asked:
  assumes "db_works e" "create_project api e nonces s inp = (t, Inr p)"
  shows "as_asked inp p \<and> get_project True t (pj_id p) = Inr p \<and>
    normalize_create_apps (dn_box e) nonces (ap_walk api) (with_paths (dn_db e 0) s inp) = Inr (pj_apps p) \<and>
    (\<forall>j. j = pj_id p \<or> find_project t j = find_project s j)"
proof -
  define inp1 where "inp1 = with_paths (dn_db e 0) s inp"
  obtain apps where apps: "normalize_create_apps (dn_box e) nonces (ap_walk api) inp1 = Inr apps"
    using assms(2) by (auto simp: create_project_def inp1_def Let_def split: if_splits sum.splits)
  define inp2 where "inp2 = inp1\<lparr>ci_apps := apps\<rparr>"
  obtain s1 r1 where ins: "insert_project (\<lambda>n. dn_db e (n + 1)) (dn_now e) (ap_hash api) (ap_new_ids api) s inp2 (ap_user api) = (s1, r1)"
    by fastforce
  then obtain p1 where r1: "r1 = Inr p1"
    using assms(2) apps by (cases r1) (auto simp: create_project_def inp1_def inp2_def Let_def split: if_splits)
  obtain row where row: "s1 = s\<lparr>ds_projects := ds_projects s @ [row]\<rparr>" "find_project s1 (pj_id p1) = Some row"
      "p1 = scan_project (pr_project row)" "plain_row inp2 p1"
    using insert_project_ok[OF ins[unfolded r1]] by blast
  have id1: "pj_id (pr_project row) = pj_id p1" by (simp add: row(3) scan_project_def)
  have other: "find_project s1 j = find_project s j" if "j \<noteq> pj_id p1" for j
    using find_project_append_other[of row j s] that id1 row(1) by auto
  have asked: "as_asked inp2 x = as_asked inp x" for x by (simp add: inp2_def inp1_def as_asked_filled)
  have apps2: "ci_apps inp2 = apps" by (simp add: inp2_def)
  have rest: "(case extras inp2 of (up, False) \<Rightarrow> (s1, Inr p1)
      | (up, True) \<Rightarrow> (case update_project (\<lambda>n. dn_db e (n + 3)) (dn_now e) s1 (pj_id p1) up of
            (s2, Inl err) \<Rightarrow> (s2, Inl (Resp 500 ''update_failed'')) | (s2, Inr q) \<Rightarrow> (s2, Inr q))) = (t, Inr p)"
    using assms(2) apps ins r1 by (simp add: create_project_def inp1_def inp2_def Let_def split: if_splits)
  show ?thesis
  proof (cases "snd (extras inp2)")
    case False
    then have t: "t = s1" "p = p1" using rest by (auto split: prod.splits bool.splits)
    have "as_asked inp p" using plain_row_asked[OF row(4) False] asked t by simp
    moreover have "pj_apps p = apps" using row(4) t apps2 by (simp add: plain_row_def)
    ultimately show ?thesis
      using t row(2,3) other apps by (auto simp: get_project_def inp1_def)
  next
    case True
    obtain s2 r2 where up: "update_project (\<lambda>n. dn_db e (n + 3)) (dn_now e) s1 (pj_id p1) (fst (extras inp2)) = (s2, r2)"
      by fastforce
    have "s2 = t" "r2 = Inr p" using rest True up by (auto split: prod.splits bool.splits sum.splits)
    then have up: "update_project (\<lambda>n. dn_db e (n + 3)) (dn_now e) s1 (pj_id p1) (fst (extras inp2)) = (t, Inr p)"
      using up by simp
    let ?w = "written_over (dn_now e) (apply_update (scan_project (pr_project row)) (fst (extras inp2)))"
    note u = update_project_ok[OF assms(1) up row(2)]
    have w: "pj_id (?w x) = pj_id x" for x by (simp add: written_over_def)
    have pid: "pj_id p = pj_id p1" using u w id1 by (simp add: scan_project_def)
    have "find_project t j = find_project s j" if "j \<noteq> pj_id p" for j
      using find_project_set_other[of ?w "pj_id p1" j s1] w that pid other[of j] u by auto
    moreover have "as_asked inp p \<and> pj_apps p = apps"
      using plain_row_updated[of inp2 "pr_project row" "dn_now e"] row(3,4) u asked apps2 by simp
    ultimately show ?thesis using u pid apps by (auto simp: get_project_def inp1_def)
  qed
qed

lemma create_project_succeeds:
  assumes "db_works e" "ci_provider inp \<noteq> []" "ci_repo_full_name inp \<noteq> []" "ci_server_id inp \<noteq> []"
    "normalize_create_apps (dn_box e) nonces (ap_walk api) (with_paths (dn_db e 0) s inp) = Inr apps"
    "find_project s (snd (snd (ap_new_ids api))) = None"
  shows "\<exists>t p. create_project api e nonces s inp = (t, Inr p)"
proof -
  define inp1 where "inp1 = with_paths (dn_db e 0) s inp"
  define inp2 where "inp2 = inp1\<lparr>ci_apps := apps\<rparr>"
  define row where "row = inserted_row (dn_now e) (ap_hash api) (ap_new_ids api) inp2 (ap_user api)"
  define s1 where "s1 = s\<lparr>ds_projects := ds_projects s @ [row]\<rparr>"
  have i: "pj_id (pr_project row) = snd (snd (ap_new_ids api))" by (simp add: row_def inserted_row_def)
  have f: "find_project s1 (pj_id (pr_project row)) = Some row"
    using find_project_append[of s "pj_id (pr_project row)" row] assms(6) i by (simp add: s1_def)
  have ins: "insert_project (\<lambda>n. dn_db e (n + 1)) (dn_now e) (ap_hash api) (ap_new_ids api) s inp2 (ap_user api) =
      (s1, Inr (scan_project (pr_project row)))"
    using f assms(1,6) i
    unfolding insert_project_def row_def[symmetric] s1_def[symmetric] get_project_def Let_def by simp
  have up: "\<exists>t p. update_project (\<lambda>n. dn_db e (n + 3)) (dn_now e) s1 (pj_id (scan_project (pr_project row))) up = (t, Inr p)" for up
  proof -
    define g where "g = written_over (dn_now e) (apply_update (scan_project (pr_project row)) up)"
    have "pj_id (g x) = pj_id x" for x by (simp add: g_def written_over_def)
    then have "find_project (set_project s1 (pj_id (pr_project row)) g) (pj_id (pr_project row)) \<noteq> None"
      using find_project_set[of g s1] f by simp
    then show ?thesis using f assms(1) by (auto simp: update_project_def get_project_def scan_project_def g_def Let_def)
  qed
  show ?thesis
  proof (cases "extras inp2")
    case (Pair u ok)
    have "create_project api e nonces s inp =
        (case extras inp2 of (u, False) \<Rightarrow> (s1, Inr (scan_project (pr_project row)))
         | (u, True) \<Rightarrow> (case update_project (\<lambda>n. dn_db e (n + 3)) (dn_now e) s1 (pj_id (scan_project (pr_project row))) u of
               (s2, Inl err) \<Rightarrow> (s2, Inl (Resp 500 ''update_failed'')) | (s2, Inr q) \<Rightarrow> (s2, Inr q)))"
      using assms(2-5) ins unfolding create_project_def inp1_def[symmetric] Let_def by (simp add: inp2_def[symmetric])
    then show ?thesis using up[of u] Pair by (cases ok) auto
  qed
qed

definition sample_api :: api where
  "sample_api =
     \<lparr>ap_user = ''u1'', ap_operator = False, ap_hash = (\<lambda>t. ''#'' @ t), ap_yaml = (\<lambda>d. sp_name d), ap_ci = (\<lambda>g u. u),
      ap_new_ids = (''t'', ''w'', ''p2''), ap_walk = []\<rparr>"

definition sample_create :: create_input where
  "sample_create =
     \<lparr>ci_name = ''blog'', ci_provider = ''github'', ci_repo_full_name = ''acme/blog'', ci_repo_id = ''8'', ci_clone_url = [],
      ci_default_branch = [], ci_server_id = ''s1'', ci_language = ''node'', ci_install_script = [], ci_root_directory = [],
      ci_clone_path = ''/srv/blog'', ci_port = 0, ci_process_manager = ''pm2'', ci_run_as_user = [], ci_env = Map.empty,
      ci_apps = [sample_app ''blog'' []], ci_write_spec = None, ci_spec_from_repo = False, ci_auto_rollback = True,
      ci_on_wave_failure = ''continue'', ci_health_path = ''/up'', ci_health_port = 80, ci_health_timeout_seconds = 5,
      ci_deploy_timeout_seconds = 600, ci_redeploy_on = [''tag''], ci_flow = []\<rparr>"

theorem created_as_asked_witness:
  "\<exists>t p. create_project sample_api (sample_denv ''r9'') (\<lambda>i j. Inl []) failing_pair sample_create = (t, Inr p) \<and>
     as_asked sample_create p \<and> pj_auto_rollback p \<and> pj_health_path p = ''/up''"
proof -
  have "ci_apps (with_paths ok s sample_create) = [sample_app ''blog'' []]" for ok s
    by (simp add: with_paths_def sample_create_def Let_def)
  then have apps: "normalize_create_apps box nonces walk (with_paths ok s sample_create) =
      Inr [(sample_app ''blog'' [])\<lparr>sa_env := []\<rparr>]" for ok s box nonces walk
    by (simp add: normalize_create_apps_def seal_apps_env_def seal_env_def)
  have "find_project failing_pair (snd (snd (ap_new_ids sample_api))) = None"
    by (simp add: sample_api_def failing_pair_def sample_deploys_def find_project_def)
  moreover have "ci_provider sample_create \<noteq> [] \<and> ci_repo_full_name sample_create \<noteq> [] \<and> ci_server_id sample_create \<noteq> []"
    by (simp add: sample_create_def)
  ultimately obtain t p where c: "create_project sample_api (sample_denv ''r9'') (\<lambda>i j. Inl []) failing_pair sample_create = (t, Inr p)"
    using create_project_succeeds[OF sample_denv_works _ _ _ apps] by blast
  have a: "as_asked sample_create p" using created_as_asked[OF sample_denv_works c] by blast
  then have "pj_auto_rollback p = ci_auto_rollback sample_create" "pj_health_path p = ci_health_path sample_create"
    unfolding as_asked_def by blast+
  then have "pj_auto_rollback p" "pj_health_path p = ''/up''" by (simp_all add: sample_create_def)
  then show ?thesis using c a by blast
qed

section \<open>An imported process\<close>

lemma redacted_secrets:
  "list_all (\<lambda>a. list_all ev_sensitive (sa_env a)) as \<Longrightarrow>
   \<forall>vs \<in> set (map (redact_env \<circ> sa_env) as). \<forall>v \<in> set vs. ev_sensitive v \<and> ev_value v = []"
  by (induction as) (auto simp: redact_env_def redact_var_def list_all_iff)

lemma normalize_given:
  "ci_apps inp \<noteq> [] \<Longrightarrow> normalize_create_apps box r walk inp = seal_apps_env box r (ci_apps inp)"
  by (simp add: normalize_create_apps_def)

lemma plain_row_env: "plain_row inp p \<Longrightarrow> pj_env p = ci_env inp \<and> pj_apps p = ci_apps inp"
  unfolding plain_row_def as_asked_def by simp

lemma seal_var_kind: "seal_var box nonce v = Inr w \<Longrightarrow> ev_sensitive w = ev_sensitive v"
  by (auto simp: seal_var_def Let_def split: if_splits option.splits sum.splits)

lemma seal_from_kind: "seal_from i box r vs = Inr ws \<Longrightarrow> list_all ev_sensitive vs \<Longrightarrow> list_all ev_sensitive ws"
  by (induction vs arbitrary: i ws) (auto split: sum.splits dest: seal_var_kind)

lemma seal_apps_kind:
  "seal_apps_from i box r as = Inr bs \<Longrightarrow> list_all (\<lambda>a. list_all ev_sensitive (sa_env a)) as \<Longrightarrow>
   list_all (\<lambda>a. list_all ev_sensitive (sa_env a)) bs"
  by (induction as arbitrary: i bs) (auto split: sum.splits simp: seal_env_def dest: seal_from_kind)

lemma imported_vars_sensitive: "list_all ev_sensitive (env_map_to_vars walk)"
  by (auto simp: env_map_to_vars_def List.map_filter_def list_all_iff Let_def split: if_splits)

text \<open>The variables of an imported process are kept twice: sealed in its app, and in the clear as the
  project's shared variables, which redaction leaves alone; so the response to the import, and every later
  view of the project, shows all of them.\<close>

theorem imported_env_in_the_clear:
  assumes "import_process api e nonces s server (Some inp) = (t, Inr p)"
  shows "pj_env p = ip_env inp \<and> (\<forall>a \<in> set (pj_apps p). \<forall>v \<in> set (sa_env a). ev_sensitive v \<and> ev_value v = [])"
proof -
  define inp1 where "inp1 = inp\<lparr>ip_kind := trim_space (to_lower (ip_kind inp)), ip_name := trim_space (ip_name inp),
    ip_provider := trim_space (to_lower (ip_provider inp)), ip_repo_full_name := trim_space (ip_repo_full_name inp)\<rparr>"
  define create where "create = with_paths (dn_db e 0) s (import_create server inp1 (ap_walk api))"
  have handler: "(case normalize_create_apps (dn_box e) nonces (ap_walk api) create of
        Inl err \<Rightarrow> (s, Inl (Resp 400 ''env_invalid''))
      | Inr apps \<Rightarrow>
          (case insert_project (\<lambda>n. dn_db e (n + 1)) (dn_now e) (ap_hash api) (ap_new_ids api) s
                  (create\<lparr>ci_apps := apps\<rparr>) (ap_user api) of
             (s1, Inl err) \<Rightarrow> (s1, Inl (Resp 500 ''insert_failed''))
           | (s1, Inr p) \<Rightarrow> (s1, Inr (redact_project p)))) = (t, Inr p)"
    using assms unfolding import_process_def option.case Let_def inp1_def[symmetric] create_def[symmetric]
    by (simp split: if_splits)
  obtain apps where apps: "normalize_create_apps (dn_box e) nonces (ap_walk api) create = Inr apps"
    using handler by (simp split: sum.splits)
  obtain p1 where ins: "insert_project (\<lambda>n. dn_db e (n + 1)) (dn_now e) (ap_hash api) (ap_new_ids api) s
      (create\<lparr>ci_apps := apps\<rparr>) (ap_user api) = (t, Inr p1)" and p: "p = redact_project p1"
    using handler apps by (auto split: sum.splits prod.splits)
  have row: "pj_env p1 = ci_env create" "pj_apps p1 = apps"
    using insert_project_ok[OF ins] plain_row_env[of "create\<lparr>ci_apps := apps\<rparr>" p1] by auto
  have c: "ci_env create = ip_env inp" "ci_apps create = ci_apps (import_create server inp1 (ap_walk api))"
    by (simp_all add: create_def with_paths_def import_create_def inp1_def Let_def)
  have "list_all (\<lambda>a. list_all ev_sensitive (sa_env a)) apps"
  proof (rule seal_apps_kind)
    show "list_all (\<lambda>a. list_all ev_sensitive (sa_env a)) (ci_apps create)"
      unfolding c by (simp add: import_create_def imported_vars_sensitive Let_def)
    have "ci_apps create \<noteq> []" unfolding c by (simp add: import_create_def Let_def)
    from apps[unfolded normalize_given[OF this] seal_apps_env_def]
    show "seal_apps_from 0 (dn_box e) nonces (ci_apps create) = Inr apps" .
  qed
  then have "\<forall>vs \<in> set (map sa_env (pj_apps p)). \<forall>v \<in> set vs. ev_sensitive v \<and> ev_value v = []"
    unfolding p redact_project_envs row(2) by (intro redacted_secrets)
  moreover have "pj_env p = ip_env inp"
    using row(1) by (simp add: p redact_project_def c)
  ultimately show ?thesis by simp
qed

text \<open>The import of one process with one variable.\<close>

definition sample_import :: import_input where
  "sample_import =
     \<lparr>ip_kind = ''pm2'', ip_ref = ''0'', ip_name = ''blog'', ip_command = [], ip_cwd = ''/srv/blog'', ip_provider = ''github'',
      ip_repo_full_name = ''acme/blog'', ip_clone_url = ''u'', ip_default_branch = [], ip_language = ''node'',
      ip_env = [''TOKEN'' \<mapsto> ''x''], ip_process_manager = []\<rparr>"

theorem imported_env_in_the_clear_witness:
  "\<exists>t p. import_process (sample_api\<lparr>ap_walk := []\<rparr>) (sample_denv ''r9'') (\<lambda>i j. Inl []) failing_pair ''s1'' (Some sample_import) =
     (t, Inr p) \<and> pj_env p ''TOKEN'' = Some ''x''"
proof -
  let ?api = "sample_api\<lparr>ap_walk := []\<rparr>"
  have "is_ok (snd (import_process ?api (sample_denv ''r9'') (\<lambda>i j. Inl []) failing_pair ''s1'' (Some sample_import)))"
    by code_simp
  then have "\<exists>t p. import_process ?api (sample_denv ''r9'') (\<lambda>i j. Inl []) failing_pair ''s1'' (Some sample_import) = (t, Inr p)"
    unfolding is_ok_iff by (metis prod.collapse)
  then obtain t p where i: "import_process ?api (sample_denv ''r9'') (\<lambda>i j. Inl []) failing_pair ''s1'' (Some sample_import) = (t, Inr p)"
    by blast
  then have "pj_env p = ip_env sample_import" using imported_env_in_the_clear[OF i] by blast
  then have "pj_env p ''TOKEN'' = Some ''x''" by (simp add: sample_import_def)
  then show ?thesis using i by blast
qed

section \<open>Callers without credentials\<close>

text \<open>C17. Without credentials nothing happens: a caller who is no operator and does not hold the project's
  deploy token, and a GitHub or GitLab delivery that does not carry the signature or the token of the
  project it names, leave the tables and what was sent as they were.\<close>

theorem unauthenticated_changes_nothing:
  assumes "\<not> ap_operator api"
    and "\<And>h. token_hash True s i = Inr h \<Longrightarrow> \<not> match_token (ap_hash api) h (bearer_token auth)"
    and "\<And>p secret. get_by_repo True True s ''github'' (hp_repo pl) = Inr (p, secret) \<Longrightarrow>
      \<not> valid_github_signature hmac_hex secret sig raw"
    and "\<And>p secret. get_by_repo True True s ''gitlab'' (hp_repo pl) = Inr (p, secret) \<Longrightarrow> \<not> valid_gitlab_token secret tok"
  shows "fst (create_run api e s i auth body) = s \<and>
    fst (github_webhook hmac_hex e s raw event sig delivery (Some pl)) = s \<and>
    fst (gitlab_webhook e s event tok delivery (Some pl)) = s"
proof (intro conjI)
  have pid: "pj_id p = i" if "get_project ok s i = Inr p" for ok p
    using that by (auto simp: get_project_def scan_project_def split: if_splits option.splits dest: find_project_id)
  have "run_trigger api ok s p auth \<noteq> Inr b" if "pj_id p = i" for ok p b
    using assms(1,2) that by (auto simp: run_trigger_def token_hash_def split: if_splits sum.splits option.splits)
  then show "fst (create_run api e s i auth body) = s"
    using pid by (auto simp: create_run_def split: sum.split)
  have repo: "get_by_repo True True s pv rp = Inr x" if "get_by_repo a b s pv rp = Inr x" for a b pv rp x
    using that by (auto simp: get_by_repo_def lookup_repo_def split: if_splits option.splits)
  show "fst (github_webhook hmac_hex e s raw event sig delivery (Some pl)) = s"
    using assms(3)[OF repo] by (auto simp: github_webhook_def webhook_handler_def split: sum.split store_error.split)
  show "fst (gitlab_webhook e s event tok delivery (Some pl)) = s"
    using assms(4)[OF repo] by (auto simp: gitlab_webhook_def webhook_handler_def split: sum.split store_error.split)
qed

theorem unauthenticated_changes_nothing_witness:
  "fst (create_run sample_api (sample_denv ''r9'') failing_pair ''p1'' ''Bearer x''
      \<lparr>rb_trigger = [], rb_branch = [], rb_commit = [], rb_apps = []\<rparr>) = failing_pair"
proof -
  have h: "token_hash True failing_pair ''p1'' = Inr ''h''"
    by (simp add: token_hash_def find_project_def failing_pair_def sample_deploys_def)
  have "bearer_token ''Bearer x'' = ''x''" by code_simp
  then have m: "\<not> match_token (ap_hash sample_api) ''h'' (bearer_token ''Bearer x'')"
    by (simp add: match_token_def token_ok_def sample_api_def)
  have g: "get_by_repo True True failing_pair ''gitlab'' (hp_repo push_payload) = Inl NotFound"
    by (simp add: get_by_repo_def lookup_repo_def newest_by_def failing_pair_def sample_deploys_def sample_project_def)
  have "\<not> valid_github_signature (\<lambda>k m. ''00'') secret ''bad'' []" for secret
    by (simp add: valid_github_signature_def github_signature_def) code_simp
  then show ?thesis
    using unauthenticated_changes_nothing[of sample_api failing_pair "''p1''" "''Bearer x''" push_payload
        "\<lambda>k m. ''00''" "''bad''" "[]" "[]" "sample_denv ''r9''"
        "\<lparr>rb_trigger = [], rb_branch = [], rb_commit = [], rb_apps = []\<rparr>"] h m g
    by (auto simp: sample_api_def)
qed

text \<open>The check for a deploy in flight can be talked out of: it is skipped for trigger manual, and a
  caller who holds only the deploy token, a CI job, may send that trigger in the body; its run then starts
  beside whatever is running.\<close>

theorem token_caller_skips_checks:
  assumes "db_works e" "dn_run_id e \<notin> run_ids s" "find_project s i = Some row" "\<not> ap_operator api"
    "match_token (ap_hash api) (pr_token_hash row) (bearer_token auth)" "rb_trigger body = ''manual''"
  shows "\<exists>r. ds_runs (fst (create_run api e s i auth body)) = ds_runs s @ [r] \<and> dr_project_id r = i \<and>
    dr_trigger r = ''manual''"
proof -
  define p where "p = scan_project (pr_project row)"
  have pid: "pj_id p = i" using find_project_id[OF assms(3)] by (simp add: p_def scan_project_def)
  have g: "get_project (dn_db e 0) s i = Inr p" using assms(1,3) by (simp add: get_project_def p_def)
  have tr: "run_trigger api (dn_db e 1) s p auth = Inr ''api''"
    using assms pid by (simp add: run_trigger_def token_hash_def)
  define branch where "branch = (if rb_branch body = [] then pj_default_branch p else rb_branch body)"
  have "fst (create_run api e s i auth body) = fst (start_run_db (later_db 4 e) s p ''manual'' branch [] (rb_apps body))"
    unfolding create_run_def g tr sum.case Let_def chosen_trigger_def branch_def
    using assms(6) by (auto split: prod.split sum.split run_error.split)
  moreover obtain r where "ds_runs (fst (start_run_db (later_db 4 e) s p ''manual'' branch [] (rb_apps body))) = ds_runs s @ [r]"
      "started_row (later_db 4 e) p ''manual'' branch [] r"
    using start_run_row[of "later_db 4 e" s p "''manual''" branch "[]" "rb_apps body"] assms(1,2) by auto
  ultimately show ?thesis using pid by (auto simp: started_row_def)
qed

theorem token_caller_skips_checks_witness:
  "\<exists>r. ds_runs (fst (create_run sample_api (sample_denv ''r9'')
      (sample_deploys [] [sample_run ''r1'' ''running'' [] 1] \<lparr>ds_projects := [\<lparr>pr_project = sample_project [],
         pr_webhook_secret = ''w'', pr_token_hash = ''#x''\<rparr>]\<rparr>) ''p1'' ''Bearer x''
      \<lparr>rb_trigger = ''manual'', rb_branch = [], rb_commit = [], rb_apps = []\<rparr>)) =
     [sample_run ''r1'' ''running'' [] 1, r]"
proof -
  let ?s = "sample_deploys [] [sample_run ''r1'' ''running'' [] 1] \<lparr>ds_projects := [\<lparr>pr_project = sample_project [],
         pr_webhook_secret = ''w'', pr_token_hash = ''#x''\<rparr>]\<rparr>"
  have "bearer_token ''Bearer x'' = ''x''" by code_simp
  then have "match_token (ap_hash sample_api) ''#x'' (bearer_token ''Bearer x'')"
    by (simp add: match_token_def token_ok_def sample_api_def)
  moreover have "ds_runs ?s = [sample_run ''r1'' ''running'' [] 1]" by (simp add: sample_deploys_def)
  moreover from this have "dn_run_id (sample_denv ''r9'') \<notin> run_ids ?s" by (simp add: run_ids_def sample_run_def)
  moreover have "find_project ?s ''p1'' = Some \<lparr>pr_project = sample_project [], pr_webhook_secret = ''w'', pr_token_hash = ''#x''\<rparr>"
    by (simp add: find_project_def)
  moreover have "\<not> ap_operator sample_api" by (simp add: sample_api_def)
  ultimately show ?thesis
    using token_caller_skips_checks[of "sample_denv ''r9''" ?s "''p1''" _ sample_api "''Bearer x''"
        "\<lparr>rb_trigger = ''manual'', rb_branch = [], rb_commit = [], rb_apps = []\<rparr>"]
    by auto
qed

end
