(* ===== verification/Dotenv.thy ===== *)
theory Dotenv
  imports Executor Naming "HOL-Library.List_Lexorder" "HOL-Library.Char_ord"
begin

text \<open>
  The environment of deploy scripts on the agent, \<open>agent/internal/deploy\<close>: the .env files it writes
  and reads back (\<open>dotenv.go\<close>), the listen port (\<open>dotenv.go\<close>, \<open>portFrom\<close> of \<open>runapp.go\<close>), and the
  environment of a child process (\<open>asuser.go\<close>). A file system is a map from paths to contents. Where
  the code ranges over a map, \<open>walk\<close> gives the entries in the order of that iteration.
\<close>

abbreviation newline :: char where "newline \<equiv> CHR 0x0A"
abbreviation quote :: char where "quote \<equiv> CHR 0x22"
abbreviation squote :: char where "squote \<equiv> CHR 0x27"
abbreviation backslash :: char where "backslash \<equiv> CHR 0x5C"

section \<open>Reading\<close>

text \<open>\<open>unquoteEnv\<close>\<close>

definition agent_unquote :: "string \<Rightarrow> string" where
  "agent_unquote v =
     (if 2 \<le> length v \<and> hd v = quote \<and> last v = quote
      then replace_all [backslash, backslash] [backslash] (replace_all [backslash, quote] [quote] (butlast (tl v)))
      else if 2 \<le> length v \<and> hd v = squote \<and> last v = squote then butlast (tl v)
      else case str_index v '' #'' of None \<Rightarrow> v | Some i \<Rightarrow> trim_space (take i v))"

definition agent_line :: "string \<Rightarrow> (string \<times> string) option" where
  "agent_line raw =
     (let l0 = trim_right_set raw [CHR 0x0D]; trimmed = trim_space l0
      in if trimmed = [] \<or> has_prefix trimmed ''#'' then None
         else let l = (if has_prefix trimmed ''export '' then trim_space (trim_prefix trimmed ''export '') else l0)
              in (case index_byte l CHR ''='' of
                    None \<Rightarrow> None
                  | Some i \<Rightarrow> let k = trim_space (take i l)
                              in if k = [] then None else Some (k, agent_unquote (trim_space (drop (Suc i) l)))))"

definition agent_parse_dotenv :: "string \<Rightarrow> (string \<rightharpoonup> string)" where
  "agent_parse_dotenv content =
     foldl (\<lambda>m kv. m(fst kv \<mapsto> snd kv)) Map.empty (List.map_filter agent_line (split_char newline content))"

type_synonym file_tree = "string \<rightharpoonup> string"

definition read_dotenv_file :: "file_tree \<Rightarrow> string \<Rightarrow> (string \<rightharpoonup> string)" where
  "read_dotenv_file fs path = (case fs path of None \<Rightarrow> Map.empty | Some c \<Rightarrow> agent_parse_dotenv c)"

fun merge_from :: "file_tree \<Rightarrow> nat \<Rightarrow> string \<Rightarrow> (string \<rightharpoonup> string) \<Rightarrow> (string \<rightharpoonup> string)" where
  "merge_from fs 0 dir env = env"
| "merge_from fs (Suc n) dir env =
     (let env1 = read_dotenv_file fs (path_join [dir, ''.env'']) ++ env; parent = path_dir dir
      in if parent = dir then env1 else merge_from fs n parent env1)"

definition merge_dotenv_around :: "file_tree \<Rightarrow> string \<Rightarrow> (string \<rightharpoonup> string) \<Rightarrow> (string \<rightharpoonup> string)" where
  "merge_dotenv_around fs work env = (if trim_space work = [] then env else merge_from fs 6 work env)"

section \<open>Writing\<close>

definition needs_quotes :: "string \<Rightarrow> bool" where
  "needs_quotes v \<longleftrightarrow>
     list_ex (\<lambda>c. c \<in> {CHR '' '', CHR 0x09, newline, CHR 0x0D, quote, squote, CHR ''#''}) v \<or> CHR ''='' \<in> set v"

definition quote_dotenv :: "string \<Rightarrow> string" where
  "quote_dotenv v =
     (if v = [] then []
      else if needs_quotes v
      then quote # replace_all [quote] [backslash, quote] (replace_all [backslash] [backslash, backslash] v) @ [quote]
      else v)"

definition dotenv_header :: string where
  "dotenv_header = ''# Written by CronCompose deploy '' @ [CHR 0xE2, CHR 0x80, CHR 0x94] @ '' do not edit during a run''"

definition dotenv_entry :: "(string \<rightharpoonup> string) \<Rightarrow> string \<Rightarrow> string" where
  "dotenv_entry env k = k @ CHR ''='' # quote_dotenv (get0 [] env k)"

definition dotenv_text :: "(string \<rightharpoonup> string) \<Rightarrow> string list \<Rightarrow> string" where
  "dotenv_text env ks = dotenv_header @ newline # concat (map (\<lambda>k. dotenv_entry env k @ [newline]) (sort ks))"

text \<open>\<open>writeDotEnvFile\<close> on the entries of a map; \<open>ok\<close> is the outcome of the two calls of the system.\<close>

definition write_dotenv_file :: "bool \<Rightarrow> string \<Rightarrow> (string \<times> string) list \<Rightarrow> file_tree \<Rightarrow> (unit, file_tree) res" where
  "write_dotenv_file ok path walk fs =
     (let ks = filter (\<lambda>k. k \<noteq> []) (map (trim_space \<circ> fst) walk)
      in if ks = [] then Inr fs
         else if ok then Inr (fs(path \<mapsto> dotenv_text (map_of walk) ks)) else Inl ())"

section \<open>Ports\<close>

definition listen_port_aliases :: "string list" where
  "listen_port_aliases = [''PROXY_PORT'', ''HTTP_PORT'', ''APP_PORT'', ''LISTEN_PORT'', ''SERVER_PORT'']"

definition apply_listen_port :: "(string \<rightharpoonup> string) \<Rightarrow> int \<Rightarrow> (string \<rightharpoonup> string)" where
  "apply_listen_port env port =
     (if port \<le> 0 then env
      else let p = itoa port; env1 = env(''PORT'' \<mapsto> p)
           in if env1 ''FRONTEND_PORT'' \<noteq> None \<or> env1 ''BACKEND_PORT'' \<noteq> None then env1
              else foldl (\<lambda>m k. if m k \<noteq> None then m(k \<mapsto> p) else m) env1 listen_port_aliases)"

definition port_from :: "int \<Rightarrow> (string \<rightharpoonup> string) \<Rightarrow> int" where
  "port_from port env =
     (if 0 < port then port
      else case atoi (trim_space (get0 [] env ''PORT'')) of
             None \<Rightarrow> 0
           | Some n \<Rightarrow> if n \<le> 0 \<or> 65535 < n then 0 else n)"

section \<open>The environment of a child process\<close>

text \<open>\<open>strings.Cut(e, "=")\<close>: the key of an entry\<close>

definition entry_key :: "string \<Rightarrow> string option" where
  "entry_key e = map_option (\<lambda>i. take i e) (index_byte e CHR ''='')"

definition strip_env_keys :: "string list \<Rightarrow> string list \<Rightarrow> string list" where
  "strip_env_keys env ks =
     filter (\<lambda>e. case entry_key e of None \<Rightarrow> True | Some k \<Rightarrow> k \<notin> set ks) env"

definition cred_env_keys_dropped :: "string list" where
  "cred_env_keys_dropped =
     [''HOME'', ''USER'', ''LOGNAME'', ''SHELL'', ''GOPATH'', ''GOMODCACHE'', ''GOCACHE'', ''GOTMPDIR'',
      ''TMPDIR'', ''TMP'', ''TEMP'']"

definition env_entry :: "string \<times> string \<Rightarrow> string" where
  "env_entry kv = fst kv @ CHR ''='' # snd kv"

text \<open>\<open>credEnv\<close>: \<open>environ\<close> is the agent's own environment, \<open>extra\<close> the entries of the map in any order.\<close>

definition child_env :: "string list \<Rightarrow> credential option \<Rightarrow> string \<Rightarrow> (string \<times> string) list \<Rightarrow> string list" where
  "child_env environ cred tmp extra =
     (let e1 = (if cred = None then environ
                else strip_env_keys environ cred_env_keys_dropped @ map env_entry (cred_env cred));
          e2 = (if tmp = [] then e1
                else strip_env_keys e1 [''TMPDIR'', ''TMP'', ''TEMP''] @
                     map env_entry [(''TMPDIR'', tmp), (''TMP'', tmp), (''TEMP'', tmp)])
      in if extra = [] then e2 else strip_env_keys e2 (map fst extra) @ map env_entry extra)"

definition path_with_bin_dir :: "(string \<rightharpoonup> string) \<Rightarrow> string \<Rightarrow> string \<Rightarrow> (string \<rightharpoonup> string)" where
  "path_with_bin_dir env agent_path bin =
     (if \<not> rooted bin then env
      else let dir = path_dir bin; base0 = get0 [] env ''PATH'';
               base = (if base0 = [] then agent_path else base0)
           in if base = [] then env(''PATH'' \<mapsto> dir)
              else if base = dir \<or> has_prefix base (dir @ '':'') \<or> dir \<in> set (split_char CHR '':'' base) then env(''PATH'' \<mapsto> base)
              else env(''PATH'' \<mapsto> dir @ CHR '':'' # base))"

definition user_tmp :: "credential option \<Rightarrow> string" where
  "user_tmp cred =
     (case cred of
        None \<Rightarrow> ''/tmp''
      | Some c \<Rightarrow> if cd_username c = [] \<or> cd_username c = ''root'' \<or> cd_home c = [] then ''/tmp''
                  else path_join [cd_home c, ''tmp''])"

definition redact_token :: "string \<Rightarrow> string \<Rightarrow> string" where
  "redact_token s tok = (if tok = [] \<or> s = [] then s else replace_all tok ''***'' s)"

section \<open>What is written reads back\<close>

lemma replace_all_Nil [simp]: "replace_all old new [] = []"
  by (simp add: replace_all.simps)

lemma replace_all_hit: "old \<noteq> [] \<Longrightarrow> replace_all old new (old @ s) = new @ replace_all old new s"
  by (cases old) (simp_all add: replace_all.simps[of _ _ "_ # _"] has_prefix_def)

lemma replace_all_miss:
  "\<not> has_prefix (c # s) old \<Longrightarrow> replace_all old new (c # s) = c # replace_all old new s"
  by (simp add: replace_all.simps[of _ _ "_ # _"])

lemma replace_char: "replace_all [a] new s = concat (map (\<lambda>c. if c = a then new else [c]) s)"
proof (induction s)
  case (Cons c s)
  then show ?case
    using replace_all_hit[of "[a]" new s] replace_all_miss[of c s "[a]" new]
    by (cases "c = a") (simp_all add: has_prefix_def)
qed simp

definition esc_char :: "char \<Rightarrow> string" where
  "esc_char c = (if c = backslash \<or> c = quote then [backslash, c] else [c])"

definition esc_slash :: "char \<Rightarrow> string" where
  "esc_slash c = (if c = backslash then [backslash, c] else [c])"

lemma esc_simps [simp]:
  "esc_char backslash = [backslash, backslash]" "esc_char quote = [backslash, quote]"
  "c \<noteq> backslash \<Longrightarrow> c \<noteq> quote \<Longrightarrow> esc_char c = [c]"
  "esc_slash backslash = [backslash, backslash]" "c \<noteq> backslash \<Longrightarrow> esc_slash c = [c]"
  by (simp_all add: esc_char_def esc_slash_def)

lemma escaped:
  "replace_all [quote] [backslash, quote] (replace_all [backslash] [backslash, backslash] v) = concat (map esc_char v)"
  by (induction v) (auto simp: replace_char esc_char_def)

lemma esc_char_not_quote: "\<not> has_prefix (c # concat (map esc_char v)) [c, quote]"
  by (cases v) (auto simp: has_prefix_def esc_char_def)

lemma unescape_quote: "replace_all [backslash, quote] [quote] (concat (map esc_char v)) = concat (map esc_slash v)"
proof (induction v)
  case (Cons c v)
  let ?r = "concat (map esc_char v)"
  consider "c = backslash" | "c = quote" | "c \<noteq> backslash" "c \<noteq> quote" by blast
  then show ?case
  proof cases
    case 1
    then show ?thesis
      using Cons esc_char_not_quote[of backslash v] by (simp add: replace_all_miss has_prefix_def)
  next
    case 2
    then show ?thesis
      using Cons replace_all_hit[of "[backslash, quote]" "[quote]" ?r] by simp
  next
    case 3
    then show ?thesis using Cons by (simp add: replace_all_miss has_prefix_def)
  qed
qed simp

lemma unescape_slash: "replace_all [backslash, backslash] [backslash] (concat (map esc_slash v)) = v"
proof (induction v)
  case (Cons c v)
  then show ?case
    using replace_all_hit[of "[backslash, backslash]" "[backslash]" "concat (map esc_slash v)"]
    by (cases "c = backslash") (simp_all add: replace_all_miss has_prefix_def)
qed simp

lemma unquote_quoted: "agent_unquote (quote # concat (map esc_char v) @ [quote]) = v"
  by (simp add: agent_unquote_def unescape_quote unescape_slash)

text \<open>The keys and the values a file carries. A value that needs no quotes is written as it is, so it must
  not start or end with a space of Unicode, which the reader trims.\<close>

definition dotenv_key :: "string \<Rightarrow> bool" where
  "dotenv_key k \<longleftrightarrow> k \<noteq> [] \<and> hd k \<noteq> CHR ''#'' \<and> CHR ''='' \<notin> set k \<and> list_all (\<lambda>c. \<not> is_space c) k \<and>
     trim_space k = k"

definition dotenv_value :: "string \<Rightarrow> bool" where
  "dotenv_value v \<longleftrightarrow> newline \<notin> set v \<and> (needs_quotes v \<or> trim_space v = v)"

lemma plain_value:
  assumes "\<not> needs_quotes v" "dotenv_value v"
  shows "trim_space v = v" "quote \<notin> set v" "squote \<notin> set v" "CHR ''#'' \<notin> set v" "CHR 0x0D \<notin> set v"
  using assms by (auto simp: needs_quotes_def dotenv_value_def list_ex_iff)

lemma no_index: "CHR ''#'' \<notin> set v \<Longrightarrow> str_index v '' #'' = None"
proof (induction v)
  case (Cons c v)
  then show ?case by (cases v) (auto simp: str_index.simps[of "c # _"] has_prefix_def)
qed (simp add: str_index.simps has_prefix_def)

lemma unquote_written:
  assumes "dotenv_value v"
  shows "agent_unquote (trim_space (quote_dotenv v)) = v"
proof -
  consider "v = []" | "v \<noteq> []" "needs_quotes v" | "v \<noteq> []" "\<not> needs_quotes v" by blast
  then show ?thesis
  proof cases
    case 1
    then show ?thesis by (simp add: quote_dotenv_def agent_unquote_def no_index)
  next
    case 2
    let ?q = "quote # concat (map esc_char v) @ [quote]"
    have "trim_space ?q = ?q" by (rule trim_space_edges) (simp add: plain_char_def is_space_def)
    then show ?thesis using 2 by (simp add: quote_dotenv_def escaped unquote_quoted)
  next
    case 3
    note p = plain_value[OF 3(2) assms]
    have "hd v \<noteq> quote" "hd v \<noteq> squote" using p(2,3) 3(1) hd_in_set by metis+
    then show ?thesis
      using 3 p(1) no_index[OF p(4)] by (simp add: quote_dotenv_def agent_unquote_def)
  qed
qed

lemma written_last:
  assumes "dotenv_value v"
  shows "last (k @ CHR ''='' # quote_dotenv v) \<noteq> CHR 0x0D"
proof -
  consider "v = []" | "needs_quotes v" "v \<noteq> []" | "v \<noteq> []" "\<not> needs_quotes v" by blast
  then show ?thesis
  proof cases
    case 3
    have "last v \<in> set v" using 3(1) by simp
    then have "last v \<noteq> CHR 0x0D" using plain_value(5)[OF 3(2) assms] by metis
    then show ?thesis using 3 by (simp add: quote_dotenv_def)
  qed (simp_all add: quote_dotenv_def)
qed

lemma not_export:
  assumes "CHR '' '' \<notin> set k"
  shows "\<not> has_prefix (k @ CHR ''='' # r) ''export ''"
proof
  assume "has_prefix (k @ CHR ''='' # r) ''export ''"
  then obtain t where t: "k @ CHR ''='' # r = ''export '' @ t" by (auto simp: has_prefix_iff)
  let ?P = "\<lambda>c. c \<noteq> CHR ''=''"
  have "CHR '' '' \<in> set (takeWhile ?P (''export '' @ t))" by simp
  moreover have "set (takeWhile ?P (k @ CHR ''='' # r)) \<subseteq> set k"
    by (induction k) auto
  ultimately show False using assms t by auto
qed

lemma agent_line_entry:
  assumes k: "dotenv_key k" and v: "dotenv_value v"
  shows "agent_line (k @ CHR ''='' # quote_dotenv v) = Some (k, v)"
proof -
  define l where "l = k @ CHR ''='' # quote_dotenv v"
  obtain a k' where ka: "k = a # k'" using k by (cases k) (auto simp: dotenv_key_def)
  have a: "a \<noteq> CHR ''#''" and tk: "trim_space k = k" using k ka by (auto simp: dotenv_key_def)
  have l: "l \<noteq> []" by (simp add: l_def)
  have cr: "trim_right_set l [CHR 0x0D] = l"
    using l written_last[OF v, of k, folded l_def]
    by (cases l rule: rev_cases) (simp_all add: trim_right_set_def trim_right_if_def)
  have "space_at wide_spaces l = 0" unfolding l_def
    by (rule space_at_join[OF wide_bytes])
      (use ka tk in \<open>auto simp: unspaced_iff[symmetric] unspaced_def plain_char_def is_space_def\<close>)
  then obtain n where n: "trim_space l = take n l"
    using strip_space_end[of "map rev wide_spaces" l] by (auto simp: trim_space_def strip_space_id)
  have "CHR ''='' \<in> set (trim_space l)" by (rule trim_space_keeps) (simp_all add: l_def plain_char_def is_space_def)
  then have tn: "trim_space l \<noteq> []" by auto
  have pre: "has_prefix (trim_space l) p \<Longrightarrow> has_prefix l p" for p
    unfolding n by (auto simp: has_prefix_iff) (metis append_assoc append_take_drop_id)
  have hp: "\<not> has_prefix (trim_space l) ''#''" using pre[of "''#''"] a by (auto simp: l_def ka has_prefix_def)
  have sp: "CHR '' '' \<notin> set k" using k by (auto simp: dotenv_key_def list_all_iff is_space_def)
  have ex: "\<not> has_prefix (trim_space l) ''export ''"
    using pre[of "''export ''"] not_export[OF sp, of "quote_dotenv v", folded l_def] by blast
  have ix: "index_byte l CHR ''='' = Some (length k)"
    unfolding l_def by (rule index_byte_append) (use k in \<open>simp add: dotenv_key_def\<close>)
  have "take (length k) l = k" "drop (Suc (length k)) l = quote_dotenv v" by (simp_all add: l_def)
  then have "agent_line l = Some (k, v)"
    using ka tk unquote_written[OF v] by (simp add: agent_line_def Let_def cr tn hp ex ix)
  then show ?thesis by (simp only: l_def)
qed

lemma split_lines:
  "(\<And>e. e \<in> set es \<Longrightarrow> newline \<notin> set e) \<Longrightarrow>
   split_char newline (concat (map (\<lambda>e. e @ [newline]) es)) = es @ [[]]"
  by (induction es) (auto simp: split_char_append)

lemma newline_in_quoted: "newline \<notin> set v \<Longrightarrow> newline \<notin> set (quote_dotenv v)"
  by (auto simp: quote_dotenv_def escaped esc_char_def)

lemma header_line: "newline \<notin> set dotenv_header" "agent_line dotenv_header = None" "agent_line [] = None"
  by code_simp+

lemma map_filter_entries:
  assumes "\<And>k. k \<in> set ks \<Longrightarrow> dotenv_key k \<and> dotenv_value (get0 [] env k)"
  shows "List.map_filter agent_line (map (dotenv_entry env) ks @ [[]]) = map (\<lambda>k. (k, get0 [] env k)) ks"
  using assms
  by (induction ks) (simp_all add: map_filter_simps header_line(3) agent_line_entry dotenv_entry_def)

lemma foldl_updates:
  "foldl (\<lambda>m kv. m(fst kv \<mapsto> snd kv)) m (map (\<lambda>k. (k, f k)) ks) =
   (\<lambda>k. if k \<in> set ks then Some (f k) else m k)"
  by (induction ks arbitrary: m) (auto simp: fun_eq_iff)

lemma parse_text:
  assumes "\<And>k. k \<in> set ks \<Longrightarrow> dotenv_key k \<and> dotenv_value (get0 [] env k)"
  shows "agent_parse_dotenv (dotenv_text env ks) = (\<lambda>k. if k \<in> set ks then Some (get0 [] env k) else None)"
proof -
  have n: "newline \<notin> set e" if e: "e \<in> set (map (dotenv_entry env) (sort ks))" for e
  proof -
    obtain k where k: "k \<in> set ks" "e = dotenv_entry env k" using e unfolding set_map set_sort by blast
    have "newline \<notin> set k" "newline \<notin> set (get0 [] env k)"
      using assms[OF k(1)] by (auto simp: dotenv_key_def dotenv_value_def list_all_iff is_space_def)
    then show ?thesis using newline_in_quoted by (simp add: k(2) dotenv_entry_def)
  qed
  let ?es = "map (dotenv_entry env) (sort ks)"
  have "map (\<lambda>k. dotenv_entry env k @ [newline]) (sort ks) = map (\<lambda>e. e @ [newline]) ?es" by simp
  then have t: "dotenv_text env ks = dotenv_header @ newline # concat (map (\<lambda>e. e @ [newline]) ?es)"
    by (simp only: dotenv_text_def)
  have "split_char newline (dotenv_text env ks) = dotenv_header # ?es @ [[]]"
    unfolding t split_char_append[OF header_line(1)] using n by (subst split_lines) simp_all
  moreover have "List.map_filter agent_line (map (dotenv_entry env) (sort ks) @ [[]]) =
                 map (\<lambda>k. (k, get0 [] env k)) (sort ks)"
    by (rule map_filter_entries) (use assms in simp)
  ultimately show ?thesis
    by (simp add: agent_parse_dotenv_def map_filter_simps(1) header_line(2) foldl_updates)
qed

lemma path_self_update: "(fs(path \<mapsto> c)) path = Some c"
  by simp

lemma written_reads_back:
  assumes "walk \<noteq> []" and "distinct (map fst walk)"
    and "\<forall>kv \<in> set walk. dotenv_key (fst kv) \<and> dotenv_value (snd kv)"
  shows "\<exists>fs'. write_dotenv_file True path walk fs = Inr fs' \<and> read_dotenv_file fs' path = map_of walk"
proof -
  let ?ks = "map fst walk"
  have key: "trim_space k = k \<and> k \<noteq> []" if "k \<in> set ?ks" for k
    using that assms(3) by (auto simp: dotenv_key_def)
  have ks: "filter (\<lambda>k. k \<noteq> []) (map (trim_space \<circ> fst) walk) = ?ks"
    using key by (induction walk) auto
  have val: "get0 [] (map_of walk) (fst kv) = snd kv" if "kv \<in> set walk" for kv
    using map_of_is_SomeI[OF assms(2), of "fst kv" "snd kv"] that by (simp add: get0_def)
  have "agent_parse_dotenv (dotenv_text (map_of walk) ?ks) =
        (\<lambda>k. if k \<in> set ?ks then Some (get0 [] (map_of walk) k) else None)"
    by (rule parse_text) (use assms(3) val in auto)
  also have "\<dots> = map_of walk"
  proof
    fix k
    show "(if k \<in> set ?ks then Some (get0 [] (map_of walk) k) else None) = map_of walk k"
      using map_of_eq_None_iff[of walk k] by (cases "map_of walk k") (simp_all add: get0_def)
  qed
  finally show ?thesis
    using assms(1) ks by (simp add: write_dotenv_file_def Let_def read_dotenv_file_def)
qed


definition sample_env :: "(string \<times> string) list" where
  "sample_env = [(''PORT'', ''80''), (''MSG'', ''a = 1 # not a comment''), (''Q'', [quote, backslash, squote])]"


text \<open>A value that starts with U+00A0 and has nothing to quote comes back without it.\<close>

lemma wide_space_lost:
  "read_dotenv_file (\<lambda>p. Some (''K='' @ quote_dotenv [CHR 0xC2, CHR 0xA0, CHR ''v''])) ''p'' ''K'' = Some ''v''"
  by code_simp

section \<open>Facts\<close>

text \<open>Writing an empty environment leaves the file as it was: when the last variable of a project is
  deleted, the project's base .env still holds it, and the scripts of the next release, which look for
  .env files in the directories above them, still see it.\<close>

theorem deleted_variable_survives:
  assumes "dotenv_key k" and "dotenv_value v"
  shows "\<exists>fs. write_dotenv_file True ''/srv/app/.env'' [(k, v)] Map.empty = Inr fs \<and>
              write_dotenv_file True ''/srv/app/.env'' [] fs = Inr fs \<and>
              merge_dotenv_around fs ''/srv/app/releases/r2'' Map.empty k = Some v"
proof -
  obtain fs where fs: "write_dotenv_file True ''/srv/app/.env'' [(k, v)] Map.empty = Inr fs"
    and rd: "read_dotenv_file fs ''/srv/app/.env'' = [k \<mapsto> v]"
    using written_reads_back[of "[(k, v)]" "''/srv/app/.env''" Map.empty] assms by auto
  have only: "fs p = None" if "p \<noteq> ''/srv/app/.env''" for p
    using fs that by (auto simp: write_dotenv_file_def Let_def split: if_splits)
  have none: "read_dotenv_file fs p = Map.empty" if "p \<noteq> ''/srv/app/.env''" for p
    using only[OF that] by (simp add: read_dotenv_file_def)
  have p: "path_join [''/srv/app/releases/r2'', ''.env''] = ''/srv/app/releases/r2/.env''"
    "path_join [''/srv/app/releases'', ''.env''] = ''/srv/app/releases/.env''"
    "path_join [''/srv/app'', ''.env''] = ''/srv/app/.env''"
    "path_join [''/srv'', ''.env''] = ''/srv/.env''" "path_join [''/'', ''.env''] = ''/.env''"
    by code_simp+
  have d: "path_dir ''/srv/app/releases/r2'' = ''/srv/app/releases''" "path_dir ''/srv/app/releases'' = ''/srv/app''"
    "path_dir ''/srv/app'' = ''/srv''" "path_dir ''/srv'' = ''/''" "path_dir ''/'' = ''/''"
    by code_simp+
  have "trim_space ''/srv/app/releases/r2'' \<noteq> []" by code_simp
  then have "merge_dotenv_around fs ''/srv/app/releases/r2'' Map.empty = [k \<mapsto> v]"
    by (simp add: merge_dotenv_around_def eval_nat_numeral Let_def p d rd none)
  then show ?thesis using fs by (simp add: write_dotenv_file_def)
qed

theorem deleted_variable_survives_witness:
  "\<exists>fs. write_dotenv_file True ''/srv/app/.env'' [(''KEY'', ''old secret'')] Map.empty = Inr fs \<and>
        write_dotenv_file True ''/srv/app/.env'' [] fs = Inr fs \<and>
        merge_dotenv_around fs ''/srv/app/releases/r2'' Map.empty ''KEY'' = Some ''old secret''"
  by (rule deleted_variable_survives) code_simp+

text \<open>A value with a line break does not survive, and its second line defines a variable of its own.\<close>

theorem line_break_defines_variable:
  "agent_parse_dotenv (dotenv_text [''MOTD'' \<mapsto> ''hi'' @ newline # ''PATH=/tmp''] [''MOTD'']) ''PATH'' \<noteq> None \<and>
   agent_parse_dotenv (dotenv_text [''MOTD'' \<mapsto> ''hi'' @ newline # ''PATH=/tmp''] [''MOTD'']) ''MOTD'' \<noteq>
     Some (''hi'' @ newline # ''PATH=/tmp'')"
  by code_simp

lemma entry_key_entry: "CHR ''='' \<notin> set k \<Longrightarrow> entry_key (env_entry (k, v)) = Some k"
  by (simp add: entry_key_def env_entry_def index_byte_append)

lemma strip_env_none:
  "k \<in> set ks \<Longrightarrow> filter (\<lambda>e. entry_key e = Some k) (strip_env_keys env ks) = []"
  by (auto simp: strip_env_keys_def filter_empty_conv split: option.splits)

lemma entries_with_key:
  "(\<And>kv. kv \<in> set extra \<Longrightarrow> CHR ''='' \<notin> set (fst kv)) \<Longrightarrow> distinct (map fst extra) \<Longrightarrow> (k, v) \<in> set extra \<Longrightarrow>
   filter (\<lambda>e. entry_key e = Some k) (map env_entry extra) = [env_entry (k, v)]"
proof (induction extra)
  case (Cons a extra)
  have e: "entry_key (env_entry kv) = Some (fst kv)" if "kv \<in> set (a # extra)" for kv
    using entry_key_entry[of "fst kv" "snd kv"] Cons.prems(1)[OF that] by simp
  show ?case
  proof (cases "fst a = k")
    case True
    have "a = (k, v)" using Cons.prems(2,3) True by (cases a) (force simp: image_iff)
    moreover have "k \<notin> fst ` set extra" using Cons.prems(2) True by simp
    then have "filter (\<lambda>e. entry_key e = Some k) (map env_entry extra) = []"
      using e by (force simp: filter_empty_conv)
    ultimately show ?thesis using e[of a] by simp
  next
    case False
    then show ?thesis using Cons e[of a] by auto
  qed
qed simp

text \<open>In the environment of a deploy script each variable of the deploy occurs exactly once, with the
  value the deploy gives it, whatever the agent's own environment and the account's defaults say: no
  stale duplicate is left for \<open>getenv\<close> to find first.\<close>

theorem deploy_variable_once:
  assumes "distinct (map fst extra)" and "\<forall>kv \<in> set extra. CHR ''='' \<notin> set (fst kv)" and "(k, v) \<in> set extra"
  shows "filter (\<lambda>e. entry_key e = Some k) (child_env environ cred tmp extra) = [env_entry (k, v)]"
proof -
  have ne: "extra \<noteq> []" and k: "k \<in> set (map fst extra)" using assms(3) by force+
  have "filter (\<lambda>e. entry_key e = Some k) (map env_entry extra) = [env_entry (k, v)]"
    by (rule entries_with_key) (use assms in auto)
  then show ?thesis using ne strip_env_none[OF k] by (simp add: child_env_def Let_def)
qed

theorem deploy_variable_once_witness:
  "filter (\<lambda>e. entry_key e = Some ''PORT'')
     (child_env [''PORT=1'', ''PATH=/bin'', ''HOME=/root''] None ''/tmp'' [(''PORT'', ''80'')]) = [''PORT=80'']"
  using deploy_variable_once[of "[(''PORT'', ''80'')]" "''PORT''" "''80''" "[''PORT=1'', ''PATH=/bin'', ''HOME=/root'']" None "''/tmp''"]
  by (simp add: env_entry_def)

end
