(* ===== verification/Releases.thy ===== *)
theory Releases
  imports Dotenv
begin

text \<open>
  The release layout of a deployed project on the agent, \<open>agent/internal/deploy/release.go\<close>: one
  directory per deploy under releases/, each with the commit it holds in a marker file, and the link
  current that says which of them is served. A release directory is its name; the state is the list of
  the directories under releases/ and the name the link points to. The outcomes of system calls that
  fail other than by a missing file are parameters where the code reports them.
\<close>

section \<open>Names\<close>

text \<open>\<open>releaseName\<close>: \<open>stamp\<close> is the time formatted as 20060102T150405Z.\<close>

definition release_name :: "string \<Rightarrow> string \<Rightarrow> string" where
  "release_name stamp sha =
     stamp @ ''-'' @ (let short = (if 7 < length sha then take 7 sha else sha)
                      in if short = [] then ''unknown'' else short)"

text \<open>\<open>sanitizeSegment\<close> on valid UTF-8: every character that is not allowed becomes a hyphen, so the
  continuation bytes of a longer one vanish.\<close>

definition segment_char :: "char \<Rightarrow> bool" where
  "segment_char c \<longleftrightarrow> is_lower c \<or> is_upper c \<or> is_digit c \<or> c \<in> {CHR ''-'', CHR ''_''}"

definition continuation_byte :: "char \<Rightarrow> bool" where
  "continuation_byte c \<longleftrightarrow> 128 \<le> (of_char c :: nat) \<and> (of_char c :: nat) < 192"

definition sanitize_segment :: "string \<Rightarrow> string" where
  "sanitize_segment s =
     (let t = map (\<lambda>c. if segment_char c then c else CHR ''-'') (filter (\<lambda>c. \<not> continuation_byte c) s)
      in if t = [] then ''run'' else t)"

definition tmp_dir_pattern :: string where
  "tmp_dir_pattern = ''.incoming-''"

section \<open>The layout\<close>

record release =
  rl_name :: string
  rl_marker :: "string option"

record layout =
  ly_releases :: "release list"
  ly_current :: "string option"

definition release_names :: "layout \<Rightarrow> string list" where
  "release_names l = map rl_name (ly_releases l)"

text \<open>\<open>Prepare\<close>: the directory is removed and made anew.\<close>

definition prepare_release :: "layout \<Rightarrow> string \<Rightarrow> layout \<times> string" where
  "prepare_release l run_id =
     (let dir = tmp_dir_pattern @ sanitize_segment run_id
      in (l\<lparr>ly_releases := filter (\<lambda>r. rl_name r \<noteq> dir) (ly_releases l) @ [\<lparr>rl_name = dir, rl_marker = None\<rparr>]\<rparr>,
          dir))"

text \<open>The loop of \<open>Promote\<close>; \<open>now i\<close> is the clock at its \<open>i\<close>-th reading, None that the fuel is used up.\<close>

fun promote_dest :: "(nat \<Rightarrow> string) \<Rightarrow> string \<Rightarrow> string list \<Rightarrow> nat \<Rightarrow> nat \<Rightarrow> string \<Rightarrow> string option" where
  "promote_dest now sha names 0 i dest = None"
| "promote_dest now sha names (Suc n) i dest =
     (if dest \<notin> set names then Some dest
      else promote_dest now sha names n (Suc i) (release_name (now i) sha @ ''.'' @ itoa (int i)))"

definition write_marker :: "string \<Rightarrow> release \<Rightarrow> release" where
  "write_marker sha r = (if sha = [] then r else r\<lparr>rl_marker := Some (sha @ [newline])\<rparr>)"

definition promote_release :: "(nat \<Rightarrow> string) \<Rightarrow> string \<Rightarrow> string \<Rightarrow> layout \<Rightarrow> (layout \<times> string) option" where
  "promote_release now tmp sha l =
     map_option (\<lambda>dest.
        (l\<lparr>ly_releases := map (\<lambda>r. if rl_name r = tmp then write_marker sha (r\<lparr>rl_name := dest\<rparr>) else r) (ly_releases l)\<rparr>,
         dest))
       (promote_dest now sha (release_names l) (length (ly_releases l) + 2) 1 (release_name (now 0) sha))"

text \<open>\<open>Swap\<close> and \<open>CurrentRelease\<close>: a link to a directory that is gone counts as none.\<close>

definition swap_release :: "layout \<Rightarrow> string \<Rightarrow> layout" where
  "swap_release l dir = l\<lparr>ly_current := Some dir\<rparr>"

definition current_release :: "layout \<Rightarrow> string option" where
  "current_release l =
     (case ly_current l of None \<Rightarrow> None | Some d \<Rightarrow> if d \<in> set (release_names l) then Some d else None)"

definition read_marker :: "release \<Rightarrow> string" where
  "read_marker r = (case rl_marker r of None \<Rightarrow> [] | Some s \<Rightarrow> trim_space s)"

text \<open>The finished releases, newest first.\<close>

definition newest_first :: "layout \<Rightarrow> string list" where
  "newest_first l = rev (sort (filter (\<lambda>n. \<not> has_prefix n tmp_dir_pattern) (release_names l)))"

definition marker_of :: "layout \<Rightarrow> string \<Rightarrow> string" where
  "marker_of l n = (case find (\<lambda>r. rl_name r = n) (ly_releases l) of None \<Rightarrow> [] | Some r \<Rightarrow> read_marker r)"

definition find_release :: "layout \<Rightarrow> string \<Rightarrow> string option" where
  "find_release l sha =
     (if sha = [] then None else find (\<lambda>n. marker_of l n = sha) (newest_first l))"

text \<open>\<open>Prune\<close>: \<open>gone n\<close> says whether removing the directory \<open>n\<close> works.\<close>

definition keep_releases :: nat where
  "keep_releases = 5"

definition prunable :: "layout \<Rightarrow> string list" where
  "prunable l =
     (if length (newest_first l) \<le> keep_releases then []
      else filter (\<lambda>n. Some n \<noteq> current_release l) (drop keep_releases (newest_first l)))"

definition prune_releases :: "(string \<Rightarrow> bool) \<Rightarrow> layout \<Rightarrow> layout \<times> string list" where
  "prune_releases gone l =
     (let removed = filter gone (prunable l)
      in (l\<lparr>ly_releases := filter (\<lambda>r. rl_name r \<notin> set removed) (ly_releases l)\<rparr>, removed))"

section \<open>Names differ\<close>

lemma digit_char_inj: "a < 10 \<Longrightarrow> b < 10 \<Longrightarrow> digit_char a = digit_char b \<Longrightarrow> a = b"
proof -
  assume a: "a < 10" "b < 10" "digit_char a = digit_char b"
  then have "(of_char (digit_char a) :: nat) = of_char (digit_char b)" by simp
  with a(1,2) show "a = b" by (simp add: digit_char_def)
qed

lemma nat_str_inj: "nat_str a = nat_str b \<Longrightarrow> a = b"
proof (induction a arbitrary: b rule: nat_str.induct)
  case (1 n)
  have u: "nat_str k = (if k < 10 then [] else nat_str (k div 10)) @ [digit_char (k mod 10)]" for k
    by (subst nat_str.simps) simp
  have last: "digit_char (n mod 10) = digit_char (b mod 10)"
    and rest: "(if n < 10 then [] else nat_str (n div 10)) = (if b < 10 then [] else nat_str (b div 10))"
    using 1(2) u[of n] u[of b] by simp_all
  have m: "n mod 10 = b mod 10" using digit_char_inj[OF _ _ last] by simp
  show ?case
  proof (cases "n < 10")
    case True
    then have "b < 10" using rest nat_str_nonempty by metis
    then show ?thesis using m True by simp
  next
    case False
    then have b: "\<not> b < 10" using rest by (auto split: if_splits)
    then have "n div 10 = b div 10" using 1(1)[OF False] rest False by simp
    then show ?thesis using m div_mult_mod_eq[of n 10] div_mult_mod_eq[of b 10] by metis
  qed
qed

lemma itoa_inj: "itoa (int a) = itoa (int b) \<Longrightarrow> a = b"
  by (simp add: itoa_def nat_str_inj)

lemma itoa_no_dot: "CHR ''.'' \<notin> set (itoa (int a))"
  using nat_str_digits[of "CHR ''.''" a] by (auto simp: itoa_def is_digit_def)

lemma suffix_eq: "c \<notin> set a \<Longrightarrow> c \<notin> set b \<Longrightarrow> x @ c # a = y @ c # b \<Longrightarrow> a = b"
proof -
  assume a: "c \<notin> set a" "c \<notin> set b" "x @ c # a = y @ c # b"
  have t: "takeWhile (\<lambda>z. z \<noteq> c) (rev (x @ c # r)) = rev r" if "c \<notin> set r" for x r
    using that by (simp add: takeWhile_append takeWhile_eq_all_conv)
  show "a = b" using t[OF a(1), of x] t[OF a(2), of y] a(3) by simp
qed

definition retry_name :: "(nat \<Rightarrow> string) \<Rightarrow> string \<Rightarrow> nat \<Rightarrow> string" where
  "retry_name now sha i = release_name (now i) sha @ ''.'' @ itoa (int i)"

lemma retry_name_inj: "retry_name now sha i = retry_name now sha j \<Longrightarrow> i = j"
proof (rule itoa_inj, rule suffix_eq[OF itoa_no_dot itoa_no_dot])
  assume "retry_name now sha i = retry_name now sha j"
  then show "release_name (now i) sha @ CHR ''.'' # itoa (int i) = release_name (now j) sha @ CHR ''.'' # itoa (int j)"
    by (simp add: retry_name_def)
qed

lemma promote_dest_None:
  "promote_dest now sha names (Suc n) i dest = None \<Longrightarrow>
   dest \<in> set names \<and> retry_name now sha ` {i ..< i + n} \<subseteq> set names"
proof (induction n arbitrary: i dest)
  case (Suc n)
  have d: "dest \<in> set names"
    and r: "promote_dest now sha names (Suc n) (Suc i) (retry_name now sha i) = None"
    using Suc.prems by (auto simp: retry_name_def split: if_splits)
  have "{i ..< i + Suc n} = insert i {Suc i ..< Suc i + n}" by auto
  then show ?case using Suc.IH[OF r] d by auto
qed (auto split: if_splits)

lemma promote_dest_fresh: "promote_dest now sha names n i dest = Some d \<Longrightarrow> d \<notin> set names"
  by (induction n arbitrary: i dest) (auto split: if_splits)

lemma promote_dest_returns: "\<exists>d. promote_dest now sha names (length names + 2) i dest = Some d"
proof (rule ccontr)
  let ?I = "{i ..< i + Suc (length names)}"
  assume "\<not> ?thesis"
  then have "promote_dest now sha names (Suc (Suc (length names))) i dest = None" by simp
  then have "retry_name now sha ` ?I \<subseteq> set names" using promote_dest_None by blast
  then have "card (retry_name now sha ` ?I) \<le> card (set names)" by (rule card_mono[OF finite_set])
  also have "\<dots> \<le> length names" by (rule card_length)
  finally have "card (retry_name now sha ` ?I) \<le> length names" .
  moreover have "card (retry_name now sha ` ?I) = Suc (length names)"
    by (subst card_image[OF inj_onI[OF retry_name_inj]]) simp_all
  ultimately show False by simp
qed

lemma promote_release_returns: "\<exists>l' dest. promote_release now tmp sha l = Some (l', dest)"
  using promote_dest_returns[of now sha "release_names l"]
  by (auto simp: promote_release_def release_names_def simp del: promote_dest.simps)

text \<open>Giving a prepared release its final name always succeeds, after at most as many tries as there
  are directories and two more, and never reuses a name: every other release, among them the one being
  served, stays as it is, and so does the link.\<close>

theorem promote_takes_fresh_name:
  "\<exists>l' dest. promote_release now tmp sha l = Some (l', dest) \<and> dest \<notin> set (release_names l) \<and>
     {r \<in> set (ly_releases l). rl_name r \<noteq> tmp} \<subseteq> set (ly_releases l') \<and> ly_current l' = ly_current l"
proof -
  obtain d where d: "promote_dest now sha (release_names l) (length (ly_releases l) + 2) 1 (release_name (now 0) sha) = Some d"
    using promote_dest_returns[of now sha "release_names l"] by (auto simp: release_names_def)
  then have f: "d \<notin> set (release_names l)" by (rule promote_dest_fresh)
  let ?m = "\<lambda>r. if rl_name r = tmp then write_marker sha (r\<lparr>rl_name := d\<rparr>) else r"
  have "promote_release now tmp sha l = Some (l\<lparr>ly_releases := map ?m (ly_releases l)\<rparr>, d)"
    by (simp only: promote_release_def d option.map)
  moreover have "{r \<in> set (ly_releases l). rl_name r \<noteq> tmp} \<subseteq> set (map ?m (ly_releases l))"
    by (auto intro: rev_image_eqI)
  ultimately show ?thesis using f by simp
qed

section \<open>Pruning\<close>

lemma newest_first_names: "n \<in> set (newest_first l) \<Longrightarrow> n \<in> set (release_names l)"
  by (auto simp: newest_first_def)

lemma pruned_names: "release_names (fst (prune_releases gone l)) =
    filter (\<lambda>n. n \<notin> set (snd (prune_releases gone l))) (release_names l)"
  by (simp add: prune_releases_def Let_def release_names_def filter_map o_def)

lemma pruned_newest: "newest_first (fst (prune_releases gone l)) =
    filter (\<lambda>n. n \<notin> set (snd (prune_releases gone l))) (newest_first l)"
proof -
  have "filter P (rev (sort xs)) = rev (sort (filter P xs))" for P and xs :: "string list"
    by (simp add: rev_filter[symmetric] filter_sort)
  then show ?thesis by (simp add: newest_first_def pruned_names conj_commute)
qed

lemma prunable_old: "set (prunable l) \<subseteq> set (drop keep_releases (newest_first l))"
  by (auto simp: prunable_def)

lemma pruned_live: "d \<in> set (snd (prune_releases gone l)) \<Longrightarrow> Some d \<noteq> current_release l"
  by (auto simp: prune_releases_def Let_def prunable_def split: if_splits)

lemma length_le_one: "distinct xs \<Longrightarrow> (\<And>x. x \<in> set xs \<Longrightarrow> x = a) \<Longrightarrow> length xs \<le> 1"
  by (cases xs rule: remdups_adj.cases) auto

lemma length_filter_disj:
  "length (filter (\<lambda>x. P x \<or> Q x) xs) \<le> length (filter P xs) + length (filter Q xs)"
  by (induction xs) auto

lemma old_left:
  assumes "distinct xs"
  shows "length (filter (\<lambda>n. n \<notin> set (filter gone (filter (\<lambda>n. Some n \<noteq> live) xs))) xs) \<le>
         1 + length (filter (\<lambda>n. \<not> gone n) (filter (\<lambda>n. Some n \<noteq> live) xs))"
proof -
  let ?A = "filter (\<lambda>n. Some n = live) xs" and ?B = "filter (\<lambda>n. Some n \<noteq> live \<and> \<not> gone n) xs"
  have "filter (\<lambda>n. n \<notin> set (filter gone (filter (\<lambda>n. Some n \<noteq> live) xs))) xs =
        filter (\<lambda>n. Some n = live \<or> (Some n \<noteq> live \<and> \<not> gone n)) xs"
    by (rule filter_cong) auto
  moreover have "length ?A \<le> 1"
    using assms by (intro length_le_one[of _ "the live"]) (auto dest: sym)
  ultimately show ?thesis
    using length_filter_disj[of "\<lambda>n. Some n = live" "\<lambda>n. Some n \<noteq> live \<and> \<not> gone n" xs]
    by (simp add: conj_commute)
qed

text \<open>C30. Pruning never removes the release being served, one of the five newest or an incoming one, and
  leaves at most six releases, besides those whose removal fails.\<close>

theorem prune_keeps_live_and_newest:
  assumes "distinct (release_names l)"
  shows "current_release (fst (prune_releases gone l)) = current_release l \<and>
     take 5 (newest_first (fst (prune_releases gone l))) = take 5 (newest_first l) \<and>
     {n \<in> set (release_names l). has_prefix n tmp_dir_pattern} \<subseteq> set (release_names (fst (prune_releases gone l))) \<and>
     length (newest_first (fst (prune_releases gone l))) \<le> 6 + length (filter (\<lambda>n. \<not> gone n) (prunable l))"
proof -
  define N where "N = newest_first l"
  define R where "R = snd (prune_releases gone l)"
  have d: "distinct N" using assms by (simp add: N_def newest_first_def)
  have RN: "set R \<subseteq> set (drop keep_releases N)"
    using prunable_old[of l] by (auto simp: R_def N_def prune_releases_def Let_def)
  have "set (take 5 N) \<inter> set (drop 5 N) = {}" using d set_take_disj_set_drop_if_distinct by blast
  then have tk: "filter (\<lambda>n. n \<notin> set R) (take 5 N) = take 5 N"
    using RN by (auto simp: keep_releases_def intro!: filter_True)
  have N': "newest_first (fst (prune_releases gone l)) = take 5 N @ filter (\<lambda>n. n \<notin> set R) (drop 5 N)"
    using filter_append[of "\<lambda>n. n \<notin> set R" "take 5 N" "drop 5 N"] tk by (simp add: pruned_newest N_def[symmetric] R_def[symmetric])
  have link: "ly_current (fst (prune_releases gone l)) = ly_current l" by (simp add: prune_releases_def Let_def)
  have live: "current_release (fst (prune_releases gone l)) = current_release l"
  proof (cases "current_release l")
    case None
    have "release_names (fst (prune_releases gone l)) = filter (\<lambda>n. n \<notin> set R) (release_names l)"
      by (simp add: pruned_names R_def)
    with None show ?thesis by (auto simp: current_release_def link split: option.splits if_splits)
  next
    case (Some c)
    then have "c \<notin> set R" using pruned_live[of c gone l] by (auto simp: R_def)
    then have "c \<in> set (release_names (fst (prune_releases gone l)))"
      using Some by (auto simp: pruned_names R_def current_release_def split: option.splits if_splits)
    with Some show ?thesis by (auto simp: current_release_def link split: option.splits if_splits)
  qed
  have inc: "{n \<in> set (release_names l). has_prefix n tmp_dir_pattern} \<subseteq> set (release_names (fst (prune_releases gone l)))"
  proof -
    have "\<not> has_prefix n tmp_dir_pattern" if "n \<in> set R" for n
    proof -
      have "n \<in> set N" using that RN in_set_dropD by (metis subsetD)
      then show ?thesis by (simp add: N_def newest_first_def)
    qed
    then show ?thesis by (auto simp: pruned_names R_def)
  qed
  have "length (filter (\<lambda>n. n \<notin> set R) (drop 5 N)) \<le> 1 + length (filter (\<lambda>n. \<not> gone n) (prunable l))"
  proof (cases "length N \<le> 5")
    case False
    then have "prunable l = filter (\<lambda>n. Some n \<noteq> current_release l) (drop 5 N)"
      by (simp add: prunable_def keep_releases_def N_def)
    then show ?thesis using old_left[of "drop 5 N" gone "current_release l"] d
      by (simp add: R_def prune_releases_def Let_def)
  qed simp
  then have len: "length (newest_first (fst (prune_releases gone l))) \<le> 6 + length (filter (\<lambda>n. \<not> gone n) (prunable l))"
    by (simp add: N')
  have "take 5 (newest_first (fst (prune_releases gone l))) = take 5 N"
  proof (cases "length N \<le> 5")
    case False then show ?thesis by (simp add: N')
  qed (simp add: N')
  with live inc len show ?thesis by (simp add: N_def)
qed

definition seven_releases :: layout where
  "seven_releases = \<lparr>ly_releases = map (\<lambda>n. \<lparr>rl_name = n, rl_marker = None\<rparr>) [''1'', ''2'', ''3'', ''4'', ''5'', ''6'', ''7''],
     ly_current = Some ''1''\<rparr>"

theorem prune_keeps_live_and_newest_witness:
  "current_release (fst (prune_releases (\<lambda>_. True) seven_releases)) = Some ''1'' \<and>
   length (newest_first (fst (prune_releases (\<lambda>_. True) seven_releases))) \<le> 6 \<and>
   snd (prune_releases (\<lambda>_. True) seven_releases) = [''2'']"
proof -
  have "distinct (release_names seven_releases)" "current_release seven_releases = Some ''1''"
    "snd (prune_releases (\<lambda>_. True) seven_releases) = [''2'']" by code_simp+
  then show ?thesis using prune_keeps_live_and_newest[of seven_releases "\<lambda>_. True"] by simp
qed

end
