(* ===== verification/DeployPlan.thy ===== *)
theory DeployPlan
  imports Releases Presets
begin

text \<open>
  What a deploy on the agent decides without touching the host, \<open>agent/internal/deploy\<close>: the apps of a
  command and their directories, environments and start waves (\<open>runner.go\<close>, \<open>copy.go\<close>), the split of
  an install script (\<open>script_split.go\<close>), the health probe (\<open>health.go\<close>), the binaries a script needs
  and the size texts (\<open>preflight.go\<close>), the time budget and the events' error texts (\<open>runner.go\<close>).
\<close>

section \<open>Apps and directories\<close>

text \<open>\<open>normalizeRoot\<close>\<close>

definition normalize_root :: "string \<Rightarrow> string" where
  "normalize_root root0 =
     (let root = path_clean (trim_prefix (trim_prefix (replace_all [backslash] [slash] (trim_space root0)) ''/'') ''./'')
      in if root = ''.'' \<or> root = [] then ''.'' else if has_prefix root ''..'' then ''.'' else root)"

text \<open>\<open>appsOf\<close>; \<open>lang\<close> stands for \<open>detectLangHint\<close>, which looks for files in the directory.\<close>

definition apps_of :: "(string \<Rightarrow> string) \<Rightarrow> deploy_command \<Rightarrow> string \<Rightarrow> deploy_app list" where
  "apps_of lang cmd dir =
     (if dc_apps cmd \<noteq> [] then dc_apps cmd
      else [\<lparr>da_name = (if dir \<noteq> [] then path_base dir else ''app''), da_root_directory = dc_root_directory cmd,
             da_install_script = dc_install_script cmd, da_language = (if dir \<noteq> [] then lang dir else []),
             da_port = dc_port cmd, da_process_manager = dc_process_manager cmd, da_env = dc_env cmd,
             da_health = None, da_run_script = [], da_cleanup_script = [], da_pre_start_script = [],
             da_start_group = 0, da_process_name = []\<rparr>])"

definition app_root :: "deploy_command \<Rightarrow> deploy_app \<Rightarrow> string" where
  "app_root cmd app =
     normalize_root (if da_root_directory app = [] then dc_root_directory cmd else da_root_directory app)"

definition release_subdir :: "deploy_app \<Rightarrow> string \<Rightarrow> string" where
  "release_subdir app root =
     (if root \<noteq> ''.'' then root
      else let sub = sanitize_segment (da_name app) in if sub = [] \<or> sub = ''run'' then ''app'' else sub)"

definition app_work_dir :: "string \<Rightarrow> deploy_command \<Rightarrow> deploy_app \<Rightarrow> string" where
  "app_work_dir release cmd app =
     (if length (apps_of (\<lambda>_. []) cmd []) \<le> 1 then release
      else path_join [release, release_subdir app (app_root cmd app)])"

definition app_port :: "deploy_command \<Rightarrow> deploy_app \<Rightarrow> int" where
  "app_port cmd app = (if da_port app = 0 then dc_port cmd else da_port app)"

definition app_env :: "deploy_command \<Rightarrow> deploy_app \<Rightarrow> (string \<rightharpoonup> string)" where
  "app_env cmd app = apply_listen_port (dc_env cmd ++ da_env app) (app_port cmd app)"

definition app_pm :: "deploy_command \<Rightarrow> deploy_app \<Rightarrow> string" where
  "app_pm cmd app = (if da_process_manager app = [] then dc_process_manager cmd else da_process_manager app)"

definition install_script_of :: "deploy_command \<Rightarrow> deploy_app \<Rightarrow> string" where
  "install_script_of cmd app = (if da_install_script app = [] then dc_install_script cmd else da_install_script app)"

text \<open>\<open>groupAppsByStart\<close>\<close>

definition start_group :: "deploy_app \<Rightarrow> int" where
  "start_group app = (if da_start_group app < 0 then 0 else da_start_group app)"

definition group_apps_by_start :: "deploy_app list \<Rightarrow> deploy_app list list" where
  "group_apps_by_start apps =
     map (\<lambda>g. filter (\<lambda>a. start_group a = g) apps) (sort (remdups (map start_group apps)))"

section \<open>Splitting an install script\<close>

definition match_prefix :: "string \<Rightarrow> string list \<Rightarrow> bool" where
  "match_prefix c ps = list_ex (\<lambda>p. has_prefix c p \<or> c = trim_space p) ps"

datatype install_kind = KInstall | KBuild | KCommand

definition install_heads :: "string list" where
  "install_heads =
     [''npm ci'', ''npm install'', ''npm i '', ''pnpm install'', ''pnpm i '', ''yarn install'', ''yarn i '',
      ''bun install'', ''bun i '', ''go mod download'', ''go mod tidy'', ''go mod vendor'', ''pip install'',
      ''pip3 install'', ''pipenv install'', ''poetry install'', ''uv sync'', ''uv add'', ''bundle install'',
      ''cargo fetch'']"

definition build_heads :: "string list" where
  "build_heads =
     [''go build'', ''cargo build'', ''tsc'', ''vite'', ''webpack'', ''next'', ''nuxt'', ''astro'',
      ''npm run build'', ''pnpm run build'', ''pnpm build'', ''yarn run build'', ''yarn build'']"

definition classify_install_kind :: "string \<Rightarrow> install_kind" where
  "classify_install_kind cmd =
     (let c = to_lower (trim_space cmd)
      in if match_prefix c install_heads then KInstall
         else if (str_contains c ''build'' \<or> str_contains c ''compile'') \<or> match_prefix c build_heads then KBuild
         else KCommand)"

definition split_shell_commands :: "string \<Rightarrow> string list" where
  "split_shell_commands script =
     (let trimmed = trim_space script
      in if trimmed = [] then []
         else filter (\<lambda>p. p \<noteq> [])
                (map trim_space (if str_contains trimmed ''&&'' then str_split ''&&'' trimmed else split_char newline trimmed)))"

fun split_parts :: "string list \<Rightarrow> string list \<Rightarrow> string list \<Rightarrow> string list \<times> string list" where
  "split_parts inst build [] = (inst, build)"
| "split_parts inst build (c # cs) =
     (case classify_install_kind c of
        KInstall \<Rightarrow> split_parts (inst @ [c]) build cs
      | KBuild \<Rightarrow> split_parts inst (build @ [c]) cs
      | KCommand \<Rightarrow> if inst \<noteq> [] then split_parts inst (build @ [c]) cs else split_parts (inst @ [c]) build cs)"

definition split_install_build :: "string \<Rightarrow> string \<times> string" where
  "split_install_build script =
     (let parts = split_shell_commands script
      in if parts = [] then ([], [])
         else (case split_parts [] [] parts of
                 (inst, build) \<Rightarrow>
                   if inst = [] \<and> build = [] then (trim_space script, [])
                   else if inst = [] then ([], str_join '' && '' build)
                   else (str_join '' && '' inst, str_join '' && '' build)))"

section \<open>Health, budget, errors\<close>

text \<open>\<open>resolveHealth\<close>: the address and the time allowed, in seconds\<close>

definition resolve_health :: "health_check option \<Rightarrow> int \<Rightarrow> (string \<times> int) option" where
  "resolve_health hc port0 =
     (case hc of
        None \<Rightarrow> None
      | Some h \<Rightarrow>
          if hc_path h = [] then None
          else let port = (if hc_port h = 0 then port0 else hc_port h)
               in if port \<le> 0 then None
                  else Some (''http://127.0.0.1:'' @ itoa port @ (if hd (hc_path h) \<noteq> slash then slash # hc_path h else hc_path h),
                             if hc_timeout_seconds h \<le> 0 then 60 else hc_timeout_seconds h))"

text \<open>\<open>runTimeout\<close>, in seconds\<close>

definition deploy_budget :: "int \<Rightarrow> int" where
  "deploy_budget seconds = (if seconds \<le> 0 then 3600 else if seconds > 7200 then 7200 else seconds)"

fun join_errors :: "string list \<Rightarrow> string option" where
  "join_errors [] = None"
| "join_errors [x] = Some x"
| "join_errors (x # y # ys) = Some (str_join ''; '' (x # y # ys))"

section \<open>Sizes\<close>

text \<open>\<open>humanBytes\<close> below 2^53, where the quotient by a power of two is exact and \<open>%.1f\<close> rounds it to
  the nearest tenth, halves to even.\<close>

fun human_unit :: "nat \<Rightarrow> nat \<Rightarrow> nat \<Rightarrow> nat \<Rightarrow> nat \<times> nat" where
  "human_unit 0 v div0 ex = (div0, ex)"
| "human_unit (Suc n) v div0 ex = (if 1024 \<le> v then human_unit n (v div 1024) (div0 * 1024) (Suc ex) else (div0, ex))"

definition round_tenths :: "nat \<Rightarrow> nat \<Rightarrow> nat" where
  "round_tenths n d =
     (let t = 10 * n div d; r = 10 * n mod d
      in if 2 * r > d \<or> (2 * r = d \<and> odd t) then Suc t else t)"

definition human_bytes :: "nat \<Rightarrow> string" where
  "human_bytes n =
     (if n < 1024 then nat_str n @ ''B''
      else case human_unit 6 (n div 1024) 1024 0 of
             (d, ex) \<Rightarrow> let t = round_tenths n d
                       in nat_str (t div 10) @ ''.'' @ nat_str (t mod 10) @ [''KMGTPE'' ! ex] @ ''B'')"

end
