(* ===== verification/DeployFlow.thy ===== *)
theory DeployFlow
  imports DeployPlan
begin

text \<open>
  A deploy on the agent, \<open>agent/internal/deploy\<close>: preflight (\<open>preflight.go\<close>), the pipeline and its
  waves (\<open>runner.go\<close>) and explicit flows (\<open>flow.go\<close>). What a deploy does to the host is the trace of its
  steps; the layout of release directories, the .env files and the apps the run has launched are kept
  beside it. What a step that runs another program or touches the disk gives is the parameter
  \<open>ag_ok\<close>, applied to the trace before it, so every failure at every point is covered. Scripts that run
  in parallel appear in the order in which they end.
\<close>

section \<open>Host\<close>

record app_script =
  as_label :: string
  as_work :: string
  as_script :: string
  as_env :: "string \<rightharpoonup> string"
  as_phase :: string
  as_done :: string

datatype host_step =
    Line string string
  | CommitKnown string
  | MakeUserDirs string string
  | TestWritable string
  | MoveAside
  | MoveInto string
  | OwnTree string
  | WriteSpec string string
  | CloneRepo string string string string
  | MakeDir string
  | CopyAppRoot string string
  | NameRelease string
  | MarkRelease string
  | WriteEnvFile string
  | RunScript string app_script
  | LaunchApp string deploy_app string string int
  | ProbeHealth string int
  | PersistManager string string
  | SwapLink string
  | RemoveTree string

record host =
  h_layout :: layout
  h_files :: file_tree
  h_launched :: "string list"
  h_trace :: "host_step list"

text \<open>The world outside: the outcome of a step (None when it works, else the error's text), the account a
  user name resolves to, the clock as release stamps, the commit of a checkout, the language a directory
  looks like, the size of a tree, the free bytes of a disk, the paths of binaries for the account and for
  the agent, the entries of a map in the order of an iteration, and the order in which parallel scripts
  end.\<close>

record world =
  w_ok :: "host_step list \<Rightarrow> host_step \<Rightarrow> string option"
  w_user :: "string \<Rightarrow> (string, credential option) res"
  w_stamp :: "host_step list \<Rightarrow> nat \<Rightarrow> string"
  w_head :: "host_step list \<Rightarrow> string"
  w_lang :: "host_step list \<Rightarrow> string \<Rightarrow> string"
  w_size :: "host_step list \<Rightarrow> nat"
  w_free :: "(string, nat) res"
  w_look :: "string \<Rightarrow> string option"
  w_look_agent :: "string \<Rightarrow> bool"
  w_git :: bool
  w_public :: "string \<Rightarrow> string"
  w_process_name :: "string \<Rightarrow> deploy_app \<Rightarrow> string \<Rightarrow> string"
  w_walk :: "(string \<rightharpoonup> string) \<Rightarrow> (string \<times> string) list"
  w_ends :: "app_script list \<Rightarrow> app_script list"

definition note_step :: "host_step \<Rightarrow> host \<Rightarrow> host" where
  "note_step x s = s\<lparr>h_trace := h_trace s @ [x]\<rparr>"

text \<open>\<open>phaseLine\<close>\<close>

definition say :: "string \<Rightarrow> string \<Rightarrow> host \<Rightarrow> host" where
  "say phase text s = note_step (Line phase (phase @ '': '' @ text)) s"

definition act :: "world \<Rightarrow> host_step \<Rightarrow> host \<Rightarrow> host \<times> string option" where
  "act w x s = (note_step x s, w_ok w (h_trace s) x)"

text \<open>Go's \<open>if err := f(); err != nil { return err }; g()\<close>\<close>

definition and_then :: "('s \<Rightarrow> 's \<times> 'e option) \<Rightarrow> ('s \<Rightarrow> 's \<times> 'e option) \<Rightarrow> 's \<Rightarrow> 's \<times> 'e option" where
  "and_then f g s = (case f s of (t, None) \<Rightarrow> g t | (t, Some e) \<Rightarrow> (t, Some e))"

definition with_phase :: "string \<Rightarrow> ('s \<Rightarrow> 's \<times> string option) \<Rightarrow> 's \<Rightarrow> 's \<times> (string \<times> string) option" where
  "with_phase phase f s = (case f s of (t, r) \<Rightarrow> (t, map_option (Pair phase) r))"

definition silently :: "('s \<Rightarrow> 's) \<Rightarrow> 's \<Rightarrow> 's \<times> 'e option" where
  "silently f s = (f s, None)"

definition prefix_error :: "string \<Rightarrow> ('s \<Rightarrow> 's \<times> string option) \<Rightarrow> 's \<Rightarrow> 's \<times> string option" where
  "prefix_error p f s = (case f s of (t, r) \<Rightarrow> (t, map_option (\<lambda>m. p @ '': '' @ m) r))"

definition current_path :: "string \<Rightarrow> string" where
  "current_path base = path_join [base, ''current'']"

definition release_path :: "string \<Rightarrow> string \<Rightarrow> string" where
  "release_path base name = path_join [path_join [base, ''releases''], name]"

section \<open>Preflight\<close>

text \<open>\<open>strings.Fields\<close>\<close>

fun str_fields :: "string \<Rightarrow> string \<Rightarrow> string list" where
  "str_fields acc [] = (if acc = [] then [] else [acc])"
| "str_fields acc (c # cs) =
     (if is_space c then (if acc = [] then str_fields [] cs else acc # str_fields [] cs) else str_fields (acc @ [c]) cs)"

text \<open>\<open>splitCommands\<close>: the four operators as line breaks, the longer ones first\<close>

fun operators_to_lines :: "string \<Rightarrow> string" where
  "operators_to_lines [] = []"
| "operators_to_lines [c] = [if c = CHR '';'' \<or> c = CHR ''|'' then newline else c]"
| "operators_to_lines (c # d # cs) =
     (if (c = CHR ''&'' \<and> d = CHR ''&'') \<or> (c = CHR ''|'' \<and> d = CHR ''|'') then newline # operators_to_lines cs
      else (if c = CHR '';'' \<or> c = CHR ''|'' then newline else c) # operators_to_lines (d # cs))"

definition known_binaries :: "string list" where
  "known_binaries = [''npm'', ''pnpm'', ''yarn'', ''bun'', ''npx'', ''node'', ''go'', ''cargo'', ''python3'', ''pip'',
     ''bundle'', ''composer'', ''mix'', ''mvn'', ''gradle'', ''docker'', ''make'']"

definition command_binary :: "string \<Rightarrow> string option" where
  "command_binary part =
     (case dropWhile (\<lambda>f. CHR ''='' \<in> set f) (str_fields [] part) of
        [] \<Rightarrow> None
      | h # _ \<Rightarrow> if has_prefix h ''.'' \<or> has_prefix h ''/'' \<or> h \<notin> set known_binaries then None else Some h)"

fun add_new :: "string list \<Rightarrow> string list \<Rightarrow> string list" where
  "add_new seen [] = []"
| "add_new seen (b # bs) = (if b \<in> set seen then add_new seen bs else b # add_new (b # seen) bs)"

definition required_binaries :: "string \<Rightarrow> string list" where
  "required_binaries script =
     (if trim_space script = [] then []
      else add_new [] (List.map_filter command_binary (split_char newline (operators_to_lines script))))"

definition process_manager_binary :: "string \<Rightarrow> string" where
  "process_manager_binary pm =
     (if pm = ''pm2'' then ''pm2'' else if pm = ''systemd'' then ''systemctl'' else if pm = ''docker'' then ''docker'' else [])"

definition min_free_bytes :: nat where
  "min_free_bytes = 536870912"

fun check_binaries :: "world \<Rightarrow> string \<Rightarrow> string list \<Rightarrow> host \<Rightarrow> host \<times> string option" where
  "check_binaries w who [] s = (s, None)"
| "check_binaries w who (b # bs) s =
     (case w_look w b of
        None \<Rightarrow> (s, Some (b @ '' is not installed for user '' @ who @ '' (not on their login PATH / nvm); install it under Tools as '' @ who @ '', or pick a different deploy user''))
      | Some p \<Rightarrow> check_binaries w who bs (say ''preflight'' (b @ '': ok ('' @ p @ '')'') s))"

definition check_space :: "world \<Rightarrow> string \<Rightarrow> host \<Rightarrow> host \<times> string option" where
  "check_space w base s =
     (case w_free w of
        Inl e \<Rightarrow> (say ''preflight'' (''disk space: could not determine ('' @ e @ '')'') s, None)
      | Inr free \<Rightarrow>
          if free < min_free_bytes
          then (s, Some (''only '' @ human_bytes free @ '' free on '' @ base @ '', need at least '' @ human_bytes min_free_bytes))
          else (say ''preflight'' (''disk space: '' @ human_bytes free @ '' free'') s, None))"

definition check_git :: "world \<Rightarrow> host \<Rightarrow> host \<times> string option" where
  "check_git w s =
     (if w_look w ''git'' = None \<and> \<not> w_look_agent w ''git'' then (s, Some ''git is not installed on this server'')
      else (say ''preflight'' ''git: ok'' s, None))"

definition check_manager :: "world \<Rightarrow> string \<Rightarrow> string \<Rightarrow> host \<Rightarrow> host \<times> string option" where
  "check_manager w who pm s =
     (let bin = process_manager_binary pm
      in if bin = [] then (s, None)
         else if w_look w bin = None
         then (s, Some (''process manager '' @ quote # pm @ quote # '' needs '' @ bin @ '', which is not installed for user '' @ who))
         else (say ''preflight'' (bin @ '': ok'') s, None))"

definition preflight :: "world \<Rightarrow> string \<Rightarrow> string \<Rightarrow> string \<Rightarrow> credential option \<Rightarrow> host \<Rightarrow> host \<times> string option" where
  "preflight w base install pm cred =
     (let who = (case cred of None \<Rightarrow> ''agent'' | Some c \<Rightarrow> if cd_username c = [] then ''agent'' else cd_username c);
          tmp = user_tmp cred
      in and_then (silently (say ''preflight'' (''checking '' @ base @ '' (as '' @ who @ '')'')))
           (and_then (prefix_error ''clone path not usable'' (act w (MakeUserDirs base tmp)))
           (and_then (prefix_error ''clone path not usable'' (act w (TestWritable base)))
           (and_then (silently (say ''preflight'' ''clone path writable: ok''))
           (and_then (silently (if tmp \<noteq> ''/tmp'' then say ''preflight'' (''tmp: '' @ tmp) else id))
           (and_then (check_space w base)
           (and_then (check_git w)
           (and_then (check_binaries w who (required_binaries install))
                     (check_manager w who pm)))))))))"

section \<open>The .env files of a release\<close>

text \<open>One call of \<open>writeDotEnvFile\<close>: nothing is attempted for an environment without keys.\<close>

definition write_env :: "world \<Rightarrow> string \<Rightarrow> (string \<rightharpoonup> string) \<Rightarrow> host \<Rightarrow> host \<times> string option" where
  "write_env w path env s =
     (let walk = w_walk w env
      in if filter (\<lambda>k. k \<noteq> []) (map (trim_space \<circ> fst) walk) = [] then (s, None)
         else let out = w_ok w (h_trace s) (WriteEnvFile path); s1 = note_step (WriteEnvFile path) s
              in (case write_dotenv_file (out = None) path walk (h_files s) of
                    Inl _ \<Rightarrow> (s1, out)
                  | Inr fs \<Rightarrow> (s1\<lparr>h_files := fs\<rparr>, None)))"

fun write_app_envs :: "world \<Rightarrow> string \<Rightarrow> deploy_command \<Rightarrow> deploy_app list \<Rightarrow> host \<Rightarrow> host \<times> string option" where
  "write_app_envs w release cmd [] s = (s, None)"
| "write_app_envs w release cmd (a # as) s =
     (let work = app_work_dir release cmd a
      in if work = release then write_app_envs w release cmd as s
         else and_then (write_env w (path_join [work, ''.env'']) (dc_env cmd ++ da_env a))
                (write_app_envs w release cmd as) s)"

definition write_deploy_dotenvs :: "world \<Rightarrow> string \<Rightarrow> string \<Rightarrow> deploy_command \<Rightarrow> host \<Rightarrow> host \<times> string option" where
  "write_deploy_dotenvs w base release cmd s =
     (let apps = apps_of (w_lang w (h_trace s)) cmd release;
          root = path_join [release, ''.env'']; stable = path_join [base, ''.env''];
          both = (\<lambda>env. and_then (write_env w root env)
                          (if base \<noteq> [] \<and> base \<noteq> release then write_env w stable env else silently id))
      in if length apps \<le> 1
         then both (dc_env cmd ++ (case apps of [] \<Rightarrow> Map.empty | a # _ \<Rightarrow> da_env a)) s
         else and_then (both (dc_env cmd)) (write_app_envs w release cmd apps) s)"

section \<open>Scripts\<close>

definition run_one_script :: "world \<Rightarrow> string \<Rightarrow> app_script \<Rightarrow> host \<Rightarrow> host \<times> string option" where
  "run_one_script w phase j =
     and_then (silently (if as_phase j \<noteq> [] then say phase (as_phase j @ '' (in '' @ as_work j @ '')'') else id))
       (and_then (prefix_error (as_label j) (act w (RunScript phase j)))
                 (silently (if as_done j \<noteq> [] then say phase (as_done j @ '' (in '' @ as_work j @ '')'') else id)))"

text \<open>Parallel scripts: each runs to its end whatever becomes of the others.\<close>

fun run_each :: "('a \<Rightarrow> 's \<Rightarrow> 's \<times> string option) \<Rightarrow> 'a list \<Rightarrow> 's \<Rightarrow> 's \<times> string list" where
  "run_each f [] s = (s, [])"
| "run_each f (x # xs) s =
     (case f x s of (t, r) \<Rightarrow>
        (case run_each f xs t of (u, es) \<Rightarrow> (u, (case r of None \<Rightarrow> es | Some e \<Rightarrow> e # es))))"

definition all_of :: "('a \<Rightarrow> 's \<Rightarrow> 's \<times> string option) \<Rightarrow> 'a list \<Rightarrow> 's \<Rightarrow> 's \<times> string option" where
  "all_of f xs s = (case run_each f xs s of (t, es) \<Rightarrow> (t, join_errors es))"

definition run_app_scripts :: "world \<Rightarrow> string \<Rightarrow> app_script list \<Rightarrow> host \<Rightarrow> host \<times> string option" where
  "run_app_scripts w phase0 jobs s =
     (let phase = (if phase0 = [] then ''install'' else phase0)
      in case jobs of
           [] \<Rightarrow> (s, None)
         | [j] \<Rightarrow> run_one_script w phase j s
         | _ \<Rightarrow> all_of (run_one_script w phase) (w_ends w jobs) s)"

definition install_job :: "string \<Rightarrow> deploy_command \<Rightarrow> deploy_app \<Rightarrow> app_script option" where
  "install_job release cmd app =
     (let script = install_script_of cmd app
      in if script = [] then None
         else Some \<lparr>as_label = script, as_work = app_work_dir release cmd app, as_script = script,
                    as_env = app_env cmd app, as_phase = script, as_done = ''done''\<rparr>)"

definition cleanup_job :: "string \<Rightarrow> deploy_command \<Rightarrow> deploy_app \<Rightarrow> app_script option" where
  "cleanup_job release cmd app =
     (let script = cleanup_script_for (da_cleanup_script app) (da_language app)
      in if script = [] then None
         else Some \<lparr>as_label = ''cleanup'', as_work = app_work_dir release cmd app, as_script = script,
                    as_env = app_env cmd app, as_phase = ''cleanup: '' @ script, as_done = []\<rparr>)"

definition pre_start_job :: "string \<Rightarrow> deploy_command \<Rightarrow> deploy_app \<Rightarrow> app_script option" where
  "pre_start_job root cmd app =
     (let script = trim_space (da_pre_start_script app)
      in if script = [] then None
         else Some \<lparr>as_label = ''pre-start'', as_work = app_work_dir root cmd app, as_script = script,
                    as_env = app_env cmd app, as_phase = script, as_done = ''done''\<rparr>)"

definition install_apps :: "world \<Rightarrow> deploy_command \<Rightarrow> string \<Rightarrow> host \<Rightarrow> host \<times> string option" where
  "install_apps w cmd release s =
     run_app_scripts w ''install''
       (List.map_filter (install_job release cmd) (apps_of (w_lang w (h_trace s)) cmd release)) s"

definition cleanup_apps :: "world \<Rightarrow> deploy_command \<Rightarrow> string \<Rightarrow> host \<Rightarrow> host \<times> string option" where
  "cleanup_apps w cmd release s =
     run_app_scripts w ''install''
       (List.map_filter (cleanup_job release cmd) (apps_of (w_lang w (h_trace s)) cmd release)) s"

definition pre_start_apps :: "world \<Rightarrow> deploy_command \<Rightarrow> string \<Rightarrow> deploy_app list \<Rightarrow> host \<Rightarrow> host \<times> string option" where
  "pre_start_apps w cmd base apps s =
     run_app_scripts w ''pre_start'' (List.map_filter (pre_start_job (current_path base) cmd) apps) s"

section \<open>Processes and probes\<close>

definition launch_name :: "string \<Rightarrow> deploy_app \<Rightarrow> string" where
  "launch_name work app = (if da_name app = [] then path_base work else da_name app)"

definition launch :: "world \<Rightarrow> deploy_command \<Rightarrow> string \<Rightarrow> string \<Rightarrow> deploy_app \<Rightarrow> host \<Rightarrow> host \<times> string option" where
  "launch w cmd phase work app =
     act w (LaunchApp phase app work (w_process_name w (dc_project_name cmd) app work) (app_port cmd app))"

definition start_app :: "world \<Rightarrow> deploy_command \<Rightarrow> string \<Rightarrow> deploy_app \<Rightarrow> host \<Rightarrow> host \<times> string option" where
  "start_app w cmd base app s =
     (let work = app_work_dir (current_path base) cmd app
      in if launch_name work app \<in> set (h_launched s) then (say ''start'' (''done (in '' @ work @ '')'') s, None)
         else launch w cmd ''start'' work app s)"

definition start_apps :: "world \<Rightarrow> deploy_command \<Rightarrow> string \<Rightarrow> deploy_app list \<Rightarrow> host \<Rightarrow> host \<times> string option" where
  "start_apps w cmd base apps = all_of (start_app w cmd base) apps"

text \<open>\<open>noteLaunched\<close> ignores an empty name.\<close>

definition note_launched :: "string \<Rightarrow> host \<Rightarrow> host" where
  "note_launched name s = (if name = [] then s else s\<lparr>h_launched := name # h_launched s\<rparr>)"

definition run_app :: "world \<Rightarrow> deploy_command \<Rightarrow> string \<Rightarrow> deploy_app \<Rightarrow> host \<Rightarrow> host \<times> string option" where
  "run_app w cmd base app =
     (let work = app_work_dir (current_path base) cmd app; name = launch_name work app
      in and_then (prefix_error name (launch w cmd ''run'' work app)) (silently (note_launched name)))"

definition run_apps :: "world \<Rightarrow> deploy_command \<Rightarrow> string \<Rightarrow> deploy_app list \<Rightarrow> host \<Rightarrow> host \<times> string option" where
  "run_apps w cmd base apps = all_of (run_app w cmd base) apps"

text \<open>\<open>checkHealth\<close>; both callers name the apps, so the notice for a check without a port is never given.\<close>

definition has_path :: "health_check option \<Rightarrow> bool" where
  "has_path h = (case h of None \<Rightarrow> False | Some c \<Rightarrow> hc_path c \<noteq> [])"

definition check_app :: "world \<Rightarrow> deploy_command \<Rightarrow> deploy_app \<Rightarrow> host \<Rightarrow> host \<times> string option" where
  "check_app w cmd app s =
     (case resolve_health (if has_path (da_health app) then da_health app else dc_health cmd) (app_port cmd app) of
        None \<Rightarrow> (s, None)
      | Some (url, budget) \<Rightarrow> act w (ProbeHealth url budget) s)"

definition check_health :: "world \<Rightarrow> deploy_command \<Rightarrow> deploy_app list \<Rightarrow> host \<Rightarrow> host \<times> string option" where
  "check_health w cmd apps = all_of (check_app w cmd) apps"

fun persist_each :: "world \<Rightarrow> deploy_command \<Rightarrow> string \<Rightarrow> string list \<Rightarrow> deploy_app list \<Rightarrow> host \<Rightarrow> host \<times> string option" where
  "persist_each w cmd base seen [] s = (s, None)"
| "persist_each w cmd base seen (a # as) s =
     (let pm = app_pm cmd a
      in if pm = [] \<or> pm = ''none'' \<or> pm \<in> set seen then persist_each w cmd base seen as s
         else and_then (act w (PersistManager (app_work_dir (current_path base) cmd a) pm))
                (persist_each w cmd base (pm # seen) as) s)"

definition persist_process_managers :: "world \<Rightarrow> deploy_command \<Rightarrow> string \<Rightarrow> host \<Rightarrow> host \<times> string option" where
  "persist_process_managers w cmd base s =
     persist_each w cmd base [] (apps_of (w_lang w (h_trace s)) cmd (current_path base)) s"

section \<open>Waves\<close>

type_synonym phase_error = "string \<times> string"

definition continue_on_fail :: "deploy_command \<Rightarrow> bool" where
  "continue_on_fail cmd \<longleftrightarrow> equal_fold (trim_space (dc_on_wave_failure cmd)) ''continue''"

text \<open>One start wave: pre-start, start, health. The error carries the stage.\<close>

definition start_wave :: "world \<Rightarrow> deploy_command \<Rightarrow> string \<Rightarrow> deploy_app list \<Rightarrow> host \<Rightarrow> host \<times> phase_error option" where
  "start_wave w cmd base wave =
     and_then (with_phase ''pre_start'' (pre_start_apps w cmd base wave))
       (and_then (with_phase ''start'' (start_apps w cmd base wave))
                 (with_phase ''health'' (check_health w cmd wave)))"

definition wave_name :: "deploy_app \<Rightarrow> string" where
  "wave_name a = (if da_name a = [] then ''app'' else da_name a)"

definition announce_wave :: "nat \<Rightarrow> nat \<Rightarrow> deploy_app list \<Rightarrow> host \<Rightarrow> host" where
  "announce_wave cnt i wave s =
     (if 1 < cnt
      then say ''start'' (''wave '' @ nat_str i @ ''/'' @ nat_str cnt @ '': '' @ str_join '', '' (map wave_name wave)) s
      else s)"

fun start_waves :: "world \<Rightarrow> deploy_command \<Rightarrow> string \<Rightarrow> nat \<Rightarrow> nat \<Rightarrow> deploy_app list list \<Rightarrow> host \<Rightarrow>
    host \<times> (phase_error, string list) res" where
  "start_waves w cmd base cnt i [] s = (s, Inr [])"
| "start_waves w cmd base cnt i (wave # waves) s =
     (case start_wave w cmd base wave (announce_wave cnt i wave s) of
        (t, None) \<Rightarrow> start_waves w cmd base cnt (Suc i) waves t
      | (t, Some (phase, msg)) \<Rightarrow>
          if \<not> continue_on_fail cmd then (t, Inl (phase, msg))
          else (case start_waves w cmd base cnt (Suc i) waves (say phase (''wave failed; continuing: '' @ msg) t) of
                  (u, Inl e) \<Rightarrow> (u, Inl e)
                | (u, Inr es) \<Rightarrow> (u, Inr ((phase @ '': '' @ msg) # es))))"

text \<open>How both schedules end: persistence, then the errors of the waves that failed.\<close>

definition finish_waves :: "world \<Rightarrow> deploy_command \<Rightarrow> string \<Rightarrow> string list \<Rightarrow> host \<Rightarrow> host \<times> phase_error option" where
  "finish_waves w cmd base errs =
     and_then (with_phase ''start'' (persist_process_managers w cmd base))
              (\<lambda>s. (s, map_option (Pair ''start'') (join_errors errs)))"

definition activate_app_waves :: "world \<Rightarrow> deploy_command \<Rightarrow> string \<Rightarrow> host \<Rightarrow> host \<times> phase_error option" where
  "activate_app_waves w cmd base s =
     (let waves = group_apps_by_start (apps_of (w_lang w (h_trace s)) cmd (current_path base))
      in case start_waves w cmd base (length waves) 1 waves s of
           (t, Inl e) \<Rightarrow> (t, Some e)
         | (t, Inr errs) \<Rightarrow> finish_waves w cmd base errs t)"

text \<open>A call of \<open>chownTree\<close> whose result the code ignores\<close>

definition own :: "string \<Rightarrow> host \<Rightarrow> host" where
  "own path s = note_step (OwnTree path) s"

text \<open>\<open>layout.Swap\<close>, the change of owner of the base (not after a rollback), and the line that reports it\<close>

definition own_base :: "string option \<Rightarrow> host \<Rightarrow> host" where
  "own_base base s = (case base of None \<Rightarrow> s | Some path \<Rightarrow> own path s)"

definition activate_release :: "world \<Rightarrow> string option \<Rightarrow> string \<Rightarrow> host \<Rightarrow> host \<times> phase_error option" where
  "activate_release w base name s =
     (case act w (SwapLink name) s of
        (t, Some e) \<Rightarrow> (t, Some (''release'', ''activate release: '' @ e))
      | (t, None) \<Rightarrow>
          (say ''release'' (''current -> '' @ name) (own_base base (t\<lparr>h_layout := swap_release (h_layout t) name\<rparr>)), None))"

section \<open>Flows\<close>

definition pre_release_phases :: "string list" where
  "pre_release_phases = [''install'', ''build'', ''cleanup'']"

definition post_release_phases :: "string list" where
  "post_release_phases = [''pre_start'', ''run'', ''start'', ''health'']"

definition task_phase :: "flow_task \<Rightarrow> string" where
  "task_phase t = to_lower (trim_space (ft_phase t))"

definition needs_post :: "flow_task list \<Rightarrow> bool" where
  "needs_post tasks = list_ex (\<lambda>t. task_phase t \<in> set post_release_phases) tasks"

definition needs_pre :: "flow_task list \<Rightarrow> bool" where
  "needs_pre tasks = list_ex (\<lambda>t. task_phase t \<in> set pre_release_phases) tasks"

text \<open>\<open>byName\<close>: the last app of a name wins.\<close>

definition app_named :: "deploy_app list \<Rightarrow> string \<Rightarrow> deploy_app option" where
  "app_named apps n = find (\<lambda>a. da_name a = n) (rev apps)"

record wave_plan =
  wp_jobs :: "app_script list"
  wp_run :: "deploy_app list"
  wp_start :: "deploy_app list"
  wp_health :: "deploy_app list"

definition task_script :: "deploy_command \<Rightarrow> string \<Rightarrow> deploy_app \<Rightarrow> string \<Rightarrow> app_script option" where
  "task_script cmd root app phase =
     (if phase = ''install'' \<or> phase = ''build''
      then let body = (if phase = ''build'' then snd else fst) (split_install_build (install_script_of cmd app))
           in if body = [] then None
              else Some \<lparr>as_label = body, as_work = app_work_dir root cmd app, as_script = body,
                         as_env = app_env cmd app, as_phase = body, as_done = ''done''\<rparr>
      else if phase = ''cleanup'' then cleanup_job root cmd app
      else pre_start_job root cmd app)"

fun plan_tasks :: "deploy_command \<Rightarrow> string \<Rightarrow> deploy_app list \<Rightarrow> flow_task list \<Rightarrow> wave_plan \<Rightarrow>
    (phase_error, wave_plan) res" where
  "plan_tasks cmd root apps [] p = Inr p"
| "plan_tasks cmd root apps (t # ts) p =
     (case app_named apps (ft_app t) of
        None \<Rightarrow> Inl (''install'', ''flow references unknown app '' @ quote # ft_app t @ [quote])
      | Some app \<Rightarrow>
          (let phase = task_phase t
           in if phase \<in> set pre_release_phases \<or> phase = ''pre_start''
              then plan_tasks cmd root apps ts
                     (case task_script cmd root app phase of None \<Rightarrow> p | Some j \<Rightarrow> p\<lparr>wp_jobs := wp_jobs p @ [j]\<rparr>)
              else if phase = ''run'' then plan_tasks cmd root apps ts (p\<lparr>wp_run := wp_run p @ [app]\<rparr>)
              else if phase = ''start'' then plan_tasks cmd root apps ts (p\<lparr>wp_start := wp_start p @ [app]\<rparr>)
              else if phase = ''health'' then plan_tasks cmd root apps ts (p\<lparr>wp_health := wp_health p @ [app]\<rparr>)
              else Inl (''install'', ''unknown flow phase '' @ quote # ft_phase t @ [quote])))"

definition when_any :: "'a list \<Rightarrow> ('s \<Rightarrow> 's \<times> 'e option) \<Rightarrow> 's \<Rightarrow> 's \<times> 'e option" where
  "when_any xs f = (if xs = [] then silently id else f)"

definition jobs_phase :: "app_script list \<Rightarrow> string" where
  "jobs_phase jobs = (if list_all (\<lambda>j. as_label j = ''pre-start'') jobs then ''pre_start'' else ''install'')"

definition run_plan :: "world \<Rightarrow> deploy_command \<Rightarrow> string \<Rightarrow> bool \<Rightarrow> wave_plan \<Rightarrow> host \<Rightarrow> host \<times> phase_error option" where
  "run_plan w cmd base released p =
     and_then (when_any (wp_jobs p)
        (with_phase (jobs_phase (wp_jobs p)) (run_app_scripts w (jobs_phase (wp_jobs p)) (wp_jobs p))))
     (and_then (when_any (wp_run p)
        (with_phase ''run'' (if \<not> released then (\<lambda>t. (t, Some ''run tasks require an activated release''))
                             else run_apps w cmd base (wp_run p))))
     (and_then (when_any (wp_start p)
        (with_phase ''start'' (if \<not> released then (\<lambda>t. (t, Some ''start tasks require an activated release''))
                               else start_apps w cmd base (wp_start p))))
        (when_any (wp_health p) (with_phase ''health'' (check_health w cmd (wp_health p))))))"

definition run_flow_wave :: "world \<Rightarrow> deploy_command \<Rightarrow> string \<Rightarrow> string \<Rightarrow> bool \<Rightarrow> deploy_app list \<Rightarrow> flow_task list \<Rightarrow>
    host \<Rightarrow> host \<times> phase_error option" where
  "run_flow_wave w cmd base root released apps tasks s =
     (case plan_tasks cmd root apps tasks \<lparr>wp_jobs = [], wp_run = [], wp_start = [], wp_health = []\<rparr> of
        Inl e \<Rightarrow> (s, Some e)
      | Inr p \<Rightarrow> run_plan w cmd base released p s)"

definition announce_flow :: "nat \<Rightarrow> nat \<Rightarrow> flow_task list \<Rightarrow> host \<Rightarrow> host" where
  "announce_flow cnt i tasks s =
     (if 1 < cnt
      then say ''install'' (''flow wave '' @ nat_str i @ ''/'' @ nat_str cnt @ '': '' @
             str_join '', '' (map (\<lambda>t. ft_app t @ [CHR 0xC2, CHR 0xB7] @ ft_phase t) tasks)) s
      else s)"

text \<open>The loop of \<open>runDeployFlow\<close>: \<open>i\<close> counts all waves, \<open>apps\<close> are the apps by name. The result is the
  error it stops with, or whether the release is active and the errors of the waves that failed.\<close>

fun flow_loop :: "world \<Rightarrow> deploy_command \<Rightarrow> string \<Rightarrow> string \<Rightarrow> nat \<Rightarrow> nat \<Rightarrow> flow_task list list \<Rightarrow> bool \<Rightarrow>
    deploy_app list \<Rightarrow> string list \<Rightarrow> host \<Rightarrow> host \<times> (phase_error, bool \<times> string list) res" where
  "flow_loop w cmd base name cnt i [] released apps errs s = (s, Inr (released, errs))"
| "flow_loop w cmd base name cnt i (tasks # waves) released apps errs s =
     (if tasks = [] then flow_loop w cmd base name cnt (Suc i) waves released apps errs s
      else if needs_post tasks \<and> \<not> released \<and> needs_pre tasks
      then (s, Inl (''install'', ''flow wave '' @ nat_str i @ '' mixes install/build/cleanup with start '' @
              [CHR 0xE2, CHR 0x80, CHR 0x94] @ '' put start in the next wave so the release can activate first''))
      else let swap = needs_post tasks \<and> \<not> released; r = (if swap then activate_release w (Some base) name s else (s, None))
           in (case snd r of
                 Some e \<Rightarrow> (fst r, Inl e)
               | None \<Rightarrow>
                   let t = fst r; live = (released \<or> swap);
                       named = (if swap then apps_of (w_lang w (h_trace t)) cmd (current_path base) else apps);
                       root = (if live then current_path base else release_path base name)
                   in (case run_flow_wave w cmd base root live named tasks (announce_flow cnt i tasks t) of
                         (u, None) \<Rightarrow> flow_loop w cmd base name cnt (Suc i) waves live named errs u
                       | (u, Some (phase, msg)) \<Rightarrow>
                           if \<not> continue_on_fail cmd then (u, Inl (phase, msg))
                           else flow_loop w cmd base name cnt (Suc i) waves live named (errs @ [msg])
                                  (say ''install'' (''wave failed; continuing: '' @ msg) u))))"

definition run_deploy_flow :: "world \<Rightarrow> deploy_command \<Rightarrow> string \<Rightarrow> string \<Rightarrow> host \<Rightarrow> host \<times> phase_error option" where
  "run_deploy_flow w cmd base name s =
     (case flow_loop w cmd base name (length (dc_flow cmd)) 1 (dc_flow cmd) False
             (apps_of (w_lang w (h_trace s)) cmd (release_path base name)) [] s of
        (t, Inl e) \<Rightarrow> (t, Some e)
      | (t, Inr (released, errs)) \<Rightarrow>
          and_then (if released then silently id else activate_release w (Some base) name) (finish_waves w cmd base errs) t)"

section \<open>The pipeline\<close>

text \<open>\<open>Migrate\<close>: an in-place checkout is moved aside, then becomes the first release and the live one.
  A step that fails leaves what the steps before it did.\<close>

definition put_layout :: "release list \<Rightarrow> string option \<Rightarrow> host \<Rightarrow> host" where
  "put_layout rs cur s = s\<lparr>h_layout := \<lparr>ly_releases = rs, ly_current = cur\<rparr>\<rparr>"

text \<open>What lies under \<open>from\<close> is now under \<open>to\<close>.\<close>

definition move_files :: "string \<Rightarrow> string \<Rightarrow> file_tree \<Rightarrow> file_tree" where
  "move_files from to fs =
     (\<lambda>p. case cut_prefix p (to @ ''/'') of
            Some r \<Rightarrow> fs (from @ ''/'' @ r)
          | None \<Rightarrow> if has_prefix p (from @ ''/'') then None else fs p)"

definition move_tree :: "string \<Rightarrow> string \<Rightarrow> host \<Rightarrow> host" where
  "move_tree from to s = s\<lparr>h_files := move_files from to (h_files s)\<rparr>"

text \<open>The .env of the first release becomes the project's, unless there is one; a write that fails is ignored.\<close>

definition promote_env :: "world \<Rightarrow> string \<Rightarrow> string \<Rightarrow> host \<Rightarrow> host" where
  "promote_env w base release s =
     (let stable = path_join [base, ''.env'']
      in case (h_files s stable, h_files s (path_join [release, ''.env''])) of
           (None, Some b) \<Rightarrow>
             if b = [] then s
             else (case act w (WriteEnvFile stable) s of
                     (t, None) \<Rightarrow> t\<lparr>h_files := (h_files t)(stable \<mapsto> b)\<rparr>
                   | (t, Some e) \<Rightarrow> t)
         | _ \<Rightarrow> s)"

definition mark_first :: "world \<Rightarrow> string \<Rightarrow> string \<Rightarrow> host \<Rightarrow> host \<times> string option" where
  "mark_first w sha name =
     and_then (if sha = [] then silently id else act w (MarkRelease name))
       (silently (put_layout [write_marker sha \<lparr>rl_name = name, rl_marker = None\<rparr>] None))"

definition link_first :: "world \<Rightarrow> string \<Rightarrow> string \<Rightarrow> string \<Rightarrow> host \<Rightarrow> host \<times> string option" where
  "link_first w base sha name =
     and_then (act w (SwapLink name))
       (silently (\<lambda>s. promote_env w base (release_path base name)
          (put_layout [write_marker sha \<lparr>rl_name = name, rl_marker = None\<rparr>] (Some name) s)))"

definition first_release :: "world \<Rightarrow> string \<Rightarrow> string \<Rightarrow> string \<Rightarrow> host \<Rightarrow> host \<times> string option" where
  "first_release w base sha name =
     and_then (prefix_error ''move existing checkout into releases'' (act w (MoveInto name)))
       (and_then (silently (\<lambda>s. put_layout [\<lparr>rl_name = name, rl_marker = None\<rparr>] None
                    (move_tree (base @ ''.migrating'') (release_path base name) s)))
       (and_then (mark_first w sha name) (link_first w base sha name)))"

definition migrate_checkout :: "world \<Rightarrow> string \<Rightarrow> string \<Rightarrow> host \<Rightarrow> host \<times> string option" where
  "migrate_checkout w base sha =
     and_then (act w (RemoveTree (base @ ''.migrating'')))
       (and_then (prefix_error ''move existing checkout aside'' (act w MoveAside))
       (and_then (silently (\<lambda>s. put_layout [] None (move_tree base (base @ ''.migrating'') s)))
       (and_then (act w (MakeDir (path_join [base, ''releases''])))
                 (\<lambda>s. first_release w base sha (release_name (w_stamp w (h_trace s) 0) sha) s))))"

text \<open>What \<open>deploy\<close> does about it: the live release, if there is one now, is the migrated one.\<close>

definition own_moved :: "string \<Rightarrow> host \<Rightarrow> host" where
  "own_moved base s =
     (case ly_current (h_layout s) of
        None \<Rightarrow> s
      | Some name \<Rightarrow> say ''release'' (''existing checkout is now '' @ name) (own (release_path base name) s))"

definition migrate :: "world \<Rightarrow> string \<Rightarrow> host \<Rightarrow> host \<times> phase_error option" where
  "migrate w base s =
     (if ly_current (h_layout s) \<noteq> None \<or> \<not> w_git w then (s, None)
      else and_then (silently (say ''release'' ''migrating existing checkout into releases/''))
             (and_then (\<lambda>t. with_phase ''release'' (prefix_error ''migrate to release layout''
                          (migrate_checkout w base (w_head w (h_trace t)))) t)
                (silently (own_moved base))) s)"

text \<open>\<open>materializeRelease\<close>: a staging directory gets each app's tree, then its final name.\<close>

fun copy_roots :: "world \<Rightarrow> deploy_command \<Rightarrow> string \<Rightarrow> string \<Rightarrow> bool \<Rightarrow> deploy_app list \<Rightarrow> host \<Rightarrow> host \<times> string option" where
  "copy_roots w cmd clone_dir staging multi [] s = (s, None)"
| "copy_roots w cmd clone_dir staging multi (a # as) s =
     (let root = app_root cmd a; src = (if root = ''.'' then clone_dir else path_join [clone_dir, root]);
          sub = release_subdir a root
      in and_then (silently (say ''clone'' (''cherry-pick '' @ root @ '' -> '' @ (if multi then sub else ''release root''))))
           (and_then (act w (CopyAppRoot src (if multi then path_join [staging, sub] else staging)))
                     (copy_roots w cmd clone_dir staging multi as)) s)"

definition drop_staging :: "string \<Rightarrow> host \<Rightarrow> host" where
  "drop_staging tmp s = s\<lparr>h_layout := (h_layout s)\<lparr>ly_releases := filter (\<lambda>r. rl_name r \<noteq> tmp) (ly_releases (h_layout s))\<rparr>\<rparr>"

definition unmark :: "string \<Rightarrow> layout \<Rightarrow> layout" where
  "unmark name l = l\<lparr>ly_releases := map (\<lambda>r. if rl_name r = name then r\<lparr>rl_marker := None\<rparr> else r) (ly_releases l)\<rparr>"

definition materialize_release :: "world \<Rightarrow> deploy_command \<Rightarrow> string \<Rightarrow> string \<Rightarrow> string \<Rightarrow> host \<Rightarrow> host \<times> (string, string) res" where
  "materialize_release w cmd base clone_dir sha s =
     (case prepare_release (h_layout s) (dc_run_id cmd) of
        (l, tmp) \<Rightarrow>
          (case act w (MakeDir tmp) s of
             (s1, Some e) \<Rightarrow> (s1, Inl e)
           | (s1, None) \<Rightarrow>
               let apps = apps_of (\<lambda>_. []) cmd []
               in (case copy_roots w cmd clone_dir (release_path base tmp) (1 < length apps) apps
                          (own (release_path base tmp) (s1\<lparr>h_layout := l\<rparr>)) of
                     (s2, Some e) \<Rightarrow> (drop_staging tmp s2, Inl e)
                   | (s2, None) \<Rightarrow>
                       (case promote_release (w_stamp w (h_trace s2)) tmp sha (h_layout s2) of
                          None \<Rightarrow> (s2, Inl ''no free name'')
                        | Some (l', name) \<Rightarrow>
                            (case act w (NameRelease name) s2 of
                               (s3, Some e) \<Rightarrow> (drop_staging tmp s3, Inl e)
                             | (s3, None) \<Rightarrow>
                                 (case (if sha = [] then (s3, None) else act w (MarkRelease name) s3) of
                                    (s4, Some e) \<Rightarrow> (s4\<lparr>h_layout := unmark name l'\<rparr>, Inl e)
                                  | (s4, None) \<Rightarrow>
                                      (say ''clone'' (''release '' @ name)
                                         (own (release_path base name) (s4\<lparr>h_layout := l'\<rparr>)), Inr name)))))))"

definition report_size :: "world \<Rightarrow> host \<Rightarrow> host" where
  "report_size w s =
     (let n = w_size w (h_trace s) in if 0 < n then say ''install'' (''release size: '' @ human_bytes n) s else s)"

definition prune_step :: "world \<Rightarrow> host \<Rightarrow> host" where
  "prune_step w s =
     (case prune_releases (\<lambda>n. w_ok w (h_trace s) (RemoveTree n) = None) (h_layout s) of
        (l, gone) \<Rightarrow>
          let t = s\<lparr>h_layout := l\<rparr>
          in if gone = [] then t else say ''release'' (''pruned old releases: '' @ str_join '', '' gone) t)"

text \<open>A rollback to a commit that is still on disk\<close>

definition roll_back_to :: "world \<Rightarrow> deploy_command \<Rightarrow> string \<Rightarrow> string \<Rightarrow> host \<Rightarrow> host \<times> phase_error option" where
  "roll_back_to w cmd base name =
     and_then (silently (say ''release'' (''rolling back to release '' @ name @ '' already on disk'')))
       (and_then (silently (note_step (CommitKnown (dc_rollback_sha cmd))))
       (and_then (activate_release w None name) (activate_app_waves w cmd base)))"

definition build_release :: "world \<Rightarrow> deploy_command \<Rightarrow> string \<Rightarrow> string \<Rightarrow> host \<Rightarrow> host \<times> phase_error option" where
  "build_release w cmd base name =
     (if dc_flow cmd \<noteq> []
      then and_then (run_deploy_flow w cmd base name) (silently (report_size w))
      else and_then (with_phase ''install'' (install_apps w cmd (release_path base name)))
            (and_then (with_phase ''install'' (cleanup_apps w cmd (release_path base name)))
            (and_then (silently (report_size w))
            (and_then (activate_release w (Some base) name) (activate_app_waves w cmd base)))))"

definition clone_dir_of :: "credential option \<Rightarrow> deploy_command \<Rightarrow> string" where
  "clone_dir_of cred cmd = path_join [user_tmp cred, ''croncompose-clone-'' @ sanitize_segment (dc_run_id cmd)]"

text \<open>\<open>cloneToTmp\<close>\<close>

definition clone_repo :: "world \<Rightarrow> deploy_command \<Rightarrow> string \<Rightarrow> string \<Rightarrow> string \<Rightarrow> host \<Rightarrow> host \<times> string option" where
  "clone_repo w cmd url branch dir s =
     (case act w (CloneRepo url branch (dc_rollback_sha cmd) dir) s of
        (t, None) \<Rightarrow> (t, None)
      | (t, Some e) \<Rightarrow> (note_step (RemoveTree dir) t, Some e))"

definition clone_step :: "world \<Rightarrow> deploy_command \<Rightarrow> credential option \<Rightarrow> host \<Rightarrow> host \<times> string option" where
  "clone_step w cmd cred =
     (let branch = (if dc_branch cmd = [] then ''main'' else dc_branch cmd); url = w_public w (dc_clone_url cmd);
          dir = clone_dir_of cred cmd
      in and_then (act w (MakeDir (user_tmp cred)))
           (and_then (silently (\<lambda>s. note_step (RemoveTree dir) (own (user_tmp cred) s)))
           (and_then (act w (MakeDir dir))
           (and_then (silently (\<lambda>s. say ''clone'' (''cloning '' @ url @ '' ('' @ branch @ '') into tmp'') (own dir s)))
                     (clone_repo w cmd url branch dir)))))"

definition note_commit :: "string \<Rightarrow> host \<Rightarrow> host" where
  "note_commit sha s = note_step (CommitKnown sha) (say ''clone'' (''tmp clone ready ('' @ short_sha sha @ '')'') s)"

definition write_release_env :: "world \<Rightarrow> deploy_command \<Rightarrow> string \<Rightarrow> string \<Rightarrow> host \<Rightarrow> host \<times> phase_error option" where
  "write_release_env w cmd base name =
     with_phase ''clone'' (prefix_error ''write release .env'' (write_deploy_dotenvs w base (release_path base name) cmd))"

text \<open>\<open>writeSpec\<close>, whose result the code ignores: the text of croncompose.yml\<close>

definition spec_line :: "string \<Rightarrow> string \<Rightarrow> string" where
  "spec_line key v = (if v = [] then [] else key @ '': '' @ v @ [newline])"

definition write_spec :: "world \<Rightarrow> string \<Rightarrow> deploy_command \<Rightarrow> host \<Rightarrow> host" where
  "write_spec w dest cmd =
     note_step (WriteSpec (path_join [dest, ''croncompose.yml''])
       (''provider: auto'' @ [newline] @ ''repo: '' @ w_public w (dc_clone_url cmd) @ [newline] @
        spec_line ''branch'' (dc_branch cmd) @ spec_line ''install'' (dc_install_script cmd) @
        spec_line ''root'' (dc_root_directory cmd) @
        (if dc_clone_url cmd = [] then [] else ''clone_path: '' @ dest @ [newline]) @
        spec_line ''process_manager'' (dc_process_manager cmd)))"

definition own_release :: "string \<Rightarrow> string \<Rightarrow> host \<Rightarrow> host" where
  "own_release base name s = own (path_join [base, ''.env'']) (own (release_path base name) s)"

definition release_from_clone :: "world \<Rightarrow> deploy_command \<Rightarrow> string \<Rightarrow> string \<Rightarrow> string \<Rightarrow> host \<Rightarrow> host \<times> phase_error option" where
  "release_from_clone w cmd base dir sha s =
     (case materialize_release w cmd base dir sha s of
        (t, Inl e) \<Rightarrow> (t, Some (''clone'', e))
      | (t, Inr name) \<Rightarrow>
          and_then (silently (write_spec w (release_path base name) cmd))
            (and_then (write_release_env w cmd base name)
            (and_then (silently (own_release base name))
            (and_then (build_release w cmd base name) (silently (prune_step w))))) t)"

definition remove_clone :: "string \<Rightarrow> host \<Rightarrow> host" where
  "remove_clone dir s = note_step (RemoveTree dir) (say ''clone'' (''removing tmp clone '' @ dir) s)"

definition fresh_deploy :: "world \<Rightarrow> deploy_command \<Rightarrow> string \<Rightarrow> credential option \<Rightarrow> host \<Rightarrow> host \<times> phase_error option" where
  "fresh_deploy w cmd base cred s =
     (let dir = clone_dir_of cred cmd
      in case clone_step w cmd cred s of
           (t, Some e) \<Rightarrow> (t, Some (''clone'', e))
         | (t, None) \<Rightarrow>
             (let sha = w_head w (h_trace t)
              in case release_from_clone w cmd base dir sha (note_commit sha t) of
                   (u, r) \<Rightarrow> (remove_clone dir u, r)))"

definition release_or_roll_back :: "world \<Rightarrow> deploy_command \<Rightarrow> string \<Rightarrow> credential option \<Rightarrow> host \<Rightarrow> host \<times> phase_error option" where
  "release_or_roll_back w cmd base cred t =
     (let pin = dc_rollback_sha cmd
      in if pin = [] then fresh_deploy w cmd base cred t
         else (case find_release (h_layout t) pin of
                 Some name \<Rightarrow> roll_back_to w cmd base name t
               | None \<Rightarrow> fresh_deploy w cmd base cred
                   (say ''clone'' (''commit '' @ short_sha pin @ '' is not on disk; fetching it'') t)))"

definition deploy_as :: "world \<Rightarrow> deploy_command \<Rightarrow> string \<Rightarrow> credential option \<Rightarrow> host \<Rightarrow> host \<times> phase_error option" where
  "deploy_as w cmd base cred =
     and_then (with_phase ''preflight'' (preflight w base (dc_install_script cmd) (dc_process_manager cmd) cred))
       (and_then (migrate w base) (release_or_roll_back w cmd base cred))"

definition deploy :: "world \<Rightarrow> deploy_command \<Rightarrow> host \<Rightarrow> host \<times> phase_error option" where
  "deploy w cmd s =
     (let base = path_clean (dc_dest_path cmd)
      in if base = [] \<or> base = ''.'' \<or> \<not> rooted base then (s, Some ([], ''dest_path must be an absolute path''))
         else (case w_user w (dc_run_as_user cmd) of
                 Inl e \<Rightarrow> (s, Some (''preflight'', e))
               | Inr cred \<Rightarrow> deploy_as w cmd base cred s))"

section \<open>A run\<close>

text \<open>What ends the context of a run, if anything does before the deploy returns.\<close>

datatype context_end = Lives | DeadlineExceeded | Canceled

definition duration_text :: "int \<Rightarrow> string" where
  "duration_text secs =
     (let h = secs div 3600; m = secs div 60 mod 60; r = secs mod 60
      in if secs < 60 then itoa r @ ''s''
         else if secs < 3600 then itoa m @ ''m'' @ itoa r @ ''s''
         else itoa h @ ''h'' @ itoa m @ ''m'' @ itoa r @ ''s'')"

text \<open>\<open>fail\<close>: the message of the finished event\<close>

definition fail_message :: "string \<Rightarrow> string \<Rightarrow> string" where
  "fail_message phase msg0 =
     (let msg1 = trim_space msg0; msg = (if msg1 = [] then ''deploy failed'' else msg1)
      in if phase \<noteq> [] \<and> \<not> has_prefix msg (phase @ '':'') then phase @ '': '' @ msg else msg)"

definition failed_event :: "string \<Rightarrow> string \<Rightarrow> string \<Rightarrow> deploy_metrics option \<Rightarrow> deploy_event" where
  "failed_event run_id phase msg met =
     \<lparr>de_run_id = run_id, de_kind = ''finished'', de_data = [], de_message = fail_message phase msg,
      de_exit_code = 1, de_status = ''failed'', de_seq = 0, de_commit_sha = [], de_phase = phase, de_metrics = met\<rparr>"

definition finished_event :: "deploy_command \<Rightarrow> context_end \<Rightarrow> phase_error option \<Rightarrow> deploy_metrics option \<Rightarrow> deploy_event" where
  "finished_event cmd ended outcome met =
     (case outcome of
        None \<Rightarrow> \<lparr>de_run_id = dc_run_id cmd, de_kind = ''finished'', de_data = [], de_message = ''deploy finished'',
                de_exit_code = 0, de_status = ''succeeded'', de_seq = 0, de_commit_sha = [], de_phase = [], de_metrics = met\<rparr>
      | Some (phase, msg) \<Rightarrow>
          (case ended of
             DeadlineExceeded \<Rightarrow> failed_event (dc_run_id cmd) ''install''
               (''deploy timed out after '' @ duration_text (deploy_budget (dc_timeout_seconds cmd))) met
           | Canceled \<Rightarrow> failed_event (dc_run_id cmd) phase ''deploy canceled'' met
           | Lives \<Rightarrow> failed_event (dc_run_id cmd) phase (redact_token msg (dc_clone_token cmd)) met))"

end
