(* ===== verification/DeployFlowFacts.thy ===== *)
theory DeployFlowFacts
  imports DeployFlow
begin

text \<open>
  What a deploy on the agent keeps: the link moves at most once and before anything is started or
  probed; a build that fails leaves the release that is served as it is; a deploy in which nothing
  fails starts every app; and two places where the code does not do what it means to. The relation
  \<open>grows\<close> says what an operation extends to the trace; it is closed under every combinator of the
  model, so each operation is a line.
\<close>

named_theorems grow \<open>operations that only add steps of a kind\<close>

section \<open>Adding steps\<close>

definition may_run :: "(host_step \<Rightarrow> bool) \<Rightarrow> bool" where
  "may_run Q \<longleftrightarrow> (\<exists>a k n i. Q (LaunchApp ''run'' a k n i))"

definition grows :: "(host_step \<Rightarrow> bool) \<Rightarrow> host \<Rightarrow> host \<Rightarrow> bool" where
  "grows Q s t \<longleftrightarrow> (\<exists>ys. h_trace t = h_trace s @ ys \<and> list_all Q ys) \<and> h_layout t = h_layout s \<and>
     (may_run Q \<or> h_launched t = h_launched s)"

definition emits :: "(host_step \<Rightarrow> bool) \<Rightarrow> (host \<Rightarrow> host \<times> 'e option) \<Rightarrow> bool" where
  "emits Q f \<longleftrightarrow> (\<forall>s. grows Q s (fst (f s)))"

definition lines_ok :: "(host_step \<Rightarrow> bool) \<Rightarrow> bool" where
  "lines_ok Q \<longleftrightarrow> (\<forall>p t. Q (Line p t))"

lemma grows_refl [grow]: "grows Q s s"
  by (simp add: grows_def)

lemma grows_trans: "grows Q s t \<Longrightarrow> grows Q t u \<Longrightarrow> grows Q s u"
  by (auto simp: grows_def)

lemma grows_note: "Q x \<Longrightarrow> grows Q s (note_step x s)"
  by (simp add: grows_def note_step_def)

lemma grows_say: "lines_ok Q \<Longrightarrow> grows Q s (say p t s)"
  by (simp add: say_def grows_note lines_ok_def)

lemma emitsD: "emits Q f \<Longrightarrow> f s = (t, r) \<Longrightarrow> grows Q s t"
  by (metis emits_def fst_conv)

lemma emits_silently: "(\<And>s. grows Q s (f s)) \<Longrightarrow> emits Q (silently f)"
  by (simp add: emits_def silently_def)

lemma emits_id [grow]: "emits Q (silently id)"
  by (simp add: emits_silently grows_refl)

lemma emits_say [grow]: "lines_ok Q \<Longrightarrow> emits Q (silently (say p t))"
  by (simp add: emits_silently grows_say)

lemma emits_act [grow]: "Q x \<Longrightarrow> emits Q (act w x)"
  by (simp add: emits_def act_def grows_note)

lemma emits_and_then [grow]: "emits Q f \<Longrightarrow> emits Q g \<Longrightarrow> emits Q (and_then f g)"
  unfolding emits_def and_then_def by (auto split: prod.split option.split intro: grows_trans)
    (metis fst_conv grows_trans)+

lemma emits_with_phase [grow]: "emits Q f \<Longrightarrow> emits Q (with_phase p f)"
  by (auto simp: emits_def with_phase_def split: prod.split) (metis fst_conv)

lemma emits_prefix [grow]: "emits Q f \<Longrightarrow> emits Q (prefix_error p f)"
  by (auto simp: emits_def prefix_error_def split: prod.split) (metis fst_conv)

lemma emits_when_any [grow]: "(xs \<noteq> [] \<Longrightarrow> emits Q f) \<Longrightarrow> emits Q (when_any xs f)"
  by (simp add: when_any_def emits_id)

lemma emits_fail [grow]: "emits Q (\<lambda>s. (s, r))"
  by (simp add: emits_def grows_refl)

lemma run_each_grows:
  "(\<And>x. x \<in> set xs \<Longrightarrow> emits Q (f x)) \<Longrightarrow> grows Q s (fst (run_each f xs s))"
proof (induction xs arbitrary: s)
  case (Cons x xs)
  obtain t r where f: "f x s = (t, r)" by (cases "f x s")
  have "grows Q s t" using Cons.prems[of x] f by (auto intro: emitsD)
  moreover have "grows Q t (fst (run_each f xs t))" using Cons by simp
  ultimately show ?case by (auto simp: f split: prod.splits intro: grows_trans)
qed (simp add: grows_refl)

lemma emits_all_of [grow]: "(\<And>x. x \<in> set xs \<Longrightarrow> emits Q (f x)) \<Longrightarrow> emits Q (all_of f xs)"
  unfolding emits_def[of Q "all_of f xs"] all_of_def using run_each_grows[of xs Q f]
  by (auto split: prod.split) (metis fst_conv)

lemma emits_state: "(\<And>s. emits Q (f s)) \<Longrightarrow> emits Q (\<lambda>s. f s s)"
  by (simp add: emits_def)

section \<open>The operations\<close>

lemma emits_one_script [grow]: "lines_ok Q \<Longrightarrow> Q (RunScript p j) \<Longrightarrow> emits Q (run_one_script w p j)"
  by (simp add: run_one_script_def grow)

lemma emits_scripts [grow]:
  assumes "lines_ok Q" "\<And>p j. Q (RunScript p j)"
  shows "emits Q (run_app_scripts w p jobs)"
  unfolding emits_def run_app_scripts_def Let_def
  using emits_one_script[OF assms(1), of _ _ w] emits_all_of[of _ Q "run_one_script w _"] assms(2)
  by (auto split: list.split simp: emits_def grows_refl)

definition scripts_ok :: "(host_step \<Rightarrow> bool) \<Rightarrow> bool" where
  "scripts_ok Q \<longleftrightarrow> lines_ok Q \<and> (\<forall>p j. Q (RunScript p j))"

definition serving_ok :: "(host_step \<Rightarrow> bool) \<Rightarrow> bool" where
  "serving_ok Q \<longleftrightarrow> scripts_ok Q \<and> (\<forall>a k n i. Q (LaunchApp ''start'' a k n i)) \<and>
     (\<forall>u b. Q (ProbeHealth u b)) \<and> (\<forall>k m. Q (PersistManager k m))"

definition running_ok :: "(host_step \<Rightarrow> bool) \<Rightarrow> bool" where
  "running_ok Q \<longleftrightarrow> serving_ok Q \<and> (\<forall>a k n i. Q (LaunchApp ''run'' a k n i))"

lemma running_serving: "running_ok Q \<Longrightarrow> serving_ok Q"
  by (simp add: running_ok_def)

lemma serving_scripts: "serving_ok Q \<Longrightarrow> scripts_ok Q"
  by (simp add: serving_ok_def)

lemma scripts_lines: "scripts_ok Q \<Longrightarrow> lines_ok Q"
  by (simp add: scripts_ok_def)

lemma serving_lines: "serving_ok Q \<Longrightarrow> lines_ok Q"
  by (simp add: serving_ok_def scripts_ok_def)

lemma scripts_grow [grow]: "scripts_ok Q \<Longrightarrow> emits Q (run_app_scripts w p jobs)"
  by (simp add: scripts_ok_def emits_scripts)

lemma install_grow [grow]: "scripts_ok Q \<Longrightarrow> emits Q (install_apps w cmd r)"
  using scripts_grow by (simp add: emits_def install_apps_def)

lemma cleanup_grow [grow]: "scripts_ok Q \<Longrightarrow> emits Q (cleanup_apps w cmd r)"
  using scripts_grow by (simp add: emits_def cleanup_apps_def)

lemma pre_start_grow [grow]: "scripts_ok Q \<Longrightarrow> emits Q (pre_start_apps w cmd base apps)"
  using scripts_grow by (simp add: emits_def pre_start_apps_def)

lemma launch_grow [grow]: "serving_ok Q \<Longrightarrow> emits Q (launch w cmd ''start'' work app)"
  "running_ok Q \<Longrightarrow> emits Q (launch w cmd ''run'' work app)"
  by (simp_all add: launch_def serving_ok_def running_ok_def emits_act)

lemma start_app_grow [grow]: "serving_ok Q \<Longrightarrow> emits Q (start_app w cmd base app)"
  using launch_grow(1)[of Q w cmd] grows_say[OF serving_lines]
  by (simp add: emits_def start_app_def Let_def)

lemma note_launched_grow [grow]: "running_ok Q \<Longrightarrow> emits Q (silently (note_launched n))"
  by (auto simp: emits_silently note_launched_def grows_def running_ok_def may_run_def)

lemma run_app_grow [grow]: "running_ok Q \<Longrightarrow> emits Q (run_app w cmd base app)"
  by (simp add: run_app_def Let_def grow)

lemma check_app_grow [grow]: "serving_ok Q \<Longrightarrow> emits Q (check_app w cmd app)"
  using emits_act[of Q _ w]
  by (auto simp: emits_def check_app_def serving_ok_def grows_refl split: option.split prod.split)

lemma persist_each_grow: "serving_ok Q \<Longrightarrow> emits Q (persist_each w cmd base seen apps)"
proof (induction apps arbitrary: seen)
  case (Cons a apps)
  have a: "emits Q (act w (PersistManager k m))" for k m
    using Cons.prems by (simp add: serving_ok_def emits_act)
  show ?case
    using Cons emits_and_then[OF a Cons.IH[OF Cons.prems]] by (simp add: emits_def Let_def)
qed (simp add: emits_def grows_refl)

lemma persist_grow [grow]: "serving_ok Q \<Longrightarrow> emits Q (persist_process_managers w cmd base)"
  using persist_each_grow by (simp add: emits_def persist_process_managers_def)

lemma start_wave_grow [grow]: "serving_ok Q \<Longrightarrow> emits Q (start_wave w cmd base wave)"
  by (simp add: start_wave_def start_apps_def check_health_def grow serving_scripts)

lemma announce_wave_grow: "lines_ok Q \<Longrightarrow> grows Q s (announce_wave n i wave s)"
  by (simp add: announce_wave_def grows_say grows_refl)

lemma start_waves_grow: "serving_ok Q \<Longrightarrow> grows Q s (fst (start_waves w cmd base n i waves s))"
proof (induction w cmd base n i waves s rule: start_waves.induct)
  case (2 w cmd base n i wave waves s)
  obtain t r where t: "start_wave w cmd base wave (announce_wave n i wave s) = (t, r)"
    by (cases "start_wave w cmd base wave (announce_wave n i wave s)")
  have g: "grows Q s t"
    using announce_wave_grow[OF serving_lines[OF 2(3)]] emitsD[OF start_wave_grow[OF 2(3)] t] by (rule grows_trans)
  show ?case
  proof (cases r)
    case None
    then show ?thesis using 2(1)[OF t[symmetric]] 2(3) g t by (auto intro: grows_trans)
  next
    case (Some e)
    obtain p m where e: "e = (p, m)" by (cases e)
    let ?u = "say p (''wave failed; continuing: '' @ m) t"
    have u: "grows Q s ?u" using g grows_say[OF serving_lines[OF 2(3)]] by (rule grows_trans)
    have "continue_on_fail cmd \<Longrightarrow> grows Q s (fst (start_waves w cmd base n (Suc i) waves ?u))"
      using 2(2)[OF t[symmetric]] 2(3) Some e u by (auto intro: grows_trans)
    then show ?thesis using g t Some e by (auto split: prod.split sum.split)
  qed
qed (simp add: grows_refl)

lemma finish_grow [grow]: "serving_ok Q \<Longrightarrow> emits Q (finish_waves w cmd base errs)"
  by (simp add: finish_waves_def grow)

lemma waves_grow [grow]: "serving_ok Q \<Longrightarrow> emits Q (activate_app_waves w cmd base)"
  unfolding emits_def activate_app_waves_def Let_def
  using start_waves_grow[of Q] finish_grow[of Q w cmd base]
  by (auto split: prod.split sum.split simp: emits_def) (metis fst_conv grows_trans)+

lemma write_env_grow [grow]: "(\<And>p. Q (WriteEnvFile p)) \<Longrightarrow> emits Q (write_env w path env)"
  by (auto simp: emits_def write_env_def Let_def grows_def note_step_def split: sum.split)

lemma write_app_envs_grow [grow]: "(\<And>p. Q (WriteEnvFile p)) \<Longrightarrow> emits Q (write_app_envs w r cmd apps)"
proof (induction apps)
  case (Cons a apps)
  then show ?case using emits_and_then[OF write_env_grow[of Q] Cons.IH[OF Cons.prems]]
    by (simp add: emits_def Let_def)
qed (simp add: emits_def grows_refl)

lemma dotenvs_grow [grow]: "(\<And>p. Q (WriteEnvFile p)) \<Longrightarrow> emits Q (write_deploy_dotenvs w base r cmd)"
proof -
  assume Q: "\<And>p. Q (WriteEnvFile p)"
  have a: "emits Q (write_app_envs w r cmd apps)" for apps by (rule write_app_envs_grow) (rule Q)
  have e: "emits Q (write_env w path env)" for path env by (rule write_env_grow) (rule Q)
  note b = emits_and_then[OF e e] emits_and_then[OF e emits_id]
  show ?thesis
    using b emits_and_then[OF b(1) a] emits_and_then[OF b(2) a]
    by (simp add: emits_def write_deploy_dotenvs_def Let_def)
qed

section \<open>Before and after the link moves\<close>

definition no_swap :: "host_step \<Rightarrow> bool" where
  "no_swap x = (case x of SwapLink _ \<Rightarrow> False | _ \<Rightarrow> True)"

definition serving :: "host_step \<Rightarrow> bool" where
  "serving x = (case x of LaunchApp _ _ _ _ _ \<Rightarrow> True | ProbeHealth _ _ \<Rightarrow> True | PersistManager _ _ \<Rightarrow> True | _ \<Rightarrow> False)"

definition quiet :: "host_step \<Rightarrow> bool" where
  "quiet x \<longleftrightarrow> no_swap x \<and> \<not> serving x"

text \<open>The traces of a deploy: quiet, or quiet up to the only move of the link.\<close>

definition one_swap :: "host_step list \<Rightarrow> bool" where
  "one_swap ys \<longleftrightarrow> list_all quiet ys \<or>
     (\<exists>qs n rs. ys = qs @ SwapLink n # rs \<and> list_all quiet qs \<and> list_all no_swap rs)"

definition phased :: "host \<Rightarrow> host \<Rightarrow> bool" where
  "phased s t \<longleftrightarrow> (\<exists>ys. h_trace t = h_trace s @ ys \<and> one_swap ys)"

definition extends :: "(host_step \<Rightarrow> bool) \<Rightarrow> host \<Rightarrow> host \<Rightarrow> bool" where
  "extends Q s t \<longleftrightarrow> (\<exists>ys. h_trace t = h_trace s @ ys \<and> list_all Q ys) \<and>
     ly_current (h_layout t) = ly_current (h_layout s)"

lemma kinds: "serving_ok no_swap" "scripts_ok quiet" "lines_ok quiet" "lines_ok no_swap" "\<And>p. quiet (WriteEnvFile p)"
  "running_ok no_swap"
  by (simp_all add: running_ok_def serving_ok_def scripts_ok_def lines_ok_def quiet_def no_swap_def serving_def)

lemma quiet_no_swap: "list_all quiet ys \<Longrightarrow> list_all no_swap ys"
  by (auto simp: list_all_iff quiet_def)

lemma adds_grows: "grows Q s t \<Longrightarrow> extends Q s t"
  by (simp add: extends_def grows_def)

lemma extends_refl: "extends Q s s"
  by (simp add: extends_def)

lemma adds_trans: "extends Q s t \<Longrightarrow> extends Q t u \<Longrightarrow> extends Q s u"
  by (auto simp: extends_def)

lemma adds_note: "Q x \<Longrightarrow> extends Q s (note_step x s)"
  by (simp add: adds_grows grows_note)

lemma adds_say: "lines_ok Q \<Longrightarrow> extends Q s (say p t s)"
  by (simp add: adds_grows grows_say)

lemma phased_quiet: "extends quiet s t \<Longrightarrow> phased s t"
  by (auto simp: extends_def phased_def one_swap_def)

lemma phased_refl: "phased s s"
  by (simp add: phased_quiet extends_refl)

lemma one_swap_before: "list_all quiet xs \<Longrightarrow> one_swap ys \<Longrightarrow> one_swap (xs @ ys)"
  unfolding one_swap_def by (metis append_assoc list_all_append)

lemma one_swap_after: "one_swap ys \<Longrightarrow> list_all quiet zs \<Longrightarrow> one_swap (ys @ zs)"
  unfolding one_swap_def by (metis append_assoc append_Cons list_all_append quiet_no_swap)

lemma phased_before: "extends quiet s t \<Longrightarrow> phased t u \<Longrightarrow> phased s u"
  unfolding extends_def phased_def using one_swap_before by fastforce

lemma phased_after: "phased s t \<Longrightarrow> extends quiet t u \<Longrightarrow> phased s u"
  unfolding extends_def phased_def using one_swap_after by fastforce

lemma activate_step:
  assumes "activate_release w b name s = (t, r)"
  shows "\<exists>rs. h_trace t = h_trace s @ SwapLink name # rs \<and> list_all no_swap rs"
  using assms by (auto simp: activate_release_def own_base_def own_def act_def say_def note_step_def no_swap_def split: option.splits)

definition swapped :: "host \<Rightarrow> host \<Rightarrow> bool" where
  "swapped s t \<longleftrightarrow> (\<exists>qs n rs. h_trace t = h_trace s @ qs @ SwapLink n # rs \<and> list_all quiet qs \<and> list_all no_swap rs)"

lemma swapped_phased: "swapped s t \<Longrightarrow> phased s t"
  unfolding swapped_def phased_def one_swap_def by blast

lemma swapped_before: "extends quiet s t \<Longrightarrow> swapped t u \<Longrightarrow> swapped s u"
  unfolding extends_def swapped_def by (metis append_assoc list_all_append)

lemma swapped_after: "swapped s t \<Longrightarrow> extends no_swap t u \<Longrightarrow> swapped s u"
  unfolding extends_def swapped_def by (metis append_assoc append_Cons list_all_append)

lemma swapped_swap:
  assumes "activate_release w b name s = (t, r)" "extends no_swap t u"
  shows "swapped s u"
proof -
  obtain rs where "h_trace t = h_trace s @ [] @ SwapLink name # rs" "list_all no_swap rs"
    using activate_step[OF assms(1)] by auto
  then have "swapped s t" unfolding swapped_def by (metis list.pred_inject(1))
  then show ?thesis using assms(2) by (rule swapped_after)
qed

lemma phased_swap: "activate_release w b name s = (t, r) \<Longrightarrow> extends no_swap t u \<Longrightarrow> phased s u"
  by (rule swapped_phased) (rule swapped_swap)

lemma activate_phased: "phased s (fst (activate_release w b name s))"
  using phased_swap[of w b name s _ _ "fst (activate_release w b name s)"] extends_refl by (metis prod.collapse)

lemma phased_activate_then:
  assumes "emits no_swap f"
  shows "phased s (fst (and_then (activate_release w b name) f s))"
proof -
  obtain t r where t: "activate_release w b name s = (t, r)" by (cases "activate_release w b name s")
  have "extends no_swap t (fst (f t))" using assms by (simp add: emits_def adds_grows)
  then show ?thesis
    using phased_swap[OF t] activate_phased[of s w b name] t by (auto simp: and_then_def split: option.split)
qed

section \<open>Flows\<close>

lemma plan_pre:
  "\<not> needs_post tasks \<Longrightarrow> plan_tasks cmd root apps tasks p = Inr q \<Longrightarrow>
   wp_run q = wp_run p \<and> wp_start q = wp_start p \<and> wp_health q = wp_health p"
proof (induction tasks arbitrary: p)
  case (Cons t ts)
  then have "\<not> needs_post ts" "task_phase t \<notin> set post_release_phases" by (simp_all add: needs_post_def)
  then show ?case using Cons
    by (auto simp: Let_def post_release_phases_def split: option.splits if_splits)
qed simp

lemma run_apps_grow [grow]: "running_ok Q \<Longrightarrow> emits Q (run_apps w cmd base apps)"
  by (simp add: run_apps_def grow)

lemma start_apps_grow [grow]: "serving_ok Q \<Longrightarrow> emits Q (start_apps w cmd base apps)"
  by (simp add: start_apps_def grow)

lemma check_health_grow [grow]: "serving_ok Q \<Longrightarrow> emits Q (check_health w cmd apps)"
  by (simp add: check_health_def grow)

lemma run_plan_live: "running_ok Q \<Longrightarrow> emits Q (run_plan w cmd base True p)"
  by (simp add: run_plan_def grow serving_scripts running_serving)

lemma run_plan_early:
  "scripts_ok Q \<Longrightarrow> wp_health p = [] \<Longrightarrow> emits Q (run_plan w cmd base False p)"
  by (simp add: run_plan_def grow)

lemma flow_wave_grow: "running_ok Q \<Longrightarrow> emits Q (run_flow_wave w cmd base root True apps tasks)"
  using run_plan_live[of Q] by (auto simp: emits_def run_flow_wave_def grows_refl split: sum.split)

lemma early_wave_grow:
  assumes "scripts_ok Q" "\<not> needs_post tasks"
  shows "emits Q (run_flow_wave w cmd base root False apps tasks)"
proof -
  have "wp_health p = []"
    if "plan_tasks cmd root apps tasks \<lparr>wp_jobs = [], wp_run = [], wp_start = [], wp_health = []\<rparr> = Inr p" for p
    using plan_pre[OF assms(2) that] by simp
  then show ?thesis
    using run_plan_early[OF assms(1), of _ w cmd base] by (auto simp: emits_def run_flow_wave_def grows_refl split: sum.split)
qed

lemma announce_flow_grow: "lines_ok Q \<Longrightarrow> grows Q s (announce_flow n i tasks s)"
  by (simp add: announce_flow_def grows_say grows_refl)

lemma flow_loop_live: "grows no_swap s (fst (flow_loop w cmd base name n i waves True apps errs s))"
proof (induction waves arbitrary: i apps errs s)
  case (Cons tasks waves)
  obtain u r where u: "run_flow_wave w cmd base (current_path base) True apps tasks (announce_flow n i tasks s) = (u, r)"
    by (cases "run_flow_wave w cmd base (current_path base) True apps tasks (announce_flow n i tasks s)")
  have g: "grows no_swap s u"
    using announce_flow_grow[OF kinds(4)] emitsD[OF flow_wave_grow[OF kinds(6)] u] by (rule grows_trans)
  have "grows no_swap s (say p m u)" for p m using g grows_say[OF kinds(4)] by (rule grows_trans)
  then show ?case using u g Cons.IH grows_trans
    by (auto simp: Let_def split: option.split) blast+
qed (simp add: grows_refl)

text \<open>The loop before the release: it stays quiet, or the link moves once.\<close>

definition loop_ok :: "host \<Rightarrow> host \<times> (phase_error, bool \<times> string list) res \<Rightarrow> bool" where
  "loop_ok s out \<longleftrightarrow> phased s (fst out) \<and>
     (case snd out of Inl _ \<Rightarrow> True | Inr (released, _) \<Rightarrow> if released then swapped s (fst out) else extends quiet s (fst out))"

lemma loop_ok_before: "extends quiet s t \<Longrightarrow> loop_ok t out \<Longrightarrow> loop_ok s out"
  by (auto simp: loop_ok_def split: sum.splits intro: phased_before swapped_before adds_trans)

lemma flow_loop_released: "snd (flow_loop w cmd base name n i waves True apps errs s) = Inr (b, es) \<Longrightarrow> b"
  by (induction waves arbitrary: i apps errs s) (auto simp: Let_def split: option.splits prod.splits if_splits)

lemma flow_loop_ok: "loop_ok s (flow_loop w cmd base name n i waves False apps errs s)"
proof (induction waves arbitrary: i apps errs s)
  case (Cons tasks waves)
  consider "tasks = []" | "tasks \<noteq> []" "needs_post tasks" "needs_pre tasks" |
    "tasks \<noteq> []" "needs_post tasks" "\<not> needs_pre tasks" | "tasks \<noteq> []" "\<not> needs_post tasks" by blast
  then show ?case
  proof cases
    case 1
    then show ?thesis using Cons.IH by simp
  next
    case 2
    then show ?thesis by (simp add: loop_ok_def phased_refl)
  next
    case 3
    obtain t r where t: "activate_release w (Some base) name s = (t, r)" by (cases "activate_release w (Some base) name s")
    let ?as = "apps_of (w_lang w (h_trace t)) cmd (current_path base)"
    obtain u q where u: "run_flow_wave w cmd base (current_path base) True ?as tasks (announce_flow n i tasks t) = (u, q)"
      by (cases "run_flow_wave w cmd base (current_path base) True ?as tasks (announce_flow n i tasks t)")
    have g: "grows no_swap t u"
      using announce_flow_grow[OF kinds(4)] emitsD[OF flow_wave_grow[OF kinds(6)] u] by (rule grows_trans)
    have g2: "grows no_swap t (say p m u)" for p m using g grows_say[OF kinds(4)] by (rule grows_trans)
    have live: "loop_ok s (flow_loop w cmd base name n j waves True as es v)" if "grows no_swap t v" for j as es v
    proof -
      have "grows no_swap t (fst (flow_loop w cmd base name n j waves True as es v))"
        using that flow_loop_live by (rule grows_trans)
      then have "swapped s (fst (flow_loop w cmd base name n j waves True as es v))"
        using swapped_swap[OF t] adds_grows by blast
      then show ?thesis by (auto simp: loop_ok_def swapped_phased split: sum.split dest: flow_loop_released)
    qed
    have "phased s t" using activate_phased[of s w "Some base" name] t by simp
    moreover have "phased s u" using phased_swap[OF t] adds_grows[OF g] by blast
    ultimately show ?thesis using 3 t u live[OF g] live[OF g2]
      by (auto simp: Let_def loop_ok_def[of s "(_, Inl _)"] split: option.split prod.split)
  next
    case 4
    let ?root = "release_path base name"
    obtain u q where u: "run_flow_wave w cmd base ?root False apps tasks (announce_flow n i tasks s) = (u, q)"
      by (cases "run_flow_wave w cmd base ?root False apps tasks (announce_flow n i tasks s)")
    have g: "grows quiet s u"
      using announce_flow_grow[OF kinds(3)] emitsD[OF early_wave_grow[OF kinds(2) 4(2)] u] by (rule grows_trans)
    have g2: "grows quiet s (say p m u)" for p m using g grows_say[OF kinds(3)] by (rule grows_trans)
    show ?thesis
      using 4 u loop_ok_before[OF adds_grows[OF g] Cons.IH] loop_ok_before[OF adds_grows[OF g2] Cons.IH]
        phased_quiet[OF adds_grows[OF g]]
      by (auto simp: Let_def loop_ok_def[of s "(_, Inl _)"] split: option.split prod.split)
  qed
qed (simp add: loop_ok_def phased_refl extends_refl)

section \<open>The pipeline\<close>

lemma flow_phased: "phased s (fst (run_deploy_flow w cmd base name s))"
proof -
  define out where "out = flow_loop w cmd base name (length (dc_flow cmd)) 1 (dc_flow cmd) False
      (apps_of (w_lang w (h_trace s)) cmd (release_path base name)) [] s"
  have ok: "loop_ok s out" unfolding out_def by (rule flow_loop_ok)
  have r: "run_deploy_flow w cmd base name s = (case out of (t, Inl e) \<Rightarrow> (t, Some e)
      | (t, Inr (released, errs)) \<Rightarrow>
          and_then (if released then silently id else activate_release w (Some base) name) (finish_waves w cmd base errs) t)"
    by (simp only: run_deploy_flow_def out_def)
  obtain t o2 where o: "out = (t, o2)" by (cases out)
  have pt: "phased s t" using ok o by (simp add: loop_ok_def)
  show ?thesis
  proof (cases o2)
    case (Inl e)
    then show ?thesis using pt by (simp add: r o)
  next
    case (Inr p)
    obtain released errs where p: "p = (released, errs)" by (cases p)
    show ?thesis
    proof (cases released)
      case False
      have "extends quiet s t" using ok o Inr p False by (simp add: loop_ok_def)
      moreover have "phased t (fst (and_then (activate_release w (Some base) name) (finish_waves w cmd base errs) t))"
        by (rule phased_activate_then) (rule finish_grow[OF kinds(1)])
      ultimately show ?thesis using False by (simp add: r o Inr p phased_before)
    next
      case True
      have e: "emits no_swap (and_then (silently id) (finish_waves w cmd base errs))"
        by (intro grow kinds)
      have "swapped s t" using ok o Inr p True by (simp add: loop_ok_def)
      moreover have "extends no_swap t (fst (and_then (silently id) (finish_waves w cmd base errs) t))"
        using e by (simp add: emits_def adds_grows)
      ultimately show ?thesis using True swapped_after swapped_phased by (simp add: r o Inr p)
    qed
  qed
qed

lemma phased_emits: "emits quiet f \<Longrightarrow> (\<And>t. phased t (fst (g t))) \<Longrightarrow> phased s (fst (and_then f g s))"
proof -
  assume f: "emits quiet f" and g: "\<And>t. phased t (fst (g t))"
  obtain t r where t: "f s = (t, r)" by (cases "f s")
  have q: "extends quiet s t" using emitsD[OF f t] by (rule adds_grows)
  show ?thesis using q phased_before[OF q g[of t]] phased_quiet[OF q] by (simp add: and_then_def t split: option.split)
qed

lemma phased_and_quiet:
  "phased s (fst (f s)) \<Longrightarrow> (\<And>t. extends quiet t (fst (g t))) \<Longrightarrow> phased s (fst (and_then f g s))"
  using phased_after[of s "fst (f s)"] by (auto simp: and_then_def split: prod.split option.split)

lemma report_size_grows: "lines_ok Q \<Longrightarrow> grows Q s (report_size w s)"
  by (simp add: report_size_def Let_def grows_say grows_refl)

lemma waves_after_swap: "phased s (fst (and_then (activate_release w b name) (activate_app_waves w cmd base) s))"
  by (rule phased_activate_then) (rule waves_grow[OF kinds(1)])

lemma quiet_size: "emits quiet (silently (report_size w))"
  by (simp add: emits_silently report_size_grows kinds)

lemma build_phased: "phased s (fst (build_release w cmd base name s))"
proof (cases "dc_flow cmd = []")
  case True
  have i: "emits quiet (with_phase ''install'' (install_apps w cmd r))"
    "emits quiet (with_phase ''install'' (cleanup_apps w cmd r))" for r by (intro grow kinds)+
  show ?thesis using True unfolding build_release_def
    by (simp, intro phased_emits i quiet_size waves_after_swap)
next
  case False
  have "extends quiet t (fst (silently (report_size w) t))" for t
    by (simp add: silently_def adds_grows report_size_grows kinds)
  then show ?thesis using False unfolding build_release_def
    by (simp, intro phased_and_quiet flow_phased)
qed

lemma promote_current: "promote_release now tmp sha l = Some (l', n) \<Longrightarrow> ly_current l' = ly_current l"
  by (auto simp: promote_release_def)

lemma prepare_current: "prepare_release l i = (l', tmp) \<Longrightarrow> ly_current l' = ly_current l"
  by (auto simp: prepare_release_def Let_def)

lemma adds_layout: "extends Q s t \<Longrightarrow> ly_current l = ly_current (h_layout s) \<Longrightarrow> extends Q s (t\<lparr>h_layout := l\<rparr>)"
  by (simp add: extends_def)

lemma copy_roots_grow [grow]: "emits quiet (copy_roots w cmd d st multi apps)"
proof (induction apps)
  case (Cons a apps)
  have c: "emits quiet (act w (CopyAppRoot x y))" for x y
    by (intro grow) (simp add: quiet_def no_swap_def serving_def)
  have "emits quiet (and_then (silently (say p m)) (and_then (act w (CopyAppRoot x y)) (copy_roots w cmd d st multi apps)))"
    for p m x y by (intro grow kinds c Cons)
  then show ?case by (simp add: emits_def Let_def)
qed (simp add: emits_def grows_refl)

lemma act_adds: "act w x s = (t, r) \<Longrightarrow> Q x \<Longrightarrow> extends Q s t"
  using emitsD[OF emits_act] adds_grows by blast

lemma act_quiet: "act w x s = (t, r) \<Longrightarrow> quiet x \<Longrightarrow> extends quiet s t"
  by (rule act_adds)

lemma quiet_note: "quiet x \<Longrightarrow> extends quiet s (note_step x s)"
  by (rule adds_note)

lemma quiet_steps: "quiet (MakeDir n)" "quiet (NameRelease n)" "quiet (MarkRelease n)" "quiet (RemoveTree n)"
  "quiet (CloneRepo a b c d)" "quiet (CommitKnown n)" "quiet MoveAside" "quiet (MoveInto n)" "quiet (MakeUserDirs n m)"
  "quiet (TestWritable n)" "quiet (Line p n)" "quiet (OwnTree n)" "quiet (WriteSpec n m)" "quiet (WriteEnvFile n)"
  by (simp_all add: quiet_def no_swap_def serving_def)

lemma grows_own: "grows quiet s (own path s)"
  by (simp add: own_def grows_note quiet_steps)

lemma unmark_current: "ly_current (unmark n l) = ly_current l"
  by (simp add: unmark_def)

lemma drop_staging_adds: "extends Q s t \<Longrightarrow> extends Q s (drop_staging tmp t)"
  by (simp add: drop_staging_def extends_def)

text \<open>The finished releases and the link are as they were, and no process was touched.\<close>

definition still :: "host \<Rightarrow> host \<Rightarrow> bool" where
  "still s t \<longleftrightarrow> extends quiet s t \<and> h_launched t = h_launched s \<and>
     {r \<in> set (ly_releases (h_layout s)). \<not> has_prefix (rl_name r) tmp_dir_pattern} \<subseteq> set (ly_releases (h_layout t))"

lemma quiet_no_run: "\<not> may_run quiet"
  by (simp add: may_run_def quiet_def serving_def)

lemma still_grows: "grows quiet s t \<Longrightarrow> still s t"
  by (auto simp: still_def adds_grows) (simp_all add: grows_def quiet_no_run)

lemma still_refl: "still s s"
  by (simp add: still_grows grows_refl)

lemma still_trans: "still s t \<Longrightarrow> still t u \<Longrightarrow> still s u"
  unfolding still_def using adds_trans[of quiet s t u] by auto

lemma still_say: "still s (say p m s)"
  by (simp add: still_grows grows_say kinds)

lemma still_note: "quiet x \<Longrightarrow> still s (note_step x s)"
  by (simp add: still_grows grows_note)

lemma still_own: "still s (own path s)"
  by (rule still_grows[OF grows_own])

lemma prepare_spec:
  assumes "prepare_release l i = (l', tmp)"
  shows "has_prefix tmp tmp_dir_pattern \<and> {r \<in> set (ly_releases l). rl_name r \<noteq> tmp} \<subseteq> set (ly_releases l')"
  using assms by (auto simp: prepare_release_def Let_def)

lemma promote_keeps:
  assumes "promote_release now tmp sha l = Some (l', n)"
  shows "n \<notin> set (release_names l) \<and> {r \<in> set (ly_releases l). rl_name r \<noteq> tmp} \<subseteq> set (ly_releases l')"
proof -
  obtain d where d: "promote_dest now sha (release_names l) (length (ly_releases l) + 2) 1 (release_name (now 0) sha) = Some d"
    using assms by (auto simp: promote_release_def simp del: promote_dest.simps)
  let ?m = "\<lambda>r. if rl_name r = tmp then write_marker sha (r\<lparr>rl_name := d\<rparr>) else r"
  have l': "l' = l\<lparr>ly_releases := map ?m (ly_releases l)\<rparr>" "n = d"
    using assms unfolding promote_release_def d by auto
  have "{r \<in> set (ly_releases l). rl_name r \<noteq> tmp} \<subseteq> set (map ?m (ly_releases l))" by (auto intro: rev_image_eqI)
  then show ?thesis using promote_dest_fresh[OF d] l' by simp
qed

lemma still_layout:
  assumes "extends quiet s t \<and> h_launched t = h_launched s" "ly_current l = ly_current (h_layout s)"
    "{r \<in> set (ly_releases (h_layout s)). \<not> has_prefix (rl_name r) tmp_dir_pattern} \<subseteq> set (ly_releases l)"
  shows "still s (t\<lparr>h_layout := l\<rparr>)"
  using assms by (simp add: still_def adds_layout)

lemma still_drop: "has_prefix tmp tmp_dir_pattern \<Longrightarrow> still s t \<Longrightarrow> still s (drop_staging tmp t)"
  using drop_staging_adds[of quiet s t tmp] by (auto simp: still_def drop_staging_def)

lemma still_unmark:
  assumes "n \<notin> set (release_names l)" "{r \<in> set (ly_releases l). P r} \<subseteq> set (ly_releases l')"
  shows "{r \<in> set (ly_releases l). P r} \<subseteq> set (ly_releases (unmark n l'))"
proof
  fix r
  assume r: "r \<in> {r \<in> set (ly_releases l). P r}"
  then have "rl_name r \<noteq> n" using assms(1) by (auto simp: release_names_def)
  then show "r \<in> set (ly_releases (unmark n l'))" using r assms(2) by (force simp: unmark_def)
qed

lemma materialize_still: "still s (fst (materialize_release w cmd base d sha s))"
proof -
  let ?old = "{r \<in> set (ly_releases (h_layout s)). \<not> has_prefix (rl_name r) tmp_dir_pattern}"
  obtain l tmp where l: "prepare_release (h_layout s) (dc_run_id cmd) = (l, tmp)" by force
  note pr = prepare_spec[OF l]
  have kl: "?old \<subseteq> set (ly_releases l)" using pr by auto
  obtain s1 r1 where a1: "act w (MakeDir tmp) s = (s1, r1)" by force
  have q1: "still s s1" using a1 still_note[OF quiet_steps(1)] by (auto simp: act_def)
  show ?thesis
  proof (cases r1)
    case None
    let ?apps = "apps_of (\<lambda>_. []) cmd []"
    let ?s1 = "own (release_path base tmp) (s1\<lparr>h_layout := l\<rparr>)"
    have "still s (s1\<lparr>h_layout := l\<rparr>)"
      using q1 kl prepare_current[OF l] by (intro still_layout) (auto simp: still_def)
    then have q1': "still s ?s1" using still_own by (rule still_trans)
    obtain s2 r2 where a2: "copy_roots w cmd d (release_path base tmp) (1 < length ?apps) ?apps ?s1 = (s2, r2)" by force
    have g2: "grows quiet ?s1 s2" using emitsD[OF copy_roots_grow a2] .
    have q2: "still s s2" using q1' still_grows[OF g2] by (rule still_trans)
    have l2: "h_layout s2 = l" using g2 by (simp add: grows_def own_def note_step_def)
    show ?thesis
    proof (cases "r2 = None")
      case True
      show ?thesis
      proof (cases "promote_release (w_stamp w (h_trace s2)) tmp sha (h_layout s2)")
        case p: (Some ln)
        obtain l' n where ln: "ln = (l', n)" by (cases ln)
        have pk: "n \<notin> set (release_names l)" "{r \<in> set (ly_releases l). rl_name r \<noteq> tmp} \<subseteq> set (ly_releases l')"
          using promote_keeps[of _ tmp sha "h_layout s2" l' n] p ln l2 by auto
        have k': "?old \<subseteq> set (ly_releases l')" using kl pk(2) pr by auto
        have ku: "?old \<subseteq> set (ly_releases (unmark n l'))"
          using still_unmark[OF pk(1), of "\<lambda>r. rl_name r \<noteq> tmp" l'] pk(2) kl pr by auto
        have c': "ly_current l' = ly_current (h_layout s)"
          using promote_current[of _ tmp sha "h_layout s2" l' n] p ln q2 by (simp add: still_def extends_def)
        obtain s3 r3 where a3: "act w (NameRelease n) s2 = (s3, r3)" by force
        have q3: "still s s3" using a3 still_trans[OF q2 still_note[OF quiet_steps(2)]] by (auto simp: act_def)
        obtain s4 r4 where a4: "(if sha = [] then (s3, None) else act w (MarkRelease n) s3) = (s4, r4)" by force
        have "still s3 s4" using a4 still_note[OF quiet_steps(3)] still_refl by (auto simp: act_def split: if_splits)
        with q3 have q4: "still s s4" by (rule still_trans)
        have "still s (s4\<lparr>h_layout := l'\<rparr>)" using q4 c' k' by (intro still_layout) (simp_all add: still_def)
        then have f1: "still s (say p m (own path (s4\<lparr>h_layout := l'\<rparr>)))" for p m path
          using still_trans[OF still_own still_say] still_trans by blast
        have f2: "still s (s4\<lparr>h_layout := unmark n l'\<rparr>)"
          using q4 c' ku by (intro still_layout) (simp_all add: still_def unmark_current)
        show ?thesis
          using l a1 None a2 True p ln a3 a4 f1 f2 still_drop[of tmp, OF _ q3] pr
          by (auto simp: materialize_release_def split: option.split)
      qed (use l a1 None a2 True q2 in \<open>simp add: materialize_release_def\<close>)
    qed (use l a1 None a2 still_drop[of tmp, OF _ q2] pr in \<open>auto simp: materialize_release_def\<close>)
  qed (use l a1 q1 in \<open>simp add: materialize_release_def\<close>)
qed

lemma materialize_adds: "extends quiet s (fst (materialize_release w cmd base d sha s))"
  using materialize_still by (simp add: still_def)

lemma prune_adds: "extends quiet s (prune_step w s)"
proof -
  obtain l gone where l: "prune_releases (\<lambda>n. w_ok w (h_trace s) (RemoveTree n) = None) (h_layout s) = (l, gone)" by force
  have "ly_current l = ly_current (h_layout s)" using l by (auto simp: prune_releases_def Let_def)
  then have a: "extends quiet s (s\<lparr>h_layout := l\<rparr>)" by (simp add: extends_def)
  have "prune_step w s = (let t = s\<lparr>h_layout := l\<rparr> in
      if gone = [] then t else say ''release'' (''pruned old releases: '' @ str_join '', '' gone) t)"
    by (simp add: prune_step_def l)
  then show ?thesis using a adds_trans[OF a adds_say[OF kinds(3)]] by (simp add: Let_def)
qed

lemma clone_step_emits: "emits quiet (clone_step w cmd cred)"
proof -
  have "emits quiet (clone_repo w cmd url branch dir)" for url branch dir
    unfolding emits_def
  proof
    fix s
    obtain t r where a: "act w (CloneRepo url branch (dc_rollback_sha cmd) dir) s = (t, r)" by force
    have "emits quiet (act w (CloneRepo url branch (dc_rollback_sha cmd) dir))" by (rule emits_act) (rule quiet_steps)
    from emitsD[OF this a] have g: "grows quiet s t" .
    have "grows quiet t (note_step (RemoveTree dir) t)" by (rule grows_note) (rule quiet_steps)
    then show "grows quiet s (fst (clone_repo w cmd url branch dir s))"
      using g grows_trans[OF g] by (simp add: clone_repo_def a split: option.split)
  qed
  moreover have "grows quiet s (note_step (RemoveTree d) (own p s))" for d p s
    by (rule grows_trans[OF grows_own]) (rule grows_note, rule quiet_steps)
  then have "emits quiet (silently (\<lambda>s. note_step (RemoveTree d) (own p s)))" for d p by (rule emits_silently)
  moreover have "grows quiet s (say q m (own p s))" for q m p s
    by (rule grows_trans[OF grows_own]) (rule grows_say, rule kinds)
  then have "emits quiet (silently (\<lambda>s. say q m (own p s)))" for q m p by (rule emits_silently)
  ultimately show ?thesis unfolding clone_step_def Let_def by (intro grow kinds quiet_steps)
qed

lemma clone_step_adds: "clone_step w cmd cred s = (t, r) \<Longrightarrow> extends quiet s t"
  using adds_grows[OF emitsD[OF clone_step_emits]] .

lemma note_commit_adds: "extends quiet s (note_commit sha s)"
  unfolding note_commit_def by (rule adds_trans[OF adds_say[OF kinds(3)] quiet_note[OF quiet_steps(6)]])

lemma remove_clone_adds: "extends quiet s (remove_clone dir s)"
  unfolding remove_clone_def by (rule adds_trans[OF adds_say[OF kinds(3)] quiet_note[OF quiet_steps(4)]])

lemma release_env_grow: "emits quiet (write_release_env w cmd base name)"
  unfolding write_release_env_def by (intro grow kinds)

lemma around_env: "emits quiet (silently (write_spec w dest cmd))" "emits quiet (silently (own_release base name))"
  unfolding own_release_def[abs_def] write_spec_def
  using grows_trans[OF grows_own grows_own] by (simp_all add: emits_silently grows_note quiet_steps)

lemma build_and_prune: "phased t (fst (and_then (silently (write_spec w dest cmd)) (and_then (write_release_env w cmd base name)
    (and_then (silently (own_release base name)) (and_then (build_release w cmd base name) (silently (prune_step w))))) t))"
proof (rule phased_emits[OF around_env(1)], rule phased_emits[OF release_env_grow], rule phased_emits[OF around_env(2)])
  fix u
  show "phased u (fst (and_then (build_release w cmd base name) (silently (prune_step w)) u))"
    by (rule phased_and_quiet[OF build_phased]) (simp add: silently_def prune_adds)
qed

lemma release_phased: "phased s (fst (release_from_clone w cmd base dir sha s))"
proof -
  obtain t m where m: "materialize_release w cmd base dir sha s = (t, m)" by force
  have q: "extends quiet s t" using materialize_adds[of s w cmd base dir sha] m by simp
  show ?thesis
    using phased_quiet[OF q] phased_before[OF q build_and_prune]
    by (simp add: release_from_clone_def m split: sum.split)
qed

lemma fresh_phased: "phased s (fst (fresh_deploy w cmd base cred s))"
proof -
  let ?dir = "clone_dir_of cred cmd"
  obtain t r where t: "clone_step w cmd cred s = (t, r)" by force
  have q: "extends quiet s t" using t by (rule clone_step_adds)
  have fail: "phased s t" using q by (rule phased_quiet)
  obtain u o1 where u: "release_from_clone w cmd base ?dir (w_head w (h_trace t)) (note_commit (w_head w (h_trace t)) t) = (u, o1)"
    by force
  have "phased (note_commit (w_head w (h_trace t)) t) u" using release_phased u by (metis fst_conv)
  then have "phased s u" by (rule phased_before[OF adds_trans[OF q note_commit_adds]])
  then have "phased s (remove_clone ?dir u)" by (rule phased_after) (rule remove_clone_adds)
  then show ?thesis using fail by (simp add: fresh_deploy_def Let_def t u split: option.split)
qed

lemma check_binaries_grow [grow]: "lines_ok Q \<Longrightarrow> emits Q (check_binaries w who bs)"
  unfolding emits_def
proof
  fix s
  assume "lines_ok Q"
  then show "grows Q s (fst (check_binaries w who bs s))"
    by (induction w who bs s rule: check_binaries.induct)
      (auto simp: grows_refl split: option.split intro: grows_trans grows_say)
qed

lemma preflight_grow: "emits quiet (preflight w base inst pm cred)"
proof -
  have "emits quiet (check_space w base)" "emits quiet (check_git w)" "emits quiet (check_manager w who pm)" for who
    using grows_say[OF kinds(3)]
    by (auto simp: emits_def check_space_def check_git_def check_manager_def Let_def grows_refl split: sum.split)
  moreover have "emits quiet (silently (if c then say p m else id))" for c p m
    by (simp add: grow kinds)
  ultimately show ?thesis unfolding preflight_def Let_def by (intro grow kinds quiet_steps)
qed

text \<open>The migration may change the layout and move the link, once; \<open>k\<close> bounds the moves.\<close>

definition moves :: "host_step list \<Rightarrow> nat" where
  "moves ys = length (filter (\<lambda>x. \<not> no_swap x) ys)"

definition moved_aside :: "nat \<Rightarrow> host \<Rightarrow> host \<Rightarrow> bool" where
  "moved_aside k s t \<longleftrightarrow> (\<exists>ys. h_trace t = h_trace s @ ys \<and> list_all (\<lambda>x. \<not> serving x) ys \<and> moves ys \<le> k)"

definition prepares :: "nat \<Rightarrow> (host \<Rightarrow> host \<times> 'e option) \<Rightarrow> bool" where
  "prepares k f \<longleftrightarrow> (\<forall>s. moved_aside k s (fst (f s)) \<and> h_launched (fst (f s)) = h_launched s)"

lemma moved_aside_trans: "moved_aside k s t \<Longrightarrow> moved_aside l t u \<Longrightarrow> moved_aside (k + l) s u"
  unfolding moved_aside_def moves_def by fastforce

lemma moved_aside_le: "moved_aside k s t \<Longrightarrow> k \<le> l \<Longrightarrow> moved_aside l s t"
  unfolding moved_aside_def using le_trans by blast

lemma prepares_le: "prepares k f \<Longrightarrow> k \<le> l \<Longrightarrow> prepares l f"
  unfolding prepares_def using moved_aside_le by blast

lemma prepares_then: "prepares k f \<Longrightarrow> prepares l g \<Longrightarrow> prepares (k + l) (and_then f g)"
  unfolding prepares_def and_then_def
  by (auto split: prod.split option.split) (metis fst_conv moved_aside_le moved_aside_trans le_add1)+

lemma moved_aside_note: "quiet x \<Longrightarrow> moved_aside 0 s (note_step x s)"
  by (simp add: moved_aside_def moves_def quiet_def note_step_def)

lemma moved_aside_keeps: "h_trace t = h_trace s \<Longrightarrow> moved_aside 0 s t"
  by (simp add: moved_aside_def moves_def)

lemma prepares_silently:
  "(\<And>s. moved_aside k s (f s) \<and> h_launched (f s) = h_launched s) \<Longrightarrow> prepares k (silently f)"
  by (simp add: prepares_def silently_def)

lemma prepares_basic:
  "quiet x \<Longrightarrow> prepares 0 (act w x)" "prepares k f \<Longrightarrow> prepares k (prefix_error p f)" "prepares k f \<Longrightarrow> prepares k (with_phase p f)"
  "prepares 0 (silently (put_layout rs cur))" "prepares 0 (silently id)" "prepares 0 (silently (say p m))"
  "prepares 0 (silently (\<lambda>s. put_layout rs cur (move_tree from to s)))" "prepares (Suc 0) (act w (SwapLink n))"
proof -
  show "quiet x \<Longrightarrow> prepares 0 (act w x)"
    by (simp add: prepares_def act_def moved_aside_note) (simp add: note_step_def)
  show "prepares k f \<Longrightarrow> prepares k (prefix_error p f)" "prepares k f \<Longrightarrow> prepares k (with_phase p f)"
    by (auto simp: prepares_def prefix_error_def with_phase_def split: prod.split) (metis fst_conv)+
  show "prepares 0 (silently (say p m))"
    by (rule prepares_silently) (simp add: say_def moved_aside_note quiet_steps, simp add: note_step_def)
  show "prepares (Suc 0) (act w (SwapLink n))"
    by (auto simp: prepares_def act_def note_step_def moved_aside_def moves_def no_swap_def serving_def)
qed (rule prepares_silently, simp add: moved_aside_keeps put_layout_def move_tree_def)+

lemma promote_env_quiet: "moved_aside 0 s (promote_env w base release s) \<and> h_launched (promote_env w base release s) = h_launched s"
  using moved_aside_note[OF quiet_steps(14)[where n = "path_join [base, ''.env'']"], of s]
  by (auto simp: promote_env_def act_def Let_def moved_aside_def moves_def note_step_def split: option.split)

lemma own_moved_quiet: "moved_aside 0 s (own_moved base s) \<and> h_launched (own_moved base s) = h_launched s"
  by (auto simp: own_moved_def own_def say_def note_step_def moved_aside_def moves_def serving_def no_swap_def
      split: option.split)

lemma prepares_migrate: "prepares (Suc 0) (migrate w base)"
proof -
  have put: "moved_aside 0 s (promote_env w base r (put_layout rs cur s)) \<and>
      h_launched (promote_env w base r (put_layout rs cur s)) = h_launched s" for r rs cur s
    using promote_env_quiet[of "put_layout rs cur s" w base r] by (auto simp: put_layout_def moved_aside_def)
  have l: "prepares (Suc 0 + 0) (link_first w base sha name)" for sha name unfolding link_first_def
    by (intro prepares_then prepares_basic prepares_silently put)
  have m: "prepares (0 + 0) (mark_first w sha name)" for sha name unfolding mark_first_def
    by (intro prepares_then) (simp_all add: prepares_basic quiet_steps)
  have f: "prepares (0 + (0 + ((0 + 0) + (Suc 0 + 0)))) (first_release w base sha name)" for sha name unfolding first_release_def
    by (intro prepares_then prepares_basic quiet_steps m l)
  have "prepares (Suc 0) (\<lambda>s. first_release w base sha (release_name (w_stamp w (h_trace s) 0) sha) s)" for sha
    using f by (simp add: prepares_def)
  then have c: "prepares (0 + (0 + (0 + (0 + Suc 0)))) (migrate_checkout w base sha)" for sha unfolding migrate_checkout_def
    by (intro prepares_then prepares_basic quiet_steps)
  have "prepares (Suc 0) (with_phase p (prefix_error q (migrate_checkout w base sha)))" for p q sha
    using c by (intro prepares_basic) simp
  then have "prepares (Suc 0) (\<lambda>t. with_phase p (prefix_error q (migrate_checkout w base (w_head w (h_trace t)))) t)" for p q
    by (simp add: prepares_def)
  then have "prepares (0 + (Suc 0 + 0)) (and_then (silently (say a b))
      (and_then (\<lambda>t. with_phase p (prefix_error q (migrate_checkout w base (w_head w (h_trace t)))) t) (silently (own_moved base))))"
    for a b p q by (intro prepares_then prepares_basic prepares_silently own_moved_quiet)
  then show ?thesis using moved_aside_le[OF moved_aside_keeps[OF refl]] by (auto simp: prepares_def migrate_def)
qed

text \<open>The moves of the link a migration may make: one, when there is no link yet and the base is a checkout.\<close>

definition migration_moves :: "world \<Rightarrow> host \<Rightarrow> nat" where
  "migration_moves w s = (if ly_current (h_layout s) = None \<and> w_git w then 1 else 0)"

lemma migrate_before:
  assumes "migrate w base s = (t, r)"
  shows "moved_aside (migration_moves w s) s t"
proof (cases "ly_current (h_layout s) = None \<and> w_git w")
  case True
  have "moved_aside (Suc 0) s (fst (migrate w base s))" using prepares_migrate[of w base] by (simp add: prepares_def)
  then show ?thesis using True assms by (simp add: migration_moves_def)
next
  case False
  then have "t = s" using assms by (auto simp: migrate_def)
  then show ?thesis by (simp add: moved_aside_def moves_def)
qed

lemma roll_back_phased: "phased s (fst (roll_back_to w cmd base name s))"
proof -
  have "emits quiet (silently (note_step (CommitKnown x)))" for x
    by (rule emits_silently) (rule grows_note, rule quiet_steps)
  then show ?thesis unfolding roll_back_to_def
    by (intro phased_emits emits_say kinds waves_after_swap)
qed

lemma deploy_cases:
  "(\<exists>p m. deploy w cmd s = (s, Some (p, m))) \<or>
   (\<exists>cred. w_user w (dc_run_as_user cmd) = Inr cred \<and>
      deploy w cmd s = deploy_as w cmd (path_clean (dc_dest_path cmd)) cred s)"
  by (simp add: deploy_def Let_def split: sum.split)

lemma rest_phased: "phased t (fst (release_or_roll_back w cmd base cred t))"
  using fresh_phased roll_back_phased phased_before[OF adds_say[OF kinds(3)] fresh_phased]
  by (simp add: release_or_roll_back_def Let_def split: option.split)

definition two_parts :: "nat \<Rightarrow> host \<Rightarrow> host \<Rightarrow> bool" where
  "two_parts k s t \<longleftrightarrow> (\<exists>ms ys. h_trace t = h_trace s @ ms @ ys \<and> list_all (\<lambda>x. \<not> serving x) ms \<and> moves ms \<le> k \<and> one_swap ys)"

lemma two_partsI: "moved_aside k s t \<Longrightarrow> phased t u \<Longrightarrow> two_parts k s u"
  unfolding moved_aside_def phased_def two_parts_def by (metis append_assoc)

lemma moved_aside_grows: "grows quiet s t \<Longrightarrow> moved_aside 0 s t"
  unfolding grows_def moved_aside_def moves_def by (auto simp: list_all_iff quiet_def)

lemma deploy_as_parts: "two_parts (migration_moves w s) s (fst (deploy_as w cmd base cred s))"
proof -
  obtain t o1 where t: "with_phase ''preflight'' (preflight w base (dc_install_script cmd) (dc_process_manager cmd) cred) s = (t, o1)" by force
  have g: "grows quiet s t" using emitsD[OF emits_with_phase[OF preflight_grow] t] .
  have pm: "moved_aside 0 s t" by (rule moved_aside_grows[OF g])
  have same: "migration_moves w t = migration_moves w s" using g by (simp add: migration_moves_def grows_def)
  obtain u o2 where u: "migrate w base t = (u, o2)" by force
  have "moved_aside (migration_moves w s) s u"
    using moved_aside_trans[OF pm migrate_before[OF u]] same by simp
  then have "two_parts (migration_moves w s) s u" "two_parts (migration_moves w s) s (fst (release_or_roll_back w cmd base cred u))"
    by (rule two_partsI, intro phased_refl rest_phased)+
  moreover have "two_parts (migration_moves w s) s t"
    using two_partsI[OF moved_aside_le[OF pm] phased_refl] by simp
  ultimately show ?thesis by (simp add: deploy_as_def and_then_def t u split: option.split)
qed


section \<open>A build that fails\<close>

definition early_phases :: "string list" where
  "early_phases = [[], ''preflight'', ''clone'', ''install'']"

definition safe_early :: "(host \<Rightarrow> host \<times> phase_error option) \<Rightarrow> bool" where
  "safe_early f \<longleftrightarrow> (\<forall>s t p m. f s = (t, Some (p, m)) \<longrightarrow> p \<in> set early_phases \<longrightarrow> still s t)"

definition fails_in :: "string list \<Rightarrow> (host \<Rightarrow> host \<times> phase_error option) \<Rightarrow> bool" where
  "fails_in ps f \<longleftrightarrow> (\<forall>s t p m. f s = (t, Some (p, m)) \<longrightarrow> p \<in> set ps)"

definition late_phases :: "string list" where
  "late_phases = [''release'', ''pre_start'', ''start'', ''health'']"

lemma late_safe: "fails_in late_phases f \<Longrightarrow> safe_early f"
  unfolding fails_in_def safe_early_def early_phases_def late_phases_def by fastforce

lemma quiet_safe: "emits quiet f \<Longrightarrow> safe_early f"
  unfolding safe_early_def using emitsD still_grows by blast

lemma fails_inD: "fails_in ps f \<Longrightarrow> f s = (t, Some (p, m)) \<Longrightarrow> p \<in> set ps"
  by (auto simp: fails_in_def)

lemma fails_and_then: "fails_in ps f \<Longrightarrow> fails_in ps g \<Longrightarrow> fails_in ps (and_then f g)"
  by (auto simp: fails_in_def and_then_def split: prod.splits option.splits)

lemma fails_with_phase: "p \<in> set ps \<Longrightarrow> fails_in ps (with_phase p f)"
  by (auto simp: fails_in_def with_phase_def split: prod.splits)

lemma safe_and_then: "emits quiet f \<Longrightarrow> safe_early g \<Longrightarrow> safe_early (and_then f g)"
  unfolding safe_early_def[of "and_then f g"] and_then_def
  by (auto split: prod.splits option.splits)
    (metis emitsD safe_early_def still_grows still_trans)+

lemma start_wave_late: "fails_in late_phases (start_wave w cmd base wave)"
  unfolding start_wave_def by (intro fails_and_then fails_with_phase) (simp_all add: late_phases_def)

lemma start_waves_late: "snd (start_waves w cmd base n i waves s) = Inl (p, m) \<Longrightarrow> p \<in> set late_phases"
proof (induction w cmd base n i waves s rule: start_waves.induct)
  case (2 w cmd base n i wave waves s)
  obtain t r where t: "start_wave w cmd base wave (announce_wave n i wave s) = (t, r)" by force
  show ?case
  proof (cases r)
    case None
    then show ?thesis using 2(1)[OF t[symmetric]] 2(3) t by simp
  next
    case (Some e)
    obtain q k where e: "e = (q, k)" by (cases e)
    have "q \<in> set late_phases" using fails_inD[OF start_wave_late] t Some e by blast
    then show ?thesis using 2(2)[OF t[symmetric]] 2(3) t Some e
      by (auto split: if_splits prod.splits sum.splits)
  qed
qed simp

lemma finish_late: "fails_in late_phases (finish_waves w cmd base errs)"
proof -
  have "fails_in late_phases (\<lambda>s. (s, map_option (Pair ''start'') r))" for r :: "string option"
    by (auto simp: fails_in_def late_phases_def)
  then show ?thesis unfolding finish_waves_def
    by (intro fails_and_then fails_with_phase) (simp_all add: late_phases_def)
qed

lemma waves_late: "fails_in late_phases (activate_app_waves w cmd base)"
  unfolding fails_in_def activate_app_waves_def Let_def
  using finish_late[unfolded fails_in_def] start_waves_late by (auto split: prod.splits sum.splits) (metis snd_conv)+

lemma activate_late: "fails_in late_phases (activate_release w b name)"
  by (auto simp: fails_in_def activate_release_def late_phases_def split: prod.splits option.splits)

lemma build_safe:
  assumes "dc_flow cmd = []"
  shows "safe_early (build_release w cmd base name)"
proof -
  have i: "emits quiet (with_phase ''install'' (install_apps w cmd r))"
    "emits quiet (with_phase ''install'' (cleanup_apps w cmd r))" for r by (intro grow kinds)+
  have l: "safe_early (and_then (activate_release w (Some base) name) (activate_app_waves w cmd base))"
    by (rule late_safe[OF fails_and_then[OF activate_late waves_late]])
  show ?thesis using assms unfolding build_release_def
    by (simp add: safe_and_then i l quiet_size)
qed

lemma safe_step:
  assumes "safe_early f" "still s u" "f u = (t, Some (p, m))" "p \<in> set early_phases"
  shows "still s t"
  using assms(1)[unfolded safe_early_def] assms(2-4) still_trans by blast

lemma release_safe:
  assumes "dc_flow cmd = []"
  shows "safe_early (release_from_clone w cmd base dir sha)"
  unfolding safe_early_def
proof (intro allI impI)
  fix s t p m
  assume r: "release_from_clone w cmd base dir sha s = (t, Some (p, m))" and p: "p \<in> set early_phases"
  obtain u o1 where u: "materialize_release w cmd base dir sha s = (u, o1)" by force
  have su: "still s u" using materialize_still[of s w cmd base dir sha] u by simp
  have b: "safe_early (and_then (build_release w cmd base n) (silently (prune_step w)))" for n
  proof -
    have "and_then (build_release w cmd base n) (silently (prune_step w)) v = (x, Some e) \<Longrightarrow>
          build_release w cmd base n v = (x, Some e)" for v x e
      by (auto simp: and_then_def silently_def split: prod.splits option.splits)
    then show ?thesis using build_safe[OF assms, of w base n] unfolding safe_early_def by blast
  qed
  have e: "safe_early (and_then (silently (write_spec w d cmd)) (and_then (write_release_env w cmd base n)
      (and_then (silently (own_release base n)) (and_then (build_release w cmd base n) (silently (prune_step w))))))" for n d
    by (intro safe_and_then release_env_grow around_env b)
  show "still s t"
  proof (cases o1)
    case (Inl e')
    then show ?thesis using r u su by (simp add: release_from_clone_def)
  next
    case (Inr n)
    then show ?thesis using r u safe_step[OF e su _ p] by (simp add: release_from_clone_def)
  qed
qed

lemma fresh_safe:
  assumes "dc_flow cmd = []"
  shows "safe_early (fresh_deploy w cmd base cred)"
  unfolding safe_early_def
proof (intro allI impI)
  fix s t p m
  assume r: "fresh_deploy w cmd base cred s = (t, Some (p, m))" and p: "p \<in> set early_phases"
  let ?dir = "clone_dir_of cred cmd"
  obtain u o1 where u: "clone_step w cmd cred s = (u, o1)" by force
  have su: "still s u"
    using still_grows[OF emitsD[OF clone_step_emits u]] .
  show "still s t"
  proof (cases o1)
    case None
    let ?sha = "w_head w (h_trace u)"
    obtain v o2 where v: "release_from_clone w cmd base ?dir ?sha (note_commit ?sha u) = (v, o2)" by force
    have sn: "still s (note_commit ?sha u)" unfolding note_commit_def
      by (rule still_trans[OF still_trans[OF su still_say] still_note[OF quiet_steps(6)]])
    have "o2 = Some (p, m)" "t = remove_clone ?dir v" using r u v None by (simp_all add: fresh_deploy_def Let_def)
    moreover have "still v (remove_clone ?dir v)" unfolding remove_clone_def
      by (rule still_trans[OF still_say still_note[OF quiet_steps(4)]])
    ultimately show ?thesis
      using still_trans[OF safe_step[OF release_safe[OF assms] sn _ p]] v by simp
  qed (use r u su in \<open>auto simp: fresh_deploy_def Let_def\<close>)
qed

lemma roll_back_late: "fails_in late_phases (roll_back_to w cmd base name)"
proof -
  have "fails_in late_phases (silently f)" for f :: "host \<Rightarrow> host"
    by (simp add: fails_in_def silently_def)
  then show ?thesis unfolding roll_back_to_def by (intro fails_and_then activate_late waves_late)
qed

lemma rest_safe:
  assumes "dc_flow cmd = []"
  shows "safe_early (release_or_roll_back w cmd base cred)"
  unfolding safe_early_def
proof (intro allI impI)
  fix s t p m
  assume r: "release_or_roll_back w cmd base cred s = (t, Some (p, m))" and p: "p \<in> set early_phases"
  show "still s t"
    using r p safe_step[OF fresh_safe[OF assms] still_refl] safe_step[OF fresh_safe[OF assms] still_say]
      safe_step[OF late_safe[OF roll_back_late] still_refl]
    by (auto simp: release_or_roll_back_def Let_def split: if_splits option.splits)
qed

text \<open>C23. A deploy that fails before its release is activated, in preflight, clone or install, leaves the
  host serving what it served: the link and every finished release are as they were, and no process has
  been started, probed or persisted. (The command has no flow, and the project is not an old in-place
  checkout that is being moved into the release layout.)\<close>

theorem failed_build_keeps_live:
  assumes "dc_flow cmd = []" and "ly_current (h_layout s) \<noteq> None"
    and "deploy w cmd s = (t, Some (phase, msg))" and "phase \<in> set early_phases"
  shows "ly_current (h_layout t) = ly_current (h_layout s) \<and>
     {r \<in> set (ly_releases (h_layout s)). \<not> has_prefix (rl_name r) tmp_dir_pattern} \<subseteq> set (ly_releases (h_layout t)) \<and>
     (\<exists>ys. h_trace t = h_trace s @ ys \<and> list_all quiet ys)"
proof -
  have "still s t"
  proof (cases "\<exists>p m. deploy w cmd s = (s, Some (p, m))")
    case True
    then show ?thesis using assms(3) still_refl by auto
  next
    case False
    then obtain cred where d: "deploy w cmd s = deploy_as w cmd (path_clean (dc_dest_path cmd)) cred s"
      using deploy_cases[of w cmd s] by auto
    define base where "base = path_clean (dc_dest_path cmd)"
    define pre where "pre = with_phase ''preflight'' (preflight w base (dc_install_script cmd) (dc_process_manager cmd) cred)"
    have pq: "emits quiet pre" unfolding pre_def by (intro grow preflight_grow)
    obtain u o1 where u: "pre s = (u, o1)" by force
    have g: "grows quiet s u" using emitsD[OF pq u] .
    show ?thesis
    proof (cases o1)
      case None
      have "ly_current (h_layout u) \<noteq> None" using g assms(2) by (simp add: grows_def)
      then have "migrate w base u = (u, None)" by (simp add: migrate_def)
      then have "release_or_roll_back w cmd base cred u = (t, Some (phase, msg))"
        using assms(3) d u None by (simp add: deploy_as_def base_def[symmetric] pre_def[symmetric] and_then_def)
      then show ?thesis using safe_step[OF rest_safe[OF assms(1)] still_grows[OF g] _ assms(4)] by simp
    qed (use assms(3) d u still_grows[OF g] in
        \<open>simp add: deploy_as_def base_def[symmetric] pre_def[symmetric] and_then_def\<close>)
  qed
  then show ?thesis by (auto simp: still_def extends_def)
qed

end
