(* ===== verification/DeployLive.thy ===== *)
theory DeployLive
  imports DeployFlowFacts
begin

text \<open>
  The other half of the contract of a deploy (DeployFlowFacts holds what it never does): when nothing
  fails, it succeeds, and has called startProcess for every app of the command.
\<close>

section \<open>Operations that do not fail\<close>

text \<open>Nothing fails: every step works, the account resolves, the binaries are there and the disk has room.\<close>

definition all_works :: "world \<Rightarrow> bool" where
  "all_works w \<longleftrightarrow> (\<forall>tr x. w_ok w tr x = None) \<and> (\<forall>u. is_ok (w_user w u)) \<and> (\<forall>b. w_look w b \<noteq> None) \<and>
     (\<forall>n. w_free w = Inr n \<longrightarrow> min_free_bytes \<le> n)"

definition works :: "('s \<Rightarrow> 's \<times> 'e option) \<Rightarrow> bool" where
  "works f \<longleftrightarrow> (\<forall>s. snd (f s) = None)"

named_theorems work \<open>operations that do not fail\<close>

lemma worksD: "works f \<Longrightarrow> f s = (t, r) \<Longrightarrow> r = None"
  by (metis works_def snd_conv)

lemma works_basic [work]:
  "all_works w \<Longrightarrow> works (act w x)" "works (silently g)" "works f \<Longrightarrow> works (with_phase p f)"
  "works f \<Longrightarrow> works (prefix_error p f)"
  by (auto simp: works_def act_def all_works_def silently_def with_phase_def prefix_error_def split: prod.split)
    (metis snd_conv option.simps(8))+

lemma works_and_then [work]: "works f \<Longrightarrow> works g \<Longrightarrow> works (and_then f g)"
  by (auto simp: works_def and_then_def split: prod.split option.split) (metis snd_conv option.distinct(1))

lemma run_each_works: "(\<And>x. x \<in> set xs \<Longrightarrow> works (f x)) \<Longrightarrow> snd (run_each f xs s) = []"
proof (induction xs arbitrary: s)
  case (Cons x xs)
  obtain t r where t: "f x s = (t, r)" by force
  then have "r = None" using worksD[OF Cons.prems[of x]] by simp
  moreover have "snd (run_each f xs t) = []" using Cons by simp
  ultimately show ?case by (simp add: t split: prod.split)
qed simp

lemma works_all_of [work]: "(\<And>x. x \<in> set xs \<Longrightarrow> works (f x)) \<Longrightarrow> works (all_of f xs)"
  unfolding works_def[of "all_of f xs"] all_of_def using run_each_works[of xs f]
  by (auto split: prod.split) (metis join_errors.simps(1) snd_conv)

lemma works_scripts [work]: "all_works w \<Longrightarrow> works (run_app_scripts w p jobs)"
proof -
  assume w: "all_works w"
  have o: "works (run_one_script w q j)" for q j by (simp add: run_one_script_def work w)
  have "works (all_of (run_one_script w q) js)" for q js by (rule works_all_of) (rule o)
  then show ?thesis using o by (auto simp: works_def run_app_scripts_def Let_def split: list.split)
qed

lemma works_apps [work]:
  "all_works w \<Longrightarrow> works (install_apps w cmd r)" "all_works w \<Longrightarrow> works (cleanup_apps w cmd r)"
  "all_works w \<Longrightarrow> works (pre_start_apps w cmd base apps)"
  using works_scripts[of w]
  by (simp_all add: works_def install_apps_def cleanup_apps_def pre_start_apps_def)

lemma works_start_app [work]: "all_works w \<Longrightarrow> works (start_app w cmd base a)"
  using works_basic(1)[of w] by (auto simp: works_def start_app_def launch_def Let_def)

lemma works_check_app [work]: "all_works w \<Longrightarrow> works (check_app w cmd a)"
  using works_basic(1)[of w] by (auto simp: works_def check_app_def split: option.split prod.split)

lemma works_persist_each: "all_works w \<Longrightarrow> works (persist_each w cmd base seen apps)"
proof (induction apps arbitrary: seen)
  case (Cons a apps)
  have "works (and_then (act w x) (persist_each w cmd base seen apps))" for x seen
    by (intro work Cons)
  then show ?case using Cons by (simp add: works_def Let_def)
qed (simp add: works_def)

lemma works_persist [work]: "all_works w \<Longrightarrow> works (persist_process_managers w cmd base)"
  using works_persist_each by (simp add: works_def persist_process_managers_def)

lemma works_wave [work]: "all_works w \<Longrightarrow> works (start_wave w cmd base wave)"
  by (simp add: start_wave_def start_apps_def check_health_def work)

lemma start_waves_work:
  "all_works w \<Longrightarrow> \<exists>t. start_waves w cmd base n i waves s = (t, Inr [])"
proof (induction w cmd base n i waves s rule: start_waves.induct)
  case (2 w cmd base n i wave waves s)
  obtain t r where t: "start_wave w cmd base wave (announce_wave n i wave s) = (t, r)" by force
  then have "r = None" using worksD[OF works_wave[OF 2(3)]] by simp
  then show ?case using 2(1)[OF t[symmetric]] 2(3) t by simp
qed simp

lemma works_finish [work]: "all_works w \<Longrightarrow> works (finish_waves w cmd base [])"
proof -
  assume "all_works w"
  moreover have "works (\<lambda>s. (s, map_option (Pair ''start'') (join_errors [])))" by (simp add: works_def)
  ultimately show ?thesis unfolding finish_waves_def by (intro work)
qed

lemma works_waves [work]: "all_works w \<Longrightarrow> works (activate_app_waves w cmd base)"
proof -
  assume w: "all_works w"
  show ?thesis unfolding works_def
  proof
    fix s :: host
    let ?ws = "group_apps_by_start (apps_of (w_lang w (h_trace s)) cmd (current_path base))"
    obtain t where "start_waves w cmd base (length ?ws) 1 ?ws s = (t, Inr [])" using start_waves_work[OF w] by blast
    then show "snd (activate_app_waves w cmd base s) = None"
      using works_finish[OF w, of cmd base] by (simp add: activate_app_waves_def Let_def works_def)
  qed
qed

lemma works_activate [work]: "all_works w \<Longrightarrow> works (activate_release w b name)"
  by (simp add: works_def activate_release_def act_def all_works_def)

lemma works_write_env [work]: "all_works w \<Longrightarrow> works (write_env w p env)"
  by (auto simp: works_def write_env_def Let_def all_works_def split: sum.split)

lemma works_app_envs [work]: "all_works w \<Longrightarrow> works (write_app_envs w r cmd apps)"
proof (induction apps)
  case (Cons a apps)
  have "works (and_then (write_env w p env) (write_app_envs w r cmd apps))" for p env by (intro work Cons)
  then show ?case using Cons by (simp add: works_def Let_def)
qed (simp add: works_def)

lemma works_dotenvs [work]: "all_works w \<Longrightarrow> works (write_deploy_dotenvs w base r cmd)"
proof -
  assume w: "all_works w"
  note b = works_and_then[OF works_write_env[OF w] works_write_env[OF w]]
    works_and_then[OF works_write_env[OF w] works_basic(2)]
  show ?thesis using b works_and_then[OF b(1) works_app_envs[OF w]] works_and_then[OF b(2) works_app_envs[OF w]]
    by (simp add: works_def write_deploy_dotenvs_def Let_def)
qed

lemma works_copy_roots [work]: "all_works w \<Longrightarrow> works (copy_roots w cmd d st multi apps)"
proof (induction apps)
  case (Cons a apps)
  have "works (and_then (silently (say p m)) (and_then (act w x) (copy_roots w cmd d st multi apps)))" for p m x
    by (intro work Cons)
  then show ?case by (simp add: works_def Let_def)
qed (simp add: works_def)

lemma materialize_works:
  assumes w: "all_works w"
  shows "\<exists>t n. materialize_release w cmd base d sha s = (t, Inr n)"
proof -
  obtain l tmp where l: "prepare_release (h_layout s) (dc_run_id cmd) = (l, tmp)" by force
  let ?apps = "apps_of (\<lambda>_. []) cmd []"
  let ?s1 = "own (release_path base tmp) ((note_step (MakeDir tmp) s)\<lparr>h_layout := l\<rparr>)"
  obtain s2 r2 where c: "copy_roots w cmd d (release_path base tmp) (1 < length ?apps) ?apps ?s1 = (s2, r2)" by force
  then have "r2 = None" using worksD[OF works_copy_roots[OF w]] by blast
  moreover obtain l' n where "promote_release (w_stamp w (h_trace s2)) tmp sha (h_layout s2) = Some (l', n)"
    using promote_release_returns by blast
  ultimately show ?thesis using l c w by (simp add: materialize_release_def act_def all_works_def)
qed

lemma works_prune: "works (silently (prune_step w))"
  by (rule works_basic(2))

lemma works_build:
  assumes "all_works w" "dc_flow cmd = []"
  shows "works (build_release w cmd base name)"
  using assms by (simp add: build_release_def work)

lemma release_works:
  assumes w: "all_works w" and f: "dc_flow cmd = []"
  shows "works (release_from_clone w cmd base d sha)"
  unfolding works_def
proof
  fix s :: host
  obtain t n where m: "materialize_release w cmd base d sha s = (t, Inr n)" using materialize_works[OF w] by blast
  have "works (write_release_env w cmd base n)" by (simp add: write_release_env_def work w)
  then have "works (and_then (silently (write_spec w (release_path base n) cmd)) (and_then (write_release_env w cmd base n)
      (and_then (silently (own_release base n)) (and_then (build_release w cmd base n) (silently (prune_step w))))))"
    by (intro works_and_then works_basic(2) works_build w f)
  then show "snd (release_from_clone w cmd base d sha s) = None" by (simp add: release_from_clone_def m works_def)
qed

lemma works_clone: "all_works w \<Longrightarrow> works (clone_step w cmd cred)"
proof -
  assume w: "all_works w"
  have "works (clone_repo w cmd url branch dir)" for url branch dir
    using worksD[OF works_basic(1)[OF w]] by (fastforce simp: works_def clone_repo_def split: prod.split option.split)
  then show ?thesis unfolding clone_step_def Let_def by (intro work w)
qed

lemma fresh_works:
  assumes w: "all_works w" and f: "dc_flow cmd = []"
  shows "works (fresh_deploy w cmd base cred)"
  unfolding works_def
proof
  fix s :: host
  obtain t r where t: "clone_step w cmd cred s = (t, r)" by force
  then have "r = None" by (rule worksD[OF works_clone[OF w]])
  moreover have "snd (release_from_clone w cmd base d sha u) = None" for d sha u
    using release_works[OF w f] by (simp add: works_def)
  ultimately show "snd (fresh_deploy w cmd base cred s) = None"
    by (simp add: fresh_deploy_def Let_def t split: prod.split) (metis snd_conv)
qed

lemma works_binaries: "all_works w \<Longrightarrow> works (check_binaries w who bs)"
  unfolding works_def
proof
  fix s :: host
  assume "all_works w"
  then show "snd (check_binaries w who bs s) = None"
    by (induction w who bs s rule: check_binaries.induct) (auto simp: all_works_def split: option.split)
qed

lemma works_preflight: "all_works w \<Longrightarrow> works (preflight w base inst pm cred)"
proof -
  assume w: "all_works w"
  have "works (check_space w base)" "works (check_git w)" "works (check_manager w who pm)" for who
    using w by (auto simp: works_def check_space_def check_git_def check_manager_def Let_def all_works_def not_less
        split: sum.split)
  then show ?thesis unfolding preflight_def Let_def by (intro work works_binaries w)
qed

lemma works_migrate: "all_works w \<Longrightarrow> works (migrate w base)"
proof -
  assume w: "all_works w"
  have "works (first_release w base sha name)" for sha name
    by (simp add: first_release_def mark_first_def link_first_def work w)
  then have "works (\<lambda>s. first_release w base sha (release_name (w_stamp w (h_trace s) 0) sha) s)" for sha by (simp add: works_def)
  then have "works (migrate_checkout w base sha)" for sha unfolding migrate_checkout_def by (intro work w)
  then have "works (with_phase p (prefix_error q (migrate_checkout w base sha)))" for p q sha by (intro work)
  then show ?thesis by (simp add: works_def migrate_def and_then_def silently_def split: prod.split option.split)
    (metis option.distinct(1) snd_conv)
qed

lemma works_rest:
  assumes w: "all_works w" and f: "dc_flow cmd = []"
  shows "works (release_or_roll_back w cmd base cred)"
proof -
  have "works (roll_back_to w cmd base name)" for name unfolding roll_back_to_def by (intro work w)
  then show ?thesis using fresh_works[OF w f]
    by (simp add: works_def release_or_roll_back_def Let_def split: option.split)
qed

section \<open>Every app is started\<close>

definition is_start :: "deploy_app \<Rightarrow> host_step \<Rightarrow> bool" where
  "is_start a x = (case x of LaunchApp p b _ _ _ \<Rightarrow> p = ''start'' \<and> b = a | _ \<Rightarrow> False)"

definition started :: "host \<Rightarrow> deploy_app \<Rightarrow> bool" where
  "started s a \<longleftrightarrow> list_ex (is_start a) (h_trace s)"

definition not_run :: "host_step \<Rightarrow> bool" where
  "not_run x = (case x of LaunchApp p _ _ _ _ \<Rightarrow> p \<noteq> ''run'' | _ \<Rightarrow> True)"

lemma not_run_kinds: "serving_ok not_run" "scripts_ok not_run" "lines_ok not_run" "\<not> may_run not_run"
  by (simp_all add: serving_ok_def scripts_ok_def lines_ok_def not_run_def may_run_def)

lemma grows_started: "grows Q s t \<Longrightarrow> started s a \<Longrightarrow> started t a"
  by (auto simp: grows_def started_def)

lemma grows_launched: "grows not_run s t \<Longrightarrow> h_launched t = h_launched s"
  by (simp add: grows_def not_run_kinds)

lemma run_each_started:
  "h_launched s = [] \<Longrightarrow> a \<in> set apps \<Longrightarrow> started (fst (run_each (start_app w cmd base) apps s)) a"
proof (induction apps arbitrary: s)
  case (Cons b apps)
  obtain t r where t: "start_app w cmd base b s = (t, r)" by force
  have l: "h_launched t = []" using Cons.prems(1) grows_launched[OF emitsD[OF start_app_grow[OF not_run_kinds(1)] t]] by simp
  have rest: "grows not_run t (fst (run_each (start_app w cmd base) apps t))"
    by (rule run_each_grows) (rule start_app_grow[OF not_run_kinds(1)])
  have "started t b"
    using t Cons.prems(1) by (auto simp: start_app_def launch_def act_def note_step_def Let_def started_def is_start_def)
  then have "started (fst (run_each (start_app w cmd base) apps t)) b" by (rule grows_started[OF rest])
  moreover have "a \<in> set apps \<Longrightarrow> started (fst (run_each (start_app w cmd base) apps t)) a" using Cons.IH[OF l] .
  ultimately show ?case using Cons.prems(2) by (auto simp: t split: prod.split)
qed simp

lemma wave_started:
  assumes w: "all_works w" and l: "h_launched s = []" and a: "a \<in> set wave"
  shows "started (fst (start_wave w cmd base wave s)) a"
proof -
  obtain t r where t: "with_phase ''pre_start'' (pre_start_apps w cmd base wave) s = (t, r)" by force
  have "r = None" using worksD[OF works_basic(3)[OF works_apps(3)[OF w]] t] .
  have lt: "h_launched t = []"
    using l grows_launched[OF emitsD[OF emits_with_phase[OF pre_start_grow[OF not_run_kinds(2)]] t]] by simp
  obtain u q where u: "with_phase ''start'' (start_apps w cmd base wave) t = (u, q)" by force
  have "works (start_apps w cmd base wave)" by (simp add: start_apps_def work w)
  then have "q = None" using worksD[OF works_basic(3) u] by blast
  have "u = fst (run_each (start_app w cmd base) wave t)"
    using u by (auto simp: with_phase_def start_apps_def all_of_def split: prod.splits)
  then have su: "started u a" using run_each_started[OF lt a] by simp
  obtain v z where v: "with_phase ''health'' (check_health w cmd wave) u = (v, z)" by force
  have "grows not_run u v"
    using emitsD[OF emits_with_phase[OF check_health_grow[OF not_run_kinds(1)]] v] .
  then have "started v a" using su by (rule grows_started)
  then show ?thesis by (simp add: start_wave_def and_then_def t \<open>r = None\<close> u \<open>q = None\<close> v split: option.split)
qed

lemma waves_started:
  "all_works w \<Longrightarrow> h_launched s = [] \<Longrightarrow> a \<in> \<Union> (set ` set waves) \<Longrightarrow>
   started (fst (start_waves w cmd base n i waves s)) a"
proof (induction w cmd base n i waves s rule: start_waves.induct)
  case (2 w cmd base n i wave waves s)
  let ?s = "announce_wave n i wave s"
  have gs: "grows not_run s ?s" by (rule announce_wave_grow[OF not_run_kinds(3)])
  have ls: "h_launched ?s = []" using 2(4) grows_launched[OF gs] by simp
  obtain t r where t: "start_wave w cmd base wave ?s = (t, r)" by force
  have r: "r = None" using worksD[OF works_wave[OF 2(3)] t] .
  have lt: "h_launched t = []" using ls grows_launched[OF emitsD[OF start_wave_grow[OF not_run_kinds(1)] t]] by simp
  have g: "grows not_run t (fst (start_waves w cmd base n (Suc i) waves t))" by (rule start_waves_grow[OF not_run_kinds(1)])
  have "a \<in> set wave \<Longrightarrow> started t a" using wave_started[OF 2(3) ls, of a wave cmd base] t by simp
  then show ?case using 2(1)[OF t[symmetric] r 2(3) lt] 2(5) grows_started[OF g] t r by auto
qed simp

lemma group_covers: "\<Union> (set ` set (group_apps_by_start apps)) = set apps"
  by (auto simp: group_apps_by_start_def)

section \<open>The whole deploy\<close>

lemma quiet_not_run: "grows quiet s t \<Longrightarrow> h_launched t = h_launched s"
  by (simp add: grows_def quiet_no_run)

text \<open>What a deploy that works does from a state in which nothing is launched: every app of the command is
  started, if the operation starts them from such a state and what comes before keeps it.\<close>

definition starts_all :: "deploy_app list \<Rightarrow> (host \<Rightarrow> host \<times> 'e option) \<Rightarrow> bool" where
  "starts_all apps f \<longleftrightarrow> (\<forall>s. h_launched s = [] \<longrightarrow> (\<forall>a \<in> set apps. started (fst (f s)) a))"

lemma starts_later:
  assumes "works f" "\<And>s. h_launched s = [] \<Longrightarrow> h_launched (fst (f s)) = []" "starts_all apps g"
  shows "starts_all apps (and_then f g)"
  unfolding starts_all_def
proof (intro allI impI ballI)
  fix s :: host and a assume s: "h_launched s = []" "a \<in> set apps"
  obtain t r where t: "f s = (t, r)" by force
  have "r = None" "h_launched t = []" using worksD[OF assms(1) t] assms(2)[OF s(1)] t by simp_all
  then show "started (fst (and_then f g s)) a" using assms(3) s(2) by (simp add: and_then_def t starts_all_def)
qed

lemma starts_before:
  assumes "starts_all apps f" "works f" "\<And>s a. started s a \<Longrightarrow> started (fst (g s)) a"
  shows "starts_all apps (and_then f g)"
  using assms unfolding starts_all_def and_then_def works_def by (auto split: prod.split option.split)

lemma emits_starts: "emits quiet f \<Longrightarrow> h_launched s = [] \<Longrightarrow> h_launched (fst (f s)) = []"
  using quiet_not_run[of s "fst (f s)"] by (simp add: emits_def)

lemma activate_waves_start:
  assumes w: "all_works w" and ne: "dc_apps cmd \<noteq> []"
  shows "starts_all (dc_apps cmd) (activate_app_waves w cmd base)"
  unfolding starts_all_def
proof (intro allI impI ballI)
  fix s :: host and a assume s: "h_launched s = []" "a \<in> set (dc_apps cmd)"
  let ?ws = "group_apps_by_start (dc_apps cmd)"
  have apps: "apps_of lang cmd d = dc_apps cmd" for lang d using ne by (simp add: apps_of_def)
  obtain t where t: "start_waves w cmd base (length ?ws) 1 ?ws s = (t, Inr [])" using start_waves_work[OF w] by blast
  have "started t a" using waves_started[OF w s(1), of a ?ws cmd base "length ?ws" 1] t s(2) group_covers by simp
  then have "started (fst (finish_waves w cmd base [] t)) a"
    using finish_grow[OF not_run_kinds(1), of w cmd base "[]"] by (auto simp: emits_def intro: grows_started)
  then show "started (fst (activate_app_waves w cmd base s)) a"
    by (simp add: activate_app_waves_def Let_def apps t[unfolded One_nat_def])
qed

lemma activate_launched: "h_launched (fst (activate_release w b name s)) = h_launched s"
  by (simp add: activate_release_def own_base_def own_def act_def note_step_def say_def split: option.split)

lemma build_starts:
  assumes w: "all_works w" and f: "dc_flow cmd = []" and ne: "dc_apps cmd \<noteq> []"
  shows "starts_all (dc_apps cmd) (build_release w cmd base name)"
proof -
  have i: "emits quiet (with_phase ''install'' (install_apps w cmd r))"
    "emits quiet (with_phase ''install'' (cleanup_apps w cmd r))" for r by (intro grow kinds)+
  have a: "starts_all (dc_apps cmd) (and_then (activate_release w (Some base) name) (activate_app_waves w cmd base))"
    by (rule starts_later[OF works_activate[OF w] _ activate_waves_start[OF w ne]]) (simp add: activate_launched)
  have b: "starts_all (dc_apps cmd) (and_then (silently (report_size w))
      (and_then (activate_release w (Some base) name) (activate_app_waves w cmd base)))"
    by (rule starts_later[OF works_basic(2) emits_starts[OF quiet_size] a])
  show ?thesis using f unfolding build_release_def
    by (simp, intro starts_later[OF works_basic(3)[OF works_apps(1)[OF w]] emits_starts[OF i(1)]]
        starts_later[OF works_basic(3)[OF works_apps(2)[OF w]] emits_starts[OF i(2)]] b)
qed

lemma prune_trace: "started s a \<Longrightarrow> started (fst (silently (prune_step w) s)) a"
  using prune_adds[of s w] by (auto simp: extends_def started_def silently_def)

lemma release_starts:
  assumes w: "all_works w" and f: "dc_flow cmd = []" and ne: "dc_apps cmd \<noteq> []"
  shows "starts_all (dc_apps cmd) (release_from_clone w cmd base d sha)"
  unfolding starts_all_def
proof (intro allI impI ballI)
  fix s :: host and a assume s: "h_launched s = []" "a \<in> set (dc_apps cmd)"
  obtain t n where m: "materialize_release w cmd base d sha s = (t, Inr n)" using materialize_works[OF w] by blast
  have "h_launched t = []" using materialize_still[of s w cmd base d sha] m s(1) by (simp add: still_def)
  moreover have "starts_all (dc_apps cmd) (and_then (silently (write_spec w (release_path base n) cmd))
      (and_then (write_release_env w cmd base n)
      (and_then (silently (own_release base n)) (and_then (build_release w cmd base n) (silently (prune_step w))))))"
  proof (intro starts_later[OF works_basic(2) emits_starts[OF around_env(1)]] starts_later[OF _ emits_starts[OF release_env_grow]]
      starts_later[OF works_basic(2) emits_starts[OF around_env(2)]])
    show "works (write_release_env w cmd base n)" by (simp add: write_release_env_def work w)
    show "starts_all (dc_apps cmd) (and_then (build_release w cmd base n) (silently (prune_step w)))"
      by (rule starts_before[OF build_starts[OF w f ne] works_build[OF w f] prune_trace])
  qed
  ultimately show "started (fst (release_from_clone w cmd base d sha s)) a"
    using s(2) by (simp add: release_from_clone_def m starts_all_def)
qed

lemma fresh_starts:
  assumes w: "all_works w" and f: "dc_flow cmd = []" and ne: "dc_apps cmd \<noteq> []"
  shows "starts_all (dc_apps cmd) (fresh_deploy w cmd base cred)"
  unfolding starts_all_def
proof (intro allI impI ballI)
  fix s :: host and a assume s: "h_launched s = []" "a \<in> set (dc_apps cmd)"
  obtain t r where t: "clone_step w cmd cred s = (t, r)" by force
  have r: "r = None" "h_launched t = []"
    using worksD[OF works_clone[OF w] t] emits_starts[OF clone_step_emits s(1), of w cmd cred] t by simp_all
  let ?sha = "w_head w (h_trace t)"
  obtain u q where u: "release_from_clone w cmd base (clone_dir_of cred cmd) ?sha (note_commit ?sha t) = (u, q)" by force
  have "h_launched (note_commit ?sha t) = []" using r(2) by (simp add: note_commit_def note_step_def say_def)
  then have "started u a" using release_starts[OF w f ne, of base "clone_dir_of cred cmd" ?sha] s(2) u
    by (metis fst_conv starts_all_def)
  then have "started (remove_clone (clone_dir_of cred cmd) u) a"
    by (simp add: remove_clone_def note_step_def say_def started_def)
  then show "started (fst (fresh_deploy w cmd base cred s)) a" by (simp add: fresh_deploy_def Let_def t r(1) u)
qed


end
