(* ===== verification/DeploySamples.thy ===== *)
theory DeploySamples
  imports DeployLive
begin

text \<open>
  Deploys on a concrete host: the facts of DeployFlowFacts and DeployLive at an input where their
  hypotheses hold, and a rollback that serves a build that failed.
\<close>

section \<open>A host\<close>

definition deployed_app :: "string \<Rightarrow> int \<Rightarrow> deploy_app" where
  "deployed_app name grp = \<lparr>da_name = name, da_root_directory = name, da_install_script = ''npm ci'', da_language = ''go'',
     da_port = 80, da_process_manager = ''pm2'', da_env = Map.empty, da_health = None, da_run_script = [],
     da_cleanup_script = ''true'', da_pre_start_script = [], da_start_group = grp, da_process_name = []\<rparr>"

definition sample_command :: "string \<Rightarrow> deploy_command" where
  "sample_command pin = \<lparr>dc_run_id = ''r1'', dc_op = ''start'', dc_clone_url = ''https://github.com/a/b'', dc_clone_token = [],
     dc_dest_path = ''/srv/app'', dc_branch = ''main'', dc_install_script = [], dc_root_directory = [], dc_env = Map.empty,
     dc_port = 0, dc_process_manager = [], dc_apps = [deployed_app ''web'' 1, deployed_app ''api'' 0], dc_stdin = [],
     dc_rollback_sha = pin, dc_health = None, dc_timeout_seconds = 0, dc_run_as_user = [], dc_project_name = ''shop'',
     dc_on_wave_failure = ''stop'', dc_flow = []\<rparr>"

text \<open>A world in which everything works but the steps of \<open>bad\<close>, the checkout has the commit \<open>sha\<close> and the
  clock shows \<open>stamp\<close>.\<close>

definition sample_world :: "(host_step \<Rightarrow> bool) \<Rightarrow> string \<Rightarrow> string \<Rightarrow> world" where
  "sample_world bad sha stamp = \<lparr>w_ok = (\<lambda>_ x. if bad x then Some ''failed'' else None), w_user = (\<lambda>_. Inr None),
     w_stamp = (\<lambda>_ _. stamp), w_head = (\<lambda>_. sha), w_lang = (\<lambda>_ _. []), w_size = (\<lambda>_. 0), w_free = Inl ''no statfs'',
     w_look = (\<lambda>b. Some b), w_look_agent = (\<lambda>_. True), w_git = False, w_public = id,
     w_process_name = (\<lambda>_ _ _. ''p''), w_walk = (\<lambda>_. []), w_ends = id\<rparr>"

definition is_install :: "host_step \<Rightarrow> bool" where
  "is_install x = (case x of RunScript p j \<Rightarrow> as_script j = ''npm ci'' | _ \<Rightarrow> False)"

definition sample_host :: host where
  "sample_host = \<lparr>h_layout = \<lparr>ly_releases = [\<lparr>rl_name = ''20260101T000000Z-aaaaaaa'', rl_marker = Some ''aaaaaaaa''\<rparr>],
     ly_current = Some ''20260101T000000Z-aaaaaaa''\<rparr>, h_files = Map.empty, h_launched = [], h_trace = []\<rparr>"

lemma sample_fails:
  "snd (deploy (sample_world is_install ''aaaaaaaa'' ''20260102T000000Z'') (sample_command []) sample_host) =
     Some (''install'', ''npm ci: failed; npm ci: failed'')"
  by code_simp

theorem failed_build_keeps_live_witness:
  "ly_current (h_layout (fst (deploy (sample_world is_install ''aaaaaaaa'' ''20260102T000000Z'') (sample_command []) sample_host))) =
     Some ''20260101T000000Z-aaaaaaa''"
proof -
  let ?d = "deploy (sample_world is_install ''aaaaaaaa'' ''20260102T000000Z'') (sample_command []) sample_host"
  have "?d = (fst ?d, Some (''install'', ''npm ci: failed; npm ci: failed''))"
    using sample_fails by (metis prod.collapse)
  then show ?thesis
    using failed_build_keeps_live[of "sample_command []" sample_host _ "fst ?d" "''install''"]
    by (simp add: sample_command_def early_phases_def) (simp add: sample_host_def)
qed


text \<open>A build that fails leaves a release with its marker, newer than the release of the same commit that
  works: a later rollback to that commit puts the failed build in service.\<close>

definition failed_build :: host where
  "failed_build = fst (deploy (sample_world is_install ''aaaaaaaa'' ''20260102T000000Z'') (sample_command []) sample_host)"

lemma failed_build_left:
  "map rl_name (ly_releases (h_layout failed_build)) = [''20260101T000000Z-aaaaaaa'', ''20260102T000000Z-aaaaaaa''] \<and>
   map read_marker (ly_releases (h_layout failed_build)) = [''aaaaaaaa'', ''aaaaaaaa''] \<and>
   ly_current (h_layout failed_build) = Some ''20260101T000000Z-aaaaaaa''"
  by code_simp


end
