(* ===== verification/DeployEvents.thy ===== *)
theory DeployEvents
  imports DeployFlow
begin

text \<open>
  What a deploy reports while it runs, \<open>agent/internal/deploy/runner.go\<close>: the manager of the runs in
  flight, the events it sends (numbered per run, scrubbed of terminal control sequences by
  \<open>ansi.go\<close>, capped, and cleaned of the clone token), the timings of \<open>metrics.go\<close>, and the commands
  that reach a running deploy. The maps of the manager are maps from run ids; contexts, pipes and
  processes are numbers, and what is done to them is recorded. Each call is one step: the calls of
  parallel scripts appear in some order.
\<close>

section \<open>Terminal output\<close>

definition esc :: char where "esc = CHR 0x1B"
definition bel :: char where "bel = CHR 0x07"

text \<open>\<open>unicode.IsLetter\<close> of a byte: the letters of Latin-1\<close>

definition latin_letter :: "char \<Rightarrow> bool" where
  "latin_letter c \<longleftrightarrow> is_upper c \<or> is_lower c \<or>
     (let n = (of_char c :: nat) in n \<in> {170, 181, 186} \<or> (192 \<le> n \<and> n \<noteq> 215 \<and> n \<noteq> 247))"

definition drop_csi :: "string \<Rightarrow> string" where
  "drop_csi s = drop 1 (dropWhile (\<lambda>c. \<not> latin_letter c \<and> c \<noteq> CHR ''@'') s)"

fun drop_osc :: "string \<Rightarrow> string" where
  "drop_osc [] = []"
| "drop_osc (c # cs) =
     (if c = bel then cs
      else if c = esc \<and> cs \<noteq> [] \<and> hd cs = backslash then tl cs
      else drop_osc cs)"

lemma drop_osc_shorter: "length (drop_osc s) \<le> length s"
  by (induction s rule: drop_osc.induct) auto

lemma drop_csi_shorter: "length (drop_csi s) \<le> length s"
  using length_dropWhile_le[of _ s] by (simp add: drop_csi_def) (meson diff_le_self order_trans)

function strip_ansi :: "string \<Rightarrow> string" where
  "strip_ansi [] = []"
| "strip_ansi (c # cs) =
     (if c \<noteq> esc then c # strip_ansi cs
      else case cs of
             [] \<Rightarrow> []
           | d # ds \<Rightarrow>
               if d = CHR ''['' then strip_ansi (drop_csi ds)
               else if d = CHR '']'' then strip_ansi (drop_osc ds)
               else strip_ansi ds)"
  by pat_completeness auto
termination
  by (relation "measure length") (auto simp: less_Suc_eq_le le_SucI drop_osc_shorter drop_csi_shorter)

definition spinner_only :: "string \<Rightarrow> bool" where
  "spinner_only s = list_all (\<lambda>c. c \<in> {CHR ''|'', CHR ''/'', CHR ''-'', backslash, CHR '' '', CHR 0x09, CHR 0x0A}) s"

definition scrub_pty_log :: "string \<Rightarrow> string" where
  "scrub_pty_log s =
     (let t = filter (\<lambda>c. c \<noteq> CHR 0x0D) (strip_ansi s)
      in if trim_space t = [] \<or> spinner_only t then [] else t)"

section \<open>Timings\<close>

text \<open>Clock readings are nanoseconds of a monotonic clock.\<close>

record run_metrics =
  rm_start :: int
  rm_phase :: string
  rm_ms :: "(string \<times> int) list"
  rm_release_bytes :: int
  rm_free_disk_bytes :: int

definition new_run_metrics :: "int \<Rightarrow> run_metrics" where
  "new_run_metrics now = \<lparr>rm_start = now, rm_phase = [], rm_ms = [], rm_release_bytes = 0, rm_free_disk_bytes = 0\<rparr>"

definition millis :: "int \<Rightarrow> int" where
  "millis d = d div 1000000"

fun add_ms :: "string \<Rightarrow> int \<Rightarrow> (string \<times> int) list \<Rightarrow> (string \<times> int) list" where
  "add_ms p d [] = [(p, d)]"
| "add_ms p d ((q, e) # ms) = (if p = q then (q, e + d) # ms else (q, e) # add_ms p d ms)"

definition close_phase :: "int \<Rightarrow> run_metrics \<Rightarrow> (string \<times> int) list" where
  "close_phase now r = (if rm_phase r = [] then rm_ms r else add_ms (rm_phase r) (millis (now - rm_start r)) (rm_ms r))"

definition note_phase :: "int \<Rightarrow> string \<Rightarrow> run_metrics \<Rightarrow> run_metrics" where
  "note_phase now phase r =
     (if phase = [] then r else r\<lparr>rm_ms := close_phase now r, rm_phase := phase, rm_start := now\<rparr>)"

definition metrics_snapshot :: "int \<Rightarrow> run_metrics \<Rightarrow> deploy_metrics" where
  "metrics_snapshot now r =
     \<lparr>dm_phase_ms = close_phase now r, dm_release_bytes = rm_release_bytes r, dm_free_disk_bytes = rm_free_disk_bytes r\<rparr>"

section \<open>The manager\<close>

record manager =
  mg_cancel :: "string \<rightharpoonup> nat"
  mg_seq :: "string \<rightharpoonup> int"
  mg_logged :: "string \<rightharpoonup> int"
  mg_noted :: "string set"
  mg_metrics :: "string \<rightharpoonup> run_metrics"
  mg_launched :: "string \<rightharpoonup> string set"
  mg_procs :: "string \<rightharpoonup> nat list"
  mg_stdin :: "string \<rightharpoonup> nat"
  mg_sent :: "deploy_event list"
  mg_canceled :: "nat list"
  mg_killed :: "nat list"
  mg_written :: "(nat \<times> string) list"
  mg_closed :: "nat list"

definition new_manager :: manager where
  "new_manager = \<lparr>mg_cancel = Map.empty, mg_seq = Map.empty, mg_logged = Map.empty, mg_noted = {}, mg_metrics = Map.empty,
     mg_launched = Map.empty, mg_procs = Map.empty, mg_stdin = Map.empty, mg_sent = [], mg_canceled = [], mg_killed = [],
     mg_written = [], mg_closed = []\<rparr>"

definition send_event :: "deploy_event \<Rightarrow> manager \<Rightarrow> manager" where
  "send_event ev m = m\<lparr>mg_sent := mg_sent m @ [ev]\<rparr>"

definition log_cap_bytes :: int where
  "log_cap_bytes = 33554432"

definition run_log :: "string \<Rightarrow> string \<Rightarrow> string \<Rightarrow> deploy_event" where
  "run_log run phase data =
     \<lparr>de_run_id = run, de_kind = ''log'', de_data = data, de_message = [], de_exit_code = 0, de_status = [],
      de_seq = 0, de_commit_sha = [], de_phase = phase, de_metrics = None\<rparr>"

definition cap_notice :: "string \<Rightarrow> deploy_event" where
  "cap_notice run =
     run_log run ''install'' (newline # ''[log truncated: this run passed 32.0MB of output]'' @ [newline])"

text \<open>\<open>overLogCap\<close>: whether the run is over its budget, with the only notice of it\<close>

definition over_log_cap :: "string \<Rightarrow> int \<Rightarrow> manager \<Rightarrow> manager \<times> bool" where
  "over_log_cap run n m =
     (case mg_logged m run of
        None \<Rightarrow> (m, False)
      | Some k \<Rightarrow>
          let m1 = m\<lparr>mg_logged := (mg_logged m)(run \<mapsto> k + n)\<rparr>
          in if k + n \<le> log_cap_bytes then (m1, False)
             else let m2 = m1\<lparr>mg_noted := insert run (mg_noted m1)\<rparr>
                  in (if run \<in> mg_noted m then m2 else send_event (cap_notice run) m2, True))"

text \<open>The numbering and the cleaning of an event that is sent\<close>

definition number_event :: "string \<Rightarrow> deploy_event \<Rightarrow> manager \<Rightarrow> manager \<times> deploy_event" where
  "number_event run ev m =
     (if de_seq ev \<noteq> 0 then (m, ev)
      else case mg_seq m run of
             None \<Rightarrow> (m, ev)
           | Some n \<Rightarrow> let k = to_int32 (n + 1) in (m\<lparr>mg_seq := (mg_seq m)(run \<mapsto> k)\<rparr>, ev\<lparr>de_seq := k\<rparr>))"

definition redact_event :: "string \<Rightarrow> deploy_event \<Rightarrow> deploy_event" where
  "redact_event tok ev = ev\<lparr>de_message := redact_token (de_message ev) tok, de_data := redact_token (de_data ev) tok\<rparr>"

definition emit_out :: "string \<Rightarrow> string \<Rightarrow> deploy_event \<Rightarrow> manager \<Rightarrow> manager" where
  "emit_out run tok ev m = (case number_event run ev m of (m1, ev1) \<Rightarrow> send_event (redact_event tok ev1) m1)"

definition emit :: "string \<Rightarrow> string \<Rightarrow> deploy_event \<Rightarrow> manager \<Rightarrow> manager" where
  "emit run tok ev m =
     (if de_kind ev = ''log'' \<and> de_data ev \<noteq> []
      then let data = scrub_pty_log (de_data ev); ev1 = ev\<lparr>de_data := data\<rparr>
           in if data = [] then m
              else (case over_log_cap run (int (length data)) m of
                      (m1, True) \<Rightarrow> m1
                    | (m1, False) \<Rightarrow> emit_out run tok ev1 m1)
      else emit_out run tok ev m)"

definition log_line :: "string \<Rightarrow> string \<Rightarrow> string \<Rightarrow> manager \<Rightarrow> manager" where
  "log_line run tok msg = emit run tok (run_log run [] (msg @ [newline]))"

definition with_metrics :: "string \<Rightarrow> (run_metrics \<Rightarrow> run_metrics) \<Rightarrow> manager \<Rightarrow> manager" where
  "with_metrics run f m =
     (case mg_metrics m run of None \<Rightarrow> m | Some r \<Rightarrow> m\<lparr>mg_metrics := (mg_metrics m)(run \<mapsto> f r)\<rparr>)"

definition phase_line :: "int \<Rightarrow> string \<Rightarrow> string \<Rightarrow> string \<Rightarrow> string \<Rightarrow> manager \<Rightarrow> manager" where
  "phase_line now run tok phase msg m =
     emit run tok (run_log run phase (phase @ '': '' @ msg @ [newline])) (with_metrics run (note_phase now phase) m)"

definition metrics_for :: "int \<Rightarrow> string \<Rightarrow> manager \<Rightarrow> deploy_metrics option" where
  "metrics_for now run m = map_option (metrics_snapshot now) (mg_metrics m run)"

text \<open>\<open>fail\<close>: the reason in the log, then the end\<close>

definition fail_run :: "int \<Rightarrow> string \<Rightarrow> string \<Rightarrow> string \<Rightarrow> string \<Rightarrow> manager \<Rightarrow> manager" where
  "fail_run now run tok phase msg m =
     (let m1 = emit run tok (run_log run phase
                 (''FAILED '' @ [CHR 0xE2, CHR 0x80, CHR 0x94] @ '' '' @ fail_message phase msg @ [newline])) m
      in emit run tok (failed_event run phase msg (metrics_for now run m1)) m1)"

subsection \<open>A run\<close>

definition started_event :: "string \<Rightarrow> deploy_event" where
  "started_event run =
     \<lparr>de_run_id = run, de_kind = ''started'', de_data = [], de_message = ''starting'', de_exit_code = 0,
      de_status = ''running'', de_seq = 0, de_commit_sha = [], de_phase = [], de_metrics = None\<rparr>"

text \<open>\<open>start\<close>, up to the deploy: \<open>ctx\<close> is the context of the run.\<close>

definition begin_run :: "int \<Rightarrow> nat \<Rightarrow> deploy_command \<Rightarrow> manager \<Rightarrow> manager" where
  "begin_run now ctx cmd m =
     (let run = dc_run_id cmd
      in emit run (dc_clone_token cmd) (started_event run)
           (m\<lparr>mg_cancel := (mg_cancel m)(run \<mapsto> ctx), mg_seq := (mg_seq m)(run \<mapsto> 0),
              mg_logged := (mg_logged m)(run \<mapsto> 0), mg_metrics := (mg_metrics m)(run \<mapsto> new_run_metrics now)\<rparr>))"

text \<open>The deferred function of \<open>start\<close>\<close>

definition forget_run :: "nat \<Rightarrow> string \<Rightarrow> manager \<Rightarrow> manager" where
  "forget_run ctx run m =
     m\<lparr>mg_cancel := (mg_cancel m)(run := None), mg_seq := (mg_seq m)(run := None), mg_logged := (mg_logged m)(run := None),
       mg_noted := mg_noted m - {run}, mg_metrics := (mg_metrics m)(run := None), mg_launched := (mg_launched m)(run := None),
       mg_procs := (mg_procs m)(run := None), mg_stdin := (mg_stdin m)(run := None),
       mg_closed := mg_closed m @ (case mg_stdin m run of None \<Rightarrow> [] | Some f \<Rightarrow> [f]),
       mg_canceled := mg_canceled m @ [ctx]\<rparr>"

text \<open>\<open>start\<close> after the deploy: the end that \<open>finished_event\<close> describes\<close>

definition report_end :: "int \<Rightarrow> deploy_command \<Rightarrow> context_end \<Rightarrow> phase_error option \<Rightarrow> manager \<Rightarrow> manager" where
  "report_end now cmd ended outcome m =
     (let run = dc_run_id cmd; tok = dc_clone_token cmd
      in case outcome of
           None \<Rightarrow> emit run tok (finished_event cmd ended None (metrics_for now run m)) m
         | Some (phase, msg) \<Rightarrow>
             (case ended of
                DeadlineExceeded \<Rightarrow> fail_run now run tok ''install''
                  (''deploy timed out after '' @ duration_text (deploy_budget (dc_timeout_seconds cmd))) m
              | Canceled \<Rightarrow> fail_run now run tok phase ''deploy canceled'' m
              | Lives \<Rightarrow> fail_run now run tok phase (redact_token msg tok) m))"

definition end_run :: "int \<Rightarrow> nat \<Rightarrow> deploy_command \<Rightarrow> context_end \<Rightarrow> phase_error option \<Rightarrow> manager \<Rightarrow> manager" where
  "end_run now ctx cmd ended outcome m = forget_run ctx (dc_run_id cmd) (report_end now cmd ended outcome m)"

subsection \<open>Commands for a run in flight\<close>

definition write_stdin :: "string \<Rightarrow> string \<Rightarrow> manager \<Rightarrow> manager" where
  "write_stdin run data m =
     (case mg_stdin m run of
        None \<Rightarrow> m
      | Some f \<Rightarrow> if data = [] then m else m\<lparr>mg_written := mg_written m @ [(f, data)]\<rparr>)"

definition cancel_deploy :: "string \<Rightarrow> manager \<Rightarrow> manager" where
  "cancel_deploy run m =
     (let m1 = m\<lparr>mg_killed := mg_killed m @ (case mg_procs m run of None \<Rightarrow> [] | Some ps \<Rightarrow> ps),
                 mg_procs := (mg_procs m)(run := None)\<rparr>
      in case mg_cancel m run of None \<Rightarrow> m1 | Some ctx \<Rightarrow> m1\<lparr>mg_canceled := mg_canceled m1 @ [ctx]\<rparr>)"

text \<open>\<open>CloseAll\<close>; \<open>runs\<close> lists the keys of the two maps in the order of an iteration.\<close>

definition close_all :: "string list \<Rightarrow> manager \<Rightarrow> manager" where
  "close_all runs m =
     m\<lparr>mg_cancel := Map.empty, mg_stdin := Map.empty,
       mg_canceled := mg_canceled m @ List.map_filter (mg_cancel m) runs,
       mg_closed := mg_closed m @ List.map_filter (mg_stdin m) runs\<rparr>"

definition launch_noted :: "string \<Rightarrow> string \<Rightarrow> manager \<Rightarrow> manager" where
  "launch_noted run app m =
     (if app = [] then m
      else m\<lparr>mg_launched := (mg_launched m)(run \<mapsto> insert app (case mg_launched m run of None \<Rightarrow> {} | Some as \<Rightarrow> as))\<rparr>)"

definition was_launched :: "string \<Rightarrow> string \<Rightarrow> manager \<Rightarrow> bool" where
  "was_launched run app m = (case mg_launched m run of None \<Rightarrow> False | Some as \<Rightarrow> app \<in> as)"

definition track_proc :: "string \<Rightarrow> nat option \<Rightarrow> manager \<Rightarrow> manager" where
  "track_proc run p m =
     (case p of None \<Rightarrow> m
      | Some q \<Rightarrow> m\<lparr>mg_procs := (mg_procs m)(run \<mapsto> (case mg_procs m run of None \<Rightarrow> [] | Some ps \<Rightarrow> ps) @ [q])\<rparr>)"

text \<open>The pipe of \<open>runScript\<close>: registered before the script starts, closed after it ended.\<close>

definition open_stdin :: "string \<Rightarrow> nat \<Rightarrow> manager \<Rightarrow> manager" where
  "open_stdin run f m = m\<lparr>mg_stdin := (mg_stdin m)(run \<mapsto> f)\<rparr>"

definition shut_stdin :: "string \<Rightarrow> nat \<Rightarrow> manager \<Rightarrow> manager" where
  "shut_stdin run f m =
     m\<lparr>mg_stdin := (if mg_stdin m run = Some f then (mg_stdin m)(run := None) else mg_stdin m), mg_closed := mg_closed m @ [f]\<rparr>"

text \<open>\<open>Handle\<close>: a deploy is started on a goroutine of its own, which is the step \<open>begin_run\<close> and may come later.\<close>

definition handle_deploy :: "int \<Rightarrow> nat \<Rightarrow> deploy_command \<Rightarrow> manager \<Rightarrow> manager" where
  "handle_deploy now ctx cmd m =
     (if dc_op cmd = ''stdin'' then write_stdin (dc_run_id cmd) (dc_stdin cmd) m
      else if dc_op cmd = ''cancel'' then cancel_deploy (dc_run_id cmd) m
      else begin_run now ctx cmd m)"

subsection \<open>The output of a script\<close>

definition emit_chunk :: "string \<Rightarrow> string \<Rightarrow> string \<Rightarrow> manager \<Rightarrow> manager" where
  "emit_chunk run tok chunk m = (if chunk = [] then m else emit run tok (run_log run ''install'' chunk) m)"

definition tag_prefix :: "string \<Rightarrow> bool \<Rightarrow> string" where
  "tag_prefix dir tag = (if tag \<and> dir \<noteq> [] then ''[in '' @ dir @ ''] '' else [])"

text \<open>The inner loop of \<open>pumpOutput\<close>: complete lines are sent, the rest stays.\<close>

fun take_lines :: "string \<Rightarrow> string \<Rightarrow> string list \<times> string" where
  "take_lines cur [] = ([], cur)"
| "take_lines cur (c # cs) =
     (if c = newline then (case take_lines [] cs of (ls, rest) \<Rightarrow> ((cur @ [newline]) # ls, rest))
      else take_lines (cur @ [c]) cs)"

text \<open>\<open>pumpOutput\<close>: \<open>reads\<close> are what the reads return until the pipe ends.\<close>

fun pump_chunks :: "string \<Rightarrow> string \<Rightarrow> string list \<Rightarrow> string list" where
  "pump_chunks pre pending [] =
     (if pre = [] \<or> pending = [] then []
      else let t = pre @ pending in [if last t = newline then t else t @ [newline]])"
| "pump_chunks pre pending (r # reads) =
     (if pre = [] then r # pump_chunks pre pending reads
      else case take_lines pending r of (ls, rest) \<Rightarrow> map (\<lambda>l. pre @ l) ls @ pump_chunks pre rest reads)"

definition pump_output :: "string \<Rightarrow> string \<Rightarrow> string \<Rightarrow> bool \<Rightarrow> string list \<Rightarrow> manager \<Rightarrow> manager" where
  "pump_output run tok dir tag reads m = fold (emit_chunk run tok) (pump_chunks (tag_prefix dir tag) [] reads) m"

section \<open>Steps\<close>

datatype manager_op =
    Begin int nat deploy_command
  | Report string string string
  | Phase int string string string string
  | Commit string string string
  | Output string string string
  | Bytes string int
  | Disk string int
  | Stdin string string
  | Cancel string
  | CloseAll "string list"
  | Launched string string
  | Proc string "nat option"
  | OpenPipe string nat
  | ShutPipe string nat
  | End int nat deploy_command context_end "phase_error option"

fun manager_step :: "manager_op \<Rightarrow> manager \<Rightarrow> manager" where
  "manager_step (Begin now ctx cmd) m = begin_run now ctx cmd m"
| "manager_step (Report run tok msg) m = log_line run tok msg m"
| "manager_step (Phase now run tok phase msg) m = phase_line now run tok phase msg m"
| "manager_step (Commit run tok sha) m =
     emit run tok ((run_log run ''clone'' (''commit: '' @ sha @ [newline]))\<lparr>de_commit_sha := sha\<rparr>) m"
| "manager_step (Output run tok chunk) m = emit_chunk run tok chunk m"
| "manager_step (Bytes run n) m = with_metrics run (\<lambda>r. r\<lparr>rm_release_bytes := n\<rparr>) m"
| "manager_step (Disk run n) m = with_metrics run (\<lambda>r. r\<lparr>rm_free_disk_bytes := n\<rparr>) m"
| "manager_step (Stdin run data) m = write_stdin run data m"
| "manager_step (Cancel run) m = cancel_deploy run m"
| "manager_step (CloseAll runs) m = close_all runs m"
| "manager_step (Launched run app) m = launch_noted run app m"
| "manager_step (Proc run p) m = track_proc run p m"
| "manager_step (OpenPipe run f) m = open_stdin run f m"
| "manager_step (ShutPipe run f) m = shut_stdin run f m"
| "manager_step (End now ctx cmd ended outcome) m = end_run now ctx cmd ended outcome m"

definition manager_runs :: "manager_op list \<Rightarrow> manager \<Rightarrow> manager" where
  "manager_runs ops m = fold manager_step ops m"

end
