(* ===== verification/DeployEventsFacts.thy ===== *)
theory DeployEventsFacts
  imports DeployEvents
begin

text \<open>
  The event stream of a deploy: no event carries the clone token, the events of a run are numbered
  without gaps from its start to its one end, its forwarded output stays within the budget, and the
  place where the token does get out.
\<close>

section \<open>Redaction\<close>

lemma replace_all_Cons:
  "replace_all old new (c # s) =
     (if old \<noteq> [] \<and> prefix old (c # s) then new @ replace_all old new (drop (length old) (c # s)) else c # replace_all old new s)"
proof -
  have "has_prefix (c # s) old \<longleftrightarrow> prefix old (c # s)"
    by (auto simp: has_prefix_def prefix_def) (metis append_take_drop_id)
  then show ?thesis by (simp add: replace_all.simps[of old new "c # s"])
qed

text \<open>A part of a text without the mark's character, at the front of the replaced text, was there before.\<close>

lemma prefix_replaced:
  "new \<noteq> [] \<Longrightarrow> set new = {k} \<Longrightarrow> k \<notin> set u \<Longrightarrow> prefix u (replace_all old new s) \<Longrightarrow> prefix u s"
proof (induction s arbitrary: u)
  case (Cons c s)
  show ?case
  proof (cases u)
    case u: (Cons a v)
    have "\<not> prefix u (new @ r)" for r using Cons.prems(1-3) u by (cases new) auto
    then have "\<not> (old \<noteq> [] \<and> prefix old (c # s))" using Cons.prems(4) by (auto simp: replace_all_Cons)
    then have "a = c" "prefix v (replace_all old new s)" using Cons.prems(4) u by (auto simp: replace_all_Cons split: if_splits)
    then show ?thesis using Cons.IH[OF Cons.prems(1,2)] Cons.prems(3) u by simp
  qed simp
qed simp

lemma replaced_is_gone:
  assumes "old \<noteq> []" "new \<noteq> []" "set new = {k}" "k \<notin> set old"
  shows "\<not> sublist old (replace_all old new s)"
proof (induction "length s" arbitrary: s rule: less_induct)
  case less
  have skip: "sublist old (w @ r) \<Longrightarrow> set w \<subseteq> {k} \<Longrightarrow> sublist old r" for w r
  proof (induction w)
    case (Cons x w)
    have "\<not> prefix old (x # w @ r)" using Cons.prems(2) assms(1,4) by (cases old) auto
    then show ?case using Cons by (simp add: sublist_Cons_right)
  qed simp
  show ?case
  proof (cases s)
    case Nil
    then show ?thesis using assms(1) by (simp add: replace_all_Nil)
  next
    case (Cons c r)
    show ?thesis
    proof (cases "prefix old s")
      case True
      then have "replace_all old new s = new @ replace_all old new (drop (length old) s)"
        using assms(1) Cons by (simp add: replace_all_Cons)
      moreover have "\<not> sublist old (replace_all old new (drop (length old) s))"
        using less assms(1) Cons by (cases old) auto
      ultimately show ?thesis using skip[of new] assms(3) by auto
    next
      case False
      then have e: "replace_all old new s = c # replace_all old new r" using Cons by (simp add: replace_all_Cons)
      have "\<not> sublist old (replace_all old new r)" using less Cons by simp
      moreover have "\<not> prefix old (replace_all old new s)" using prefix_replaced[OF assms(2,3,4)] False by blast
      ultimately show ?thesis by (simp add: e sublist_Cons_right)
    qed
  qed
qed

text \<open>A token that can be cleaned: it shares no character with the mark.\<close>

definition plain_token :: "string \<Rightarrow> bool" where
  "plain_token tok \<longleftrightarrow> tok \<noteq> [] \<and> CHR ''*'' \<notin> set tok"

definition free_of :: "string \<Rightarrow> deploy_event \<Rightarrow> bool" where
  "free_of tok e \<longleftrightarrow> \<not> sublist tok (de_data e) \<and> \<not> sublist tok (de_message e)"

lemma redact_free: "plain_token tok \<Longrightarrow> free_of tok (redact_event tok ev)"
  using replaced_is_gone[of tok "''***''" "CHR ''*''"]
  by (auto simp: plain_token_def free_of_def redact_event_def redact_token_def)

section \<open>What a run sees of the manager\<close>

definition sent_for :: "string \<Rightarrow> manager \<Rightarrow> deploy_event list" where
  "sent_for r m = filter (\<lambda>e. de_run_id e = r) (mg_sent m)"

definition view :: "string \<Rightarrow> manager \<Rightarrow> int option \<times> int option \<times> bool \<times> deploy_event list" where
  "view r m = (mg_seq m r, mg_logged m r, r \<in> mg_noted m, sent_for r m)"

text \<open>What a step other than the start and the end of a run emits.\<close>

fun op_event :: "manager_op \<Rightarrow> (string \<times> string \<times> deploy_event) option" where
  "op_event (Report run tok msg) = Some (run, tok, run_log run [] (msg @ [newline]))"
| "op_event (Phase now run tok phase msg) = Some (run, tok, run_log run phase (phase @ '': '' @ msg @ [newline]))"
| "op_event (Commit run tok sha) = Some (run, tok, (run_log run ''clone'' (''commit: '' @ sha @ [newline]))\<lparr>de_commit_sha := sha\<rparr>)"
| "op_event (Output run tok chunk) = (if chunk = [] then None else Some (run, tok, run_log run ''install'' chunk))"
| "op_event _ = None"

fun borders :: "string \<Rightarrow> manager_op \<Rightarrow> bool" where
  "borders r (Begin now ctx cmd) \<longleftrightarrow> dc_run_id cmd = r"
| "borders r (End now ctx cmd ended outcome) \<longleftrightarrow> dc_run_id cmd = r"
| "borders r _ \<longleftrightarrow> False"

text \<open>A log line of a run: what every event of \<open>op_event\<close> is.\<close>

definition run_line :: "string \<Rightarrow> deploy_event \<Rightarrow> bool" where
  "run_line r ev \<longleftrightarrow> de_run_id ev = r \<and> de_kind ev = ''log'' \<and> de_seq ev = 0 \<and> de_data ev \<noteq> [] \<and> de_message ev = []"

lemma op_event_line: "op_event op = Some (r, tok, ev) \<Longrightarrow> run_line r ev"
  by (cases op) (auto simp: run_line_def run_log_def split: if_splits)

lemma send_view: "view r (send_event ev m) =
    (mg_seq m r, mg_logged m r, r \<in> mg_noted m, sent_for r m @ (if de_run_id ev = r then [ev] else []))"
  by (simp add: view_def send_event_def sent_for_def)

lemma over_other: "q \<noteq> r \<Longrightarrow> view r (fst (over_log_cap q n m)) = view r m"
  by (simp add: over_log_cap_def Let_def view_def send_event_def sent_for_def cap_notice_def run_log_def split: option.split)

lemma emit_out_other: "q \<noteq> r \<Longrightarrow> de_run_id ev = q \<Longrightarrow> view r (emit_out q tok ev m) = view r m"
  by (simp add: emit_out_def number_event_def Let_def view_def send_event_def sent_for_def redact_event_def split: option.split)

lemma emit_other:
  assumes "q \<noteq> r" and e: "de_run_id ev = q"
  shows "view r (emit q tok ev m) = view r m"
proof -
  let ?k = "int (length (scrub_pty_log (de_data ev)))"
  obtain m1 b where o: "over_log_cap q ?k m = (m1, b)" by fastforce
  with over_other[OF assms(1), of ?k m] have "view r m1 = view r m" by simp
  then show ?thesis using assms by (simp add: emit_def Let_def o emit_out_other split: bool.split)
qed

lemma out_cong: "view r m = view r n \<Longrightarrow> de_run_id ev = r \<Longrightarrow> view r (emit_out r tok ev m) = view r (emit_out r tok ev n)"
  by (simp add: emit_out_def number_event_def Let_def view_def send_event_def sent_for_def redact_event_def split: option.split)

lemma over_cong: "view r m = view r n \<Longrightarrow>
    view r (fst (over_log_cap r k m)) = view r (fst (over_log_cap r k n)) \<and> snd (over_log_cap r k m) = snd (over_log_cap r k n)"
  by (cases "mg_logged n r"; cases "r \<in> mg_noted n") (simp_all add: over_log_cap_def Let_def view_def send_event_def sent_for_def)

lemma emit_cong: "view r m = view r n \<Longrightarrow> de_run_id ev = r \<Longrightarrow> view r (emit r tok ev m) = view r (emit r tok ev n)"
proof -
  assume v: "view r m = view r n" and e: "de_run_id ev = r"
  let ?k = "int (length (scrub_pty_log (de_data ev)))"
  obtain m1 b n1 c where o: "over_log_cap r ?k m = (m1, b)" "over_log_cap r ?k n = (n1, c)" by fastforce
  with over_cong[OF v, of ?k] have q: "view r m1 = view r n1" "b = c" by auto
  have "view r (emit_out r tok (ev\<lparr>de_data := d\<rparr>) m1) = view r (emit_out r tok (ev\<lparr>de_data := d\<rparr>) n1)" for d
    by (rule out_cong[OF q(1)]) (simp add: e)
  then show ?thesis using v q out_cong[OF v e, of tok] by (auto simp: emit_def Let_def o split: bool.split)
qed

lemma metrics_view: "view r (with_metrics q f m) = view r m"
  by (simp add: with_metrics_def view_def sent_for_def split: option.split)

lemma silent_view:
  "view r (write_stdin q d m) = view r m" "view r (cancel_deploy q m) = view r m" "view r (close_all qs m) = view r m"
  "view r (launch_noted q a m) = view r m" "view r (track_proc q p m) = view r m" "view r (open_stdin q f m) = view r m"
  "view r (shut_stdin q f m) = view r m"
  by (simp_all add: view_def sent_for_def write_stdin_def cancel_deploy_def close_all_def launch_noted_def track_proc_def
      open_stdin_def shut_stdin_def Let_def split: option.split)

lemma fail_other: "q \<noteq> r \<Longrightarrow> view r (fail_run now q tok phase msg m) = view r m"
  by (simp add: fail_run_def Let_def emit_other run_log_def failed_event_def)

lemma step_view:
  assumes "\<not> borders r op"
  shows "view r (manager_step op m) =
    (case op_event op of None \<Rightarrow> view r m | Some (q, tok, ev) \<Rightarrow> if q = r then view r (emit q tok ev m) else view r m)"
proof -
  have b: "view r (begin_run now ctx cmd m) = view r m" if "dc_run_id cmd \<noteq> r" for now ctx cmd
    using that emit_other[of "dc_run_id cmd" r "started_event (dc_run_id cmd)"]
    by (simp add: begin_run_def Let_def started_event_def) (simp add: view_def sent_for_def)
  have f: "view r (forget_run ctx q n) = view r n" if "q \<noteq> r" for ctx q n
    using that by (simp add: forget_run_def view_def sent_for_def)
  have e: "view r (report_end now cmd ended outcome m) = view r m" if "dc_run_id cmd \<noteq> r" for now cmd ended outcome
    using that by (auto simp: report_end_def Let_def emit_other fail_other finished_event_def split: option.split context_end.split)
  have c: "view r (emit r tok ev (with_metrics q g m)) = view r (emit r tok ev m)" if "de_run_id ev = r" for tok ev q g
    using that by (intro emit_cong metrics_view)
  show ?thesis using assms
    by (cases op)
      (auto simp: b f e c log_line_def phase_line_def emit_chunk_def end_run_def emit_other metrics_view silent_view
        run_log_def)
qed

section \<open>The events of a run\<close>

definition numbered :: "deploy_event \<Rightarrow> bool" where
  "numbered e \<longleftrightarrow> de_seq e \<noteq> 0"

definition log_bytes :: "deploy_event list \<Rightarrow> int" where
  "log_bytes es = sum_list (map (\<lambda>e. int (length (de_data e))) (filter numbered es))"

definition notices :: "deploy_event list \<Rightarrow> nat" where
  "notices es = length (filter (Not \<circ> numbered) es)"

definition in_order :: "nat \<Rightarrow> deploy_event list \<Rightarrow> bool" where
  "in_order n es \<longleftrightarrow> map de_seq (filter numbered es) = map (\<lambda>i. int (Suc i)) [0..<n]"

definition long_token :: "string \<Rightarrow> bool" where
  "long_token tok \<longleftrightarrow> tok = [] \<or> 3 \<le> length tok"

definition is_line :: "deploy_event \<Rightarrow> bool" where
  "is_line e \<longleftrightarrow> de_kind e = ''log'' \<and> de_message e = []"

text \<open>A run under way: numbered so far up to \<open>n \<le> N\<close>, started, and since then only lines, within the budget.\<close>

definition under_way :: "nat \<Rightarrow> deploy_event list \<Rightarrow> int option \<times> int option \<times> bool \<times> deploy_event list \<Rightarrow> bool" where
  "under_way N old v \<longleftrightarrow>
     (case v of (sq, lg, noted, sent) \<Rightarrow> \<exists>n k e es. n \<le> N \<and> sq = Some (int n) \<and> lg = Some k \<and> sent = old @ e # es \<and>
        in_order n (e # es) \<and> de_kind e = ''started'' \<and> list_all is_line es \<and>
        notices (e # es) \<le> (if noted then 1 else 0) \<and>
        log_bytes (e # es) \<le> k \<and> log_bytes (e # es) \<le> log_cap_bytes)"

lemma under_way_mono: "under_way N old v \<Longrightarrow> N \<le> M \<Longrightarrow> under_way M old v"
proof -
  obtain sq lg noted sent where v: "v = (sq, lg, noted, sent)" by (cases v)
  show "under_way N old v \<Longrightarrow> N \<le> M \<Longrightarrow> under_way M old v"
    unfolding under_way_def v prod.case by (elim exE conjE, intro exI conjI, erule (1) order_trans) assumption+
qed

lemma redact_shorter: "long_token tok \<Longrightarrow> length (redact_token s tok) \<le> length s"
  using replace_all_length_le[of "''***''" tok s] by (auto simp: redact_token_def long_token_def)

lemma in_order_snoc: "in_order n es \<Longrightarrow> de_seq e = int (Suc n) \<Longrightarrow> in_order (Suc n) (es @ [e])"
  by (simp add: in_order_def numbered_def)

lemma in_order_skip: "in_order n es \<Longrightarrow> \<not> numbered e \<Longrightarrow> in_order n (es @ [e])"
  by (simp add: in_order_def)

lemma notices_snoc: "notices (es @ [e]) = notices es + (if numbered e then 0 else 1)"
  by (simp add: notices_def)

lemma log_bytes_snoc: "log_bytes (es @ [e]) = log_bytes es + (if numbered e then int (length (de_data e)) else 0)"
  by (simp add: log_bytes_def)

text \<open>An event that is not dropped gets the next number.\<close>

lemma emit_out_view:
  assumes "de_run_id ev = r" "de_seq ev = 0" "mg_seq m r = Some (int n)" "Suc n < 2 ^ 31"
  shows "view r (emit_out r tok ev m) = (Some (int (Suc n)), mg_logged m r, r \<in> mg_noted m,
           sent_for r m @ [redact_event tok (ev\<lparr>de_seq := int (Suc n)\<rparr>)])"
proof -
  have "to_int32 (int n + 1) = int (Suc n)" using assms(4) by (simp add: to_int32_def)
  then show ?thesis using assms(1-3)
    by (simp add: emit_out_def number_event_def redact_event_def Let_def view_def send_event_def sent_for_def)
qed

lemma emit_under_way:
  assumes u: "under_way N old (view r m)" and l: "run_line r ev" and N: "Suc N < 2 ^ 31" and tok: "long_token tok"
  shows "under_way (Suc N) old (view r (emit r tok ev m))"
proof -
  obtain n k e es where i: "n \<le> N" "mg_seq m r = Some (int n)" "mg_logged m r = Some k" "sent_for r m = old @ e # es"
    "in_order n (e # es)" "de_kind e = ''started''" "list_all is_line es"
    "notices (e # es) \<le> (if r \<in> mg_noted m then 1 else 0)"
    "log_bytes (e # es) \<le> k" "log_bytes (e # es) \<le> log_cap_bytes"
    using u by (auto simp: under_way_def view_def)
  define d where "d = scrub_pty_log (de_data ev)"
  let ?c = "redact_event tok (ev\<lparr>de_data := d, de_seq := int (Suc n)\<rparr>)"
  consider "d = []" | "d \<noteq> []" "log_cap_bytes < k + int (length d)" | "d \<noteq> []" "k + int (length d) \<le> log_cap_bytes"
    by force
  then show ?thesis
  proof cases
    case 1
    then show ?thesis using l under_way_mono[OF u] by (simp add: emit_def run_line_def d_def)
  next
    case 2
    define x where "x = (if r \<in> mg_noted m then [] else [cap_notice r])"
    have v: "view r (emit r tok ev m) = (Some (int n), Some (k + int (length d)), True, old @ e # es @ x)"
      using l 2 i(2-4) by (simp add: emit_def run_line_def d_def[symmetric] over_log_cap_def x_def cap_notice_def
          run_log_def send_view) (simp add: view_def sent_for_def)
    have x: "list_all is_line x" "in_order n (e # es @ x)" "log_bytes (e # es @ x) = log_bytes (e # es)"
      using in_order_skip[OF i(5), of "cap_notice r"] log_bytes_snoc[of "e # es" "cap_notice r"] i(5)
      by (auto simp: x_def cap_notice_def run_log_def numbered_def is_line_def)
    have "notices (e # es @ x) \<le> 1"
      using i(8) notices_snoc[of "e # es" "cap_notice r"] by (simp add: x_def split: if_splits)
    then show ?thesis unfolding v under_way_def using i(1,6,7,9,10) x 2
      by (auto intro!: exI[of _ n] exI[of _ "k + int (length d)"] exI[of _ e] exI[of _ "es @ x"])
  next
    case 3
    have v: "view r (emit r tok ev m) = (Some (int (Suc n)), Some (k + int (length d)), r \<in> mg_noted m, old @ e # es @ [?c])"
      using l 3 i(1-4) N emit_out_view[of "ev\<lparr>de_data := d\<rparr>" r "m\<lparr>mg_logged := (mg_logged m)(r \<mapsto> k + int (length d))\<rparr>" n tok]
      by (simp add: emit_def run_line_def d_def[symmetric] over_log_cap_def sent_for_def)
    have "int (length (de_data ?c)) \<le> int (length d)" using redact_shorter[OF tok] by (simp add: redact_event_def)
    then have b: "log_bytes (e # es @ [?c]) \<le> k + int (length d)" using log_bytes_snoc[of "e # es" ?c] i(9) by simp
    have o: "in_order (Suc n) (e # es @ [?c])" using in_order_snoc[OF i(5), of ?c] by (simp add: redact_event_def)
    have "numbered ?c" by (simp add: numbered_def redact_event_def)
    then have "notices (e # es @ [?c]) \<le> (if r \<in> mg_noted m then 1 else 0)"
      using i(8) notices_snoc[of "e # es" ?c] by simp
    then show ?thesis unfolding v under_way_def using i(1,6,7) b o 3(2) l
      by (auto simp: redact_event_def run_line_def is_line_def redact_token_def intro!: exI[of _ "Suc n"] exI[of _ "k + int (length d)"] exI[of _ e] exI[of _ "es @ [?c]"])
  qed
qed

fun tokens_long :: "string \<Rightarrow> manager_op \<Rightarrow> bool" where
  "tokens_long r op = (case op_event op of None \<Rightarrow> True | Some (q, tok, ev) \<Rightarrow> q = r \<longrightarrow> long_token tok)"

lemma run_under_way:
  "list_all (\<lambda>op. \<not> borders r op \<and> tokens_long r op) ops \<Longrightarrow> N + length ops < 2 ^ 31 \<Longrightarrow> under_way N old (view r m) \<Longrightarrow>
   under_way (N + length ops) old (view r (manager_runs ops m))"
proof (induction ops arbitrary: N m)
  case (Cons op ops)
  have "under_way (Suc N) old (view r (manager_step op m))"
  proof (cases "op_event op")
    case None
    then show ?thesis using Cons.prems step_view[of r op m] under_way_mono[OF Cons.prems(3)] by simp
  next
    case (Some x)
    then obtain q tok ev where x: "op_event op = Some (q, tok, ev)" by (cases x) auto
    then have "q = r \<Longrightarrow> under_way (Suc N) old (view r (emit r tok ev m))"
      using Cons.prems emit_under_way[OF Cons.prems(3) op_event_line[of op r tok ev]] by simp
    then show ?thesis using Cons.prems step_view[of r op m] under_way_mono[OF Cons.prems(3)] x by (simp split: if_splits)
  qed
  then show ?case using Cons.IH[of "Suc N" "manager_step op m"] Cons.prems by (simp add: manager_runs_def)
qed (simp add: manager_runs_def)

lemma begin_view:
  "dc_run_id cmd = r \<Longrightarrow> view r (begin_run now ctx cmd m) = (Some 1, Some 0, r \<in> mg_noted m,
     sent_for r m @ [redact_event (dc_clone_token cmd) ((started_event r)\<lparr>de_seq := 1\<rparr>)])"
  using emit_out_view[of "started_event r" r _ 0 "dc_clone_token cmd"]
  by (simp add: begin_run_def Let_def emit_def) (simp add: started_event_def sent_for_def)

lemma begin_under_way:
  assumes "dc_run_id cmd = r" "r \<notin> mg_noted m"
  shows "under_way 1 (sent_for r m) (view r (begin_run now ctx cmd m))"
  unfolding begin_view[OF assms(1)] under_way_def
  using assms(2) by (simp add: in_order_def numbered_def notices_def log_bytes_def redact_event_def started_event_def
      redact_token_def log_cap_bytes_def)

text \<open>The last event of a run\<close>

definition run_over :: "string \<Rightarrow> deploy_event list \<Rightarrow> deploy_event list \<Rightarrow> bool" where
  "run_over status old sent \<longleftrightarrow> (\<exists>n e es l. sent = old @ e # es @ [l] \<and>
     de_kind e = ''started'' \<and> list_all is_line es \<and> de_kind l = ''finished'' \<and> de_status l = status \<and> de_data l = [] \<and>
     in_order n (e # es @ [l]) \<and> notices (e # es @ [l]) \<le> 1 \<and> log_bytes (e # es @ [l]) \<le> log_cap_bytes)"

lemma finish_over:
  assumes u: "under_way N old (view r m)" and N: "Suc N < 2 ^ 31"
    and ev: "de_run_id ev = r" "de_seq ev = 0" "de_kind ev = ''finished''" "de_data ev = []"
  shows "run_over (de_status ev) old (sent_for r (emit r tok ev m))"
proof -
  obtain n k e es where i: "n \<le> N" "mg_seq m r = Some (int n)" "sent_for r m = old @ e # es"
    "in_order n (e # es)" "de_kind e = ''started''" "list_all is_line es"
    "notices (e # es) \<le> (if r \<in> mg_noted m then 1 else 0)" "log_bytes (e # es) \<le> log_cap_bytes"
    using u by (auto simp: under_way_def view_def)
  define l where "l = redact_event tok (ev\<lparr>de_seq := int (Suc n)\<rparr>)"
  have l: "de_kind l = ''finished''" "de_status l = de_status ev" "numbered l" "de_data l = []" "de_seq l = int (Suc n)"
    using ev by (simp_all add: l_def redact_event_def numbered_def redact_token_def)
  have s: "sent_for r (emit r tok ev m) = old @ e # es @ [l]"
    using emit_out_view[OF ev(1,2) i(2), of tok] ev i(1,3) N by (simp add: emit_def view_def l_def)
  have "in_order (Suc n) (e # es @ [l])" using in_order_snoc[OF i(4) l(5)] by simp
  moreover have "notices (e # es @ [l]) \<le> 1" using notices_snoc[of "e # es" l] i(7) l(3) by (simp split: if_splits)
  moreover have "log_bytes (e # es @ [l]) \<le> log_cap_bytes" using log_bytes_snoc[of "e # es" l] i(8) l(3,4) by simp
  ultimately show ?thesis unfolding run_over_def s using i(5,6) l(1,2,4) by blast
qed

lemma fail_over:
  assumes u: "under_way N old (view r m)" and N: "Suc (Suc N) < 2 ^ 31" and tok: "long_token tok"
  shows "run_over ''failed'' old (sent_for r (fail_run now r tok phase msg m))"
proof -
  have "under_way (Suc N) old (view r (emit r tok (run_log r phase
      (''FAILED '' @ [CHR 0xE2, CHR 0x80, CHR 0x94] @ '' '' @ fail_message phase msg @ [newline])) m))"
    by (rule emit_under_way[OF u _ _ tok]) (use N in \<open>simp_all add: run_line_def run_log_def\<close>)
  from finish_over[OF this, of "failed_event r phase msg met" tok for met]
  show ?thesis using N by (simp add: fail_run_def Let_def) (simp add: failed_event_def)
qed

lemma end_over:
  assumes u: "under_way N old (view r m)" and N: "Suc (Suc N) < 2 ^ 31" and tok: "long_token (dc_clone_token cmd)"
    and r: "dc_run_id cmd = r"
  shows "run_over (if outcome = None then ''succeeded'' else ''failed'') old (sent_for r (end_run now ctx cmd ended outcome m))"
proof -
  have f: "sent_for r (forget_run c q n) = sent_for r n" for c q n by (simp add: forget_run_def sent_for_def)
  show ?thesis
  proof (cases outcome)
    case None
    have "run_over (de_status (finished_event cmd ended None met)) old (sent_for r (emit r tok (finished_event cmd ended None met) m))"
      for met tok by (rule finish_over[OF u]) (use N r in \<open>simp_all add: finished_event_def\<close>)
    then show ?thesis using None r by (simp add: end_run_def f report_end_def Let_def) (simp add: finished_event_def)
  next
    case (Some x)
    then show ?thesis using fail_over[OF u N tok] r
      by (cases x) (simp add: end_run_def f report_end_def Let_def split: context_end.split)
  qed
qed

lemma whole_run_over:
  assumes "dc_run_id cmd = r" and "r \<notin> mg_noted m" and "long_token (dc_clone_token cmd)"
    and "list_all (\<lambda>op. \<not> borders r op \<and> tokens_long r op) ops" and "length ops + 3 < 2 ^ 31"
  shows "run_over (if outcome = None then ''succeeded'' else ''failed'') (sent_for r m)
     (sent_for r (manager_runs (Begin now ctx cmd # ops @ [End later ctx cmd ended outcome]) m))"
proof -
  let ?m = "manager_runs ops (begin_run now ctx cmd m)"
  have "under_way (1 + length ops) (sent_for r m) (view r ?m)"
    by (rule run_under_way[OF assms(4) _ begin_under_way[OF assms(1,2)]]) (use assms(5) in simp)
  from end_over[OF this _ assms(3,1), of outcome later ctx ended] show ?thesis
    using assms(5) by (simp add: manager_runs_def)
qed


text \<open>A run on an agent that also serves another run and is told to stop.\<close>

definition small_run :: deploy_command where
  "small_run = \<lparr>dc_run_id = ''r1'', dc_op = ''start'', dc_clone_url = [], dc_clone_token = ''ghp_secret'', dc_dest_path = [],
     dc_branch = [], dc_install_script = [], dc_root_directory = [], dc_env = Map.empty, dc_port = 0, dc_process_manager = [],
     dc_apps = [], dc_stdin = [], dc_rollback_sha = [], dc_health = None, dc_timeout_seconds = 0, dc_run_as_user = [],
     dc_project_name = [], dc_on_wave_failure = [], dc_flow = []\<rparr>"

definition small_ops :: "manager_op list" where
  "small_ops = [Phase 5 ''r1'' ''ghp_secret'' ''clone'' ''cloning with ghp_secret'', Output ''r2'' ''x'' ''other'',
     Output ''r1'' ''ghp_secret'' ''built'', Cancel ''r1'']"


section \<open>The token stays on the agent\<close>

fun op_source :: "manager_op \<Rightarrow> (string \<times> string) option" where
  "op_source (Begin now ctx cmd) = Some (dc_run_id cmd, dc_clone_token cmd)"
| "op_source (End now ctx cmd ended outcome) = Some (dc_run_id cmd, dc_clone_token cmd)"
| "op_source op = map_option (\<lambda>(q, tok, ev). (q, tok)) (op_event op)"

text \<open>What is sent for a run in a call: cut notices of the run, and events cleaned of the token.\<close>

definition sends :: "string \<Rightarrow> string \<Rightarrow> manager \<Rightarrow> manager \<Rightarrow> bool" where
  "sends q tok m n \<longleftrightarrow> (\<exists>es. mg_sent n = mg_sent m @ es \<and>
     list_all (\<lambda>e. de_run_id e = q \<and> (e = cap_notice q \<or> (\<exists>ev. e = redact_event tok ev))) es)"

lemma sends_same: "mg_sent n = mg_sent m \<Longrightarrow> sends q tok m n"
  by (simp add: sends_def)

lemma sends_trans: "sends q tok m n \<Longrightarrow> sends q tok n k \<Longrightarrow> sends q tok m k"
  by (auto simp: sends_def)

lemma out_sends: "de_run_id ev = q \<Longrightarrow> sends q tok m (emit_out q tok ev m)"
proof -
  assume q: "de_run_id ev = q"
  obtain n ev1 where n: "number_event q ev m = (n, ev1)" by force
  then have "mg_sent n = mg_sent m" "de_run_id ev1 = q"
    using q by (auto simp: number_event_def Let_def split: if_splits option.splits)
  then show ?thesis by (auto simp: sends_def emit_out_def n send_event_def) (simp add: redact_event_def)
qed

lemma over_sends: "sends q tok m (fst (over_log_cap q k m))"
  by (auto simp: sends_def over_log_cap_def Let_def send_event_def split: option.split)
    (simp add: cap_notice_def run_log_def)

lemma emit_sends: "de_run_id ev = q \<Longrightarrow> sends q tok m (emit q tok ev m)"
proof -
  assume q: "de_run_id ev = q"
  obtain m1 b where o: "over_log_cap q (int (length (scrub_pty_log (de_data ev)))) m = (m1, b)" by fastforce
  have "sends q tok m m1" using over_sends[of q tok m] o by (metis fst_conv)
  moreover have "sends q tok m1 (emit_out q tok (ev\<lparr>de_data := d\<rparr>) m1)" for d by (rule out_sends) (simp add: q)
  ultimately show ?thesis using sends_trans out_sends[OF q, of tok m]
    by (auto simp: emit_def Let_def o sends_same split: bool.split)
qed

lemma fail_sends: "sends q tok m (fail_run now q tok phase msg m)"
  unfolding fail_run_def Let_def
  by (rule sends_trans[OF emit_sends emit_sends]) (simp_all add: run_log_def failed_event_def)

lemma end_sends: "sends (dc_run_id cmd) (dc_clone_token cmd) m (report_end now cmd ended outcome m)"
proof (cases outcome)
  case None
  then show ?thesis by (simp add: report_end_def Let_def emit_sends finished_event_def)
next
  case (Some x)
  then show ?thesis by (cases x) (simp add: report_end_def Let_def fail_sends split: context_end.split)
qed

lemma silent_sent:
  "mg_sent (write_stdin q d m) = mg_sent m" "mg_sent (cancel_deploy q m) = mg_sent m" "mg_sent (close_all qs m) = mg_sent m"
  "mg_sent (launch_noted q a m) = mg_sent m" "mg_sent (track_proc q p m) = mg_sent m" "mg_sent (open_stdin q f m) = mg_sent m"
  "mg_sent (shut_stdin q f m) = mg_sent m" "mg_sent (with_metrics q g m) = mg_sent m" "mg_sent (forget_run c q m) = mg_sent m"
  by (simp_all add: write_stdin_def cancel_deploy_def close_all_def launch_noted_def track_proc_def
      open_stdin_def shut_stdin_def with_metrics_def forget_run_def Let_def split: option.split)

lemma begin_sends: "sends (dc_run_id cmd) (dc_clone_token cmd) m (begin_run now ctx cmd m)"
  unfolding begin_run_def Let_def
  by (rule sends_trans[OF sends_same emit_sends]) (simp_all add: started_event_def)

lemma step_sends:
  "case op_source op of None \<Rightarrow> mg_sent (manager_step op m) = mg_sent m | Some (q, tok) \<Rightarrow> sends q tok m (manager_step op m)"
proof (cases op)
  case (Phase now run tok phase msg)
  have "sends run tok (with_metrics run (note_phase now phase) m) (emit run tok ev (with_metrics run (note_phase now phase) m))"
    if "de_run_id ev = run" for ev using that by (rule emit_sends)
  then show ?thesis using Phase
    by (simp add: phase_line_def run_log_def) (metis deploy_event.select_convs(1) sends_same sends_trans silent_sent(8))
next
  case (End now ctx cmd ended outcome)
  then show ?thesis using sends_trans[OF end_sends sends_same[OF silent_sent(9)]] by (simp add: end_run_def)
qed (simp_all add: begin_sends emit_sends log_line_def run_log_def emit_chunk_def silent_sent)

text \<open>C28. Whatever steps the agent takes, in whatever order, no event that it sends for a run has the run's
  clone token in its text or in its message; the only event that is not cleaned is the constant notice
  that the log was cut.\<close>

theorem deploy_token_not_sent:
  assumes "plain_token tok" and "list_all (\<lambda>op. \<forall>q t. op_source op = Some (q, t) \<longrightarrow> q = r \<longrightarrow> t = tok) ops"
    and "e \<in> set (drop (length (mg_sent m)) (mg_sent (manager_runs ops m)))" and "de_run_id e = r"
  shows "e = cap_notice r \<or> free_of tok e"
proof -
  have "\<exists>es. mg_sent (manager_runs ops m) = mg_sent m @ es \<and> list_all (\<lambda>e. de_run_id e = r \<longrightarrow> e = cap_notice r \<or> free_of tok e) es"
    using assms(2)
  proof (induction ops arbitrary: m)
    case (Cons op ops)
    have "\<exists>es. mg_sent (manager_step op m) = mg_sent m @ es \<and> list_all (\<lambda>e. de_run_id e = r \<longrightarrow> e = cap_notice r \<or> free_of tok e) es"
    proof (cases "op_source op")
      case (Some x)
      then obtain q t where x: "op_source op = Some (q, t)" by (cases x) auto
      then obtain es where es: "mg_sent (manager_step op m) = mg_sent m @ es"
        "list_all (\<lambda>e. de_run_id e = q \<and> (e = cap_notice q \<or> (\<exists>ev. e = redact_event t ev))) es"
        using step_sends[of op m] by (auto simp: sends_def)
      have "list_all (\<lambda>e. de_run_id e = r \<longrightarrow> e = cap_notice r \<or> free_of tok e) es"
        by (rule list.pred_mono_strong[OF es(2)]) (use Cons.prems x redact_free[OF assms(1)] in auto)
      then show ?thesis using es(1) by blast
    qed (use step_sends[of op m] in simp)
    then show ?case using Cons.IH[of "manager_step op m"] Cons.prems by (fastforce simp: manager_runs_def)
  qed (simp add: manager_runs_def)
  then show ?thesis using assms(3,4) by (auto simp: list_all_iff)
qed

theorem deploy_token_not_sent_witness:
  "\<not> sublist ''ghp_secret'' (de_data (mg_sent (manager_runs (Begin 0 7 small_run # small_ops) new_manager) ! 1)) \<and>
   de_data (mg_sent (manager_runs (Begin 0 7 small_run # small_ops) new_manager) ! 1) = ''clone: cloning with ***'' @ [newline]"
proof -
  let ?ops = "Begin 0 7 small_run # small_ops" and ?m = "manager_runs (Begin 0 7 small_run # small_ops) new_manager"
  let ?e = "mg_sent ?m ! 1"
  have d: "de_data ?e = ''clone: cloning with ***'' @ [newline] \<and> de_run_id ?e = ''r1'' \<and> 1 < length (mg_sent ?m)" by code_simp
  have "?e = cap_notice ''r1'' \<or> free_of ''ghp_secret'' ?e"
  proof (rule deploy_token_not_sent[of _ "''r1''" ?ops ?e new_manager])
    show "?e \<in> set (drop (length (mg_sent new_manager)) (mg_sent ?m))" using d by (simp add: new_manager_def)
  qed (use d in \<open>simp_all add: plain_token_def small_run_def small_ops_def\<close>)
  moreover have "?e \<noteq> cap_notice ''r1''" using d by (auto simp: cap_notice_def run_log_def)
  ultimately show ?thesis using d by (simp add: free_of_def)
qed

section \<open>Where the token does get out\<close>

lemma replace_all_short: "length s < length old \<Longrightarrow> replace_all old new s = s"
proof (induction s)
  case (Cons c s)
  then show ?case by (auto simp: replace_all_Cons dest: prefix_length_le)
qed (simp add: replace_all_Nil)

text \<open>A text that scrubbing leaves alone\<close>

definition clean_text :: "string \<Rightarrow> bool" where
  "clean_text s \<longleftrightarrow> list_all (\<lambda>c. c \<noteq> esc \<and> c \<noteq> CHR 0x0D) s \<and> list_ex (\<lambda>c. is_lower c \<or> is_upper c \<or> is_digit c) s"

lemma strip_plain: "list_all (\<lambda>c. c \<noteq> esc) s \<Longrightarrow> strip_ansi s = s"
  by (induction s) simp_all

lemma scrub_clean: "clean_text s \<Longrightarrow> scrub_pty_log s = s \<and> s \<noteq> []"
proof -
  assume s: "clean_text s"
  then have "strip_ansi s = s" by (intro strip_plain) (auto simp: clean_text_def list_all_iff)
  moreover have "filter (\<lambda>c. c \<noteq> CHR 0x0D) s = s" using s by (auto simp: clean_text_def list_all_iff filter_id_conv)
  moreover obtain c where c: "c \<in> set s" "is_lower c \<or> is_upper c \<or> is_digit c" using s by (auto simp: clean_text_def list_ex_iff)
  have "plain_char c" using c(2) by (auto simp: plain_char_def is_space_code is_lower_def is_upper_def is_digit_def)
  then have "trim_space s \<noteq> []" using trim_space_keeps[OF c(1)] by auto
  moreover have "\<not> spinner_only s" using c
    by (auto simp: spinner_only_def list_all_iff is_lower_def is_upper_def is_digit_def intro!: bexI[of _ c])
  ultimately show ?thesis using c(1) by (auto simp: scrub_pty_log_def)
qed

lemma emit_part:
  assumes c: "clean_text s" and t: "length s < length tok" and k: "mg_logged m r = Some k" "k + int (length s) \<le> log_cap_bytes"
  shows "\<exists>e. mg_sent (emit_chunk r tok s m) = mg_sent m @ [e] \<and> de_data e = s \<and> de_run_id e = r \<and>
     mg_logged (emit_chunk r tok s m) r = Some (k + int (length s))"
proof -
  have s: "scrub_pty_log s = s" "s \<noteq> []" using scrub_clean[OF c] by auto
  have "redact_token s tok = s" using t by (simp add: redact_token_def replace_all_short)
  then show ?thesis using s k
    by (simp add: emit_chunk_def emit_def run_log_def over_log_cap_def Let_def emit_out_def number_event_def
        send_event_def redact_event_def split: option.split)
qed

text \<open>Output is cleaned read by read: a script that prints the token so that one read ends inside it has
  the token sent in two pieces, one event after the other, as it is.\<close>

theorem split_token_leaks:
  assumes "clean_text a" and "clean_text b" and "mg_logged m r = Some k"
    and "k + int (length a + length b) \<le> log_cap_bytes"
  shows "map de_data (drop (length (mg_sent m)) (mg_sent (pump_output r (a @ b) dir False [a, b] m))) = [a, b]"
proof -
  have n: "0 < length a" "0 < length b" using scrub_clean[OF assms(1)] scrub_clean[OF assms(2)] by auto
  obtain e where e: "mg_sent (emit_chunk r (a @ b) a m) = mg_sent m @ [e]" "de_data e = a"
    "mg_logged (emit_chunk r (a @ b) a m) r = Some (k + int (length a))"
    using emit_part[OF assms(1) _ assms(3), of "a @ b"] n assms(4) by auto
  obtain f where f: "mg_sent (emit_chunk r (a @ b) b (emit_chunk r (a @ b) a m)) = mg_sent m @ [e, f]" "de_data f = b"
    using emit_part[OF assms(2) _ e(3), of "a @ b"] n assms(4) e(1) by auto
  show ?thesis using e(2) f by (simp add: pump_output_def tag_prefix_def)
qed

theorem split_token_leaks_witness:
  "concat (map de_data (drop 1 (mg_sent (pump_output ''r1'' ''ghp_secret'' ''/srv'' False [''ghp_'', ''secret'']
     (manager_step (Begin 0 7 small_run) new_manager))))) = ''ghp_secret''"
proof -
  let ?m = "manager_step (Begin 0 7 small_run) new_manager"
  have m: "mg_logged ?m ''r1'' = Some 0 \<and> length (mg_sent ?m) = 1" by code_simp
  have c: "clean_text ''ghp_'' \<and> clean_text ''secret''" by code_simp
  show ?thesis
    using split_token_leaks[of "''ghp_''" "''secret''" ?m "''r1''" 0 "''/srv''"] m c by (simp add: log_cap_bytes_def)
qed

section \<open>Timings\<close>

definition total_ms :: "(string \<times> int) list \<Rightarrow> int" where
  "total_ms ms = sum_list (map snd ms)"

lemma total_add: "total_ms (add_ms p d ms) = total_ms ms + d"
  by (induction p d ms rule: add_ms.induct) (simp_all add: total_ms_def)

fun note_phases :: "(int \<times> string) list \<Rightarrow> run_metrics \<Rightarrow> run_metrics" where
  "note_phases [] r = r"
| "note_phases ((now, p) # ps) r = note_phases ps (note_phase now p r)"

lemma close_total: "rm_start r \<le> now \<Longrightarrow> total_ms (close_phase now r) * 1000000 \<le> total_ms (rm_ms r) * 1000000 + (now - rm_start r)"
  by (simp add: close_phase_def total_add millis_def distrib_right) (metis mult.commute minus_mod_eq_mult_div pos_mod_sign diff_le_eq le_add_same_cancel1 zero_less_numeral)

lemma note_phases_total:
  "sorted (rm_start r # map fst ps @ [now]) \<Longrightarrow> total_ms (rm_ms r) * 1000000 \<le> rm_start r - t0 \<Longrightarrow>
   total_ms (dm_phase_ms (metrics_snapshot now (note_phases ps r))) * 1000000 \<le> now - t0"
proof (induction ps r rule: note_phases.induct)
  case (1 r)
  then show ?case using close_total[of r now] by (simp add: metrics_snapshot_def)
next
  case (2 t p ps r)
  have "total_ms (rm_ms (note_phase t p r)) * 1000000 \<le> rm_start (note_phase t p r) - t0"
    "sorted (rm_start (note_phase t p r) # map fst ps @ [now])"
    using 2(2,3) close_total[of r t] by (auto simp: note_phase_def)
  then show ?case using 2(1) by simp
qed

text \<open>The timings of a run add up to no more than the time since it started.\<close>

lemma phases_within_run:
  "sorted (t0 # map fst ps @ [now]) \<Longrightarrow>
   total_ms (dm_phase_ms (metrics_snapshot now (note_phases ps (new_run_metrics t0)))) * 1000000 \<le> now - t0"
  by (rule note_phases_total) (simp_all add: new_run_metrics_def total_ms_def)

end
