(* ===== verification/Gateway.thy ===== *)
theory Gateway
  imports Requests Trackers
begin

text \<open>
  The agent stream of the control plane, \<open>control-plane/internal/agentgw\<close>: authentication
  (\<open>stream.go\<close>, \<open>edge_auth.go\<close>), the dispatch of every inbound message and the handlers that
  write the database (\<open>stream.go\<close>, \<open>connectors.go\<close>), and the job snapshot pushed to an agent
  (\<open>sync.go\<close>). A table is a list of rows or a map; a statement that fails is decided by the
  argument \<open>db\<close>, which says of the n-th statement of a handler whether the database executes it.
  The goroutines a handler starts are recorded as calls of hooks, in order.
\<close>

section \<open>Tables\<close>

record server_row =
  sv_id :: string
  sv_fingerprint :: "string option"
  sv_secret_hash :: "string option"
  sv_labels :: "(string \<times> string) list option"
  sv_agent_version :: string
  sv_os :: string
  sv_arch :: string
  sv_euid_root :: bool
  sv_service_user :: string
  sv_root_enabled :: bool
  sv_root_changed_by :: "string option"

definition update_row :: "string \<Rightarrow> (server_row \<Rightarrow> server_row) \<Rightarrow> server_row list \<Rightarrow> server_row list" where
  "update_row i f rows = map (\<lambda>r. if sv_id r = i then f r else r) rows"

record run_row =
  rr_job :: string
  rr_job_version :: string
  rr_server :: string
  rr_trigger :: string
  rr_status :: string
  rr_started :: int
  rr_exit_code :: "int option"
  rr_finished :: "int option"
  rr_duration_ms :: "int option"
  rr_error :: "string option"

text \<open>The metrics column holds the JSON of a map with up to three keys; None where a key is absent.\<close>

record deploy_payload =
  pl_phase_ms :: "(string \<times> int) list option"
  pl_release_bytes :: "int option"
  pl_free_disk_bytes :: "int option"

definition empty_payload :: deploy_payload where
  "empty_payload = \<lparr>pl_phase_ms = None, pl_release_bytes = None, pl_free_disk_bytes = None\<rparr>"

record deploy_row =
  dp_project :: string
  dp_branch :: string
  dp_trigger :: string
  dp_commit :: string
  dp_status :: string
  dp_started :: "int option"
  dp_finished :: "int option"
  dp_exit_code :: "int option"
  dp_error :: "string option"
  dp_metrics :: deploy_payload

record connector_row =
  cn_id :: string
  cn_connector :: discovered_connector

datatype hook_call =
    HRunFailed string string string string int int string
  | HDeployStarted string string string string string
  | HDeployFinished string string string string int string
  | HDeployFailed string string string string string string string int string bool
  | HDeploySucceeded string string string string string string string int string bool

record gateway =
  gw_root :: root_state
  gw_offline :: offline
  gw_servers :: "server_row list"
  gw_broker :: broker
  gw_terminals :: terminal_bus
  gw_pending :: pending_requests
  gw_users :: pending_users
  gw_tools :: pending_tools
  gw_network :: pending_network
  gw_log_cap :: log_cap
  gw_runs :: "string \<rightharpoonup> run_row"
  gw_run_logs :: "string \<times> string \<times> int \<rightharpoonup> string"
  gw_deploy_runs :: "string \<rightharpoonup> deploy_row"
  gw_deploy_logs :: "string \<times> string \<times> int \<rightharpoonup> string"
  gw_connectors :: "string \<times> string \<times> string \<rightharpoonup> connector_row"
  gw_resources :: "string \<times> string \<times> string \<rightharpoonup> connector_resource"
  gw_on_failed :: bool
  gw_on_deploy_fin :: bool
  gw_hooks :: "hook_call list"

text \<open>\<open>insert ... on conflict do nothing\<close>\<close>

definition insert_new :: "('k \<rightharpoonup> 'v) \<Rightarrow> 'k \<Rightarrow> 'v \<Rightarrow> ('k \<rightharpoonup> 'v)" where
  "insert_new m k v = (if m k = None then m(k \<mapsto> v) else m)"

lemma insert_new_keeps: "m k = Some v \<Longrightarrow> insert_new m k' v' k = Some v"
  by (auto simp: insert_new_def)

section \<open>Authentication\<close>

text \<open>\<open>first\<close>: the metadata of a stream maps a key to its values.\<close>

definition first_meta :: "(string \<times> string list) list \<Rightarrow> string \<Rightarrow> string" where
  "first_meta md key = (case map_of md key of Some (v # vs) \<Rightarrow> v | _ \<Rightarrow> [])"

definition meta_server_id :: string where "meta_server_id = ''x-cc-server-id''"
definition meta_secret :: string where "meta_secret = ''x-cc-agent-secret''"

text \<open>\<open>agentsecret.Matches\<close>; \<open>sha\<close> is the hex SHA-256. A comparison in constant time is a
  comparison.\<close>

definition secret_matches :: "(string \<Rightarrow> string) \<Rightarrow> string \<Rightarrow> string \<Rightarrow> bool" where
  "secret_matches sha plain stored = (plain \<noteq> [] \<and> stored \<noteq> [] \<and> sha plain = stored)"

text \<open>\<open>Gateway.edgeSecretHash\<close>: a scan that fails leaves the hash nil.\<close>

definition edge_secret_hash :: "bool \<Rightarrow> server_row list \<Rightarrow> string \<Rightarrow> (string, string) res" where
  "edge_secret_hash ok rows i =
     (let row = find (\<lambda>r. sv_id r = i) rows;
          no_rows = (ok \<and> row = None);
          hash = (if ok then (case row of Some r \<Rightarrow> sv_secret_hash r | None \<Rightarrow> None) else None)
      in case hash of
           None \<Rightarrow> Inr []
         | Some h \<Rightarrow> if no_rows then Inr [] else if \<not> ok then Inl ''query failed'' else Inr h)"

text \<open>\<open>edgeAuth.authenticate\<close>: the id, or the error every failure shows.\<close>

definition unauthenticated :: string where "unauthenticated = ''unauthenticated''"

definition edge_authenticate ::
  "(string \<Rightarrow> string) \<Rightarrow> (string \<Rightarrow> (string, string) res) \<Rightarrow> (string \<times> string list) list \<Rightarrow> (string, string) res" where
  "edge_authenticate sha lookup md =
     (let i = first_meta md meta_server_id; secret = first_meta md meta_secret
      in if i \<noteq> [] \<and> secret \<noteq> []
         then (case lookup i of
                 Inr stored \<Rightarrow> if secret_matches sha secret stored then Inr i else Inl unauthenticated
               | Inl e \<Rightarrow> Inl unauthenticated)
         else Inl unauthenticated)"

text \<open>What the transport knows of the peer. The first certificate is the client's.\<close>

record cert =
  ct_raw :: string
  ct_common_name :: string

datatype peer = NoPeer | NoTLS | Peer "cert list"

datatype auth_error = Unauthenticated string | Unavailable string

text \<open>\<open>service.authenticate\<close>; \<open>fp\<close> is \<open>pki.FingerprintDER\<close>, \<open>edge\<close> the id an edge
  stream's context carries.\<close>

definition authenticate ::
  "(nat \<Rightarrow> bool) \<Rightarrow> (string \<Rightarrow> string) \<Rightarrow> string option \<Rightarrow> peer \<Rightarrow> server_row list \<Rightarrow>
   server_row list \<times> (auth_error, string) res" where
  "authenticate db fp edge p rows =
     (case edge of
        Some (c # cs) \<Rightarrow> (rows, Inr (c # cs))
      | _ \<Rightarrow>
        (case p of
           NoPeer \<Rightarrow> (rows, Inl (Unauthenticated ''no peer''))
         | NoTLS \<Rightarrow> (rows, Inl (Unauthenticated ''no tls''))
         | Peer [] \<Rightarrow> (rows, Inl (Unauthenticated ''no client cert''))
         | Peer (ct # _) \<Rightarrow>
             if \<not> db 0 then (rows, Inl (Unavailable ''cert lookup failed''))
             else (case find (\<lambda>r. sv_fingerprint r = Some (fp (ct_raw ct))) rows of
                 Some r \<Rightarrow> (rows, Inr (sv_id r))
               | None \<Rightarrow>
                   let i = trim_space (ct_common_name ct)
                   in if i = [] then (rows, Inl (Unauthenticated ''unknown cert''))
                      else if \<not> db 1 then (rows, Inl (Unavailable ''cert lookup failed''))
                      else if find (\<lambda>r. sv_id r = i) rows = None then (rows, Inl (Unauthenticated ''unknown cert''))
                      else if \<not> db 2 then (rows, Inl (Unavailable ''cert lookup failed''))
                      else (update_row i (\<lambda>r. r\<lparr>sv_fingerprint := Some (fp (ct_raw ct))\<rparr>) rows, Inr i))))"

text \<open>The two listeners: the interceptor of the edge listener authenticates by the secret and puts the
  id into the context; the mTLS listener never looks at the metadata.\<close>

datatype listener = EdgeListener "(string \<times> string list) list" | MtlsListener "(string \<times> string list) list" peer

definition stream_server ::
  "(nat \<Rightarrow> bool) \<Rightarrow> (string \<Rightarrow> string) \<Rightarrow> (string \<Rightarrow> string) \<Rightarrow> listener \<Rightarrow> server_row list \<Rightarrow>
   server_row list \<times> (auth_error, string) res" where
  "stream_server db sha fp l rows =
     (case l of
        EdgeListener md \<Rightarrow>
          (case edge_authenticate sha (edge_secret_hash (db 3) rows) md of
             Inl e \<Rightarrow> (rows, Inl (Unauthenticated e))
           | Inr i \<Rightarrow> authenticate db fp (Some i) NoTLS rows)
      | MtlsListener md p \<Rightarrow> authenticate db fp None p rows)"

section \<open>The job snapshot\<close>

record job_row =
  jr_id :: string
  jr_current_version :: string
  jr_name :: string
  jr_interpreter :: string
  jr_schedule_cron :: string
  jr_timezone :: string
  jr_enabled :: bool
  jr_timeout_seconds :: int
  jr_concurrency_policy :: string
  jr_catchup_policy :: string
  jr_max_retries :: int
  jr_working_dir :: "string option"
  jr_run_as_user :: "string option"
  jr_target_kind :: string
  jr_server_id :: "string option"
  jr_target_labels :: "(string \<times> string) list option"
  jr_cpu_quota_percent :: int
  jr_memory_max_mb :: int
  jr_tasks_max :: int
  jr_io_weight :: int

record version_row =
  vr_id :: string
  vr_number :: int
  vr_script_body :: string
  vr_env :: "string option"
  vr_secret_refs :: "string option"

definition coalesce :: "'a \<Rightarrow> 'a option \<Rightarrow> 'a" where
  "coalesce d x = (case x of None \<Rightarrow> d | Some v \<Rightarrow> v)"

text \<open>The \<open>where\<close> clause. \<open>a <@ b\<close> on flat JSON objects: every pair of \<open>a\<close> is in \<open>b\<close>; on NULL
  it is not true.\<close>

definition labels_contained :: "(string \<times> string) list \<Rightarrow> (string \<times> string) list \<Rightarrow> bool" where
  "labels_contained a b = list_all (\<lambda>(k, v). map_of b k = Some v) a"

definition server_labels :: "server_row list \<Rightarrow> string \<Rightarrow> (string \<times> string) list" where
  "server_labels rows i =
     coalesce [] (case find (\<lambda>r. sv_id r = i) rows of None \<Rightarrow> None | Some r \<Rightarrow> sv_labels r)"

definition job_assigned :: "server_row list \<Rightarrow> string \<Rightarrow> job_row \<Rightarrow> bool" where
  "job_assigned rows i j \<longleftrightarrow>
     (jr_target_kind j = ''server'' \<and> jr_server_id j = Some i) \<or>
     (jr_target_kind j = ''labels'' \<and>
      (case jr_target_labels j of None \<Rightarrow> False | Some ls \<Rightarrow> labels_contained ls (server_labels rows i)))"

definition sync_rows :: "server_row list \<Rightarrow> job_row list \<Rightarrow> version_row list \<Rightarrow> string \<Rightarrow> (job_row \<times> version_row) list" where
  "sync_rows rows jobs versions i =
     concat (map (\<lambda>j. if job_assigned rows i j
                       then map (Pair j) (filter (\<lambda>v. vr_id v = jr_current_version j) versions) else []) jobs)"

text \<open>Scanning a row. The two JSON columns are decoded by \<open>json.Unmarshal\<close>, whose errors are
  dropped: \<open>envof\<close> and \<open>refsof\<close> give what the variable then holds.\<close>

definition scan_job :: "(string \<Rightarrow> string \<rightharpoonup> string) \<Rightarrow> job_row \<times> version_row \<Rightarrow> job_def" where
  "scan_job envof jv =
     (case jv of (j, v) \<Rightarrow>
       \<lparr>jd_id = jr_id j, jd_version_id = vr_id v, jd_version_number = vr_number v, jd_name = jr_name j,
        jd_interpreter = jr_interpreter j, jd_script_body = vr_script_body v,
        jd_schedule_cron = jr_schedule_cron j, jd_timezone = jr_timezone j, jd_enabled = jr_enabled j,
        jd_timeout_seconds = jr_timeout_seconds j, jd_concurrency_policy = jr_concurrency_policy j,
        jd_catchup_policy = jr_catchup_policy j, jd_max_retries = jr_max_retries j,
        jd_working_dir = coalesce [] (jr_working_dir j), jd_run_as_user = coalesce [] (jr_run_as_user j),
        jd_env = envof (coalesce ''{}'' (vr_env v)), jd_secrets = Map.empty,
        jd_cpu_quota_percent = jr_cpu_quota_percent j, jd_memory_max_mb = jr_memory_max_mb j,
        jd_tasks_max = jr_tasks_max j, jd_io_weight = jr_io_weight j\<rparr>)"

type_synonym resolver = "string \<Rightarrow> string \<Rightarrow> string list \<Rightarrow> (string, string \<rightharpoonup> string) res"

definition resolve_refs :: "resolver option \<Rightarrow> string \<Rightarrow> job_def \<times> string list \<Rightarrow> job_def" where
  "resolve_refs resolver i l =
     (case l of (d, refs) \<Rightarrow>
       (case resolver of
          Some res \<Rightarrow>
            if refs \<noteq> []
            then (case res (jd_id d) i refs of Inl e \<Rightarrow> d | Inr vals \<Rightarrow> d\<lparr>jd_secrets := vals\<rparr>)
            else d
        | None \<Rightarrow> d))"

text \<open>
  \<open>BuildFullSync\<close>. \<open>Next\<close> gives false at the end of the result and also when reading it fails;
  \<open>delivered\<close> is the number of rows for which it gave true, and \<open>Err\<close> is not asked.
\<close>

definition build_full_sync ::
  "(string \<Rightarrow> string \<rightharpoonup> string) \<Rightarrow> (string \<Rightarrow> string list) \<Rightarrow> resolver option \<Rightarrow> (nat \<Rightarrow> bool) \<Rightarrow> nat \<Rightarrow> string \<Rightarrow>
   server_row list \<Rightarrow> job_row list \<Rightarrow> version_row list \<Rightarrow> string \<Rightarrow> (string, sync_jobs) res" where
  "build_full_sync envof refsof resolver db delivered now rows jobs versions i =
     (if \<not> db 0 then Inl ''query failed''
      else
        let seen = take delivered (sync_rows rows jobs versions i)
        in if \<not> list_all db [1 ..< Suc (length seen)] then Inl ''scan failed''
           else
             let loaded = map (\<lambda>jv. (scan_job envof jv, refsof (coalesce ''[]'' (vr_secret_refs (snd jv))))) seen
             in Inr \<lparr>sj_cursor = now, sj_upsert = map (resolve_refs resolver i) loaded,
                     sj_delete = [], sj_full_snapshot = True\<rparr>)"

definition push_full_sync ::
  "bool \<Rightarrow> registry \<Rightarrow> (string, sync_jobs) res \<Rightarrow> string \<Rightarrow> registry \<times> (string, send_outcome) res" where
  "push_full_sync pick g sync server =
     (case sync of
        Inl e \<Rightarrow> (g, Inl e)
      | Inr j \<Rightarrow> (case reg_send pick g server (SSyncJobs j) of (g1, out) \<Rightarrow> (g1, Inr out)))"

definition push_run_now ::
  "bool \<Rightarrow> registry \<Rightarrow> string \<Rightarrow> string \<Rightarrow> string \<Rightarrow> string \<Rightarrow> registry \<times> send_outcome" where
  "push_run_now pick g server job version run = reg_send pick g server (SRunNow job version run)"


section \<open>The handlers of the stream\<close>

text \<open>\<open>onHello\<close>. \<open>last_seen_at\<close> is not kept. The result's flag is false where the handler
  returns an error.\<close>

definition on_hello :: "(nat \<Rightarrow> bool) \<Rightarrow> bool \<Rightarrow> gateway \<Rightarrow> string \<Rightarrow> hello \<Rightarrow> gateway \<times> bool" where
  "on_hello db pick s i h =
     (let s1 = s\<lparr>gw_offline := cancel_pending_offline (gw_offline s) i\<rparr>
      in if \<not> db 0 then (s1, False)
         else (case find (\<lambda>r. sv_id r = i) (gw_servers s1) of
             None \<Rightarrow> (s1, True)
           | Some row \<Rightarrow>
               let s2 = s1\<lparr>gw_servers := update_row i (\<lambda>r. r\<lparr>sv_agent_version := he_agent_version h,
                                sv_os := he_os h, sv_arch := he_arch h, sv_euid_root := he_euid_root h,
                                sv_service_user := (if he_service_user h \<noteq> [] then he_service_user h
                                                    else sv_service_user r)\<rparr>) (gw_servers s1),
                          gw_offline := set_online (gw_offline s1) i\<rparr>;
                   enabled = sv_root_enabled row;
                   operator_set = (sv_root_changed_by row \<noteq> None);
                   r1 = (gw_root s2)\<lparr>ro_progress := reconcile_root_error (ro_progress (gw_root s2)) i enabled (he_euid_root h)\<rparr>
               in (s2\<lparr>gw_root := fst (repush_root_command pick r1 i enabled (he_euid_root h) operator_set)\<rparr>, True)))"

definition handle_heartbeat :: "(nat \<Rightarrow> bool) \<Rightarrow> gateway \<Rightarrow> string \<Rightarrow> gateway \<times> bool" where
  "handle_heartbeat db s i =
     (case on_heartbeat (db 0) (gw_offline s) i of (f, ok) \<Rightarrow> (s\<lparr>gw_offline := f\<rparr>, ok))"

definition on_run_started :: "(nat \<Rightarrow> bool) \<Rightarrow> gateway \<Rightarrow> string \<Rightarrow> run_started \<Rightarrow> gateway \<times> bool" where
  "on_run_started db s i r =
     (if \<not> db 0 then (s, False)
      else
        let row = (case gw_runs s (rs_run_id r) of
                     None \<Rightarrow> \<lparr>rr_job = rs_job_id r, rr_job_version = rs_job_version_id r, rr_server = i,
                              rr_trigger = rs_trigger r, rr_status = ''running'', rr_started = rs_started_at r,
                              rr_exit_code = None, rr_finished = None, rr_duration_ms = None, rr_error = None\<rparr>
                   | Some old \<Rightarrow> old\<lparr>rr_status := ''running'', rr_started := rs_started_at r\<rparr>)
        in (s\<lparr>gw_runs := (gw_runs s)(rs_run_id r \<mapsto> row)\<rparr>, True))"

definition truncation_notice :: string where
  "truncation_notice = ''croncompose: output limit reached; the rest of this run''
     @ [CHR 0x27] @ ''s log was not stored''"

text \<open>\<open>onLogChunk\<close>: every chunk is published, the cap governs what is stored.\<close>

definition on_log_chunk :: "(nat \<Rightarrow> bool) \<Rightarrow> gateway \<Rightarrow> log_chunk \<Rightarrow> (gateway \<times> bool) option" where
  "on_log_chunk db s c =
     (case publish (gw_broker s) (lc_run_id c) c of
        None \<Rightarrow> None
      | Some b \<Rightarrow>
          (case log_cap_admit (gw_log_cap s) (lc_run_id c) (int (length (lc_data c))) of
             (lcap, store, notice) \<Rightarrow>
               let s1 = s\<lparr>gw_broker := b, gw_log_cap := lcap\<rparr>
               in Some (if notice
                        then if \<not> db 0 then (s1, False)
                             else (s1\<lparr>gw_run_logs := insert_new (gw_run_logs s1) (lc_run_id c, ''stderr'', max_int32)
                                      truncation_notice\<rparr>, True)
                        else if \<not> store then (s1, True)
                        else if \<not> db 0 then (s1, False)
                        else (s1\<lparr>gw_run_logs := insert_new (gw_run_logs s1) (lc_run_id c, lc_stream c, lc_seq c)
                                 (lc_data c)\<rparr>, True))))"

definition nullif_empty :: "string \<Rightarrow> string option" where
  "nullif_empty x = (if x = [] then None else Some x)"

text \<open>\<open>onRunFinished\<close>; the counters of the metrics package are not kept.\<close>

definition on_run_finished :: "(nat \<Rightarrow> bool) \<Rightarrow> gateway \<Rightarrow> string \<Rightarrow> run_finished \<Rightarrow> (gateway \<times> bool) option" where
  "on_run_finished db s i r =
     (let s1 = (if db 0
                then (case gw_runs s (rf_run_id r) of
                        None \<Rightarrow> s
                      | Some old \<Rightarrow>
                          s\<lparr>gw_runs := (gw_runs s)(rf_run_id r \<mapsto>
                             old\<lparr>rr_status := rf_status r, rr_exit_code := Some (rf_exit_code r),
                                 rr_finished := Some (rf_finished_at r), rr_duration_ms := Some (rf_duration_ms r),
                                 rr_error := nullif_empty (rf_error r)\<rparr>)\<rparr>)
                else s);
          s2 = s1\<lparr>gw_log_cap := log_cap_done (gw_log_cap s1) (rf_run_id r)\<rparr>
      in if \<not> db 0 then Some (s2, False)
         else (case publish_finished (gw_broker s2) (rf_run_id r) r of
             None \<Rightarrow> None
           | Some b \<Rightarrow>
               let s3 = s2\<lparr>gw_broker := b\<rparr>;
                   job = (if db 1 then (case gw_runs s3 (rf_run_id r) of None \<Rightarrow> [] | Some row \<Rightarrow> rr_job row) else [])
               in Some (if gw_on_failed s3 \<and> rf_status r \<noteq> ''succeeded''
                        then (s3\<lparr>gw_hooks := gw_hooks s3 @
                               [HRunFailed i job (rf_run_id r) (rf_status r) (rf_exit_code r) (rf_duration_ms r) (rf_error r)]\<rparr>, True)
                        else (s3, True))))"

subsection \<open>Deploy events\<close>

definition update_deploy :: "gateway \<Rightarrow> string \<Rightarrow> (deploy_row \<Rightarrow> deploy_row) \<Rightarrow> gateway" where
  "update_deploy s run f =
     (case gw_deploy_runs s run of
        None \<Rightarrow> s
      | Some row \<Rightarrow> s\<lparr>gw_deploy_runs := (gw_deploy_runs s)(run \<mapsto> f row)\<rparr>)"

text \<open>The three columns the hooks are told; empty where the row cannot be read.\<close>

definition deploy_columns :: "bool \<Rightarrow> gateway \<Rightarrow> string \<Rightarrow> string \<times> string \<times> string" where
  "deploy_columns ok s run =
     (case gw_deploy_runs s run of
        Some row \<Rightarrow> if ok then (dp_project row, dp_branch row, dp_trigger row) else ([], [], [])
      | None \<Rightarrow> ([], [], []))"

definition newline :: string where "newline = [CHR 0x0A]"

definition deploy_chunk :: "deploy_event \<Rightarrow> log_chunk" where
  "deploy_chunk ev =
     \<lparr>lc_run_id = de_run_id ev, lc_stream = ''stdout'', lc_seq = de_seq ev,
      lc_data = (if de_data ev = [] \<and> de_message ev \<noteq> []
                 then if de_kind ev = ''started'' \<and> \<not> has_suffix (de_message ev) newline
                      then de_message ev @ newline else de_message ev
                 else de_data ev)\<rparr>"

definition deploy_status :: "deploy_event \<Rightarrow> string" where
  "deploy_status ev =
     (if de_status ev = []
      then if de_kind ev = ''error'' \<or> de_exit_code ev \<noteq> 0 then ''failed'' else ''succeeded''
      else de_status ev)"

definition deploy_error :: "deploy_event \<Rightarrow> string" where
  "deploy_error ev = (if deploy_status ev \<noteq> ''succeeded'' then de_message ev else [])"

definition metrics_payload :: "deploy_metrics option \<Rightarrow> deploy_payload" where
  "metrics_payload m =
     (case m of
        None \<Rightarrow> empty_payload
      | Some met \<Rightarrow>
          \<lparr>pl_phase_ms = (if dm_phase_ms met \<noteq> [] then Some (dm_phase_ms met) else None),
           pl_release_bytes = (if dm_release_bytes met > 0 then Some (dm_release_bytes met) else None),
           pl_free_disk_bytes = (if dm_free_disk_bytes met > 0 then Some (dm_free_disk_bytes met) else None)\<rparr>)"

text \<open>\<open>afterDeployRun\<close>: the hook calls, in order.\<close>

definition after_deploy_run ::
  "gateway \<Rightarrow> string \<Rightarrow> string \<Rightarrow> string \<Rightarrow> string \<Rightarrow> string \<Rightarrow> string \<Rightarrow> string \<Rightarrow> int \<Rightarrow> string \<Rightarrow> hook_call list" where
  "after_deploy_run s server project run status branch trigger phase code err =
     (if gw_on_deploy_fin s then [HDeployFinished server run status phase code err] else []) @
     (if \<not> gw_on_failed s then []
      else let is_rollback = (trigger = ''rollback'')
           in if status \<noteq> ''succeeded'' \<or> is_rollback
              then [HDeployFailed server project run status branch trigger phase code err is_rollback]
              else [HDeploySucceeded server project run status branch trigger phase code err False])"

text \<open>The first two parts of \<open>onDeployEvent\<close>: the commit, and the log.\<close>

definition deploy_commit :: "bool \<Rightarrow> gateway \<Rightarrow> deploy_event \<Rightarrow> gateway" where
  "deploy_commit ok s ev =
     (if de_commit_sha ev \<noteq> [] \<and> ok
      then update_deploy s (de_run_id ev) (\<lambda>row. if dp_commit row = [] then row\<lparr>dp_commit := de_commit_sha ev\<rparr> else row)
      else s)"

definition deploy_log :: "bool \<Rightarrow> gateway \<Rightarrow> deploy_event \<Rightarrow> gateway option" where
  "deploy_log ok s ev =
     (if de_kind ev = ''log'' \<or> de_data ev \<noteq> [] \<or> (de_kind ev = ''started'' \<and> de_message ev \<noteq> [])
      then (case publish (gw_broker s) (de_run_id ev) (deploy_chunk ev) of
              None \<Rightarrow> None
            | Some b \<Rightarrow>
                let s1 = s\<lparr>gw_broker := b\<rparr>
                in Some (if ok then s1\<lparr>gw_deploy_logs := insert_new (gw_deploy_logs s1)
                                   (de_run_id ev, ''stdout'', de_seq ev) (lc_data (deploy_chunk ev))\<rparr>
                         else s1))
      else Some s)"

definition deploy_started :: "(nat \<Rightarrow> bool) \<Rightarrow> int \<Rightarrow> gateway \<Rightarrow> string \<Rightarrow> deploy_event \<Rightarrow> gateway \<times> bool" where
  "deploy_started db now s i ev =
     (let run = de_run_id ev
      in if \<not> db 2 then (s, False)
         else
           let s1 = update_deploy s run (\<lambda>row. row\<lparr>dp_status := ''running'',
                      dp_started := (case dp_started row of None \<Rightarrow> Some now | t \<Rightarrow> t)\<rparr>)
           in if \<not> gw_on_failed s1 then (s1, True)
              else (case deploy_columns (db 3) s1 run of
                  (project, branch, trigger) \<Rightarrow>
                    (s1\<lparr>gw_hooks := gw_hooks s1 @ [HDeployStarted i project run branch trigger]\<rparr>, True)))"

definition deploy_done :: "(nat \<Rightarrow> bool) \<Rightarrow> int \<Rightarrow> gateway \<Rightarrow> string \<Rightarrow> deploy_event \<Rightarrow> (gateway \<times> bool) option" where
  "deploy_done db now s i ev =
     (let run = de_run_id ev; status = deploy_status ev; err = deploy_error ev;
          met = metrics_payload (de_metrics ev);
          s1 = (if db 2
                then update_deploy s run (\<lambda>row. row\<lparr>dp_status := status, dp_exit_code := Some (de_exit_code ev),
                       dp_error := nullif_empty err,
                       dp_metrics := (if met = empty_payload then dp_metrics row else met),
                       dp_started := (case dp_started row of None \<Rightarrow> Some now | t \<Rightarrow> t),
                       dp_finished := Some now\<rparr>)
                else s)
      in (case publish_finished (gw_broker s1) run
              \<lparr>rf_run_id = run, rf_status = status, rf_exit_code = de_exit_code ev, rf_finished_at = 0,
               rf_duration_ms = 0, rf_error = err\<rparr> of
            None \<Rightarrow> None
          | Some b \<Rightarrow>
              let s2 = s1\<lparr>gw_broker := b\<rparr>
              in Some (if \<not> db 2 then (s2, False)
                       else (case deploy_columns (db 3) s2 run of
                           (project, branch, trigger) \<Rightarrow>
                             (s2\<lparr>gw_hooks := gw_hooks s2 @
                                after_deploy_run s2 i project run status branch trigger (de_phase ev)
                                  (de_exit_code ev) err\<rparr>, True)))))"

definition on_deploy_event :: "(nat \<Rightarrow> bool) \<Rightarrow> int \<Rightarrow> gateway \<Rightarrow> string \<Rightarrow> deploy_event \<Rightarrow> (gateway \<times> bool) option" where
  "on_deploy_event db now s i ev =
     (case deploy_log (db 1) (deploy_commit (db 0) s ev) ev of
        None \<Rightarrow> None
      | Some s1 \<Rightarrow>
          if de_kind ev = ''started'' then Some (deploy_started db now s1 i ev)
          else if de_kind ev = ''finished'' \<or> de_kind ev = ''error'' then deploy_done db now s1 i ev
          else Some (s1, True))"

subsection \<open>Connector discovery\<close>

text \<open>\<open>upsertConnector\<close> runs in one transaction, so a statement that fails leaves the tables as
  they were: \<open>ok\<close> says that all of it, the commit included, is executed. A new connector gets the id
  \<open>fresh\<close>, a known one keeps its own.\<close>

definition upsert_connector :: "bool \<Rightarrow> string \<Rightarrow> gateway \<Rightarrow> string \<Rightarrow> discovered_connector \<Rightarrow> gateway \<times> bool" where
  "upsert_connector ok fresh s i dc =
     (if \<not> ok then (s, False)
      else
        let key = (i, di_kind dc, di_instance dc);
            cid = (case gw_connectors s key of None \<Rightarrow> fresh | Some row \<Rightarrow> cn_id row);
            kept = map_filter_dom (\<lambda>k. fst k \<noteq> cid) (gw_resources s)
        in (s\<lparr>gw_connectors := (gw_connectors s)(key \<mapsto> \<lparr>cn_id = cid, cn_connector = dc\<rparr>),
              gw_resources := foldl (\<lambda>m r. m((cid, co_type r, co_ref r) \<mapsto> r)) kept (di_resources dc)\<rparr>, True))"

fun on_connector_event :: "(nat \<Rightarrow> bool) \<Rightarrow> (nat \<Rightarrow> string) \<Rightarrow> nat \<Rightarrow> gateway \<Rightarrow> string \<Rightarrow> discovered_connector list \<Rightarrow> gateway \<times> bool" where
  "on_connector_event db fresh n s i [] = (s, True)"
| "on_connector_event db fresh n s i (dc # dcs) =
     on_connector_event db fresh (Suc n) (fst (upsert_connector (db n) (fresh n) s i dc)) i dcs"

subsection \<open>The dispatch\<close>

record env =
  ev_db :: "nat \<Rightarrow> bool"
  ev_pick :: bool
  ev_now :: int
  ev_fresh :: "nat \<Rightarrow> string"

definition to_progress :: "update_progress \<Rightarrow> agent_update_progress" where
  "to_progress u = \<lparr>pg_target = up_target_version u, pg_phase = up_phase u, pg_detail = up_detail u,
     pg_percent = up_percent u, pg_at = 0\<rparr>"

definition handle_agent_message :: "env \<Rightarrow> gateway \<Rightarrow> string \<Rightarrow> agent_message \<Rightarrow> (gateway \<times> bool) option" where
  "handle_agent_message e s i msg =
     (case msg of
        AHello h \<Rightarrow> Some (on_hello (ev_db e) (ev_pick e) s i h)
      | AHeartbeat \<Rightarrow> Some (handle_heartbeat (ev_db e) s i)
      | AConfigAck cursor \<Rightarrow> Some (s, True)
      | ARunStarted r \<Rightarrow> Some (on_run_started (ev_db e) s i r)
      | ALogChunk c \<Rightarrow> on_log_chunk (ev_db e) s c
      | ARunFinished r \<Rightarrow> on_run_finished (ev_db e) s i r
      | AConnectorEvent dcs \<Rightarrow> Some (on_connector_event (ev_db e) (ev_fresh e) 0 s i dcs)
      | AConnectorResult r \<Rightarrow> Some (s\<lparr>gw_pending := pending_resolve (ev_pick e) (gw_pending s) (Some r)\<rparr>, True)
      | ATerminalOutput t \<Rightarrow> Some (s\<lparr>gw_terminals := terminal_deliver (ev_pick e) (gw_terminals s) t\<rparr>, True)
      | ADeployEvent ev \<Rightarrow> on_deploy_event (ev_db e) (ev_now e) s i ev
      | AListUsersResult r \<Rightarrow> Some (s\<lparr>gw_users := users_resolve (ev_pick e) (gw_users s) (Some r)\<rparr>, True)
      | AHostToolsEvent ev \<Rightarrow> Some (s\<lparr>gw_tools := tools_push_log (ev_pick e) (gw_tools s) (Some ev)\<rparr>, True)
      | AHostToolsResult r \<Rightarrow> Some (s\<lparr>gw_tools := tools_resolve (ev_pick e) (gw_tools s) (Some r)\<rparr>, True)
      | ANetworkEvent ev \<Rightarrow> Some (s\<lparr>gw_network := network_push_event (ev_pick e) (gw_network s) (Some ev)\<rparr>, True)
      | ANetworkResult r \<Rightarrow> Some (s\<lparr>gw_network := network_resolve (ev_pick e) (gw_network s) (Some r)\<rparr>, True)
      | AUpdateProgress u \<Rightarrow>
          Some (s\<lparr>gw_root := (gw_root s)\<lparr>ro_progress := progress_record (ev_now e) (ro_progress (gw_root s)) i (to_progress u)\<rparr>\<rparr>, True))"

text \<open>\<open>AgentStream\<close> before its receive loop, and its deferred function after it. The snapshot is
  sent on the connection itself, not through the registry.\<close>

definition agent_stream_open ::
  "bool \<Rightarrow> (string, sync_jobs) res \<Rightarrow> gateway \<Rightarrow> string \<Rightarrow> (gateway \<times> nat) option" where
  "agent_stream_open pick sync s i =
     (case reg_add (ro_registry (gw_root s)) i of
        None \<Rightarrow> None
      | Some (g, a) \<Rightarrow>
          let f = cancel_pending_offline (gw_offline s) i;
              g1 = (case sync of
                      Inl e \<Rightarrow> g
                    | Inr j \<Rightarrow> g\<lparr>rg_heap := (rg_heap g)[a := fst (conn_send pick (rg_heap g ! a) (SSyncJobs j))]\<rparr>)
          in Some (s\<lparr>gw_root := (gw_root s)\<lparr>ro_registry := g1\<rparr>, gw_offline := f\<rparr>, a))"

definition agent_stream_close :: "gateway \<Rightarrow> nat \<Rightarrow> gateway option" where
  "agent_stream_close s a =
     map_option (\<lambda>(g, f). s\<lparr>gw_root := (gw_root s)\<lparr>ro_registry := g\<rparr>, gw_offline := f\<rparr>)
       (life_disconnect (ro_registry (gw_root s), gw_offline s) a)"

datatype gateway_op =
    StreamOpen bool "(string, sync_jobs) res" string
  | StreamMsg env string agent_message
  | StreamClose nat
  | OfflineTimer bool nat

fun gateway_step :: "gateway \<Rightarrow> gateway_op \<Rightarrow> gateway option" where
  "gateway_step s (StreamOpen pick sync i) = map_option fst (agent_stream_open pick sync s i)"
| "gateway_step s (StreamMsg e i msg) = map_option fst (handle_agent_message e s i msg)"
| "gateway_step s (StreamClose a) =
     (if a < length (rg_heap (ro_registry (gw_root s))) then agent_stream_close s a else Some s)"
| "gateway_step s (OfflineTimer ok a) =
     Some (if a < length (of_heap (gw_offline s))
           then s\<lparr>gw_offline := timer_fire ok (ro_registry (gw_root s)) (gw_offline s) a\<rparr> else s)"

section \<open>The invariant of the gateway\<close>

definition gateway_ok :: "gateway \<Rightarrow> bool" where
  "gateway_ok s \<longleftrightarrow>
     reg_ok (ro_registry (gw_root s)) \<and> offline_ok (gw_offline s) \<and> broker_ok (gw_broker s) \<and>
     box_ok to_session_id 512 (gw_terminals s) \<and> box_ok cr_request_id 1 (gw_pending s) \<and>
     box_ok ur_request_id 1 (gw_users s) \<and> box_ok tr_request_id 1 (gw_tools s) \<and>
     box_ok nr_request_id 1 (gw_network s)"

lemma repush_reg_ok:
  "reg_ok (ro_registry r) \<Longrightarrow> reg_ok (ro_registry (fst (repush_root_command pick r i e u o')))"
  using reg_send_ok[of "ro_registry r" pick i "agent_root_message e"]
  by (auto simp: repush_root_command_def Let_def split: prod.splits send_outcome.splits)

lemma set_online_ok: "offline_ok f \<Longrightarrow> offline_ok (set_online f i)"
  by (simp add: set_online_def)

lemma update_deploy_frame [frame]:
  "gw_root (update_deploy s run f) = gw_root s" "gw_offline (update_deploy s run f) = gw_offline s"
  "gw_broker (update_deploy s run f) = gw_broker s" "gw_terminals (update_deploy s run f) = gw_terminals s"
  "gw_pending (update_deploy s run f) = gw_pending s" "gw_users (update_deploy s run f) = gw_users s"
  "gw_tools (update_deploy s run f) = gw_tools s" "gw_network (update_deploy s run f) = gw_network s"
  "gw_run_logs (update_deploy s run f) = gw_run_logs s" "gw_runs (update_deploy s run f) = gw_runs s"
  "gw_deploy_logs (update_deploy s run f) = gw_deploy_logs s" "gw_hooks (update_deploy s run f) = gw_hooks s"
  "gw_on_failed (update_deploy s run f) = gw_on_failed s" "gw_on_deploy_fin (update_deploy s run f) = gw_on_deploy_fin s"
  by (simp_all add: update_deploy_def split: option.splits)


lemma publish_ok:
  assumes "broker_ok b"
  shows "\<exists>q. publish b i c = Some q \<and> broker_ok q" "\<exists>q. publish_finished b i r = Some q \<and> broker_ok q"
  using fanout_ok[OF assms] by (auto simp: publish_def publish_finished_def)

lemma deploy_commit_frame [frame]:
  "gateway_ok (deploy_commit ok s ev) = gateway_ok s" "gw_broker (deploy_commit ok s ev) = gw_broker s"
  "gw_run_logs (deploy_commit ok s ev) = gw_run_logs s"
  by (simp_all add: deploy_commit_def gateway_ok_def frame)

lemma deploy_log_ok: "gateway_ok s \<Longrightarrow> \<exists>t. deploy_log ok s ev = Some t \<and> gateway_ok t"
  using publish_ok(1)[of "gw_broker s" "de_run_id ev" "deploy_chunk ev"]
  by (auto simp: deploy_log_def gateway_ok_def Let_def)

lemma deploy_started_ok: "gateway_ok s \<Longrightarrow> gateway_ok (fst (deploy_started db now s i ev))"
  by (auto simp: deploy_started_def gateway_ok_def Let_def frame split: prod.splits)

lemma deploy_done_ok: "gateway_ok s \<Longrightarrow> \<exists>t. map_option fst (deploy_done db now s i ev) = Some t \<and> gateway_ok t"
proof -
  assume ok: "gateway_ok s"
  obtain q where "publish_finished (gw_broker s) (de_run_id ev)
      \<lparr>rf_run_id = de_run_id ev, rf_status = deploy_status ev, rf_exit_code = de_exit_code ev, rf_finished_at = 0,
       rf_duration_ms = 0, rf_error = deploy_error ev\<rparr> = Some q" "broker_ok q"
    using publish_ok(2) ok by (meson gateway_ok_def)
  then show ?thesis
    using ok by (auto simp: deploy_done_def gateway_ok_def Let_def frame split: prod.splits)
qed

lemma on_deploy_event_ok:
  assumes "gateway_ok s"
  shows "\<exists>t. map_option fst (on_deploy_event db now s i ev) = Some t \<and> gateway_ok t"
proof -
  obtain t where "deploy_log (db 1) (deploy_commit (db 0) s ev) ev = Some t" "gateway_ok t"
    using deploy_log_ok[of "deploy_commit (db 0) s ev" "db 1" ev] assms by (auto simp: frame)
  with deploy_started_ok[of t db now i ev] deploy_done_ok[of t db now i ev] show ?thesis
    by (cases "deploy_started db now t i ev") (auto simp: on_deploy_event_def)
qed

lemma on_log_chunk_ok:
  assumes "gateway_ok s"
  shows "\<exists>t. map_option fst (on_log_chunk db s c) = Some t \<and> gateway_ok t"
proof -
  obtain q where "publish (gw_broker s) (lc_run_id c) c = Some q" "broker_ok q"
    using publish_ok(1) assms by (meson gateway_ok_def)
  with assms show ?thesis
    by (auto simp: on_log_chunk_def gateway_ok_def Let_def split: prod.splits)
qed

lemma on_run_finished_ok:
  assumes "gateway_ok s"
  shows "\<exists>t. map_option fst (on_run_finished db s i r) = Some t \<and> gateway_ok t"
proof -
  obtain q where "publish_finished (gw_broker s) (rf_run_id r) r = Some q" "broker_ok q"
    using publish_ok(2) assms by (meson gateway_ok_def)
  with assms show ?thesis
    by (cases "gw_runs s (rf_run_id r)"; cases "db 0") (auto simp: on_run_finished_def gateway_ok_def Let_def)
qed

lemma on_connector_event_ok: "gateway_ok (fst (on_connector_event db fresh n s i dcs)) = gateway_ok s"
proof (induction dcs arbitrary: n s)
  case (Cons dc dcs)
  have "gateway_ok (fst (upsert_connector (db n) (fresh n) s i dc)) = gateway_ok s"
    by (simp add: upsert_connector_def gateway_ok_def Let_def)
  with Cons.IH show ?case by simp
qed simp

lemma on_hello_ok: "gateway_ok s \<Longrightarrow> gateway_ok (fst (on_hello db pick s i h))"
  using cancel_ok[of "gw_offline s" i] set_online_ok[of "cancel_pending_offline (gw_offline s) i" i]
  by (auto simp: on_hello_def gateway_ok_def Let_def repush_reg_ok split: option.splits)

lemma handle_ok:
  assumes ok: "gateway_ok s"
  shows "\<exists>t. map_option fst (handle_agent_message e s i msg) = Some t \<and> gateway_ok t"
proof (cases msg)
  case (AHello h)
  with on_hello_ok[OF ok] show ?thesis by (simp add: handle_agent_message_def)
next
  case AHeartbeat
  with ok heartbeat_ok[of "gw_offline s" "ev_db e 0" i] show ?thesis
    by (auto simp: handle_agent_message_def handle_heartbeat_def gateway_ok_def split: prod.splits)
next
  case (ARunStarted r)
  with ok show ?thesis by (simp add: handle_agent_message_def on_run_started_def gateway_ok_def Let_def)
next
  case (ALogChunk c)
  with on_log_chunk_ok[OF ok] show ?thesis by (simp add: handle_agent_message_def)
next
  case (ARunFinished r)
  with on_run_finished_ok[OF ok] show ?thesis by (simp add: handle_agent_message_def)
next
  case (AConnectorEvent dcs)
  with ok show ?thesis by (simp add: handle_agent_message_def on_connector_event_ok)
next
  case (ADeployEvent ev)
  with on_deploy_event_ok[OF ok] show ?thesis by (simp add: handle_agent_message_def)
next
  case (AHostToolsEvent ev)
  with ok tools_events.push_ok[of "gw_tools s" "ev_pick e" ev] show ?thesis
    by (simp add: handle_agent_message_def gateway_ok_def)
next
  case (ANetworkEvent ev)
  with ok network_events.push_ok[of "gw_network s" "ev_pick e" ev] show ?thesis
    by (simp add: handle_agent_message_def gateway_ok_def)
qed (use ok pending.res_ok users.res_ok tools.res_ok network.res_ok terminal.res_ok
     in \<open>auto simp: handle_agent_message_def gateway_ok_def\<close>)

lemma stream_open_ok:
  assumes ok: "gateway_ok s"
  shows "\<exists>t. map_option fst (agent_stream_open pick sync s i) = Some t \<and> gateway_ok t"
proof -
  have reg: "reg_ok (ro_registry (gw_root s))" using ok by (simp add: gateway_ok_def)
  obtain g where g: "reg_add (ro_registry (gw_root s)) i = Some (g, length (rg_heap (ro_registry (gw_root s))))"
    "reg_ok g" "length (rg_heap g) = Suc (length (rg_heap (ro_registry (gw_root s))))"
    using reg_add_ok[OF reg, of i] by auto
  have "reg_ok (g\<lparr>rg_heap := (rg_heap g)[a := fst (conn_send pick (rg_heap g ! a) m)]\<rparr>)"
    if a: "a < length (rg_heap g)" for a m
    using reg_ok_out[OF g(2) a] by (intro reg_ok_cell[OF g(2)]) (auto simp: conn_send_def Let_def)
  with g ok cancel_ok[of "gw_offline s" i] show ?thesis
    by (auto simp: agent_stream_open_def gateway_ok_def Let_def split: sum.splits)
qed

lemma stream_close_ok:
  assumes ok: "gateway_ok s" and a: "a < length (rg_heap (ro_registry (gw_root s)))"
  shows "\<exists>t. agent_stream_close s a = Some t \<and> gateway_ok t"
proof -
  have "life_ok (ro_registry (gw_root s), gw_offline s)" using ok by (simp add: gateway_ok_def life_ok_def)
  from life.step_safe[OF this, of "GDisconnect a"] a ok show ?thesis
    by (auto simp: agent_stream_close_def gateway_ok_def life_ok_def)
qed

interpretation gateway: safe_machine gateway_step gateway_ok
proof
  show "\<exists>t. gateway_step s x = Some t \<and> gateway_ok t" if ok: "gateway_ok s" for s x
  proof (cases x)
    case (OfflineTimer db a)
    with ok fire_ok show ?thesis by (auto simp: gateway_ok_def)
  qed (use ok handle_ok[OF ok] stream_open_ok[OF ok] stream_close_ok[OF ok] in auto)
qed


text \<open>A restart of the control plane: \<open>New\<close> makes every in-memory part afresh, the tables stay, and
  \<open>Start\<close> resets the rows that claim to be online.\<close>

definition gateway_start :: "bool \<Rightarrow> int \<Rightarrow> gateway \<Rightarrow> gateway" where
  "gateway_start ok max_bytes s =
     s\<lparr>gw_root := \<lparr>ro_registry = new_registry, ro_sent = Some Map.empty, ro_progress = new_tracker\<rparr>,
       gw_offline := \<lparr>of_timers = Map.empty, of_heap = [],
         of_status = (if ok then map_option (\<lambda>st. if st = ''online'' then ''offline'' else st) \<circ> of_status (gw_offline s)
                      else of_status (gw_offline s))\<rparr>,
       gw_broker := new_log_broker, gw_terminals := new_boxes, gw_pending := new_boxes, gw_users := new_boxes,
       gw_tools := new_boxes, gw_network := new_boxes, gw_log_cap := new_log_cap max_bytes, gw_hooks := []\<rparr>"

lemma gateway_start_ok [inv_intro]: "gateway_ok (gateway_start ok mx s)"
  by (simp add: gateway_start_def gateway_ok_def reg_ok_new broker_ok_new box_ok_new offline_ok_def)

section \<open>What no message takes back\<close>

definition row_kept :: "deploy_row \<Rightarrow> deploy_row \<Rightarrow> bool" where
  "row_kept r q \<longleftrightarrow> dp_project q = dp_project r \<and> dp_branch q = dp_branch r \<and> dp_trigger q = dp_trigger r \<and>
     (dp_commit r \<noteq> [] \<longrightarrow> dp_commit q = dp_commit r)"

definition rows_kept :: "(string \<rightharpoonup> deploy_row) \<Rightarrow> (string \<rightharpoonup> deploy_row) \<Rightarrow> bool" where
  "rows_kept m n \<longleftrightarrow> (\<forall>k r. m k = Some r \<longrightarrow> (\<exists>q. n k = Some q \<and> row_kept r q))"

definition keeps :: "gateway \<Rightarrow> gateway \<Rightarrow> bool" where
  "keeps s t \<longleftrightarrow> gw_run_logs s \<subseteq>\<^sub>m gw_run_logs t \<and> gw_deploy_logs s \<subseteq>\<^sub>m gw_deploy_logs t \<and>
     rows_kept (gw_deploy_runs s) (gw_deploy_runs t)"

lemma rows_kept_refl [simp]: "rows_kept m m"
  by (simp add: rows_kept_def row_kept_def)

lemma rows_kept_trans: "rows_kept l m \<Longrightarrow> rows_kept m n \<Longrightarrow> rows_kept l n"
  unfolding rows_kept_def row_kept_def by (metis (full_types))

lemma keeps_refl [simp]: "keeps s s"
  by (simp add: keeps_def)

lemma keeps_trans: "keeps s t \<Longrightarrow> keeps t u \<Longrightarrow> keeps s u"
  unfolding keeps_def using rows_kept_trans map_le_trans by blast

lemma keepsI:
  "gw_run_logs t = gw_run_logs s \<Longrightarrow> gw_deploy_logs t = gw_deploy_logs s \<Longrightarrow>
   gw_deploy_runs t = gw_deploy_runs s \<Longrightarrow> keeps s t"
  by (simp add: keeps_def)

lemma insert_new_le: "m \<subseteq>\<^sub>m insert_new m k v"
  by (auto simp: insert_new_def map_le_def)

lemma update_deploy_keeps:
  assumes "\<And>r. row_kept r (f r)"
  shows "rows_kept (gw_deploy_runs s) (gw_deploy_runs (update_deploy s run f))"
  using assms by (auto simp: update_deploy_def rows_kept_def row_kept_def split: option.splits)

lemma deploy_commit_keeps: "keeps s (deploy_commit ok s ev)"
proof -
  have "rows_kept (gw_deploy_runs s) (gw_deploy_runs (update_deploy s (de_run_id ev)
      (\<lambda>row. if dp_commit row = [] then row\<lparr>dp_commit := de_commit_sha ev\<rparr> else row)))"
    by (rule update_deploy_keeps) (simp add: row_kept_def)
  then show ?thesis by (simp add: deploy_commit_def keeps_def frame)
qed

lemma deploy_log_keeps: "deploy_log ok s ev = Some t \<Longrightarrow> keeps s t"
  using insert_new_le[of "gw_deploy_logs s"]
  by (auto simp: deploy_log_def keeps_def Let_def split: if_splits option.splits)

lemma deploy_started_keeps: "keeps s (fst (deploy_started db now s i ev))"
proof -
  let ?f = "\<lambda>row. row\<lparr>dp_status := ''running'', dp_started := (case dp_started row of None \<Rightarrow> Some now | t \<Rightarrow> t)\<rparr>"
  have "rows_kept (gw_deploy_runs s) (gw_deploy_runs (update_deploy s (de_run_id ev) ?f))"
    by (rule update_deploy_keeps) (simp add: row_kept_def)
  then show ?thesis by (auto simp: deploy_started_def Let_def keeps_def frame split: prod.splits)
qed

lemma deploy_done_keeps:
  assumes "map_option fst (deploy_done db now s i ev) = Some t"
  shows "keeps s t"
proof -
  let ?f = "\<lambda>row. row\<lparr>dp_status := deploy_status ev, dp_exit_code := Some (de_exit_code ev),
       dp_error := nullif_empty (deploy_error ev),
       dp_metrics := (if metrics_payload (de_metrics ev) = empty_payload then dp_metrics row
                      else metrics_payload (de_metrics ev)),
       dp_started := (case dp_started row of None \<Rightarrow> Some now | t \<Rightarrow> t), dp_finished := Some now\<rparr>"
  have "rows_kept (gw_deploy_runs s) (gw_deploy_runs (update_deploy s (de_run_id ev) ?f))"
    by (rule update_deploy_keeps) (simp add: row_kept_def)
  with assms show ?thesis
    by (auto simp: deploy_done_def Let_def keeps_def frame split: prod.splits option.splits if_splits)
qed

lemma on_deploy_event_keeps:
  assumes "map_option fst (on_deploy_event db now s i ev) = Some t"
  shows "keeps s t"
proof -
  obtain u where u: "deploy_log (db 1) (deploy_commit (db 0) s ev) ev = Some u"
    using assms by (auto simp: on_deploy_event_def split: option.splits)
  have su: "keeps s u" using deploy_commit_keeps deploy_log_keeps[OF u] keeps_trans by blast
  have "keeps u t"
    using assms u deploy_started_keeps[of u db now i ev] deploy_done_keeps[of db now u i ev t]
    by (auto simp: on_deploy_event_def split: if_splits)
  with su show ?thesis by (rule keeps_trans)
qed

lemma on_log_chunk_keeps: "map_option fst (on_log_chunk db s c) = Some t \<Longrightarrow> keeps s t"
  using insert_new_le[of "gw_run_logs s"]
  by (auto simp: on_log_chunk_def keeps_def Let_def split: if_splits option.splits prod.splits)

lemma on_run_finished_keeps: "map_option fst (on_run_finished db s i r) = Some t \<Longrightarrow> keeps s t"
  by (auto simp: on_run_finished_def Let_def intro!: keepsI split: if_splits option.splits)

lemma on_connector_event_keeps: "keeps s (fst (on_connector_event db fresh n s i dcs))"
proof (induction dcs arbitrary: n s)
  case (Cons dc dcs)
  have "keeps s (fst (upsert_connector (db n) (fresh n) s i dc))"
    by (rule keepsI) (simp_all add: upsert_connector_def Let_def)
  with Cons.IH show ?case using keeps_trans by fastforce
qed simp

lemma step_keeps: "gateway_step s x = Some t \<Longrightarrow> keeps s t"
proof (cases x)
  case (StreamMsg e i msg)
  assume t: "gateway_step s x = Some t"
  show ?thesis
  proof (cases msg)
    case (ADeployEvent ev)
    with t StreamMsg on_deploy_event_keeps show ?thesis by (simp add: handle_agent_message_def)
  next
    case (ALogChunk c)
    with t StreamMsg on_log_chunk_keeps show ?thesis by (simp add: handle_agent_message_def)
  next
    case (ARunFinished c)
    with t StreamMsg on_run_finished_keeps show ?thesis by (simp add: handle_agent_message_def)
  next
    case (AConnectorEvent dcs)
    with t StreamMsg on_connector_event_keeps show ?thesis by (auto simp: handle_agent_message_def)
  next
    case (AHello h)
    with t StreamMsg show ?thesis
      by (auto simp: handle_agent_message_def on_hello_def Let_def intro!: keepsI split: option.splits if_splits)
  qed (use t StreamMsg in \<open>auto simp: handle_agent_message_def handle_heartbeat_def on_run_started_def Let_def
         intro!: keepsI split: prod.splits\<close>)
qed (auto simp: agent_stream_open_def agent_stream_close_def Let_def intro!: keepsI split: option.splits if_splits prod.splits)

lemma run_keeps: "run_ops gateway_step xs s = Some t \<Longrightarrow> keeps s t"
proof (induction xs arbitrary: s)
  case (Cons x xs)
  then obtain u where "gateway_step s x = Some u" "run_ops gateway_step xs u = Some t" by (auto split: option.splits)
  with step_keeps Cons.IH show ?case by (blast intro: keeps_trans)
qed simp


section \<open>Properties\<close>

text \<open>C2. After a restart of the gateway, whatever streams open and close, messages arrive, timers
  expire and statements fail in whatever order, no step panics, and the connections, timers,
  subscriptions and mailboxes stay well formed.\<close>

theorem gateway_never_panics:
  "\<exists>t. run_ops gateway_step xs (gateway_start ok mx s) = Some t \<and> gateway_ok t"
  by (rule gateway.run_safe[OF gateway_start_ok])

text \<open>C11. No message takes back what is recorded: a stored line of a run's or a deploy's log stays as
  it is, and a deploy run keeps its project, branch and trigger, and its commit once that is known.\<close>

theorem recorded_facts_stay:
  assumes "run_ops gateway_step xs s = Some t"
  shows "gw_run_logs s \<subseteq>\<^sub>m gw_run_logs t \<and> gw_deploy_logs s \<subseteq>\<^sub>m gw_deploy_logs t \<and>
    rows_kept (gw_deploy_runs s) (gw_deploy_runs t)"
  using run_keeps[OF assms] by (simp add: keeps_def)

definition demo_deploy_row :: deploy_row where
  "demo_deploy_row = \<lparr>dp_project = ''p'', dp_branch = ''main'', dp_trigger = ''manual'', dp_commit = [],
     dp_status = ''running'', dp_started = Some 1, dp_finished = None, dp_exit_code = None, dp_error = None,
     dp_metrics = empty_payload\<rparr>"

definition demo_gateway :: gateway where
  "demo_gateway =
     \<lparr>gw_root = demo_root, gw_offline = \<lparr>of_timers = Map.empty, of_heap = [], of_status = Map.empty\<rparr>, gw_servers = [],
      gw_broker = new_log_broker, gw_terminals = new_boxes, gw_pending = new_boxes, gw_users = new_boxes,
      gw_tools = new_boxes, gw_network = new_boxes, gw_log_cap = new_log_cap 0, gw_runs = Map.empty,
      gw_run_logs = Map.empty, gw_deploy_runs = [''r'' \<mapsto> demo_deploy_row], gw_deploy_logs = Map.empty,
      gw_connectors = Map.empty, gw_resources = Map.empty, gw_on_failed = True, gw_on_deploy_fin = True, gw_hooks = []\<rparr>"

definition demo_event :: deploy_event where
  "demo_event = \<lparr>de_run_id = ''r'', de_kind = ''finished'', de_data = [], de_message = ''deploy finished'',
     de_exit_code = 0, de_status = [], de_seq = 3, de_commit_sha = ''abc'', de_phase = [], de_metrics = None\<rparr>"

definition demo_env :: env where
  "demo_env = \<lparr>ev_db = (\<lambda>_. True), ev_pick = True, ev_now = 7, ev_fresh = (\<lambda>_. ''id'')\<rparr>"

theorem recorded_facts_stay_witness:
  "\<exists>t. run_ops gateway_step [StreamMsg demo_env ''s'' (ADeployEvent demo_event)] demo_gateway = Some t \<and>
     rows_kept (gw_deploy_runs demo_gateway) (gw_deploy_runs t)"
proof -
  have "gateway_ok demo_gateway"
    by (simp add: gateway_ok_def demo_gateway_def demo_root_def reg_ok_new broker_ok_new box_ok_new offline_ok_def)
  then obtain t where "run_ops gateway_step [StreamMsg demo_env ''s'' (ADeployEvent demo_event)] demo_gateway = Some t"
    using gateway.run_safe by blast
  with recorded_facts_stay[OF this] show ?thesis by blast
qed

text \<open>C10. When a deploy ends, the run's row records the status the agent reports, or, where it reports none,
  failed for an error event or an exit code that is not 0, and succeeded otherwise. The error column holds the
  message of a run that did not succeed; the first reported commit is kept. The hooks are called with the
  recorded status: first the finished hook, then the one for the outcome, which is the failed hook also for
  every end of a rollback.\<close>

theorem deploy_outcome_recorded:
  assumes "gateway_ok s" and "gw_deploy_runs s (de_run_id ev) = Some row"
    and "de_kind ev = ''finished'' \<or> de_kind ev = ''error''" and "db 0" "db 2" "db 3"
  shows "let run = de_run_id ev;
      st = (if de_status ev \<noteq> [] then de_status ev
            else if de_kind ev = ''error'' then ''failed'' else if de_exit_code ev = 0 then ''succeeded'' else ''failed'');
      msg = (if st = ''succeeded'' then [] else de_message ev);
      outcome = (if st = ''succeeded'' \<and> dp_trigger row \<noteq> ''rollback''
        then HDeploySucceeded i (dp_project row) run st (dp_branch row) (dp_trigger row) (de_phase ev) (de_exit_code ev) msg False
        else HDeployFailed i (dp_project row) run st (dp_branch row) (dp_trigger row) (de_phase ev) (de_exit_code ev) msg
          (dp_trigger row = ''rollback''))
    in \<exists>t row'. on_deploy_event db now s i ev = Some (t, True) \<and> gw_deploy_runs t run = Some row' \<and>
      dp_status row' = st \<and> st \<noteq> [] \<and> dp_error row' = (if msg = [] then None else Some msg) \<and>
      dp_exit_code row' = Some (de_exit_code ev) \<and> dp_finished row' = Some now \<and>
      dp_commit row' = (if dp_commit row = [] then de_commit_sha ev else dp_commit row) \<and>
      gw_hooks t = gw_hooks s @
        (if gw_on_deploy_fin s then [HDeployFinished i run st (de_phase ev) (de_exit_code ev) msg] else []) @
        (if gw_on_failed s then [outcome] else [])"
proof -
  define r1 where "r1 = (if dp_commit row = [] then row\<lparr>dp_commit := de_commit_sha ev\<rparr> else row)"
  let ?s1 = "deploy_commit (db 0) s ev"
  have c: "gw_deploy_runs ?s1 (de_run_id ev) = Some r1" "gateway_ok ?s1" "gw_hooks ?s1 = gw_hooks s"
    "gw_on_failed ?s1 = gw_on_failed s" "gw_on_deploy_fin ?s1 = gw_on_deploy_fin s"
    using assms(1,2,4) by (auto simp: deploy_commit_def update_deploy_def r1_def gateway_ok_def)
  obtain t1 where l: "deploy_log (db 1) ?s1 ev = Some t1" "gateway_ok t1" using deploy_log_ok[OF c(2)] by blast
  have d: "gw_deploy_runs t1 (de_run_id ev) = Some r1" "gw_hooks t1 = gw_hooks s"
    "gw_on_failed t1 = gw_on_failed s" "gw_on_deploy_fin t1 = gw_on_deploy_fin s"
    using l(1) c by (auto simp: deploy_log_def Let_def split: if_splits option.splits)
  obtain b where b: "publish_finished (gw_broker t1) (de_run_id ev)
      \<lparr>rf_run_id = de_run_id ev, rf_status = deploy_status ev, rf_exit_code = de_exit_code ev, rf_finished_at = 0,
       rf_duration_ms = 0, rf_error = deploy_error ev\<rparr> = Some b"
    using publish_ok(2) l(2) by (meson gateway_ok_def)
  have r1: "dp_commit r1 = (if dp_commit row = [] then de_commit_sha ev else dp_commit row)"
    "dp_project r1 = dp_project row" "dp_branch r1 = dp_branch row" "dp_trigger r1 = dp_trigger row"
    by (simp_all add: r1_def)
  define st where "st = (if de_status ev \<noteq> [] then de_status ev
      else if de_kind ev = ''error'' then ''failed'' else if de_exit_code ev = 0 then ''succeeded'' else ''failed'')"
  define msg where "msg = (if st = ''succeeded'' then [] else de_message ev)"
  have st: "deploy_status ev = st" "st \<noteq> []" by (simp_all add: deploy_status_def st_def)
  have msg: "deploy_error ev = msg" by (simp add: deploy_error_def st msg_def)
  have "on_deploy_event db now s i ev = deploy_done db now t1 i ev" using l(1) assms(3) by (auto simp: on_deploy_event_def)
  then show ?thesis
    using d b assms(5,6) st(2) r1
    unfolding st_def[symmetric] msg_def[symmetric] Let_def st(1) msg
    by (auto simp: deploy_done_def Let_def update_deploy_def deploy_columns_def nullif_empty_def st(1) msg after_deploy_run_def)
qed

theorem deploy_outcome_recorded_witness:
  "\<exists>t row'. on_deploy_event (\<lambda>_. True) 7 demo_gateway ''s'' demo_event = Some (t, True) \<and>
     gw_deploy_runs t ''r'' = Some row' \<and> dp_status row' = ''succeeded'' \<and> dp_error row' = None \<and>
     dp_commit row' = ''abc'' \<and>
     gw_hooks t = [HDeployFinished ''s'' ''r'' ''succeeded'' [] 0 [],
                   HDeploySucceeded ''s'' ''p'' ''r'' ''succeeded'' ''main'' ''manual'' [] 0 [] False]"
proof -
  have ok: "gateway_ok demo_gateway"
    by (simp add: gateway_ok_def demo_gateway_def demo_root_def reg_ok_new broker_ok_new box_ok_new offline_ok_def)
  from deploy_outcome_recorded[OF ok, where ev = demo_event and row = demo_deploy_row and db = "\<lambda>_. True" and now = 7 and i = "''s''"] show ?thesis
    by (auto simp: demo_gateway_def demo_event_def demo_deploy_row_def Let_def)
qed

text \<open>Every chunk reaches the live subscribers, and where the cap refuses to store one for the
  first time the log keeps a line that says so, at the last sequence number of stderr.\<close>

theorem truncation_is_told:
  assumes "gateway_ok s" and "db 0"
    and "get0 0 (lcap_used (gw_log_cap s)) (lc_run_id c) \<ge> lcap_max (gw_log_cap s)"
    and "\<not> get0 False (lcap_told (gw_log_cap s)) (lc_run_id c)"
  shows "\<exists>t. on_log_chunk db s c = Some (t, True) \<and> publish (gw_broker s) (lc_run_id c) c = Some (gw_broker t) \<and>
    gw_run_logs t (lc_run_id c, ''stderr'', max_int32) \<noteq> None \<and>
    (lc_seq c \<noteq> max_int32 \<longrightarrow>
       gw_run_logs t (lc_run_id c, lc_stream c, lc_seq c) = gw_run_logs s (lc_run_id c, lc_stream c, lc_seq c))"
proof -
  obtain q where "publish (gw_broker s) (lc_run_id c) c = Some q"
    using publish_ok(1) assms(1) by (meson gateway_ok_def)
  with assms(2-4) show ?thesis
    by (auto simp: on_log_chunk_def log_cap_admit_def insert_new_def Let_def)
qed

definition full_gateway :: gateway where
  "full_gateway = demo_gateway\<lparr>gw_log_cap := \<lparr>lcap_max = 4, lcap_used = [''r'' \<mapsto> 5], lcap_told = Map.empty\<rparr>\<rparr>"

definition demo_chunk :: log_chunk where
  "demo_chunk = \<lparr>lc_run_id = ''r'', lc_stream = ''stdout'', lc_seq = 9, lc_data = ''line''\<rparr>"

theorem truncation_is_told_witness:
  "\<exists>t. on_log_chunk (\<lambda>_. True) full_gateway demo_chunk = Some (t, True) \<and>
     gw_run_logs t (''r'', ''stderr'', max_int32) \<noteq> None \<and> gw_run_logs t (''r'', ''stdout'', 9) = None"
proof -
  have "gateway_ok full_gateway"
    by (simp add: gateway_ok_def full_gateway_def demo_gateway_def demo_root_def reg_ok_new broker_ok_new box_ok_new
        offline_ok_def)
  from truncation_is_told[OF this, of "\<lambda>_. True" demo_chunk] show ?thesis
    by (auto simp: full_gateway_def demo_gateway_def demo_chunk_def max_int32_def)
qed

lemma authenticate_cases:
  assumes "authenticate db fp None p rows = (t, Inr i)"
  obtains ct cs where "p = Peer (ct # cs)"
    "(\<exists>r\<in>set rows. sv_id r = i \<and> sv_fingerprint r = Some (fp (ct_raw ct))) \<and> t = rows \<or>
     (\<forall>r\<in>set rows. sv_fingerprint r \<noteq> Some (fp (ct_raw ct))) \<and> i = trim_space (ct_common_name ct) \<and> i \<noteq> [] \<and>
       i \<in> sv_id ` set rows \<and> t = update_row i (sv_fingerprint_update (\<lambda>_. Some (fp (ct_raw ct)))) rows"
proof -
  obtain ct cs where p: "p = Peer (ct # cs)" and db: "db 0"
    using assms by (auto simp: authenticate_def split: peer.splits list.splits if_splits)
  show thesis
  proof (cases "find (\<lambda>r. sv_fingerprint r = Some (fp (ct_raw ct))) rows")
    case (Some r)
    then have "r \<in> set rows" "sv_fingerprint r = Some (fp (ct_raw ct))" by (auto simp: find_Some_iff)
    with assms p db Some show ?thesis by (intro that[OF p]) (auto simp: authenticate_def)
  next
    case None
    with assms p db have i: "i = trim_space (ct_common_name ct)" "i \<noteq> []" "find (\<lambda>r. sv_id r = i) rows \<noteq> None"
      "t = update_row i (sv_fingerprint_update (\<lambda>_. Some (fp (ct_raw ct)))) rows"
      by (auto simp: authenticate_def Let_def split: if_splits)
    obtain r where "find (\<lambda>r. sv_id r = i) rows = Some r" using i(3) by auto
    then have "r \<in> set rows" "sv_id r = i" by (auto simp: find_Some_iff)
    then have "i \<in> sv_id ` set rows" by blast
    with None i show ?thesis by (intro that[OF p]) (simp add: find_None_iff)
  qed
qed

text \<open>C9. A stream is a server's only if it proves to be, against the rows as they were before: on the edge
  listener by a secret whose hash is the one stored, not empty, for the id it names; on the mTLS listener by a
  client certificate whose fingerprint the server's row records, or which no row records and whose common name
  is the id of a server. Only in the last case is a row changed, the server's own, which then records the
  certificate; what the metadata of an mTLS stream says never matters.\<close>

theorem stream_server_authentic:
  assumes "stream_server db sha fp l rows = (t, Inr i)"
  shows "case l of
      EdgeListener md \<Rightarrow> t = rows \<and> i = first_meta md meta_server_id \<and>
        (\<exists>r\<in>set rows. sv_id r = i \<and> sv_secret_hash r = Some (sha (first_meta md meta_secret)) \<and>
           sha (first_meta md meta_secret) \<noteq> [] \<and> first_meta md meta_secret \<noteq> [])
    | MtlsListener md p \<Rightarrow> stream_server db sha fp (MtlsListener [] p) rows = (t, Inr i) \<and>
        (\<exists>ct cs. p = Peer (ct # cs) \<and>
          ((\<exists>r\<in>set rows. sv_id r = i \<and> sv_fingerprint r = Some (fp (ct_raw ct))) \<and> t = rows \<or>
           (\<forall>r\<in>set rows. sv_fingerprint r \<noteq> Some (fp (ct_raw ct))) \<and> i = trim_space (ct_common_name ct) \<and> i \<noteq> [] \<and>
             i \<in> sv_id ` set rows \<and> t = map (\<lambda>r. if sv_id r = i then r\<lparr>sv_fingerprint := Some (fp (ct_raw ct))\<rparr> else r) rows))"
proof (cases l)
  case (EdgeListener md)
  let ?i = "first_meta md meta_server_id"
  obtain j where j: "edge_authenticate sha (edge_secret_hash (db 3) rows) md = Inr j"
    "authenticate db fp (Some j) NoTLS rows = (t, Inr i)"
    using assms EdgeListener by (auto simp: stream_server_def split: sum.splits)
  then have i: "j = ?i" "?i \<noteq> []"
    and h: "\<exists>h. edge_secret_hash (db 3) rows ?i = Inr h \<and> secret_matches sha (first_meta md meta_secret) h"
    by (auto simp: edge_authenticate_def Let_def split: if_splits sum.splits)
  have "\<exists>r\<in>set rows. sv_id r = ?i \<and> sv_secret_hash r = Some (sha (first_meta md meta_secret)) \<and>
      sha (first_meta md meta_secret) \<noteq> [] \<and> first_meta md meta_secret \<noteq> []"
    using h by (auto simp: edge_secret_hash_def secret_matches_def Let_def find_Some_iff split: option.splits if_splits)
  with i j(2) EdgeListener show ?thesis by (cases ?i) (auto simp: authenticate_def)
next
  case (MtlsListener md p)
  then have a: "authenticate db fp None p rows = (t, Inr i)" using assms by (simp add: stream_server_def)
  obtain ct cs where c: "p = Peer (ct # cs)"
    "(\<exists>r\<in>set rows. sv_id r = i \<and> sv_fingerprint r = Some (fp (ct_raw ct))) \<and> t = rows \<or>
     (\<forall>r\<in>set rows. sv_fingerprint r \<noteq> Some (fp (ct_raw ct))) \<and> i = trim_space (ct_common_name ct) \<and> i \<noteq> [] \<and>
       i \<in> sv_id ` set rows \<and> t = update_row i (sv_fingerprint_update (\<lambda>_. Some (fp (ct_raw ct)))) rows"
    by (rule authenticate_cases[OF a])
  then show ?thesis using MtlsListener a unfolding stream_server_def update_row_def by auto
qed

definition demo_server :: server_row where
  "demo_server = \<lparr>sv_id = ''s'', sv_fingerprint = None, sv_secret_hash = Some ''h'', sv_labels = None,
     sv_agent_version = [], sv_os = [], sv_arch = [], sv_euid_root = False, sv_service_user = [],
     sv_root_enabled = False, sv_root_changed_by = None\<rparr>"

definition demo_cert :: cert where
  "demo_cert = \<lparr>ct_raw = ''der'', ct_common_name = ''s''\<rparr>"

theorem stream_server_authentic_witness:
  "stream_server (\<lambda>_. True) (\<lambda>_. ''h'') id (EdgeListener [(meta_server_id, [''s'']), (meta_secret, [''k''])]) [demo_server]
     = ([demo_server], Inr ''s'') \<and>
   (\<exists>r\<in>set [demo_server]. sv_id r = ''s'' \<and> sv_secret_hash r = Some ''h'') \<and>
   stream_server (\<lambda>_. True) (\<lambda>_. ''h'') id (MtlsListener [] (Peer [demo_cert])) [demo_server]
     = ([demo_server\<lparr>sv_fingerprint := Some ''der''\<rparr>], Inr ''s'') \<and>
   ''s'' = trim_space (ct_common_name demo_cert)"
proof -
  have a: "stream_server (\<lambda>_. True) (\<lambda>_. ''h'') id (EdgeListener [(meta_server_id, [''s'']), (meta_secret, [''k''])]) [demo_server]
     = ([demo_server], Inr ''s'')"
    by (simp add: stream_server_def edge_authenticate_def first_meta_def meta_server_id_def meta_secret_def
        edge_secret_hash_def demo_server_def secret_matches_def authenticate_def)
  have "trim_space ''s'' = ''s''" by code_simp
  then have b: "stream_server (\<lambda>_. True) (\<lambda>_. ''h'') id (MtlsListener [] (Peer [demo_cert])) [demo_server]
     = ([demo_server\<lparr>sv_fingerprint := Some ''der''\<rparr>], Inr ''s'')"
    by (simp add: stream_server_def authenticate_def demo_server_def demo_cert_def Let_def update_row_def)
  have "\<exists>r\<in>set [demo_server]. sv_id r = ''s'' \<and> sv_secret_hash r = Some ''h''"
    using stream_server_authentic[OF a] by (simp add: first_meta_def meta_server_id_def meta_secret_def)
  moreover have "''s'' = trim_space (ct_common_name demo_cert)"
    using stream_server_authentic[OF b] by (simp add: demo_server_def)
  ultimately show ?thesis using a b by blast
qed

lemma resolve_refs_frame: "jd_id (resolve_refs rs i l) = jd_id (fst l)"
  "jd_version_id (resolve_refs rs i l) = jd_version_id (fst l)"
  "jd_schedule_cron (resolve_refs rs i l) = jd_schedule_cron (fst l)"
  "jd_script_body (resolve_refs rs i l) = jd_script_body (fst l)"
  by (auto simp: resolve_refs_def split: prod.splits option.splits sum.splits)

text \<open>C3. The snapshot of a server has one entry per job and current version of it exactly for the jobs that are
  for the server, in the order of the tables, each with the job's own schedule and script: the jobs of kind
  server that name it, and the jobs of kind labels all of whose labels its row has with the same values. A
  result whose reading fails after some rows still comes out as a full snapshot, of the jobs read so far.\<close>

theorem full_sync_exact:
  assumes "build_full_sync envof refsof rs db n now rows jobs versions i = Inr j"
  shows "sj_full_snapshot j \<and> sj_delete j = [] \<and>
    map (\<lambda>d. (jd_id d, jd_version_id d, jd_schedule_cron d, jd_script_body d)) (sj_upsert j) =
      take n [(jr_id a, vr_id v, jr_schedule_cron a, vr_script_body v). a \<leftarrow> jobs,
        (jr_target_kind a = ''server'' \<and> jr_server_id a = Some i) \<or>
        (jr_target_kind a = ''labels'' \<and> jr_target_labels a \<noteq> None \<and>
          (\<forall>(k, x) \<in> set (the (jr_target_labels a)).
             \<exists>r ls. find (\<lambda>r. sv_id r = i) rows = Some r \<and> sv_labels r = Some ls \<and> map_of ls k = Some x)),
        v \<leftarrow> versions, vr_id v = jr_current_version a]"
proof -
  have asg: "job_assigned rows i a \<longleftrightarrow> (jr_target_kind a = ''server'' \<and> jr_server_id a = Some i) \<or>
        (jr_target_kind a = ''labels'' \<and> jr_target_labels a \<noteq> None \<and>
          (\<forall>(k, x) \<in> set (the (jr_target_labels a)).
             \<exists>r ls. find (\<lambda>r. sv_id r = i) rows = Some r \<and> sv_labels r = Some ls \<and> map_of ls k = Some x))" for a
    by (cases "find (\<lambda>r. sv_id r = i) rows")
       (auto simp: job_assigned_def labels_contained_def server_labels_def coalesce_def list_all_iff split: option.splits)
  have pick: "concat (map (\<lambda>v. if P v then [f v] else []) vs) = map f (filter P vs)" for P and f :: "version_row \<Rightarrow> 'x" and vs
    by (induction vs) auto
  have "map (\<lambda>(a, v). (jr_id a, vr_id v, jr_schedule_cron a, vr_script_body v)) (sync_rows rows jobs versions i) =
      [(jr_id a, vr_id v, jr_schedule_cron a, vr_script_body v). a \<leftarrow> jobs, job_assigned rows i a, v \<leftarrow> versions, vr_id v = jr_current_version a]"
    by (auto simp: sync_rows_def map_concat o_def pick intro!: arg_cong[where f = concat] map_cong)
  moreover have "map (\<lambda>d. (jd_id d, jd_version_id d, jd_schedule_cron d, jd_script_body d)) (sj_upsert j) =
      take n (map (\<lambda>(a, v). (jr_id a, vr_id v, jr_schedule_cron a, vr_script_body v)) (sync_rows rows jobs versions i))"
    using assms unfolding take_map
    by (auto simp: build_full_sync_def Let_def resolve_refs_frame scan_job_def split: if_splits prod.splits)
  moreover have "sj_full_snapshot j" "sj_delete j = []"
    using assms by (auto simp: build_full_sync_def Let_def split: if_splits)
  ultimately show ?thesis unfolding asg[symmetric] by simp
qed

definition demo_job :: "string \<Rightarrow> job_row" where
  "demo_job i = \<lparr>jr_id = i, jr_current_version = ''v'', jr_name = i, jr_interpreter = ''/bin/sh'',
     jr_schedule_cron = ''* * * * *'', jr_timezone = ''UTC'', jr_enabled = True, jr_timeout_seconds = 60,
     jr_concurrency_policy = ''allow'', jr_catchup_policy = ''skip'', jr_max_retries = 0, jr_working_dir = None,
     jr_run_as_user = None, jr_target_kind = ''server'', jr_server_id = Some ''s'', jr_target_labels = None,
     jr_cpu_quota_percent = 0, jr_memory_max_mb = 0, jr_tasks_max = 0, jr_io_weight = 0\<rparr>"

definition demo_version :: version_row where
  "demo_version = \<lparr>vr_id = ''v'', vr_number = 1, vr_script_body = ''true'', vr_env = None, vr_secret_refs = None\<rparr>"

theorem full_sync_exact_witness:
  "\<exists>j. build_full_sync (\<lambda>_. Map.empty) (\<lambda>_. []) None (\<lambda>_. True) 1 ''t'' [demo_server] [demo_job ''a'', demo_job ''b'']
        [demo_version] ''s'' = Inr j \<and>
     sj_full_snapshot j \<and> map jd_id (sj_upsert j) = [''a'']"
proof -
  have r: "sync_rows [demo_server] [demo_job ''a'', demo_job ''b''] [demo_version] ''s''
      = [(demo_job ''a'', demo_version), (demo_job ''b'', demo_version)]"
    by (simp add: sync_rows_def job_assigned_def demo_job_def demo_version_def)
  obtain j where j: "build_full_sync (\<lambda>_. Map.empty) (\<lambda>_. []) None (\<lambda>_. True) 1 ''t'' [demo_server]
      [demo_job ''a'', demo_job ''b''] [demo_version] ''s'' = Inr j"
    using r by (simp add: build_full_sync_def Let_def)
  have "map (\<lambda>d. (jd_id d, jd_version_id d, jd_schedule_cron d, jd_script_body d)) (sj_upsert j) = [(''a'', ''v'', ''* * * * *'', ''true'')]"
    using full_sync_exact[OF j] by (simp add: demo_job_def demo_version_def del: upt_Suc)
  from arg_cong[OF this, where f = "map fst"] have "map jd_id (sj_upsert j) = [''a'']"
    by (simp only: map_map o_def fst_conv list.map)
  moreover have "sj_full_snapshot j" using full_sync_exact[OF j] by (rule conjunct1)
  ultimately show ?thesis using j by (intro exI[of _ j] conjI)
qed

end
