(* ===== verification/DeployStream.thy ===== *)
theory DeployStream
  imports DeployEventsFacts Gateway
begin

text \<open>
  The two ends of a deploy's report together: the events that the agent's manager sends for a run
  (DeployEvents), received by the stream service of the control plane (Gateway) in the order they were
  sent. The numbers the agent gives are the keys under which the control plane stores the lines, which
  is why nothing that was sent is lost.
\<close>

section \<open>Receiving\<close>

text \<open>The events of one run one after the other, with every statement working.\<close>

fun receive_events :: "int \<Rightarrow> string \<Rightarrow> gateway \<Rightarrow> deploy_event list \<Rightarrow> gateway option" where
  "receive_events now i s [] = Some s"
| "receive_events now i s (e # es) =
     (case on_deploy_event (\<lambda>_. True) now s i e of None \<Rightarrow> None | Some (t, _) \<Rightarrow> receive_events now i t es)"

lemma receive_append:
  "receive_events now i s (es @ fs) = Option.bind (receive_events now i s es) (\<lambda>t. receive_events now i t fs)"
  by (induction now i s es rule: receive_events.induct) (auto split: option.split)

definition line_key :: "string \<Rightarrow> deploy_event \<Rightarrow> string \<times> string \<times> int" where
  "line_key r e = (r, ''stdout'', de_seq e)"

definition has_run :: "string \<Rightarrow> gateway \<Rightarrow> bool" where
  "has_run r s \<longleftrightarrow> gw_deploy_runs s r \<noteq> None"

lemma update_has_run: "has_run r s \<Longrightarrow> has_run r (update_deploy s q f)"
  by (auto simp: has_run_def update_deploy_def split: option.split)

lemma update_logs: "gw_deploy_logs (update_deploy s q f) = gw_deploy_logs s"
  by (simp add: update_deploy_def split: option.split)

lemma commit_same:
  "gw_deploy_logs (deploy_commit ok s e) = gw_deploy_logs s \<and> (has_run r s \<longrightarrow> has_run r (deploy_commit ok s e))"
  by (simp_all add: deploy_commit_def update_logs update_has_run)

lemma commit_ok: "gateway_ok s \<Longrightarrow> gateway_ok (deploy_commit ok s e)"
  by (simp add: deploy_commit_frame)

lemma event_ok:
  assumes "gateway_ok s"
  obtains t b where "on_deploy_event (\<lambda>_. True) now s i e = Some (t, b)" "gateway_ok t"
  using on_deploy_event_ok[OF assms, of "\<lambda>_. True" now i e] by auto

text \<open>A line is stored under its number.\<close>

lemma log_event_stored:
  assumes "is_line e" "de_run_id e = r" "gateway_ok s"
  obtains t b where "on_deploy_event (\<lambda>_. True) now s i e = Some (t, b)" "gateway_ok t"
    "gw_deploy_logs t = insert_new (gw_deploy_logs s) (line_key r e) (de_data e)" "has_run r s \<longrightarrow> has_run r t"
proof -
  obtain t b where t: "on_deploy_event (\<lambda>_. True) now s i e = Some (t, b)" "gateway_ok t" using event_ok[OF assms(3)] .
  let ?u = "deploy_commit True s e"
  obtain v where v: "deploy_log True ?u e = Some v" using deploy_log_ok[OF commit_ok[OF assms(3)]] by blast
  then have "v = t" using t(1) assms(1) by (simp add: on_deploy_event_def is_line_def)
  moreover have "deploy_chunk e = \<lparr>lc_run_id = r, lc_stream = ''stdout'', lc_seq = de_seq e, lc_data = de_data e\<rparr>"
    using assms(1,2) by (simp add: deploy_chunk_def is_line_def)
  ultimately have "gw_deploy_logs t = insert_new (gw_deploy_logs ?u) (line_key r e) (de_data e)" "gw_deploy_runs t = gw_deploy_runs ?u"
    using v assms(1,2) by (auto simp: deploy_log_def is_line_def line_key_def Let_def split: option.splits)
  then show thesis using that t commit_same[of True s e r] by (simp add: has_run_def)
qed

lemma lines_stored:
  "list_all is_line es \<Longrightarrow> list_all (\<lambda>e. de_run_id e = r) es \<Longrightarrow> distinct (map de_seq es) \<Longrightarrow> gateway_ok s \<Longrightarrow>
   \<forall>e \<in> set es. gw_deploy_logs s (line_key r e) = None \<Longrightarrow>
   \<exists>t. receive_events now i s es = Some t \<and> gateway_ok t \<and> (has_run r s \<longrightarrow> has_run r t) \<and>
     gw_deploy_logs s \<subseteq>\<^sub>m gw_deploy_logs t \<and> (\<forall>e \<in> set es. gw_deploy_logs t (line_key r e) = Some (de_data e))"
proof (induction es arbitrary: s)
  case (Cons e es)
  have "is_line e" "de_run_id e = r" using Cons.prems by simp_all
  then obtain t b where t: "on_deploy_event (\<lambda>_. True) now s i e = Some (t, b)" "gateway_ok t"
    "gw_deploy_logs t = insert_new (gw_deploy_logs s) (line_key r e) (de_data e)" "has_run r s \<longrightarrow> has_run r t"
    using log_event_stored[OF _ _ Cons.prems(4), of e r now i] by blast
  have e: "gw_deploy_logs t (line_key r e) = Some (de_data e)" using t(3) Cons.prems(5) by (simp add: insert_new_def)
  have "\<forall>x \<in> set es. gw_deploy_logs t (line_key r x) = None"
    using t(3) Cons.prems(3,5) by (auto simp: insert_new_def line_key_def) (metis image_eqI)
  then obtain u where u: "receive_events now i t es = Some u" "gateway_ok u" "has_run r t \<longrightarrow> has_run r u"
    "gw_deploy_logs t \<subseteq>\<^sub>m gw_deploy_logs u" "\<forall>x \<in> set es. gw_deploy_logs u (line_key r x) = Some (de_data x)"
    using Cons.IH[of t] Cons.prems t(2) by auto
  have "gw_deploy_logs s \<subseteq>\<^sub>m gw_deploy_logs t" using t(3) insert_new_le by simp
  then have "gw_deploy_logs s \<subseteq>\<^sub>m gw_deploy_logs u" using u(4) by (rule map_le_trans)
  moreover have "gw_deploy_logs u (line_key r e) = Some (de_data e)" using u(4) e by (auto simp: map_le_def) (metis domI)
  ultimately show ?case using t(1,4) u by auto
qed simp

lemma started_stored:
  assumes "gateway_ok s" "has_run r s" "de_kind e = ''started''" "de_run_id e = r"
  obtains t b where "on_deploy_event (\<lambda>_. True) now s i e = Some (t, b)" "gateway_ok t" "has_run r t"
    "\<forall>k. k \<noteq> de_seq e \<longrightarrow> gw_deploy_logs t (r, ''stdout'', k) = gw_deploy_logs s (r, ''stdout'', k)"
proof -
  obtain t b where t: "on_deploy_event (\<lambda>_. True) now s i e = Some (t, b)" "gateway_ok t" using event_ok[OF assms(1)] .
  let ?u = "deploy_commit True s e"
  obtain v where v: "deploy_log True ?u e = Some v" using deploy_log_ok[OF commit_ok[OF assms(1)]] by blast
  have "gw_deploy_runs v = gw_deploy_runs ?u" "\<forall>k. k \<noteq> de_seq e \<longrightarrow>
      gw_deploy_logs v (r, ''stdout'', k) = gw_deploy_logs ?u (r, ''stdout'', k)"
    using v by (auto simp: deploy_log_def Let_def insert_new_def split: if_splits option.splits)
  moreover have "t = fst (deploy_started (\<lambda>_. True) now v i e)" using t(1) v assms(3) by (simp add: on_deploy_event_def)
  moreover have "gw_deploy_logs (fst (deploy_started (\<lambda>_. True) now v i e)) = gw_deploy_logs v"
    "has_run r v \<Longrightarrow> has_run r (fst (deploy_started (\<lambda>_. True) now v i e))"
    by (auto simp: deploy_started_def Let_def has_run_def update_deploy_def split: option.splits prod.splits)
  ultimately show thesis using that t commit_same[of True s e r] assms(2) by (simp add: has_run_def)
qed

lemma finished_stored:
  assumes "gateway_ok s" "has_run r s" "de_kind e = ''finished''" "de_run_id e = r" "de_data e = []" "de_status e \<noteq> []"
  obtains t b row where "on_deploy_event (\<lambda>_. True) now s i e = Some (t, b)" "gw_deploy_logs t = gw_deploy_logs s"
    "gw_deploy_runs t r = Some row" "dp_status row = de_status e" "dp_finished row = Some now"
proof -
  obtain t b where t: "on_deploy_event (\<lambda>_. True) now s i e = Some (t, b)" "gateway_ok t" using event_ok[OF assms(1)] .
  let ?u = "deploy_commit True s e"
  have l: "deploy_log True ?u e = Some ?u" using assms(3,5) by (simp add: deploy_log_def)
  then have d: "deploy_done (\<lambda>_. True) now ?u i e = Some (t, b)" using t(1) assms(3) by (simp add: on_deploy_event_def)
  obtain row where r: "gw_deploy_runs ?u r = Some row" using commit_same[of True s e r] assms(2) by (auto simp: has_run_def)
  have s: "deploy_status e = de_status e" using assms(6) by (simp add: deploy_status_def)
  have "gw_deploy_logs t = gw_deploy_logs ?u \<and> (\<exists>row. gw_deploy_runs t r = Some row \<and> dp_status row = de_status e \<and> dp_finished row = Some now)"
    using d r s assms(4) by (auto simp: deploy_done_def Let_def update_deploy_def split: option.splits prod.splits)
  then show thesis using that t(1) commit_same[of True s e r] by auto
qed

section \<open>From the agent's steps to the tables\<close>

lemma distinct_parts:
  "distinct (map f (filter P xs)) \<Longrightarrow> distinct (map f (filter (Not \<circ> P) xs)) \<Longrightarrow> (\<And>x y. P x \<Longrightarrow> \<not> P y \<Longrightarrow> f x \<noteq> f y) \<Longrightarrow>
   distinct (map f xs)"
proof (induction xs)
  case (Cons x xs)
  have "f x \<notin> f ` set xs"
  proof
    assume "f x \<in> f ` set xs"
    then obtain y where y: "y \<in> set xs" "f x = f y" by auto
    then show False using Cons.prems(1,2) Cons.prems(3)[of x y] Cons.prems(3)[of y x]
      by (cases "P x"; cases "P y") (auto simp: image_iff)
  qed
  then show ?case using Cons by (cases "P x") auto
qed simp

lemma in_order_distinct: "in_order n es \<Longrightarrow> notices es \<le> 1 \<Longrightarrow> distinct (map de_seq es)"
proof (rule distinct_parts[where P = numbered])
  assume o: "in_order n es" and n: "notices es \<le> 1"
  show "distinct (map de_seq (filter numbered es))" using o by (simp add: in_order_def distinct_map inj_on_def)
  show "distinct (map de_seq (filter (Not \<circ> numbered) es))"
    using n by (cases "filter (Not \<circ> numbered) es") (auto simp: notices_def)
qed (auto simp: numbered_def)

lemma run_over_recorded:
  assumes o: "run_over status old (old @ es)" and r: "list_all (\<lambda>e. de_run_id e = r) es" and g: "gateway_ok s" "has_run r s"
    and f: "\<And>k. gw_deploy_logs s (r, ''stdout'', k) = None" and st: "status \<noteq> []"
  shows "\<exists>t row. receive_events now i s es = Some t \<and> gw_deploy_runs t r = Some row \<and> dp_status row = status \<and>
     dp_finished row = Some now \<and> (\<forall>e \<in> set es. de_kind e = ''log'' \<longrightarrow> gw_deploy_logs t (line_key r e) = Some (de_data e))"
proof -
  obtain n e ls l where x: "es = e # ls @ [l]" "de_kind e = ''started''" "list_all is_line ls" "de_kind l = ''finished''"
    "de_status l = status" "de_data l = []" "in_order n (e # ls @ [l])" "notices (e # ls @ [l]) \<le> 1"
    using o by (auto simp: run_over_def)
  have d: "distinct (map de_seq (e # ls @ [l]))" using in_order_distinct[OF x(7,8)] .
  have run: "de_run_id e = r" "list_all (\<lambda>e. de_run_id e = r) ls" "de_run_id l = r" using r x(1) by simp_all
  obtain t1 b where t1: "on_deploy_event (\<lambda>_. True) now s i e = Some (t1, b)" "gateway_ok t1" "has_run r t1"
    "\<forall>k. k \<noteq> de_seq e \<longrightarrow> gw_deploy_logs t1 (r, ''stdout'', k) = gw_deploy_logs s (r, ''stdout'', k)"
    using started_stored[OF g x(2) run(1)] .
  have "\<forall>e \<in> set ls. gw_deploy_logs t1 (line_key r e) = None" using t1(4) f d by (auto simp: line_key_def) (metis image_eqI)
  then obtain t2 where t2: "receive_events now i t1 ls = Some t2" "gateway_ok t2" "has_run r t2"
    "\<forall>e \<in> set ls. gw_deploy_logs t2 (line_key r e) = Some (de_data e)"
    using lines_stored[OF x(3) run(2) _ t1(2), of now i] d t1(3) by auto
  obtain t3 c row where t3: "on_deploy_event (\<lambda>_. True) now t2 i l = Some (t3, c)" "gw_deploy_logs t3 = gw_deploy_logs t2"
    "gw_deploy_runs t3 r = Some row" "dp_status row = de_status l" "dp_finished row = Some now"
    using finished_stored[OF t2(2,3) x(4) run(3) x(6)] x(5) st by metis
  have "receive_events now i s es = Some t3" using x(1) t1(1) t2(1) t3(1) by (simp add: receive_append)
  then show ?thesis using t3 t2(4) x(1,2,4,5) by auto
qed


definition small_gateway :: gateway where
  "small_gateway = gateway_start True 0 (demo_gateway\<lparr>gw_deploy_runs := [''r1'' \<mapsto> demo_deploy_row]\<rparr>)"


end
