(* ===== verification/Processes.thy ===== *)
theory Processes
  imports DeployFlow
begin

text \<open>
  Starting an app on the host, \<open>agent/internal/deploy/process.go\<close>, \<open>runapp.go\<close>, \<open>ecosystem.go\<close>
  and the probe of \<open>health.go\<close>: which command a run script or a language stands for, which process
  of pm2 is the app's, what is run for each process manager, and how long the agent waits. What a
  program that is run gives, the files of a directory, the text of an ecosystem file as apps, and the
  answers that are polled are parameters; the steps are recorded as a trace.
\<close>

section \<open>Commands\<close>

definition agent_runtime_language :: "string \<Rightarrow> string" where
  "agent_runtime_language language =
     (let lang = to_lower (trim_space language)
      in if lang \<in> {''nextjs'', ''nestjs'', ''react'', ''vue'', ''nuxt'', ''remix'', ''sveltekit'', ''astro'',
                    ''express'', ''typescript'', ''javascript'', ''nodejs''} then ''node''
         else if lang \<in> {''fastapi'', ''django'', ''flask''} then ''python''
         else if lang \<in> {''csharp'', ''aspnet'', ''aspnetcore''} then ''dotnet''
         else if lang = ''rails'' then ''ruby''
         else if lang = ''laravel'' then ''php''
         else if lang \<in> {''spring'', ''kotlin''} then ''java''
         else if lang = ''golang'' then ''go''
         else lang)"

text \<open>A command is an executable and its arguments; the empty executable stands for none.\<close>

definition parse_run_script :: "string \<Rightarrow> (string \<times> string list) option" where
  "parse_run_script run_script =
     (let script = trim_space run_script
      in if script = [] then None
         else if list_ex (\<lambda>c. c \<in> set ''|&;<>'') script then Some (''bash'', [''-lc'', script])
         else (case str_fields [] script of [] \<Rightarrow> None | f # fs \<Rightarrow> Some (f, fs)))"

definition start_command :: "string \<Rightarrow> string \<Rightarrow> string \<times> string list" where
  "start_command language run_script =
     (case parse_run_script run_script of
        Some c \<Rightarrow> c
      | None \<Rightarrow>
          (let lang = agent_runtime_language language
           in if lang = ''node'' \<or> lang = ''bun'' then (''npm'', [''start''])
              else if lang = ''go'' then (''./app'', [])
              else if lang = ''python'' then (''python3'', [''-m'', ''app''])
              else if lang = ''dotnet'' then (''bash'', [''-lc'', ''dotnet out/*.dll --urls http://0.0.0.0:8080''])
              else ([], [])))"

definition pm2_start_args :: "string \<Rightarrow> string \<Rightarrow> string \<Rightarrow> string \<Rightarrow> string list" where
  "pm2_start_args name language eco run_script =
     (if eco \<noteq> [] then [''start'', eco, ''--update-env''] @ (if trim_space name \<noteq> [] then [''--only'', name] else [])
      else case start_command language run_script of
             (bin, extra) \<Rightarrow>
               if bin = [] then []
               else [''start'', bin, ''--name'', name] @ (if extra \<noteq> [] then ''--'' # extra else []))"

definition unit_char :: "char \<Rightarrow> bool" where
  "unit_char c \<longleftrightarrow> is_lower c \<or> is_upper c \<or> is_digit c \<or> c \<in> {CHR ''.'', CHR ''_'', CHR ''-''}"

definition systemd_unit_name :: "string \<Rightarrow> string" where
  "systemd_unit_name name =
     (let n = trim_set (replace_runs unit_char ''-'' name) ''-'' in if n = [] then ''croncompose-app'' else n)"

text \<open>\<open>env\<close> are the entries of the map in the order of an iteration.\<close>

definition systemd_unit :: "string \<Rightarrow> string \<Rightarrow> string \<Rightarrow> (string \<times> string) list \<Rightarrow> string" where
  "systemd_unit name work exec env =
     ''[Unit]'' @ [newline] @ ''Description=CronCompose '' @ name @ [newline] @ ''After=network.target'' @ [newline, newline] @
     ''[Service]'' @ [newline] @ ''Type=simple'' @ [newline] @ ''WorkingDirectory='' @ work @ [newline] @
     ''ExecStart='' @ exec @ [newline] @ ''Restart=on-failure'' @ [newline] @
     concat (map (\<lambda>kv. ''Environment='' @ fst kv @ ''='' @ snd kv @ [newline]) env) @
     [newline] @ ''[Install]'' @ [newline] @ ''WantedBy=default.target'' @ [newline]"

text \<open>\<open>is_file\<close> says that a path is a file that is not a directory.\<close>

definition find_compose :: "(string \<Rightarrow> bool) \<Rightarrow> string \<Rightarrow> string" where
  "find_compose is_file dir =
     (case find is_file (map (\<lambda>n. path_join [dir, n])
             [''docker-compose.yml'', ''docker-compose.yaml'', ''compose.yml'', ''compose.yaml'']) of
        None \<Rightarrow> [] | Some p \<Rightarrow> p)"

definition detect_lang_hint :: "(string \<Rightarrow> bool) \<Rightarrow> string \<Rightarrow> string" where
  "detect_lang_hint is_file work =
     (if is_file (path_join [work, ''package.json'']) then ''node''
      else if is_file (path_join [work, ''go.mod'']) then ''go''
      else if is_file (path_join [work, ''pyproject.toml'']) \<or> is_file (path_join [work, ''requirements.txt'']) then ''python''
      else [])"

section \<open>Processes of pm2\<close>

record pm2_listed =
  p2_name :: string
  p2_pid :: int
  p2_status :: string
  p2_cwd :: string

definition pm2_is_ready :: "pm2_listed \<Rightarrow> bool" where
  "pm2_is_ready p =
     (let status = to_lower (trim_space (p2_status p))
      in if status = ''online'' then True
         else if status \<in> {''errored'', ''stopped'', ''stopping'', ''one-launch-status''} then False
         else 0 < p2_pid p)"

definition pm2_name_candidates :: "string \<Rightarrow> string list \<Rightarrow> string list" where
  "pm2_name_candidates want aliases = add_new [] (filter (\<lambda>n. n \<noteq> []) (map trim_space (want # aliases)))"

text \<open>\<open>real p\<close> is the path \<open>EvalSymlinks\<close> gives, None where it fails.\<close>

definition resolve_path :: "(string \<Rightarrow> string option) \<Rightarrow> string \<Rightarrow> string" where
  "resolve_path real p =
     (let q = path_clean p
      in case real q of None \<Rightarrow> q | Some r \<Rightarrow> if r = [] then q else r)"

definition same_work_dir :: "(string \<Rightarrow> string option) \<Rightarrow> string \<Rightarrow> string \<Rightarrow> string \<Rightarrow> bool" where
  "same_work_dir real cwd0 work base =
     (let cwd = trim_space cwd0
      in if cwd = [] then False
         else let c = resolve_path real cwd; w = resolve_path real work
              in if c = w then True
                 else if base \<noteq> [] \<and> (has_suffix c (slash # base) \<or> path_base c = base)
                 then w = [] \<or> path_dir w = path_dir c
                   \<or> (str_contains c ''/releases/'' \<and> str_contains w ''/current'' \<and> path_base c = base \<and> path_base w = base)
                   \<or> (str_contains w ''/releases/'' \<and> str_contains c ''/current'' \<and> path_base c = base \<and> path_base w = base)
                 else False)"

definition pm2_name_match :: "string \<Rightarrow> string \<Rightarrow> string \<Rightarrow> bool" where
  "pm2_name_match got0 want0 app_base =
     (let got = trim_space got0; want = trim_space want0
      in if got = [] then False
         else if got = want \<or> got = app_base then True
         else if app_base \<noteq> [] \<and> (got = app_base \<or> has_suffix got (dash # app_base)) then True
         else if want \<noteq> [] \<and> has_suffix want (dash # got) then True
         else app_base \<noteq> [] \<and> has_suffix want (dash # app_base) \<and> has_suffix got (dash # app_base))"

definition prefer_online :: "pm2_listed list \<Rightarrow> pm2_listed option" where
  "prefer_online procs =
     (case find (\<lambda>p. equal_fold (p2_status p) ''online'') procs of
        Some p \<Rightarrow> Some p
      | None \<Rightarrow> (case procs of [] \<Rightarrow> None | p # _ \<Rightarrow> Some p))"

definition name_hit :: "string \<Rightarrow> string list \<Rightarrow> pm2_listed \<Rightarrow> bool" where
  "name_hit base wants p = list_ex (\<lambda>w. w \<noteq> [] \<and> (p2_name p = w \<or> pm2_name_match (p2_name p) w base)) wants"

definition pick_pm2 :: "(string \<Rightarrow> string option) \<Rightarrow> pm2_listed list \<Rightarrow> string \<Rightarrow> string \<Rightarrow> string list \<Rightarrow> pm2_listed option" where
  "pick_pm2 real procs want work0 aliases =
     (let work = resolve_path real work0; base = path_base work; wants = want # aliases;
          named = filter (\<lambda>p. p2_name p \<noteq> []) procs;
          name_hits = filter (name_hit base wants) named;
          cwd_hits = filter (\<lambda>p. \<not> name_hit base wants p \<and> same_work_dir real (p2_cwd p) work base) named
      in case prefer_online name_hits of Some p \<Rightarrow> Some p | None \<Rightarrow> prefer_online cwd_hits)"

section \<open>Ecosystem files\<close>

definition ecosystem_basenames :: "string list" where
  "ecosystem_basenames = [''ecosystem.config.js'', ''ecosystem.config.cjs'', ''ecosystem.config.mjs'', ''ecosystem.config.ts'', ''pm2.json'']"

definition find_ecosystem :: "(string \<Rightarrow> bool) \<Rightarrow> string \<Rightarrow> string" where
  "find_ecosystem is_file dir0 =
     (let dir = path_clean dir0;
          bases = filter (\<lambda>b. b \<noteq> [] \<and> b \<noteq> ''.'' \<and> b \<noteq> [slash]) [dir, path_dir dir]
      in case find is_file (concat (map (\<lambda>b. map (\<lambda>n. path_join [b, n]) ecosystem_basenames) bases)) of
           None \<Rightarrow> [] | Some p \<Rightarrow> p)"

record eco_app =
  ec_name :: string
  ec_cwd :: string

text \<open>\<open>apps\<close> are the apps of the file, empty where it cannot be read.\<close>

definition eco_belongs :: "(string \<Rightarrow> string option) \<Rightarrow> string \<Rightarrow> string \<Rightarrow> string \<Rightarrow> eco_app \<Rightarrow> bool" where
  "eco_belongs real eco_dir work base a =
     (let cwd = trim_space (ec_cwd a);
          app_dir = resolve_path real (if cwd \<noteq> [] \<and> cwd \<noteq> ''.'' then path_join [eco_dir, cwd] else eco_dir)
      in app_dir = work \<or> path_base app_dir = base \<or> same_work_dir real app_dir work base \<or> resolve_path real eco_dir = work)"

definition ecosystem_names_for_work :: "(string \<Rightarrow> string option) \<Rightarrow> (string \<Rightarrow> eco_app list) \<Rightarrow> string \<Rightarrow> string \<Rightarrow> string list" where
  "ecosystem_names_for_work real apps_of_file eco work0 =
     (if eco = [] then []
      else let apps = apps_of_file eco; work = resolve_path real work0; base = path_base work;
               names = map ec_name (filter (\<lambda>a. ec_name a \<noteq> [] \<and> eco_belongs real (path_dir eco) work base a) apps)
           in case apps of
                [a] \<Rightarrow> if names = [] \<and> ec_name a \<noteq> [] then [ec_name a] else names
              | _ \<Rightarrow> names)"

definition prefer_ecosystem_name :: "(string \<Rightarrow> string option) \<Rightarrow> (string \<Rightarrow> eco_app list) \<Rightarrow> string \<Rightarrow> string \<Rightarrow> string \<Rightarrow> string" where
  "prefer_ecosystem_name real apps_of_file want work eco =
     (let names = ecosystem_names_for_work real apps_of_file eco work
      in case names of
           [] \<Rightarrow> want
         | n # _ \<Rightarrow>
             if want = [] then n
             else (case find (\<lambda>m. m = want \<or> pm2_name_match m want (path_base work)) names of None \<Rightarrow> n | Some m \<Rightarrow> m))"

text \<open>\<open>replaceEcosystemAppName\<close>: the leftmost \<open>name: 'old'\<close> or \<open>"name": "old"\<close>, in any case of letters.\<close>

definition regex_space :: "char \<Rightarrow> bool" where
  "regex_space c \<longleftrightarrow> c \<in> {CHR '' '', CHR 0x09, CHR 0x0A, CHR 0x0C, CHR 0x0D}"

definition eat_key :: "string \<Rightarrow> string option" where
  "eat_key s =
     (if to_lower (take 4 s) = ''name'' then Some (drop 4 s)
      else if to_lower (take 6 s) = quote # ''name'' @ [quote] then Some (drop 6 s)
      else None)"

definition eat_entry :: "string \<Rightarrow> string \<Rightarrow> string option" where
  "eat_entry old s =
     (case eat_key s of
        None \<Rightarrow> None
      | Some r1 \<Rightarrow>
          (case dropWhile regex_space r1 of
             c # r2 \<Rightarrow>
               (if c \<noteq> CHR '':'' then None
                else case dropWhile regex_space r2 of
                       q # r3 \<Rightarrow>
                         (if (q = quote \<or> q = squote) \<and> equal_fold (take (length old) r3) old
                             \<and> (case drop (length old) r3 of d # _ \<Rightarrow> d = quote \<or> d = squote | [] \<Rightarrow> False)
                          then Some (drop (length old) r3) else None)
                     | [] \<Rightarrow> None)
           | [] \<Rightarrow> None))"

fun replace_ecosystem_app_name :: "string \<Rightarrow> string \<Rightarrow> string \<Rightarrow> string option" where
  "replace_ecosystem_app_name old new [] = None"
| "replace_ecosystem_app_name old new (c # cs) =
     (case eat_entry old (c # cs) of
        Some rest \<Rightarrow> Some (take (length (c # cs) - length rest - length old) (c # cs) @ new @ rest)
      | None \<Rightarrow> map_option (Cons c) (replace_ecosystem_app_name old new cs))"

section \<open>Steps\<close>

datatype proc_step =
    Said string string
  | Ran "string list"
  | Quietly "string list"
  | WroteFile string string
  | MadeDir string
  | Spawned "string list"
  | KilledChild
  | Follows string string

text \<open>The outcome of a command, of a file operation and of a poll (the trace and the number of the poll), the
  rounds a wait has before its deadline, and what ends the context in a round.\<close>

record site =
  st_run :: "proc_step list \<Rightarrow> proc_step \<Rightarrow> string option"
  st_list :: "proc_step list \<Rightarrow> nat \<Rightarrow> (string, pm2_listed list) res"
  st_pid :: "proc_step list \<Rightarrow> nat \<Rightarrow> string \<Rightarrow> bool"
  st_dial :: "proc_step list \<Rightarrow> nat \<Rightarrow> bool"
  st_exit :: "proc_step list \<Rightarrow> nat \<Rightarrow> (string option) option"
  st_stop :: "proc_step list \<Rightarrow> nat \<Rightarrow> string option"
  st_rounds :: "proc_step list \<Rightarrow> nat"
  st_file :: "string \<Rightarrow> bool"
  st_real :: "string \<Rightarrow> string option"
  st_apps :: "proc_step list \<Rightarrow> string \<Rightarrow> eco_app list"
  st_read :: "proc_step list \<Rightarrow> string \<Rightarrow> (string, string) res"
  st_dotenv :: file_tree
  st_home :: string
  st_walk :: "(string \<rightharpoonup> string) \<Rightarrow> (string \<times> string) list"

type_synonym 'r proc_call = "proc_step list \<Rightarrow> proc_step list \<times> 'r"

definition said :: "string \<Rightarrow> string \<Rightarrow> proc_step list \<Rightarrow> proc_step list" where
  "said phase text tr = tr @ [Said phase (phase @ '': '' @ text)]"

definition told :: "string \<Rightarrow> proc_step list \<Rightarrow> proc_step list" where
  "told text tr = tr @ [Said [] text]"

definition step :: "site \<Rightarrow> proc_step \<Rightarrow> string option proc_call" where
  "step st x tr = (tr @ [x], st_run st tr x)"

definition in_dir :: "string \<Rightarrow> string \<Rightarrow> string" where
  "in_dir text work = text @ '' (in '' @ work @ '')''"

section \<open>Waiting\<close>

definition exit_text :: "string \<Rightarrow> string option \<Rightarrow> string" where
  "exit_text otherwise r = (case r of Some e \<Rightarrow> ''process exited: '' @ e | None \<Rightarrow> otherwise)"

text \<open>The loop of \<open>waitReadyExit\<close>: \<open>watch\<close> says that the end of a process is watched, \<open>n\<close> are the rounds left.\<close>

fun wait_dial :: "site \<Rightarrow> bool \<Rightarrow> string \<Rightarrow> proc_step list \<Rightarrow> nat \<Rightarrow> nat \<Rightarrow> string option" where
  "wait_dial st watch addr tr n k =
     (case (if watch then st_exit st tr k else None) of
        Some r \<Rightarrow> Some (exit_text (''process exited before '' @ addr @ '' accepted connections'') r)
      | None \<Rightarrow>
          if st_dial st tr k then None
          else (case n of
                  0 \<Rightarrow> Some (''nothing accepted connections on '' @ addr @ '' within 1m30s'')
                | Suc n' \<Rightarrow>
                    (case st_stop st tr k of Some e \<Rightarrow> Some e | None \<Rightarrow> wait_dial st watch addr tr n' (Suc k))))"

declare wait_dial.simps [simp del]

definition wait_ready :: "site \<Rightarrow> bool \<Rightarrow> string \<Rightarrow> string \<Rightarrow> int \<Rightarrow> string option proc_call" where
  "wait_ready st watch phase work port tr =
     (if port \<le> 0
      then (tr, if \<not> watch then None
                else case st_exit st tr 0 of
                       Some r \<Rightarrow> Some (exit_text ''process exited before it was ready'' r)
                     | None \<Rightarrow> st_stop st tr 0)
      else let addr = ''127.0.0.1:'' @ itoa port; tr1 = said phase (in_dir (''waiting for '' @ addr) work) tr
           in (tr1, wait_dial st watch addr tr1 (st_rounds st tr1) 0))"

definition pm2_pid_online :: "site \<Rightarrow> proc_step list \<Rightarrow> nat \<Rightarrow> string list \<Rightarrow> string option" where
  "pm2_pid_online st tr k names = find (\<lambda>n. n \<noteq> [] \<and> st_pid st tr k n) names"

definition pm2_already_online :: "site \<Rightarrow> string \<Rightarrow> string \<Rightarrow> string list \<Rightarrow> proc_step list \<Rightarrow> string option" where
  "pm2_already_online st work want aliases tr =
     (let fallback = pm2_pid_online st tr 0 (pm2_name_candidates want aliases)
      in case st_list st tr 0 of
           Inl _ \<Rightarrow> fallback
         | Inr procs \<Rightarrow>
             (case pick_pm2 (st_real st) procs want work aliases of
                None \<Rightarrow> fallback
              | Some p \<Rightarrow> if pm2_is_ready p then Some (if p2_name p \<noteq> [] then p2_name p else want) else fallback))"

text \<open>What one poll of \<open>waitPM2Online\<close> decides: the name that is online, an error, or what it saw last.\<close>

datatype pm2_poll = Online string string | Broken string | Unsure string

definition poll_pm2 :: "site \<Rightarrow> string \<Rightarrow> string \<Rightarrow> string list \<Rightarrow> string \<Rightarrow> proc_step list \<Rightarrow> nat \<Rightarrow> string \<Rightarrow> pm2_poll" where
  "poll_pm2 st work want aliases label tr k last_seen =
     (case st_list st tr k of
        Inl e \<Rightarrow> Unsure (''jlist: '' @ e)
      | Inr procs \<Rightarrow>
          (case pick_pm2 (st_real st) procs want work aliases of
             Some p \<Rightarrow>
               (let status = to_lower (trim_space (p2_status p)); name = (if p2_name p = [] then want else p2_name p)
                in if pm2_is_ready p then Online name (''pm2 online: '' @ name @ '' (in '' @ work @ '')'')
                   else if status \<in> {''errored'', ''stopped'', ''stopping''}
                   then Broken (''pm2 process '' @ p2_name p @ '' is '' @ status)
                   else Unsure (p2_name p @ ''='' @ status))
           | None \<Rightarrow>
               (case pm2_pid_online st tr k (pm2_name_candidates want aliases) of
                  Some real \<Rightarrow> Online real (''pm2 online: '' @ real @ '' (via pid; in '' @ work @ '')'')
                | None \<Rightarrow>
                    Unsure (if last_seen \<noteq> [] then last_seen
                            else let names = filter (\<lambda>n. n \<noteq> []) (map p2_name procs)
                                 in if names = [] then ''pm2 jlist empty''
                                    else ''jlist has '' @ str_join '', '' names @ '' (wanted '' @ label @ '')''))))"

definition not_online :: "string \<Rightarrow> string \<Rightarrow> string" where
  "not_online want last_seen =
     ''pm2 process '' @ want @ '' did not come online within 1m30s ('' @
     (if last_seen = []
      then ''pm2 jlist empty '' @ [CHR 0xE2, CHR 0x80, CHR 0x94] @ '' start may have failed (check ecosystem script/cwd)''
      else last_seen) @ '')''"

fun wait_pm2 :: "site \<Rightarrow> string \<Rightarrow> string \<Rightarrow> string \<Rightarrow> string list \<Rightarrow> string \<Rightarrow> proc_step list \<Rightarrow> nat \<Rightarrow> nat \<Rightarrow> string \<Rightarrow>
    proc_step list \<times> (string, string) res" where
  "wait_pm2 st phase work want aliases label tr n k last_seen =
     (case poll_pm2 st work want aliases label tr k last_seen of
        Online name text \<Rightarrow> (said phase text tr, Inr name)
      | Broken e \<Rightarrow> (tr, Inl e)
      | Unsure seen \<Rightarrow>
          (case n of
             0 \<Rightarrow> (tr, Inl (not_online want seen))
           | Suc n' \<Rightarrow>
               (case st_stop st tr k of
                  Some e \<Rightarrow> (tr, Inl e)
                | None \<Rightarrow> wait_pm2 st phase work want aliases label tr n' (Suc k) seen)))"

declare wait_pm2.simps [simp del]

definition wait_pm2_online :: "site \<Rightarrow> string \<Rightarrow> string \<Rightarrow> string \<Rightarrow> string list \<Rightarrow> (string, string) res proc_call" where
  "wait_pm2_online st phase work want aliases tr =
     (let label = (case aliases of a # _ \<Rightarrow> if a \<noteq> want then want @ '' / '' @ str_join '', '' aliases else want | [] \<Rightarrow> want);
          tr1 = said phase (in_dir (''waiting for pm2 process '' @ label) work) tr
      in wait_pm2 st phase work want aliases label tr1 (st_rounds st tr1) 0 [])"

text \<open>\<open>waitHealthy\<close>: the answer to the \<open>k\<close>-th request is a status or an error; the lines said are returned.\<close>

fun wait_healthy :: "(nat \<Rightarrow> (string, int) res) \<Rightarrow> (nat \<Rightarrow> string option) \<Rightarrow> string \<Rightarrow> string \<Rightarrow> nat \<Rightarrow> nat \<Rightarrow> string list \<times> string option" where
  "wait_healthy answer stop url budget n attempt =
     (let last_err = (case answer attempt of Inl e \<Rightarrow> e | Inr status \<Rightarrow> ''status '' @ itoa status);
          healthy = (case answer attempt of Inl _ \<Rightarrow> False | Inr status \<Rightarrow> 200 \<le> status \<and> status < 400)
      in if healthy
         then ([''healthy: '' @ (case answer attempt of Inr status \<Rightarrow> itoa status | Inl _ \<Rightarrow> []) @
                '' after '' @ nat_str attempt @ '' attempt(s)''], None)
         else (case n of
                 0 \<Rightarrow> ([], Some (''health check failed: '' @ url @ '' did not become healthy within '' @ budget @
                              '' (last: '' @ last_err @ '')''))
               | Suc n' \<Rightarrow>
                   let said_now = (if attempt mod 5 = 0 then [''still waiting: '' @ last_err] else [])
                   in case stop attempt of
                        Some e \<Rightarrow> (said_now, Some e)
                      | None \<Rightarrow> (case wait_healthy answer stop url budget n' (Suc attempt) of
                                 (lines, r) \<Rightarrow> (said_now @ lines, r))))"

declare wait_healthy.simps [simp del]

section \<open>Starting an app\<close>

definition run_direct :: "site \<Rightarrow> string \<Rightarrow> string \<Rightarrow> string \<Rightarrow> string \<Rightarrow> int \<Rightarrow> string option proc_call" where
  "run_direct st work language run_script phase port tr =
     (case start_command language run_script of
        (bin, args) \<Rightarrow>
          if bin = [] then (said phase (in_dir ''no run command'' work) tr, Some (''no run command for '' @ work))
          else let script = trim_space run_script;
                   shown = (if script = [] then str_join '' '' (bin # args) else script)
               in and_then (silently (said phase (in_dir shown work)))
                    (and_then (step st (Spawned (bin # args)))
                    (and_then (\<lambda>u. case wait_ready st True phase work port u of
                                     (v, None) \<Rightarrow> (v, None)
                                   | (v, Some e) \<Rightarrow> (v @ [KilledChild], Some e))
                              (silently (said phase (in_dir ''done'' work))))) tr)"

text \<open>\<open>syncEcosystemProcessName\<close> with the lines of \<open>startProcess\<close> around it\<close>

definition sync_ecosystem :: "site \<Rightarrow> string \<Rightarrow> string \<Rightarrow> string \<Rightarrow> string \<Rightarrow> proc_step list \<Rightarrow> proc_step list" where
  "sync_ecosystem st phase eco work name tr =
     (let new = trim_space name; old = prefer_ecosystem_name (st_real st) (st_apps st tr) new work eco;
          failed = (\<lambda>e t. said phase (in_dir (''ecosystem name sync failed: '' @ e) work) t)
      in if old = [] \<or> old = new then tr
         else case st_read st tr eco of
                Inl e \<Rightarrow> failed e tr
              | Inr body \<Rightarrow>
                  (case replace_ecosystem_app_name old new body of
                     None \<Rightarrow> tr
                   | Some updated \<Rightarrow>
                       (case step st (WroteFile eco updated) tr of
                          (t, Some e) \<Rightarrow> failed e t
                        | (t, None) \<Rightarrow>
                            said phase (in_dir (''updated '' @ path_base eco @ '' name '' @ old @ '' '' @
                              [CHR 0xE2, CHR 0x86, CHR 0x92] @ '' '' @ name) work) t)))"

definition delete_online :: "site \<Rightarrow> string \<Rightarrow> string \<Rightarrow> string option \<Rightarrow> proc_step list \<Rightarrow> proc_step list" where
  "delete_online st phase work found tr =
     (case found of
        None \<Rightarrow> tr
      | Some real \<Rightarrow>
          (case step st (Ran [''pm2'', ''delete'', real])
                  (said phase (in_dir (''pm2 delete '' @ real @ '' (restart into new release)'') work) tr) of
             (t, None) \<Rightarrow> t
           | (t, Some e) \<Rightarrow> said phase (''pm2 delete '' @ real @ '': '' @ e @ '' (continuing with start)'') t))"

definition started_up :: "site \<Rightarrow> string \<Rightarrow> string \<Rightarrow> string \<Rightarrow> string \<Rightarrow> int \<Rightarrow> string option proc_call" where
  "started_up st phase work pm name port =
     and_then (silently (\<lambda>t. t @ [Follows pm name]))
       (and_then (wait_ready st False phase work port) (silently (said phase (in_dir ''done'' work))))"

definition start_pm2 :: "site \<Rightarrow> string \<Rightarrow> string \<Rightarrow> string \<Rightarrow> string \<Rightarrow> string \<Rightarrow> int \<Rightarrow> string option proc_call" where
  "start_pm2 st work name language run_script phase port tr =
     (let eco = find_ecosystem (st_file st) work;
          t1 = (if eco \<noteq> [] \<and> trim_space name \<noteq> [] then sync_ecosystem st phase eco work name tr else tr);
          eco_name = (if eco \<noteq> [] \<and> trim_space name = [] then prefer_ecosystem_name (st_real st) (st_apps st t1) [] work eco else []);
          wait_name = (if eco_name \<noteq> [] then eco_name else name);
          names = ecosystem_names_for_work (st_real st) (st_apps st t1) eco work;
          aliases = (if wait_name \<noteq> [] then wait_name # names else names);
          t2 = delete_online st phase work (pm2_already_online st work wait_name aliases t1) t1;
          args = pm2_start_args wait_name language eco run_script
      in if args = []
         then (said phase (in_dir ''pm2: no start command; add a run script, ecosystem file, or set language to node'' work) t2, None)
         else and_then (silently (said phase (in_dir (''pm2 '' @ str_join '' '' args) work)))
                (and_then (step st (Ran (''pm2'' # args)))
                (\<lambda>u. case wait_pm2_online st phase work wait_name aliases u of
                        (v, Inl e) \<Rightarrow> (v, Some e)
                      | (v, Inr real) \<Rightarrow> started_up st phase work ''pm2'' real port v)) t2)"

definition start_docker :: "site \<Rightarrow> string \<Rightarrow> string \<Rightarrow> string \<Rightarrow> int \<Rightarrow> string option proc_call" where
  "start_docker st work name phase port tr =
     (let compose = find_compose (st_file st) work
      in if compose = [] then (said phase (in_dir ''no docker-compose file; add one or use Connectors'' work) tr, None)
         else and_then (silently (said phase (in_dir (''docker compose -f '' @ path_base compose @ '' up -d'') work)))
                (and_then (step st (Ran [''docker'', ''compose'', ''-f'', compose, ''up'', ''-d'']))
                          (started_up st phase work ''docker'' name port)) tr)"

definition start_systemd :: "site \<Rightarrow> string \<Rightarrow> string \<Rightarrow> string \<Rightarrow> string \<Rightarrow> (string \<rightharpoonup> string) \<Rightarrow> credential option \<Rightarrow> string \<Rightarrow> int \<Rightarrow>
    string option proc_call" where
  "start_systemd st work name language run_script env cred phase port tr =
     (case start_command language run_script of
        (bin, args) \<Rightarrow>
          if bin = [] then (told ''systemd: no ExecStart guessed; set a run script or attach the unit from Connectors'' tr, None)
          else let unit = systemd_unit_name name @ ''.service'';
                   body = systemd_unit name work (str_join '' '' (bin # args)) (st_walk st env);
                   home = (case cred of None \<Rightarrow> st_home st | Some c \<Rightarrow> if cd_home c = [] then st_home st else cd_home c);
                   dir = path_join [home, ''.config/systemd/user'']
               in and_then (step st (MadeDir dir))
                    (and_then (step st (WroteFile (path_join [dir, unit]) body))
                    (and_then (silently (said phase (in_dir (''systemd --user enable --now '' @ unit) work)))
                    (and_then (prefix_error ''systemd reload'' (step st (Ran [''systemctl'', ''--user'', ''daemon-reload''])))
                    (and_then (step st (Ran [''systemctl'', ''--user'', ''enable'', ''--now'', unit]))
                    (and_then (step st (Ran [''systemctl'', ''--user'', ''restart'', unit]))
                              (started_up st phase work ''systemd'' name port)))))) tr)"

text \<open>\<open>startProcess\<close>\<close>

definition start_process :: "site \<Rightarrow> string \<Rightarrow> string \<Rightarrow> string \<Rightarrow> string \<Rightarrow> string \<Rightarrow> (string \<rightharpoonup> string) \<Rightarrow> credential option \<Rightarrow>
    string \<Rightarrow> int \<Rightarrow> string option proc_call" where
  "start_process st work pm name0 language0 run_script env0 cred phase0 port0 tr =
     (let phase = (if phase0 = [] then ''start'' else phase0);
          name = (if name0 = [] then path_base work else name0);
          language = (if language0 = [] then detect_lang_hint (st_file st) work else language0);
          env1 = merge_dotenv_around (st_dotenv st) work env0;
          port = port_from port0 env1; env = apply_listen_port env1 port
      in if pm = [] \<or> pm = ''none''
         then (if trim_space run_script = [] then (said phase (in_dir ''done'' work) tr, None)
               else run_direct st work language run_script phase port tr)
         else if pm = ''pm2'' then start_pm2 st work name language run_script phase port tr
         else if pm = ''docker'' then start_docker st work name phase port tr
         else if pm = ''systemd'' then start_systemd st work name language run_script env cred phase port tr
         else (said phase (in_dir (''unknown process_manager='' @ pm) work) tr, None))"

text \<open>\<open>persistProcessManager\<close>\<close>

definition best_effort :: "site \<Rightarrow> proc_step \<Rightarrow> string \<Rightarrow> proc_step list \<Rightarrow> proc_step list" where
  "best_effort st x text tr = (case step st x tr of (t, None) \<Rightarrow> t | (t, Some e) \<Rightarrow> told (text @ e) t)"

definition persist_process_manager :: "site \<Rightarrow> string \<Rightarrow> credential option \<Rightarrow> string option proc_call" where
  "persist_process_manager st pm cred =
     (if pm = ''pm2''
      then and_then (silently (told ''pm2 save''))
             (and_then (prefix_error ''pm2 save'' (step st (Quietly [''pm2'', ''save''])))
             (and_then (silently (told ''pm2 startup (best-effort)''))
                       (silently (best_effort st (Quietly [''pm2'', ''startup'']) ''pm2 startup skipped or needs sudo once on this host: ''))))
      else if pm = ''systemd''
      then (case cred of
              None \<Rightarrow> silently id
            | Some c \<Rightarrow>
                if cd_username c = [] \<or> cd_username c = ''root'' then silently id
                else and_then (silently (told (''loginctl enable-linger '' @ cd_username c @ '' (best-effort)'')))
                       (silently (best_effort st (Quietly [''loginctl'', ''enable-linger'', cd_username c]) ''enable-linger skipped: '')))
      else if pm = ''docker''
      then silently (told ''docker: compose project left running; host reboot policy is unchanged'')
      else silently id)"

end
