(* ===== verification/ProcessFacts.thy ===== *)
theory ProcessFacts
  imports Processes
begin

text \<open>
  What starting an app does: every pm2 process that is reported online is one that pm2 lists as the
  app's or answers for by its name; a wait ends in time; the two sides agree on runtimes; and three
  places where the wrong thing is started, stopped or written.
\<close>

section \<open>The process that is picked\<close>

lemma find_in: "find P xs = Some x \<Longrightarrow> x \<in> set xs \<and> P x"
  by (induction xs) (auto split: if_splits)

lemma prefer_online_in: "prefer_online ps = Some p \<Longrightarrow> p \<in> set ps"
  by (auto simp: prefer_online_def split: option.splits list.splits dest: find_in)

lemma pick_in: "pick_pm2 real procs want work aliases = Some p \<Longrightarrow> p \<in> set procs \<and> p2_name p \<noteq> []"
  by (auto simp: pick_pm2_def Let_def split: option.splits dest!: prefer_online_in)

text \<open>A name that ends in the base of the work directory counts as the app's.\<close>

lemma neighbour_picked:
  assumes base: "path_base (resolve_path real work) = base" "base \<noteq> []" "trim_space base = base"
    and want: "want \<noteq> []" and other: "other \<noteq> []" "trim_space other = other"
    and p: "p2_name p = other @ ''-'' @ base" "p2_status p = ''online''"
  shows "pick_pm2 real (p # procs) want work aliases = Some p"
proof -
  let ?n = "other @ ''-'' @ base"
  have "trim_space ?n = ?n"
    using trim_space_join[of other base dash] base(2,3) other by (simp add: plain_char_def is_space_def)
  moreover have "has_suffix ?n (dash # base)" by (simp add: has_suffix_def)
  ultimately have m: "pm2_name_match ?n w base" for w
    using other(1) base(2) by (simp add: pm2_name_match_def Let_def)
  have "name_hit base (want # aliases) p" using want m p(1) by (simp add: name_hit_def)
  then show ?thesis using other(1) p by (simp add: pick_pm2_def Let_def base(1) prefer_online_def equal_fold_def)
qed

lemma neighbour_online:
  assumes "path_base (resolve_path (st_real st) work) = base" "base \<noteq> []" "trim_space base = base"
    and "want \<noteq> []" and "other \<noteq> []" "trim_space other = other"
    and "p2_name p = other @ ''-'' @ base" "p2_status p = ''online''" and "st_list st tr 0 = Inr (p # procs)"
  shows "pm2_already_online st work want aliases tr = Some (other @ ''-'' @ base)"
proof -
  have "pm2_is_ready p" by (simp add: pm2_is_ready_def assms(8)) code_simp
  then show ?thesis using neighbour_picked[OF assms(1-8), of procs aliases] assms(5,7,9)
    by (simp add: pm2_already_online_def Let_def)
qed

section \<open>Steps that stay\<close>

definition holds_on :: "proc_step \<Rightarrow> (proc_step list \<Rightarrow> proc_step list \<times> 'r) \<Rightarrow> bool" where
  "holds_on x f \<longleftrightarrow> (\<forall>tr. x \<in> set tr \<longrightarrow> x \<in> set (fst (f tr)))"

lemma holds_then: "holds_on x f \<Longrightarrow> holds_on x g \<Longrightarrow> holds_on x (and_then f g)"
  by (auto simp: holds_on_def and_then_def split: prod.split option.split)

lemma holds_basic:
  "holds_on x (step st y)" "holds_on x (silently (said p m))" "holds_on x (silently (\<lambda>t. t @ [y]))"
  "holds_on x (wait_ready st watch phase work port)"
  by (auto simp: holds_on_def step_def silently_def said_def wait_ready_def Let_def)

lemma holds_wait_pm2: "x \<in> set tr \<Longrightarrow> x \<in> set (fst (wait_pm2 st phase work want aliases label tr n k l))"
proof (induction st phase work want aliases label tr n k l rule: wait_pm2.induct)
  case (1 st phase work want aliases label tr n k l)
  then show ?case
    by (subst wait_pm2.simps) (auto simp: said_def split: pm2_poll.split nat.split option.split)
qed

lemma holds_started: "holds_on x (started_up st phase work pm name port)"
  unfolding started_up_def by (intro holds_then holds_basic)

lemma holds_wait_online:
  "holds_on x (\<lambda>u. case wait_pm2_online st phase work want aliases u of
      (v, Inl e) \<Rightarrow> (v, Some e) | (v, Inr real) \<Rightarrow> started_up st phase work ''pm2'' real port v)"
proof -
  have "x \<in> set u \<Longrightarrow> x \<in> set (fst (wait_pm2_online st phase work want aliases u))" for u
    by (simp add: wait_pm2_online_def Let_def holds_wait_pm2 said_def)
  then show ?thesis using holds_started[of x st phase work "''pm2''"]
    by (auto simp: holds_on_def split: prod.split sum.split) (metis fst_conv)+
qed

text \<open>C29. A process of another project whose name ends in a hyphen and the last part of the app's directory
  is taken for the app's: when pm2 lists it first and online, a deploy of the app deletes it, whatever the
  app's own process is called.\<close>

theorem neighbour_process_deleted:
  assumes base: "path_base (resolve_path (st_real st) work) = base" "base \<noteq> []" "trim_space base = base"
    and name: "name \<noteq> []" "find_ecosystem (st_file st) work = []"
    and other: "other \<noteq> []" "trim_space other = other"
    and p: "p2_name p = other @ ''-'' @ base" "p2_status p = ''online''" "st_list st tr 0 = Inr (p # procs)"
  shows "Ran [''pm2'', ''delete'', other @ ''-'' @ base] \<in>
    set (fst (start_process st work ''pm2'' name language run_script env cred phase port tr))"
proof -
  let ?x = "Ran [''pm2'', ''delete'', other @ ''-'' @ base]"
  have on: "pm2_already_online st work name [name] tr = Some (other @ ''-'' @ base)"
    by (rule neighbour_online[OF base name(1) other p])
  have x: "?x \<in> set (delete_online st ph work (Some (other @ ''-'' @ base)) tr)" for ph
    by (auto simp: delete_online_def step_def said_def split: option.split)
  have r: "holds_on ?x (and_then (silently (said ph m)) (and_then (step st y) (\<lambda>u. case wait_pm2_online st ph work want al u of
      (v, Inl e) \<Rightarrow> (v, Some e) | (v, Inr real) \<Rightarrow> started_up st ph work ''pm2'' real prt v)))" for ph m y want al prt
    by (intro holds_then holds_basic holds_wait_online)
  have "?x \<in> set (fst (start_pm2 st work name lang run_script ph prt tr))" for lang ph prt
    using x[of ph] r[of ph] name on
    by (simp add: start_pm2_def Let_def ecosystem_names_for_work_def holds_on_def) (simp add: said_def)
  then show ?thesis using name(1) by (simp add: start_process_def Let_def)
qed

text \<open>A host with one pm2 process, of another project.\<close>

definition shared_site :: site where
  "shared_site = \<lparr>st_run = (\<lambda>_ _. None),
     st_list = (\<lambda>_ _. Inr [\<lparr>p2_name = ''blog-web'', p2_pid = 7, p2_status = ''online'', p2_cwd = ''/srv/blog/current/web''\<rparr>]),
     st_pid = (\<lambda>_ _ _. False), st_dial = (\<lambda>_ _. True), st_exit = (\<lambda>_ _. None), st_stop = (\<lambda>_ _. None), st_rounds = (\<lambda>_. 0),
     st_file = (\<lambda>_. False), st_real = Some, st_apps = (\<lambda>_ _. []), st_read = (\<lambda>_ _. Inl ''none''), st_dotenv = Map.empty,
     st_home = ''/root'', st_walk = (\<lambda>_. [])\<rparr>"

theorem neighbour_process_deleted_witness:
  "Ran [''pm2'', ''delete'', ''blog-web''] \<in>
     set (fst (start_process shared_site ''/srv/shop/current/web'' ''pm2'' ''shop-web'' ''node'' [] Map.empty None ''start'' 0 []))"
proof -
  have b: "path_base (resolve_path (st_real shared_site) ''/srv/shop/current/web'') = ''web''"
    "find_ecosystem (st_file shared_site) ''/srv/shop/current/web'' = []"
    "trim_space ''web'' = ''web''" "trim_space ''blog'' = ''blog''" by code_simp+
  show ?thesis
    using neighbour_process_deleted[of shared_site "''/srv/shop/current/web''" "''web''" "''shop-web''" "''blog''" _ "[]" "[]" "''node''"
        "[]" Map.empty None "''start''" 0] b
    by (simp add: shared_site_def)
qed

section \<open>Waiting\<close>

text \<open>What makes a name count as online in the \<open>k\<close>-th poll.\<close>

definition answers_for :: "site \<Rightarrow> proc_step list \<Rightarrow> nat \<Rightarrow> string \<Rightarrow> string list \<Rightarrow> string \<Rightarrow> bool" where
  "answers_for st tr k want aliases name \<longleftrightarrow>
     (\<exists>procs p. st_list st tr k = Inr procs \<and> p \<in> set procs \<and> p2_name p = name \<and> pm2_is_ready p) \<or>
     (name \<in> set (pm2_name_candidates want aliases) \<and> st_pid st tr k name)"

lemma poll_online:
  "poll_pm2 st work want aliases label tr k l = Online name text \<Longrightarrow> answers_for st tr k want aliases name"
  by (auto simp: poll_pm2_def Let_def answers_for_def pm2_pid_online_def split: sum.splits option.splits if_splits
      dest!: pick_in find_in)

text \<open>The process whose log a run follows, and which a start waited for, is one that pm2 lists as running
  or gives a process id for in one of the polls; a start that ends in no such process fails.\<close>

theorem online_means_running:
  assumes "wait_pm2 st phase work want aliases label tr n k l = (u, Inr name)"
  shows "\<exists>j. k \<le> j \<and> j \<le> k + n \<and> answers_for st tr j want aliases name"
  using assms
proof (induction st phase work want aliases label tr n k l rule: wait_pm2.induct)
  case (1 st phase work want aliases label tr n k l)
  show ?case
  proof (cases "poll_pm2 st work want aliases label tr k l")
    case (Online real shown)
    then have "real = name" using 1(2) by (simp add: wait_pm2.simps[of st phase work want aliases label tr n k l])
    then have "answers_for st tr k want aliases name" using poll_online[of st work want aliases label tr k l] Online by simp
    then show ?thesis by (intro exI[of _ k]) simp
  next
    case (Unsure seen)
    then obtain n' where n: "n = Suc n'" "st_stop st tr k = None"
      "wait_pm2 st phase work want aliases label tr n' (Suc k) seen = (u, Inr name)"
      using 1(2) by (simp add: wait_pm2.simps[of st phase work want aliases label tr n k l] split: nat.splits option.splits)
    from 1(1)[OF Unsure n] obtain j where "Suc k \<le> j" "j \<le> Suc k + n'" "answers_for st tr j want aliases name" by blast
    then show ?thesis using n(1) by (intro exI[of _ j]) simp
  qed (use 1(2) in \<open>simp add: wait_pm2.simps[of st phase work want aliases label tr n k l]\<close>)
qed

theorem online_means_running_witness:
  "\<exists>j. answers_for shared_site [] j ''blog-web'' [] ''blog-web''"
proof -
  have "wait_pm2 shared_site ''start'' ''/srv/blog/current/web'' ''blog-web'' [] [] [] 2 0 [] =
      (said ''start'' ''pm2 online: blog-web (in /srv/blog/current/web)'' [], Inr ''blog-web'')" by code_simp
  from online_means_running[OF this] show ?thesis by blast
qed

definition good_answer :: "(nat \<Rightarrow> (string, int) res) \<Rightarrow> nat \<Rightarrow> bool" where
  "good_answer answer k \<longleftrightarrow> (case answer k of Inl _ \<Rightarrow> False | Inr status \<Rightarrow> 200 \<le> status \<and> status < 400)"

lemma wait_healthy_0: "snd (wait_healthy answer stop url budget 0 k) = None \<longleftrightarrow> good_answer answer k"
  by (subst wait_healthy.simps) (auto simp: good_answer_def Let_def split: sum.splits)

lemma wait_healthy_Suc: "snd (wait_healthy answer stop url budget (Suc n) k) = None \<longleftrightarrow>
    good_answer answer k \<or> (stop k = None \<and> snd (wait_healthy answer stop url budget n (Suc k)) = None)"
  by (subst wait_healthy.simps) (auto simp: good_answer_def Let_def split: sum.splits option.splits prod.splits)

text \<open>The same, as a statement about the attempts\<close>

definition healthy_within :: "(nat \<Rightarrow> (string, int) res) \<Rightarrow> (nat \<Rightarrow> string option) \<Rightarrow> nat \<Rightarrow> nat \<Rightarrow> bool" where
  "healthy_within answer stop n k \<longleftrightarrow>
     list_ex (\<lambda>j. good_answer answer j \<and> list_all (\<lambda>i. stop i = None) [k..<j]) [k..<k + Suc n]"

lemma healthy_within_Suc:
  "healthy_within answer stop (Suc n) k \<longleftrightarrow> good_answer answer k \<or> (stop k = None \<and> healthy_within answer stop n (Suc k))"
proof -
  have "[k..<k + Suc (Suc n)] = k # [Suc k..<Suc k + Suc n]" by (simp add: upt_conv_Cons)
  moreover have "list_ex (\<lambda>j. good_answer answer j \<and> list_all (\<lambda>i. stop i = None) [k..<j]) [Suc k..<Suc k + Suc n] \<longleftrightarrow>
      stop k = None \<and> healthy_within answer stop n (Suc k)"
  proof -
    have u: "[k..<j] = k # [Suc k..<j]" if "j \<in> set [Suc k..<Suc k + Suc n]" for j
      using that by (intro upt_conv_Cons) (auto simp del: upt_Suc)
    show ?thesis unfolding healthy_within_def list_ex_iff using u by (auto simp del: upt_Suc set_upt)
  qed
  ultimately show ?thesis by (simp add: healthy_within_def[of answer stop "Suc n" k])
qed

text \<open>A health check passes exactly when one of the requests of its time is answered with a status from 200
  to 399 before the deploy is stopped; else it fails.\<close>

theorem healthy_exactly_when:
  "snd (wait_healthy answer stop url budget n k) = None \<longleftrightarrow> healthy_within answer stop n k"
proof (induction n arbitrary: k)
  case 0
  show ?case by (simp add: wait_healthy_0 healthy_within_def)
next
  case (Suc n)
  show ?case by (simp only: wait_healthy_Suc healthy_within_Suc Suc)
qed

section \<open>The two sides\<close>

text \<open>The agent and the control plane sort every named language or framework into the same runtime.\<close>

lemma runtimes_agree:
  assumes "trim_space language \<noteq> []"
  shows "agent_runtime_language language = runtime_language language"
  using assms by (simp add: agent_runtime_language_def runtime_language_def Let_def to_lower_def)

section \<open>Units of systemd\<close>

lemma line_of: "c \<notin> set d \<Longrightarrow> d \<in> set (split_char c (a @ c # d @ c # b))"
proof (induction "length a" arbitrary: a rule: less_induct)
  case less
  show ?case
  proof (cases "c \<in> set a")
    case True
    then obtain x y where a: "a = x @ c # y" "c \<notin> set x" by (metis split_list_first)
    then have "d \<in> set (split_char c (y @ c # d @ c # b))" using less by simp
    then show ?thesis using a by (simp add: split_char_append)
  qed (use less(2) in \<open>simp add: split_char_append\<close>)
qed

text \<open>The values of an app's environment are written into its systemd unit as they are: a value with a line
  break adds any directive to the unit.\<close>

theorem unit_value_adds_directive:
  assumes "(key, shown @ newline # directive) \<in> set env" and "newline \<notin> set directive"
  shows "directive \<in> set (split_char newline (systemd_unit name work command env))"
proof -
  obtain e f where e: "env = e @ (key, shown @ newline # directive) # f" using split_list[OF assms(1)] by blast
  have c: "concat (map g env) = concat (map g e) @ g (key, shown @ newline # directive) @ concat (map g f)" for g :: "string \<times> string \<Rightarrow> string"
    by (simp add: e)
  let ?g = "\<lambda>kv. ''Environment='' @ fst kv @ ''='' @ snd kv @ [newline]"
  let ?head = "''[Unit]'' @ [newline] @ ''Description=CronCompose '' @ name @ [newline] @ ''After=network.target'' @ [newline, newline] @
     ''[Service]'' @ [newline] @ ''Type=simple'' @ [newline] @ ''WorkingDirectory='' @ work @ [newline] @
     ''ExecStart='' @ command @ [newline] @ ''Restart=on-failure'' @ [newline]"
  have u: "systemd_unit name work command env =
      (?head @ concat (map ?g e) @ ''Environment='' @ key @ ''='' @ shown) @ newline # directive @ newline #
      (concat (map ?g f) @ [newline] @ ''[Install]'' @ [newline] @ ''WantedBy=default.target'' @ [newline])"
    unfolding systemd_unit_def c by simp
  show ?thesis unfolding u by (rule line_of[OF assms(2)])
qed

theorem unit_value_adds_directive_witness:
  "''ExecStartPre=/tmp/x'' \<in> set (split_char newline (systemd_unit ''web'' ''/srv'' ''npm start''
     [(''A'', ''1'' @ newline # ''ExecStartPre=/tmp/x'')]))"
  using unit_value_adds_directive[of "''A''" "''1''" "''ExecStartPre=/tmp/x''"] by simp

text \<open>A run script with a shell operator loses its quotes in a unit: bash is given its first word only.\<close>

lemma unit_loses_script_quotes:
  "start_command [] ''cd web && npm start'' = (''bash'', [''-lc'', ''cd web && npm start'']) \<and>
   str_join '' '' (''bash'' # [''-lc'', ''cd web && npm start'']) = ''bash -lc cd web && npm start''"
  by code_simp

end
