(* ===== verification/Sessions.thy ===== *)
theory Sessions
  imports Prelude
begin

text \<open>
  The signed session cookie of the control plane, \<open>control-plane/internal/auth/session.go\<close>: the
  unpadded URL alphabet of \<open>encoding/base64\<close> it is written in, and the cookie \<open>payload.mac\<close>. The
  keyed hash \<open>hmac.New(sha256.New, secret)\<close> is the parameter \<open>mac\<close>: bytes to bytes, for the
  secret the server booted with. Times are seconds since 1970, as the cookie has them.
\<close>

section \<open>Unpadded base64\<close>

text \<open>\<open>base64.RawURLEncoding\<close>: its alphabet, and the value of a character in it\<close>

definition b64_char :: "nat \<Rightarrow> char" where
  "b64_char n =
     (if n < 26 then char_of (65 + n) else if n < 52 then char_of (71 + n)
      else if n < 62 then char_of (n - 4) else if n = 62 then CHR ''-'' else CHR ''_'')"

definition b64_val :: "char \<Rightarrow> nat option" where
  "b64_val c =
     (let n = (of_char c :: nat)
      in if is_upper c then Some (n - 65) else if is_lower c then Some (n - 71)
         else if is_digit c then Some (n + 4) else if c = CHR ''-'' then Some 62
         else if c = CHR ''_'' then Some 63 else None)"

fun b64_encode :: "string \<Rightarrow> string" where
  "b64_encode [] = []"
| "b64_encode [a] = (let x = (of_char a :: nat) in [b64_char (x div 4), b64_char (x mod 4 * 16)])"
| "b64_encode [a, b] =
     (let x = (of_char a :: nat); y = (of_char b :: nat)
      in [b64_char (x div 4), b64_char (x mod 4 * 16 + y div 16), b64_char (y mod 16 * 4)])"
| "b64_encode (a # b # c # rest) =
     (let x = (of_char a :: nat); y = (of_char b :: nat); z = (of_char c :: nat)
      in b64_char (x div 4) # b64_char (x mod 4 * 16 + y div 16) # b64_char (y mod 16 * 4 + z div 64) #
         b64_char (z mod 64) # b64_encode rest)"

text \<open>Four values give three bytes. In a last group of two or three the bits past the last byte are
  dropped unread; a last group of one is an error.\<close>

fun b64_bytes :: "nat list \<Rightarrow> string option" where
  "b64_bytes [] = Some []"
| "b64_bytes [_] = None"
| "b64_bytes [p, q] = Some [char_of (p * 4 + q div 16)]"
| "b64_bytes [p, q, r] = Some [char_of (p * 4 + q div 16), char_of (q mod 16 * 16 + r div 4)]"
| "b64_bytes (p # q # r # s # rest) =
     map_option (\<lambda>t. char_of (p * 4 + q div 16) # char_of (q mod 16 * 16 + r div 4) # char_of (r mod 4 * 64 + s) # t)
       (b64_bytes rest)"

fun b64_vals :: "string \<Rightarrow> nat list option" where
  "b64_vals [] = Some []"
| "b64_vals (c # cs) =
     (case b64_val c of None \<Rightarrow> None | Some n \<Rightarrow> map_option ((#) n) (b64_vals cs))"

text \<open>\<open>DecodeString\<close> skips line breaks wherever they stand.\<close>

definition b64_decode :: "string \<Rightarrow> string option" where
  "b64_decode s = Option.bind (b64_vals (filter (\<lambda>c. c \<noteq> CHR 0x0A \<and> c \<noteq> CHR 0x0D) s)) b64_bytes"

lemma b64_char_val: "n < 64 \<Longrightarrow> b64_val (b64_char n) = Some n"
proof -
  assume "n < 64"
  then consider "n < 26" | "26 \<le> n" "n < 52" | "52 \<le> n" "n < 62" | "n = 62" | "n = 63" by linarith
  then show ?thesis
    by cases (auto simp: b64_char_def b64_val_def is_upper_def is_lower_def is_digit_def Let_def)
qed

lemma b64_char_plain: "n < 64 \<Longrightarrow> b64_char n \<noteq> CHR 0x0A \<and> b64_char n \<noteq> CHR 0x0D \<and> b64_char n \<noteq> CHR ''.''"
  using b64_char_val[of n]
  by (auto simp: b64_val_def is_upper_def is_lower_def is_digit_def Let_def)

lemma char_bound: "(of_char c :: nat) < 256"
  by simp

text \<open>The six-bit values that a group of bytes is cut into, and what they give back\<close>

lemma six_bits:
  fixes x y z :: nat
  assumes "x < 256" and "y < 256" and "z < 256"
  shows "x div 4 < 64" "x mod 4 * 16 < 64" "y mod 16 * 4 < 64" "z mod 64 < 64"
    "x mod 4 * 16 + y div 16 < 64" "y mod 16 * 4 + z div 64 < 64"
    "(x mod 4 * 16 + y div 16) div 16 = x mod 4" "(x mod 4 * 16 + y div 16) mod 16 = y div 16"
    "(y mod 16 * 4 + z div 64) div 4 = y mod 16" "(y mod 16 * 4 + z div 64) mod 4 = z div 64"
proof -
  have "y div 16 < 16" "z div 64 < 4" using assms by auto
  then show "(x mod 4 * 16 + y div 16) div 16 = x mod 4" "(x mod 4 * 16 + y div 16) mod 16 = y div 16"
    "(y mod 16 * 4 + z div 64) div 4 = y mod 16" "(y mod 16 * 4 + z div 64) mod 4 = z div 64" by simp_all
qed (use assms in auto)

lemmas char_bits = six_bits[OF char_bound char_bound char_bound]

lemma b64_encode_chars: "c \<in> set (b64_encode s) \<Longrightarrow> c \<noteq> CHR 0x0A \<and> c \<noteq> CHR 0x0D \<and> c \<noteq> CHR ''.''"
proof (induction s rule: b64_encode.induct)
  case (2 a)
  then show ?case
    using b64_char_plain[OF char_bits(1), of a] b64_char_plain[OF char_bits(2), of a]
    by (auto simp: Let_def simp del: char_of_eq_iff)
next
  case (3 a b)
  then show ?case
    using b64_char_plain[OF char_bits(1), of a] b64_char_plain[OF char_bits(5), of a b]
      b64_char_plain[OF char_bits(3), of b]
    by (auto simp: Let_def)
next
  case (4 a b c rest)
  then show ?case
    using b64_char_plain[OF char_bits(1), of a] b64_char_plain[OF char_bits(5), of a b]
      b64_char_plain[OF char_bits(6), of b c] b64_char_plain[OF char_bits(4), of c]
    by (auto simp: Let_def)
qed simp

lemma b64_values: "\<exists>vs. b64_vals (b64_encode s) = Some vs \<and> b64_bytes vs = Some s"
proof (induction s rule: b64_encode.induct)
  case (2 a)
  show ?case
    by (simp add: Let_def b64_char_val[OF char_bits(1)] b64_char_val[OF char_bits(2)])
next
  case (3 a b)
  have cut: "n * 4 div 4 = n" for n :: nat by simp
  have "b64_bytes [of_char a div 4, of_char a mod 4 * 16 + of_char b div 16, of_char b mod 16 * 4] = Some [a, b]"
    by (simp only: b64_bytes.simps char_bits cut div_mult_mod_eq char_of_char)
  then show ?case
    by (simp add: Let_def b64_char_val[OF char_bits(1)] b64_char_val[OF char_bits(5)] b64_char_val[OF char_bits(3)]
        del: b64_bytes.simps)
next
  case (4 a b c rest)
  obtain vs where vs: "b64_vals (b64_encode rest) = Some vs" "b64_bytes vs = Some rest" using 4 by blast
  have "b64_bytes ((of_char a div 4) # (of_char a mod 4 * 16 + of_char b div 16) #
      (of_char b mod 16 * 4 + of_char c div 64) # (of_char c mod 64) # vs) = Some (a # b # c # rest)"
    by (simp only: b64_bytes.simps char_bits vs(2) option.map div_mult_mod_eq char_of_char)
  then show ?case
    by (simp add: Let_def b64_char_val[OF char_bits(1)] b64_char_val[OF char_bits(5)] b64_char_val[OF char_bits(6)]
        b64_char_val[OF char_bits(4)] vs(1) del: b64_bytes.simps)
qed simp

lemma b64_roundtrip: "b64_decode (b64_encode s) = Some s"
proof -
  have "filter (\<lambda>c. c \<noteq> CHR 0x0A \<and> c \<noteq> CHR 0x0D) (b64_encode s) = b64_encode s"
    by (rule filter_True) (use b64_encode_chars[of _ s] in auto)
  then show ?thesis using b64_values[of s] by (auto simp: b64_decode_def)
qed

lemma b64_inject: "b64_encode s = b64_encode t \<longleftrightarrow> s = t"
  by (metis b64_roundtrip option.inject)

section \<open>The cookie\<close>

record session =
  ss_user :: string
  ss_expires :: int

text \<open>\<open>strconv.ParseInt(s, 10, 64)\<close>\<close>

definition parse_int64 :: "string \<Rightarrow> int option" where
  "parse_int64 s =
     (case atoi s of None \<Rightarrow> None | Some i \<Rightarrow> if - (2 ^ 63) \<le> i \<and> i < 2 ^ 63 then Some i else None)"

text \<open>\<open>strings.SplitN(s, c, 2)\<close> in two parts\<close>

definition split_two :: "char \<Rightarrow> string \<Rightarrow> (string \<times> string) option" where
  "split_two c s = map_option (\<lambda>i. (take i s, drop (Suc i) s)) (index_byte s c)"

definition session_payload :: "session \<Rightarrow> string" where
  "session_payload s = ss_user s @ ''|'' @ itoa (ss_expires s)"

definition hmac_base64 :: "(string \<Rightarrow> string) \<Rightarrow> string \<Rightarrow> string" where
  "hmac_base64 mac payload = b64_encode (mac payload)"

definition sign_session :: "(string \<Rightarrow> string) \<Rightarrow> session \<Rightarrow> string" where
  "sign_session mac s = b64_encode (session_payload s) @ ''.'' @ hmac_base64 mac (session_payload s)"

definition parse_session :: "(string \<Rightarrow> string) \<Rightarrow> int \<Rightarrow> string \<Rightarrow> (string, session) res" where
  "parse_session mac now value =
     (case split_two CHR ''.'' value of
        None \<Rightarrow> Inl ''session: bad format''
      | Some (head, tag) \<Rightarrow>
          (case b64_decode head of
             None \<Rightarrow> Inl ''session: bad payload''
           | Some payload \<Rightarrow>
               if tag \<noteq> hmac_base64 mac payload then Inl ''session: bad signature''
               else (case split_two CHR ''|'' payload of
                       None \<Rightarrow> Inl ''session: bad payload format''
                     | Some (user, expiry) \<Rightarrow>
                         (case parse_int64 expiry of
                            None \<Rightarrow> Inl ''session: bad expiry''
                          | Some e \<Rightarrow> if e < now then Inl ''session: expired''
                                      else Inr \<lparr>ss_user = user, ss_expires = e\<rparr>))))"

lemma split_two_append: "c \<notin> set a \<Longrightarrow> split_two c (a @ c # b) = Some (a, b)"
  by (simp add: split_two_def index_byte_append)

lemma index_byte_SomeD: "index_byte s c = Some i \<Longrightarrow> s = take i s @ c # drop (Suc i) s \<and> c \<notin> set (take i s)"
  by (induction s arbitrary: i) (auto split: if_splits)

lemma split_two_SomeD: "split_two c s = Some (a, b) \<Longrightarrow> s = a @ c # b \<and> c \<notin> set a"
  by (auto simp: split_two_def dest: index_byte_SomeD)

text \<open>A cookie the server signed is read back, until it expires.\<close>

lemma parse_sign_session:
  assumes "CHR ''|'' \<notin> set (ss_user s)" and "now \<le> ss_expires s" and "- (2 ^ 63) \<le> ss_expires s" and "ss_expires s < 2 ^ 63"
  shows "parse_session mac now (sign_session mac s) = Inr s"
proof -
  have "CHR ''.'' \<notin> set (b64_encode t)" for t using b64_encode_chars by blast
  then have "split_two CHR ''.'' (sign_session mac s) = Some (b64_encode (session_payload s), hmac_base64 mac (session_payload s))"
    by (simp add: sign_session_def split_two_append)
  moreover have "split_two CHR ''|'' (session_payload s) = Some (ss_user s, itoa (ss_expires s))"
    using assms(1) by (simp add: session_payload_def split_two_append)
  ultimately show ?thesis
    using assms by (simp add: parse_session_def b64_roundtrip parse_int64_def atoi_itoa)
qed

text \<open>What an accepted cookie has: the tag of its own payload, which names the user, and a time still to
  come.\<close>

lemma parse_session_accepts:
  assumes "parse_session mac now v = Inr s"
  obtains head payload expiry where "split_two CHR ''.'' v = Some (head, hmac_base64 mac payload)"
    and "b64_decode head = Some payload" and "split_two CHR ''|'' payload = Some (ss_user s, expiry)"
    and "parse_int64 expiry = Some (ss_expires s)" and "now \<le> ss_expires s"
  using assms unfolding parse_session_def
  by (auto split: option.splits if_splits)

text \<open>So where the tag belongs to a cookie that was issued, and the keyed hash has no collision, the session
  is the one issued: a user id with a bar in it would have left no number behind the first bar.\<close>

lemma digits_value_None: "c \<in> set s \<Longrightarrow> \<not> is_digit c \<Longrightarrow> digits_value a s = None"
  by (induction a s rule: digits_value.induct) auto

lemma atoi_bar: "CHR ''|'' \<in> set s \<Longrightarrow> atoi s = None"
  by (cases s) (auto simp: atoi_def digits_value_None is_digit_def)

lemma tag_fixes_session:
  assumes p: "parse_session mac now v = Inr s" and t: "split_two CHR ''.'' v = Some (head, hmac_base64 mac (session_payload s'))"
    and "inj mac"
  shows "s = s'"
proof -
  obtain head2 payload expiry where *: "split_two CHR ''.'' v = Some (head2, hmac_base64 mac payload)"
      "split_two CHR ''|'' payload = Some (ss_user s, expiry)" "parse_int64 expiry = Some (ss_expires s)"
    using p by (rule parse_session_accepts)
  have pay: "payload = session_payload s'"
    using *(1) t assms(3) by (auto simp: hmac_base64_def b64_inject dest: injD)
  have "CHR ''|'' \<notin> set (ss_user s')"
  proof
    assume "CHR ''|'' \<in> set (ss_user s')"
    then obtain a b where ab: "ss_user s' = a @ CHR ''|'' # b" "CHR ''|'' \<notin> set a" by (meson split_list_first)
    then have "split_two CHR ''|'' payload = Some (a, b @ ''|'' @ itoa (ss_expires s'))"
      using split_two_append[OF ab(2)] by (simp add: pay session_payload_def)
    then have "CHR ''|'' \<in> set expiry" using *(2) by auto
    then show False using *(3) by (simp add: parse_int64_def atoi_bar)
  qed
  then have "split_two CHR ''|'' (session_payload s') = Some (ss_user s', itoa (ss_expires s'))"
    using split_two_append by (simp add: session_payload_def)
  then show ?thesis using *(2,3) pay by (auto simp: parse_int64_def atoi_itoa split: if_splits)
qed

end
