(* ===== verification/Auth.thy ===== *)
theory Auth
  imports Sessions "HOL-Library.Word"
begin

text \<open>
  Users and sessions of the control plane, \<open>control-plane/internal/auth\<close>: the tables behind it
  (\<open>migrations/0001\<close>, \<open>0012\<close>, \<open>0016\<close>, \<open>0017\<close>), the users of \<open>store.go\<close>, the roles and guards of
  \<open>middleware.go\<close>, the password login of \<open>handler.go\<close> and the administrator of \<open>seed.go\<close>. A table is
  the list of its rows; the constraints of the schema are errors of the statements that would break
  them. The outcome of each statement is an argument, False for a statement the database did not
  execute. Times are microseconds since 1970, the precision of a column; bcrypt, the keyed hash of
  the cookies and \<open>ids.New\<close> are parameters.
\<close>

section \<open>The tables\<close>

record user =
  us_id :: string
  us_email :: string
  us_name :: string
  us_role :: string
  us_created :: int

record user_row =
  ur_user :: user
  ur_hash :: string

record identity_row =
  id_provider :: string
  id_account :: string
  id_user :: string
  id_login :: string
  id_email :: string

record conn_row =
  gc_id :: string
  gc_user :: string
  gc_provider :: string
  gc_purpose :: string
  gc_account :: string
  gc_login :: string
  gc_email :: string
  gc_token :: string
  gc_refresh :: string
  gc_expires :: "int option"
  gc_created :: int

record settings_row =
  st_client_id :: string
  st_secret :: string
  st_redirect :: string
  st_base :: string
  st_updated :: int

record cred =
  cr_id :: string
  cr_user :: string
  cr_credential_id :: string
  cr_public_key :: string
  cr_attestation :: string
  cr_transport :: "string list"
  cr_sign_count :: "32 word"
  cr_name :: string
  cr_created :: int
  cr_last_used :: "int option"

record challenge =
  ch_user :: "string option"
  ch_purpose :: string
  ch_blob :: string
  ch_expires :: int

record auth =
  au_users :: "user_row list"
  au_identities :: "identity_row list"
  au_conns :: "conn_row list"
  au_settings :: "string \<rightharpoonup> settings_row"
  au_creds :: "cred list"
  au_challenges :: "string \<rightharpoonup> challenge"

datatype row_error = Missing | Failed

section \<open>Requests and replies\<close>

text \<open>What a handler reads of \<open>fiber.Ctx\<close>; a missing cookie or parameter is the empty string. The last
  two are the locals that \<open>AttachIdentity\<close> writes.\<close>

record ctx =
  cx_cookie :: "string \<Rightarrow> string"
  cx_query :: "string \<Rightarrow> string"
  cx_user :: "string option"
  cx_role :: "string option"

text \<open>A cookie set: its name, its value and when it expires; clearing sets the empty value at time 0.\<close>

datatype cookie = Cookie string string int

text \<open>The body of a success is the user, the id of a challenge begun, a passkey, or something that is not
  modelled.\<close>

datatype reply = Refused nat string | SignedIn user | GoTo string | Begun string | Passkey cred | Passkeys "cred list" | Done nat

text \<open>\<open>an_ok\<close> is the outcome of each statement of a handler, in the order it executes them.\<close>

record auth_env =
  an_now :: int
  an_ok :: "nat \<Rightarrow> bool"
  an_id :: string
  an_mac :: "string \<Rightarrow> string"
  an_verify :: "string \<Rightarrow> string \<Rightarrow> bool"

definition cookie_name :: string where
  "cookie_name = ''cc_session''"

definition one_second :: int where
  "one_second = 1000000"

definition session_ttl :: int where
  "session_ttl = 7 * 24 * 3600 * one_second"

section \<open>Users\<close>

definition user_by_id :: "auth \<Rightarrow> string \<Rightarrow> user_row option" where
  "user_by_id s i = List.find (\<lambda>r. us_id (ur_user r) = i) (au_users s)"

definition user_by_email :: "auth \<Rightarrow> string \<Rightarrow> user_row option" where
  "user_by_email s email = List.find (\<lambda>r. us_email (ur_user r) = email) (au_users s)"

definition get_by_id :: "bool \<Rightarrow> auth \<Rightarrow> string \<Rightarrow> (row_error, user) res" where
  "get_by_id ok s i =
     (if \<not> ok then Inl Failed else case user_by_id s i of None \<Rightarrow> Inl Missing | Some r \<Rightarrow> Inr (ur_user r))"

definition get_by_email_with_hash :: "bool \<Rightarrow> auth \<Rightarrow> string \<Rightarrow> (row_error, user \<times> string) res" where
  "get_by_email_with_hash ok s email =
     (if \<not> ok then Inl Failed
      else case user_by_email s email of None \<Rightarrow> Inl Missing | Some r \<Rightarrow> Inr (ur_user r, ur_hash r))"

text \<open>\<open>Upsert\<close>: the statement's insert and its update of the row with the same email\<close>

definition upsert_row :: "auth \<Rightarrow> string \<Rightarrow> int \<Rightarrow> string \<Rightarrow> string \<Rightarrow> string \<Rightarrow> string \<Rightarrow> auth option" where
  "upsert_row s i now email name role hash =
     (if user_by_email s email \<noteq> None
      then Some (s\<lparr>au_users := map (\<lambda>r. if us_email (ur_user r) = email
                                       then r\<lparr>ur_user := (ur_user r)\<lparr>us_name := name, us_role := role\<rparr>, ur_hash := hash\<rparr>
                                       else r) (au_users s)\<rparr>)
      else if user_by_id s i \<noteq> None then None
      else Some (s\<lparr>au_users := au_users s @
             [\<lparr>ur_user = \<lparr>us_id = i, us_email = email, us_name = name, us_role = role, us_created = now\<rparr>, ur_hash = hash\<rparr>]\<rparr>))"

definition upsert_user :: "bool \<Rightarrow> bool \<Rightarrow> string \<Rightarrow> int \<Rightarrow> auth \<Rightarrow> string \<Rightarrow> string \<Rightarrow> string \<Rightarrow> string \<Rightarrow>
    auth \<times> (row_error, user) res" where
  "upsert_user ok1 ok2 i now s email name role hash =
     (if \<not> ok1 then (s, Inl Failed)
      else case upsert_row s i now email name role hash of
             None \<Rightarrow> (s, Inl Failed)
           | Some t \<Rightarrow> (t, map_sum id fst (get_by_email_with_hash ok2 t email)))"

text \<open>\<open>SeedAdmin\<close>; \<open>hashed\<close> is what \<open>Hash\<close> answers for the password.\<close>

definition seed_admin :: "auth_env \<Rightarrow> (string, string) res \<Rightarrow> auth \<Rightarrow> string \<Rightarrow> string \<Rightarrow> auth \<times> bool" where
  "seed_admin e hashed s email password =
     (if email = [] \<or> password = [] then (s, False)
      else case hashed of
             Inl err \<Rightarrow> (s, False)
           | Inr h \<Rightarrow> (case upsert_user (an_ok e 0) (an_ok e 1) (an_id e) (an_now e) s email ''Admin'' ''owner'' h of
                        (t, r) \<Rightarrow> (t, is_ok r)))"

section \<open>Sessions and guards\<close>

definition clear_cookie :: "string \<Rightarrow> cookie" where
  "clear_cookie name = Cookie name [] 0"

definition clear_session :: cookie where
  "clear_session = clear_cookie cookie_name"

text \<open>\<open>time.Now().Add(ttl)\<close> and the cookie that is signed with it\<close>

definition session_cookie :: "auth_env \<Rightarrow> user \<Rightarrow> cookie" where
  "session_cookie e u =
     (let exp = an_now e + session_ttl
      in Cookie cookie_name (sign_session (an_mac e) \<lparr>ss_user = us_id u, ss_expires = exp div one_second\<rparr>) exp)"

definition issue_session :: "auth_env \<Rightarrow> user \<Rightarrow> cookie list \<times> reply" where
  "issue_session e u = ([session_cookie e u], SignedIn u)"

definition refuse_session :: "cookie list \<times> reply" where
  "refuse_session = ([clear_session], Refused 401 ''unauthenticated'')"

definition parse_cookie :: "auth_env \<Rightarrow> string \<Rightarrow> (string, session) res" where
  "parse_cookie e v = parse_session (an_mac e) (an_now e div one_second) v"

definition attach_identity :: "string \<Rightarrow> string \<Rightarrow> ctx \<Rightarrow> ctx" where
  "attach_identity user role c = c\<lparr>cx_user := Some user, cx_role := Some role\<rparr>"

text \<open>A guard answers the request or lets it go on. Statement 0 reads the user.\<close>

definition require_auth :: "auth_env \<Rightarrow> auth \<Rightarrow> ctx \<Rightarrow> (cookie list \<times> reply, ctx) res" where
  "require_auth e s c =
     (let v = cx_cookie c cookie_name
      in if v = [] then Inl refuse_session
         else case parse_cookie e v of
                Inl err \<Rightarrow> Inl refuse_session
              | Inr ss \<Rightarrow> (case get_by_id (an_ok e 0) s (ss_user ss) of
                            Inl err \<Rightarrow> Inl refuse_session
                          | Inr u \<Rightarrow> Inr (attach_identity (us_id u) (us_role u) c)))"

definition optional_auth :: "auth_env \<Rightarrow> auth \<Rightarrow> ctx \<Rightarrow> ctx" where
  "optional_auth e s c =
     (let v = cx_cookie c cookie_name
      in if v = [] then c
         else case parse_cookie e v of
                Inl err \<Rightarrow> c
              | Inr ss \<Rightarrow> (case get_by_id (an_ok e 0) s (ss_user ss) of
                            Inl err \<Rightarrow> c
                          | Inr u \<Rightarrow> attach_identity (us_id u) (us_role u) c))"

definition role_rank :: "string \<Rightarrow> nat" where
  "role_rank r = (if r = ''viewer'' then 1 else if r = ''operator'' then 2 else if r = ''admin'' then 3
                  else if r = ''owner'' then 4 else 0)"

definition valid_role :: "string \<Rightarrow> bool" where
  "valid_role r \<longleftrightarrow> r = ''viewer'' \<or> r = ''operator'' \<or> r = ''admin'' \<or> r = ''owner''"

definition current_user_id :: "ctx \<Rightarrow> string" where
  "current_user_id c = (case cx_user c of None \<Rightarrow> [] | Some i \<Rightarrow> i)"

definition current_role :: "ctx \<Rightarrow> string" where
  "current_role c = (case cx_role c of None \<Rightarrow> [] | Some r \<Rightarrow> r)"

definition require_role :: "string \<Rightarrow> ctx \<Rightarrow> (cookie list \<times> reply, ctx) res" where
  "require_role least c =
     (if role_rank (current_role c) < role_rank least then Inl ([], Refused 403 ''forbidden'') else Inr c)"

definition has_min_role :: "ctx \<Rightarrow> string \<Rightarrow> bool" where
  "has_min_role c least \<longleftrightarrow> role_rank least \<le> role_rank (current_role c)"

text \<open>A route of the authenticated group, with the role its registration asks for.\<close>

definition guarded :: "auth_env \<Rightarrow> auth \<Rightarrow> string \<Rightarrow> ctx \<Rightarrow> (cookie list \<times> reply, ctx) res" where
  "guarded e s least c =
     (case require_auth e s (c\<lparr>cx_user := None, cx_role := None\<rparr>) of Inl r \<Rightarrow> Inl r | Inr c' \<Rightarrow> require_role least c')"

section \<open>The password login\<close>

text \<open>\<open>body\<close> is the parsed body: email and password. Statement 0 reads the user.\<close>

definition login :: "auth_env \<Rightarrow> auth \<Rightarrow> (string, string \<times> string) res \<Rightarrow> cookie list \<times> reply" where
  "login e s body =
     (case body of
        Inl err \<Rightarrow> ([], Refused 400 ''bad_request'')
      | Inr (email, password) \<Rightarrow>
          if email = [] \<or> password = [] then ([], Refused 400 ''missing_fields'')
          else (case get_by_email_with_hash (an_ok e 0) s email of
                  Inl err \<Rightarrow> ([], Refused 401 ''invalid_credentials'')
                | Inr (u, h) \<Rightarrow>
                    if h = [] \<or> \<not> an_verify e h password then ([], Refused 401 ''invalid_credentials'')
                    else issue_session e u))"

definition logout :: "cookie list \<times> reply" where
  "logout = ([clear_session], Done 204)"

definition me :: "auth_env \<Rightarrow> auth \<Rightarrow> ctx \<Rightarrow> cookie list \<times> reply" where
  "me e s c =
     (case get_by_id (an_ok e 0) s (current_user_id c) of
        Inl err \<Rightarrow> ([], Refused 401 ''unauthenticated'') | Inr u \<Rightarrow> ([], SignedIn u))"

end
