(* ===== verification/OAuth.thy ===== *)
theory OAuth
  imports Auth DeployEnv "HOL-Library.List_Lexorder" "HOL-Library.Char_ord"
begin

text \<open>
  Signing in through GitHub, GitLab or an OpenID provider, and connecting a git account:
  \<open>oauthsettings.go\<close> and its handlers, \<open>oauth.go\<close>, \<open>oidc.go\<close>, \<open>oidc_handler.go\<close> and
  \<open>connections.go\<close> of \<open>control-plane/internal/auth\<close>. What the providers answer is a parameter: for a
  request the outcome of the transport, or a status with the body's text and what the JSON decoder
  makes of it. Random states, sealing nonces and the AEAD behind the box are parameters as well.
\<close>

section \<open>Providers\<close>

record provider =
  pv_name :: string
  pv_client_id :: string
  pv_client_secret :: string
  pv_redirect :: string
  pv_auth_url :: string
  pv_token_url :: string
  pv_api :: string

definition provider_enabled :: "provider \<Rightarrow> bool" where
  "provider_enabled p \<longleftrightarrow> pv_client_id p \<noteq> [] \<and> pv_redirect p \<noteq> []"

definition github_provider :: "string \<Rightarrow> string \<Rightarrow> string \<Rightarrow> provider" where
  "github_provider client secret redirect =
     \<lparr>pv_name = ''github'', pv_client_id = client, pv_client_secret = secret, pv_redirect = redirect,
      pv_auth_url = ''https://github.com/login/oauth/authorize'',
      pv_token_url = ''https://github.com/login/oauth/access_token'', pv_api = ''https://api.github.com''\<rparr>"

definition gitlab_provider :: "string \<Rightarrow> string \<Rightarrow> string \<Rightarrow> string \<Rightarrow> provider" where
  "gitlab_provider client secret redirect base0 =
     (let base1 = trim_right_set base0 ''/''; base = (if base1 = [] then ''https://gitlab.com'' else base1)
      in \<lparr>pv_name = ''gitlab'', pv_client_id = client, pv_client_secret = secret, pv_redirect = redirect,
          pv_auth_url = base @ ''/oauth/authorize'', pv_token_url = base @ ''/oauth/token'', pv_api = base @ ''/api/v4''\<rparr>)"

section \<open>What the providers answer\<close>

type_synonym 'a http = "(string, int \<times> string \<times> (string, 'a) res) res"

record token_answer =
  ta_access :: string
  ta_refresh :: string
  ta_expires_in :: int
  ta_error :: string
  ta_error_desc :: string

text \<open>\<open>login\<close> is GitHub's field, \<open>username\<close> GitLab's.\<close>

record api_user =
  pu_id :: int
  pu_login :: string
  pu_name :: string
  pu_email :: string

record api_email =
  pe_email :: string
  pe_primary :: bool
  pe_verified :: bool

record claims =
  cl_email :: string
  cl_name :: string

text \<open>\<open>oa_emails\<close> is what \<open>getJSON\<close> leaves in its destination. The OpenID libraries are \<open>oi_exchange\<close>,
  which gives the raw id token if the answer has one, and \<open>oi_claims\<close>, the two claims of a token that
  verifies.\<close>

record oauth_env = auth_env +
  oa_box :: aead
  oa_nonce :: "nat \<Rightarrow> (string, string) res"
  oa_random :: "(string, string) res"
  oa_post :: "string \<Rightarrow> (string \<times> string) list \<Rightarrow> token_answer http"
  oa_user :: "string \<Rightarrow> string \<Rightarrow> api_user http"
  oa_emails :: "string \<Rightarrow> string \<Rightarrow> api_email list"
  oa_settings :: bool
  oa_github :: provider
  oa_gitlab :: provider
  oa_post_path :: string
  oa_default_role :: string
  oi_exchange :: "string \<Rightarrow> (string, string option) res"
  oi_claims :: "string \<Rightarrow> (string, (string, claims) res) res"

section \<open>Settings\<close>

record settings_input =
  si_client_id :: string
  si_secret :: string
  si_redirect :: string
  si_base :: string

text \<open>The view an administrator gets: never the secret\<close>

record settings_view =
  sv_client_id :: string
  sv_has_secret :: bool
  sv_redirect :: string
  sv_base :: string
  sv_configured :: bool

definition fetch_settings :: "bool \<Rightarrow> auth \<Rightarrow> string \<Rightarrow> (row_error, settings_row option) res" where
  "fetch_settings ok s p = (if \<not> ok then Inl Failed else Inr (au_settings s p))"

definition settings_get :: "bool \<Rightarrow> auth \<Rightarrow> string \<Rightarrow> (row_error, settings_view) res" where
  "settings_get ok s p =
     (case fetch_settings ok s p of
        Inl err \<Rightarrow> Inl err
      | Inr None \<Rightarrow> Inr \<lparr>sv_client_id = [], sv_has_secret = False, sv_redirect = [], sv_base = [], sv_configured = False\<rparr>
      | Inr (Some row) \<Rightarrow>
          Inr \<lparr>sv_client_id = st_client_id row, sv_has_secret = (st_secret row \<noteq> []), sv_redirect = st_redirect row,
               sv_base = st_base row, sv_configured = (st_client_id row \<noteq> [] \<and> st_secret row \<noteq> [])\<rparr>)"

text \<open>The blob \<open>Put\<close> stores: the new secret sealed, or the one that is there. Statement 0 reads, 1 writes,
  2 reads back.\<close>

definition settings_blob :: "oauth_env \<Rightarrow> auth \<Rightarrow> string \<Rightarrow> settings_input \<Rightarrow> string option" where
  "settings_blob e s p inp =
     (if si_secret inp \<noteq> []
      then (case seal_blob (oa_box e) (oa_nonce e 0) (si_secret inp) of Inl err \<Rightarrow> None | Inr b \<Rightarrow> Some b)
      else case fetch_settings (an_ok e 0) s p of
             Inl err \<Rightarrow> None
           | Inr None \<Rightarrow> Some []
           | Inr (Some row) \<Rightarrow> Some (st_secret row))"

definition settings_put :: "oauth_env \<Rightarrow> auth \<Rightarrow> string \<Rightarrow> settings_input \<Rightarrow> auth \<times> (row_error, settings_view) res" where
  "settings_put e s p inp =
     (case settings_blob e s p inp of
        None \<Rightarrow> (s, Inl Failed)
      | Some blob \<Rightarrow>
          if \<not> an_ok e 1 \<or> p \<noteq> ''github'' \<and> p \<noteq> ''gitlab'' then (s, Inl Failed)
          else let t = s\<lparr>au_settings := (au_settings s)(p \<mapsto>
                         \<lparr>st_client_id = si_client_id inp, st_secret = blob, st_redirect = si_redirect inp,
                          st_base = si_base inp, st_updated = an_now e\<rparr>)\<rparr>
               in (t, settings_get (an_ok e 2) t p))"

definition settings_clear :: "bool \<Rightarrow> auth \<Rightarrow> string \<Rightarrow> auth \<times> bool" where
  "settings_clear ok s p = (if \<not> ok then (s, False) else (s\<lparr>au_settings := (au_settings s)(p := None)\<rparr>, True))"

definition gitlab_base_from_row :: "settings_row \<Rightarrow> provider \<Rightarrow> string" where
  "gitlab_base_from_row row env =
     (if st_base row \<noteq> [] then st_base row
      else let n = length ''/oauth/authorize''
           in if n < length (pv_auth_url env) then take (length (pv_auth_url env) - n) (pv_auth_url env) else [])"

definition settings_resolve :: "bool \<Rightarrow> aead \<Rightarrow> auth \<Rightarrow> string \<Rightarrow> provider \<Rightarrow> provider" where
  "settings_resolve ok box s p env =
     (case fetch_settings ok s p of
        Inl err \<Rightarrow> env
      | Inr None \<Rightarrow> env
      | Inr (Some row) \<Rightarrow>
          if st_client_id row = [] \<or> st_secret row = [] then env
          else (case open_blob box (st_secret row) of
                  Inl err \<Rightarrow> env
                | Inr secret \<Rightarrow>
                    let redirect = (if st_redirect row = [] then pv_redirect env else st_redirect row)
                    in if p = ''gitlab''
                       then gitlab_provider (st_client_id row) secret redirect (gitlab_base_from_row row env)
                       else github_provider (st_client_id row) secret redirect))"

definition is_known_provider :: "string \<Rightarrow> bool" where
  "is_known_provider p \<longleftrightarrow> p = ''github'' \<or> p = ''gitlab''"

text \<open>The handlers of the settings page; \<open>body\<close> is the parsed body. The audit entry is not modelled.\<close>

definition settings_list_handler :: "oauth_env \<Rightarrow> auth \<Rightarrow> (reply, settings_view \<times> settings_view) res" where
  "settings_list_handler e s =
     (case settings_get (an_ok e 0) s ''github'' of
        Inl err \<Rightarrow> Inl (Refused 500 ''get_failed'')
      | Inr a \<Rightarrow> (case settings_get (an_ok e 1) s ''gitlab'' of
                   Inl err \<Rightarrow> Inl (Refused 500 ''get_failed'') | Inr b \<Rightarrow> Inr (a, b)))"

definition settings_put_handler :: "oauth_env \<Rightarrow> auth \<Rightarrow> string \<Rightarrow> (string, settings_input) res \<Rightarrow> auth \<times> reply" where
  "settings_put_handler e s p body =
     (if \<not> is_known_provider p then (s, Refused 400 ''bad_provider'')
      else case body of
             Inl err \<Rightarrow> (s, Refused 400 ''bad_request'')
           | Inr inp \<Rightarrow> (case settings_put e s p inp of
                           (t, Inl err) \<Rightarrow> (t, Refused 500 ''save_failed'') | (t, Inr v) \<Rightarrow> (t, Done 200)))"

definition settings_clear_handler :: "oauth_env \<Rightarrow> auth \<Rightarrow> string \<Rightarrow> auth \<times> reply" where
  "settings_clear_handler e s p =
     (if \<not> is_known_provider p then (s, Refused 400 ''bad_provider'')
      else case settings_clear (an_ok e 0) s p of
             (t, False) \<Rightarrow> (t, Refused 500 ''clear_failed'') | (t, True) \<Rightarrow> (t, Done 204))"

text \<open>\<open>oauthHandler.resolve\<close>; the flag says whether a settings store is wired.\<close>

definition resolve_provider :: "bool \<Rightarrow> oauth_env \<Rightarrow> auth \<Rightarrow> string \<Rightarrow> provider" where
  "resolve_provider ok e s name =
     (let env = (if name = ''gitlab'' then oa_gitlab e else oa_github e)
      in if oa_settings e then settings_resolve ok (oa_box e) s name env else env)"

section \<open>Identities and connections\<close>

definition identity_of :: "auth \<Rightarrow> string \<Rightarrow> string \<Rightarrow> identity_row option" where
  "identity_of s p account = List.find (\<lambda>r. id_provider r = p \<and> id_account r = account) (au_identities s)"

definition user_for_identity :: "bool \<Rightarrow> auth \<Rightarrow> string \<Rightarrow> string \<Rightarrow> (row_error, string) res" where
  "user_for_identity ok s p account =
     (if \<not> ok then Inl Failed
      else case identity_of s p account of None \<Rightarrow> Inl Missing | Some r \<Rightarrow> Inr (id_user r))"

record profile =
  pf_id :: string
  pf_login :: string
  pf_email :: string
  pf_name :: string

text \<open>\<open>LinkIdentity\<close>: a row of no user breaks the foreign key.\<close>

definition link_identity :: "bool \<Rightarrow> auth \<Rightarrow> string \<Rightarrow> string \<Rightarrow> profile \<Rightarrow> auth \<times> bool" where
  "link_identity ok s user p f =
     (if \<not> ok \<or> user_by_id s user = None then (s, False)
      else let row = \<lparr>id_provider = p, id_account = pf_id f, id_user = user, id_login = pf_login f, id_email = pf_email f\<rparr>
           in (if identity_of s p (pf_id f) = None then s\<lparr>au_identities := au_identities s @ [row]\<rparr>
               else s\<lparr>au_identities := map (\<lambda>r. if id_provider r = p \<and> id_account r = pf_id f then row else r)
                        (au_identities s)\<rparr>, True))"

text \<open>A time is None where Go's is zero.\<close>

record oauth_token =
  ot_access :: string
  ot_refresh :: string
  ot_expires :: "int option"

text \<open>\<open>time.Duration(ExpiresIn) * time.Second\<close> is nanoseconds in 64 bits.\<close>

definition parse_token_response :: "int \<Rightarrow> (string, token_answer) res \<Rightarrow> (string, oauth_token) res" where
  "parse_token_response now body =
     (case body of
        Inl err \<Rightarrow> Inl err
      | Inr a \<Rightarrow>
          if ta_error a \<noteq> []
          then Inl (if ta_error_desc a \<noteq> [] then ta_error a @ '': '' @ ta_error_desc a else ta_error a)
          else if ta_access a = [] then Inl ''no access_token''
          else Inr \<lparr>ot_access = ta_access a, ot_refresh = ta_refresh a,
                    ot_expires = (if 0 < ta_expires_in a
                                  then Some (now + to_int64 (ta_expires_in a * 1000000000) div 1000) else None)\<rparr>)"

text \<open>The same test stands in every call of a provider.\<close>

definition checked :: "string \<Rightarrow> 'a http \<Rightarrow> (string, (string, 'a) res) res" where
  "checked label r =
     (case r of
        Inl err \<Rightarrow> Inl err
      | Inr (status, text, body) \<Rightarrow> if 300 \<le> status then Inl (label @ itoa status @ '': '' @ trim_space text) else Inr body)"

definition exchange :: "oauth_env \<Rightarrow> provider \<Rightarrow> string \<Rightarrow> (string, oauth_token) res" where
  "exchange e p code =
     (case checked ''token http '' (oa_post e (pv_token_url p)
              [(''client_id'', pv_client_id p), (''client_secret'', pv_client_secret p), (''code'', code),
               (''redirect_uri'', pv_redirect p), (''grant_type'', ''authorization_code'')]) of
        Inl err \<Rightarrow> Inl err | Inr body \<Rightarrow> parse_token_response (an_now e) body)"

definition get_user :: "oauth_env \<Rightarrow> string \<Rightarrow> string \<Rightarrow> (string, api_user) res" where
  "get_user e url token = (case checked ''http '' (oa_user e url token) of Inl err \<Rightarrow> Inl err | Inr r \<Rightarrow> r)"

text \<open>The address used when the account shows none: the primary one if it is verified, else the first.\<close>

definition pick_email :: "api_email list \<Rightarrow> string" where
  "pick_email es =
     (let best = (case List.find (\<lambda>m. pe_primary m \<and> pe_verified m) es of None \<Rightarrow> [] | Some m \<Rightarrow> pe_email m)
      in if best = [] then (case es of [] \<Rightarrow> [] | m # ms \<Rightarrow> pe_email m) else best)"

definition or_else :: "string \<Rightarrow> string \<Rightarrow> string" where
  "or_else a b = (if a = [] then b else a)"

definition github_profile :: "oauth_env \<Rightarrow> provider \<Rightarrow> string \<Rightarrow> (string, profile) res" where
  "github_profile e p token =
     (case get_user e (pv_api p @ ''/user'') token of
        Inl err \<Rightarrow> Inl err
      | Inr u \<Rightarrow>
          let mail = or_else (pu_email u) (pick_email (oa_emails e (pv_api p @ ''/user/emails'') token))
          in Inr \<lparr>pf_id = itoa (pu_id u), pf_login = pu_login u,
                  pf_email = or_else mail (pu_login u @ ''@users.noreply.github.com''),
                  pf_name = or_else (pu_name u) (pu_login u)\<rparr>)"

definition gitlab_profile :: "oauth_env \<Rightarrow> provider \<Rightarrow> string \<Rightarrow> (string, profile) res" where
  "gitlab_profile e p token =
     (case get_user e (pv_api p @ ''/user'') token of
        Inl err \<Rightarrow> Inl err
      | Inr u \<Rightarrow> Inr \<lparr>pf_id = itoa (pu_id u), pf_login = pu_login u,
                      pf_email = or_else (pu_email u) (pu_login u @ ''@users.noreply.gitlab.com''),
                      pf_name = or_else (pu_name u) (pu_login u)\<rparr>)"

definition fetch_profile :: "oauth_env \<Rightarrow> provider \<Rightarrow> string \<Rightarrow> (string, profile) res" where
  "fetch_profile e p token = (if pv_name p = ''gitlab'' then gitlab_profile e p token else github_profile e p token)"

text \<open>Sealing a token pair: nonce 0 for the access token, 1 for the refresh token.\<close>

definition seal_tokens :: "oauth_env \<Rightarrow> oauth_token \<Rightarrow> (string, string \<times> string) res" where
  "seal_tokens e t =
     (case seal_blob (oa_box e) (oa_nonce e 0) (ot_access t) of
        Inl err \<Rightarrow> Inl err
      | Inr a \<Rightarrow> if ot_refresh t = [] then Inr (a, [])
                 else (case seal_blob (oa_box e) (oa_nonce e 1) (ot_refresh t) of Inl err \<Rightarrow> Inl err | Inr b \<Rightarrow> Inr (a, b)))"

definition conn_key :: "string \<Rightarrow> string \<Rightarrow> string \<Rightarrow> conn_row \<Rightarrow> bool" where
  "conn_key user p purpose r \<longleftrightarrow> gc_user r = user \<and> gc_provider r = p \<and> gc_purpose r = purpose"

definition conn_upsert_row :: "auth \<Rightarrow> conn_row \<Rightarrow> auth option" where
  "conn_upsert_row s row =
     (if user_by_id s (gc_user row) = None then None
      else if list_ex (conn_key (gc_user row) (gc_provider row) (gc_purpose row)) (au_conns s)
      then Some (s\<lparr>au_conns := map (\<lambda>r. if conn_key (gc_user row) (gc_provider row) (gc_purpose row) r
                                      then row\<lparr>gc_id := gc_id r, gc_created := gc_created r\<rparr> else r) (au_conns s)\<rparr>)
      else if list_ex (\<lambda>r. gc_id r = gc_id row) (au_conns s) then None
      else Some (s\<lparr>au_conns := au_conns s @ [row]\<rparr>))"

text \<open>\<open>ConnStore.Upsert\<close> with the outcomes of its two statements\<close>

definition conn_upsert :: "bool \<Rightarrow> bool \<Rightarrow> oauth_env \<Rightarrow> auth \<Rightarrow> string \<Rightarrow> string \<Rightarrow> string \<Rightarrow> profile \<Rightarrow> oauth_token \<Rightarrow> auth \<times> bool" where
  "conn_upsert ok1 ok2 e s user p purpose f tok =
     (case seal_tokens e tok of
        Inl err \<Rightarrow> (s, False)
      | Inr (a, b) \<Rightarrow>
          (case (if ok1 then conn_upsert_row s
                   \<lparr>gc_id = an_id e, gc_user = user, gc_provider = p, gc_purpose = purpose, gc_account = pf_id f,
                    gc_login = pf_login f, gc_email = pf_email f, gc_token = a, gc_refresh = b,
                    gc_expires = ot_expires tok, gc_created = an_now e\<rparr> else None) of
             None \<Rightarrow> (s, False)
           | Some t \<Rightarrow> link_identity ok2 t user p f))"

definition list_git :: "bool \<Rightarrow> auth \<Rightarrow> string \<Rightarrow> (row_error, conn_row list) res" where
  "list_git ok s user =
     (if \<not> ok then Inl Failed
      else Inr (sort_key gc_provider (filter (\<lambda>r. gc_user r = user \<and> gc_purpose r = ''git'') (au_conns s))))"

definition delete_git :: "bool \<Rightarrow> auth \<Rightarrow> string \<Rightarrow> string \<Rightarrow> auth \<times> bool" where
  "delete_git ok s user p =
     (if \<not> ok then (s, False)
      else (s\<lparr>au_conns := filter (\<lambda>r. \<not> conn_key user p ''git'' r) (au_conns s)\<rparr>, True))"

section \<open>Signing in\<close>

text \<open>\<open>provision\<close>: statement 1 reads the identity; the others follow in order on each path.\<close>

definition provision :: "oauth_env \<Rightarrow> auth \<Rightarrow> string \<Rightarrow> profile \<Rightarrow> auth \<times> (row_error, user) res" where
  "provision e s p f =
     (case user_for_identity (an_ok e 1) s p (pf_id f) of
        Inr i \<Rightarrow> (s, get_by_id (an_ok e 2) s i)
      | Inl _ \<Rightarrow>
          (case get_by_email_with_hash (an_ok e 2) s (pf_email f) of
             Inr (u, h) \<Rightarrow> (fst (link_identity (an_ok e 3) s (us_id u) p f), Inr u)
           | Inl Failed \<Rightarrow> (s, Inl Failed)
           | Inl Missing \<Rightarrow>
               (case upsert_user (an_ok e 3) (an_ok e 4) (an_id e) (an_now e) s (pf_email f) (pf_name f) (oa_default_role e) [] of
                  (t, Inl err) \<Rightarrow> (t, Inl err)
                | (t, Inr u) \<Rightarrow> (fst (link_identity (an_ok e 5) t (us_id u) p f), Inr u))))"

text \<open>\<open>url.Parse\<close> of a target that starts with a slash, so has no scheme: whether it succeeds with an
  empty host. Two slashes and not three open an authority; its host is what follows the last \<open>@\<close>.\<close>

definition ctl_byte :: "char \<Rightarrow> bool" where
  "ctl_byte c \<longleftrightarrow> (of_char c :: nat) < 32 \<or> (of_char c :: nat) = 127"

fun unescapes :: "string \<Rightarrow> bool" where
  "unescapes [] = True"
| "unescapes (c # cs) =
     (if c = CHR ''%''
      then (case cs of a # b # rest \<Rightarrow> hex_val a \<noteq> None \<and> hex_val b \<noteq> None \<and> unescapes rest | _ \<Rightarrow> False)
      else unescapes cs)"

definition userinfo_char :: "char \<Rightarrow> bool" where
  "userinfo_char c \<longleftrightarrow> is_upper c \<or> is_lower c \<or> is_digit c \<or> c \<in> set ''-._:~!$&()*+,;=%@'' \<or> c = CHR 0x27"

definition before :: "char \<Rightarrow> string \<Rightarrow> string" where
  "before c s = (case index_byte s c of None \<Rightarrow> s | Some i \<Rightarrow> take i s)"

definition from_char :: "char \<Rightarrow> string \<Rightarrow> string" where
  "from_char c s = (case index_byte s c of None \<Rightarrow> [] | Some i \<Rightarrow> drop i s)"

definition hostless_authority :: "string \<Rightarrow> bool" where
  "hostless_authority a =
     (case after_last CHR ''@'' a of
        None \<Rightarrow> a = []
      | Some h \<Rightarrow> h = [] \<and> list_all userinfo_char (butlast a) \<and> unescapes (butlast a))"

definition parses_without_host :: "string \<Rightarrow> bool" where
  "parses_without_host raw =
     (let u = before CHR ''#'' raw; frag = drop (Suc (length u)) raw; rest = before CHR ''?'' u
      in \<not> list_ex ctl_byte u \<and> unescapes frag \<and>
         (if has_prefix rest ''//'' \<and> \<not> has_prefix rest ''///''
          then let a = before CHR ''/'' (drop 2 rest)
               in hostless_authority a \<and> unescapes (from_char CHR ''/'' (drop 2 rest))
          else unescapes rest))"

definition looks_safe_redirect :: "string \<Rightarrow> bool" where
  "looks_safe_redirect raw = (case raw of [] \<Rightarrow> False | c # cs \<Rightarrow> c = CHR ''/'' \<and> parses_without_host raw)"

definition cookie_ttl :: int where
  "cookie_ttl = 10 * 60 * one_second"

definition set_cookie :: "oauth_env \<Rightarrow> string \<Rightarrow> string \<Rightarrow> cookie" where
  "set_cookie e name value = Cookie name value (an_now e + cookie_ttl)"

definition github_scopes :: "string \<Rightarrow> string" where
  "github_scopes purpose = (if purpose = ''git'' then ''repo read:user user:email'' else ''read:user user:email'')"

definition gitlab_scopes :: "string \<Rightarrow> string" where
  "gitlab_scopes purpose = (if purpose = ''git'' then ''api read_user read_repository write_repository'' else ''read_user'')"

text \<open>A start answers with the address of the provider and the query parameters it sets there, or with
  a reply of its own.\<close>

type_synonym start_answer = "cookie list \<times> (reply, string \<times> (string \<times> string) list) res"

definition oauth_start :: "oauth_env \<Rightarrow> provider \<Rightarrow> string \<Rightarrow> ctx \<Rightarrow> start_answer" where
  "oauth_start e p scope c =
     (let purpose = (if cx_query c ''purpose'' = ''git'' then ''git'' else ''login''); next_to = cx_query c ''next''
      in if \<not> provider_enabled p then ([], Inl (Refused 404 ''disabled''))
         else if purpose = ''git'' \<and> cx_cookie c cookie_name = [] then ([], Inl (Refused 401 ''unauthenticated''))
         else case oa_random e of
                Inl err \<Rightarrow> ([], Inl (Refused 500 []))
              | Inr state \<Rightarrow>
                  ([set_cookie e ''cc_oauth_state'' state, set_cookie e ''cc_oauth_purpose'' purpose] @
                   (if next_to = [] then [] else [set_cookie e ''cc_oauth_next'' next_to]),
                   Inr (pv_auth_url p, [(''client_id'', pv_client_id p), (''redirect_uri'', pv_redirect p), (''state'', state),
                          (''scope'', scope), (''response_type'', ''code'')])))"

definition start_provider :: "oauth_env \<Rightarrow> auth \<Rightarrow> string \<Rightarrow> ctx \<Rightarrow> start_answer" where
  "start_provider e s name c =
     oauth_start e (resolve_provider (an_ok e 0) e s name)
       (if name = ''gitlab'' then gitlab_scopes (cx_query c ''purpose'') else github_scopes (cx_query c ''purpose'')) c"

definition after_login :: "oauth_env \<Rightarrow> string \<Rightarrow> string" where
  "after_login e next_to =
     (let to = (if looks_safe_redirect next_to then next_to else oa_post_path e)
      in if to = ''/'' then ''/app'' else to)"

definition oauth_signed_in :: "oauth_env \<Rightarrow> auth \<Rightarrow> provider \<Rightarrow> ctx \<Rightarrow> profile \<Rightarrow> auth \<times> cookie list \<times> reply" where
  "oauth_signed_in e s p c f =
     (case provision e s (pv_name p) f of
        (t, Inl err) \<Rightarrow> (t, [], Refused 500 ''provision_failed'')
      | (t, Inr u) \<Rightarrow>
          (t, [session_cookie (auth_env.truncate e) u, clear_cookie ''cc_oauth_next''],
           GoTo (after_login e (cx_cookie c ''cc_oauth_next''))))"

definition git_connected :: "oauth_env \<Rightarrow> auth \<Rightarrow> provider \<Rightarrow> ctx \<Rightarrow> profile \<Rightarrow> oauth_token \<Rightarrow> auth \<times> cookie list \<times> reply" where
  "git_connected e s p c f tok =
     (case parse_cookie (auth_env.truncate e) (cx_cookie c cookie_name) of
        Inl err \<Rightarrow> (s, [], Refused 401 ''unauthenticated'')
      | Inr ss \<Rightarrow>
          (case conn_upsert (an_ok e 1) (an_ok e 2) e s (ss_user ss) (pv_name p) ''git'' f tok of
             (t, False) \<Rightarrow> (t, [], Refused 500 ''save_failed'')
           | (t, True) \<Rightarrow>
               (t, [clear_cookie ''cc_oauth_next''],
                GoTo (if looks_safe_redirect (cx_cookie c ''cc_oauth_next'') then cx_cookie c ''cc_oauth_next''
                      else ''/app/settings''))))"

definition oauth_callback :: "oauth_env \<Rightarrow> auth \<Rightarrow> provider \<Rightarrow> ctx \<Rightarrow> auth \<times> cookie list \<times> reply" where
  "oauth_callback e s p c =
     (let want = cx_cookie c ''cc_oauth_state''
      in if cx_query c ''error'' \<noteq> [] then (s, [], Refused 400 ''oauth_error'')
         else if want = [] \<or> want \<noteq> cx_query c ''state'' then (s, [], Refused 400 ''bad_state'')
         else if cx_query c ''code'' = [] then (s, [], Refused 400 ''missing_code'')
         else case exchange e p (cx_query c ''code'') of
                Inl err \<Rightarrow> (s, [], Refused 401 ''exchange_failed'')
              | Inr tok \<Rightarrow>
                  (case fetch_profile e p (ot_access tok) of
                     Inl err \<Rightarrow> (s, [], Refused 401 ''profile_failed'')
                   | Inr f \<Rightarrow>
                       (case (if cx_cookie c ''cc_oauth_purpose'' = ''git'' then git_connected e s p c f tok
                              else oauth_signed_in e s p c f) of
                          (t, cs, r) \<Rightarrow> (t, [clear_cookie ''cc_oauth_state'', clear_cookie ''cc_oauth_purpose''] @ cs, r))))"

definition callback_provider :: "oauth_env \<Rightarrow> auth \<Rightarrow> string \<Rightarrow> ctx \<Rightarrow> auth \<times> cookie list \<times> reply" where
  "callback_provider e s name c = oauth_callback e s (resolve_provider (an_ok e 0) e s name) c"

section \<open>OpenID Connect\<close>

text \<open>\<open>NewOIDC\<close>: the role for new users, once discovery succeeded\<close>

definition oidc_default_role :: "string \<Rightarrow> (string, string) res" where
  "oidc_default_role r0 =
     (let r = (if r0 = [] then ''viewer'' else r0)
      in if valid_role r then Inr r else Inl ''OIDC_DEFAULT_ROLE must be viewer|operator|admin|owner'')"

definition oidc_start :: "oauth_env \<Rightarrow> ctx \<Rightarrow> cookie list \<times> (reply, string) res" where
  "oidc_start e c =
     (case oa_random e of
        Inl err \<Rightarrow> ([], Inl (Refused 500 []))
      | Inr state \<Rightarrow>
          ([set_cookie e ''cc_oidc_state'' state] @
           (if cx_query c ''next'' = [] then [] else [set_cookie e ''cc_oidc_returned_to'' (cx_query c ''next'')]), Inr state))"

text \<open>Statement 1 reads the user, 2 and 3 create one.\<close>

definition find_or_create :: "oauth_env \<Rightarrow> auth \<Rightarrow> string \<Rightarrow> string \<Rightarrow> auth \<times> (row_error, user) res" where
  "find_or_create e s email name =
     (case get_by_email_with_hash (an_ok e 1) s email of
        Inr (u, h) \<Rightarrow> (s, Inr u)
      | Inl Failed \<Rightarrow> (s, Inl Failed)
      | Inl Missing \<Rightarrow> upsert_user (an_ok e 2) (an_ok e 3) (an_id e) (an_now e) s email (or_else name email) (oa_default_role e) [])"

definition oidc_signed_in :: "oauth_env \<Rightarrow> auth \<Rightarrow> ctx \<Rightarrow> claims \<Rightarrow> auth \<times> cookie list \<times> reply" where
  "oidc_signed_in e s c cl =
     (if cl_email cl = [] then (s, [], Refused 401 ''missing_email'')
      else case find_or_create e s (cl_email cl) (cl_name cl) of
             (t, Inl err) \<Rightarrow> (t, [], Refused 500 ''provision_failed'')
           | (t, Inr u) \<Rightarrow>
               (t, [session_cookie (auth_env.truncate e) u, clear_cookie ''cc_oidc_state'', clear_cookie ''cc_oidc_returned_to''],
                GoTo (if looks_safe_redirect (cx_cookie c ''cc_oidc_returned_to'') then cx_cookie c ''cc_oidc_returned_to''
                      else oa_post_path e)))"

definition oidc_callback :: "oauth_env \<Rightarrow> auth \<Rightarrow> ctx \<Rightarrow> auth \<times> cookie list \<times> reply" where
  "oidc_callback e s c =
     (let want = cx_cookie c ''cc_oidc_state''
      in if cx_query c ''error'' \<noteq> [] then (s, [], Refused 400 ''oidc_error'')
         else if want = [] \<or> want \<noteq> cx_query c ''state'' then (s, [], Refused 400 ''bad_state'')
         else if cx_query c ''code'' = [] then (s, [], Refused 400 ''missing_code'')
         else case oi_exchange e (cx_query c ''code'') of
                Inl err \<Rightarrow> (s, [], Refused 401 ''exchange_failed'')
              | Inr None \<Rightarrow> (s, [], Refused 401 ''no_id_token'')
              | Inr (Some raw) \<Rightarrow>
                  (case oi_claims e raw of
                     Inl err \<Rightarrow> (s, [], Refused 401 ''bad_id_token'')
                   | Inr (Inl err) \<Rightarrow> (s, [], Refused 401 ''bad_claims'')
                   | Inr (Inr cl) \<Rightarrow> oidc_signed_in e s c cl))"

section \<open>The token of a git connection\<close>

record stored_token =
  sk_access :: string
  sk_refresh :: string
  sk_expires :: "int option"

datatype token_error = NoGrant | TokenDb | Unreadable string | Reconnect

definition refresh_skew :: int where
  "refresh_skew = 2 * 60 * one_second"

definition load_git_token :: "bool \<Rightarrow> oauth_env \<Rightarrow> auth \<Rightarrow> string \<Rightarrow> string \<Rightarrow> (token_error, stored_token) res" where
  "load_git_token ok e s user p =
     (if \<not> ok then Inl TokenDb
      else case List.find (conn_key user p ''git'') (au_conns s) of
             None \<Rightarrow> Inl NoGrant
           | Some r \<Rightarrow>
               (case open_blob (oa_box e) (gc_token r) of
                  Inl err \<Rightarrow> Inl (Unreadable err)
                | Inr a \<Rightarrow>
                    if gc_refresh r = [] then Inr \<lparr>sk_access = a, sk_refresh = [], sk_expires = gc_expires r\<rparr>
                    else (case open_blob (oa_box e) (gc_refresh r) of
                            Inl err \<Rightarrow> Inl (Unreadable err)
                          | Inr b \<Rightarrow> Inr \<lparr>sk_access = a, sk_refresh = b, sk_expires = gc_expires r\<rparr>)))"

definition needs_refresh :: "int \<Rightarrow> stored_token \<Rightarrow> bool" where
  "needs_refresh now t =
     (case sk_expires t of None \<Rightarrow> False | Some x \<Rightarrow> sk_refresh t \<noteq> [] \<and> x - refresh_skew \<le> now)"

text \<open>The resolver the router wires is \<open>OAuthSettingsStore.Resolve\<close> with the default of the provider.\<close>

definition refresh_git_token :: "bool \<Rightarrow> oauth_env \<Rightarrow> auth \<Rightarrow> string \<Rightarrow> string \<Rightarrow> (string, oauth_token) res" where
  "refresh_git_token ok e s name refresh =
     (let p = settings_resolve ok (oa_box e) s name (if name = ''gitlab'' then oa_gitlab e else oa_github e)
      in if \<not> provider_enabled p \<or> pv_client_secret p = [] \<or> pv_token_url p = []
         then Inl ''oauth provider is not configured''
         else case checked ''token http '' (oa_post e (pv_token_url p)
                     [(''client_id'', pv_client_id p), (''client_secret'', pv_client_secret p),
                      (''refresh_token'', refresh), (''grant_type'', ''refresh_token'')]) of
                Inl err \<Rightarrow> Inl err | Inr body \<Rightarrow> parse_token_response (an_now e) body)"

definition save_git_tokens :: "bool \<Rightarrow> oauth_env \<Rightarrow> auth \<Rightarrow> string \<Rightarrow> string \<Rightarrow> oauth_token \<Rightarrow> auth \<times> bool" where
  "save_git_tokens ok e s user p tok =
     (case seal_tokens e tok of
        Inl err \<Rightarrow> (s, False)
      | Inr (a, b) \<Rightarrow>
          if \<not> ok \<or> \<not> list_ex (conn_key user p ''git'') (au_conns s) then (s, False)
          else (s\<lparr>au_conns := map (\<lambda>r. if conn_key user p ''git'' r
                                     then r\<lparr>gc_token := a, gc_refresh := b, gc_expires := ot_expires tok\<rparr> else r)
                               (au_conns s)\<rparr>, True))"

text \<open>The call that single flight runs once for all callers that wait: statement 1 reads the row again, 2
  the settings, 3 saves.\<close>

definition refresh_flight :: "oauth_env \<Rightarrow> auth \<Rightarrow> string \<Rightarrow> string \<Rightarrow> auth \<times> (token_error, string) res" where
  "refresh_flight e s user p =
     (case load_git_token (an_ok e 1) e s user p of
        Inl err \<Rightarrow> (s, Inl err)
      | Inr latest \<Rightarrow>
          if \<not> needs_refresh (an_now e) latest then (s, Inr (sk_access latest))
          else (case refresh_git_token (an_ok e 2) e s p (sk_refresh latest) of
                  Inl err \<Rightarrow>
                    (s, (case sk_expires latest of
                           None \<Rightarrow> Inl Reconnect
                         | Some x \<Rightarrow> if an_now e < x then Inr (sk_access latest) else Inl Reconnect))
                | Inr fresh \<Rightarrow>
                    let kept = fresh\<lparr>ot_refresh := or_else (ot_refresh fresh) (sk_refresh latest),
                                     ot_expires := (case ot_expires fresh of None \<Rightarrow> sk_expires latest | Some x \<Rightarrow> Some x)\<rparr>
                    in (fst (save_git_tokens (an_ok e 3) e s user p kept), Inr (ot_access kept))))"

definition git_token :: "oauth_env \<Rightarrow> auth \<Rightarrow> string \<Rightarrow> string \<Rightarrow> auth \<times> (token_error, string) res" where
  "git_token e s user p =
     (case load_git_token (an_ok e 0) e s user p of
        Inl err \<Rightarrow> (s, Inl err)
      | Inr tok \<Rightarrow> if needs_refresh (an_now e) tok then refresh_flight e s user p else (s, Inr (sk_access tok)))"

end
