(* ===== verification/Passkeys.thy ===== *)
theory Passkeys
  imports Auth
begin

text \<open>
  Passkeys, \<open>webauthn.go\<close>, \<open>webauthn_store.go\<close> and \<open>webauthn_handler.go\<close> of
  \<open>control-plane/internal/auth\<close>: the single-use challenges of the three ceremonies (enrolment, login,
  step-up before a privileged change), the credentials, and the step-up that other handlers ask for.
  The WebAuthn library is a parameter: it begins a ceremony with options for the browser and session
  data to keep, parses an answer and validates it. A login without a user name calls back with the
  raw id and the user handle of the answer. The relying party's name and origins, from the public
  URL, are part of it.
\<close>

section \<open>The library\<close>

record wa_credential =
  wc_id :: string
  wc_public_key :: string
  wc_attestation :: string
  wc_transport :: "string list"
  wc_sign_count :: "32 word"
  wc_flags :: string

record wa_user =
  wu_user :: user
  wu_creds :: "wa_credential list"

record webauthn =
  wa_begin_discoverable :: "(string, string) res"
  wa_begin_registration :: "wa_user \<Rightarrow> (string, string) res"
  wa_begin_login :: "wa_user \<Rightarrow> (string, string) res"
  wa_parse_request :: "string \<Rightarrow> (string, string) res"
  wa_parse_creation :: "string \<Rightarrow> (string, string) res"
  wa_passkey_login :: "(string \<Rightarrow> string \<Rightarrow> (string, wa_user) res) \<Rightarrow> string \<Rightarrow> string \<Rightarrow> (string, wa_user \<times> wa_credential) res"
  wa_validate_login :: "wa_user \<Rightarrow> string \<Rightarrow> string \<Rightarrow> (string, wa_credential) res"
  wa_create_credential :: "wa_user \<Rightarrow> string \<Rightarrow> string \<Rightarrow> (string, wa_credential) res"
  wa_marshal :: "wa_credential \<Rightarrow> (string, string) res"
  wa_unmarshal :: "string \<Rightarrow> wa_credential option"
  wa_decode_session :: "string \<Rightarrow> (string, string) res"

record passkey_env = auth_env +
  pk_lib :: webauthn
  pk_challenge_id :: string

definition wa_display_name :: "wa_user \<Rightarrow> string" where
  "wa_display_name w = (if us_name (wu_user w) \<noteq> [] then us_name (wu_user w) else us_email (wu_user w))"

definition normalize_passkey_name :: "string \<Rightarrow> string" where
  "normalize_passkey_name name = (let n = trim_space name in if n = [] then ''Passkey'' else n)"

text \<open>\<open>credFromRow\<close>: the JSON form, or a row that holds the bare key\<close>

definition cred_from_row :: "webauthn \<Rightarrow> cred \<Rightarrow> wa_credential" where
  "cred_from_row w c =
     (case wa_unmarshal w (cr_public_key c) of
        Some k \<Rightarrow> if wc_id k \<noteq> [] \<and> wc_public_key k \<noteq> [] then k\<lparr>wc_sign_count := cr_sign_count c\<rparr>
                  else \<lparr>wc_id = cr_credential_id c, wc_public_key = cr_public_key c, wc_attestation = cr_attestation c,
                        wc_transport = cr_transport c, wc_sign_count = cr_sign_count c, wc_flags = []\<rparr>
      | None \<Rightarrow> \<lparr>wc_id = cr_credential_id c, wc_public_key = cr_public_key c, wc_attestation = cr_attestation c,
                 wc_transport = cr_transport c, wc_sign_count = cr_sign_count c, wc_flags = []\<rparr>)"

definition cred_from_webauthn :: "webauthn \<Rightarrow> string \<Rightarrow> int \<Rightarrow> string \<Rightarrow> string \<Rightarrow> wa_credential \<Rightarrow> (string, cred) res" where
  "cred_from_webauthn w i now user name k =
     (case wa_marshal w k of
        Inl err \<Rightarrow> Inl err
      | Inr blob \<Rightarrow> Inr \<lparr>cr_id = i, cr_user = user, cr_credential_id = wc_id k, cr_public_key = blob,
                       cr_attestation = wc_attestation k, cr_transport = wc_transport k,
                       cr_sign_count = wc_sign_count k, cr_name = normalize_passkey_name name,
                       cr_created = now, cr_last_used = None\<rparr>)"

section \<open>Credentials\<close>

text \<open>Both ids are unique and the user must exist.\<close>

definition insert_credential :: "bool \<Rightarrow> auth \<Rightarrow> cred \<Rightarrow> auth \<times> bool" where
  "insert_credential ok s c =
     (if \<not> ok \<or> list_ex (\<lambda>x. cr_id x = cr_id c \<or> cr_credential_id x = cr_credential_id c) (au_creds s) \<or>
         user_by_id s (cr_user c) = None
      then (s, False) else (s\<lparr>au_creds := au_creds s @ [c]\<rparr>, True))"

text \<open>\<open>ListByUser\<close>: newest first\<close>

definition list_by_user :: "bool \<Rightarrow> auth \<Rightarrow> string \<Rightarrow> (row_error, cred list) res" where
  "list_by_user ok s user =
     (if \<not> ok then Inl Failed
      else Inr (rev (sort_key cr_created (filter (\<lambda>c. cr_user c = user) (au_creds s)))))"

definition has_passkey :: "bool \<Rightarrow> auth \<Rightarrow> string \<Rightarrow> (row_error, bool) res" where
  "has_passkey ok s user = (case list_by_user ok s user of Inl err \<Rightarrow> Inl err | Inr cs \<Rightarrow> Inr (cs \<noteq> []))"

definition get_by_credential_id :: "bool \<Rightarrow> auth \<Rightarrow> string \<Rightarrow> (row_error, cred) res" where
  "get_by_credential_id ok s i =
     (if \<not> ok then Inl Failed
      else case List.find (\<lambda>c. cr_credential_id c = i) (au_creds s) of None \<Rightarrow> Inl Missing | Some c \<Rightarrow> Inr c)"

definition owned :: "string \<Rightarrow> string \<Rightarrow> cred \<Rightarrow> bool" where
  "owned user pk c \<longleftrightarrow> cr_id c = pk \<and> cr_user c = user"

definition delete_credential :: "bool \<Rightarrow> auth \<Rightarrow> string \<Rightarrow> string \<Rightarrow> auth \<times> (row_error, unit) res" where
  "delete_credential ok s user pk =
     (if \<not> ok then (s, Inl Failed)
      else if \<not> list_ex (owned user pk) (au_creds s) then (s, Inl Missing)
      else (s\<lparr>au_creds := filter (\<lambda>c. \<not> owned user pk c) (au_creds s)\<rparr>, Inr ()))"

definition update_name :: "bool \<Rightarrow> auth \<Rightarrow> string \<Rightarrow> string \<Rightarrow> string \<Rightarrow> auth \<times> (row_error, cred) res" where
  "update_name ok s user pk name =
     (if \<not> ok then (s, Inl Failed)
      else case List.find (owned user pk) (au_creds s) of
             None \<Rightarrow> (s, Inl Missing)
           | Some c \<Rightarrow>
               (s\<lparr>au_creds := map (\<lambda>x. if owned user pk x then x\<lparr>cr_name := normalize_passkey_name name\<rparr> else x) (au_creds s)\<rparr>,
                Inr (c\<lparr>cr_name := normalize_passkey_name name\<rparr>)))"

definition update_sign_count :: "bool \<Rightarrow> int \<Rightarrow> auth \<Rightarrow> string \<Rightarrow> 32 word \<Rightarrow> auth" where
  "update_sign_count ok now s pk n =
     (if \<not> ok then s
      else s\<lparr>au_creds := map (\<lambda>x. if cr_id x = pk then x\<lparr>cr_sign_count := n, cr_last_used := Some now\<rparr> else x) (au_creds s)\<rparr>)"

section \<open>Challenges\<close>

text \<open>\<open>PutChallenge\<close>: the id is the primary key.\<close>

definition put_challenge :: "bool \<Rightarrow> auth \<Rightarrow> string \<Rightarrow> challenge \<Rightarrow> auth \<times> bool" where
  "put_challenge ok s i ch =
     (if \<not> ok \<or> au_challenges s i \<noteq> None \<or> (case ch_user ch of None \<Rightarrow> False | Some u \<Rightarrow> user_by_id s u = None)
      then (s, False) else (s\<lparr>au_challenges := (au_challenges s)(i \<mapsto> ch)\<rparr>, True))"

datatype challenge_error = NoChallenge | Expired | ChallengeDb | WrongPurpose | WrongUser | PasskeyRequired | Invalid string

text \<open>\<open>TakeChallenge\<close> deletes the row that it returns.\<close>

definition take_challenge :: "bool \<Rightarrow> auth \<Rightarrow> string \<Rightarrow> auth \<times> (challenge_error, challenge) res" where
  "take_challenge ok s i =
     (if \<not> ok then (s, Inl ChallengeDb)
      else case au_challenges s i of
             None \<Rightarrow> (s, Inl NoChallenge)
           | Some ch \<Rightarrow> (s\<lparr>au_challenges := (au_challenges s)(i := None)\<rparr>, Inr ch))"

definition reject_expired_challenge :: "int \<Rightarrow> challenge \<Rightarrow> challenge_error option" where
  "reject_expired_challenge now ch = (if now < ch_expires ch then None else Some Expired)"

definition take_live_challenge :: "bool \<Rightarrow> int \<Rightarrow> auth \<Rightarrow> string \<Rightarrow> auth \<times> (challenge_error, challenge) res" where
  "take_live_challenge ok now s i =
     (case take_challenge ok s i of
        (t, Inl err) \<Rightarrow> (t, Inl err)
      | (t, Inr ch) \<Rightarrow> (t, (case reject_expired_challenge now ch of Some err \<Rightarrow> Inl err | None \<Rightarrow> Inr ch)))"

definition assert_step_up_challenge :: "challenge \<Rightarrow> string \<Rightarrow> challenge_error option" where
  "assert_step_up_challenge ch user =
     (if ch_purpose ch \<noteq> ''step_up'' then Some WrongPurpose
      else if ch_user ch \<noteq> Some user then Some WrongUser else None)"

definition challenge_ttl :: int where
  "challenge_ttl = 5 * 60 * one_second"

definition step_up_ttl :: int where
  "step_up_ttl = 2 * 60 * one_second"

text \<open>\<open>putSession\<close> with the outcome of its statement\<close>

definition put_session :: "bool \<Rightarrow> passkey_env \<Rightarrow> auth \<Rightarrow> string option \<Rightarrow> string \<Rightarrow> string \<Rightarrow> auth \<times> cookie list \<times> reply" where
  "put_session ok e s user purpose blob =
     (let exp = an_now e + (if purpose = ''step_up'' then step_up_ttl else challenge_ttl)
      in case put_challenge ok s (pk_challenge_id e)
                \<lparr>ch_user = user, ch_purpose = purpose, ch_blob = blob, ch_expires = exp\<rparr> of
           (t, False) \<Rightarrow> (t, [], Refused 500 ''challenge_failed'')
         | (t, True) \<Rightarrow> (t, [Cookie ''cc_webauthn'' (pk_challenge_id e) exp], Begun (pk_challenge_id e)))"

definition challenge_err :: "challenge_error \<Rightarrow> reply" where
  "challenge_err err =
     (case err of Expired \<Rightarrow> Refused 401 ''challenge_expired'' | NoChallenge \<Rightarrow> Refused 401 ''bad_challenge''
      | _ \<Rightarrow> Refused 500 ''challenge_failed'')"

definition load_user :: "bool \<Rightarrow> passkey_env \<Rightarrow> auth \<Rightarrow> user \<Rightarrow> (row_error, wa_user) res" where
  "load_user ok e s u =
     (case list_by_user ok s (us_id u) of
        Inl err \<Rightarrow> Inl err
      | Inr cs \<Rightarrow> Inr \<lparr>wu_user = u, wu_creds = map (cred_from_row (pk_lib e)) cs\<rparr>)"

text \<open>\<open>touchCredential\<close> with the outcomes of its two statements; the caller only logs its error.\<close>

definition touch_credential :: "bool \<Rightarrow> bool \<Rightarrow> passkey_env \<Rightarrow> auth \<Rightarrow> wa_credential \<Rightarrow> auth" where
  "touch_credential ok1 ok2 e s k =
     (case get_by_credential_id ok1 s (wc_id k) of
        Inl err \<Rightarrow> s | Inr c \<Rightarrow> update_sign_count ok2 (an_now e) s (cr_id c) (wc_sign_count k))"

text \<open>\<open>parseFinish\<close>: the challenge id from the body or its cookie; the credential from the body's field,
  or the whole body.\<close>

record finish_body =
  fb_challenge_id :: string
  fb_name :: string
  fb_credential :: string
  fb_raw :: string

definition parse_finish :: "ctx \<Rightarrow> finish_body \<Rightarrow> (string, string \<times> string) res" where
  "parse_finish c b =
     (let i = (if fb_challenge_id b = [] then cx_cookie c ''cc_webauthn'' else fb_challenge_id b);
          k = (if fb_credential b = [] \<or> fb_credential b = ''null'' then fb_raw b else fb_credential b)
      in if i = [] then Inl ''missing challenge_id'' else if k = [] then Inl ''missing credential'' else Inr (i, k))"

section \<open>The ceremonies\<close>

definition login_begin :: "passkey_env \<Rightarrow> auth \<Rightarrow> auth \<times> cookie list \<times> reply" where
  "login_begin e s =
     (case wa_begin_discoverable (pk_lib e) of
        Inl err \<Rightarrow> (s, [], Refused 500 ''webauthn_failed'')
      | Inr blob \<Rightarrow> put_session (an_ok e 0) e s None ''login'' blob)"

text \<open>\<open>discoverUser\<close>: statements 1 to 3\<close>

definition discover_user :: "passkey_env \<Rightarrow> auth \<Rightarrow> string \<Rightarrow> string \<Rightarrow> (string, wa_user) res" where
  "discover_user e s raw_id handle =
     (case get_by_credential_id (an_ok e 1) s raw_id of
        Inl err \<Rightarrow> Inl ''lookup failed''
      | Inr c \<Rightarrow>
          if handle \<noteq> [] \<and> handle \<noteq> cr_user c then Inl ''user handle mismatch''
          else (case get_by_id (an_ok e 2) s (cr_user c) of
                  Inl err \<Rightarrow> Inl ''lookup failed''
                | Inr u \<Rightarrow> (case load_user (an_ok e 3) e s u of Inl err \<Rightarrow> Inl ''lookup failed'' | Inr w \<Rightarrow> Inr w)))"

definition login_finish :: "passkey_env \<Rightarrow> auth \<Rightarrow> ctx \<Rightarrow> finish_body \<Rightarrow> auth \<times> cookie list \<times> reply" where
  "login_finish e s c b =
     (case parse_finish c b of
        Inl err \<Rightarrow> (s, [], Refused 400 ''bad_request'')
      | Inr (i, k) \<Rightarrow>
          (case take_live_challenge (an_ok e 0) (an_now e) s i of
             (t, Inl err) \<Rightarrow> (t, [], challenge_err err)
           | (t, Inr ch) \<Rightarrow>
               if ch_purpose ch \<noteq> ''login'' then (t, [], Refused 400 ''bad_challenge'')
               else (case wa_decode_session (pk_lib e) (ch_blob ch) of
                       Inl err \<Rightarrow> (t, [], Refused 500 ''challenge_failed'')
                     | Inr session \<Rightarrow>
                         (case wa_parse_request (pk_lib e) k of
                            Inl err \<Rightarrow> (t, [], Refused 401 ''invalid_assertion'')
                          | Inr parsed \<Rightarrow>
                              (case wa_passkey_login (pk_lib e) (discover_user e t) session parsed of
                                 Inl err \<Rightarrow> (t, [], Refused 401 ''invalid_assertion'')
                               | Inr (w, credential) \<Rightarrow>
                                   (touch_credential (an_ok e 4) (an_ok e 5) e t credential,
                                    [clear_cookie ''cc_webauthn'', session_cookie (auth_env.truncate e) (wu_user w)],
                                    SignedIn (wu_user w)))))))"

definition register_begin :: "passkey_env \<Rightarrow> auth \<Rightarrow> ctx \<Rightarrow> auth \<times> cookie list \<times> reply" where
  "register_begin e s c =
     (case get_by_id (an_ok e 0) s (current_user_id c) of
        Inl err \<Rightarrow> (s, [], Refused 401 ''unauthenticated'')
      | Inr u \<Rightarrow>
          (case load_user (an_ok e 1) e s u of
             Inl err \<Rightarrow> (s, [], Refused 500 ''list_failed'')
           | Inr w \<Rightarrow> (case wa_begin_registration (pk_lib e) w of
                        Inl err \<Rightarrow> (s, [], Refused 500 ''webauthn_failed'')
                      | Inr blob \<Rightarrow> put_session (an_ok e 2) e s (Some (us_id u)) ''enroll'' blob)))"

text \<open>What follows a live challenge of the enrolment: the user of the request, statements 1 and 2, and the
  library; 3 inserts.\<close>

definition enroll_with :: "passkey_env \<Rightarrow> auth \<Rightarrow> string \<Rightarrow> challenge \<Rightarrow> string \<Rightarrow> string \<Rightarrow> auth \<times> cookie list \<times> reply" where
  "enroll_with e t user ch name k =
     (case get_by_id (an_ok e 1) t user of
        Inl err \<Rightarrow> (t, [], Refused 401 ''unauthenticated'')
      | Inr u \<Rightarrow>
          (case load_user (an_ok e 2) e t u of
             Inl err \<Rightarrow> (t, [], Refused 500 ''list_failed'')
           | Inr w \<Rightarrow>
               (case wa_decode_session (pk_lib e) (ch_blob ch) of
                  Inl err \<Rightarrow> (t, [], Refused 500 ''challenge_failed'')
                | Inr session \<Rightarrow>
                    (case wa_parse_creation (pk_lib e) k of
                       Inl err \<Rightarrow> (t, [], Refused 400 ''invalid_attestation'')
                     | Inr parsed \<Rightarrow>
                         (case wa_create_credential (pk_lib e) w session parsed of
                            Inl err \<Rightarrow> (t, [], Refused 401 ''invalid_attestation'')
                          | Inr credential \<Rightarrow>
                              (case cred_from_webauthn (pk_lib e) (an_id e) (an_now e) (us_id u) name credential of
                                 Inl err \<Rightarrow> (t, [], Refused 500 ''encode_failed'')
                               | Inr row \<Rightarrow>
                                   (case insert_credential (an_ok e 3) t row of
                                      (t', False) \<Rightarrow> (t', [], Refused 500 ''insert_failed'')
                                    | (t', True) \<Rightarrow> (t', [clear_cookie ''cc_webauthn''], Passkey row))))))))"

definition register_finish :: "passkey_env \<Rightarrow> auth \<Rightarrow> ctx \<Rightarrow> finish_body \<Rightarrow> auth \<times> cookie list \<times> reply" where
  "register_finish e s c b =
     (case parse_finish c b of
        Inl err \<Rightarrow> (s, [], Refused 400 ''bad_request'')
      | Inr (i, k) \<Rightarrow>
          (case take_live_challenge (an_ok e 0) (an_now e) s i of
             (t, Inl err) \<Rightarrow> (t, [], challenge_err err)
           | (t, Inr ch) \<Rightarrow>
               if ch_purpose ch \<noteq> ''enroll'' then (t, [], Refused 400 ''bad_challenge'')
               else if ch_user ch \<noteq> Some (current_user_id c) then (t, [], Refused 403 ''forbidden'')
               else enroll_with e t (current_user_id c) ch (fb_name b) k))"

definition list_passkeys :: "passkey_env \<Rightarrow> auth \<Rightarrow> ctx \<Rightarrow> reply" where
  "list_passkeys e s c =
     (case list_by_user (an_ok e 0) s (current_user_id c) of
        Inl err \<Rightarrow> Refused 500 ''list_failed'' | Inr cs \<Rightarrow> Passkeys cs)"

definition rename_passkey :: "passkey_env \<Rightarrow> auth \<Rightarrow> ctx \<Rightarrow> string \<Rightarrow> (string, string) res \<Rightarrow> auth \<times> reply" where
  "rename_passkey e s c pk body =
     (case body of
        Inl err \<Rightarrow> (s, Refused 400 ''bad_request'')
      | Inr name \<Rightarrow>
          (case update_name (an_ok e 0) s (current_user_id c) pk name of
             (t, Inl Missing) \<Rightarrow> (t, Refused 404 ''not_found'')
           | (t, Inl Failed) \<Rightarrow> (t, Refused 500 ''rename_failed'')
           | (t, Inr row) \<Rightarrow> (t, Passkey row)))"

definition delete_passkey :: "passkey_env \<Rightarrow> auth \<Rightarrow> ctx \<Rightarrow> string \<Rightarrow> auth \<times> reply" where
  "delete_passkey e s c pk =
     (case delete_credential (an_ok e 0) s (current_user_id c) pk of
        (t, Inl Missing) \<Rightarrow> (t, Refused 404 ''not_found'')
      | (t, Inl Failed) \<Rightarrow> (t, Refused 500 ''delete_failed'')
      | (t, Inr _) \<Rightarrow> (t, Done 204))"

section \<open>Step-up\<close>

definition step_up_begin :: "passkey_env \<Rightarrow> auth \<Rightarrow> ctx \<Rightarrow> auth \<times> cookie list \<times> reply" where
  "step_up_begin e s c =
     (case get_by_id (an_ok e 0) s (current_user_id c) of
        Inl err \<Rightarrow> (s, [], Refused 401 ''unauthenticated'')
      | Inr u \<Rightarrow>
          (case has_passkey (an_ok e 1) s (us_id u) of
             Inl err \<Rightarrow> (s, [], Refused 500 ''list_failed'')
           | Inr False \<Rightarrow> (s, [], Refused 403 ''passkey_required'')
           | Inr True \<Rightarrow>
               (case load_user (an_ok e 2) e s u of
                  Inl err \<Rightarrow> (s, [], Refused 500 ''list_failed'')
                | Inr w \<Rightarrow> (case wa_begin_login (pk_lib e) w of
                             Inl err \<Rightarrow> (s, [], Refused 500 ''webauthn_failed'')
                           | Inr blob \<Rightarrow> put_session (an_ok e 3) e s (Some (us_id u)) ''step_up'' blob))))"

text \<open>\<open>VerifyStepUp\<close>: the handlers of privileged changes call it and go on when it returns no error.\<close>

definition step_up_with :: "passkey_env \<Rightarrow> auth \<Rightarrow> string \<Rightarrow> challenge \<Rightarrow> string \<Rightarrow> auth \<times> challenge_error option" where
  "step_up_with e t user ch assertion =
     (case wa_decode_session (pk_lib e) (ch_blob ch) of
        Inl err \<Rightarrow> (t, Some (Invalid err))
      | Inr session \<Rightarrow>
          (case wa_parse_request (pk_lib e) assertion of
             Inl err \<Rightarrow> (t, Some (Invalid err))
           | Inr parsed \<Rightarrow>
               (case get_by_id (an_ok e 1) t user of
                  Inl err \<Rightarrow> (t, Some (Invalid ''user''))
                | Inr u \<Rightarrow>
                    (case load_user (an_ok e 2) e t u of
                       Inl err \<Rightarrow> (t, Some (Invalid ''list''))
                     | Inr w \<Rightarrow>
                         if wu_creds w = [] then (t, Some PasskeyRequired)
                         else (case wa_validate_login (pk_lib e) w session parsed of
                                 Inl err \<Rightarrow> (t, Some (Invalid err))
                               | Inr credential \<Rightarrow> (touch_credential (an_ok e 3) (an_ok e 4) e t credential, None))))))"

definition verify_step_up :: "passkey_env \<Rightarrow> auth \<Rightarrow> string \<Rightarrow> string \<Rightarrow> string \<Rightarrow> auth \<times> challenge_error option" where
  "verify_step_up e s user i assertion =
     (case take_live_challenge (an_ok e 0) (an_now e) s i of
        (t, Inl err) \<Rightarrow> (t, Some err)
      | (t, Inr ch) \<Rightarrow>
          (case assert_step_up_challenge ch user of
             Some err \<Rightarrow> (t, Some err) | None \<Rightarrow> step_up_with e t user ch assertion))"

text \<open>\<open>DisabledStepUp\<close>: what is wired when no relying party can be derived from the public URL\<close>

definition disabled_step_up :: "string \<Rightarrow> string \<Rightarrow> string \<Rightarrow> challenge_error option" where
  "disabled_step_up user i assertion = Some PasskeyRequired"

end
