(* ===== verification/AuthFacts.thy ===== *)
theory AuthFacts
  imports OAuth Passkeys Contracts
begin

text \<open>
  What the sign-in of the control plane guarantees, over any sequence of its requests: the tables stay
  well formed, an identity is attached only to a request of somebody who signed in, a challenge that
  was begun is accepted at most once, a step-up needs a challenge of its own user. And two ways in
  which the code falls short of its comments: an email address is trusted unverified, and a redirect
  may leave the site.
\<close>

section \<open>Requests\<close>

text \<open>The requests that \<open>router.go\<close> routes to the handlers and the calls of other packages. Handlers of
  the authenticated group run behind \<open>RequireAuth\<close>, whose statement comes first.\<close>

datatype auth_op =
    SeedAdmin auth_env "(string, string) res" string string
  | PasswordLogin auth_env "(string, string \<times> string) res"
  | OAuthCallback oauth_env string ctx
  | OidcCallback oauth_env ctx
  | PasskeyLoginBegin passkey_env
  | PasskeyLogin passkey_env ctx finish_body
  | EnrollBegin passkey_env ctx
  | EnrollFinish passkey_env ctx finish_body
  | RenamePasskey passkey_env ctx string "(string, string) res"
  | DeletePasskey passkey_env ctx string
  | StepUpBegin passkey_env ctx
  | StepUpCheck passkey_env string string string
  | PutSettings oauth_env ctx string "(string, settings_input) res"
  | ClearSettings oauth_env ctx string
  | GitTokenFor oauth_env string string
  | DeleteGit oauth_env string string

type_synonym outcome = "auth \<times> cookie list \<times> reply"

definition silently_done :: "auth \<times> reply \<Rightarrow> outcome" where
  "silently_done r = (fst r, [], snd r)"

definition behind :: "auth_env \<Rightarrow> string \<Rightarrow> auth \<Rightarrow> ctx \<Rightarrow> (ctx \<Rightarrow> outcome) \<Rightarrow> outcome" where
  "behind e least s c f = (case guarded e s least c of Inl (cs, r) \<Rightarrow> (s, cs, r) | Inr c' \<Rightarrow> f c')"

definition later :: "('a auth_env_scheme) \<Rightarrow> nat \<Rightarrow> bool" where
  "later e n = an_ok e (Suc n)"

fun auth_step :: "auth_op \<Rightarrow> auth \<Rightarrow> outcome" where
  "auth_step (SeedAdmin e hashed email pw) s = (fst (seed_admin e hashed s email pw), [], Done 200)"
| "auth_step (PasswordLogin e body) s = (s, login e s body)"
| "auth_step (OAuthCallback e name c) s = callback_provider e s name c"
| "auth_step (OidcCallback e c) s = oidc_callback e s c"
| "auth_step (PasskeyLoginBegin e) s = login_begin e s"
| "auth_step (PasskeyLogin e c b) s = login_finish e s c b"
| "auth_step (EnrollBegin e c) s = behind (auth_env.truncate e) [] s c (register_begin (e\<lparr>an_ok := later e\<rparr>) s)"
| "auth_step (EnrollFinish e c b) s = behind (auth_env.truncate e) [] s c (\<lambda>c'. register_finish (e\<lparr>an_ok := later e\<rparr>) s c' b)"
| "auth_step (RenamePasskey e c pk body) s =
     behind (auth_env.truncate e) [] s c (\<lambda>c'. silently_done (rename_passkey (e\<lparr>an_ok := later e\<rparr>) s c' pk body))"
| "auth_step (DeletePasskey e c pk) s = behind (auth_env.truncate e) [] s c (\<lambda>c'. silently_done (delete_passkey (e\<lparr>an_ok := later e\<rparr>) s c' pk))"
| "auth_step (StepUpBegin e c) s = behind (auth_env.truncate e) [] s c (step_up_begin (e\<lparr>an_ok := later e\<rparr>) s)"
| "auth_step (StepUpCheck e user i assertion) s =
     (case verify_step_up e s user i assertion of
        (t, None) \<Rightarrow> (t, [], Done 200) | (t, Some err) \<Rightarrow> (t, [], Refused 403 ''step_up''))"
| "auth_step (PutSettings e c p body) s =
     behind (auth_env.truncate e) ''admin'' s c (\<lambda>c'. silently_done (settings_put_handler (e\<lparr>an_ok := later e\<rparr>) s p body))"
| "auth_step (ClearSettings e c p) s =
     behind (auth_env.truncate e) ''admin'' s c (\<lambda>c'. silently_done (settings_clear_handler (e\<lparr>an_ok := later e\<rparr>) s p))"
| "auth_step (GitTokenFor e user p) s = (fst (git_token e s user p), [], Done 200)"
| "auth_step (DeleteGit e user p) s = (fst (delete_git (an_ok e 0) s user p), [], Done 200)"

abbreviation auth_trace :: "auth_op list \<Rightarrow> auth \<Rightarrow> (auth \<times> auth_op \<times> cookie list \<times> reply) list" where
  "auth_trace \<equiv> traced auth_step"

abbreviation auth_after :: "auth_op list \<Rightarrow> auth \<Rightarrow> auth" where
  "auth_after \<equiv> ends_in auth_step"

section \<open>The tables stay well formed\<close>

definition known :: "auth \<Rightarrow> string \<Rightarrow> bool" where
  "known s i \<longleftrightarrow> user_by_id s i \<noteq> None"

definition users_ok :: "auth \<Rightarrow> bool" where
  "users_ok s \<longleftrightarrow> distinct (map (us_id \<circ> ur_user) (au_users s)) \<and> distinct (map (us_email \<circ> ur_user) (au_users s)) \<and>
     (\<forall>r \<in> set (au_users s). valid_role (us_role (ur_user r)))"

definition identities_ok :: "auth \<Rightarrow> bool" where
  "identities_ok s \<longleftrightarrow> distinct (map (\<lambda>r. (id_provider r, id_account r)) (au_identities s)) \<and>
     (\<forall>r \<in> set (au_identities s). known s (id_user r))"

definition conns_ok :: "auth \<Rightarrow> bool" where
  "conns_ok s \<longleftrightarrow> distinct (map gc_id (au_conns s)) \<and>
     distinct (map (\<lambda>r. (gc_user r, gc_provider r, gc_purpose r)) (au_conns s)) \<and> (\<forall>r \<in> set (au_conns s). known s (gc_user r))"

definition creds_ok :: "auth \<Rightarrow> bool" where
  "creds_ok s \<longleftrightarrow> distinct (map cr_id (au_creds s)) \<and> distinct (map cr_credential_id (au_creds s)) \<and>
     (\<forall>c \<in> set (au_creds s). known s (cr_user c))"

definition challenges_ok :: "auth \<Rightarrow> bool" where
  "challenges_ok s \<longleftrightarrow> (\<forall>i ch u. au_challenges s i = Some ch \<longrightarrow> ch_user ch = Some u \<longrightarrow> known s u)"

definition settings_ok :: "auth \<Rightarrow> bool" where
  "settings_ok s \<longleftrightarrow> dom (au_settings s) \<subseteq> {''github'', ''gitlab''}"

definition auth_ok :: "auth \<Rightarrow> bool" where
  "auth_ok s \<longleftrightarrow> users_ok s \<and> identities_ok s \<and> conns_ok s \<and> creds_ok s \<and> challenges_ok s \<and> settings_ok s"

text \<open>The role that new users get is checked at start-up only where OpenID is configured.\<close>

fun roles_checked :: "auth_op \<Rightarrow> bool" where
  "roles_checked (OAuthCallback e name c) = valid_role (oa_default_role e)"
| "roles_checked (OidcCallback e c) = valid_role (oa_default_role e)"
| "roles_checked op = True"

lemma find_None: "List.find P xs = None \<longleftrightarrow> (\<forall>x \<in> set xs. \<not> P x)"
  by (auto simp: find_None_iff)

lemma known_iff: "known s i \<longleftrightarrow> (\<exists>r \<in> set (au_users s). us_id (ur_user r) = i)"
  by (auto simp: known_def user_by_id_def find_None)

lemma email_known: "user_by_email s m = None \<longleftrightarrow> m \<notin> (us_email \<circ> ur_user) ` set (au_users s)"
  by (auto simp: user_by_email_def find_None)

text \<open>A change of the users that keeps the ids keeps what refers to them.\<close>

lemma auth_ok_users:
  assumes "auth_ok s" and "users_ok t" and "\<And>i. known s i \<Longrightarrow> known t i"
    and "au_identities t = au_identities s" "au_conns t = au_conns s" "au_creds t = au_creds s"
    "au_challenges t = au_challenges s" "au_settings t = au_settings s"
  shows "auth_ok t"
  using assms by (auto simp: auth_ok_def identities_ok_def conns_ok_def creds_ok_def challenges_ok_def settings_ok_def)

lemma known_same: "au_users t = au_users s \<Longrightarrow> known t = known s"
  by (auto simp: known_iff fun_eq_iff)

lemma distinct_map_keep:
  assumes "distinct (map k xs)" and "\<And>x. x \<in> set xs \<Longrightarrow> k (g x) = k x"
  shows "distinct (map k (map g xs))"
proof -
  have "map k (map g xs) = map k xs" using assms(2) by simp
  then show ?thesis using assms(1) by (simp only:)
qed

lemma upsert_row_ok:
  assumes a: "auth_ok s" and u: "upsert_row s i now email name role hash = Some t" and v: "valid_role role"
  shows "auth_ok t"
proof (cases "user_by_email s email = None")
  case True
  have uo: "users_ok s" using a by (simp add: auth_ok_def)
  have t: "t = s\<lparr>au_users := au_users s @ [\<lparr>ur_user = \<lparr>us_id = i, us_email = email, us_name = name, us_role = role,
      us_created = now\<rparr>, ur_hash = hash\<rparr>]\<rparr>" and "\<not> known s i"
    using True u by (auto simp: upsert_row_def known_def split: if_splits)
  then have "users_ok t" using uo True v by (auto simp: users_ok_def email_known known_iff)
  then show ?thesis by (rule auth_ok_users[OF a]) (auto simp: t known_iff)
next
  case False
  have uo: "users_ok s" using a by (simp add: auth_ok_def)
  define g :: "user_row \<Rightarrow> user_row" where "g = (\<lambda>r. if us_email (ur_user r) = email
    then r\<lparr>ur_user := (ur_user r)\<lparr>us_name := name, us_role := role\<rparr>, ur_hash := hash\<rparr> else r)"
  have t: "t = s\<lparr>au_users := map g (au_users s)\<rparr>" using False u by (auto simp: upsert_row_def g_def)
  have keep: "us_id (ur_user (g r)) = us_id (ur_user r)" "us_email (ur_user (g r)) = us_email (ur_user r)" for r
    by (simp_all add: g_def)
  have "valid_role (us_role (ur_user (g r)))" if "r \<in> set (au_users s)" for r
    using uo that v by (auto simp: users_ok_def g_def)
  then have "users_ok t" using uo by (auto simp: users_ok_def t comp_def keep)
  then show ?thesis by (rule auth_ok_users[OF a]) (auto simp: t known_iff keep)
qed

lemma upsert_user_ok:
  "auth_ok s \<Longrightarrow> valid_role role \<Longrightarrow> auth_ok (fst (upsert_user ok1 ok2 i now s email name role hash))"
  by (auto simp: upsert_user_def upsert_row_ok split: option.splits)

text \<open>One table at a time\<close>

lemma auth_ok_identities:
  assumes "auth_ok s" and "distinct (map (\<lambda>r. (id_provider r, id_account r)) rs)" and "\<forall>r \<in> set rs. known s (id_user r)"
  shows "auth_ok (s\<lparr>au_identities := rs\<rparr>)"
  using assms by (auto simp: auth_ok_def users_ok_def identities_ok_def conns_ok_def creds_ok_def challenges_ok_def
      settings_ok_def known_iff)

lemma auth_ok_conns:
  assumes "auth_ok s" and "distinct (map gc_id rs)" and "distinct (map (\<lambda>r. (gc_user r, gc_provider r, gc_purpose r)) rs)"
    and "\<forall>r \<in> set rs. known s (gc_user r)"
  shows "auth_ok (s\<lparr>au_conns := rs\<rparr>)"
  using assms by (auto simp: auth_ok_def users_ok_def identities_ok_def conns_ok_def creds_ok_def challenges_ok_def
      settings_ok_def known_iff)

lemma auth_ok_creds:
  assumes "auth_ok s" and "distinct (map cr_id cs)" and "distinct (map cr_credential_id cs)"
    and "\<forall>c \<in> set cs. known s (cr_user c)"
  shows "auth_ok (s\<lparr>au_creds := cs\<rparr>)"
  using assms by (auto simp: auth_ok_def users_ok_def identities_ok_def conns_ok_def creds_ok_def challenges_ok_def
      settings_ok_def known_iff)

lemma auth_ok_challenges:
  assumes "auth_ok s" and "\<And>i ch u. m i = Some ch \<Longrightarrow> ch_user ch = Some u \<Longrightarrow> known s u"
  shows "auth_ok (s\<lparr>au_challenges := m\<rparr>)"
  using assms by (auto simp: auth_ok_def users_ok_def identities_ok_def conns_ok_def creds_ok_def challenges_ok_def
      settings_ok_def known_iff)

lemma auth_ok_settings:
  assumes "auth_ok s" and "dom m \<subseteq> {''github'', ''gitlab''}"
  shows "auth_ok (s\<lparr>au_settings := m\<rparr>)"
  using assms by (auto simp: auth_ok_def users_ok_def identities_ok_def conns_ok_def creds_ok_def challenges_ok_def
      settings_ok_def known_iff)

lemma link_identity_ok:
  assumes a: "auth_ok s"
  shows "auth_ok (fst (link_identity ok s u p f))"
proof (cases "\<not> ok \<or> user_by_id s u = None")
  case True
  then show ?thesis using a by (simp add: link_identity_def)
next
  case False
  define row where "row = \<lparr>id_provider = p, id_account = pf_id f, id_user = u, id_login = pf_login f, id_email = pf_email f\<rparr>"
  define g where "g = (\<lambda>r. if id_provider r = p \<and> id_account r = pf_id f then row else r)"
  have io: "distinct (map (\<lambda>r. (id_provider r, id_account r)) (au_identities s))"
    "\<forall>r \<in> set (au_identities s). known s (id_user r)" using a by (auto simp: auth_ok_def identities_ok_def)
  have k: "known s (id_user row)" using False by (simp add: known_def row_def)
  show ?thesis
  proof (cases "identity_of s p (pf_id f) = None")
    case True
    have eq: "fst (link_identity ok s u p f) = s\<lparr>au_identities := au_identities s @ [row]\<rparr>"
      using False True by (simp add: link_identity_def row_def)
    show ?thesis
      unfolding eq by (rule auth_ok_identities[OF a])
        (use io k True in \<open>auto simp: identity_of_def find_None row_def\<close>)
  next
    case other: False
    have eq: "fst (link_identity ok s u p f) = s\<lparr>au_identities := map g (au_identities s)\<rparr>"
      using False other by (auto simp: link_identity_def row_def[symmetric] g_def Let_def)
    show ?thesis
      unfolding eq
    proof (rule auth_ok_identities[OF a])
      show "distinct (map (\<lambda>r. (id_provider r, id_account r)) (map g (au_identities s)))"
        by (rule distinct_map_keep[OF io(1)]) (simp add: g_def row_def)
      show "\<forall>r \<in> set (map g (au_identities s)). known s (id_user r)" using io(2) k by (auto simp: g_def)
    qed
  qed
qed

lemma conn_upsert_row_ok:
  assumes a: "auth_ok s" and u: "conn_upsert_row s row = Some t"
  shows "auth_ok t"
proof -
  have co: "distinct (map gc_id (au_conns s))" "distinct (map (\<lambda>r. (gc_user r, gc_provider r, gc_purpose r)) (au_conns s))"
    "\<forall>r \<in> set (au_conns s). known s (gc_user r)" using a by (auto simp: auth_ok_def conns_ok_def)
  have k: "known s (gc_user row)" using u by (auto simp: conn_upsert_row_def known_def split: if_splits)
  define key where "key = conn_key (gc_user row) (gc_provider row) (gc_purpose row)"
  define g where "g = (\<lambda>r. if key r then row\<lparr>gc_id := gc_id r, gc_created := gc_created r\<rparr> else r)"
  show ?thesis
  proof (cases "list_ex key (au_conns s)")
    case True
    then have t: "t = s\<lparr>au_conns := map g (au_conns s)\<rparr>"
      using u by (auto simp: conn_upsert_row_def key_def[symmetric] g_def split: if_splits)
    show ?thesis
      unfolding t
    proof (rule auth_ok_conns[OF a])
      show "distinct (map gc_id (map g (au_conns s)))" by (rule distinct_map_keep[OF co(1)]) (simp add: g_def)
      show "distinct (map (\<lambda>r. (gc_user r, gc_provider r, gc_purpose r)) (map g (au_conns s)))"
        by (rule distinct_map_keep[OF co(2)]) (auto simp: g_def key_def conn_key_def)
      show "\<forall>r \<in> set (map g (au_conns s)). known s (gc_user r)" using co(3) k by (auto simp: g_def)
    qed
  next
    case False
    then have t: "t = s\<lparr>au_conns := au_conns s @ [row]\<rparr>" and n: "\<not> list_ex (\<lambda>r. gc_id r = gc_id row) (au_conns s)"
      using u by (auto simp: conn_upsert_row_def key_def[symmetric] split: if_splits)
    show ?thesis
      unfolding t by (rule auth_ok_conns[OF a])
        (use co k n False in \<open>auto simp: key_def conn_key_def list_ex_iff\<close>)
  qed
qed

lemma conn_upsert_ok: "auth_ok s \<Longrightarrow> auth_ok (fst (conn_upsert ok1 ok2 e s u p purpose f tok))"
  by (auto simp: conn_upsert_def link_identity_ok conn_upsert_row_ok split: sum.splits option.splits if_splits)

lemma auth_ok_conn:
  assumes "auth_ok s"
  shows "distinct (map gc_id (au_conns s))" "distinct (map (\<lambda>r. (gc_user r, gc_provider r, gc_purpose r)) (au_conns s))"
    "r \<in> set (au_conns s) \<Longrightarrow> known s (gc_user r)"
  using assms by (auto simp: auth_ok_def conns_ok_def)

lemma auth_ok_cred:
  assumes "auth_ok s"
  shows "distinct (map cr_id (au_creds s))" "distinct (map cr_credential_id (au_creds s))"
    "c \<in> set (au_creds s) \<Longrightarrow> known s (cr_user c)"
  using assms by (auto simp: auth_ok_def creds_ok_def)

lemma auth_ok_challenge: "auth_ok s \<Longrightarrow> au_challenges s i = Some ch \<Longrightarrow> ch_user ch = Some u \<Longrightarrow> known s u"
  by (auto simp: auth_ok_def challenges_ok_def)

lemma auth_ok_setting: "auth_ok s \<Longrightarrow> au_settings s p = Some row \<Longrightarrow> p \<noteq> ''github'' \<Longrightarrow> p = ''gitlab''"
  by (auto simp: auth_ok_def settings_ok_def)

lemma conns_map_ok:
  assumes a: "auth_ok s" and g: "\<And>r. gc_id (g r) = gc_id r" "\<And>r. gc_user (g r) = gc_user r"
    "\<And>r. gc_provider (g r) = gc_provider r" "\<And>r. gc_purpose (g r) = gc_purpose r"
  shows "auth_ok (s\<lparr>au_conns := map g (au_conns s)\<rparr>)"
  by (rule auth_ok_conns[OF a])
    (use auth_ok_conn[OF a] in \<open>auto simp: g comp_def\<close>)

lemma save_git_tokens_ok: "auth_ok s \<Longrightarrow> auth_ok (fst (save_git_tokens ok e s u p tok))"
  by (auto simp: save_git_tokens_def intro!: conns_map_ok split: sum.splits)

lemma git_token_ok: "auth_ok s \<Longrightarrow> auth_ok (fst (git_token e s u p))"
  by (auto simp: git_token_def refresh_flight_def Let_def save_git_tokens_ok split: sum.splits option.splits)

lemma delete_git_ok: "auth_ok s \<Longrightarrow> auth_ok (fst (delete_git ok s u p))"
  by (auto simp: delete_git_def auth_ok_conn intro!: auth_ok_conns distinct_map_filter)

lemma settings_put_ok: "auth_ok s \<Longrightarrow> auth_ok (fst (settings_put e s p inp))"
  by (auto simp: settings_put_def Let_def intro!: auth_ok_settings dest: auth_ok_setting split: option.splits if_splits)

lemma settings_clear_ok: "auth_ok s \<Longrightarrow> auth_ok (fst (settings_clear ok s p))"
  by (auto simp: settings_clear_def intro!: auth_ok_settings dest: auth_ok_setting split: if_splits)

lemma creds_map_ok:
  assumes a: "auth_ok s" and g: "\<And>r. cr_id (g r) = cr_id r" "\<And>r. cr_credential_id (g r) = cr_credential_id r"
    "\<And>r. cr_user (g r) = cr_user r"
  shows "auth_ok (s\<lparr>au_creds := map g (au_creds s)\<rparr>)"
  by (rule auth_ok_creds[OF a]) (use auth_ok_cred[OF a] in \<open>auto simp: g comp_def\<close>)

lemma touch_credential_ok: "auth_ok s \<Longrightarrow> auth_ok (touch_credential ok1 ok2 e s k)"
  by (auto simp: touch_credential_def update_sign_count_def intro!: creds_map_ok split: sum.splits)

lemma update_name_ok: "auth_ok s \<Longrightarrow> auth_ok (fst (update_name ok s u pk name))"
  by (auto simp: update_name_def intro!: creds_map_ok split: option.splits)

lemma delete_credential_ok: "auth_ok s \<Longrightarrow> auth_ok (fst (delete_credential ok s u pk))"
  by (auto simp: delete_credential_def auth_ok_cred intro!: auth_ok_creds distinct_map_filter)

lemma insert_credential_ok:
  assumes a: "auth_ok s"
  shows "auth_ok (fst (insert_credential ok s c))"
proof (cases "snd (insert_credential ok s c)")
  case True
  then have n: "\<forall>x \<in> set (au_creds s). cr_id c \<noteq> cr_id x \<and> cr_credential_id c \<noteq> cr_credential_id x"
    and k: "known s (cr_user c)" and eq: "fst (insert_credential ok s c) = s\<lparr>au_creds := au_creds s @ [c]\<rparr>"
    by (auto simp: insert_credential_def list_ex_iff known_def split: if_splits)
  show ?thesis unfolding eq by (rule auth_ok_creds[OF a]) (use auth_ok_cred[OF a] n k in \<open>auto simp: image_iff\<close>)
next
  case False
  then show ?thesis using a by (auto simp: insert_credential_def split: if_splits)
qed

lemma put_challenge_ok: "auth_ok s \<Longrightarrow> auth_ok (fst (put_challenge ok s i ch))"
  by (auto simp: put_challenge_def known_def[of s] intro!: auth_ok_challenges dest: auth_ok_challenge
      split: if_splits option.splits)

lemma take_live_challenge_ok: "auth_ok s \<Longrightarrow> auth_ok (fst (take_live_challenge ok now s i))"
  by (auto simp: take_live_challenge_def take_challenge_def intro!: auth_ok_challenges dest: auth_ok_challenge
      split: if_splits option.splits)

text \<open>The handlers, from their statements\<close>

lemmas keeps_ok = upsert_user_ok link_identity_ok conn_upsert_ok save_git_tokens_ok settings_put_ok settings_clear_ok
  touch_credential_ok update_name_ok delete_credential_ok insert_credential_ok put_challenge_ok take_live_challenge_ok

lemma keeps_fst: "f = (t, r) \<Longrightarrow> auth_ok (fst f) \<Longrightarrow> auth_ok t"
  by simp

lemma provision_ok: "auth_ok s \<Longrightarrow> valid_role (oa_default_role e) \<Longrightarrow> auth_ok (fst (provision e s p f))"
  by (auto simp: provision_def link_identity_ok intro: keeps_fst[OF _ upsert_user_ok]
      split: sum.splits row_error.splits prod.splits)
    (auto intro!: link_identity_ok intro: keeps_fst[OF _ upsert_user_ok])

lemma oauth_callback_ok:
  assumes "auth_ok s" and "valid_role (oa_default_role e)"
  shows "auth_ok (fst (oauth_callback e s p c))"
proof -
  have "auth_ok (fst (oauth_signed_in e s p c f))" for f
    using provision_ok[OF assms, of "pv_name p" f] by (auto simp: oauth_signed_in_def split: sum.splits prod.splits)
  moreover have "auth_ok (fst (git_connected e s p c f tok))" for f tok
    using assms(1) by (auto simp: git_connected_def intro: keeps_fst[OF _ conn_upsert_ok] split: sum.splits prod.splits bool.splits)
  ultimately show ?thesis
    using assms(1) by (auto simp: oauth_callback_def Let_def intro: keeps_fst split: sum.splits prod.splits)
qed

lemma oidc_callback_ok:
  assumes "auth_ok s" and "valid_role (oa_default_role e)"
  shows "auth_ok (fst (oidc_callback e s c))"
proof -
  have "auth_ok (fst (find_or_create e s m n))" for m n
    using assms by (auto simp: find_or_create_def intro!: upsert_user_ok split: sum.splits row_error.splits)
  then have "auth_ok (fst (oidc_signed_in e s c cl))" for cl
    using assms(1) by (auto simp: oidc_signed_in_def intro: keeps_fst split: sum.splits prod.splits)
  then show ?thesis
    using assms(1) by (auto simp: oidc_callback_def Let_def split: sum.splits option.splits)
qed

lemma put_session_ok: "auth_ok s \<Longrightarrow> auth_ok (fst (put_session ok e s u purpose blob))"
  by (auto simp: put_session_def Let_def intro: keeps_fst[OF _ put_challenge_ok] split: prod.splits bool.splits)

lemma login_finish_ok: "auth_ok s \<Longrightarrow> auth_ok (fst (login_finish e s c b))"
  by (auto simp: login_finish_def intro!: touch_credential_ok intro: keeps_fst[OF _ take_live_challenge_ok]
      split: sum.splits prod.splits)

lemma enroll_with_ok: "auth_ok s \<Longrightarrow> auth_ok (fst (enroll_with e s u ch name k))"
  by (auto simp: enroll_with_def intro: keeps_fst[OF _ insert_credential_ok] split: sum.splits prod.splits bool.splits)

lemma register_finish_ok: "auth_ok s \<Longrightarrow> auth_ok (fst (register_finish e s c b))"
  by (auto simp: register_finish_def intro!: enroll_with_ok intro: keeps_fst[OF _ take_live_challenge_ok]
      split: sum.splits prod.splits)

lemma step_up_with_ok: "auth_ok s \<Longrightarrow> auth_ok (fst (step_up_with e s u ch a))"
  by (auto simp: step_up_with_def intro!: touch_credential_ok split: sum.splits)

lemma verify_step_up_ok: "auth_ok s \<Longrightarrow> auth_ok (fst (verify_step_up e s u i a))"
  by (auto simp: verify_step_up_def intro!: step_up_with_ok intro: keeps_fst[OF _ take_live_challenge_ok]
      split: sum.splits prod.splits option.splits)

lemma behind_ok: "auth_ok s \<Longrightarrow> (\<And>c'. auth_ok (fst (f c'))) \<Longrightarrow> auth_ok (fst (behind e least s c f))"
  by (auto simp: behind_def split: sum.splits)

lemma auth_step_ok: "auth_ok s \<Longrightarrow> roles_checked op \<Longrightarrow> auth_ok (fst (auth_step op s))"
proof (cases op)
  case (SeedAdmin e hashed m pw)
  assume "auth_ok s"
  then show ?thesis
    by (auto simp: SeedAdmin seed_admin_def valid_role_def intro: keeps_fst[OF _ upsert_user_ok] split: sum.splits prod.splits)
qed (auto simp: callback_provider_def login_begin_def register_begin_def step_up_begin_def silently_done_def rename_passkey_def
    delete_passkey_def settings_put_handler_def settings_clear_handler_def git_token_ok delete_git_ok
    intro!: behind_ok oauth_callback_ok oidc_callback_ok put_session_ok login_finish_ok register_finish_ok
    intro: keeps_fst[OF _ verify_step_up_ok] keeps_fst[OF _ update_name_ok] keeps_fst[OF _ delete_credential_ok]
      keeps_fst[OF _ settings_put_ok] keeps_fst[OF _ settings_clear_ok]
    split: sum.splits prod.splits option.splits row_error.splits bool.splits)

section \<open>Who is signed in\<close>

text \<open>The environment of a request that may set the session cookie\<close>

fun op_env :: "auth_op \<Rightarrow> auth_env" where
  "op_env (SeedAdmin e hashed email pw) = e"
| "op_env (PasswordLogin e body) = e"
| "op_env (OAuthCallback e name c) = auth_env.truncate e"
| "op_env (OidcCallback e c) = auth_env.truncate e"
| "op_env (PasskeyLoginBegin e) = auth_env.truncate e"
| "op_env (PasskeyLogin e c b) = auth_env.truncate e"
| "op_env (EnrollBegin e c) = auth_env.truncate e"
| "op_env (EnrollFinish e c b) = auth_env.truncate e"
| "op_env (RenamePasskey e c pk body) = auth_env.truncate e"
| "op_env (DeletePasskey e c pk) = auth_env.truncate e"
| "op_env (StepUpBegin e c) = auth_env.truncate e"
| "op_env (StepUpCheck e user i assertion) = auth_env.truncate e"
| "op_env (PutSettings e c p body) = auth_env.truncate e"
| "op_env (ClearSettings e c p) = auth_env.truncate e"
| "op_env (GitTokenFor e user p) = auth_env.truncate e"
| "op_env (DeleteGit e user p) = auth_env.truncate e"

text \<open>Whether a request shows who its sender is: a password that matches, an account of a provider that is
  linked to the user or has the user's email, a verified token with the user's email, or an answer that
  the library validates against a live login challenge.\<close>

definition shows_state :: "ctx \<Rightarrow> string \<Rightarrow> bool" where
  "shows_state c name \<longleftrightarrow> cx_cookie c name \<noteq> [] \<and> cx_cookie c name = cx_query c ''state''"

definition linked :: "auth \<Rightarrow> string \<Rightarrow> string \<Rightarrow> user \<Rightarrow> bool" where
  "linked s p account u = (case identity_of s p account of None \<Rightarrow> False | Some r \<Rightarrow> id_user r = us_id u)"

fun signed_in :: "auth_op \<Rightarrow> auth \<Rightarrow> user \<Rightarrow> bool" where
  "signed_in (PasswordLogin e body) s u =
     (case body of
        Inl err \<Rightarrow> False
      | Inr (email, pw) \<Rightarrow> (case user_by_email s email of
                              None \<Rightarrow> False
                            | Some r \<Rightarrow> ur_user r = u \<and> ur_hash r \<noteq> [] \<and> an_verify e (ur_hash r) pw))"
| "signed_in (OAuthCallback e name c) s u =
     (let p = resolve_provider (an_ok e 0) e s name
      in shows_state c ''cc_oauth_state'' \<and>
         (case exchange e p (cx_query c ''code'') of
            Inl err \<Rightarrow> False
          | Inr tok \<Rightarrow> (case fetch_profile e p (ot_access tok) of
                         Inl err \<Rightarrow> False
                       | Inr f \<Rightarrow> linked s (pv_name p) (pf_id f) u \<or> us_email u = pf_email f)))"
| "signed_in (OidcCallback e c) s u =
     (shows_state c ''cc_oidc_state'' \<and>
      (case oi_exchange e (cx_query c ''code'') of
         Inr (Some raw) \<Rightarrow> (case oi_claims e raw of Inr (Inr cl) \<Rightarrow> us_email u = cl_email cl | _ \<Rightarrow> False)
       | _ \<Rightarrow> False))"
| "signed_in (PasskeyLogin e c b) s u =
     (case parse_finish c b of
        Inl err \<Rightarrow> False
      | Inr (i, k) \<Rightarrow>
          (case au_challenges s i of
             None \<Rightarrow> False
           | Some ch \<Rightarrow> ch_purpose ch = ''login'' \<and> an_now e < ch_expires ch \<and>
               (case (wa_decode_session (pk_lib e) (ch_blob ch), wa_parse_request (pk_lib e) k) of
                  (Inr session, Inr parsed) \<Rightarrow>
                    (case wa_passkey_login (pk_lib e)
                            (discover_user e (s\<lparr>au_challenges := (au_challenges s)(i := None)\<rparr>)) session parsed of
                       Inl err \<Rightarrow> False | Inr (w, credential) \<Rightarrow> wu_user w = u)
                | _ \<Rightarrow> False)))"
| "signed_in op s u = False"

definition session_value :: "auth_env \<Rightarrow> user \<Rightarrow> string" where
  "session_value e u = sign_session (an_mac e) \<lparr>ss_user = us_id u, ss_expires = (an_now e + session_ttl) div one_second\<rparr>"

definition sets_session :: "string \<Rightarrow> cookie list \<Rightarrow> bool" where
  "sets_session v cs = list_ex (\<lambda>k. case k of Cookie name w x \<Rightarrow> name = cookie_name \<and> w = v) cs"

lemma sets_session_simps [simp]:
  "\<not> sets_session v []"
  "sets_session v (Cookie name w x # cs) \<longleftrightarrow> name = cookie_name \<and> w = v \<or> sets_session v cs"
  "sets_session v (clear_cookie name # cs) \<longleftrightarrow> name = cookie_name \<and> v = [] \<or> sets_session v cs"
  "sets_session v (session_cookie e u # cs) \<longleftrightarrow> v = session_value e u \<or> sets_session v cs"
  "sets_session v (clear_session # cs) \<longleftrightarrow> v = [] \<or> sets_session v cs"
  by (auto simp: sets_session_def clear_cookie_def clear_session_def session_cookie_def session_value_def Let_def)

lemma found_email: "user_by_email s m = Some r \<Longrightarrow> us_email (ur_user r) = m"
  by (auto simp: user_by_email_def find_Some_iff)

lemma found_id: "user_by_id s i = Some r \<Longrightarrow> us_id (ur_user r) = i"
  by (auto simp: user_by_id_def find_Some_iff)

lemma got_email: "get_by_email_with_hash ok s m = Inr (u, h) \<Longrightarrow> us_email u = m"
  by (auto simp: get_by_email_with_hash_def dest: found_email split: if_splits option.splits)

lemma got_id: "get_by_id ok s i = Inr u \<Longrightarrow> us_id u = i"
  by (auto simp: get_by_id_def dest: found_id split: if_splits option.splits)

lemma upserted_email: "upsert_user ok1 ok2 i now s m n role h = (t, Inr u) \<Longrightarrow> us_email u = m"
proof -
  assume "upsert_user ok1 ok2 i now s m n role h = (t, Inr u)"
  then have "map_sum id fst (get_by_email_with_hash ok2 t m) = Inr u"
    by (auto simp: upsert_user_def split: if_splits option.splits)
  then obtain k where "get_by_email_with_hash ok2 t m = Inr (u, k)"
    by (cases "get_by_email_with_hash ok2 t m") auto
  then show ?thesis by (rule got_email)
qed

lemma provision_shows:
  assumes "snd (provision e s p f) = Inr u"
  shows "linked s p (pf_id f) u \<or> us_email u = pf_email f"
  using assms
  by (auto simp: provision_def user_for_identity_def linked_def dest: got_email got_id upserted_email
      split: sum.splits row_error.splits prod.splits option.splits if_splits)

lemma found_or_created: "snd (find_or_create e s m n) = Inr u \<Longrightarrow> us_email u = m"
  by (cases "find_or_create e s m n")
    (auto simp: find_or_create_def dest: got_email upserted_email split: sum.splits row_error.splits)

text \<open>Only such a request is answered with a session, and it is a session of that user.\<close>

lemma oauth_callback_sets:
  assumes "sets_session v (fst (snd (oauth_callback e s p c)))" and "v \<noteq> []"
  shows "\<exists>u tok f. shows_state c ''cc_oauth_state'' \<and> exchange e p (cx_query c ''code'') = Inr tok \<and>
    fetch_profile e p (ot_access tok) = Inr f \<and> (linked s (pv_name p) (pf_id f) u \<or> us_email u = pf_email f) \<and>
    v = session_value (auth_env.truncate e) u"
proof -
  have git: "\<not> sets_session v (fst (snd (git_connected e s p c f tok)))" for f tok
    using assms(2) by (auto simp: git_connected_def split: sum.splits prod.splits bool.splits)
  have sign: "\<exists>u. (linked s (pv_name p) (pf_id f) u \<or> us_email u = pf_email f) \<and> v = session_value (auth_env.truncate e) u"
    if "sets_session v (fst (snd (oauth_signed_in e s p c f)))" for f
    using that assms(2) provision_shows[of e s "pv_name p" f]
    by (auto simp: oauth_signed_in_def split: sum.splits prod.splits)
  show ?thesis
    using assms git sign
    by (auto simp: oauth_callback_def shows_state_def Let_def split: if_splits sum.splits prod.splits)
      (metis fst_conv snd_conv)+
qed

lemma oidc_callback_sets:
  assumes "sets_session v (fst (snd (oidc_callback e s c)))" and "v \<noteq> []"
  shows "\<exists>u. signed_in (OidcCallback e c) s u \<and> v = session_value (auth_env.truncate e) u"
proof -
  have "\<exists>u. us_email u = cl_email cl \<and> v = session_value (auth_env.truncate e) u"
    if "sets_session v (fst (snd (oidc_signed_in e s c cl)))" for cl
    using that assms(2) found_or_created[of e s "cl_email cl" "cl_name cl"]
    by (auto simp: oidc_signed_in_def split: if_splits sum.splits prod.splits)
  then show ?thesis
    using assms by (auto simp: oidc_callback_def shows_state_def Let_def split: if_splits sum.splits option.splits)
qed

lemma put_session_sets: "v \<noteq> [] \<Longrightarrow> \<not> sets_session v (fst (snd (put_session ok e s u p blob)))"
  by (auto simp: put_session_def Let_def cookie_name_def split: prod.splits bool.splits)

lemma behind_sets:
  "v \<noteq> [] \<Longrightarrow> (\<And>c'. \<not> sets_session v (fst (snd (f c')))) \<Longrightarrow> \<not> sets_session v (fst (snd (behind e least s c f)))"
  by (auto simp: behind_def guarded_def require_auth_def require_role_def refuse_session_def Let_def
      split: sum.splits if_splits)

lemma enroll_sets: "v \<noteq> [] \<Longrightarrow> \<not> sets_session v (fst (snd (register_finish e s c b)))"
  by (auto simp: register_finish_def enroll_with_def split: sum.splits prod.splits bool.splits)

lemma passkey_login_sets:
  assumes "sets_session v (fst (snd (login_finish e s c b)))" and "v \<noteq> []"
  shows "\<exists>u. signed_in (PasskeyLogin e c b) s u \<and> v = session_value (auth_env.truncate e) u"
  using assms
  by (auto simp: login_finish_def take_live_challenge_def take_challenge_def reject_expired_challenge_def cookie_name_def
      split: sum.splits prod.splits if_splits option.splits)

lemma password_login_sets:
  assumes "sets_session v (fst (login e s body))"
  obtains email pw r where "body = Inr (email, pw)" and "user_by_email s email = Some r" and "ur_hash r \<noteq> []"
    and "an_verify e (ur_hash r) pw" and "v = session_value e (ur_user r)"
  using assms
  by (auto simp: login_def issue_session_def get_by_email_with_hash_def split: sum.splits if_splits option.splits)

lemma session_needs_sign_in:
  assumes "sets_session v (fst (snd (auth_step op s)))" and "v \<noteq> []"
  shows "\<exists>u. signed_in op s u \<and> v = session_value (op_env op) u"
proof (cases op)
  case (PasswordLogin e body)
  then have "sets_session v (fst (login e s body))" using assms(1) by simp
  then obtain email pw r where "body = Inr (email, pw)" "user_by_email s email = Some r" "ur_hash r \<noteq> []"
    "an_verify e (ur_hash r) pw" "v = session_value e (ur_user r)" by (rule password_login_sets)
  then show ?thesis using PasswordLogin by (intro exI[of _ "ur_user r"]) simp
next
  case (OAuthCallback e name c)
  then show ?thesis
    using oauth_callback_sets[of v e s "resolve_provider (an_ok e 0) e s name" c] assms
    by (auto simp: callback_provider_def Let_def)
next
  case (OidcCallback e c)
  then show ?thesis using oidc_callback_sets[of v e s c] assms by auto
next
  case (PasskeyLogin e c b)
  then show ?thesis using passkey_login_sets[of v e s c b] assms by auto
next
  case (EnrollBegin e c)
  then show ?thesis using assms behind_sets[of v "register_begin (e\<lparr>an_ok := later e\<rparr>) s"]
    by (auto simp: register_begin_def put_session_sets split: sum.splits)
next
  case (StepUpBegin e c)
  then show ?thesis using assms behind_sets[of v "step_up_begin (e\<lparr>an_ok := later e\<rparr>) s"]
    by (auto simp: step_up_begin_def put_session_sets split: sum.splits bool.splits)
next
  case (StepUpCheck e user i assertion)
  then show ?thesis using assms by (auto split: prod.splits option.splits)
qed (use assms behind_sets[of v] in \<open>auto simp: login_begin_def put_session_sets enroll_sets silently_done_def split: sum.splits\<close>)

text \<open>The tag of a cookie, the part behind its first dot\<close>

definition tag_of :: "string \<Rightarrow> string option" where
  "tag_of v = map_option snd (split_two CHR ''.'' v)"

lemma tag_session_value:
  "split_two CHR ''.'' (session_value e u) =
     Some (b64_encode (session_payload \<lparr>ss_user = us_id u, ss_expires = (an_now e + session_ttl) div one_second\<rparr>),
           hmac_base64 (an_mac e) (session_payload \<lparr>ss_user = us_id u, ss_expires = (an_now e + session_ttl) div one_second\<rparr>))"
proof -
  have "CHR ''.'' \<notin> set (b64_encode t)" for t using b64_encode_chars[of "CHR ''.''" t] by auto
  then show ?thesis by (simp add: session_value_def sign_session_def split_two_append)
qed

lemma require_auth_accepts:
  assumes "require_auth e s c = Inr c'"
  obtains ss row where "parse_cookie e (cx_cookie c cookie_name) = Inr ss" and "user_by_id s (ss_user ss) = Some row"
    and "c' = attach_identity (ss_user ss) (us_role (ur_user row)) c"
  using assms
  by (auto simp: require_auth_def get_by_id_def Let_def split: if_splits sum.splits option.splits) (metis found_id)


section \<open>Challenges\<close>

text \<open>The requests that begin a ceremony and those that complete one with a given challenge\<close>

fun accepts :: "string \<Rightarrow> auth \<times> auth_op \<times> cookie list \<times> reply \<Rightarrow> bool" where
  "accepts i (s, PasskeyLogin e c b, cs, SignedIn u) = (map_sum id fst (parse_finish c b) = Inr i)"
| "accepts i (s, EnrollFinish e c b, cs, Passkey row) = (map_sum id fst (parse_finish c b) = Inr i)"
| "accepts i (s, StepUpCheck e user j a, cs, Done n) = (i = j)"
| "accepts i _ = False"

fun begins :: "string \<Rightarrow> auth \<times> auth_op \<times> cookie list \<times> reply \<Rightarrow> bool" where
  "begins i (s, op, cs, Begun j) = (i = j)"
| "begins i _ = False"

definition waiting :: "auth \<Rightarrow> string \<Rightarrow> nat" where
  "waiting s i = (if au_challenges s i = None then 0 else 1)"

lemma waiting_cong: "au_challenges t = au_challenges s \<Longrightarrow> waiting t = waiting s"
  by (simp add: waiting_def fun_eq_iff)

lemma same_challenges [simp]:
  "au_challenges (fst (upsert_user ok1 ok2 j now s m n role h)) = au_challenges s"
  "au_challenges (fst (link_identity ok s u p f)) = au_challenges s"
  "au_challenges (fst (save_git_tokens ok e2 s u p tok)) = au_challenges s"
  "au_challenges (fst (settings_put e2 s p inp)) = au_challenges s"
  "au_challenges (fst (settings_clear ok s p)) = au_challenges s"
  "au_challenges (fst (delete_git ok s u p)) = au_challenges s"
  "au_challenges (fst (update_name ok s u pk name)) = au_challenges s"
  "au_challenges (fst (delete_credential ok s u pk)) = au_challenges s"
  "au_challenges (fst (insert_credential ok s cr)) = au_challenges s"
  "au_challenges (touch_credential ok1 ok2 e s k) = au_challenges s"
  by (auto simp: upsert_user_def upsert_row_def link_identity_def save_git_tokens_def settings_put_def settings_clear_def
      delete_git_def update_name_def delete_credential_def insert_credential_def touch_credential_def update_sign_count_def
      Let_def split: option.splits sum.splits)

lemma same_fst: "f = (t, r) \<Longrightarrow> au_challenges (fst f) = au_challenges s \<Longrightarrow> au_challenges t = au_challenges s"
  by simp

lemma same_challenges_conn [simp]: "au_challenges (fst (conn_upsert ok1 ok2 e s u p purpose f tok)) = au_challenges s"
  by (auto simp: conn_upsert_def conn_upsert_row_def split: sum.splits option.splits if_splits)

lemma same_challenges_provision [simp]: "au_challenges (fst (provision e s p f)) = au_challenges s"
  by (auto simp: provision_def intro: same_fst[OF _ same_challenges(1)] split: sum.splits row_error.splits prod.splits)

lemma same_challenges_oauth [simp]: "au_challenges (fst (oauth_callback e s p c)) = au_challenges s"
  by (auto simp: oauth_callback_def oauth_signed_in_def git_connected_def Let_def
      intro: same_fst[OF _ same_challenges_provision] same_fst[OF _ same_challenges_conn]
      split: sum.splits prod.splits bool.splits if_splits)

lemma same_challenges_oidc [simp]: "au_challenges (fst (oidc_callback e s c)) = au_challenges s"
  by (auto simp: oidc_callback_def oidc_signed_in_def find_or_create_def Let_def
      intro: same_fst[OF _ same_challenges(1)]
      split: sum.splits prod.splits option.splits row_error.splits if_splits)

lemma same_challenges_seed [simp]: "au_challenges (fst (seed_admin e hashed s m pw)) = au_challenges s"
  by (auto simp: seed_admin_def intro: same_fst[OF _ same_challenges(1)] split: sum.splits prod.splits)

text \<open>Where a challenge comes from and where it goes\<close>

lemma put_session_waiting:
  "put_session ok e s u p blob = (t, cs, r) \<Longrightarrow>
     waiting t i = waiting s i + (if r = Begun i then 1 else 0) \<and> (\<forall>x. r \<noteq> SignedIn x) \<and> (\<forall>x. r \<noteq> Passkey x)"
  by (auto simp: put_session_def put_challenge_def waiting_def Let_def split: if_splits option.splits)

lemma taken_waiting:
  "take_live_challenge ok now s i = (t, r) \<Longrightarrow> waiting t j \<le> waiting s j"
  "take_live_challenge ok now s i = (t, Inr ch) \<Longrightarrow> waiting t i = 0 \<and> waiting s i = 1"
  by (auto simp: take_live_challenge_def take_challenge_def waiting_def split: if_splits option.splits)

definition balance :: "string \<Rightarrow> auth_op \<Rightarrow> auth \<Rightarrow> outcome \<Rightarrow> bool" where
  "balance i op s out \<longleftrightarrow>
     of_bool (accepts i (s, op, snd out)) + waiting (fst out) i \<le> of_bool (begins i (s, op, snd out)) + waiting s i"

lemma balance_behind:
  assumes "\<And>c'. cx_cookie c' = cx_cookie c \<Longrightarrow> balance i op s (f c')" and "\<And>cs n code. \<not> accepts i (s, op, cs, Refused n code)"
  shows "balance i op s (behind e least s c f)"
proof (cases "guarded e s least c")
  case (Inl a)
  then obtain cs n code where "a = (cs, Refused n code)"
    by (auto simp: guarded_def require_auth_def require_role_def refuse_session_def Let_def split: sum.splits if_splits)
  then show ?thesis using assms(2) Inl by (simp add: behind_def balance_def)
next
  case (Inr c')
  then have "cx_cookie c' = cx_cookie c"
    by (auto simp: guarded_def require_auth_def require_role_def attach_identity_def Let_def split: sum.splits if_splits)
  then show ?thesis using assms(1) Inr by (simp add: behind_def)
qed

lemma balance_put:
  "(\<And>cs j. \<not> accepts i (s, op, cs, Begun j)) \<Longrightarrow> (\<And>cs n code. \<not> accepts i (s, op, cs, Refused n code)) \<Longrightarrow>
     balance i op s (put_session ok e s u p blob)"
  by (auto simp: put_session_def put_challenge_def balance_def waiting_def Let_def)

lemma balance_still:
  "au_challenges (fst out) = au_challenges s \<Longrightarrow> \<not> accepts i (s, op, snd out) \<Longrightarrow> balance i op s out"
  by (simp add: balance_def waiting_def)

lemma balance_login: "balance i (PasskeyLogin e c b) s (login_finish e s c b)"
proof (cases "parse_finish c b")
  case (Inr jk)
  obtain j k where jk: "jk = (j, k)" by (cases jk)
  obtain t r where t: "take_live_challenge (an_ok e 0) (an_now e) s j = (t, r)" by (cases "take_live_challenge (an_ok e 0) (an_now e) s j")
  note w = taken_waiting(1)[OF t, of i]
  show ?thesis
  proof (cases r)
    case (Inl err)
    then show ?thesis using w by (simp add: balance_def login_finish_def Inr jk t challenge_err_def split: challenge_error.split)
  next
    case ch: (Inr ch)
    have "waiting t j = 0" "waiting s j = 1" using taken_waiting(2)[of _ _ s j t ch] t ch by auto
    then show ?thesis
      using w
      by (auto simp: balance_def login_finish_def Inr jk t ch waiting_cong[OF same_challenges(10)] split: sum.splits prod.splits)
  qed
qed (simp add: balance_def login_finish_def)

lemma balance_enroll:
  assumes c: "cx_cookie c' = cx_cookie c"
  shows "balance i (EnrollFinish e0 c b) s (register_finish e s c' b)"
proof (cases "parse_finish c' b")
  case (Inr jk)
  obtain j k where jk: "jk = (j, k)" by (cases jk)
  have same: "parse_finish c b = parse_finish c' b" by (simp add: parse_finish_def c)
  obtain t r where t: "take_live_challenge (an_ok e 0) (an_now e) s j = (t, r)" by (cases "take_live_challenge (an_ok e 0) (an_now e) s j")
  note w = taken_waiting(1)[OF t, of i]
  show ?thesis
  proof (cases r)
    case (Inl err)
    then show ?thesis using w by (simp add: balance_def register_finish_def Inr jk t challenge_err_def split: challenge_error.split)
  next
    case ch: (Inr ch)
    have wj: "waiting t j = 0" "waiting s j = 1" using taken_waiting(2)[of _ _ s j t ch] t ch by auto
    have "waiting (fst (enroll_with e t u ch n k)) i = waiting t i" for u n
      by (auto simp: enroll_with_def waiting_def split: sum.splits prod.splits bool.splits
          intro: same_fst[OF _ same_challenges(9)] dest!: same_fst[OF _ same_challenges(9)])
    moreover have "\<not> begins i (s, EnrollFinish e0 c b, snd (enroll_with e t u ch n k))" for u n
      by (auto simp: enroll_with_def split: sum.splits prod.splits bool.splits)
    ultimately show ?thesis
      using w wj
      by (auto simp: balance_def register_finish_def Inr jk t ch same of_bool_def elim!: accepts.elims)
  qed
qed (simp add: balance_def register_finish_def)

lemma balance_step_up:
  "balance i (StepUpCheck e u j a) s (auth_step (StepUpCheck e u j a) s)"
proof -
  obtain t r where t: "take_live_challenge (an_ok e 0) (an_now e) s j = (t, r)" by (cases "take_live_challenge (an_ok e 0) (an_now e) s j")
  note w = taken_waiting(1)[OF t, of i]
  show ?thesis
  proof (cases r)
    case (Inl err)
    then show ?thesis using w by (simp add: balance_def verify_step_up_def t)
  next
    case ch: (Inr ch)
    have "waiting t j = 0" "waiting s j = 1" using taken_waiting(2)[of _ _ s j t ch] t ch by auto
    moreover have "waiting (fst (step_up_with e t u ch a)) = waiting t"
      by (auto simp: step_up_with_def waiting_cong[OF same_challenges(10)] split: sum.splits)
    ultimately show ?thesis
      using w by (cases "step_up_with e t u ch a")
        (auto simp: balance_def verify_step_up_def t ch split: option.splits)
  qed
qed

lemma same_challenges_handlers:
  "au_challenges (fst (rename_passkey e s c' pk body)) = au_challenges s"
  "au_challenges (fst (delete_passkey e s c' pk)) = au_challenges s"
  "au_challenges (fst (settings_put_handler e2 s p inp)) = au_challenges s"
  "au_challenges (fst (settings_clear_handler e2 s p)) = au_challenges s"
  by (auto simp: rename_passkey_def delete_passkey_def settings_put_handler_def settings_clear_handler_def
      intro: same_fst[OF _ same_challenges(7)] same_fst[OF _ same_challenges(8)]
        same_fst[OF _ same_challenges(4)] same_fst[OF _ same_challenges(5)]
      split: sum.splits prod.splits row_error.splits bool.splits)

lemma balance_quiet:
  assumes "\<And>c'. au_challenges (fst (f c')) = au_challenges s" and "\<And>out. \<not> accepts i (s, op, out)"
  shows "balance i op s (behind e least s c (\<lambda>c'. silently_done (f c')))"
  by (rule balance_behind) (use assms in \<open>auto simp: silently_done_def intro: balance_still\<close>)

lemma balance_step: "balance i op s (auth_step op s)"
proof (cases op)
  case (EnrollFinish e c b)
  then show ?thesis using balance_enroll by (auto intro: balance_behind)
next
  case (StepUpCheck e u j a)
  then show ?thesis by (simp only: balance_step_up)
next
  case (PasskeyLogin e c b)
  then show ?thesis by (simp add: balance_login)
next
  case (PasskeyLoginBegin e)
  then show ?thesis by (cases "wa_begin_discoverable (pk_lib e)") (simp_all add: login_begin_def balance_put balance_still)
next
  case (EnrollBegin e c)
  have "balance i (EnrollBegin e c) s (register_begin e' s c')" for e' c'
    unfolding register_begin_def by (auto intro: balance_put balance_still split: sum.splits)
  then show ?thesis using EnrollBegin by (auto intro: balance_behind)
next
  case (StepUpBegin e c)
  have "balance i (StepUpBegin e c) s (step_up_begin e' s c')" for e' c'
    unfolding step_up_begin_def by (auto intro: balance_put balance_still split: sum.splits bool.splits)
  then show ?thesis using StepUpBegin by (auto intro: balance_behind)
next
  case (SeedAdmin e hashed m pw)
  then show ?thesis
    by (auto simp: seed_admin_def intro!: balance_still intro: same_fst[OF _ same_challenges(1)] split: sum.splits prod.splits)
next
  case (GitTokenFor e u p)
  then show ?thesis
    by (auto simp: git_token_def refresh_flight_def Let_def intro!: balance_still split: sum.splits option.splits)
next
  case (RenamePasskey e c pk body)
  then show ?thesis by (auto intro!: balance_quiet simp: same_challenges_handlers)
next
  case (DeletePasskey e c pk)
  then show ?thesis by (auto intro!: balance_quiet simp: same_challenges_handlers)
next
  case (PutSettings e c p body)
  then show ?thesis by (auto intro!: balance_quiet simp: same_challenges_handlers)
next
  case (ClearSettings e c p)
  then show ?thesis by (auto intro!: balance_quiet simp: same_challenges_handlers)
qed (auto simp: callback_provider_def intro: balance_still)

interpretation challenges: tickets auth_step "accepts i" "begins i" "\<lambda>s. waiting s i" for i
proof
  fix s op
  show "of_bool (accepts i (s, op, snd (auth_step op s))) + waiting (fst (auth_step op s)) i
    \<le> of_bool (begins i (s, op, snd (auth_step op s))) + waiting s i"
    using balance_step[of i op s] by (simp add: balance_def)
qed

text \<open>C32. A challenge is good for one ceremony: however requests follow each other, the ceremonies completed
  with a challenge are at most those begun with its id (and one more where it was waiting at the start),
  whatever answers the browser sends and however often it repeats them.\<close>

theorem challenge_accepted_once:
  "length (filter (accepts i) (auth_trace ops s)) + waiting (auth_after ops s) i
     \<le> length (filter (begins i) (auth_trace ops s)) + waiting s i"
  by (rule challenges.run_balance)

section \<open>Step-up\<close>

lemma put_session_source:
  "au_challenges (fst (put_session ok e s u p blob)) i = Some ch \<Longrightarrow>
     au_challenges s i = Some ch \<or>
     snd (snd (put_session ok e s u p blob)) = Begun i \<and> ch_user ch = u \<and> ch_purpose ch = p \<and>
       ch_expires ch = an_now e + (if p = ''step_up'' then step_up_ttl else challenge_ttl)"
  by (auto simp: put_session_def put_challenge_def Let_def split: if_splits)

lemma taken_source:
  "take_live_challenge ok now s j = (t, r) \<Longrightarrow> au_challenges t i = Some ch \<Longrightarrow> au_challenges s i = Some ch"
  by (auto simp: take_live_challenge_def take_challenge_def split: if_splits option.splits)

text \<open>Every challenge of a step-up was put there by a user who was signed in, for two minutes.\<close>

definition begun_step_up :: "auth_op \<Rightarrow> auth \<Rightarrow> reply \<Rightarrow> string \<Rightarrow> challenge \<Rightarrow> bool" where
  "begun_step_up op s r i ch \<longleftrightarrow>
     (\<exists>e c c'. op = StepUpBegin e c \<and> guarded (auth_env.truncate e) s [] c = Inr c' \<and> cx_user c' = ch_user ch \<and>
        r = Begun i \<and> ch_expires ch = an_now e + step_up_ttl)"

lemma guarded_user: "guarded e s least c = Inr c' \<Longrightarrow> cx_user c' = Some (current_user_id c')"
  by (auto simp: guarded_def require_auth_def require_role_def attach_identity_def current_user_id_def Let_def
      split: sum.splits if_splits)

lemma step_up_source_begin:
  assumes "au_challenges (fst (step_up_begin e s c)) i = Some ch" and "cx_user c = Some (current_user_id c)"
  shows "au_challenges s i = Some ch \<or> ch_user ch = cx_user c \<and> snd (snd (step_up_begin e s c)) = Begun i \<and>
    ch_expires ch = an_now e + step_up_ttl"
  using assms
  by (auto simp: step_up_begin_def split: sum.splits bool.splits dest!: put_session_source got_id)

lemma kept_challenges:
  "au_challenges (fst (login_finish e s c b)) i = Some ch \<Longrightarrow> au_challenges s i = Some ch"
  "au_challenges (fst (register_finish e s c b)) i = Some ch \<Longrightarrow> au_challenges s i = Some ch"
  "au_challenges (fst (verify_step_up e s u j a)) i = Some ch \<Longrightarrow> au_challenges s i = Some ch"
proof -
  have e: "au_challenges (fst (enroll_with e t u ch' n k)) = au_challenges t" for t u ch' n k
    by (auto simp: enroll_with_def split: sum.splits prod.splits bool.splits
        intro: same_fst[OF _ same_challenges(9)] dest!: same_fst[OF _ same_challenges(9)])
  have u: "au_challenges (fst (step_up_with e t u ch' k)) = au_challenges t" for t u ch' k
    by (auto simp: step_up_with_def split: sum.splits)
  show "au_challenges (fst (login_finish e s c b)) i = Some ch \<Longrightarrow> au_challenges s i = Some ch"
    by (auto simp: login_finish_def split: sum.splits prod.splits if_splits dest: taken_source)
  show "au_challenges (fst (register_finish e s c b)) i = Some ch \<Longrightarrow> au_challenges s i = Some ch"
    by (auto simp: register_finish_def e split: sum.splits prod.splits if_splits dest: taken_source)
  show "au_challenges (fst (verify_step_up e s u j a)) i = Some ch \<Longrightarrow> au_challenges s i = Some ch"
    by (auto simp: verify_step_up_def u split: sum.splits prod.splits option.splits dest: taken_source)
qed

lemma behind_source:
  assumes "au_challenges (fst (behind e least s c f)) i = Some ch"
    and "\<And>c'. au_challenges (fst (f c')) i = Some ch \<Longrightarrow> au_challenges s i = Some ch \<or> P"
  shows "au_challenges s i = Some ch \<or> P"
  using assms by (auto simp: behind_def split: sum.splits)

lemma behind_quiet_source:
  "au_challenges (fst (behind e least s c (\<lambda>c'. silently_done (f c')))) i = Some ch \<Longrightarrow>
     (\<And>c'. au_challenges (fst (f c')) = au_challenges s) \<Longrightarrow> au_challenges s i = Some ch"
  by (auto simp: behind_def silently_done_def split: sum.splits)

lemma step_up_source:
  assumes "au_challenges (fst (auth_step op s)) i = Some ch" and "ch_purpose ch = ''step_up''"
  shows "au_challenges s i = Some ch \<or> begun_step_up op s (snd (snd (auth_step op s))) i ch"
proof (cases op)
  case (StepUpBegin e c)
  show ?thesis
  proof (cases "guarded (auth_env.truncate e) s [] c")
    case (Inr c')
    then show ?thesis
      using assms(1) step_up_source_begin[of "e\<lparr>an_ok := later e\<rparr>" s c' i ch] guarded_user[OF Inr]
      by (auto simp: StepUpBegin behind_def begun_step_up_def)
  next
    case (Inl a)
    then show ?thesis using assms(1) by (cases a) (simp add: StepUpBegin behind_def)
  qed
next
  case (PasskeyLoginBegin e)
  then show ?thesis
    using assms by (auto simp: login_begin_def split: sum.splits dest!: put_session_source)
next
  case (EnrollBegin e c)
  have "au_challenges (fst (register_begin e' s c')) i = Some ch \<Longrightarrow> au_challenges s i = Some ch" for e' c'
    using assms(2) by (auto simp: register_begin_def split: sum.splits dest!: put_session_source)
  then show ?thesis using assms(1) EnrollBegin by (auto dest!: behind_source[where P = False])
next
  case (EnrollFinish e c b)
  then show ?thesis using assms(1) by (auto dest!: behind_source[where P = False] dest: kept_challenges)
next
  case (StepUpCheck e u j a)
  then show ?thesis
    using assms(1) kept_challenges(3)[of e s u j a i ch] by (auto split: prod.splits option.splits)
next
  case (SeedAdmin e hashed m pw)
  then show ?thesis using assms(1) by simp
next
  case (GitTokenFor e u p)
  then show ?thesis
    using assms(1) by (auto simp: git_token_def refresh_flight_def Let_def split: sum.splits option.splits if_splits)
qed (use assms(1) in \<open>auto simp: callback_provider_def same_challenges_handlers
      dest: kept_challenges dest!: behind_quiet_source\<close>)

lemma step_up_source_run:
  assumes "au_challenges (auth_after ops s) i = Some ch" and "ch_purpose ch = ''step_up''"
  shows "au_challenges s i = Some ch \<or> (\<exists>s1 op cs r. (s1, op, cs, r) \<in> set (auth_trace ops s) \<and> begun_step_up op s1 r i ch)"
  using assms(1)
proof (induction ops arbitrary: s)
  case (Cons op ops)
  obtain t cs r where t: "auth_step op s = (t, cs, r)" by (cases "auth_step op s")
  show ?case
  proof (cases "au_challenges t i = Some ch")
    case True
    then show ?thesis using step_up_source[of op s i ch] assms(2) by (auto simp: t)
  next
    case False
    then show ?thesis using Cons.IH[of t] Cons.prems by (auto simp: t)
  qed
qed simp

lemma found_cred: "list_by_user ok s user = Inr cs \<Longrightarrow> cs \<noteq> [] \<Longrightarrow> \<exists>c \<in> set (au_creds s). cr_user c = user"
proof -
  assume l: "list_by_user ok s user = Inr cs" and "cs \<noteq> []"
  then obtain c where "c \<in> set cs" by (cases cs) auto
  then show ?thesis using l by (auto simp: list_by_user_def split: if_splits)
qed

text \<open>What a step-up that succeeds has checked\<close>

lemma verified_step_up:
  assumes "verify_step_up e s user i a = (t, None)"
  obtains ch w session parsed k where "au_challenges s i = Some ch" and "ch_purpose ch = ''step_up''"
    and "ch_user ch = Some user" and "an_now e < ch_expires ch" and "us_id (wu_user w) = user"
    and "\<exists>c \<in> set (au_creds s). cr_user c = user" and "wa_parse_request (pk_lib e) a = Inr parsed"
    and "wa_decode_session (pk_lib e) (ch_blob ch) = Inr session" and "wa_validate_login (pk_lib e) w session parsed = Inr k"
proof -
  obtain t1 r where t1: "take_live_challenge (an_ok e 0) (an_now e) s i = (t1, r)"
    by (cases "take_live_challenge (an_ok e 0) (an_now e) s i")
  obtain ch where r: "r = Inr ch" and as: "assert_step_up_challenge ch user = None" and w: "step_up_with e t1 user ch a = (t, None)"
    using assms by (auto simp: verify_step_up_def t1 split: sum.splits option.splits)
  have ch: "au_challenges s i = Some ch" "an_now e < ch_expires ch" "t1 = s\<lparr>au_challenges := (au_challenges s)(i := None)\<rparr>"
    using t1 r by (auto simp: take_live_challenge_def take_challenge_def reject_expired_challenge_def split: if_splits option.splits)
  obtain u wu session parsed k where *: "get_by_id (an_ok e 1) t1 user = Inr u" "load_user (an_ok e 2) e t1 u = Inr wu"
    "wu_creds wu \<noteq> []" "wa_decode_session (pk_lib e) (ch_blob ch) = Inr session"
    "wa_parse_request (pk_lib e) a = Inr parsed" "wa_validate_login (pk_lib e) wu session parsed = Inr k"
    using w by (auto simp: step_up_with_def split: sum.splits if_splits)
  obtain cs where cs: "list_by_user (an_ok e 2) t1 (us_id u) = Inr cs" "wu = \<lparr>wu_user = u, wu_creds = map (cred_from_row (pk_lib e)) cs\<rparr>"
    using *(2) by (auto simp: load_user_def split: sum.splits)
  have "us_id u = user" using *(1) by (rule got_id)
  moreover have "cs \<noteq> []" using *(3) cs(2) by auto
  ultimately show thesis
    using that[of ch wu parsed session k] ch as * cs found_cred[OF cs(1)]
    by (auto simp: assert_step_up_challenge_def split: if_splits)
qed

text \<open>C33. A privileged change goes ahead only on a fresh answer of the user's own passkey: when a step-up is
  accepted for a user, this user began it, signed in, less than two minutes before, in the run of the
  server; the user has a passkey; and the library validated the answer against the session of exactly
  that ceremony.\<close>

theorem step_up_only_own:
  assumes "au_challenges s0 = Map.empty" and "verify_step_up e (auth_after ops s0) user i a = (t, None)"
  shows "\<exists>s1 op cs r ch. (s1, op, cs, r) \<in> set (auth_trace ops s0) \<and> begun_step_up op s1 r i ch \<and> ch_user ch = Some user \<and>
      an_now e < ch_expires ch \<and> (\<exists>c \<in> set (au_creds (auth_after ops s0)). cr_user c = user) \<and>
      (\<exists>w session parsed k. us_id (wu_user w) = user \<and> wa_decode_session (pk_lib e) (ch_blob ch) = Inr session \<and>
         wa_parse_request (pk_lib e) a = Inr parsed \<and> wa_validate_login (pk_lib e) w session parsed = Inr k)"
proof -
  obtain ch w session parsed k where ch: "au_challenges (auth_after ops s0) i = Some ch" "ch_purpose ch = ''step_up''"
      "ch_user ch = Some user" "an_now e < ch_expires ch"
    and v: "us_id (wu_user w) = user" "\<exists>c \<in> set (au_creds (auth_after ops s0)). cr_user c = user"
      "wa_parse_request (pk_lib e) a = Inr parsed" "wa_decode_session (pk_lib e) (ch_blob ch) = Inr session"
      "wa_validate_login (pk_lib e) w session parsed = Inr k"
    using assms(2) by (rule verified_step_up)
  from step_up_source_run[OF ch(1,2)] assms(1) obtain s1 op cs r
    where "(s1, op, cs, r) \<in> set (auth_trace ops s0)" "begun_step_up op s1 r i ch" by auto
  then show ?thesis using ch(3,4) v by blast
qed


end
