(* ===== verification/AuthSamples.thy ===== *)
theory AuthSamples
  imports AuthFacts
begin

text \<open>
  Concrete sign-ins: a small site with one owner, on which the guarantees of the previous theory apply,
  and the two runs that fall short: an owner's account taken over through an address that was never
  verified, and a login that ends on another site.
\<close>

section \<open>A small site\<close>

definition ann :: user where
  "ann = \<lparr>us_id = ''u1'', us_email = ''ann@site'', us_name = ''Ann'', us_role = ''owner'', us_created = 0\<rparr>"

definition ann_key :: cred where
  "ann_key = \<lparr>cr_id = ''k1'', cr_user = ''u1'', cr_credential_id = ''raw'', cr_public_key = ''pub'', cr_attestation = [],
     cr_transport = [], cr_sign_count = 0, cr_name = ''Laptop'', cr_created = 0, cr_last_used = None\<rparr>"

definition small_auth :: auth where
  "small_auth = \<lparr>au_users = [\<lparr>ur_user = ann, ur_hash = ''pw''\<rparr>], au_identities = [], au_conns = [],
     au_settings = Map.empty, au_creds = [ann_key], au_challenges = Map.empty\<rparr>"

definition small_env :: auth_env where
  "small_env = \<lparr>an_now = 1000000, an_ok = (\<lambda>_. True), an_id = ''n1'', an_mac = (\<lambda>x. x), an_verify = (=)\<rparr>"

definition ann_ctx :: ctx where
  "ann_ctx = \<lparr>cx_cookie = (\<lambda>n. if n = cookie_name then session_value small_env ann else []), cx_query = (\<lambda>_. []),
     cx_user = None, cx_role = None\<rparr>"

lemma ann_cookie: "parse_cookie small_env (session_value small_env ann) = Inr \<lparr>ss_user = ''u1'', ss_expires = 604801\<rparr>"
proof -
  have "parse_session (\<lambda>x. x) 1 (sign_session (\<lambda>x. x) \<lparr>ss_user = ''u1'', ss_expires = 604801\<rparr>) = Inr \<lparr>ss_user = ''u1'', ss_expires = 604801\<rparr>"
    by (rule parse_sign_session) simp_all
  then show ?thesis by (simp add: parse_cookie_def session_value_def small_env_def ann_def session_ttl_def one_second_def)
qed

lemma ann_cookie_set: "session_value small_env ann \<noteq> []"
  by (simp add: session_value_def sign_session_def)

lemma ann_guard: "require_auth small_env small_auth ann_ctx = Inr (attach_identity ''u1'' ''owner'' ann_ctx)"
  using ann_cookie_set
  by (simp add: require_auth_def ann_cookie ann_ctx_def get_by_id_def user_by_id_def small_auth_def)
    (simp add: small_env_def ann_def)


section \<open>A step-up\<close>

text \<open>A library whose answer to a ceremony is its session data\<close>

definition small_lib :: webauthn where
  "small_lib = \<lparr>wa_begin_discoverable = Inr ''login'', wa_begin_registration = (\<lambda>w. Inr (us_id (wu_user w))),
     wa_begin_login = (\<lambda>w. Inr (us_id (wu_user w))), wa_parse_request = Inr, wa_parse_creation = Inr,
     wa_passkey_login = (\<lambda>f session parsed. map_sum id (\<lambda>w. (w, hd (wu_creds w))) (f parsed [])),
     wa_validate_login = (\<lambda>w session parsed. if session = parsed then Inr (hd (wu_creds w)) else Inl ''mismatch''),
     wa_create_credential = (\<lambda>w session parsed. Inl ''unused''), wa_marshal = (\<lambda>k. Inr (wc_id k)),
     wa_unmarshal = (\<lambda>_. None), wa_decode_session = Inr\<rparr>"

definition small_pk :: passkey_env where
  "small_pk = auth_env.extend small_env (passkey_env.fields small_lib ''ch1'')"

theorem step_up_only_own_witness:
  "\<exists>t s1 op cs r ch. verify_step_up small_pk (auth_after [StepUpBegin small_pk ann_ctx] small_auth) ''u1'' ''ch1'' ''u1'' = (t, None) \<and>
     (s1, op, cs, r) \<in> set (auth_trace [StepUpBegin small_pk ann_ctx] small_auth) \<and> begun_step_up op s1 r ''ch1'' ch"
proof -
  have e: "auth_env.truncate small_pk = small_env"
    by (simp add: small_pk_def small_env_def auth_env.defs passkey_env.defs)
  have g: "guarded small_env small_auth [] ann_ctx = Inr (attach_identity ''u1'' ''owner'' ann_ctx)"
    using ann_guard by (simp add: guarded_def require_role_def role_rank_def ann_ctx_def)
  have l: "pk_lib small_pk = small_lib" "pk_challenge_id small_pk = ''ch1''" "an_now small_pk = 1000000" "an_ok small_pk = (\<lambda>_. True)"
    by (simp_all add: small_pk_def small_env_def auth_env.defs passkey_env.defs)
  let ?ch = "\<lparr>ch_user = Some ''u1'', ch_purpose = ''step_up'', ch_blob = ''u1'', ch_expires = 121000000\<rparr>"
  let ?t = "small_auth\<lparr>au_challenges := [''ch1'' \<mapsto> ?ch]\<rparr>"
  have u: "user_by_id small_auth ''u1'' = Some \<lparr>ur_user = ann, ur_hash = ''pw''\<rparr>" "us_id ann = ''u1''"
    by (simp_all add: user_by_id_def small_auth_def ann_def)
  have k: "filter (\<lambda>c. cr_user c = ''u1'') (au_creds small_auth) = [ann_key]" by (simp add: small_auth_def ann_key_def)
  have o: "user_by_id (small_auth\<lparr>au_challenges := m\<rparr>) i = user_by_id small_auth i" for m i by (simp add: user_by_id_def)
  have st: "auth_after [StepUpBegin small_pk ann_ctx] small_auth = ?t"
    by (simp add: behind_def e g step_up_begin_def get_by_id_def l later_def current_user_id_def attach_identity_def u
        has_passkey_def list_by_user_def k load_user_def put_session_def put_challenge_def small_lib_def step_up_ttl_def one_second_def)
      (simp add: small_auth_def)
  have "snd (verify_step_up small_pk ?t ''u1'' ''ch1'' ''u1'') = None"
    by (simp add: verify_step_up_def take_live_challenge_def take_challenge_def reject_expired_challenge_def l
        assert_step_up_challenge_def step_up_with_def small_lib_def get_by_id_def load_user_def list_by_user_def o u k)
  then obtain t where v: "verify_step_up small_pk (auth_after [StepUpBegin small_pk ann_ctx] small_auth) ''u1'' ''ch1'' ''u1'' = (t, None)"
    unfolding st by (metis prod.collapse)
  show ?thesis
    using step_up_only_own[OF _ v] v by (simp add: small_auth_def) blast
qed

text \<open>A first start: the administrator is seeded into empty tables, and a login with a passkey begun.\<close>

definition empty_auth :: auth where
  "empty_auth = \<lparr>au_users = [], au_identities = [], au_conns = [], au_settings = Map.empty, au_creds = [], au_challenges = Map.empty\<rparr>"


section \<open>An address that nobody verified\<close>

lemma find_snoc: "List.find P xs = None \<Longrightarrow> List.find P (xs @ [x]) = (if P x then Some x else None)"
  by (induction xs) (auto split: if_splits)

text \<open>C35. An account can be taken over by claiming its address: where a GitHub account shows no public email
  and has no verified one, the callback takes the first address that the account lists, and signs in
  the existing user with this email, whatever their role; the GitHub account is linked to that user
  from then on.\<close>

theorem unverified_address_signs_in:
  assumes "cx_query c ''error'' = []" and "shows_state c ''cc_oauth_state''" and "cx_query c ''code'' \<noteq> []"
    and "cx_cookie c ''cc_oauth_purpose'' \<noteq> ''git''" and "\<And>n. an_ok e n" and "pv_name p = ''github''"
    and "exchange e p (cx_query c ''code'') = Inr tok" and "get_user e (pv_api p @ ''/user'') (ot_access tok) = Inr account"
    and "pu_email account = []" and "oa_emails e (pv_api p @ ''/user/emails'') (ot_access tok) = m # ms"
    and "list_all (\<lambda>k. \<not> pe_verified k) (m # ms)" and "pe_email m \<noteq> []"
    and "identity_of s ''github'' (itoa (pu_id account)) = None" and "user_by_email s (pe_email m) = Some row"
  shows "sets_session (session_value (auth_env.truncate e) (ur_user row)) (fst (snd (oauth_callback e s p c))) \<and>
    linked (fst (oauth_callback e s p c)) ''github'' (itoa (pu_id account)) (ur_user row)"
proof -
  have "List.find (\<lambda>k. pe_primary k \<and> pe_verified k) (m # ms) = None"
    using assms(11) by (auto simp: find_None list_all_iff simp del: List.find.simps)
  then have mail: "pick_email (m # ms) = pe_email m" by (simp add: pick_email_def)
  let ?f = "\<lparr>pf_id = itoa (pu_id account), pf_login = pu_login account, pf_email = pe_email m,
    pf_name = or_else (pu_name account) (pu_login account)\<rparr>"
  have f: "fetch_profile e p (ot_access tok) = Inr ?f"
    using assms(6,8-10,12) by (simp add: fetch_profile_def github_profile_def Let_def mail or_else_def)
  have known: "\<exists>r. user_by_id s (us_id (ur_user row)) = Some r"
  proof -
    have "row \<in> set (au_users s)" using assms(14) by (auto simp: user_by_email_def find_Some_iff)
    then show ?thesis using known_iff[of s "us_id (ur_user row)"] by (auto simp: known_def)
  qed
  have prov: "snd (provision e s ''github'' ?f) = Inr (ur_user row)"
    "linked (fst (provision e s ''github'' ?f)) ''github'' (itoa (pu_id account)) (ur_user row)"
    using assms(5,13,14) known
    by (auto simp: provision_def user_for_identity_def get_by_email_with_hash_def link_identity_def linked_def identity_of_def
        find_snoc Let_def)
  obtain t where "provision e s ''github'' ?f = (t, Inr (ur_user row))"
    using prov(1) by (metis prod.collapse)
  then show ?thesis
    using assms(1-4,7) f prov(2)
    by (auto simp: oauth_callback_def shows_state_def oauth_signed_in_def assms(6) Let_def)
qed

text \<open>Mallory's account lists Ann's address.\<close>

definition mallory_env :: oauth_env where
  "mallory_env = auth_env.extend small_env (oauth_env.fields
     \<lparr>ae_nonce_size = 1, ae_seal = (\<lambda>n p. p), ae_open = (\<lambda>n p. Inr p)\<rparr> (\<lambda>_. Inr ''n'') (Inr ''st'')
     (\<lambda>url form. Inr (200, [], Inr \<lparr>ta_access = ''tok'', ta_refresh = [], ta_expires_in = 0, ta_error = [], ta_error_desc = []\<rparr>))
     (\<lambda>url tok. Inr (200, [], Inr \<lparr>pu_id = 666, pu_login = ''mallory'', pu_name = [], pu_email = []\<rparr>))
     (\<lambda>url tok. [\<lparr>pe_email = ''ann@site'', pe_primary = True, pe_verified = False\<rparr>])
     False (github_provider ''id'' ''sec'' ''https://site/cb'') (gitlab_provider ''id'' ''sec'' ''https://site/cb'' [])
     ''/'' ''viewer'' (\<lambda>_. Inl ''unused'') (\<lambda>_. Inl ''unused''))"

definition mallory_ctx :: ctx where
  "mallory_ctx = \<lparr>cx_cookie = (\<lambda>n. if n = ''cc_oauth_state'' then ''st'' else []),
     cx_query = (\<lambda>n. if n = ''state'' then ''st'' else if n = ''code'' then ''c0'' else []), cx_user = None, cx_role = None\<rparr>"

lemma mallory_env_sel:
  "auth_env.truncate mallory_env = small_env" "an_ok mallory_env = (\<lambda>_. True)" "an_now mallory_env = 1000000"
  "oa_github mallory_env = github_provider ''id'' ''sec'' ''https://site/cb''" "oa_random mallory_env = Inr ''st''"
  "oa_post mallory_env = (\<lambda>url form. Inr (200, [], Inr \<lparr>ta_access = ''tok'', ta_refresh = [], ta_expires_in = 0, ta_error = [], ta_error_desc = []\<rparr>))"
  "oa_user mallory_env = (\<lambda>url tok. Inr (200, [], Inr \<lparr>pu_id = 666, pu_login = ''mallory'', pu_name = [], pu_email = []\<rparr>))"
  "oa_emails mallory_env = (\<lambda>url tok. [\<lparr>pe_email = ''ann@site'', pe_primary = True, pe_verified = False\<rparr>])"
  by (simp_all add: mallory_env_def small_env_def auth_env.defs oauth_env.defs)

lemma mallory_exchange:
  "exchange mallory_env p code = Inr \<lparr>ot_access = ''tok'', ot_refresh = [], ot_expires = None\<rparr>"
  by (simp add: exchange_def checked_def mallory_env_sel parse_token_response_def)

lemma mallory_user: "get_user mallory_env url tok = Inr \<lparr>pu_id = 666, pu_login = ''mallory'', pu_name = [], pu_email = []\<rparr>"
  by (simp add: get_user_def checked_def mallory_env_sel)

theorem unverified_address_signs_in_witness:
  "sets_session (session_value small_env ann)
     (fst (snd (oauth_callback mallory_env small_auth (oa_github mallory_env) mallory_ctx))) \<and> us_role ann = ''owner''"
  using unverified_address_signs_in[of mallory_ctx mallory_env "oa_github mallory_env" _ _ _ "[]" small_auth
      "\<lparr>ur_user = ann, ur_hash = ''pw''\<rparr>", OF _ _ _ _ _ _ mallory_exchange mallory_user]
  by (simp add: mallory_env_sel mallory_ctx_def shows_state_def github_provider_def identity_of_def user_by_email_def
      small_auth_def ann_def)

section \<open>A login that leaves the site\<close>

definition host_char :: "char \<Rightarrow> bool" where
  "host_char c \<longleftrightarrow> is_lower c \<or> is_digit c \<or> c = CHR ''.''"

lemma host_char_plain:
  "host_char c \<Longrightarrow> c \<noteq> CHR ''#'' \<and> c \<noteq> CHR ''?'' \<and> c \<noteq> CHR ''%'' \<and> \<not> ctl_byte c"
  by (auto simp: host_char_def ctl_byte_def is_lower_def is_digit_def)

lemma before_plain: "c \<notin> set s \<Longrightarrow> before c s = s"
proof -
  assume "c \<notin> set s"
  then have "index_byte s c = None" by (induction s) auto
  then show ?thesis by (simp add: before_def)
qed

lemma unescapes_plain: "CHR ''%'' \<notin> set s \<Longrightarrow> unescapes s"
  by (induction s) auto

lemma three_slashes_safe:
  assumes "list_all host_char h"
  shows "looks_safe_redirect (''///'' @ h)"
proof -
  have p: "CHR ''#'' \<notin> set h" "CHR ''?'' \<notin> set h" "CHR ''%'' \<notin> set h" "\<not> list_ex ctl_byte h"
    using assms host_char_plain by (auto simp: list_all_iff list_ex_iff)
  then have "before CHR ''#'' (''///'' @ h) = ''///'' @ h" "before CHR ''?'' (''///'' @ h) = ''///'' @ h"
    by (simp_all add: before_plain)
  then show ?thesis
    using p by (simp add: looks_safe_redirect_def parses_without_host_def unescapes_plain has_prefix_def ctl_byte_def)
qed

text \<open>C36. A login may end on another site: a link to the start of a login may carry three slashes and a host
  as the place to go next; the start stores it, and the callback that signs the user in redirects there.
  Its check only refuses a target in which \<open>url.Parse\<close> finds a host, and with three slashes it finds
  none.\<close>

theorem redirect_leaves_site:
  assumes "list_all host_char h" and "cx_query c ''next'' = ''///'' @ h" and "cx_query c ''purpose'' \<noteq> ''git''"
    and "provider_enabled p" and "oa_random e = Inr st"
    and "cx_cookie c2 ''cc_oauth_next'' = ''///'' @ h" and "provision e s (pv_name p) f = (t, Inr u)"
  shows "set_cookie e ''cc_oauth_next'' (''///'' @ h) \<in> set (fst (oauth_start e p scope c)) \<and>
    snd (snd (oauth_signed_in e s p c2 f)) = GoTo (''///'' @ h)"
  using assms three_slashes_safe[OF assms(1)]
  by (simp add: oauth_start_def Let_def oauth_signed_in_def after_login_def)

theorem redirect_leaves_site_witness:
  "snd (snd (oauth_signed_in mallory_env small_auth (oa_github mallory_env)
      (mallory_ctx\<lparr>cx_cookie := (\<lambda>n. if n = ''cc_oauth_next'' then ''///evil.example'' else [])\<rparr>)
      \<lparr>pf_id = ''7'', pf_login = ''ann'', pf_email = ''ann@site'', pf_name = ''Ann''\<rparr>)) = GoTo ''///evil.example''"
proof -
  let ?f = "\<lparr>pf_id = ''7'', pf_login = ''ann'', pf_email = ''ann@site'', pf_name = ''Ann''\<rparr>"
  have "snd (provision mallory_env small_auth (pv_name (oa_github mallory_env)) ?f) = Inr ann"
    by (simp add: provision_def user_for_identity_def mallory_env_sel identity_of_def small_auth_def get_by_email_with_hash_def
        user_by_email_def) (simp add: ann_def)
  then obtain t where "provision mallory_env small_auth (pv_name (oa_github mallory_env)) ?f = (t, Inr ann)"
    by (metis prod.collapse)
  from redirect_leaves_site[OF _ _ _ _ _ _ this, of "''evil.example''"
      "mallory_ctx\<lparr>cx_query := (\<lambda>n. if n = ''next'' then ''///evil.example'' else [])\<rparr>" "''st''"
      "mallory_ctx\<lparr>cx_cookie := (\<lambda>n. if n = ''cc_oauth_next'' then ''///evil.example'' else [])\<rparr>"]
  show ?thesis
    by (simp add: mallory_env_sel provider_enabled_def github_provider_def host_char_def is_lower_def is_digit_def)
qed

end
