(* ===== verification/Jobs.thy ===== *)
theory Jobs
  imports Gateway DeployEnv
begin

text \<open>
  Jobs and secrets on the control plane: \<open>control-plane/internal/jobs\<close> (store, defaults, handlers) and
  \<open>control-plane/internal/secrets\<close>. A job is a row with a current version; a change of its script,
  environment or secrets adds a version. After each change the handlers push a full snapshot to the
  servers that the job targets, or targeted before. The tables are lists of rows in the order the
  database gives them; a transaction writes nothing unless it commits. The JSON columns are written and
  read by the parameters of \<open>json\<close>. The audit log is not modelled, nor are the runs of a job deleted.
\<close>

section \<open>Tables\<close>

record stored_job =
  so_row :: job_row
  so_description :: "string option"
  so_created :: int
  so_updated :: int

record stored_version =
  sn_job :: string
  sn_row :: version_row

record secret_row =
  se_id :: string
  se_scope :: string
  se_scope_id :: "string option"
  se_name :: string
  se_value :: string
  se_created :: int

record job_db =
  jt_servers :: "server_row list"
  jt_jobs :: "stored_job list"
  jt_versions :: "stored_version list"
  jt_secrets :: "secret_row list"

record json =
  js_env :: "(string \<rightharpoonup> string) \<Rightarrow> string"
  js_read_env :: "string \<Rightarrow> (string \<rightharpoonup> string)"
  js_refs :: "string list \<Rightarrow> string"
  js_read_refs :: "string \<Rightarrow> string list"

datatype job_error = JobNotFound | JobDb | BadTarget string

definition job_rows :: "job_db \<Rightarrow> job_row list" where
  "job_rows d = map so_row (jt_jobs d)"

definition version_rows :: "job_db \<Rightarrow> version_row list" where
  "version_rows d = map sn_row (jt_versions d)"

section \<open>Secrets\<close>

record secret_view =
  sx_id :: string
  sx_scope :: string
  sx_scope_id :: string
  sx_name :: string
  sx_created :: int

definition secret_view_of :: "secret_row \<Rightarrow> secret_view" where
  "secret_view_of r = \<lparr>sx_id = se_id r, sx_scope = se_scope r, sx_scope_id = coalesce [] (se_scope_id r),
     sx_name = se_name r, sx_created = se_created r\<rparr>"

definition list_secrets :: "bool \<Rightarrow> job_db \<Rightarrow> (job_error, secret_view list) res" where
  "list_secrets ok d = (if \<not> ok then Inl JobDb else Inr (map secret_view_of (rev (sort_key se_created (jt_secrets d)))))"

record secret_input =
  xi_scope :: string
  xi_scope_id :: string
  xi_name :: string
  xi_value :: string

definition null_if_empty :: "string \<Rightarrow> string option" where
  "null_if_empty s = (if s = [] then None else Some s)"

text \<open>The unique index of \<open>(scope, scope_id, name)\<close>: two NULLs are not equal.\<close>

definition secret_clash :: "secret_row \<Rightarrow> secret_row \<Rightarrow> bool" where
  "secret_clash a b \<longleftrightarrow> se_id a = se_id b \<or>
     se_scope a = se_scope b \<and> se_scope_id a \<noteq> None \<and> se_scope_id a = se_scope_id b \<and> se_name a = se_name b"

definition insert_secret :: "(nat \<Rightarrow> bool) \<Rightarrow> aead \<Rightarrow> (string, string) res \<Rightarrow> string \<Rightarrow> int \<Rightarrow> job_db \<Rightarrow> secret_input \<Rightarrow>
    job_db \<times> (job_error, secret_view) res" where
  "insert_secret ok box nonce i now d inp =
     (case seal_blob box nonce (xi_value inp) of
        Inl err \<Rightarrow> (d, Inl JobDb)
      | Inr blob \<Rightarrow>
          let row = \<lparr>se_id = i, se_scope = (if xi_scope inp = [] then ''global'' else xi_scope inp),
                     se_scope_id = null_if_empty (xi_scope_id inp), se_name = xi_name inp, se_value = blob, se_created = now\<rparr>
          in if \<not> ok 0 \<or> list_ex (secret_clash row) (jt_secrets d) then (d, Inl JobDb)
             else (d\<lparr>jt_secrets := jt_secrets d @ [row]\<rparr>, if ok 1 then Inr (secret_view_of row) else Inl JobDb))"

definition delete_secret :: "bool \<Rightarrow> job_db \<Rightarrow> string \<Rightarrow> job_db \<times> (job_error, unit) res" where
  "delete_secret ok d i =
     (if \<not> ok then (d, Inl JobDb)
      else if \<not> list_ex (\<lambda>r. se_id r = i) (jt_secrets d) then (d, Inl JobNotFound)
      else (d\<lparr>jt_secrets := filter (\<lambda>r. se_id r \<noteq> i) (jt_secrets d)\<rparr>, Inr ()))"

definition scope_rank :: "string \<Rightarrow> nat" where
  "scope_rank s = (if s = ''job'' then 3 else if s = ''server'' then 2 else if s = ''global'' then 1 else 0)"

definition secret_applies :: "string \<Rightarrow> string \<Rightarrow> string list \<Rightarrow> secret_row \<Rightarrow> bool" where
  "secret_applies job server names r \<longleftrightarrow> se_name r \<in> set names \<and>
     (se_scope r = ''global'' \<or> se_scope r = ''server'' \<and> se_scope_id r = Some server \<or>
      se_scope r = ''job'' \<and> se_scope_id r = Some job)"

text \<open>The map \<open>picked\<close> after one row\<close>

definition pick_secret :: "(string \<rightharpoonup> secret_row) \<Rightarrow> secret_row \<Rightarrow> (string \<rightharpoonup> secret_row)" where
  "pick_secret m r =
     (case m (se_name r) of
        Some cur \<Rightarrow> if scope_rank (se_scope r) \<le> scope_rank (se_scope cur) then m else m(se_name r \<mapsto> r)
      | None \<Rightarrow> m(se_name r \<mapsto> r))"

definition opened :: "aead \<Rightarrow> secret_row \<Rightarrow> string option" where
  "opened box r = (case open_blob box (se_value r) of Inl err \<Rightarrow> None | Inr v \<Rightarrow> Some v)"

text \<open>\<open>ResolveForJob\<close>: any value that does not open is an error of the whole call.\<close>

definition resolve_for_job :: "bool \<Rightarrow> aead \<Rightarrow> job_db \<Rightarrow> resolver" where
  "resolve_for_job ok box d job server names =
     (if names = [] then Inr Map.empty
      else if \<not> ok then Inl ''query failed''
      else let picked = foldl pick_secret Map.empty (filter (secret_applies job server names) (jt_secrets d))
           in if list_ex (\<lambda>n. case picked n of None \<Rightarrow> False | Some r \<Rightarrow> opened box r = None) names then Inl ''open failed''
              else Inr (\<lambda>n. case picked n of None \<Rightarrow> None | Some r \<Rightarrow> opened box r))"

section \<open>Jobs\<close>

text \<open>\<open>Job\<close>: the row as it is scanned, with the empty string for a NULL, and its current version\<close>

record job =
  jb_row :: job_row
  jb_description :: string
  jb_version :: int
  jb_script :: string
  jb_env :: "string \<rightharpoonup> string"
  jb_refs :: "string list"

definition scan_stored :: "json \<Rightarrow> stored_job \<times> version_row \<Rightarrow> job" where
  "scan_stored js jv =
     (case jv of (j, v) \<Rightarrow>
       \<lparr>jb_row = (so_row j)\<lparr>jr_working_dir := Some (coalesce [] (jr_working_dir (so_row j))),
          jr_run_as_user := Some (coalesce [] (jr_run_as_user (so_row j))),
          jr_target_labels := Some (coalesce [] (jr_target_labels (so_row j)))\<rparr>,
        jb_description = coalesce [] (so_description j), jb_version = vr_number v, jb_script = vr_script_body v,
        jb_env = js_read_env js (coalesce ''{}'' (vr_env v)), jb_refs = js_read_refs js (coalesce ''[]'' (vr_secret_refs v))\<rparr>)"

definition joined :: "job_db \<Rightarrow> (stored_job \<times> version_row) list" where
  "joined d = concat (map (\<lambda>j. map (Pair j) (filter (\<lambda>v. vr_id v = jr_current_version (so_row j)) (version_rows d))) (jt_jobs d))"

definition list_jobs :: "bool \<Rightarrow> json \<Rightarrow> job_db \<Rightarrow> string \<Rightarrow> (job_error, job list) res" where
  "list_jobs ok js d server =
     (if \<not> ok then Inl JobDb
      else Inr (map (scan_stored js) (rev (sort_key (so_created \<circ> fst)
             (filter (\<lambda>(j, v). server = [] \<or> job_assigned (jt_servers d) server (so_row j)) (joined d))))))"

definition get_job :: "bool \<Rightarrow> json \<Rightarrow> job_db \<Rightarrow> string \<Rightarrow> (job_error, job) res" where
  "get_job ok js d i =
     (if \<not> ok then Inl JobDb
      else case List.find (\<lambda>(j, v). jr_id (so_row j) = i) (joined d) of
             None \<Rightarrow> Inl JobNotFound | Some jv \<Rightarrow> Inr (scan_stored js jv))"

text \<open>\<open>MatchingServerIDs\<close>; labels that are NULL contain nothing, and a nil map is written null.\<close>

definition matching_server_ids :: "bool \<Rightarrow> job_db \<Rightarrow> job_row \<Rightarrow> (job_error, string list) res" where
  "matching_server_ids ok d j =
     (if jr_target_kind j = ''server'' then Inr (case jr_server_id j of None \<Rightarrow> [] | Some i \<Rightarrow> [i])
      else if \<not> ok then Inl JobDb
      else Inr (map sv_id (filter (\<lambda>r. case (jr_target_labels j, sv_labels r) of
                                       (Some want, Some have) \<Rightarrow> labels_contained want have | _ \<Rightarrow> False) (jt_servers d))))"

definition validate_target :: "string \<Rightarrow> string \<Rightarrow> (string \<times> string) list \<Rightarrow> string option" where
  "validate_target kind server labels =
     (if kind = ''server''
      then (if server = [] then Some ''target_kind=server requires server_id'' else None)
      else if kind = ''labels''
      then (if labels = [] then Some ''target_kind=labels requires at least one label in target_labels'' else None)
      else Some (''target_kind must be '' @ [CHR 0x27] @ ''server'' @ [CHR 0x27] @ '' or '' @ [CHR 0x27] @ ''labels'' @ [CHR 0x27]))"

section \<open>Creating\<close>

record create_job_input =
  cj_target_kind :: string
  cj_server_id :: string
  cj_target_labels :: "(string \<times> string) list"
  cj_name :: string
  cj_description :: string
  cj_interpreter :: string
  cj_schedule_cron :: string
  cj_timezone :: string
  cj_enabled :: "bool option"
  cj_timeout_seconds :: int
  cj_concurrency_policy :: string
  cj_catchup_policy :: string
  cj_max_retries :: int
  cj_working_dir :: string
  cj_run_as_user :: string
  cj_cpu_quota_percent :: int
  cj_memory_max_mb :: int
  cj_tasks_max :: int
  cj_io_weight :: int
  cj_script_body :: string
  cj_env :: "string \<rightharpoonup> string"
  cj_secret_refs :: "string list"

definition default_to :: "string \<Rightarrow> string \<Rightarrow> string" where
  "default_to z s = (if s = [] then z else s)"

text \<open>\<open>applyDefaults\<close>; nil maps are empty ones here.\<close>

definition apply_defaults :: "create_job_input \<Rightarrow> create_job_input" where
  "apply_defaults inp = inp\<lparr>cj_target_kind := default_to ''server'' (cj_target_kind inp),
     cj_interpreter := default_to ''bash'' (cj_interpreter inp), cj_timezone := default_to ''UTC'' (cj_timezone inp),
     cj_enabled := Some (case cj_enabled inp of None \<Rightarrow> True | Some b \<Rightarrow> b),
     cj_timeout_seconds := (if cj_timeout_seconds inp = 0 then 3600 else cj_timeout_seconds inp),
     cj_concurrency_policy := default_to ''skip'' (cj_concurrency_policy inp),
     cj_catchup_policy := default_to ''once'' (cj_catchup_policy inp)\<rparr>"

definition server_known :: "job_db \<Rightarrow> string option \<Rightarrow> bool" where
  "server_known d s = (case s of None \<Rightarrow> True | Some i \<Rightarrow> list_ex (\<lambda>r. sv_id r = i) (jt_servers d))"

definition version_fits :: "job_db \<Rightarrow> stored_version \<Rightarrow> bool" where
  "version_fits d v \<longleftrightarrow> list_all (\<lambda>w. vr_id (sn_row w) \<noteq> vr_id (sn_row v) \<and>
     \<not> (sn_job w = sn_job v \<and> vr_number (sn_row w) = vr_number (sn_row v))) (jt_versions d)"

definition new_version :: "json \<Rightarrow> string \<Rightarrow> string \<Rightarrow> int \<Rightarrow> string \<Rightarrow> (string \<rightharpoonup> string) \<Rightarrow> string list \<Rightarrow> stored_version" where
  "new_version js i job n script env refs = \<lparr>sn_job = job, sn_row = \<lparr>vr_id = i, vr_number = n, vr_script_body = script,
     vr_env = Some (js_env js env), vr_secret_refs = Some (js_refs js refs)\<rparr>\<rparr>"

text \<open>What one request finds: the outcomes of its statements, new ids for a job and a version, the time\<close>

record job_env =
  je_ok :: "nat \<Rightarrow> bool"
  je_json :: json
  je_box :: aead
  je_job_id :: string
  je_version_id :: string
  je_now :: int

definition created_row :: "job_env \<Rightarrow> create_job_input \<Rightarrow> job_row" where
  "created_row e inp = \<lparr>jr_id = je_job_id e, jr_current_version = je_version_id e, jr_name = cj_name inp,
     jr_interpreter = cj_interpreter inp, jr_schedule_cron = cj_schedule_cron inp,
     jr_timezone = cj_timezone inp, jr_enabled = (cj_enabled inp = Some True),
     jr_timeout_seconds = cj_timeout_seconds inp, jr_concurrency_policy = cj_concurrency_policy inp,
     jr_catchup_policy = cj_catchup_policy inp, jr_max_retries = cj_max_retries inp,
     jr_working_dir = null_if_empty (cj_working_dir inp), jr_run_as_user = null_if_empty (cj_run_as_user inp),
     jr_target_kind = cj_target_kind inp, jr_server_id = null_if_empty (cj_server_id inp),
     jr_target_labels = Some (cj_target_labels inp), jr_cpu_quota_percent = cj_cpu_quota_percent inp,
     jr_memory_max_mb = cj_memory_max_mb inp, jr_tasks_max = cj_tasks_max inp, jr_io_weight = cj_io_weight inp\<rparr>"

definition created_version :: "job_env \<Rightarrow> create_job_input \<Rightarrow> stored_version" where
  "created_version e inp =
     new_version (je_json e) (je_version_id e) (je_job_id e) 1 (cj_script_body inp) (cj_env inp) (cj_secret_refs inp)"

definition store_created :: "job_env \<Rightarrow> create_job_input \<Rightarrow> job_db \<Rightarrow> job_db" where
  "store_created e inp d = d\<lparr>jt_jobs := jt_jobs d @ [\<lparr>so_row = created_row e inp, so_description = Some (cj_description inp),
                                                  so_created = je_now e, so_updated = je_now e\<rparr>],
     jt_versions := jt_versions d @ [created_version e inp]\<rparr>"

text \<open>\<open>Insert\<close>: statements 0 to 3 are the transaction, 4 reads the job back.\<close>

definition insert_job :: "job_env \<Rightarrow> job_db \<Rightarrow> create_job_input \<Rightarrow> job_db \<times> (job_error, job) res" where
  "insert_job e d inp0 =
     (let inp = apply_defaults inp0
      in case validate_target (cj_target_kind inp) (cj_server_id inp) (cj_target_labels inp) of
           Some err \<Rightarrow> (d, Inl (BadTarget err))
         | None \<Rightarrow>
             if \<not> list_all (je_ok e) [0, 1, 2, 3] \<or> list_ex (\<lambda>j. jr_id (so_row j) = je_job_id e) (jt_jobs d) \<or>
                \<not> server_known d (null_if_empty (cj_server_id inp)) \<or> \<not> version_fits d (created_version e inp)
             then (d, Inl JobDb)
             else let t = store_created e inp d in (t, get_job (je_ok e 4) (je_json e) t (je_job_id e)))"

section \<open>Changing\<close>

record patch_job_input =
  pt_target_kind :: "string option"
  pt_server_id :: "string option"
  pt_target_labels :: "(string \<times> string) list option"
  pt_name :: "string option"
  pt_description :: "string option"
  pt_interpreter :: "string option"
  pt_schedule_cron :: "string option"
  pt_timezone :: "string option"
  pt_enabled :: "bool option"
  pt_timeout_seconds :: "int option"
  pt_concurrency_policy :: "string option"
  pt_catchup_policy :: "string option"
  pt_max_retries :: "int option"
  pt_working_dir :: "string option"
  pt_run_as_user :: "string option"
  pt_cpu_quota_percent :: "int option"
  pt_memory_max_mb :: "int option"
  pt_tasks_max :: "int option"
  pt_io_weight :: "int option"
  pt_script_body :: "string option"
  pt_env :: "(string \<rightharpoonup> string) option"
  pt_secret_refs :: "string list option"

definition given_or :: "'a option \<Rightarrow> 'a \<Rightarrow> 'a" where
  "given_or p old = (case p of None \<Rightarrow> old | Some x \<Rightarrow> x)"

text \<open>The fields that \<open>Patch\<close> sets on the job it read; an empty server id is none.\<close>

definition patched_row :: "patch_job_input \<Rightarrow> job_row \<Rightarrow> job_row" where
  "patched_row p j = j\<lparr>jr_target_kind := given_or (pt_target_kind p) (jr_target_kind j),
     jr_server_id := (case pt_server_id p of None \<Rightarrow> jr_server_id j | Some v \<Rightarrow> null_if_empty v),
     jr_target_labels := (case pt_target_labels p of None \<Rightarrow> jr_target_labels j | Some l \<Rightarrow> Some l),
     jr_name := given_or (pt_name p) (jr_name j), jr_interpreter := given_or (pt_interpreter p) (jr_interpreter j),
     jr_schedule_cron := given_or (pt_schedule_cron p) (jr_schedule_cron j),
     jr_timezone := given_or (pt_timezone p) (jr_timezone j), jr_enabled := given_or (pt_enabled p) (jr_enabled j),
     jr_timeout_seconds := given_or (pt_timeout_seconds p) (jr_timeout_seconds j),
     jr_concurrency_policy := given_or (pt_concurrency_policy p) (jr_concurrency_policy j),
     jr_catchup_policy := given_or (pt_catchup_policy p) (jr_catchup_policy j),
     jr_max_retries := given_or (pt_max_retries p) (jr_max_retries j),
     jr_working_dir := null_if_empty (given_or (pt_working_dir p) (coalesce [] (jr_working_dir j))),
     jr_run_as_user := null_if_empty (given_or (pt_run_as_user p) (coalesce [] (jr_run_as_user j))),
     jr_cpu_quota_percent := given_or (pt_cpu_quota_percent p) (jr_cpu_quota_percent j),
     jr_memory_max_mb := given_or (pt_memory_max_mb p) (jr_memory_max_mb j),
     jr_tasks_max := given_or (pt_tasks_max p) (jr_tasks_max j), jr_io_weight := given_or (pt_io_weight p) (jr_io_weight j)\<rparr>"

definition makes_version :: "patch_job_input \<Rightarrow> bool" where
  "makes_version p \<longleftrightarrow> pt_script_body p \<noteq> None \<or> pt_env p \<noteq> None \<or> pt_secret_refs p \<noteq> None"

definition patched_version :: "job_env \<Rightarrow> patch_job_input \<Rightarrow> string \<Rightarrow> job \<Rightarrow> stored_version" where
  "patched_version e p i j = new_version (je_json e) (je_version_id e) i (jb_version j + 1)
     (given_or (pt_script_body p) (jb_script j)) (given_or (pt_env p) (jb_env j)) (given_or (pt_secret_refs p) (jb_refs j))"

definition store_patched :: "job_env \<Rightarrow> patch_job_input \<Rightarrow> string \<Rightarrow> job \<Rightarrow> job_row \<Rightarrow> job_db \<Rightarrow> job_db" where
  "store_patched e p i j row d =
     (let ver = patched_version e p i j;
          row' = (if makes_version p then row\<lparr>jr_current_version := je_version_id e\<rparr> else row)
      in d\<lparr>jt_jobs := map (\<lambda>q. if jr_id (so_row q) = i
                             then q\<lparr>so_row := row', so_description := Some (given_or (pt_description p) (jb_description j)),
                                    so_updated := je_now e\<rparr> else q) (jt_jobs d),
           jt_versions := (if makes_version p then jt_versions d @ [ver] else jt_versions d)\<rparr>)"

text \<open>\<open>Patch\<close>: statement 0 reads the job, 1 to 4 are the transaction, 5 reads it back.\<close>

definition patch_job :: "job_env \<Rightarrow> job_db \<Rightarrow> string \<Rightarrow> patch_job_input \<Rightarrow> job_db \<times> (job_error, job) res" where
  "patch_job e d i p =
     (case get_job (je_ok e 0) (je_json e) d i of
        Inl err \<Rightarrow> (d, Inl err)
      | Inr j \<Rightarrow>
          let row = patched_row p (jb_row j)
          in case validate_target (jr_target_kind row) (coalesce [] (jr_server_id row)) (coalesce [] (jr_target_labels row)) of
               Some err \<Rightarrow> (d, Inl (BadTarget err))
             | None \<Rightarrow>
                 if \<not> list_all (je_ok e) [1, 2, 3, 4] \<or> \<not> server_known d (jr_server_id row) \<or>
                    (makes_version p \<and> \<not> version_fits d (patched_version e p i j))
                 then (d, Inl JobDb)
                 else let t = store_patched e p i j row d in (t, get_job (je_ok e 5) (je_json e) t i))"

definition set_enabled_job :: "bool \<Rightarrow> int \<Rightarrow> job_db \<Rightarrow> string \<Rightarrow> bool \<Rightarrow> job_db \<times> (job_error, unit) res" where
  "set_enabled_job ok now d i b =
     (if \<not> ok then (d, Inl JobDb)
      else if \<not> list_ex (\<lambda>j. jr_id (so_row j) = i) (jt_jobs d) then (d, Inl JobNotFound)
      else (d\<lparr>jt_jobs := map (\<lambda>q. if jr_id (so_row q) = i then q\<lparr>so_row := (so_row q)\<lparr>jr_enabled := b\<rparr>, so_updated := now\<rparr> else q)
                         (jt_jobs d)\<rparr>, Inr ()))"

definition delete_job :: "bool \<Rightarrow> job_db \<Rightarrow> string \<Rightarrow> job_db \<times> (job_error, unit) res" where
  "delete_job ok d i =
     (if \<not> ok then (d, Inl JobDb)
      else if \<not> list_ex (\<lambda>j. jr_id (so_row j) = i) (jt_jobs d) then (d, Inl JobNotFound)
      else (d\<lparr>jt_jobs := filter (\<lambda>j. jr_id (so_row j) \<noteq> i) (jt_jobs d),
              jt_versions := filter (\<lambda>v. sn_job v \<noteq> i) (jt_versions d)\<rparr>, Inr ()))"

section \<open>Handlers\<close>

text \<open>The snapshot of a server, with the secrets store as its resolver, when every statement succeeds\<close>

definition snapshot :: "job_env \<Rightarrow> job_db \<Rightarrow> string \<Rightarrow> (string, sync_jobs) res" where
  "snapshot e d i =
     build_full_sync (js_read_env (je_json e)) (js_read_refs (je_json e)) (Some (resolve_for_job True (je_box e) d)) (\<lambda>_. True)
       (length (sync_rows (jt_servers d) (job_rows d) (version_rows d) i)) [] (jt_servers d) (job_rows d) (version_rows d) i"

text \<open>What \<open>fanoutSync\<close> and \<open>fanoutSyncBoth\<close> push: for each server once, its snapshot. A selector that cannot
  be resolved pushes nothing.\<close>

type_synonym pushes = "(string \<times> (string, sync_jobs) res) list"

definition targets_of :: "bool \<Rightarrow> job_db \<Rightarrow> job_row option \<Rightarrow> string list" where
  "targets_of ok d j =
     (case j of None \<Rightarrow> []
      | Some row \<Rightarrow> (case matching_server_ids ok d row of Inl err \<Rightarrow> [] | Inr ids \<Rightarrow> ids))"

definition fanout_sync :: "job_env \<Rightarrow> bool \<Rightarrow> job_db \<Rightarrow> job_row option \<Rightarrow> pushes" where
  "fanout_sync e ok d j = map (\<lambda>i. (i, snapshot e d i)) (targets_of ok d j)"

text \<open>The loop over both jobs with the set \<open>seen\<close>\<close>

fun first_seen :: "string list \<Rightarrow> string list \<Rightarrow> string list" where
  "first_seen seen [] = []"
| "first_seen seen (x # xs) = (if x \<in> set seen then first_seen seen xs else x # first_seen (x # seen) xs)"

definition fanout_sync_both :: "job_env \<Rightarrow> bool \<Rightarrow> bool \<Rightarrow> job_db \<Rightarrow> job_row option \<Rightarrow> job_row option \<Rightarrow> pushes" where
  "fanout_sync_both e ok1 ok2 d before after =
     map (\<lambda>i. (i, snapshot e d i)) (first_seen [] (targets_of ok1 d before @ targets_of ok2 d after))"

text \<open>The pushes handed to the registry, one after the other\<close>

fun deliver :: "bool \<Rightarrow> registry \<Rightarrow> pushes \<Rightarrow> registry" where
  "deliver pick g [] = g"
| "deliver pick g ((i, sync) # ps) = deliver pick (fst (push_full_sync pick g sync i)) ps"

datatype job_reply = JobRefused nat string | JobIs nat job | Jobs "job list" | Runs "(string \<times> string \<times> string) list" | Gone

definition job_of :: "(job_error, job) res \<Rightarrow> job_row option" where
  "job_of r = (case r of Inl err \<Rightarrow> None | Inr j \<Rightarrow> Some (jb_row j))"

definition list_handler :: "job_env \<Rightarrow> job_db \<Rightarrow> string \<Rightarrow> job_reply" where
  "list_handler e d server =
     (case list_jobs (je_ok e 0) (je_json e) d server of Inl err \<Rightarrow> JobRefused 500 ''list_failed'' | Inr js \<Rightarrow> Jobs js)"

definition get_job_handler :: "job_env \<Rightarrow> job_db \<Rightarrow> string \<Rightarrow> job_reply" where
  "get_job_handler e d i =
     (case get_job (je_ok e 0) (je_json e) d i of
        Inl JobNotFound \<Rightarrow> JobRefused 404 ''not_found'' | Inl _ \<Rightarrow> JobRefused 500 ''get_failed'' | Inr j \<Rightarrow> JobIs 200 j)"

text \<open>Statement 5 resolves the targets.\<close>

definition create_job_handler :: "job_env \<Rightarrow> job_db \<Rightarrow> (string, create_job_input) res \<Rightarrow> job_db \<times> pushes \<times> job_reply" where
  "create_job_handler e d body =
     (case body of
        Inl err \<Rightarrow> (d, [], JobRefused 400 ''bad_request'')
      | Inr inp \<Rightarrow>
          if cj_name inp = [] \<or> cj_schedule_cron inp = [] \<or> cj_script_body inp = [] then (d, [], JobRefused 400 ''missing_fields'')
          else (case insert_job e d inp of
                  (t, Inl err) \<Rightarrow> (t, [], JobRefused 400 ''insert_failed'')
                | (t, Inr j) \<Rightarrow> (t, fanout_sync e (je_ok e 5) t (Some (jb_row j)), JobIs 201 j)))"

text \<open>Statement 6 reads the job before the change, 7 and 8 resolve the targets. A job that was not read has
  no target kind, so nothing to match.\<close>

definition patch_job_handler :: "job_env \<Rightarrow> job_db \<Rightarrow> string \<Rightarrow> (string, patch_job_input) res \<Rightarrow> job_db \<times> pushes \<times> job_reply" where
  "patch_job_handler e d i body =
     (case body of
        Inl err \<Rightarrow> (d, [], JobRefused 400 ''bad_request'')
      | Inr p \<Rightarrow>
          let before = job_of (get_job (je_ok e 6) (je_json e) d i)
          in (case patch_job e d i p of
                (t, Inl JobNotFound) \<Rightarrow> (t, [], JobRefused 404 ''not_found'')
              | (t, Inl err) \<Rightarrow> (t, [], JobRefused 400 ''patch_failed'')
              | (t, Inr j) \<Rightarrow> (t, fanout_sync_both e (je_ok e 7) (je_ok e 8) t before (Some (jb_row j)), JobIs 200 j)))"

definition delete_job_handler :: "job_env \<Rightarrow> job_db \<Rightarrow> string \<Rightarrow> job_db \<times> pushes \<times> job_reply" where
  "delete_job_handler e d i =
     (case get_job (je_ok e 0) (je_json e) d i of
        Inl JobNotFound \<Rightarrow> (d, [], JobRefused 404 ''not_found'')
      | Inl _ \<Rightarrow> (d, [], JobRefused 500 ''get_failed'')
      | Inr j \<Rightarrow>
          (case delete_job (je_ok e 1) d (jr_id (jb_row j)) of
             (t, Inl err) \<Rightarrow> (t, [], JobRefused 500 ''delete_failed'')
           | (t, Inr _) \<Rightarrow> (t, fanout_sync e (je_ok e 2) t (Some (jb_row j)), Gone)))"

definition set_enabled_handler :: "job_env \<Rightarrow> job_db \<Rightarrow> string \<Rightarrow> bool \<Rightarrow> job_db \<times> pushes \<times> job_reply" where
  "set_enabled_handler e d i b =
     (case set_enabled_job (je_ok e 0) (je_now e) d i b of
        (t, Inl JobNotFound) \<Rightarrow> (t, [], JobRefused 404 ''not_found'')
      | (t, Inl _) \<Rightarrow> (t, [], JobRefused 500 ''update_failed'')
      | (t, Inr _) \<Rightarrow>
          let r = get_job (je_ok e 1) (je_json e) t i
          in (t, fanout_sync e (je_ok e 2) t (job_of r),
              (case r of Inl err \<Rightarrow> JobRefused 200 [] | Inr j \<Rightarrow> JobIs 200 j)))"

text \<open>\<open>runNow\<close>: \<open>runs\<close> are new ids. A push that the registry refuses is reported as an offline agent.\<close>

fun push_runs :: "bool \<Rightarrow> registry \<Rightarrow> job_row \<Rightarrow> string list \<Rightarrow> string list \<Rightarrow> registry \<times> (string \<times> string \<times> string) list" where
  "push_runs pick g j (server # servers) (run # runs) =
     (case push_run_now pick g server (jr_id j) (jr_current_version j) run of
        (g1, out) \<Rightarrow> (case push_runs pick g1 j servers runs of
                       (g2, rest) \<Rightarrow> (g2, (server, run, if out = Sent then ''queued'' else ''agent_offline'') # rest)))"
| "push_runs pick g j _ _ = (g, [])"

definition run_now_handler :: "job_env \<Rightarrow> bool \<Rightarrow> (nat \<Rightarrow> string) \<Rightarrow> job_db \<Rightarrow> registry \<Rightarrow> string \<Rightarrow> registry \<times> job_reply" where
  "run_now_handler e pick fresh d g i =
     (case get_job (je_ok e 0) (je_json e) d i of
        Inl JobNotFound \<Rightarrow> (g, JobRefused 404 ''not_found'')
      | Inl _ \<Rightarrow> (g, JobRefused 500 ''get_failed'')
      | Inr j \<Rightarrow>
          (case matching_server_ids (je_ok e 1) d (jb_row j) of
             Inl err \<Rightarrow> (g, JobRefused 500 ''resolve_failed'')
           | Inr [] \<Rightarrow> (g, JobRefused 400 ''no_targets'')
           | Inr ids \<Rightarrow> (case push_runs pick g (jb_row j) ids (map fresh [0 ..< length ids]) of (g1, rs) \<Rightarrow> (g1, Runs rs))))"

definition secret_create_handler :: "job_env \<Rightarrow> (string, string) res \<Rightarrow> string \<Rightarrow> job_db \<Rightarrow> (string, secret_input) res \<Rightarrow>
    job_db \<times> (nat \<times> string, secret_view) res" where
  "secret_create_handler e nonce i d body =
     (case body of
        Inl err \<Rightarrow> (d, Inl (400, ''bad_request''))
      | Inr inp \<Rightarrow>
          if xi_name inp = [] \<or> xi_value inp = [] then (d, Inl (400, ''missing_fields''))
          else (case insert_secret (je_ok e) (je_box e) nonce i (je_now e) d inp of
                  (t, Inl err) \<Rightarrow> (t, Inl (500, ''insert_failed'')) | (t, Inr v) \<Rightarrow> (t, Inr v)))"

definition secret_delete_handler :: "job_env \<Rightarrow> job_db \<Rightarrow> string \<Rightarrow> job_db \<times> (nat \<times> string, unit) res" where
  "secret_delete_handler e d i =
     (case delete_secret (je_ok e 0) d i of
        (t, Inl JobNotFound) \<Rightarrow> (t, Inl (404, ''not_found''))
      | (t, Inl _) \<Rightarrow> (t, Inl (500, ''delete_failed''))
      | (t, Inr _) \<Rightarrow> (t, Inr ()))"

end
