(* ===== verification/JobFacts.thy ===== *)
theory JobFacts
  imports Jobs
begin

text \<open>
  The tables of jobs stay consistent under every operation, every server whose snapshot an operation
  changes is sent its new snapshot, and so what the agents hold follows the tables (\<open>mirrored\<close>). The last
  section is about the precedence of secrets.
\<close>

section \<open>Mirrors\<close>

text \<open>A machine with a view per client, that tells clients their new views: where each change of a view is
  told, a client that starts with its view and stores what it is told always holds its view.\<close>

definition hears :: "('k \<times> 'v) list \<Rightarrow> ('k \<Rightarrow> 'v) \<Rightarrow> 'k \<Rightarrow> 'v" where
  "hears ps c = foldl (\<lambda>m p. m(fst p := snd p)) c ps"

fun held_after :: "('o \<Rightarrow> 's \<Rightarrow> 's \<times> ('k \<times> 'v) list) \<Rightarrow> 'o list \<Rightarrow> 's \<Rightarrow> ('k \<Rightarrow> 'v) \<Rightarrow> 'k \<Rightarrow> 'v" where
  "held_after step [] s c = c"
| "held_after step (x # xs) s c = held_after step xs (fst (step x s)) (hears (snd (step x s)) c)"

lemma told_other: "k \<notin> fst ` set ps \<Longrightarrow> hears ps c k = c k"
  by (induction ps arbitrary: c) (auto simp: hears_def)

lemma told_uniform: "(\<And>v. (k, v) \<in> set ps \<Longrightarrow> v = w) \<Longrightarrow> k \<in> fst ` set ps \<Longrightarrow> hears ps c k = w"
proof (induction ps arbitrary: c)
  case (Cons p ps)
  show ?case
  proof (cases "k \<in> fst ` set ps")
    case True
    with Cons show ?thesis by (simp add: hears_def)
  next
    case False
    with Cons.prems have "fst p = k" "snd p = w" by (auto intro: Cons.prems(1))
    with told_other[OF False, of "c(fst p := snd p)"] show ?thesis by (simp add: hears_def)
  qed
qed simp

locale mirrored =
  fixes step :: "'o \<Rightarrow> 's \<Rightarrow> 's \<times> ('k \<times> 'v) list"
    and ok :: "'o \<Rightarrow> bool"
    and inv :: "'s \<Rightarrow> bool"
    and view :: "'s \<Rightarrow> 'k \<Rightarrow> 'v"
  assumes step_inv: "inv s \<Longrightarrow> inv (fst (step x s))"
    and step_true: "(k, v) \<in> set (snd (step x s)) \<Longrightarrow> ok x \<Longrightarrow> v = view (fst (step x s)) k"
    and step_told: "inv s \<Longrightarrow> ok x \<Longrightarrow> view (fst (step x s)) k \<noteq> view s k \<Longrightarrow> k \<in> fst ` set (snd (step x s))"
begin

lemma run_kept: "inv s \<Longrightarrow> inv (ends_in (\<lambda>x s. step x s) xs s)"
  by (induction xs arbitrary: s) (auto intro: step_inv)

lemma step_held: "inv s \<Longrightarrow> ok x \<Longrightarrow> hears (snd (step x s)) (view s) k = view (fst (step x s)) k"
proof (cases "k \<in> fst ` set (snd (step x s))")
  case True
  then show "ok x \<Longrightarrow> ?thesis" by (blast intro: told_uniform step_true)
next
  case False
  with step_told[of s x k] show "inv s \<Longrightarrow> ok x \<Longrightarrow> ?thesis" by (auto simp: told_other)
qed

lemma run_held: "inv s \<Longrightarrow> list_all ok xs \<Longrightarrow> held_after step xs s (view s) = view (ends_in step xs s)"
proof (induction xs arbitrary: s)
  case (Cons x xs)
  have "hears (snd (step x s)) (view s) = view (fst (step x s))"
    using Cons.prems by (auto intro: step_held)
  with Cons step_inv show ?case by simp
qed simp

end

section \<open>Consistent tables\<close>

definition target_valid :: "job_row \<Rightarrow> bool" where
  "target_valid j \<longleftrightarrow>
     validate_target (jr_target_kind j) (coalesce [] (jr_server_id j)) (coalesce [] (jr_target_labels j)) = None \<and>
     jr_server_id j \<noteq> Some []"

definition newest_of :: "job_db \<Rightarrow> job_row \<Rightarrow> stored_version \<Rightarrow> bool" where
  "newest_of d j v \<longleftrightarrow> sn_job v = jr_id j \<and> vr_id (sn_row v) = jr_current_version j \<and>
     list_all (\<lambda>w. sn_job w = jr_id j \<longrightarrow> vr_number (sn_row w) \<le> vr_number (sn_row v)) (jt_versions d)"

definition job_fine :: "job_db \<Rightarrow> stored_job \<Rightarrow> bool" where
  "job_fine d q \<longleftrightarrow> target_valid (so_row q) \<and> server_known d (jr_server_id (so_row q)) \<and>
     list_ex (newest_of d (so_row q)) (jt_versions d)"

definition jobs_ok :: "job_db \<Rightarrow> bool" where
  "jobs_ok d \<longleftrightarrow> distinct (map sv_id (jt_servers d)) \<and> distinct (map (\<lambda>q. jr_id (so_row q)) (jt_jobs d)) \<and>
     distinct (map (\<lambda>v. vr_id (sn_row v)) (jt_versions d)) \<and>
     distinct (map (\<lambda>v. (sn_job v, vr_number (sn_row v))) (jt_versions d)) \<and>
     list_all (job_fine d) (jt_jobs d) \<and>
     list_all (\<lambda>v. list_ex (\<lambda>q. jr_id (so_row q) = sn_job v) (jt_jobs d)) (jt_versions d)"

datatype job_op =
    CreateJob "(string, create_job_input) res" | PatchJob string "(string, patch_job_input) res"
  | DeleteJob string | EnableJob string bool

definition job_step :: "job_env \<times> job_op \<Rightarrow> job_db \<Rightarrow> job_db \<times> pushes" where
  "job_step x d =
     (case x of (e, op) \<Rightarrow>
       let h = (case op of CreateJob body \<Rightarrow> create_job_handler e d body | PatchJob i body \<Rightarrow> patch_job_handler e d i body
                  | DeleteJob i \<Rightarrow> delete_job_handler e d i | EnableJob i b \<Rightarrow> set_enabled_handler e d i b)
       in (fst h, fst (snd h)))"

section \<open>Reading a consistent table\<close>

lemma filter_key_one: "distinct (map f xs) \<Longrightarrow> x \<in> set xs \<Longrightarrow> filter (\<lambda>y. f y = f x) xs = [x]"
  by (induction xs) (auto simp: filter_empty_conv image_iff)

lemma find_map_key: "List.find P (map f xs) = map_option f (List.find (\<lambda>x. P (f x)) xs)"
  by (induction xs) auto

definition cur_row :: "job_db \<Rightarrow> job_row \<Rightarrow> version_row" where
  "cur_row d j = hd (filter (\<lambda>v. vr_id v = jr_current_version j) (version_rows d))"

lemma cur_row_of:
  assumes "distinct (map (\<lambda>v. vr_id (sn_row v)) (jt_versions d))" "v \<in> set (jt_versions d)" "vr_id (sn_row v) = jr_current_version j"
  shows "filter (\<lambda>v. vr_id v = jr_current_version j) (version_rows d) = [sn_row v]" "cur_row d j = sn_row v"
proof -
  have "filter (\<lambda>w. vr_id (sn_row w) = vr_id (sn_row v)) (jt_versions d) = [v]"
    using assms(1,2) by (rule filter_key_one)
  then show r: "filter (\<lambda>v. vr_id v = jr_current_version j) (version_rows d) = [sn_row v]"
    by (simp add: version_rows_def filter_map o_def assms(3))
  then show "cur_row d j = sn_row v" by (simp add: cur_row_def)
qed

lemma jobs_ok_cur:
  assumes "jobs_ok d" "q \<in> set (jt_jobs d)"
  shows "filter (\<lambda>v. vr_id v = jr_current_version (so_row q)) (version_rows d) = [cur_row d (so_row q)]"
    and "\<exists>v \<in> set (jt_versions d). newest_of d (so_row q) v \<and> sn_row v = cur_row d (so_row q)"
proof -
  obtain v where v: "v \<in> set (jt_versions d)" "newest_of d (so_row q) v"
    using assms by (auto simp: jobs_ok_def job_fine_def list_all_iff list_ex_iff)
  have "distinct (map (\<lambda>v. vr_id (sn_row v)) (jt_versions d))" "vr_id (sn_row v) = jr_current_version (so_row q)"
    using assms(1) v(2) by (simp_all add: jobs_ok_def newest_of_def)
  note r = cur_row_of[OF this(1) v(1) this(2)]
  show "filter (\<lambda>v. vr_id v = jr_current_version (so_row q)) (version_rows d) = [cur_row d (so_row q)]" using r by simp
  show "\<exists>v \<in> set (jt_versions d). newest_of d (so_row q) v \<and> sn_row v = cur_row d (so_row q)" using v r by auto
qed

lemma joined_ok: "jobs_ok d \<Longrightarrow> joined d = map (\<lambda>q. (q, cur_row d (so_row q))) (jt_jobs d)"
proof -
  assume ok: "jobs_ok d"
  have "concat (map (\<lambda>j. map (Pair j) (filter (\<lambda>v. vr_id v = jr_current_version (so_row j)) (version_rows d))) xs) =
      map (\<lambda>q. (q, cur_row d (so_row q))) xs" if "set xs \<subseteq> set (jt_jobs d)" for xs
    using that by (induction xs) (auto simp: jobs_ok_cur(1)[OF ok])
  then show ?thesis by (simp add: joined_def)
qed

lemma get_job_ok:
  "jobs_ok d \<Longrightarrow> get_job True js d i =
     (case List.find (\<lambda>q. jr_id (so_row q) = i) (jt_jobs d) of
        None \<Rightarrow> Inl JobNotFound | Some q \<Rightarrow> Inr (scan_stored js (q, cur_row d (so_row q))))"
  by (simp add: get_job_def joined_ok find_map_key split: option.splits)

lemma get_job_known:
  assumes "get_job ok js d i = Inr j" "jobs_ok d"
  obtains q where "q \<in> set (jt_jobs d)" "jr_id (so_row q) = i" "j = scan_stored js (q, cur_row d (so_row q))"
  using assms by (auto simp: get_job_def joined_ok find_map_key find_Some_iff split: option.splits if_splits intro!: that nth_mem)

lemma get_job_finds:
  assumes "jobs_ok d" "q \<in> set (jt_jobs d)" "jr_id (so_row q) = i"
  shows "get_job True js d i = Inr (scan_stored js (q, cur_row d (so_row q)))"
proof -
  have "List.find (\<lambda>q. jr_id (so_row q) = i) xs = Some q" if "distinct (map (\<lambda>q. jr_id (so_row q)) xs)" "q \<in> set xs" for xs
    using that assms(3) by (induction xs) (auto simp: image_iff)
  with assms show ?thesis by (simp add: get_job_ok jobs_ok_def)
qed

section \<open>Snapshots and targets\<close>

definition sync_of :: "job_db \<Rightarrow> string \<Rightarrow> (job_row \<times> version_row) list" where
  "sync_of d i = sync_rows (jt_servers d) (job_rows d) (version_rows d) i"

lemma sync_of_ok:
  assumes "jobs_ok d"
  shows "sync_of d i = map (\<lambda>q. (so_row q, cur_row d (so_row q))) (filter (\<lambda>q. job_assigned (jt_servers d) i (so_row q)) (jt_jobs d))"
proof -
  have "concat (map (\<lambda>q. if job_assigned (jt_servers d) i (so_row q)
        then map (Pair (so_row q)) (filter (\<lambda>v. vr_id v = jr_current_version (so_row q)) (version_rows d)) else []) xs) =
      map (\<lambda>q. (so_row q, cur_row d (so_row q))) (filter (\<lambda>q. job_assigned (jt_servers d) i (so_row q)) xs)"
    if "set xs \<subseteq> set (jt_jobs d)" for xs
    using that by (induction xs) (auto simp: jobs_ok_cur(1)[OF assms])
  then show ?thesis by (simp add: sync_of_def sync_rows_def job_rows_def o_def)
qed

lemma snapshot_same:
  assumes "je_json e' = je_json e" "je_box e' = je_box e" "jt_secrets t = jt_secrets d" "sync_of t i = sync_of d i"
  shows "snapshot e' t i = snapshot e d i"
proof -
  have "resolve_for_job True box t = resolve_for_job True box d" for box
    using assms(3) by (intro ext) (simp add: resolve_for_job_def)
  with assms show ?thesis by (simp add: snapshot_def build_full_sync_def sync_of_def[symmetric] Let_def)
qed

lemma map_filter_other:
  assumes "\<And>x. x \<in> set xs \<Longrightarrow> (g x = x \<and> f x = h x) \<or> (\<not> P (g x) \<and> \<not> P x)"
  shows "map f (filter P (map g xs)) = map h (filter P xs)"
  using assms
proof (induction xs)
  case (Cons x xs)
  have x: "(g x = x \<and> f x = h x) \<or> (\<not> P (g x) \<and> \<not> P x)" by (rule Cons.prems) simp
  have "map f (filter P (map g xs)) = map h (filter P xs)" by (rule Cons.IH) (rule Cons.prems, simp)
  with x show ?case by (elim disjE conjE) simp_all
qed simp

lemma server_labels_of: "distinct (map sv_id rows) \<Longrightarrow> r \<in> set rows \<Longrightarrow> server_labels rows (sv_id r) = coalesce [] (sv_labels r)"
proof -
  assume a: "distinct (map sv_id rows)" "r \<in> set rows"
  have "List.find (\<lambda>x. sv_id x = sv_id r) rows = Some r" using a by (induction rows) (auto simp: image_iff)
  then show ?thesis by (simp add: server_labels_def)
qed

lemma server_labels_unknown: "i \<notin> sv_id ` set rows \<Longrightarrow> server_labels rows i = []"
proof -
  assume "i \<notin> sv_id ` set rows"
  then have "List.find (\<lambda>x. sv_id x = i) rows = None" by (auto simp: find_None_iff)
  then show ?thesis by (simp add: server_labels_def coalesce_def)
qed

lemma labels_contained_nil: "labels_contained ls [] \<longleftrightarrow> ls = []"
  by (cases ls) (auto simp: labels_contained_def)

text \<open>The query of the targets of a job and the query of the jobs of a server agree.\<close>

lemma targets_exact:
  assumes d: "distinct (map sv_id (jt_servers d))" and v: "target_valid (so_row q)"
  shows "i \<in> set (targets_of True d (Some (jb_row (scan_stored js (q, w))))) \<longleftrightarrow> job_assigned (jt_servers d) i (so_row q)"
proof (cases "jr_target_kind (so_row q) = ''server''")
  case True
  then show ?thesis by (auto simp: targets_of_def matching_server_ids_def scan_stored_def job_assigned_def split: option.splits)
next
  case False
  then have k: "jr_target_kind (so_row q) = ''labels''" "coalesce [] (jr_target_labels (so_row q)) \<noteq> []"
    using v by (auto simp: target_valid_def validate_target_def split: if_splits)
  then obtain ls where ls: "jr_target_labels (so_row q) = Some ls" "ls \<noteq> []"
    by (auto simp: coalesce_def split: option.splits)
  have "(\<exists>r\<in>set (jt_servers d). sv_id r = i \<and> (case sv_labels r of None \<Rightarrow> False | Some have \<Rightarrow> labels_contained ls have)) \<longleftrightarrow>
      labels_contained ls (server_labels (jt_servers d) i)"
  proof (cases "i \<in> sv_id ` set (jt_servers d)")
    case True
    then obtain r where r: "r \<in> set (jt_servers d)" "sv_id r = i" by auto
    let ?m = "\<lambda>r. case sv_labels r of None \<Rightarrow> False | Some have \<Rightarrow> labels_contained ls have"
    have l: "labels_contained ls (coalesce [] (sv_labels r)) \<longleftrightarrow> ?m r"
      using ls by (simp add: coalesce_def labels_contained_nil split: option.splits)
    have "r' = r" if "r' \<in> set (jt_servers d)" "sv_id r' = i" for r'
    proof -
      have "inj_on sv_id (set (jt_servers d))" using d by (simp add: distinct_map)
      from inj_onD[OF this _ that(1) r(1)] that(2) r(2) show ?thesis by simp
    qed
    with r have "(\<exists>r\<in>set (jt_servers d). sv_id r = i \<and> ?m r) \<longleftrightarrow> ?m r" by blast
    with l server_labels_of[OF d r(1)] r(2) show ?thesis by simp
  next
    case False
    then show ?thesis using ls by (auto simp: server_labels_unknown labels_contained_nil)
  qed
  moreover have "i \<in> set (targets_of True d (Some (jb_row (scan_stored js (q, w))))) \<longleftrightarrow>
      (\<exists>r\<in>set (jt_servers d). sv_id r = i \<and> (case sv_labels r of None \<Rightarrow> False | Some have \<Rightarrow> labels_contained ls have))"
    using k(1) ls(1)
    by (simp add: targets_of_def matching_server_ids_def scan_stored_def coalesce_def image_def conj_commute eq_commute[of i] conj_left_commute Bex_def split del: if_split)
  moreover have "job_assigned (jt_servers d) i (so_row q) \<longleftrightarrow> labels_contained ls (server_labels (jt_servers d) i)"
    using k(1) ls(1) by (simp add: job_assigned_def)
  ultimately show ?thesis by simp
qed

section \<open>Every operation keeps the tables consistent\<close>

lemma newest_of_versions: "jt_versions t = jt_versions d \<Longrightarrow> newest_of t = newest_of d"
  by (intro ext) (simp add: newest_of_def)

lemma server_known_servers: "jt_servers t = jt_servers d \<Longrightarrow> server_known t = server_known d"
  by (intro ext) (simp add: server_known_def split: option.splits)

lemma newest_of_row:
  "jr_id j' = jr_id j \<Longrightarrow> jr_current_version j' = jr_current_version j \<Longrightarrow> newest_of d j' v = newest_of d j v"
  by (simp add: newest_of_def)

text \<open>A version appended: the current version of the jobs it is not for stays the newest.\<close>

lemma newest_of_append:
  "newest_of d j v \<Longrightarrow> sn_job ver \<noteq> jr_id j \<Longrightarrow> newest_of (d\<lparr>jt_versions := jt_versions d @ [ver], jt_jobs := js\<rparr>) j v"
  by (auto simp: newest_of_def)

lemma version_fits_distinct:
  assumes "version_fits d v" "distinct (map (\<lambda>v. vr_id (sn_row v)) (jt_versions d))"
    "distinct (map (\<lambda>v. (sn_job v, vr_number (sn_row v))) (jt_versions d))"
  shows "distinct (map (\<lambda>v. vr_id (sn_row v)) (jt_versions d @ [v]))"
    "distinct (map (\<lambda>v. (sn_job v, vr_number (sn_row v))) (jt_versions d @ [v]))"
  using assms by (auto simp: version_fits_def list_all_iff)

lemma jobs_ok_fine: "jobs_ok d \<Longrightarrow> q \<in> set (jt_jobs d) \<Longrightarrow> job_fine d q"
  by (simp add: jobs_ok_def list_all_iff)

lemma added_ok:
  assumes ok: "jobs_ok d" and new: "jr_id (so_row q) \<notin> (\<lambda>q. jr_id (so_row q)) ` set (jt_jobs d)"
    and q: "target_valid (so_row q)" "server_known d (jr_server_id (so_row q))"
    and v: "version_fits d ver" "sn_job ver = jr_id (so_row q)" "vr_id (sn_row ver) = jr_current_version (so_row q)"
  shows "jobs_ok (d\<lparr>jt_jobs := jt_jobs d @ [q], jt_versions := jt_versions d @ [ver]\<rparr>)" (is "jobs_ok ?t")
proof -
  have none: "sn_job w \<noteq> jr_id (so_row q)" if "w \<in> set (jt_versions d)" for w
  proof -
    have "\<exists>q\<in>set (jt_jobs d). jr_id (so_row q) = sn_job w" using ok that by (auto simp: jobs_ok_def list_all_iff list_ex_iff)
    with new show ?thesis by (metis image_eqI)
  qed
  have k: "server_known ?t = server_known d" by (rule server_known_servers) simp
  have "job_fine ?t q"
    using q v none by (auto simp: job_fine_def newest_of_def list_all_iff k)
  moreover have "job_fine ?t p" if p: "p \<in> set (jt_jobs d)" for p
  proof -
    obtain w where w: "w \<in> set (jt_versions d)" "newest_of d (so_row p) w"
      using jobs_ok_fine[OF ok p] by (auto simp: job_fine_def list_ex_iff)
    have "sn_job ver \<noteq> jr_id (so_row p)" using v(2) new p by auto
    with w(2) have "newest_of ?t (so_row p) w" by (auto simp: newest_of_def)
    with w(1) jobs_ok_fine[OF ok p] show ?thesis by (auto simp: job_fine_def list_ex_iff k)
  qed
  ultimately show ?thesis using ok new version_fits_distinct[OF v(1)] v(2)
    by (auto simp: jobs_ok_def list_all_iff list_ex_iff)
qed

lemma changed_ok:
  assumes ok: "jobs_ok d"
    and g: "\<And>q. q \<in> set (jt_jobs d) \<Longrightarrow> jr_id (so_row (g q)) = jr_id (so_row q) \<and> target_valid (so_row (g q)) \<and>
        server_known d (jr_server_id (so_row (g q)))"
    and vs: "distinct (map (\<lambda>v. vr_id (sn_row v)) vs)" "distinct (map (\<lambda>v. (sn_job v, vr_number (sn_row v))) vs)"
      "list_all (\<lambda>v. list_ex (\<lambda>q. jr_id (so_row q) = sn_job v) (jt_jobs d)) vs"
    and cur: "\<And>q. q \<in> set (jt_jobs d) \<Longrightarrow> list_ex (newest_of (d\<lparr>jt_versions := vs\<rparr>) (so_row (g q))) vs"
  shows "jobs_ok (d\<lparr>jt_jobs := map g (jt_jobs d), jt_versions := vs\<rparr>)" (is "jobs_ok ?t")
proof -
  have n: "newest_of ?t = newest_of (d\<lparr>jt_versions := vs\<rparr>)" by (rule newest_of_versions) simp
  have k: "server_known ?t = server_known d" by (rule server_known_servers) simp
  have ids: "map (\<lambda>q. jr_id (so_row q)) (map g (jt_jobs d)) = map (\<lambda>q. jr_id (so_row q)) (jt_jobs d)" using g by simp
  have "job_fine ?t (g q)" if "q \<in> set (jt_jobs d)" for q
    using g[OF that] cur[OF that] by (simp add: job_fine_def n k)
  moreover have "list_all (\<lambda>v. list_ex (\<lambda>q. jr_id (so_row q) = sn_job v) (map g (jt_jobs d))) vs"
    using vs(3) g by (auto simp: list_all_iff list_ex_iff)
  moreover have "distinct (map (\<lambda>q. jr_id (so_row q)) (jt_jobs ?t))"
  proof -
    have "jt_jobs ?t = map g (jt_jobs d)" by simp
    with ids show ?thesis using ok unfolding jobs_ok_def by presburger
  qed
  ultimately show ?thesis using ok vs(1,2) unfolding jobs_ok_def by (simp add: list_all_iff del: map_map)
qed

lemma removed_ok:
  assumes ok: "jobs_ok d"
  shows "jobs_ok (d\<lparr>jt_jobs := filter (\<lambda>j. jr_id (so_row j) \<noteq> i) (jt_jobs d), jt_versions := filter (\<lambda>v. sn_job v \<noteq> i) (jt_versions d)\<rparr>)"
    (is "jobs_ok ?t")
proof -
  have k: "server_known ?t = server_known d" by (rule server_known_servers) simp
  have "job_fine ?t q" if q: "q \<in> set (jt_jobs d)" "jr_id (so_row q) \<noteq> i" for q
  proof -
    obtain w where w: "w \<in> set (jt_versions d)" "newest_of d (so_row q) w"
      using jobs_ok_fine[OF ok q(1)] by (auto simp: job_fine_def list_ex_iff)
    then have "newest_of ?t (so_row q) w" "w \<in> set (jt_versions ?t)" using q(2) by (auto simp: newest_of_def list_all_iff)
    with jobs_ok_fine[OF ok q(1)] show ?thesis by (auto simp: job_fine_def list_ex_iff k)
  qed
  moreover have "\<exists>q\<in>set (jt_jobs ?t). jr_id (so_row q) = sn_job v" if "v \<in> set (jt_versions ?t)" for v
  proof -
    have "\<exists>q\<in>set (jt_jobs d). jr_id (so_row q) = sn_job v" "sn_job v \<noteq> i"
      using ok that by (auto simp: jobs_ok_def list_all_iff list_ex_iff)
    then show ?thesis by fastforce
  qed
  ultimately show ?thesis using ok unfolding jobs_ok_def by (simp add: list_all_iff list_ex_iff distinct_map_filter)
qed

lemma insert_job_cases:
  assumes "insert_job e d inp = (t, r)"
  obtains (same) "t = d" "\<exists>err. r = Inl err"
  | (new) q ver where "t = d\<lparr>jt_jobs := jt_jobs d @ [q], jt_versions := jt_versions d @ [ver]\<rparr>"
      "r = get_job (je_ok e 4) (je_json e) t (jr_id (so_row q))"
      "jr_id (so_row q) \<notin> (\<lambda>q. jr_id (so_row q)) ` set (jt_jobs d)"
      "target_valid (so_row q)" "server_known d (jr_server_id (so_row q))" "version_fits d ver"
      "sn_job ver = jr_id (so_row q)" "vr_id (sn_row ver) = jr_current_version (so_row q)"
proof -
  have coalesce_null: "coalesce [] (null_if_empty s) = s" "null_if_empty s \<noteq> Some []" for s
    by (simp_all add: coalesce_def null_if_empty_def)
  define inp1 where "inp1 = apply_defaults inp"
  define q where "q = \<lparr>so_row = created_row e inp1, so_description = Some (cj_description inp1), so_created = je_now e, so_updated = je_now e\<rparr>"
  show ?thesis
  proof (cases "validate_target (cj_target_kind inp1) (cj_server_id inp1) (cj_target_labels inp1) = None \<and>
      list_all (je_ok e) [0, 1, 2, 3] \<and> \<not> list_ex (\<lambda>j. jr_id (so_row j) = je_job_id e) (jt_jobs d) \<and>
      server_known d (null_if_empty (cj_server_id inp1)) \<and> version_fits d (created_version e inp1)")
    case False
    have "t = d \<and> (\<exists>err. r = Inl err)"
      using assms False by (auto simp: insert_job_def Let_def inp1_def[symmetric] split: option.splits if_splits)
    with same show ?thesis by blast
  next
    case True
    have "t = store_created e inp1 d" "r = get_job (je_ok e 4) (je_json e) t (je_job_id e)"
      using assms True by (auto simp: insert_job_def Let_def inp1_def[symmetric])
    moreover have "target_valid (created_row e inp1)"
      using True by (simp add: target_valid_def created_row_def coalesce_null) (simp add: coalesce_def)
    ultimately show ?thesis using True
      by (intro new[where q = q and ver = "created_version e inp1"])
         (auto simp: q_def store_created_def created_row_def created_version_def new_version_def list_ex_iff)
  qed
qed

text \<open>The row of \<open>patched_row\<close>, where its target is accepted\<close>

lemma patched_row_valid:
  assumes "target_valid (so_row q)" "j = scan_stored js (q, v)"
    "validate_target (jr_target_kind (patched_row p (jb_row j))) (coalesce [] (jr_server_id (patched_row p (jb_row j))))
       (coalesce [] (jr_target_labels (patched_row p (jb_row j)))) = None"
  shows "target_valid (patched_row p (jb_row j))"
proof -
  have "jr_server_id (patched_row p (jb_row j)) \<noteq> Some []"
    using assms(1,2) by (auto simp: patched_row_def scan_stored_def target_valid_def null_if_empty_def split: option.splits if_splits)
  with assms(3) show ?thesis by (simp add: target_valid_def)
qed

definition put_row :: "string \<Rightarrow> (stored_job \<Rightarrow> stored_job) \<Rightarrow> stored_job \<Rightarrow> stored_job" where
  "put_row i g q = (if jr_id (so_row q) = i then g q else q)"

lemma patch_job_cases:
  assumes "patch_job e d i p = (t, r)" "jobs_ok d"
  obtains (same) "t = d" "\<exists>err. r = Inl err"
  | (changed) q g vs where "q \<in> set (jt_jobs d)" "jr_id (so_row q) = i"
      "t = d\<lparr>jt_jobs := map (put_row i g) (jt_jobs d), jt_versions := jt_versions d @ vs\<rparr>"
      "r = get_job (je_ok e 5) (je_json e) t i"
      "jr_id (so_row (g q)) = i" "target_valid (so_row (g q))" "server_known d (jr_server_id (so_row (g q)))"
      "vs = [] \<and> jr_current_version (so_row (g q)) = jr_current_version (so_row q) \<or>
       (\<exists>ver. vs = [ver] \<and> version_fits d ver \<and> sn_job ver = i \<and> vr_id (sn_row ver) = jr_current_version (so_row (g q)) \<and>
          vr_number (sn_row ver) = vr_number (cur_row d (so_row q)) + 1)"
proof (cases "get_job (je_ok e 0) (je_json e) d i")
  case (Inl err)
  then have "patch_job e d i p = (d, Inl err)" by (simp add: patch_job_def)
  with assms(1) have "t = d" "r = Inl err" by simp_all
  then show ?thesis by (intro same) auto
next
  case (Inr j)
  from get_job_known[OF Inr assms(2)] obtain q where q: "q \<in> set (jt_jobs d)" "jr_id (so_row q) = i"
    and j: "j = scan_stored (je_json e) (q, cur_row d (so_row q))" .
  define row where "row = patched_row p (jb_row j)"
  define g :: "stored_job \<Rightarrow> stored_job" where "g = (\<lambda>o'. o'\<lparr>so_row := (if makes_version p then row\<lparr>jr_current_version := je_version_id e\<rparr> else row),
     so_description := Some (given_or (pt_description p) (jb_description j)), so_updated := je_now e\<rparr>)"
  define vs where "vs = (if makes_version p then [patched_version e p i j] else [])"
  have st: "store_patched e p i j row d = d\<lparr>jt_jobs := map (put_row i g) (jt_jobs d), jt_versions := jt_versions d @ vs\<rparr>"
    by (simp add: store_patched_def Let_def g_def vs_def put_row_def[abs_def])
  have row: "jr_id row = i" "jr_current_version row = jr_current_version (so_row q)"
    using q(2) by (simp_all add: row_def patched_row_def j scan_stored_def)
  show ?thesis
  proof (cases "validate_target (jr_target_kind row) (coalesce [] (jr_server_id row)) (coalesce [] (jr_target_labels row)) = None \<and>
      list_all (je_ok e) [1, 2, 3, 4] \<and> server_known d (jr_server_id row) \<and> (makes_version p \<longrightarrow> version_fits d (patched_version e p i j))")
    case False
    with assms(1) Inr have "t = d \<and> (\<exists>err. r = Inl err)"
      by (auto simp: patch_job_def row_def[symmetric] Let_def split: option.splits if_splits)
    with same show ?thesis by blast
  next
    case True
    have "target_valid row"
      using patched_row_valid[OF _ j] jobs_ok_fine[OF assms(2) q(1)] True by (simp add: row_def job_fine_def)
    then have v: "target_valid (so_row (g q))" by (simp add: g_def target_valid_def)
    have "t = d\<lparr>jt_jobs := map (put_row i g) (jt_jobs d), jt_versions := jt_versions d @ vs\<rparr>" "r = get_job (je_ok e 5) (je_json e) t i"
      using assms(1) Inr True by (auto simp: patch_job_def row_def[symmetric] Let_def st)
    with q v True row show ?thesis
      by (intro changed[where q = q and g = g and vs = vs]) (auto simp: g_def vs_def patched_version_def new_version_def j scan_stored_def)
  qed
qed

lemma insert_job_ok: "jobs_ok d \<Longrightarrow> jobs_ok (fst (insert_job e d inp))"
proof (cases "insert_job e d inp")
  case (Pair t r)
  assume "jobs_ok d"
  from Pair show ?thesis by (cases rule: insert_job_cases) (auto simp: Pair \<open>jobs_ok d\<close> intro!: added_ok)
qed

lemma newest_of_fits:
  assumes "jobs_ok d" "q \<in> set (jt_jobs d)" "version_fits d ver" "sn_job ver = jr_id (so_row q)"
    "vr_id (sn_row ver) = jr_current_version j" "jr_id j = jr_id (so_row q)"
    "vr_number (sn_row ver) = vr_number (cur_row d (so_row q)) + 1"
  shows "newest_of (d\<lparr>jt_versions := jt_versions d @ [ver]\<rparr>) j ver"
proof -
  obtain v where v: "newest_of d (so_row q) v" "sn_row v = cur_row d (so_row q)" using jobs_ok_cur(2)[OF assms(1,2)] by auto
  have "vr_number (sn_row w) \<le> vr_number (sn_row ver)" if "w \<in> set (jt_versions d)" "sn_job w = jr_id (so_row q)" for w
  proof -
    have "vr_number (sn_row w) \<le> vr_number (sn_row v)" using v(1) that by (simp add: newest_of_def list_all_iff)
    with v(2) assms(7) show ?thesis by simp
  qed
  with assms(4-6) show ?thesis by (auto simp: newest_of_def list_all_iff)
qed

lemma jobs_ok_unique:
  "jobs_ok d \<Longrightarrow> p \<in> set (jt_jobs d) \<Longrightarrow> q \<in> set (jt_jobs d) \<Longrightarrow> jr_id (so_row p) = jr_id (so_row q) \<Longrightarrow> p = q"
  by (auto simp: jobs_ok_def distinct_map dest: inj_onD)

lemma put_ok:
  assumes ok: "jobs_ok d" and q: "q \<in> set (jt_jobs d)" "jr_id (so_row q) = i"
    and g: "jr_id (so_row (g q)) = i" "target_valid (so_row (g q))" "server_known d (jr_server_id (so_row (g q)))"
    and vs: "vs = [] \<and> jr_current_version (so_row (g q)) = jr_current_version (so_row q) \<or>
       (\<exists>ver. vs = [ver] \<and> version_fits d ver \<and> sn_job ver = i \<and> vr_id (sn_row ver) = jr_current_version (so_row (g q)) \<and>
          vr_number (sn_row ver) = vr_number (cur_row d (so_row q)) + 1)"
  shows "jobs_ok (d\<lparr>jt_jobs := map (put_row i g) (jt_jobs d), jt_versions := jt_versions d @ vs\<rparr>)"
proof (rule changed_ok[OF ok])
  show "distinct (map (\<lambda>v. vr_id (sn_row v)) (jt_versions d @ vs))" "distinct (map (\<lambda>v. (sn_job v, vr_number (sn_row v))) (jt_versions d @ vs))"
  proof -
    have d: "distinct (map (\<lambda>v. vr_id (sn_row v)) (jt_versions d))" "distinct (map (\<lambda>v. (sn_job v, vr_number (sn_row v))) (jt_versions d))"
      using ok by (simp_all add: jobs_ok_def)
    from vs consider "vs = []" | ver where "vs = [ver]" "version_fits d ver" by auto
    then have "distinct (map (\<lambda>v. vr_id (sn_row v)) (jt_versions d @ vs)) \<and> distinct (map (\<lambda>v. (sn_job v, vr_number (sn_row v))) (jt_versions d @ vs))"
      by cases (simp add: d, simp only: version_fits_distinct[OF _ d] simp_thms)
    then show "distinct (map (\<lambda>v. vr_id (sn_row v)) (jt_versions d @ vs))" "distinct (map (\<lambda>v. (sn_job v, vr_number (sn_row v))) (jt_versions d @ vs))"
      by blast+
  qed
  show "list_all (\<lambda>v. list_ex (\<lambda>q. jr_id (so_row q) = sn_job v) (jt_jobs d)) (jt_versions d @ vs)"
    using ok vs q by (auto simp: jobs_ok_def list_all_iff list_ex_iff)
next
  fix p assume p: "p \<in> set (jt_jobs d)"
  have pq: "p = q" if "jr_id (so_row p) = i" using jobs_ok_unique[OF ok p q(1)] that q(2) by simp
  show "jr_id (so_row (put_row i g p)) = jr_id (so_row p) \<and> target_valid (so_row (put_row i g p)) \<and>
      server_known d (jr_server_id (so_row (put_row i g p)))"
    using jobs_ok_fine[OF ok p] g pq by (auto simp: put_row_def job_fine_def)
  obtain w where w: "w \<in> set (jt_versions d)" "newest_of d (so_row p) w"
    using jobs_ok_fine[OF ok p] by (auto simp: job_fine_def list_ex_iff)
  show "list_ex (newest_of (d\<lparr>jt_versions := jt_versions d @ vs\<rparr>) (so_row (put_row i g p))) (jt_versions d @ vs)"
  proof (cases "jr_id (so_row p) = i")
    case False
    with w vs have "newest_of (d\<lparr>jt_versions := jt_versions d @ vs\<rparr>) (so_row p) w" by (auto simp: newest_of_def)
    with w(1) False show ?thesis by (auto simp: put_row_def list_ex_iff)
  next
    case True
    from vs show ?thesis
    proof
      assume "vs = [] \<and> jr_current_version (so_row (g q)) = jr_current_version (so_row q)"
      with w True pq g(1) q(2) show ?thesis by (auto simp: put_row_def list_ex_iff newest_of_def)
    next
      assume "\<exists>ver. vs = [ver] \<and> version_fits d ver \<and> sn_job ver = i \<and> vr_id (sn_row ver) = jr_current_version (so_row (g q)) \<and>
          vr_number (sn_row ver) = vr_number (cur_row d (so_row q)) + 1"
      then obtain ver where ver: "vs = [ver]" "version_fits d ver" "sn_job ver = i"
        "vr_id (sn_row ver) = jr_current_version (so_row (g q))" "vr_number (sn_row ver) = vr_number (cur_row d (so_row q)) + 1" by auto
      have "newest_of (d\<lparr>jt_versions := jt_versions d @ [ver]\<rparr>) (so_row (g q)) ver"
        using newest_of_fits[OF ok q(1) ver(2)] ver(3-5) q(2) g(1) by simp
      with ver(1) True pq show ?thesis by (simp add: put_row_def list_ex_iff)
    qed
  qed
qed

lemma patch_job_ok: "jobs_ok d \<Longrightarrow> jobs_ok (fst (patch_job e d i p))"
proof (cases "patch_job e d i p")
  case (Pair t r)
  assume ok: "jobs_ok d"
  from Pair ok show ?thesis
  proof (cases rule: patch_job_cases)
    case (changed q g vs)
    then show ?thesis using Pair put_ok[OF ok, of q i g vs] by simp
  qed (simp add: Pair ok)
qed

lemma set_enabled_is_put:
  "jt_jobs (fst (set_enabled_job True now d i b)) =
     map (put_row i (\<lambda>q. q\<lparr>so_row := (so_row q)\<lparr>jr_enabled := b\<rparr>, so_updated := now\<rparr>)) (jt_jobs d)"
  by (auto simp: set_enabled_job_def put_row_def[abs_def] list_ex_iff map_idI)

lemma set_enabled_ok: "jobs_ok d \<Longrightarrow> jobs_ok (fst (set_enabled_job ok now d i b))"
proof (cases "ok \<and> list_ex (\<lambda>j. jr_id (so_row j) = i) (jt_jobs d)")
  case True
  assume d: "jobs_ok d"
  let ?g = "\<lambda>q. q\<lparr>so_row := (so_row q)\<lparr>jr_enabled := b\<rparr>, so_updated := now\<rparr>"
  obtain q where q: "q \<in> set (jt_jobs d)" "jr_id (so_row q) = i" using True by (auto simp: list_ex_iff)
  have "jobs_ok (d\<lparr>jt_jobs := map (put_row i ?g) (jt_jobs d), jt_versions := jt_versions d @ []\<rparr>)"
    using q jobs_ok_fine[OF d q(1)] by (intro put_ok[OF d, where q = q]) (auto simp: job_fine_def target_valid_def)
  with True show ?thesis by (simp add: set_enabled_job_def put_row_def[abs_def])
qed (auto simp: set_enabled_job_def)

lemma delete_job_ok: "jobs_ok d \<Longrightarrow> jobs_ok (fst (delete_job ok d i))"
  using removed_ok[of d i] by (simp add: delete_job_def)

lemma handler_db:
  "fst (create_job_handler e d body) = (case body of Inl err \<Rightarrow> d | Inr inp \<Rightarrow>
     if cj_name inp = [] \<or> cj_schedule_cron inp = [] \<or> cj_script_body inp = [] then d else fst (insert_job e d inp))"
  "fst (patch_job_handler e d i pbody) = (case pbody of Inl err \<Rightarrow> d | Inr p \<Rightarrow> fst (patch_job e d i p))"
  "fst (set_enabled_handler e d i b) = fst (set_enabled_job (je_ok e 0) (je_now e) d i b)"
  "fst (delete_job_handler e d i) = (case get_job (je_ok e 0) (je_json e) d i of Inl err \<Rightarrow> d
     | Inr j \<Rightarrow> fst (delete_job (je_ok e 1) d (jr_id (jb_row j))))"
  by (simp_all add: create_job_handler_def patch_job_handler_def set_enabled_handler_def delete_job_handler_def Let_def
      split: sum.splits prod.splits job_error.splits)

lemma job_step_ok: "jobs_ok d \<Longrightarrow> jobs_ok (fst (job_step x d))"
proof -
  assume "jobs_ok d"
  then have "jobs_ok (fst (create_job_handler e d body))" "jobs_ok (fst (patch_job_handler e d i pbody))"
      "jobs_ok (fst (set_enabled_handler e d i b))" "jobs_ok (fst (delete_job_handler e d i))" for e body i pbody b
    by (simp_all add: handler_db insert_job_ok patch_job_ok set_enabled_ok delete_job_ok split: sum.splits)
  then show ?thesis
    by (simp add: job_step_def Let_def split: prod.splits job_op.splits)
qed

section \<open>Who is told of a change\<close>

lemma cur_row_keeps:
  assumes "jobs_ok d" "jobs_ok t" "q \<in> set (jt_jobs d)"
    "\<And>v. v \<in> set (jt_versions d) \<Longrightarrow> sn_job v = jr_id (so_row q) \<Longrightarrow> v \<in> set (jt_versions t)"
  shows "cur_row t (so_row q) = cur_row d (so_row q)"
proof -
  obtain v where v: "v \<in> set (jt_versions d)" "newest_of d (so_row q) v" "sn_row v = cur_row d (so_row q)"
    using jobs_ok_cur(2)[OF assms(1,3)] by auto
  then have "v \<in> set (jt_versions t)" "vr_id (sn_row v) = jr_current_version (so_row q)"
    using assms(4) by (simp_all add: newest_of_def)
  with cur_row_of(2)[of t v "so_row q"] assms(2) v(3) show ?thesis by (simp add: jobs_ok_def)
qed

lemma added_sync:
  assumes "jobs_ok d" "jobs_ok (d\<lparr>jt_jobs := jt_jobs d @ [q], jt_versions := jt_versions d @ [ver]\<rparr>)" (is "jobs_ok ?t")
    "\<not> job_assigned (jt_servers d) i (so_row q)"
  shows "sync_of (d\<lparr>jt_jobs := jt_jobs d @ [q], jt_versions := jt_versions d @ [ver]\<rparr>) i = sync_of d i"
proof -
  have "cur_row ?t (so_row p) = cur_row d (so_row p)" if "p \<in> set (jt_jobs d)" for p
    using that by (intro cur_row_keeps[OF assms(1,2)]) auto
  with assms(3) show ?thesis by (simp add: sync_of_ok[OF assms(1)] sync_of_ok[OF assms(2)])
qed

lemma put_sync:
  assumes "jobs_ok d" "jobs_ok (d\<lparr>jt_jobs := map (put_row k g) (jt_jobs d), jt_versions := jt_versions d @ vs\<rparr>)" (is "jobs_ok ?t")
    "q \<in> set (jt_jobs d)" "jr_id (so_row q) = k"
    "\<not> job_assigned (jt_servers d) i (so_row q)" "\<not> job_assigned (jt_servers d) i (so_row (g q))"
  shows "sync_of (d\<lparr>jt_jobs := map (put_row k g) (jt_jobs d), jt_versions := jt_versions d @ vs\<rparr>) i = sync_of d i"
proof -
  have "map (\<lambda>q. (so_row q, cur_row ?t (so_row q))) (filter (\<lambda>q. job_assigned (jt_servers d) i (so_row q)) (map (put_row k g) (jt_jobs d)))
      = map (\<lambda>q. (so_row q, cur_row d (so_row q))) (filter (\<lambda>q. job_assigned (jt_servers d) i (so_row q)) (jt_jobs d))"
  proof (rule map_filter_other)
    fix p assume p: "p \<in> set (jt_jobs d)"
    have c: "cur_row ?t (so_row p) = cur_row d (so_row p)" using p by (intro cur_row_keeps[OF assms(1,2)]) auto
    have "p = q" if "jr_id (so_row p) = k" using jobs_ok_unique[OF assms(1) p assms(3)] that assms(4) by simp
    with assms(5,6) c show "(put_row k g p = p \<and> (so_row p, cur_row ?t (so_row p)) = (so_row p, cur_row d (so_row p))) \<or>
        \<not> job_assigned (jt_servers d) i (so_row (put_row k g p)) \<and> \<not> job_assigned (jt_servers d) i (so_row p)"
      by (auto simp: put_row_def)
  qed
  then show ?thesis by (simp add: sync_of_ok[OF assms(1)] sync_of_ok[OF assms(2)] del: map_map)
qed

lemma removed_sync:
  assumes "jobs_ok d" "q \<in> set (jt_jobs d)" "jr_id (so_row q) = k" "\<not> job_assigned (jt_servers d) i (so_row q)"
  shows "sync_of (d\<lparr>jt_jobs := filter (\<lambda>j. jr_id (so_row j) \<noteq> k) (jt_jobs d), jt_versions := filter (\<lambda>v. sn_job v \<noteq> k) (jt_versions d)\<rparr>) i
    = sync_of d i" (is "sync_of ?t i = _")
proof -
  have t: "jobs_ok ?t" by (rule removed_ok[OF assms(1)])
  have "p = q" if "p \<in> set (jt_jobs d)" "jr_id (so_row p) = k" for p
    using jobs_ok_unique[OF assms(1) that(1) assms(2)] that(2) assms(3) by simp
  then have f: "filter (\<lambda>p. jr_id (so_row p) \<noteq> k \<and> job_assigned (jt_servers d) i (so_row p)) (jt_jobs d) =
      filter (\<lambda>p. job_assigned (jt_servers d) i (so_row p)) (jt_jobs d)"
    using assms(4) by (intro filter_cong) auto
  have "cur_row ?t (so_row p) = cur_row d (so_row p)" if "p \<in> set (jt_jobs d)" "job_assigned (jt_servers d) i (so_row p)" for p
  proof -
    have "jr_id (so_row p) \<noteq> k" using jobs_ok_unique[OF assms(1) that(1) assms(2)] that(2) assms(3,4) by auto
    then show ?thesis using that(1) by (intro cur_row_keeps[OF assms(1) t]) auto
  qed
  then show ?thesis by (simp add: sync_of_ok[OF assms(1)] sync_of_ok[OF t] f)
qed

text \<open>All statements of a request succeed; the JSON library and the key are those of \<open>e0\<close>.\<close>

definition smooth :: "job_env \<Rightarrow> job_env \<times> job_op \<Rightarrow> bool" where
  "smooth e0 x \<longleftrightarrow> list_all (je_ok (fst x)) [0, 1, 2, 3, 4, 5, 6, 7, 8] \<and> je_json (fst x) = je_json e0 \<and> je_box (fst x) = je_box e0"

lemma set_first_seen: "set (first_seen seen xs) = set xs - set seen"
  by (induction seen xs rule: first_seen.induct) auto

lemma fanout_keys:
  "fst ` set (fanout_sync e ok t j) = set (targets_of ok t j)"
  "fst ` set (fanout_sync_both e ok1 ok2 t j k) = set (targets_of ok1 t j) \<union> set (targets_of ok2 t k)"
  by (simp_all add: fanout_sync_def fanout_sync_both_def image_image set_first_seen)

lemma fanout_true:
  "(i, v) \<in> set (fanout_sync e ok t j) \<Longrightarrow> v = snapshot e t i"
  "(i, v) \<in> set (fanout_sync_both e ok1 ok2 t j k) \<Longrightarrow> v = snapshot e t i"
  by (auto simp: fanout_sync_def fanout_sync_both_def)

lemma snapshot_env: "je_json e' = je_json e \<Longrightarrow> je_box e' = je_box e \<Longrightarrow> snapshot e' d = snapshot e d"
  by (intro ext snapshot_same) simp_all

lemma job_step_true:
  assumes "(i, v) \<in> set (snd (job_step x d))" "smooth e0 x"
  shows "v = snapshot e0 (fst (job_step x d)) i"
proof -
  obtain e op where x: "x = (e, op)" by fastforce
  have "v = snapshot e (fst (job_step x d)) i"
    using assms(1)
    by (auto simp: x job_step_def Let_def create_job_handler_def patch_job_handler_def delete_job_handler_def set_enabled_handler_def
        split: job_op.splits sum.splits prod.splits job_error.splits if_splits dest: fanout_true)
  with assms(2) x snapshot_env[of e e0] show ?thesis by (simp add: smooth_def)
qed

text \<open>A change of the tables that leaves servers and secrets alone tells all whom the changed jobs concern.\<close>

lemma told_if_sync:
  assumes "snapshot e t i \<noteq> snapshot e d i" "jt_secrets t = jt_secrets d"
  shows "sync_of t i \<noteq> sync_of d i"
  using assms snapshot_same[of e e t d i] by auto

lemma insert_told:
  assumes ok: "jobs_ok d" and r: "insert_job e d inp = (t, r)" and e: "je_ok e 4" and c: "snapshot e0 t i \<noteq> snapshot e0 d i"
  shows "\<exists>j. r = Inr j \<and> i \<in> set (targets_of True t (Some (jb_row j)))"
  using r
proof (cases rule: insert_job_cases)
  case same
  with c show ?thesis by simp
next
  case (new q ver)
  have t: "jobs_ok t" using insert_job_ok[OF ok, of e inp] r by simp
  have "job_assigned (jt_servers d) i (so_row q)"
    using told_if_sync[OF c] added_sync[OF ok, where q = q and ver = ver and i = i] t new(1) by auto
  then have a: "job_assigned (jt_servers t) i (so_row q)" using new(1) by simp
  have q: "q \<in> set (jt_jobs t)" using new(1) by simp
  then have "r = Inr (scan_stored (je_json e) (q, cur_row t (so_row q)))"
    using new(2) e get_job_finds[OF t q] by simp
  moreover have "distinct (map sv_id (jt_servers t))" using t by (simp add: jobs_ok_def)
  ultimately show ?thesis using targets_exact[of t q i] new(4) a by simp
qed

lemma delete_told:
  assumes ok: "jobs_ok d" and j: "get_job True js d k = Inr j" and c: "snapshot e0 t i \<noteq> snapshot e0 d i"
    and t: "t = fst (delete_job True d (jr_id (jb_row j)))"
  shows "i \<in> set (targets_of True t (Some (jb_row j)))"
proof -
  from get_job_known[OF j ok] obtain q where q: "q \<in> set (jt_jobs d)" "jr_id (so_row q) = k"
    and s: "j = scan_stored js (q, cur_row d (so_row q))" .
  have k: "jr_id (jb_row j) = k" using q(2) by (simp add: s scan_stored_def)
  then have td: "t = d\<lparr>jt_jobs := filter (\<lambda>j. jr_id (so_row j) \<noteq> k) (jt_jobs d), jt_versions := filter (\<lambda>v. sn_job v \<noteq> k) (jt_versions d)\<rparr>"
    using t q by (auto simp: delete_job_def list_ex_iff)
  then have "job_assigned (jt_servers d) i (so_row q)"
    using told_if_sync[OF c] removed_sync[OF ok q, of i] by auto
  then have "job_assigned (jt_servers t) i (so_row q)" "distinct (map sv_id (jt_servers t))" "target_valid (so_row q)"
    using td ok jobs_ok_fine[OF ok q(1)] by (simp_all add: jobs_ok_def job_fine_def)
  then show ?thesis using targets_exact[of t q i] s by simp
qed

text \<open>The job before and after the change of its row\<close>

lemma put_told:
  assumes ok: "jobs_ok d" "jobs_ok t" and q: "q \<in> set (jt_jobs d)" "jr_id (so_row q) = k"
    and t: "t = d\<lparr>jt_jobs := map (put_row k g) (jt_jobs d), jt_versions := jt_versions d @ vs\<rparr>"
    and g: "jr_id (so_row (g q)) = k" and c: "snapshot e0 t i \<noteq> snapshot e0 d i"
  shows "i \<in> set (targets_of True t (job_of (get_job True js d k))) \<union> set (targets_of True t (job_of (get_job True js t k)))"
proof -
  have a: "job_assigned (jt_servers t) i (so_row q) \<or> job_assigned (jt_servers t) i (so_row (g q))"
    using told_if_sync[OF c] put_sync[OF ok(1) _ q, where g = g and vs = vs and i = i] ok(2) t by auto
  have gq: "g q \<in> set (jt_jobs t)" using q by (auto simp: t put_row_def image_iff)
  have "distinct (map sv_id (jt_servers t))" "target_valid (so_row q)" "target_valid (so_row (g q))"
    using ok jobs_ok_fine[OF ok(1) q(1)] jobs_ok_fine[OF ok(2) gq] by (simp_all add: jobs_ok_def job_fine_def)
  with a targets_exact[of t q i js] targets_exact[of t "g q" i js] show ?thesis
    by (simp add: get_job_finds[OF ok(1) q] get_job_finds[OF ok(2) gq g] job_of_def)
qed

lemma patch_told:
  assumes ok: "jobs_ok d" and r: "patch_job e d k p = (t, r)" and e: "je_ok e 5" and c: "snapshot e0 t i \<noteq> snapshot e0 d i"
  shows "\<exists>j. r = Inr j \<and> i \<in> set (targets_of True t (job_of (get_job True (je_json e) d k))) \<union> set (targets_of True t (Some (jb_row j)))"
  using r ok
proof (cases rule: patch_job_cases)
  case same
  with c show ?thesis by simp
next
  case (changed q g vs)
  have t: "jobs_ok t" using patch_job_ok[OF ok, of e k p] r by simp
  have gq: "g q \<in> set (jt_jobs t)" using changed(1,2,3) by (auto simp: put_row_def image_iff)
  have f: "get_job True (je_json e) t k = Inr (scan_stored (je_json e) (g q, cur_row t (so_row (g q))))"
    by (rule get_job_finds[OF t gq changed(5)])
  with changed(4) e put_told[OF ok t changed(1,2,3,5) c, of "je_json e"] show ?thesis by (simp add: job_of_def)
qed

lemma set_enabled_told:
  assumes ok: "jobs_ok d" and r: "set_enabled_job True now d k b = (t, r)" and c: "snapshot e0 t i \<noteq> snapshot e0 d i"
  shows "r = Inr () \<and> i \<in> set (targets_of True t (job_of (get_job True js t k)))"
proof -
  let ?g = "\<lambda>q. q\<lparr>so_row := (so_row q)\<lparr>jr_enabled := b\<rparr>, so_updated := now\<rparr>"
  have t: "jobs_ok t" using set_enabled_ok[OF ok, of True now k b] r by simp
  have ex: "list_ex (\<lambda>j. jr_id (so_row j) = k) (jt_jobs d)" using r c by (auto simp: set_enabled_job_def split: if_splits)
  then obtain q where q: "q \<in> set (jt_jobs d)" "jr_id (so_row q) = k" and r': "r = Inr ()"
    using r by (auto simp: set_enabled_job_def list_ex_iff)
  have td: "t = d\<lparr>jt_jobs := map (put_row k ?g) (jt_jobs d), jt_versions := jt_versions d @ []\<rparr>"
    using r ex by (auto simp: set_enabled_job_def put_row_def[abs_def])
  have gq: "?g q \<in> set (jt_jobs t)" using q by (auto simp: td put_row_def image_iff)
  have v: "target_valid (so_row q)" "target_valid (so_row (?g q))" "distinct (map sv_id (jt_servers t))"
    using t jobs_ok_fine[OF ok q(1)] by (auto simp: job_fine_def target_valid_def jobs_ok_def)
  have "i \<in> set (targets_of True t (job_of (get_job True js d k))) \<union> set (targets_of True t (job_of (get_job True js t k)))"
    using q by (intro put_told[OF ok t q td _ c]) simp
  moreover have "job_assigned (jt_servers t) i (so_row q) = job_assigned (jt_servers t) i (so_row (?g q))"
    by (simp add: job_assigned_def)
  ultimately show ?thesis
    using r' v get_job_finds[OF ok q] get_job_finds[OF t gq] q(2) targets_exact[of t q i js] targets_exact[of t "?g q" i js]
    by (simp add: job_of_def)
qed

lemma smooth_ok:
  assumes "smooth e0 (e, op)"
  shows "je_ok e 0" "je_ok e 1" "je_ok e 2" "je_ok e 4" "je_ok e 5" "je_ok e 6" "je_ok e 7" "je_ok e 8"
  using assms by (simp_all add: smooth_def)

lemma job_step_told:
  assumes ok: "jobs_ok d" and s: "smooth e0 x" and c: "snapshot e0 (fst (job_step x d)) i \<noteq> snapshot e0 d i"
  shows "i \<in> fst ` set (snd (job_step x d))"
proof -
  obtain e op where x: "x = (e, op)" by fastforce
  note sm = smooth_ok[OF s[unfolded x]]
  show ?thesis
  proof (cases op)
    case (CreateJob body)
    then obtain inp where b: "body = Inr inp" "\<not> (cj_name inp = [] \<or> cj_schedule_cron inp = [] \<or> cj_script_body inp = [])"
      using c by (cases body) (auto simp: x job_step_def create_job_handler_def Let_def split: if_splits)
    obtain t r where r: "insert_job e d inp = (t, r)" by fastforce
    with b have "snapshot e0 t i \<noteq> snapshot e0 d i"
      using c by (auto simp: x CreateJob job_step_def create_job_handler_def Let_def split: sum.splits)
    from insert_told[OF ok r sm(4) this] obtain j where "r = Inr j" "i \<in> set (targets_of True t (Some (jb_row j)))" by auto
    with b r sm show ?thesis
      by (simp add: x CreateJob job_step_def create_job_handler_def Let_def fanout_keys)
  next
    case (PatchJob k body)
    then obtain p where b: "body = Inr p" using c by (cases body) (auto simp: x job_step_def patch_job_handler_def Let_def)
    obtain t r where r: "patch_job e d k p = (t, r)" by fastforce
    have "snapshot e0 t i \<noteq> snapshot e0 d i"
      using c r by (auto simp: x PatchJob b job_step_def patch_job_handler_def Let_def split: sum.splits job_error.splits)
    from patch_told[OF ok r sm(5) this] obtain j where "r = Inr j"
      "i \<in> set (targets_of True t (job_of (get_job True (je_json e) d k))) \<union> set (targets_of True t (Some (jb_row j)))" by auto
    with b r sm show ?thesis
      by (simp add: x PatchJob job_step_def patch_job_handler_def Let_def fanout_keys)
  next
    case (DeleteJob k)
    then obtain j where j: "get_job True (je_json e) d k = Inr j"
      using c sm(1) by (cases "get_job True (je_json e) d k") (auto simp: x job_step_def delete_job_handler_def Let_def split: job_error.splits)
    obtain t r where r: "delete_job True d (jr_id (jb_row j)) = (t, r)" by fastforce
    have ch: "snapshot e0 t i \<noteq> snapshot e0 d i"
      using c r sm by (auto simp: x DeleteJob j job_step_def delete_job_handler_def Let_def split: sum.splits)
    have "i \<in> set (targets_of True t (Some (jb_row j)))" using delete_told[OF ok j ch] r by simp
    moreover have "r = Inr ()" using r ch by (auto simp: delete_job_def split: if_splits)
    ultimately show ?thesis using j r sm
      by (simp add: x DeleteJob job_step_def delete_job_handler_def Let_def fanout_keys)
  next
    case (EnableJob k b)
    obtain t r where r: "set_enabled_job True (je_now e) d k b = (t, r)" by fastforce
    have "snapshot e0 t i \<noteq> snapshot e0 d i"
      using c r sm by (auto simp: x EnableJob job_step_def set_enabled_handler_def Let_def split: sum.splits job_error.splits)
    from set_enabled_told[OF ok r this, of "je_json e"] r sm show ?thesis
      by (simp add: x EnableJob job_step_def set_enabled_handler_def Let_def fanout_keys)
  qed
qed

interpretation agents: mirrored job_step "smooth e0" jobs_ok "snapshot e0" for e0
  by unfold_locales (auto intro: job_step_ok job_step_true job_step_told)

section \<open>The tables over time\<close>


text \<open>C38. A server holds the snapshot of its jobs, keeps each snapshot it is sent and loses none: after any
  sequence of requests to create, change, enable, disable and delete jobs, whose statements succeed, what each
  server holds is its snapshot of the tables as they are then. So no request forgets a server that gained, lost
  or kept a changed job.\<close>

theorem agents_follow_jobs:
  "jobs_ok d \<Longrightarrow> list_all (smooth e0) xs \<Longrightarrow> held_after job_step xs d (snapshot e0 d) = snapshot e0 (ends_in job_step xs d)"
  by (rule agents.run_held)

section \<open>The precedence of secrets\<close>

definition picks :: "secret_row list \<Rightarrow> (string \<rightharpoonup> secret_row) \<Rightarrow> bool" where
  "picks rows m \<longleftrightarrow> (\<forall>n. (case m n of
       None \<Rightarrow> \<forall>r\<in>set rows. se_name r \<noteq> n
     | Some c \<Rightarrow> c \<in> set rows \<and> se_name c = n \<and> (\<forall>r\<in>set rows. se_name r = n \<longrightarrow> scope_rank (se_scope r) \<le> scope_rank (se_scope c))))"

lemma picks_step: "picks rows m \<Longrightarrow> picks (rows @ [r]) (pick_secret m r)"
proof -
  assume p: "picks rows m"
  show ?thesis
    unfolding picks_def
  proof
    fix n
    show "case pick_secret m r n of
       None \<Rightarrow> \<forall>r'\<in>set (rows @ [r]). se_name r' \<noteq> n
     | Some c \<Rightarrow> c \<in> set (rows @ [r]) \<and> se_name c = n \<and>
         (\<forall>r'\<in>set (rows @ [r]). se_name r' = n \<longrightarrow> scope_rank (se_scope r') \<le> scope_rank (se_scope c))"
      using p[unfolded picks_def, rule_format, of n]
      by (cases "se_name r = n") (force simp: pick_secret_def split: option.splits)+
  qed
qed

lemma picks_fold: "picks rows (foldl pick_secret Map.empty rows)"
  by (induction rows rule: rev_induct) (simp add: picks_def, simp add: picks_step)



section \<open>Samples\<close>

definition sample_json :: json where
  "sample_json = \<lparr>js_env = (\<lambda>_. ''{}''), js_read_env = (\<lambda>_. Map.empty), js_refs = (\<lambda>_. ''[]''), js_read_refs = (\<lambda>_. [])\<rparr>"

definition sample_box :: aead where
  "sample_box = \<lparr>ae_nonce_size = 1, ae_seal = (\<lambda>n p. p), ae_open = (\<lambda>n c. Inr c)\<rparr>"

definition sample_request :: "string \<Rightarrow> job_env" where
  "sample_request v = \<lparr>je_ok = (\<lambda>_. True), je_json = sample_json, je_box = sample_box, je_job_id = ''j'', je_version_id = v, je_now = 5\<rparr>"

definition sample_server :: "string \<Rightarrow> (string \<times> string) list \<Rightarrow> server_row" where
  "sample_server i ls = demo_server\<lparr>sv_id := i, sv_labels := Some ls\<rparr>"

definition sample_secret :: "string \<Rightarrow> string \<Rightarrow> string option \<Rightarrow> string \<Rightarrow> secret_row" where
  "sample_secret i s k v = \<lparr>se_id = i, se_scope = s, se_scope_id = k, se_name = ''KEY'', se_value = CHR ''n'' # v, se_created = 1\<rparr>"

definition sample_db :: job_db where
  "sample_db = \<lparr>jt_servers = [sample_server ''a'' [], sample_server ''b'' [(''env'', ''prod'')]], jt_jobs = [], jt_versions = [],
     jt_secrets = [sample_secret ''s1'' ''global'' None ''old'', sample_secret ''s2'' ''server'' (Some ''b'') ''own'']\<rparr>"

definition sample_input :: create_job_input where
  "sample_input = \<lparr>cj_target_kind = [], cj_server_id = ''a'', cj_target_labels = [], cj_name = ''backup'', cj_description = [],
     cj_interpreter = [], cj_schedule_cron = ''0 3 * * *'', cj_timezone = [], cj_enabled = None, cj_timeout_seconds = 0,
     cj_concurrency_policy = [], cj_catchup_policy = [], cj_max_retries = 0, cj_working_dir = [], cj_run_as_user = [],
     cj_cpu_quota_percent = 0, cj_memory_max_mb = 0, cj_tasks_max = 0, cj_io_weight = 0, cj_script_body = ''true'',
     cj_env = Map.empty, cj_secret_refs = []\<rparr>"

definition sample_patch :: patch_job_input where
  "sample_patch = \<lparr>pt_target_kind = Some ''labels'', pt_server_id = None, pt_target_labels = Some [(''env'', ''prod'')], pt_name = None,
     pt_description = None, pt_interpreter = None, pt_schedule_cron = None, pt_timezone = None, pt_enabled = None,
     pt_timeout_seconds = None, pt_concurrency_policy = None, pt_catchup_policy = None, pt_max_retries = None,
     pt_working_dir = None, pt_run_as_user = None, pt_cpu_quota_percent = None, pt_memory_max_mb = None, pt_tasks_max = None,
     pt_io_weight = None, pt_script_body = Some ''false'', pt_env = None, pt_secret_refs = None\<rparr>"

definition sample_ops :: "(job_env \<times> job_op) list" where
  "sample_ops = [(sample_request ''v1'', CreateJob (Inr sample_input)), (sample_request ''v2'', PatchJob ''j'' (Inr sample_patch))]"

lemma sample_db_ok: "jobs_ok sample_db"
  by (simp add: jobs_ok_def sample_db_def sample_server_def)

text \<open>A job created for one server is moved to another by a selector, with a new script.\<close>

lemma sample_run:
  "map (\<lambda>(j, v). (jr_id j, vr_number v, vr_script_body v)) (sync_of (ends_in job_step sample_ops sample_db) ''b'') = [(''j'', 2, ''false'')] \<and>
   sync_of (ends_in job_step sample_ops sample_db) ''a'' = []"
  by code_simp


theorem agents_follow_jobs_witness:
  "held_after job_step sample_ops sample_db (snapshot (sample_request []) sample_db) = snapshot (sample_request []) (ends_in job_step sample_ops sample_db)"
  by (rule agents_follow_jobs[OF sample_db_ok]) (simp add: sample_ops_def smooth_def sample_request_def)

lemma sample_resolved:
  "resolve_for_job True sample_box sample_db ''j'' ''b'' [''KEY''] = Inr [''KEY'' \<mapsto> ''own'']"
  by (auto simp: resolve_for_job_def sample_db_def sample_secret_def secret_applies_def pick_secret_def scope_rank_def opened_def
      open_blob_def sample_box_def)



end
