(* ===== verification/Spec2Isabelle.thy ===== *)
theory Spec2Isabelle
  imports Outbox Requests UpdatePolicy Trackers Scheduler Executor Runs DeployFacts DeploySamples DeployStream ProcessFacts AuthSamples JobFacts
begin

text \<open>
  CronCompose runs cron jobs and deploys projects on many servers from one control plane. The
  repository has an agent (src/agent, Go), a control plane (src/control-plane, Go), the messages between
  them (src/proto/agent.proto), a command line client and a web interface. This library models the core
  of the two Go programs and proves what makes it correct.

  \<^bold>\<open>How the parts interact.\<close> The agent keeps one gRPC stream to the control plane. Jobs flow down as a
  full sync (Gateway.build_full_sync), the agent schedules them (Scheduler, Runs), runs them (Executor)
  and queues what happened in an outbox on disk (Outbox), which the stream drains in order; the control
  plane stores it and fans it out to browsers (Gateway, Trackers). Questions of a browser to an agent go
  through mailboxes that pair a reply with its request (Pending, Requests). A deploy starts on the
  control plane by a click, a token, a webhook or a rollback (DeployRuns, DeployApi), becomes one command
  (DeployRuns.start_run_db), is carried out on the agent (Releases, Dotenv, DeployPlan, DeployFlow,
  Processes), and its end comes back as an event that may start a rollback (Gateway.deploy_done,
  DeployRuns.deploy_run_finished).

  \<^bold>\<open>Theories and sources.\<close>
  \<^item> Prelude, Paths: Go's strings, strconv and path/filepath functions over byte strings, maps, results.
  \<^item> Contracts: the locales, that is the interfaces several components share: machines whose steps keep an
    invariant (safe_machine), state kept by key (keyed_state), normal forms (normalizer) operations
    with a budget (metered) and machines that hand out tickets and take them back (tickets). JobFacts adds
    clients that are told of changes (mirrored). Each is interpreted on the model's own definitions.
  \<^item> Messages: proto/agent.proto, one record per message, two datatypes for the two directions.
  \<^item> Outbox: agent/internal/outbox/outbox.go (Open, Enqueue, Drain, Len) over a parameter for bbolt.
  \<^item> Scheduler: agent/internal/scheduler/scheduler.go over a parameter for the cron library.
  \<^item> Executor: agent/internal/executor, agent/internal/osuser: user, command line, environment.
  \<^item> Runs: agent/internal/runtime: sync, run admission, retries, catch-up, backoff.
  \<^item> Pending, Requests: control-plane/internal/agentgw/pending*.go, terminal.go, command.go, users.go,
    tools.go, network.go. Channels are bounded lists, a double close is None (a panic).
  \<^item> Registry: registry.go, offline.go of agentgw: connections are heap cells, timers are cells.
  \<^item> Trackers: broker.go, logcap.go, progress.go, root_repush.go of agentgw.
  \<^item> UpdatePolicy: update.go of agentgw.
  \<^item> Gateway: stream.go, edge_auth.go, sync.go, connectors.go, service.go of agentgw: who a stream belongs
    to, every message of an agent, and the full sync.
  \<^item> DeployTypes, Naming, Presets, DeployEnv: control-plane/internal/deploys: the data, names, detection of
    frameworks, environment variables with their encryption (cryptobox is a parameter with its law).
  \<^item> DeployStore, DeployRuns, DeployApi, DeployHistory, DeployFacts: the tables, starting and finishing a
    run, the HTTP handlers and webhooks, sequences of operations, and the facts that span them.
  \<^item> Dotenv, Releases, DeployPlan, DeployFlow: agent/internal/deploy: .env files, release directories, the decisions of a deploy and
    the pipeline of runner.go and flow.go, step by step over a world that answers for git, scripts and files.
  \<^item> DeployFlowFacts, DeployLive, DeploySamples: the order of its steps, what a failure leaves, what a good run
    starts, and sample worlds.
  \<^item> DeployEvents, DeployEventsFacts, DeployStream: the events of a run (emit, redaction, log cap, metrics), and
    the stream of them from the agent to the tables of the control plane.
  \<^item> Processes, ProcessFacts: pm2, docker compose and systemd as the agent uses them (process.go, runapp.go,
    ecosystem.go).
  \<^item> Sessions, Auth, OAuth, Passkeys: control-plane/internal/auth: signed cookies, users, roles and guards;
    GitHub, GitLab and OpenID sign-in and the stored git tokens; WebAuthn. AuthFacts runs them together as one
    machine over the tables; AuthSamples has samples and two defects.
  \<^item> Jobs, JobFacts: control-plane/internal/jobs and secrets: jobs, versions, targets, the snapshots pushed after
    a change, and the precedence of secrets.

  \<^bold>\<open>State and operations.\<close> A table is a list of rows; a Go struct is a record with the struct's fields in
  their order; a Go map is a partial function, or a list of its entries where the code's iteration
  order can be seen; a (value, error) pair is a sum. A function that calls the database, the clock or
  another program takes the outcomes of these calls as arguments (db n is the outcome of the n-th call),
  so that a theorem for all arguments covers every failure. Handlers are functions from state to state
  with all their early returns. Concurrency is modelled where the code guards it: mailboxes,
  connections, run gates and mutex-protected maps are state machines whose operations are the critical
  sections, and theorems speak of all their interleavings as lists of operations.

  \<^bold>\<open>What the lemmas show.\<close> No message of a job's run is lost, doubled or reordered (Outbox, Runs); no
  sequence of messages and disconnects makes the gateway panic (Pending, Registry, Gateway); a stream and a
  run have the identity they claim (Gateway, Executor); the schedule is the assigned jobs (Gateway,
  Scheduler); runs that must not overlap do not (Runs); deploys are single-flight under webhooks and
  rollbacks do not loop (DeployHistory); secrets are neither shown nor committed and survive edits
  (DeployEnv, DeployFacts); .env files round-trip, release directories are never overwritten and pruning
  keeps what is served (Dotenv, Releases);
  a deploy moves the served release once, before it serves it, and a failed build leaves it (DeployFlowFacts); its
  events are in order, numbered and free of the token (DeployEventsFacts, DeployStream); an identity on a request
  was earned by a sign-in, a challenge is accepted once, a step-up is one's own (AuthFacts); the tables of jobs stay
  consistent and the agents' snapshots follow them (JobFacts). Theorems of kind error state, on the model, what the
  code does where it does not do what it means to.

  \<^bold>\<open>Bounds and fuel.\<close> Retries end by the measure max_retries - n; catch-up by its cap. The search for a
  free release name has fuel for two more tries than there are directories, and
  Releases.promote_takes_fresh_name proves that this is enough. Walking up for .env files stops after six
  directories, as in the code. Integers that the protocol keeps at 32 bits are wrapped by to_int32.

  \<^bold>\<open>Parameters.\<close> bbolt, robfig/cron, AES-GCM, HMAC, SHA-256, JSON decoding, the processes of scripts, the
  APIs of git providers and the SQL server are arguments of the definitions that use them; what is relied
  on is a named hypothesis (Outbox.bolt_laws, Scheduler.cron_laws, DeployEnv.aead_laws) with an instance that satisfies it.

  \<^bold>\<open>Not modelled.\<close> TLS set-up and listeners, drivers of third-party tools on the agent (docker, nginx, databases, package
  managers, wireless), self-update and enrolment, the HTTP layer (routing, JSON encoding, audit log), SQL
  itself, calls of provider APIs for repositories, notifications, lists for display (runs, servers, analytics), the
  web interface and the command line client: input and output around the core, or other languages.
\<close>

end
